(* ===== verification/Prelude.thy ===== *)
theory Prelude
  imports Main "HOL-Library.Word" "HOL-Library.List_Lexorder" "HOL-Library.Char_ord"
    "HOL-Library.Product_Lexorder"
begin

text \<open>
  Shared vocabulary of the gateway development: the Go types the model uses (byte strings, 64-bit
  integers, UUIDs), the parameters that stand for third-party code (the uuid package, Unicode case
  tables, SHA-256), the parts of \<open>strings\<close> and \<open>strconv\<close> the source calls, and a small state and error
  monad with rules for invariants. The generic lemmas are declared to the simplifier or into the
  collections \<open>keeps_intros\<close> and \<open>go_strings\<close>.
\<close>

named_theorems keeps_intros "rules that a state-and-error computation keeps an invariant"
named_theorems go_strings "facts on the Go string functions"

section \<open>Types\<close>

text \<open>A Go string and a Go byte slice are both byte sequences; a conversion between them copies the
  bytes, so both are \<open>char list\<close>.\<close>

type_synonym bytes = "char list"
type_synonym int64 = "64 word"
type_synonym uint32 = "32 word"

text \<open>A \<open>uuid.UUID\<close> is an array of 16 bytes; \<open>uuid.Nil\<close> is the zero array.\<close>

type_synonym uuid = "128 word"

abbreviation uuid_Nil :: uuid where "uuid_Nil \<equiv> 0"

text \<open>Third-party or table-driven functions the source only calls: \<open>UUID.String\<close>, \<open>uuid.Parse\<close>, the
  non-ASCII parts of \<open>strings.ToLower\<close> and \<open>strings.TrimSpace\<close>, and SHA-256. They are arguments of the definitions.\<close>

record golib =
  uuid_String :: "uuid \<Rightarrow> string"
  uuid_Parse :: "string \<Rightarrow> uuid option"
  unicode_ToLower :: "string \<Rightarrow> string"
  unicode_TrimSpace :: "string \<Rightarrow> string"
  sha256_Sum :: "bytes \<Rightarrow> bytes"

text \<open>The documented behaviour of the uuid package the gateway relies on: a printed UUID parses back
  to itself, is not empty and contains no line break.\<close>

definition uuid_lawful :: "golib \<Rightarrow> bool" where
  "uuid_lawful L \<longleftrightarrow> (\<forall>u. uuid_Parse L (uuid_String L u) = Some u
     \<and> uuid_String L u \<noteq> [] \<and> CHR 0x0A \<notin> set (uuid_String L u))"

lemma uuid_lawfulD [simp]:
  assumes "uuid_lawful L"
  shows "uuid_Parse L (uuid_String L u) = Some u" "uuid_String L u \<noteq> []"
    "CHR 0x0A \<notin> set (uuid_String L u)"
  using assms by (auto simp: uuid_lawful_def)

lemma uuid_String_inj [simp]:
  assumes "uuid_lawful L"
  shows "uuid_String L u = uuid_String L v \<longleftrightarrow> u = v"
  using uuid_lawfulD(1) [OF assms] by (metis option.inject)

text \<open>A concrete instance, used wherever a theorem's hypotheses are shown to hold: a UUID is printed
  in unary.\<close>

definition demo_lib :: golib where
  "demo_lib = \<lparr>uuid_String = (\<lambda>u. CHR ''u'' # replicate (unat u) CHR ''1''),
     uuid_Parse = (\<lambda>s. case s of [] \<Rightarrow> None
        | c # cs \<Rightarrow> if c = CHR ''u'' \<and> (\<forall>d\<in>set cs. d = CHR ''1'') then Some (of_nat (length cs)) else None),
     unicode_ToLower = (\<lambda>s. s), unicode_TrimSpace = (\<lambda>s. s), sha256_Sum = (\<lambda>b. b)\<rparr>"

lemma demo_lib_sel [simp]:
  "uuid_String demo_lib = (\<lambda>u. CHR ''u'' # replicate (unat u) CHR ''1'')"
  "unicode_ToLower demo_lib = (\<lambda>s. s)" "unicode_TrimSpace demo_lib = (\<lambda>s. s)" "sha256_Sum demo_lib = (\<lambda>b. b)"
  by (simp_all add: demo_lib_def)

lemma demo_lib_Parse [simp]:
  "uuid_Parse demo_lib (CHR ''u'' # cs) =
     (if \<forall>d\<in>set cs. d = CHR ''1'' then Some (of_nat (length cs)) else None)"
  by (simp add: demo_lib_def)

lemma demo_lib_lawful [simp]: "uuid_lawful demo_lib"
  by (auto simp: uuid_lawful_def)

section \<open>The state and error monad\<close>

text \<open>Fallible operations on a state: the new state comes with either an error or a value, so a Go
  method that fails half-way through its writes keeps the writes it made.\<close>

type_synonym ('s, 'e, 'a) sr = "'s \<Rightarrow> ('e + 'a) \<times> 's"

definition ret :: "'a \<Rightarrow> ('s, 'e, 'a) sr" where
  "ret a = (\<lambda>s. (Inr a, s))"

definition raise :: "'e \<Rightarrow> ('s, 'e, 'a) sr" where
  "raise e = (\<lambda>s. (Inl e, s))"

definition bnd :: "('s, 'e, 'a) sr \<Rightarrow> ('a \<Rightarrow> ('s, 'e, 'b) sr) \<Rightarrow> ('s, 'e, 'b) sr" where
  "bnd m f = (\<lambda>s. case m s of (Inl e, t) \<Rightarrow> (Inl e, t) | (Inr a, t) \<Rightarrow> f a t)"

definition gets :: "('s \<Rightarrow> 'a) \<Rightarrow> ('s, 'e, 'a) sr" where
  "gets f = (\<lambda>s. (Inr (f s), s))"

text \<open>\<open>guard b e\<close> is an early return of the error \<open>e\<close> unless \<open>b\<close>; \<open>attempt m\<close> reifies the outcome, for
  the places where the source inspects an error instead of returning it.\<close>

definition guard :: "bool \<Rightarrow> 'e \<Rightarrow> ('s, 'e, unit) sr" where
  "guard b e = (if b then ret () else raise e)"

definition attempt :: "('s, 'e, 'a) sr \<Rightarrow> ('s, 'e, 'e + 'a) sr" where
  "attempt m = (\<lambda>s. case m s of (r, t) \<Rightarrow> (Inr r, t))"

definition lift_sum :: "'e + 'a \<Rightarrow> ('s, 'e, 'a) sr" where
  "lift_sum r = (\<lambda>s. (r, s))"

lemmas sr_defs = ret_def raise_def bnd_def gets_def guard_def attempt_def lift_sum_def

lemma sr_apply [simp]:
  "ret a s = (Inr a, s)" "raise e s = (Inl e, s)" "gets f s = (Inr (f s), s)"
  "lift_sum r s = (r, s)" "attempt m s = (Inr (fst (m s)), snd (m s))"
  "guard b e s = (if b then (Inr (), s) else (Inl e, s))"
  by (simp_all add: sr_defs split: prod.splits)

lemma bnd_Inr_iff:
  "bnd m f s = (Inr b, u) \<longleftrightarrow> (\<exists>a t. m s = (Inr a, t) \<and> f a t = (Inr b, u))"
  by (auto simp: bnd_def split: prod.splits sum.splits)

lemma bnd_Inl_iff:
  "bnd m f s = (Inl e, u) \<longleftrightarrow> m s = (Inl e, u) \<or> (\<exists>a t. m s = (Inr a, t) \<and> f a t = (Inl e, u))"
  by (auto simp: bnd_def split: prod.splits sum.splits)

lemma bndE:
  assumes "bnd m f s = (r, u)"
  obtains e where "m s = (Inl e, u)" "r = Inl e" | a t where "m s = (Inr a, t)" "f a t = (r, u)"
  using assms by (auto simp: bnd_def split: prod.splits sum.splits)

lemma bnd_step [simp]:
  "m s = (Inr a, t) \<Longrightarrow> bnd m f s = f a t"
  "m s = (Inl e, t) \<Longrightarrow> bnd m f s = (Inl e, t)"
  by (simp_all add: bnd_def)

lemma bnd_ret_like [simp]:
  "bnd (ret a) f s = f a s" "bnd (gets g) f s = f (g s) s" "bnd (raise e) f s = (Inl e, s)"
  "bnd (guard b e) f' s = (if b then f' () s else (Inl e, s))"
  by (simp_all add: bnd_def)

text \<open>\<open>keeps P m\<close>: the computation keeps the invariant \<open>P\<close>, whether it fails or not. The rules below are
  all an invariant proof of a straight-line handler needs.\<close>

definition keeps :: "('s \<Rightarrow> bool) \<Rightarrow> ('s, 'e, 'a) sr \<Rightarrow> bool" where
  "keeps P m \<longleftrightarrow> (\<forall>s. P s \<longrightarrow> P (snd (m s)))"

lemma keepsI: "(\<And>s. P s \<Longrightarrow> P (snd (m s))) \<Longrightarrow> keeps P m"
  by (simp add: keeps_def)

lemma keepsD: "keeps P m \<Longrightarrow> P s \<Longrightarrow> P (snd (m s))"
  by (simp add: keeps_def)

lemma keeps_pure [keeps_intros]:
  "keeps P (ret a)" "keeps P (raise e)" "keeps P (gets f)" "keeps P (guard b e)" "keeps P (lift_sum r)"
  by (simp_all add: keeps_def)

lemma keeps_bnd [keeps_intros]: "keeps P m \<Longrightarrow> (\<And>a. keeps P (f a)) \<Longrightarrow> keeps P (bnd m f)"
  unfolding keeps_def bnd_def by (fastforce split: prod.splits sum.splits)

lemma keeps_attempt [keeps_intros]: "keeps P m \<Longrightarrow> keeps P (attempt m)"
  by (simp add: keeps_def)

lemma keeps_if [keeps_intros]: "(b \<Longrightarrow> keeps P m) \<Longrightarrow> (\<not> b \<Longrightarrow> keeps P n) \<Longrightarrow> keeps P (if b then m else n)"
  by simp

lemma keeps_case_option [keeps_intros]:
  "(x = None \<Longrightarrow> keeps P m) \<Longrightarrow> (\<And>a. x = Some a \<Longrightarrow> keeps P (f a)) \<Longrightarrow>
   keeps P (case x of None \<Rightarrow> m | Some a \<Rightarrow> f a)"
  by (cases x) auto

lemma keeps_case_sum [keeps_intros]:
  "(\<And>e. x = Inl e \<Longrightarrow> keeps P (g e)) \<Longrightarrow> (\<And>a. x = Inr a \<Longrightarrow> keeps P (f a)) \<Longrightarrow>
   keeps P (case x of Inl e \<Rightarrow> g e | Inr a \<Rightarrow> f a)"
  by (cases x) auto

lemma keeps_case_prod [keeps_intros]:
  "(\<And>a b. x = (a, b) \<Longrightarrow> keeps P (f a b)) \<Longrightarrow> keeps P (case x of (a, b) \<Rightarrow> f a b)"
  by (cases x) auto

lemma keeps_let [keeps_intros]: "(\<And>a. a = x \<Longrightarrow> keeps P (f a)) \<Longrightarrow> keeps P (let a = x in f a)"
  by simp

text \<open>\<open>triple P m Q R\<close>: from a state with \<open>P\<close>, a successful run ends in \<open>Q\<close> of its value, a failing one in \<open>R\<close> of
  its error. The rules compose it along a straight-line handler.\<close>

definition triple :: "('s \<Rightarrow> bool) \<Rightarrow> ('s, 'e, 'a) sr \<Rightarrow> ('a \<Rightarrow> 's \<Rightarrow> bool) \<Rightarrow> ('e \<Rightarrow> 's \<Rightarrow> bool) \<Rightarrow> bool" where
  "triple P m Q R \<longleftrightarrow> (\<forall>s. P s \<longrightarrow> (case m s of (Inr a, t) \<Rightarrow> Q a t | (Inl e, t) \<Rightarrow> R e t))"

lemma tripleI:
  "(\<And>s a t. P s \<Longrightarrow> m s = (Inr a, t) \<Longrightarrow> Q a t) \<Longrightarrow> (\<And>s e t. P s \<Longrightarrow> m s = (Inl e, t) \<Longrightarrow> R e t) \<Longrightarrow> triple P m Q R"
  unfolding triple_def by (fastforce split: prod.splits sum.splits)

lemma tripleD:
  assumes "triple P m Q R" "P s"
  shows "m s = (Inr a, t) \<Longrightarrow> Q a t" "m s = (Inl e, t) \<Longrightarrow> R e t"
  using assms by (auto simp: triple_def)

lemma triple_bnd: "triple P m Q R \<Longrightarrow> (\<And>a. triple (Q a) (f a) Q' R) \<Longrightarrow> triple P (bnd m f) Q' R"
  unfolding triple_def bnd_def by (fastforce split: prod.splits sum.splits)

lemma triple_weaken:
  "triple P m Q R \<Longrightarrow> (\<And>s. P' s \<Longrightarrow> P s) \<Longrightarrow> (\<And>a s. Q a s \<Longrightarrow> Q' a s) \<Longrightarrow> (\<And>e s. R e s \<Longrightarrow> R' e s) \<Longrightarrow> triple P' m Q' R'"
  unfolding triple_def by (fastforce split: prod.splits sum.splits)

lemma triple_pure:
  "(\<And>s. P s \<Longrightarrow> Q a s) \<Longrightarrow> triple P (ret a) Q R" "(\<And>s. P s \<Longrightarrow> R e s) \<Longrightarrow> triple P (raise e) Q R"
  "(\<And>s. P s \<Longrightarrow> Q' (f s) s) \<Longrightarrow> triple P (gets f) Q' R"
  "(\<And>s. P s \<Longrightarrow> \<not> b \<Longrightarrow> R e s) \<Longrightarrow> (\<And>s. P s \<Longrightarrow> b \<Longrightarrow> Q'' () s) \<Longrightarrow> triple P (guard b e) Q'' R"
  by (simp_all add: triple_def)

lemma triple_if: "(b \<Longrightarrow> triple P m Q R) \<Longrightarrow> (\<not> b \<Longrightarrow> triple P n Q R) \<Longrightarrow> triple P (if b then m else n) Q R"
  by simp

lemma triple_attempt:
  "triple P m (\<lambda>a. Q (Inr a)) (\<lambda>e. Q (Inl e)) \<Longrightarrow> triple P (attempt m) Q R"
  unfolding triple_def attempt_def by (fastforce split: prod.splits sum.splits)

lemma triple_seq:
  "triple P m Q R0 \<Longrightarrow> (\<And>e s. R0 e s \<Longrightarrow> R e s) \<Longrightarrow> (\<And>a. triple (Q a) (f a) Q' R) \<Longrightarrow> triple P (bnd m f) Q' R"
  by (rule triple_bnd) (auto intro: triple_weaken)

lemma triple_guard:
  "(\<And>s. P s \<Longrightarrow> \<not> b \<Longrightarrow> R e s) \<Longrightarrow> (b \<Longrightarrow> triple P (f ()) Q R) \<Longrightarrow> triple P (bnd (guard b e) f) Q R"
  by (cases b) (simp_all add: triple_def guard_def bnd_def raise_def ret_def)

lemma triple_fact: "(F \<Longrightarrow> triple P m Q R) \<Longrightarrow> triple (\<lambda>s. P s \<and> F) m Q R"
  by (cases F) (simp_all add: triple_def)

lemma triple_ex: "(\<And>x. triple (P x) m Q R) \<Longrightarrow> triple (\<lambda>s. \<exists>x. P x s) m Q R"
  unfolding triple_def by (intro allI impI, elim exE) simp

lemma triple_lift_sum:
  "(\<And>s a. P s \<Longrightarrow> r = Inr a \<Longrightarrow> Q a s) \<Longrightarrow> (\<And>s e. P s \<Longrightarrow> r = Inl e \<Longrightarrow> R e s) \<Longrightarrow> triple P (lift_sum r) Q R"
  by (cases r) (simp_all add: triple_def)

lemma triple_snd:
  assumes "triple P m (\<lambda>_. Q) (\<lambda>_. Q)" "P s" shows "Q (snd (m s))"
proof -
  obtain r t where "m s = (r, t)" by fastforce
  with assms show ?thesis by (cases r) (auto simp: triple_def)
qed

lemma keeps_of_triple:
  assumes "triple P m Q R" "\<And>a s. Q a s \<Longrightarrow> P s" "\<And>e s. R e s \<Longrightarrow> P s" shows "keeps P m"
proof (rule keepsI)
  fix s assume "P s"
  with triple_weaken [OF assms(1), where P' = P and Q' = "\<lambda>_. P" and R' = "\<lambda>_. P"] assms(2,3)
  show "P (snd (m s))" using triple_snd [of P m P s] by blast
qed

lemma triple_keeps: "keeps P m \<Longrightarrow> triple P m (\<lambda>_. P) (\<lambda>_. P)"
  unfolding triple_def keeps_def by (fastforce split: prod.splits sum.splits)

section \<open>Lists\<close>

lemma length_filter_update:
  assumes "t < length xs"
  shows "length (filter P (xs[t := y])) + (if P (xs ! t) then 1 else 0)
    = length (filter P xs) + (if P y then 1 else 0)"
proof -
  have "length (filter P xs) = length (filter P (take t xs @ xs ! t # drop (Suc t) xs))"
    using id_take_nth_drop [OF assms] by (rule arg_cong)
  then show ?thesis using assms by (simp add: upd_conv_take_nth_drop)
qed

section \<open>Go maps\<close>

text \<open>A Go map, or a directory, as an association list with distinct keys. The order of the list is that
  of insertion; code that depends on an order sorts.\<close>

type_synonym ('k, 'e) gomap = "('k \<times> 'e) list"

definition gm_put :: "'k \<Rightarrow> 'e \<Rightarrow> ('k, 'e) gomap \<Rightarrow> ('k, 'e) gomap" where
  "gm_put k e m = (if k \<in> fst ` set m then map (\<lambda>(j, d). (j, if j = k then e else d)) m else m @ [(k, e)])"

definition gm_delete :: "'k \<Rightarrow> ('k, 'e) gomap \<Rightarrow> ('k, 'e) gomap" where
  "gm_delete k m = filter (\<lambda>p. fst p \<noteq> k) m"

lemma fold_gm_delete: "fold gm_delete ks m = filter (\<lambda>p. fst p \<notin> set ks) m"
  by (induction ks arbitrary: m) (auto simp: gm_delete_def intro: filter_cong)

lemma map_of_override:
  "map_of (map (\<lambda>(j, d). (j, if j = k then e else d)) m) x = (if x = k then map_option (\<lambda>_. e) (map_of m x) else map_of m x)"
  by (induction m) auto

lemma map_of_gm_put [simp]: "map_of (gm_put k e m) = (map_of m)(k \<mapsto> e)"
proof (cases "k \<in> fst ` set m")
  case True
  then obtain d where "map_of m k = Some d" by (metis map_of_eq_None_iff not_None_eq)
  with True show ?thesis by (simp add: gm_put_def fun_eq_iff map_of_override)
next
  case False
  then have "map_of m k = None" by (simp add: map_of_eq_None_iff)
  with False show ?thesis by (auto simp: gm_put_def fun_eq_iff map_add_def split: option.splits)
qed

lemma map_of_filter_keep: "k \<notin> S \<Longrightarrow> map_of (filter (\<lambda>p. fst p \<notin> S) m) k = map_of m k"
  by (induction m) auto

lemma map_of_gm_delete [simp]: "map_of (gm_delete k m) = (map_of m)(k := None)"
  by (induction m) (auto simp: gm_delete_def fun_eq_iff)

lemma distinct_gm_put [simp]: "distinct (map fst m) \<Longrightarrow> distinct (map fst (gm_put k e m))"
proof (cases "k \<in> fst ` set m")
  case True
  then have "map fst (gm_put k e m) = map fst m"
    by (simp add: gm_put_def case_prod_beta comp_def)
  then show "distinct (map fst m) \<Longrightarrow> distinct (map fst (gm_put k e m))" by simp
qed (simp add: gm_put_def)

lemma distinct_gm_delete [simp]: "distinct (map fst m) \<Longrightarrow> distinct (map fst (gm_delete k m))"
  by (simp add: gm_delete_def distinct_map_filter)

section \<open>Go strings\<close>

definition HasPrefix :: "string \<Rightarrow> string \<Rightarrow> bool" where
  "HasPrefix s p \<longleftrightarrow> take (length p) s = p"

definition HasSuffix :: "string \<Rightarrow> string \<Rightarrow> bool" where
  "HasSuffix s p \<longleftrightarrow> length p \<le> length s \<and> drop (length s - length p) s = p"

definition TrimSuffix :: "string \<Rightarrow> string \<Rightarrow> string" where
  "TrimSuffix s p = (if HasSuffix s p then take (length s - length p) s else s)"

text \<open>\<open>strings.Split\<close> with a one-byte separator, and \<open>strings.Join\<close>.\<close>

fun Split :: "char \<Rightarrow> string \<Rightarrow> string list" where
  "Split c [] = [[]]"
| "Split c (x # xs) = (if x = c then [] # Split c xs
     else (case Split c xs of [] \<Rightarrow> [[x]] | y # ys \<Rightarrow> (x # y) # ys))"

fun Join :: "string \<Rightarrow> string list \<Rightarrow> string" where
  "Join c [] = []"
| "Join c [x] = x"
| "Join c (x # y # ys) = x @ c @ Join c (y # ys)"

definition ascii :: "string \<Rightarrow> bool" where
  "ascii s \<longleftrightarrow> (\<forall>c\<in>set s. of_char c < (128::nat))"

definition lower_ascii :: "char \<Rightarrow> char" where
  "lower_ascii c = (if CHR ''A'' \<le> c \<and> c \<le> CHR ''Z'' then char_of (of_char c + (32::nat)) else c)"

text \<open>\<open>strings.ToLower\<close>: a byte-wise map on ASCII input, the Unicode tables otherwise.\<close>

definition ToLower :: "golib \<Rightarrow> string \<Rightarrow> string" where
  "ToLower L s = (if ascii s then map lower_ascii s else unicode_ToLower L s)"

text \<open>\<open>strings.TrimSpace\<close> and \<open>bytes.TrimSpace\<close>: the ASCII scan from both ends, the Unicode tables as soon as an
  end is not ASCII.\<close>

definition ascii_space :: "char \<Rightarrow> bool" where
  "ascii_space c \<longleftrightarrow> c \<in> {CHR 0x09, CHR 0x0A, CHR 0x0B, CHR 0x0C, CHR 0x0D, CHR '' ''}"

definition TrimSpace :: "golib \<Rightarrow> string \<Rightarrow> string" where
  "TrimSpace L s = (let s1 = dropWhile ascii_space s in
     if s1 \<noteq> [] \<and> 0x7F < (of_char (hd s1) :: nat) then unicode_TrimSpace L s1
     else let s2 = rev (dropWhile ascii_space (rev s1)) in
       if s2 \<noteq> [] \<and> 0x7F < (of_char (last s2) :: nat) then unicode_TrimSpace L s2 else s2)"

lemma Split_ne [simp]: "Split c s \<noteq> []"
  by (induction s) (auto split: list.splits)

lemma Join_Split [simp]: "Join [c] (Split c s) = s"
proof (induction s)
  case (Cons x xs)
  then show ?case by (cases "Split c xs"; cases "tl (Split c xs)") auto
qed simp

lemma Split_no_sep [go_strings]: "p \<in> set (Split c s) \<Longrightarrow> c \<notin> set p"
  by (induction s arbitrary: p) (auto split: list.splits if_splits)

lemma Split_char_subset: "p \<in> set (Split c s) \<Longrightarrow> set p \<subseteq> set s"
proof (induction s arbitrary: p)
  case (Cons x xs)
  then show ?case
    by (cases "Split c xs") (fastforce split: if_splits)+
qed auto

lemma Split_unsplit [go_strings]: "c \<notin> set s \<Longrightarrow> Split c s = [s]"
  by (induction s) auto

lemma Split_append [go_strings]: "c \<notin> set x \<Longrightarrow> Split c (x @ c # r) = x # Split c r"
  by (induction x) auto

lemma Split_Join [go_strings]:
  "ps \<noteq> [] \<Longrightarrow> \<forall>p\<in>set ps. c \<notin> set p \<Longrightarrow> Split c (Join [c] ps) = ps"
  by (induction "[c]" ps rule: Join.induct) (auto simp: Split_append Split_unsplit)

lemma Split_eq_iff:
  "Split c s = ps \<longleftrightarrow> ps \<noteq> [] \<and> (\<forall>p\<in>set ps. c \<notin> set p) \<and> s = Join [c] ps"
  using Split_Join Split_no_sep by (metis Join_Split Split_ne)

lemma set_Join: "set (Join sep ps) \<subseteq> (\<Union>p\<in>set ps. set p) \<union> set sep"
  by (induction sep ps rule: Join.induct) auto

lemma HasSuffix_append [simp]: "HasSuffix (s @ p) p"
  by (simp add: HasSuffix_def)

lemma HasSuffix_iff: "HasSuffix s p \<longleftrightarrow> (\<exists>r. s = r @ p)"
  unfolding HasSuffix_def by (metis append_take_drop_id length_append le_add2 add_diff_cancel_right' append_eq_conv_conj)

lemma HasPrefix_iff: "HasPrefix s p \<longleftrightarrow> (\<exists>r. s = p @ r)"
  unfolding HasPrefix_def by (metis append_eq_conv_conj append_take_drop_id)

lemma TrimSuffix_append [simp]: "TrimSuffix (s @ p) p = s"
  by (simp add: TrimSuffix_def)

lemma TrimSuffix_id: "\<not> HasSuffix s p \<Longrightarrow> TrimSuffix s p = s"
  by (simp add: TrimSuffix_def)

lemma lower_ascii_not_upper [simp]: "\<not> (CHR ''A'' \<le> lower_ascii c \<and> lower_ascii c \<le> CHR ''Z'')"
  by (auto simp: lower_ascii_def less_eq_char_def less_char_def)

lemma lower_ascii_idem [simp]: "lower_ascii (lower_ascii c) = lower_ascii c"
  using lower_ascii_not_upper [of c] by (auto simp: lower_ascii_def [of "lower_ascii c"])

lemma lower_ascii_ascii: "of_char c < (128::nat) \<Longrightarrow> of_char (lower_ascii c) < (128::nat)"
  by (auto simp: lower_ascii_def less_eq_char_def)

lemma lower_ascii_dot [simp]: "lower_ascii c = CHR ''.'' \<longleftrightarrow> c = CHR ''.''"
proof
  assume e: "lower_ascii c = CHR ''.''"
  show "c = CHR ''.''"
  proof (rule ccontr)
    assume "c \<noteq> CHR ''.''"
    with e have u: "CHR ''A'' \<le> c \<and> c \<le> CHR ''Z''" and
      l: "char_of (of_char c + (32::nat)) = CHR ''.''"
      by (auto simp: lower_ascii_def split: if_splits)
    from l have "of_char (char_of (of_char c + (32::nat)) :: char) = (of_char CHR ''.'' :: nat)"
      by simp
    with u show False by (simp add: less_eq_char_def)
  qed
qed (simp add: lower_ascii_def less_eq_char_def)

text \<open>\<open>hex.EncodeToString\<close>, and what \<open>hex.DecodeString\<close> accepts.\<close>

definition hex_digit :: "nat \<Rightarrow> char" where
  "hex_digit d = (if d < 10 then char_of (48 + d) else char_of (87 + d))"

definition hex_EncodeToString :: "bytes \<Rightarrow> string" where
  "hex_EncodeToString b = concat (map (\<lambda>c. [hex_digit (of_char c div 16), hex_digit (of_char c mod 16)]) b)"

definition hex_byte :: "char \<Rightarrow> bool" where
  "hex_byte c \<longleftrightarrow> (CHR ''0'' \<le> c \<and> c \<le> CHR ''9'') \<or> (CHR ''a'' \<le> c \<and> c \<le> CHR ''f'') \<or> (CHR ''A'' \<le> c \<and> c \<le> CHR ''F'')"

definition hex_decodable :: "string \<Rightarrow> bool" where
  "hex_decodable s \<longleftrightarrow> even (length s) \<and> list_all hex_byte s"

section \<open>Decimal integers\<close>

definition digit_char :: "nat \<Rightarrow> char" where
  "digit_char d = char_of (48 + d)"

definition digit_of :: "char \<Rightarrow> nat option" where
  "digit_of c = (if CHR ''0'' \<le> c \<and> c \<le> CHR ''9'' then Some (of_char c - 48) else None)"

fun show_nat :: "nat \<Rightarrow> string" where
  "show_nat n = (if n < 10 then [digit_char n] else show_nat (n div 10) @ [digit_char (n mod 10)])"

declare show_nat.simps [simp del]

fun digits_val :: "nat \<Rightarrow> string \<Rightarrow> nat option" where
  "digits_val acc [] = Some acc"
| "digits_val acc (c # cs) =
     (case digit_of c of None \<Rightarrow> None | Some d \<Rightarrow> digits_val (10 * acc + d) cs)"

text \<open>\<open>strconv.FormatInt(_, 10)\<close> and \<open>strconv.ParseInt(_, 10, 64)\<close>: an optional sign, at least one digit,
  nothing else, and the value must fit 64 bits.\<close>

definition FormatInt :: "int \<Rightarrow> string" where
  "FormatInt i = (if i < 0 then CHR ''-'' # show_nat (nat (- i)) else show_nat (nat i))"

definition ParseInt :: "string \<Rightarrow> int option" where
  "ParseInt s = (case s of [] \<Rightarrow> None | c # cs \<Rightarrow>
     let neg = (c = CHR ''-''); ds = (if c = CHR ''-'' \<or> c = CHR ''+'' then cs else s)
     in if ds = [] then None
        else (case digits_val 0 ds of None \<Rightarrow> None
          | Some n \<Rightarrow> if neg then (if n \<le> 2 ^ 63 then Some (- int n) else None)
                     else (if n < 2 ^ 63 then Some (int n) else None)))"

lemma digit_of_char [simp]: "d < 10 \<Longrightarrow> digit_of (digit_char d) = Some d"
  by (simp add: digit_of_def digit_char_def less_eq_char_def)

lemma digit_char_no_sign [simp]: "d < 10 \<Longrightarrow> digit_char d \<noteq> CHR ''-''" "d < 10 \<Longrightarrow> digit_char d \<noteq> CHR ''+''"
  by (auto dest: arg_cong [where f = "digit_of"] simp: digit_of_def [of "CHR ''-''"] digit_of_def [of "CHR ''+''"]
      less_eq_char_def)

lemma digits_val_append:
  "digits_val a (xs @ ys) = (case digits_val a xs of None \<Rightarrow> None | Some b \<Rightarrow> digits_val b ys)"
  by (induction a xs rule: digits_val.induct) (auto split: option.splits)

lemma digits_val_show_nat [simp]: "digits_val 0 (show_nat n) = Some n"
proof (induction n rule: show_nat.induct)
  case (1 n)
  then show ?case
    by (cases "n < 10") (simp_all add: show_nat.simps [of n] digits_val_append)
qed

lemma show_nat_ne [simp]: "show_nat n \<noteq> []"
  by (simp add: show_nat.simps [of n])

lemma show_nat_digits: "c \<in> set (show_nat n) \<Longrightarrow> \<exists>d<10. c = digit_char d"
proof (induction n rule: show_nat.induct)
  case (1 n)
  then show ?case
    by (cases "n < 10")
      (auto simp: show_nat.simps [of n] intro: exI [where x = "n mod 10"] exI [where x = n])
qed

lemma show_nat_hd [simp]: "hd (show_nat n) \<noteq> CHR ''-''" "hd (show_nat n) \<noteq> CHR ''+''"
  by (metis digit_char_no_sign(1) list.set_sel(1) show_nat_digits show_nat_ne)
     (metis digit_char_no_sign(2) list.set_sel(1) show_nat_digits show_nat_ne)

lemma show_nat_inj [simp]: "show_nat m = show_nat n \<longleftrightarrow> m = n"
  by (metis digits_val_show_nat option.inject)

lemma ParseInt_FormatInt:
  assumes "- (2 ^ 63) \<le> i" "i < 2 ^ 63"
  shows "ParseInt (FormatInt i) = Some i"
proof (cases "i < 0")
  case True
  then show ?thesis using assms
    by (simp add: FormatInt_def ParseInt_def nat_le_iff)
next
  case False
  obtain c cs where s: "show_nat (nat i) = c # cs"
    using show_nat_ne by (metis list.exhaust)
  then have c: "c \<noteq> CHR ''-''" "c \<noteq> CHR ''+''"
    using show_nat_hd [of "nat i"] by simp_all
  have v: "digits_val 0 (c # cs) = Some (nat i)"
    using digits_val_show_nat [of "nat i"] s by simp
  have b: "nat i < 2 ^ 63"
    using assms False by (simp add: nat_less_iff)
  show ?thesis using False c b v s
    by (simp add: FormatInt_def ParseInt_def Let_def del: digits_val.simps)
qed

lemma FormatInt_inj:
  assumes "FormatInt i = FormatInt j" shows "i = j"
proof -
  have *: "hd (show_nat n) = CHR ''-'' \<longleftrightarrow> False" for n by simp
  show ?thesis using assms
    by (auto simp: FormatInt_def split: if_splits) (metis list.sel(1) show_nat_hd(1))+
qed

lemma FormatInt_no_newline: "CHR 0x0A \<notin> set (FormatInt i)"
proof -
  have "digit_of (CHR 0x0A) = None" by (simp add: digit_of_def less_eq_char_def)
  then have "CHR 0x0A \<notin> set (show_nat n)" for n
    using show_nat_digits [of "CHR 0x0A" n] by (metis digit_of_char option.distinct(1))
  then show ?thesis by (simp add: FormatInt_def)
qed

lemma ParseInt_sint [simp]: "ParseInt (FormatInt (sint (g :: int64))) = Some (sint g)"
  by (rule ParseInt_FormatInt) (use sint_ge [of g] sint_lt [of g] in simp_all)

lemma FormatInt_ne [simp]: "FormatInt i \<noteq> []"
  by (simp add: FormatInt_def)

text \<open>\<open>strconv.FormatBool\<close> and \<open>strconv.ParseBool\<close>.\<close>

definition FormatBool :: "bool \<Rightarrow> string" where
  "FormatBool b = (if b then ''true'' else ''false'')"

definition ParseBool :: "string \<Rightarrow> bool option" where
  "ParseBool s =
     (if s \<in> {''1'', ''t'', ''T'', ''true'', ''TRUE'', ''True''} then Some True
      else if s \<in> {''0'', ''f'', ''F'', ''false'', ''FALSE'', ''False''} then Some False
      else None)"

lemma ParseBool_FormatBool [simp]: "ParseBool (FormatBool b) = Some b"
  by (simp add: ParseBool_def FormatBool_def)

lemma FormatBool_ne [simp]: "FormatBool b \<noteq> []"
  by (simp add: FormatBool_def)

section \<open>Addresses\<close>

text \<open>The host and the port of an address, as Go's \<open>net.SplitHostPort\<close> finds them; \<open>None\<close> is its error.\<close>

definition net_SplitHostPort :: "string \<Rightarrow> (string \<times> string) option" where
  "net_SplitHostPort hp =
     (if CHR '':'' \<notin> set hp then None
      else
      let port = rev (takeWhile (\<lambda>c. c \<noteq> CHR '':'') (rev hp)); before = take (length hp - length port - 1) hp in
      if hp ! 0 = CHR ''[''
      then (let host = takeWhile (\<lambda>c. c \<noteq> CHR '']'') (drop 1 hp) in
            if before \<noteq> CHR ''['' # host @ [CHR '']''] \<or> CHR ''['' \<in> set host \<or> CHR ''['' \<in> set port \<or> CHR '']'' \<in> set port then None
            else Some (host, port))
      else if CHR '':'' \<in> set before \<or> CHR ''['' \<in> set hp \<or> CHR '']'' \<in> set hp then None
      else Some (before, port))"

end
