(* ===== verification/Core.thy ===== *)
theory Core
  imports Prelude
begin

text \<open>
  The domain types of \<open>internal/core\<close>: accounts, SSH key records, credential snapshots and their
  state, routes, identities, the classified credential error and the stable detail codes. Every other
  component passes these values.
\<close>

section \<open>Records (core/types.go)\<close>

record Account =
  acct_ID :: uuid
  acct_DeploymentID :: uuid
  acct_Label :: string
  acct_CoderUserID :: "uuid option"
  acct_CachedUsername :: string
  acct_BindOnFirstToken :: bool
  acct_Enabled :: bool

record SSHKeyRecord =
  key_ID :: uuid
  key_AccountID :: uuid
  key_Fingerprint :: string
  key_Algorithm :: string
  key_Label :: string
  key_Enabled :: bool
  key_CreatedAtMs :: int
  key_LastUsedAtMs :: "int option"

text \<open>The declared values of the string type \<open>CredentialState\<close>.\<close>

datatype CredentialState =
    CredentialStateMissing | CredentialStateUnknown | CredentialStateValid | CredentialStateInvalid

fun CredentialState_String :: "CredentialState \<Rightarrow> string" where
  "CredentialState_String CredentialStateMissing = ''missing''"
| "CredentialState_String CredentialStateUnknown = ''unknown''"
| "CredentialState_String CredentialStateValid = ''valid''"
| "CredentialState_String CredentialStateInvalid = ''invalid''"

text \<open>The second component is true when the Go function returns \<open>ErrInvalidCredentialState\<close>; the state
  is then \<open>CredentialStateInvalid\<close>, which callers that ignore the error use.\<close>

definition ParseCredentialState :: "golib \<Rightarrow> string \<Rightarrow> CredentialState \<times> bool" where
  "ParseCredentialState L v = (let w = ToLower L v in
     if w = ''missing'' then (CredentialStateMissing, False)
     else if w = ''unknown'' then (CredentialStateUnknown, False)
     else if w = ''valid'' then (CredentialStateValid, False)
     else if w = ''invalid'' then (CredentialStateInvalid, False)
     else (CredentialStateInvalid, True))"

text \<open>\<open>LastValidatedAt\<close> is a \<open>time.Time\<close>; the zero time is \<open>None\<close>. \<open>Token\<close> is empty for a nil slice.\<close>

record CredentialSnapshot =
  snap_AccountID :: uuid
  snap_Generation :: int64
  snap_State :: CredentialState
  snap_Token :: bytes
  snap_LastValidatedAt :: "int option"

record DeploymentTLS =
  tls_CAFile :: string
  tls_CertFile :: string
  tls_KeyFile :: string

record DeploymentNetwork =
  net_Proxy :: string
  net_NoProxy :: string
  net_DisableNetworkTelemetry :: bool

text \<open>\<open>CoderURL\<close> is a \<open>*url.URL\<close>: \<open>None\<close> for nil, otherwise what its \<open>String\<close> method returns.\<close>

record Deployment =
  dep_ID :: uuid
  dep_CoderURL :: "string option"
  dep_CoderBinary :: string
  dep_GlobalConfig :: string
  dep_WorkingDir :: string
  dep_Autostart :: bool
  dep_WaitMode :: string
  dep_TLS :: DeploymentTLS
  dep_Network :: DeploymentNetwork

record Route =
  RequestedHost :: string
  RequestedPort :: uint32
  WorkspaceHost :: string
  DisplayTarget :: string

record CoderIdentity =
  ident_ID :: uuid
  ident_Username :: string
  ident_Status :: string

record ReplaceCredentialRequest =
  req_AccountID :: uuid
  req_ExpectedGeneration :: int64
  req_Token :: bytes
  req_Identity :: CoderIdentity

section \<open>Credential errors (core/errors.go)\<close>

datatype CredentialErrorKind =
    CredentialMissing | CredentialInvalid | CredentialForbidden | CredentialWrongIdentity
  | CredentialMalformedReply | ControlPlaneUnavailable | ControlPlaneIncompatible

fun Renewable :: "CredentialErrorKind \<Rightarrow> bool" where
  "Renewable k = (k = CredentialMissing \<or> k = CredentialInvalid)"

record CredentialError =
  ce_Kind :: CredentialErrorKind
  ce_HTTPStatus :: int
  ce_Retryable :: bool
  ce_DetailCode :: string

text \<open>What a verifier call may return as its error: a (possibly wrapped) credential error, which
  \<open>errors.As\<close> finds, or any other error.\<close>

datatype verify_error = CredErr CredentialError | OtherErr string

text \<open>\<open>KindOf\<close> returns the empty kind, here \<open>None\<close>, when the chain holds no credential error.\<close>

fun KindOf :: "verify_error \<Rightarrow> CredentialErrorKind option" where
  "KindOf (CredErr e) = Some (ce_Kind e)"
| "KindOf (OtherErr _) = None"

definition kind_renewable :: "CredentialErrorKind option \<Rightarrow> bool" where
  "kind_renewable k = (case k of None \<Rightarrow> False | Some k' \<Rightarrow> Renewable k')"

section \<open>Detail codes (core/codes.go)\<close>

definition AUTH_UNKNOWN_KEY :: string where "AUTH_UNKNOWN_KEY = ''AUTH_UNKNOWN_KEY''"
definition AUTH_ACCOUNT_DISABLED :: string where "AUTH_ACCOUNT_DISABLED = ''AUTH_ACCOUNT_DISABLED''"
definition AUTH_CREDENTIAL_MISSING :: string where "AUTH_CREDENTIAL_MISSING = ''AUTH_CREDENTIAL_MISSING''"
definition AUTH_CREDENTIAL_UNAUTHORIZED :: string where "AUTH_CREDENTIAL_UNAUTHORIZED = ''AUTH_CREDENTIAL_UNAUTHORIZED''"
definition AUTH_CREDENTIAL_FORBIDDEN :: string where "AUTH_CREDENTIAL_FORBIDDEN = ''AUTH_CREDENTIAL_FORBIDDEN''"
definition AUTH_WRONG_CODER_IDENTITY :: string where "AUTH_WRONG_CODER_IDENTITY = ''AUTH_WRONG_CODER_IDENTITY''"
definition AUTH_CODER_UNAVAILABLE :: string where "AUTH_CODER_UNAVAILABLE = ''AUTH_CODER_UNAVAILABLE''"
definition AUTH_CODER_INCOMPATIBLE :: string where "AUTH_CODER_INCOMPATIBLE = ''AUTH_CODER_INCOMPATIBLE''"
definition ROUTE_INVALID_PAYLOAD :: string where "ROUTE_INVALID_PAYLOAD = ''ROUTE_INVALID_PAYLOAD''"
definition ROUTE_PORT_DENIED :: string where "ROUTE_PORT_DENIED = ''ROUTE_PORT_DENIED''"
definition ROUTE_NAME_INVALID :: string where "ROUTE_NAME_INVALID = ''ROUTE_NAME_INVALID''"
definition TUNNEL_LIMIT_REACHED :: string where "TUNNEL_LIMIT_REACHED = ''TUNNEL_LIMIT_REACHED''"
definition TUNNEL_PROCESS_START_FAILED :: string where "TUNNEL_PROCESS_START_FAILED = ''TUNNEL_PROCESS_START_FAILED''"
definition TUNNEL_START_TIMEOUT :: string where "TUNNEL_START_TIMEOUT = ''TUNNEL_START_TIMEOUT''"
definition TUNNEL_CODER_EXITED :: string where "TUNNEL_CODER_EXITED = ''TUNNEL_CODER_EXITED''"
definition TUNNEL_STREAM_FAILED :: string where "TUNNEL_STREAM_FAILED = ''TUNNEL_STREAM_FAILED''"
definition TUNNEL_CANCELLED :: string where "TUNNEL_CANCELLED = ''TUNNEL_CANCELLED''"
definition STORE_UNAVAILABLE :: string where "STORE_UNAVAILABLE = ''STORE_UNAVAILABLE''"
definition STORE_GENERATION_CONFLICT :: string where "STORE_GENERATION_CONFLICT = ''STORE_GENERATION_CONFLICT''"
definition CRYPTO_KEY_UNAVAILABLE :: string where "CRYPTO_KEY_UNAVAILABLE = ''CRYPTO_KEY_UNAVAILABLE''"
definition CRYPTO_DECRYPT_FAILED :: string where "CRYPTO_DECRYPT_FAILED = ''CRYPTO_DECRYPT_FAILED''"

lemmas code_defs =
  AUTH_UNKNOWN_KEY_def AUTH_ACCOUNT_DISABLED_def AUTH_CREDENTIAL_MISSING_def
  AUTH_CREDENTIAL_UNAUTHORIZED_def AUTH_CREDENTIAL_FORBIDDEN_def AUTH_WRONG_CODER_IDENTITY_def
  AUTH_CODER_UNAVAILABLE_def AUTH_CODER_INCOMPATIBLE_def ROUTE_INVALID_PAYLOAD_def
  ROUTE_PORT_DENIED_def ROUTE_NAME_INVALID_def TUNNEL_LIMIT_REACHED_def
  TUNNEL_PROCESS_START_FAILED_def TUNNEL_START_TIMEOUT_def TUNNEL_CODER_EXITED_def
  TUNNEL_STREAM_FAILED_def TUNNEL_CANCELLED_def STORE_UNAVAILABLE_def
  STORE_GENERATION_CONFLICT_def CRYPTO_KEY_UNAVAILABLE_def CRYPTO_DECRYPT_FAILED_def

section \<open>Facts\<close>

lemma ascii_literals [simp]:
  "ascii ''missing''" "ascii ''unknown''" "ascii ''valid''" "ascii ''invalid''"
  by (simp_all add: ascii_def)

lemma CredentialState_String_inj [simp]:
  "CredentialState_String a = CredentialState_String b \<longleftrightarrow> a = b"
  by (cases a; cases b) simp_all

text \<open>The printed states are fixed points of lower-casing, so parsing a printed state gives it back.\<close>

lemma Parse_CredentialState_String [simp]:
  "ParseCredentialState L (CredentialState_String s) = (s, False)"
  by (cases s) (simp_all add: ParseCredentialState_def ToLower_def lower_ascii_def less_eq_char_def)

lemma CredentialState_String_missing [simp]:
  "CredentialState_String s = ''missing'' \<longleftrightarrow> s = CredentialStateMissing"
  by (cases s) simp_all

end
