(* ===== verification/Permissions.thy ===== *)
theory Permissions
  imports Core
begin

text \<open>
  \<open>internal/sshauth/permissions.go\<close>: the string extensions that carry an identity from one stage of SSH
  authentication to the next, and the three parsers that read them back. The extensions of an
  \<open>ssh.Permissions\<close> are an association list; \<open>None\<close> is a nil pointer or a nil map, which the code treats
  alike.
\<close>

section \<open>Model\<close>

type_synonym permissions = "(string, string) gomap option"

definition PermissionMode :: string where "PermissionMode = ''gateway.mode''"
definition PermissionAccountID :: string where "PermissionAccountID = ''gateway.account_id''"
definition PermissionDeploymentID :: string where "PermissionDeploymentID = ''gateway.deployment_id''"
definition PermissionSSHKeyID :: string where "PermissionSSHKeyID = ''gateway.ssh_key_id''"
definition PermissionCredentialGeneration :: string where "PermissionCredentialGeneration = ''gateway.credential_generation''"
definition PermissionMustReconnect :: string where "PermissionMustReconnect = ''gateway.must_reconnect''"
definition PermissionEnrollmentKeyDigest :: string where "PermissionEnrollmentKeyDigest = ''gateway.enrollment_key_digest''"

definition ModeCandidate :: string where "ModeCandidate = ''candidate''"
definition ModeWorkspace :: string where "ModeWorkspace = ''workspace''"
definition ModeEnrollment :: string where "ModeEnrollment = ''enrollment''"
definition ModeKeyManagement :: string where "ModeKeyManagement = ''keymanagement''"

lemmas perm_keys = PermissionMode_def PermissionAccountID_def PermissionDeploymentID_def PermissionSSHKeyID_def
  PermissionCredentialGeneration_def PermissionMustReconnect_def PermissionEnrollmentKeyDigest_def

lemmas perm_modes = ModeCandidate_def ModeWorkspace_def ModeEnrollment_def ModeKeyManagement_def

record CandidatePerms =
  cp_Mode :: string
  cp_AccountID :: uuid
  cp_SSHKeyID :: uuid

record FinalPerms =
  fp_Mode :: string
  fp_AccountID :: uuid
  fp_DeploymentID :: uuid
  fp_SSHKeyID :: uuid
  fp_CredentialGeneration :: int64
  fp_MustReconnect :: bool

record EnrollmentCandidatePerms =
  ep_Mode :: string
  ep_KeyDigest :: string

definition CandidatePermissions :: "golib \<Rightarrow> uuid \<Rightarrow> uuid \<Rightarrow> permissions" where
  "CandidatePermissions L accountID keyID = Some [(PermissionMode, ModeCandidate),
     (PermissionAccountID, uuid_String L accountID), (PermissionSSHKeyID, uuid_String L keyID)]"

definition EnrollmentCandidatePermissions :: "string \<Rightarrow> permissions" where
  "EnrollmentCandidatePermissions keyDigestHex = Some [(PermissionMode, ModeEnrollment),
     (PermissionEnrollmentKeyDigest, keyDigestHex)]"

definition KeyManagementCandidatePermissions :: "golib \<Rightarrow> uuid \<Rightarrow> uuid \<Rightarrow> permissions" where
  "KeyManagementCandidatePermissions L accountID keyID = Some [(PermissionMode, ModeKeyManagement),
     (PermissionAccountID, uuid_String L accountID), (PermissionSSHKeyID, uuid_String L keyID)]"

definition finalWorkspacePermissions :: "golib \<Rightarrow> string \<Rightarrow> uuid \<Rightarrow> uuid \<Rightarrow> uuid \<Rightarrow> int64 \<Rightarrow> bool \<Rightarrow> permissions" where
  "finalWorkspacePermissions L mode accountID deploymentID keyID generation mustReconnect = Some
     [(PermissionMode, mode), (PermissionAccountID, uuid_String L accountID),
      (PermissionDeploymentID, uuid_String L deploymentID), (PermissionSSHKeyID, uuid_String L keyID),
      (PermissionCredentialGeneration, FormatInt (sint generation)),
      (PermissionMustReconnect, FormatBool mustReconnect)]"

definition FinalWorkspacePermissions :: "golib \<Rightarrow> uuid \<Rightarrow> uuid \<Rightarrow> uuid \<Rightarrow> int64 \<Rightarrow> permissions" where
  "FinalWorkspacePermissions L accountID deploymentID keyID generation =
     finalWorkspacePermissions L ModeWorkspace accountID deploymentID keyID generation False"

definition FinalEnrollmentPermissions :: "golib \<Rightarrow> uuid \<Rightarrow> uuid \<Rightarrow> uuid \<Rightarrow> int64 \<Rightarrow> permissions" where
  "FinalEnrollmentPermissions L accountID deploymentID keyID generation =
     finalWorkspacePermissions L ModeWorkspace accountID deploymentID keyID generation True"

definition FinalKeyManagementPermissions :: "golib \<Rightarrow> uuid \<Rightarrow> uuid \<Rightarrow> uuid \<Rightarrow> permissions" where
  "FinalKeyManagementPermissions L accountID deploymentID keyID =
     finalWorkspacePermissions L ModeKeyManagement accountID deploymentID keyID 0 False"

datatype perm_error =
    ErrInvalidMode | ErrMissingAccountID | ErrInvalidAccountID | ErrZeroAccountID | ErrMissingDeploymentID
  | ErrInvalidDeploymentID | ErrZeroDeploymentID | ErrMissingSSHKeyID | ErrInvalidSSHKeyID | ErrZeroSSHKeyID
  | ErrInvalidGeneration | ErrNegativeGeneration | ErrInvalidMustReconnect | ErrUnknownExtension
  | ErrMissingEnrollmentKeyDigest | ErrInvalidEnrollmentKeyDigest

text \<open>Reading a missing key of a Go map gives the empty string.\<close>

definition ext :: "(string, string) gomap \<Rightarrow> string \<Rightarrow> string" where
  "ext m k = (case map_of m k of None \<Rightarrow> [] | Some v \<Rightarrow> v)"

text \<open>The identifier checks shared by the parsers: present, a UUID, not the zero UUID.\<close>

definition parse_id :: "golib \<Rightarrow> perm_error \<Rightarrow> perm_error \<Rightarrow> perm_error \<Rightarrow> string \<Rightarrow> perm_error + uuid" where
  "parse_id L missing invalid zero s =
     (if s = [] then Inl missing
      else case uuid_Parse L s of
        None \<Rightarrow> Inl invalid
      | Some i \<Rightarrow> if i = uuid_Nil then Inl zero else Inr i)"

definition parse_generation :: "string \<Rightarrow> perm_error + int64" where
  "parse_generation s =
     (if s = [] then Inr 0
      else case ParseInt s of
        None \<Rightarrow> Inl ErrInvalidGeneration
      | Some g \<Rightarrow> if g < 0 then Inl ErrNegativeGeneration else Inr (word_of_int g))"

definition parse_reconnect :: "string \<Rightarrow> perm_error + bool" where
  "parse_reconnect s =
     (if s = [] then Inr False else case ParseBool s of None \<Rightarrow> Inl ErrInvalidMustReconnect | Some b \<Rightarrow> Inr b)"

definition ParseFinalPermissions :: "golib \<Rightarrow> permissions \<Rightarrow> perm_error + FinalPerms" where
  "ParseFinalPermissions L perms =
     (case perms of None \<Rightarrow> Inl ErrMissingAccountID | Some m \<Rightarrow>
      let mode = ext m PermissionMode in
      if mode \<noteq> ModeWorkspace \<and> mode \<noteq> ModeKeyManagement then Inl ErrInvalidMode
      else case parse_id L ErrMissingAccountID ErrInvalidAccountID ErrZeroAccountID (ext m PermissionAccountID) of
        Inl e \<Rightarrow> Inl e
      | Inr accountID \<Rightarrow>
        (case parse_id L ErrMissingSSHKeyID ErrInvalidSSHKeyID ErrZeroSSHKeyID (ext m PermissionSSHKeyID) of
          Inl e \<Rightarrow> Inl e
        | Inr sshKeyID \<Rightarrow>
          (case parse_id L ErrMissingDeploymentID ErrInvalidDeploymentID ErrZeroDeploymentID (ext m PermissionDeploymentID) of
            Inl e \<Rightarrow> Inl e
          | Inr deploymentID \<Rightarrow>
            (case parse_generation (ext m PermissionCredentialGeneration) of
              Inl e \<Rightarrow> Inl e
            | Inr generation \<Rightarrow>
              (case parse_reconnect (ext m PermissionMustReconnect) of
                Inl e \<Rightarrow> Inl e
              | Inr mustReconnect \<Rightarrow>
                  if \<exists>k\<in>fst ` set m. k \<notin> {PermissionMode, PermissionAccountID, PermissionDeploymentID, PermissionSSHKeyID,
                       PermissionCredentialGeneration, PermissionMustReconnect}
                  then Inl ErrUnknownExtension
                  else Inr \<lparr>fp_Mode = mode, fp_AccountID = accountID, fp_DeploymentID = deploymentID,
                       fp_SSHKeyID = sshKeyID, fp_CredentialGeneration = generation,
                       fp_MustReconnect = mustReconnect\<rparr>)))))"

definition ParseCandidatePermissions :: "golib \<Rightarrow> permissions \<Rightarrow> perm_error + CandidatePerms" where
  "ParseCandidatePermissions L perms =
     (case perms of None \<Rightarrow> Inl ErrMissingAccountID | Some m \<Rightarrow>
      let mode = ext m PermissionMode in
      if mode \<noteq> ModeCandidate \<and> mode \<noteq> ModeKeyManagement then Inl ErrInvalidMode
      else case parse_id L ErrMissingAccountID ErrInvalidAccountID ErrZeroAccountID (ext m PermissionAccountID) of
        Inl e \<Rightarrow> Inl e
      | Inr accountID \<Rightarrow>
        (case parse_id L ErrMissingSSHKeyID ErrInvalidSSHKeyID ErrZeroSSHKeyID (ext m PermissionSSHKeyID) of
          Inl e \<Rightarrow> Inl e
        | Inr sshKeyID \<Rightarrow>
            if \<exists>k\<in>fst ` set m. k \<notin> {PermissionMode, PermissionAccountID, PermissionSSHKeyID}
            then Inl ErrUnknownExtension
            else Inr \<lparr>cp_Mode = mode, cp_AccountID = accountID, cp_SSHKeyID = sshKeyID\<rparr>))"

definition ParseEnrollmentCandidatePermissions :: "golib \<Rightarrow> permissions \<Rightarrow> perm_error + EnrollmentCandidatePerms" where
  "ParseEnrollmentCandidatePermissions L perms =
     (case perms of None \<Rightarrow> Inl ErrMissingEnrollmentKeyDigest | Some m \<Rightarrow>
      let mode = ext m PermissionMode; digest = ext m PermissionEnrollmentKeyDigest in
      if mode \<noteq> ModeEnrollment then Inl ErrInvalidMode
      else if digest = [] then Inl ErrMissingEnrollmentKeyDigest
      else if length digest \<noteq> 64 \<or> digest \<noteq> ToLower L digest then Inl ErrInvalidEnrollmentKeyDigest
      else if \<not> hex_decodable digest then Inl ErrInvalidEnrollmentKeyDigest
      else if \<exists>k\<in>fst ` set m. k \<notin> {PermissionMode, PermissionEnrollmentKeyDigest} then Inl ErrUnknownExtension
      else Inr \<lparr>ep_Mode = mode, ep_KeyDigest = digest\<rparr>)"

section \<open>Facts\<close>

lemma parse_id_String: "uuid_lawful L \<Longrightarrow> parse_id L a b c (uuid_String L i) = (if i = uuid_Nil then Inl c else Inr i)"
  by (simp add: parse_id_def)

lemma parse_id_Inr: "parse_id L a b c s = Inr i \<Longrightarrow> s \<noteq> [] \<and> i \<noteq> uuid_Nil \<and> uuid_Parse L s = Some i"
  by (auto simp: parse_id_def split: if_splits option.splits)

lemma parse_generation_Format:
  "parse_generation (FormatInt (sint g)) = (if sint g < 0 then Inl ErrNegativeGeneration else Inr g)"
  by (simp add: parse_generation_def)

lemma parse_reconnect_Format: "parse_reconnect (FormatBool b) = Inr b"
  by (simp add: parse_reconnect_def)

lemma ParseFinal_final:
  assumes "uuid_lawful L" "mode = ModeWorkspace \<or> mode = ModeKeyManagement"
    "a \<noteq> uuid_Nil" "d \<noteq> uuid_Nil" "k \<noteq> uuid_Nil" "0 \<le> sint g"
  shows "ParseFinalPermissions L (finalWorkspacePermissions L mode a d k g b) = Inr \<lparr>fp_Mode = mode, fp_AccountID = a,
    fp_DeploymentID = d, fp_SSHKeyID = k, fp_CredentialGeneration = g, fp_MustReconnect = b\<rparr>"
  using assms
  by (auto simp: ParseFinalPermissions_def finalWorkspacePermissions_def ext_def perm_keys parse_id_String
      parse_generation_Format parse_reconnect_Format)

lemma ParseCandidate_candidate:
  assumes "uuid_lawful L" "a \<noteq> uuid_Nil" "k \<noteq> uuid_Nil"
  shows "ParseCandidatePermissions L (CandidatePermissions L a k) = Inr \<lparr>cp_Mode = ModeCandidate, cp_AccountID = a, cp_SSHKeyID = k\<rparr>"
    "ParseCandidatePermissions L (KeyManagementCandidatePermissions L a k) = Inr \<lparr>cp_Mode = ModeKeyManagement, cp_AccountID = a, cp_SSHKeyID = k\<rparr>"
  using assms
  by (simp_all add: ParseCandidatePermissions_def CandidatePermissions_def KeyManagementCandidatePermissions_def ext_def perm_keys
      parse_id_String)

lemma ext_present: "ext m k \<noteq> [] \<Longrightarrow> k \<in> fst ` set m"
  by (auto simp: ext_def split: option.splits dest: map_of_SomeD intro: rev_image_eqI)

text \<open>What an accepted permission set holds.\<close>

lemma ParseFinalD:
  assumes "ParseFinalPermissions L (Some m) = Inr p"
  shows "ext m PermissionMode = fp_Mode p \<and> (fp_Mode p = ModeWorkspace \<or> fp_Mode p = ModeKeyManagement)
    \<and> ext m PermissionDeploymentID \<noteq> [] \<and> fp_AccountID p \<noteq> uuid_Nil \<and> fp_DeploymentID p \<noteq> uuid_Nil \<and> fp_SSHKeyID p \<noteq> uuid_Nil"
  using assms unfolding ParseFinalPermissions_def Let_def
  by (auto split: if_splits sum.splits dest!: parse_id_Inr)

lemma ParseCandidateD:
  assumes "ParseCandidatePermissions L (Some m) = Inr p"
  shows "ext m PermissionMode = cp_Mode p \<and> (cp_Mode p = ModeCandidate \<or> cp_Mode p = ModeKeyManagement)
    \<and> fst ` set m \<subseteq> {PermissionMode, PermissionAccountID, PermissionSSHKeyID} \<and> cp_AccountID p \<noteq> uuid_Nil \<and> cp_SSHKeyID p \<noteq> uuid_Nil"
  using assms unfolding ParseCandidatePermissions_def Let_def
  by (auto split: if_splits sum.splits dest!: parse_id_Inr)

lemma ParseEnrollmentD:
  assumes "ParseEnrollmentCandidatePermissions L (Some m) = Inr p"
  shows "ext m PermissionMode = ModeEnrollment \<and> length (ep_KeyDigest p) = 64 \<and> ep_KeyDigest p = ext m PermissionEnrollmentKeyDigest"
  using assms unfolding ParseEnrollmentCandidatePermissions_def Let_def by (auto split: if_splits)

section \<open>Properties\<close>

text \<open>Permissions survive the trip through their string form and never change stage: parsing a final permission
  set built for non-zero identifiers and a non-negative generation gives back every field, candidate sets
  likewise; and no permission set whatsoever is accepted by two of the three parsers, so a candidate can never be
  taken for a completed authentication.\<close>

theorem permissions_stages:
  assumes "uuid_lawful L" "a \<noteq> uuid_Nil" "d \<noteq> uuid_Nil" "k \<noteq> uuid_Nil" "0 \<le> sint g"
  shows "ParseFinalPermissions L (FinalWorkspacePermissions L a d k g) = Inr \<lparr>fp_Mode = ModeWorkspace, fp_AccountID = a,
      fp_DeploymentID = d, fp_SSHKeyID = k, fp_CredentialGeneration = g, fp_MustReconnect = False\<rparr>
    \<and> ParseFinalPermissions L (FinalEnrollmentPermissions L a d k g) = Inr \<lparr>fp_Mode = ModeWorkspace, fp_AccountID = a,
      fp_DeploymentID = d, fp_SSHKeyID = k, fp_CredentialGeneration = g, fp_MustReconnect = True\<rparr>
    \<and> ParseFinalPermissions L (FinalKeyManagementPermissions L a d k) = Inr \<lparr>fp_Mode = ModeKeyManagement, fp_AccountID = a,
      fp_DeploymentID = d, fp_SSHKeyID = k, fp_CredentialGeneration = 0, fp_MustReconnect = False\<rparr>
    \<and> ParseCandidatePermissions L (CandidatePermissions L a k) = Inr \<lparr>cp_Mode = ModeCandidate, cp_AccountID = a, cp_SSHKeyID = k\<rparr>
    \<and> (\<forall>perms p q e. \<not> (ParseFinalPermissions L perms = Inr p \<and> ParseCandidatePermissions L perms = Inr q)
         \<and> \<not> (ParseFinalPermissions L perms = Inr p \<and> ParseEnrollmentCandidatePermissions L perms = Inr e)
         \<and> \<not> (ParseCandidatePermissions L perms = Inr q \<and> ParseEnrollmentCandidatePermissions L perms = Inr e))"
proof -
  have "\<not> (ParseFinalPermissions L perms = Inr p \<and> ParseCandidatePermissions L perms = Inr q)
      \<and> \<not> (ParseFinalPermissions L perms = Inr p \<and> ParseEnrollmentCandidatePermissions L perms = Inr e)
      \<and> \<not> (ParseCandidatePermissions L perms = Inr q \<and> ParseEnrollmentCandidatePermissions L perms = Inr e)" for perms p q e
  proof (cases perms)
    case None
    then show ?thesis by (simp add: ParseFinalPermissions_def ParseCandidatePermissions_def)
  next
    case (Some m)
    have "PermissionDeploymentID \<notin> {PermissionMode, PermissionAccountID, PermissionSSHKeyID}" by (simp add: perm_keys)
    then have "\<not> (ParseFinalPermissions L perms = Inr p \<and> ParseCandidatePermissions L perms = Inr q)"
      using ParseFinalD [of L m p] ParseCandidateD [of L m q] ext_present [of m PermissionDeploymentID] Some by blast
    moreover have "ModeEnrollment \<notin> {ModeWorkspace, ModeKeyManagement, ModeCandidate}" by (simp add: perm_modes)
    ultimately show ?thesis
      using ParseFinalD [of L m p] ParseCandidateD [of L m q] ParseEnrollmentD [of L m e] Some by auto
  qed
  then show ?thesis
    using assms ParseFinal_final ParseCandidate_candidate(1)
    by (simp add: FinalWorkspacePermissions_def FinalEnrollmentPermissions_def FinalKeyManagementPermissions_def)
qed

theorem permissions_stages_witness:
  "ParseFinalPermissions demo_lib (FinalWorkspacePermissions demo_lib 2 3 4 5) = Inr \<lparr>fp_Mode = ModeWorkspace, fp_AccountID = 2,
      fp_DeploymentID = 3, fp_SSHKeyID = 4, fp_CredentialGeneration = 5, fp_MustReconnect = False\<rparr>"
  using permissions_stages [OF demo_lib_lawful, of 2 3 4 5] by simp

end
