(* ===== verification/CoderApi.thy ===== *)
theory CoderApi
  imports Core
begin

text \<open>
  \<open>internal/coderapi\<close>: the check of a session token against the control plane, with the classification of every
  failure (\<open>errors.go\<close>, \<open>verifier.go\<close>), and the short-lived cache in front of it (\<open>cache.go\<close>). The HTTP exchange is
  a parameter: what the client's \<open>Do\<close> returns for a token.
\<close>

section \<open>Classification (errors.go)\<close>

definition credErr :: "CredentialErrorKind \<Rightarrow> int \<Rightarrow> bool \<Rightarrow> string \<Rightarrow> CredentialError" where
  "credErr kind httpStatus retryable detail =
     \<lparr>ce_Kind = kind, ce_HTTPStatus = httpStatus, ce_Retryable = retryable, ce_DetailCode = detail\<rparr>"

definition redirectError :: CredentialError where
  "redirectError = credErr ControlPlaneIncompatible 0 False (AUTH_CODER_INCOMPATIBLE @ '':redirect'')"

definition classifyStatus :: "int \<Rightarrow> CredentialError" where
  "classifyStatus status =
     (if status = 401 then credErr CredentialInvalid status False AUTH_CREDENTIAL_UNAUTHORIZED
      else if status = 403 then credErr CredentialForbidden status False AUTH_CREDENTIAL_FORBIDDEN
      else if status = 404 then credErr ControlPlaneIncompatible status False AUTH_CODER_INCOMPATIBLE
      else if status = 429 then credErr ControlPlaneUnavailable status True AUTH_CODER_UNAVAILABLE
      else if 500 \<le> status \<and> status \<le> 599 then credErr ControlPlaneUnavailable status True AUTH_CODER_UNAVAILABLE
      else credErr ControlPlaneIncompatible status False AUTH_CODER_INCOMPATIBLE)"

text \<open>The error of \<open>client.Do\<close> wraps \<open>redirectError\<close> when the server redirects, because the client's
  \<open>CheckRedirect\<close> returns it; any other failure is a plain transport error.\<close>

datatype transport_error = Redirected | TransportFailed

definition classifyTransport :: "transport_error \<Rightarrow> CredentialError" where
  "classifyTransport e = (case e of
     Redirected \<Rightarrow> redirectError
   | TransportFailed \<Rightarrow> credErr ControlPlaneUnavailable 0 True AUTH_CODER_UNAVAILABLE)"

definition malformedReply :: "int \<Rightarrow> CredentialError" where
  "malformedReply httpStatus = credErr CredentialMalformedReply httpStatus False AUTH_CODER_INCOMPATIBLE"

section \<open>The verifier (verifier.go)\<close>

definition MaxBodyBytes :: nat where "MaxBodyBytes = 1048576"

text \<open>A response body: the bytes the reader yields, and whether it then fails instead of reaching the end.\<close>

record body =
  body_bytes :: bytes
  body_fails :: bool

definition readCapped :: "body \<Rightarrow> bytes option" where
  "readCapped r =
     (let got = take (MaxBodyBytes + 1) (body_bytes r) in
      if body_fails r \<and> length (body_bytes r) < MaxBodyBytes + 1 then None
      else if length got > MaxBodyBytes then None
      else Some got)"

record usersMeReply =
  um_ID :: string
  um_Username :: string
  um_Status :: string

text \<open>The outcome of the exchange for one token, and the JSON decoder for the reply.\<close>

datatype exchange = BuildFailed | DoFailed transport_error | Responded int body

record api =
  api_Do :: "bytes \<Rightarrow> exchange"
  api_Unmarshal :: "bytes \<Rightarrow> usersMeReply option"

definition Verify :: "golib \<Rightarrow> api \<Rightarrow> bytes \<Rightarrow> CredentialError + CoderIdentity" where
  "Verify L A token =
     (if length token = 0 then Inl (credErr CredentialInvalid 0 False AUTH_CREDENTIAL_UNAUTHORIZED)
      else case api_Do A token of
        BuildFailed \<Rightarrow> Inl (credErr ControlPlaneIncompatible 0 False AUTH_CODER_INCOMPATIBLE)
      | DoFailed e \<Rightarrow> Inl (classifyTransport e)
      | Responded status b \<Rightarrow>
          if status \<noteq> 200 then Inl (classifyStatus status)
          else case readCapped b of
            None \<Rightarrow> Inl (malformedReply status)
          | Some bs \<Rightarrow>
              (case api_Unmarshal A bs of
                 None \<Rightarrow> Inl (malformedReply status)
               | Some reply \<Rightarrow>
                   (case uuid_Parse L (TrimSpace L (um_ID reply)) of
                      None \<Rightarrow> Inl (malformedReply status)
                    | Some i \<Rightarrow>
                        if i = uuid_Nil then Inl (malformedReply status)
                        else Inr \<lparr>ident_ID = i, ident_Username = um_Username reply, ident_Status = um_Status reply\<rparr>)))"

definition VerifyIdentity :: "golib \<Rightarrow> api \<Rightarrow> bytes \<Rightarrow> uuid \<Rightarrow> CredentialError + unit" where
  "VerifyIdentity L A token want =
     (case Verify L A token of
        Inl e \<Rightarrow> Inl e
      | Inr ident \<Rightarrow> if ident_ID ident \<noteq> want then Inl (credErr CredentialWrongIdentity 200 False AUTH_WRONG_CODER_IDENTITY)
          else Inr ())"

section \<open>The cache (cache.go)\<close>

record cachedResult =
  cres_accountID :: uuid
  cres_generation :: int64
  cres_valid :: bool
  cres_coderID :: uuid
  cres_cachedAt :: int

type_synonym cacheKey = "uuid \<times> uuid \<times> int64"

record CachedVerifier =
  cv_deploymentID :: uuid
  cv_ttl :: int
  cv_cache :: "(cacheKey, cachedResult) gomap"

definition NewCachedVerifier :: "uuid \<Rightarrow> int \<Rightarrow> CachedVerifier" where
  "NewCachedVerifier deploymentID ttl =
     \<lparr>cv_deploymentID = deploymentID, cv_ttl = (if ttl \<le> 0 then 15000000000 else ttl), cv_cache = []\<rparr>"

text \<open>One flight of \<open>VerifyCached\<close>: \<open>now\<close> is the clock when the cache is consulted, \<open>later\<close> when the result is
  stored; \<open>verify\<close> is the verifier it wraps. Calls for the same key run one at a time.\<close>

definition VerifyCached ::
    "(bytes \<Rightarrow> verify_error + CoderIdentity) \<Rightarrow> int \<Rightarrow> int \<Rightarrow> uuid \<Rightarrow> int64 \<Rightarrow> bytes \<Rightarrow> (CachedVerifier, verify_error, CoderIdentity) sr" where
  "VerifyCached verify now later accountID generation token = (\<lambda>cv.
     let key = (cv_deploymentID cv, accountID, generation);
         fresh = (\<lambda>cv. case verify token of
           Inl e \<Rightarrow>
             (case e of
                CredErr ce \<Rightarrow>
                  if ce_Kind ce \<noteq> CredentialInvalid \<or> ce_HTTPStatus ce \<noteq> 401 then (Inl e, cv)
                  else (Inl e, cv\<lparr>cv_cache := gm_put key \<lparr>cres_accountID = accountID, cres_generation = generation,
                         cres_valid = False, cres_coderID = uuid_Nil, cres_cachedAt = later\<rparr> (cv_cache cv)\<rparr>)
              | OtherErr _ \<Rightarrow> (Inl e, cv))
         | Inr ident \<Rightarrow> (Inr ident, cv\<lparr>cv_cache := gm_put key \<lparr>cres_accountID = accountID,
               cres_generation = generation, cres_valid = True, cres_coderID = ident_ID ident, cres_cachedAt = later\<rparr> (cv_cache cv)\<rparr>)) in
     case map_of (cv_cache cv) key of
       None \<Rightarrow> fresh cv
     | Some entry \<Rightarrow>
         if now - cres_cachedAt entry < cv_ttl cv
         then (if cres_valid entry then (Inr \<lparr>ident_ID = cres_coderID entry, ident_Username = [], ident_Status = []\<rparr>, cv)
               else (Inl (CredErr (credErr CredentialInvalid 401 False AUTH_CREDENTIAL_UNAUTHORIZED)), cv))
         else fresh (cv\<lparr>cv_cache := gm_delete key (cv_cache cv)\<rparr>))"

definition Invalidate :: "uuid \<Rightarrow> int64 \<Rightarrow> CachedVerifier \<Rightarrow> CachedVerifier" where
  "Invalidate accountID generation cv = cv\<lparr>cv_cache := gm_delete (cv_deploymentID cv, accountID, generation) (cv_cache cv)\<rparr>"

definition CacheStats :: "CachedVerifier \<Rightarrow> nat" where
  "CacheStats cv = length (cv_cache cv)"

section \<open>Facts\<close>

lemma credErr_sel [simp]:
  "ce_Kind (credErr k h r d) = k" "ce_HTTPStatus (credErr k h r d) = h" "ce_Retryable (credErr k h r d) = r" "ce_DetailCode (credErr k h r d) = d"
  by (simp_all add: credErr_def)

lemma readCapped_bound: "readCapped b = Some bs \<Longrightarrow> length bs \<le> MaxBodyBytes \<and> bs = body_bytes b \<and> \<not> body_fails b"
  by (auto simp: readCapped_def Let_def split: if_splits)

lemma Verify_Inr:
  "Verify L A token = Inr ident \<longleftrightarrow> token \<noteq> [] \<and> ident_ID ident \<noteq> uuid_Nil \<and> (\<exists>b bs reply. api_Do A token = Responded 200 b
     \<and> readCapped b = Some bs \<and> api_Unmarshal A bs = Some reply \<and> uuid_Parse L (TrimSpace L (um_ID reply)) = Some (ident_ID ident)
     \<and> ident_Username ident = um_Username reply \<and> ident_Status ident = um_Status reply)"
  unfolding Verify_def by (cases ident) (auto split: exchange.splits option.splits if_splits)

lemma classifyStatus_kind:
  "Renewable (ce_Kind (classifyStatus st)) \<longleftrightarrow> st = 401" "ce_Retryable (classifyStatus st) \<longleftrightarrow> st = 429 \<or> 500 \<le> st \<and> st \<le> 599"
  "ce_Kind (classifyStatus st) = CredentialInvalid \<longleftrightarrow> st = 401" "ce_HTTPStatus (classifyStatus st) = st"
  by (auto simp: classifyStatus_def)

text \<open>The results recorded so far: each entry of the cache stems from a call of the verifier for its key.\<close>

type_synonym verify_log = "(int \<times> uuid \<times> int64 \<times> (verify_error + CoderIdentity)) list"

definition entry_backed :: "verify_log \<Rightarrow> cacheKey \<Rightarrow> cachedResult \<Rightarrow> bool" where
  "entry_backed log k r \<longleftrightarrow> (\<exists>res. (cres_cachedAt r, fst (snd k), snd (snd k), res) \<in> set log
     \<and> (if cres_valid r then \<exists>ident. res = Inr ident \<and> ident_ID ident = cres_coderID r
        else \<exists>ce. res = Inl (CredErr ce) \<and> ce_Kind ce = CredentialInvalid \<and> ce_HTTPStatus ce = 401))"

definition cache_backed :: "verify_log \<Rightarrow> CachedVerifier \<Rightarrow> bool" where
  "cache_backed log cv \<longleftrightarrow> (\<forall>k r. map_of (cv_cache cv) k = Some r \<longrightarrow> entry_backed log k r)"

text \<open>A call is answered from the cache, without asking the verifier.\<close>

definition cache_hit :: "int \<Rightarrow> uuid \<Rightarrow> int64 \<Rightarrow> CachedVerifier \<Rightarrow> bool" where
  "cache_hit now a g cv = (case map_of (cv_cache cv) (cv_deploymentID cv, a, g) of
     None \<Rightarrow> False | Some entry \<Rightarrow> now - cres_cachedAt entry < cv_ttl cv)"

text \<open>A sequence of calls on the cache, with what the verifier answers if it is asked; the log holds the calls of the
  verifier.\<close>

datatype cache_call =
    CallVerify int int uuid int64 bytes "verify_error + CoderIdentity"
  | CallInvalidate uuid int64

fun cache_run :: "cache_call list \<Rightarrow> verify_log \<times> CachedVerifier \<Rightarrow> verify_log \<times> CachedVerifier" where
  "cache_run [] s = s"
| "cache_run (CallVerify now later a g tok ans # cs) (log, cv) =
     cache_run cs (if cache_hit now a g cv then log else (later, a, g, ans) # log, snd (VerifyCached (\<lambda>_. ans) now later a g tok cv))"
| "cache_run (CallInvalidate a g # cs) (log, cv) = cache_run cs (log, Invalidate a g cv)"

lemma entry_backed_mono: "entry_backed log k r \<Longrightarrow> entry_backed (x # log) k r"
  by (auto simp: entry_backed_def)

lemma VerifyCached_hit: "cache_hit now a g cv \<Longrightarrow> snd (VerifyCached v now later a g tok cv) = cv"
  by (auto simp: cache_hit_def VerifyCached_def Let_def split: option.splits)

lemma VerifyCached_backed:
  assumes "cache_backed log cv"
  shows "cache_backed ((later, a, g, ans) # log) (snd (VerifyCached (\<lambda>_. ans) now later a g tok cv))"
proof -
  define log' where l: "log' = (later, a, g, ans) # log"
  have m: "entry_backed log' k r" if "map_of (cv_cache cv) k = Some r" for k r
    using assms that entry_backed_mono unfolding cache_backed_def l by blast
  have put: "cache_backed log' (cv'\<lparr>cv_cache := gm_put (dep, a, g) \<lparr>cres_accountID = a, cres_generation = g, cres_valid = v,
       cres_coderID = i, cres_cachedAt = later\<rparr> c\<rparr>)"
    if "c = cv_cache cv \<or> c = gm_delete (dep, a, g) (cv_cache cv)"
      "if v then \<exists>ident. ans = Inr ident \<and> ident_ID ident = i
       else \<exists>ce. ans = Inl (CredErr ce) \<and> ce_Kind ce = CredentialInvalid \<and> ce_HTTPStatus ce = 401" for cv' dep v i c
  proof -
    have "entry_backed log' (dep, a, g) \<lparr>cres_accountID = a, cres_generation = g, cres_valid = v, cres_coderID = i, cres_cachedAt = later\<rparr>"
      using that(2) by (auto simp: entry_backed_def l split: if_splits)
    then show ?thesis using that(1) m by (auto simp: cache_backed_def split: if_splits)
  qed
  have keep: "cache_backed log' cv" "cache_backed log' (cv\<lparr>cv_cache := gm_delete k (cv_cache cv)\<rparr>)" for k
    using m by (auto simp: cache_backed_def split: if_splits)
  show ?thesis
    unfolding VerifyCached_def Let_def l [symmetric]
    by (cases ans) (auto split: option.splits verify_error.splits if_splits intro!: put keep)
qed

lemma Invalidate_backed: "cache_backed log cv \<Longrightarrow> cache_backed log (Invalidate a g cv)"
  by (auto simp: cache_backed_def Invalidate_def split: if_splits)

lemma cache_run_backed:
  "cache_backed log cv \<Longrightarrow> cache_backed (fst (cache_run cs (log, cv))) (snd (cache_run cs (log, cv)))"
proof (induction cs arbitrary: log cv)
  case (Cons c cs)
  then show ?case
    by (cases c) (simp_all add: VerifyCached_backed VerifyCached_hit Invalidate_backed)
qed simp

lemma VerifyCached_keeps_cfg [simp]:
  "cv_ttl (snd (VerifyCached v now later a g tok cv)) = cv_ttl cv" "cv_deploymentID (snd (VerifyCached v now later a g tok cv)) = cv_deploymentID cv"
  by (auto simp: VerifyCached_def Let_def split: option.splits verify_error.splits sum.splits)

lemma cache_run_cfg: "cv_ttl (snd (cache_run cs (log, cv))) = cv_ttl cv"
proof (induction cs arbitrary: log cv)
  case (Cons c cs)
  then show ?case by (cases c) (simp_all add: Invalidate_def)
qed simp

section \<open>Properties\<close>

text \<open>C39. The verdict on a token: it is accepted only for a complete 200 reply of at most one mebibyte that carries a
  non-zero user identifier, which is then the result; the only failures that ask the user for a new token are an
  empty token and an HTTP 401; and only an unreachable or overloaded control plane is reported as worth retrying.\<close>

theorem verify_verdict:
  "(\<forall>ident. Verify L A token = Inr ident \<longrightarrow> token \<noteq> [] \<and> ident_ID ident \<noteq> uuid_Nil
      \<and> (\<exists>b reply. api_Do A token = Responded 200 b \<and> length (body_bytes b) \<le> 1048576 \<and> \<not> body_fails b
           \<and> api_Unmarshal A (body_bytes b) = Some reply \<and> uuid_Parse L (TrimSpace L (um_ID reply)) = Some (ident_ID ident)))
   \<and> (\<forall>e. Verify L A token = Inl e \<longrightarrow>
        (Renewable (ce_Kind e) \<longleftrightarrow> token = [] \<or> (\<exists>b. api_Do A token = Responded 401 b))
      \<and> (ce_Retryable e \<longleftrightarrow> token \<noteq> [] \<and> (api_Do A token = DoFailed TransportFailed
           \<or> (\<exists>st b. api_Do A token = Responded st b \<and> (st = 429 \<or> 500 \<le> st \<and> st \<le> 599)))))"
proof (intro conjI allI impI)
  fix ident assume v: "Verify L A token = Inr ident"
  then show "token \<noteq> []" "ident_ID ident \<noteq> uuid_Nil" by (simp_all add: Verify_Inr)
  show "\<exists>b reply. api_Do A token = Responded 200 b \<and> length (body_bytes b) \<le> 1048576 \<and> \<not> body_fails b
           \<and> api_Unmarshal A (body_bytes b) = Some reply \<and> uuid_Parse L (TrimSpace L (um_ID reply)) = Some (ident_ID ident)"
    using v readCapped_bound by (fastforce simp: Verify_Inr MaxBodyBytes_def)
next
  fix e assume v: "Verify L A token = Inl e"
  show "Renewable (ce_Kind e) \<longleftrightarrow> token = [] \<or> (\<exists>b. api_Do A token = Responded 401 b)"
    using v classifyStatus_kind(1)
    by (auto simp: Verify_def classifyTransport_def malformedReply_def redirectError_def
        split: if_splits exchange.splits transport_error.splits option.splits)
  show "ce_Retryable e \<longleftrightarrow> token \<noteq> [] \<and> (api_Do A token = DoFailed TransportFailed
           \<or> (\<exists>st b. api_Do A token = Responded st b \<and> (st = 429 \<or> 500 \<le> st \<and> st \<le> 599)))"
    using v classifyStatus_kind(2)
    by (auto simp: Verify_def classifyTransport_def malformedReply_def redirectError_def
        split: if_splits exchange.splits transport_error.splits option.splits)
qed

definition demo_api :: api where
  "demo_api = \<lparr>api_Do = (\<lambda>t. if t = ''good'' then Responded 200 \<lparr>body_bytes = ''{}'', body_fails = False\<rparr>
       else Responded 401 \<lparr>body_bytes = [], body_fails = False\<rparr>),
     api_Unmarshal = (\<lambda>_. Some \<lparr>um_ID = ''u111'', um_Username = ''alice'', um_Status = ''active''\<rparr>)\<rparr>"

theorem verify_verdict_witness:
  "(\<exists>e. Verify demo_lib demo_api ''bad'' = Inl e \<and> Renewable (ce_Kind e))
   \<and> (\<exists>ident. Verify demo_lib demo_api ''good'' = Inr ident \<and> ident_ID ident \<noteq> uuid_Nil)"
proof
  have d: "api_Do demo_api ''bad'' = Responded 401 \<lparr>body_bytes = [], body_fails = False\<rparr>" by (simp add: demo_api_def)
  have "case Verify demo_lib demo_api ''bad'' of Inl _ \<Rightarrow> True | Inr _ \<Rightarrow> False" by code_simp
  then obtain e where e: "Verify demo_lib demo_api ''bad'' = Inl e" by (auto split: sum.splits)
  note v = verify_verdict [of demo_lib demo_api "''bad''", THEN conjunct2, THEN spec [where x = e], THEN mp, OF e, THEN conjunct1]
  have "Renewable (ce_Kind e)" unfolding v d by blast
  then show "\<exists>e. Verify demo_lib demo_api ''bad'' = Inl e \<and> Renewable (ce_Kind e)" using e by blast
  have "readCapped \<lparr>body_bytes = ''{}'', body_fails = False\<rparr> = Some ''{}''" by (simp add: readCapped_def MaxBodyBytes_def)
  moreover have "uuid_Parse demo_lib (TrimSpace demo_lib ''u111'') = Some 3" by code_simp
  ultimately obtain ident where i: "Verify demo_lib demo_api ''good'' = Inr ident" by (simp add: Verify_def demo_api_def)
  note w = verify_verdict [of demo_lib demo_api "''good''", THEN conjunct1, THEN spec [where x = ident], THEN mp, OF i, THEN conjunct2, THEN conjunct1]
  from w i show "\<exists>ident. Verify demo_lib demo_api ''good'' = Inr ident \<and> ident_ID ident \<noteq> uuid_Nil" by blast
qed

text \<open>The cache never invents a verdict and never serves an old one: after any sequence of verifications and
  invalidations, an answer given without calling the verifier repeats the outcome of a verifier call made for the
  same account and credential generation less than one lifetime before, namely the same user identifier, or a
  401 rejection; no other failure is ever remembered.\<close>

theorem cache_answers_backed:
  fixes ttl :: int
  assumes "cache_run cs ([], NewCachedVerifier dep ttl) = (log, cv)"
    and call: "VerifyCached (\<lambda>_. ans) now later a g tok cv = (r, cv')"
  shows "r = ans \<or> (\<exists>t res. (t, a, g, res) \<in> set log \<and> now - t < (if ttl \<le> 0 then 15000000000 else ttl)
      \<and> (case r of Inr ident \<Rightarrow> \<exists>ident'. res = Inr ident' \<and> ident_ID ident' = ident_ID ident
         | Inl e \<Rightarrow> \<exists>ce. res = Inl (CredErr ce) \<and> ce_Kind ce = CredentialInvalid \<and> ce_HTTPStatus ce = 401 \<and> KindOf e = Some CredentialInvalid))"
proof -
  have b: "cache_backed log cv" using cache_run_backed [of "[]" "NewCachedVerifier dep ttl" cs] assms(1)
    by (simp add: cache_backed_def NewCachedVerifier_def)
  have t: "cv_ttl cv = (if ttl \<le> 0 then 15000000000 else ttl)"
    using cache_run_cfg [of cs "[]" "NewCachedVerifier dep ttl"] assms(1) by (simp add: NewCachedVerifier_def)
  show ?thesis
  proof (cases "map_of (cv_cache cv) (cv_deploymentID cv, a, g)")
    case None
    then show ?thesis using call by (auto simp: VerifyCached_def Let_def split: sum.splits verify_error.splits if_splits)
  next
    case (Some entry)
    have e: "entry_backed log (cv_deploymentID cv, a, g) entry" using b Some by (simp add: cache_backed_def)
    show ?thesis
    proof (cases "now - cres_cachedAt entry < cv_ttl cv")
      case True
      with Some call have "r = (if cres_valid entry then Inr \<lparr>ident_ID = cres_coderID entry, ident_Username = [], ident_Status = []\<rparr>
          else Inl (CredErr (credErr CredentialInvalid 401 False AUTH_CREDENTIAL_UNAUTHORIZED)))"
        by (auto simp: VerifyCached_def)
      with e True t show ?thesis unfolding entry_backed_def by (auto split: if_splits)
    next
      case False
      with Some call show ?thesis
        by (auto simp: VerifyCached_def Let_def split: sum.splits verify_error.splits if_splits)
    qed
  qed
qed

theorem cache_answers_backed_witness:
  "\<exists>t res. (t, 5, 1, res) \<in> set [(10, 5, 1, Inr \<lparr>ident_ID = 7, ident_Username = [], ident_Status = []\<rparr> :: verify_error + CoderIdentity)] \<and> 12 - t < (100::int)
     \<and> (\<exists>ident'. res = Inr ident' \<and> ident_ID ident' = 7)"
proof -
  let ?ok = "Inr \<lparr>ident_ID = 7, ident_Username = [], ident_Status = []\<rparr> :: verify_error + CoderIdentity"
  let ?cv = "snd (VerifyCached (\<lambda>_. ?ok) 0 10 5 1 ''t'' (NewCachedVerifier 9 100))"
  have run: "cache_run [CallVerify 0 10 5 1 ''t'' ?ok] ([], NewCachedVerifier 9 100) = ([(10, 5, 1, ?ok)], ?cv)"
    by (simp add: cache_hit_def NewCachedVerifier_def)
  have call: "VerifyCached (\<lambda>_. Inl (OtherErr [])) 12 13 5 1 ''t'' ?cv = (?ok, ?cv)"
    by (simp add: VerifyCached_def NewCachedVerifier_def Let_def gm_put_def)
  from cache_answers_backed [OF run call] show ?thesis by simp
qed

end
