(* ===== verification/Secretbox.thy ===== *)
theory Secretbox
  imports Core
begin

text \<open>
  \<open>internal/secretbox\<close>: sealing and opening of credentials with AES-256-GCM, the associated data that
  binds a ciphertext to its deployment, account and generation, and the key provider that loads key
  material from files and environment variables. The cipher is a parameter with its documented laws;
  the environment and the key files are parameters of the provider.
\<close>

section \<open>Sealing (secretbox.go)\<close>

text \<open>\<open>gcm.Seal\<close> and \<open>gcm.Open\<close> for a key, a nonce, a text and associated data.\<close>

record aead =
  gcm_Seal :: "bytes \<Rightarrow> bytes \<Rightarrow> bytes \<Rightarrow> bytes \<Rightarrow> bytes"
  gcm_Open :: "bytes \<Rightarrow> bytes \<Rightarrow> bytes \<Rightarrow> bytes \<Rightarrow> bytes option"

definition KeySize :: nat where "KeySize = 32"
definition NonceSize :: nat where "NonceSize = 12"

text \<open>What the source relies on: the ciphertext of a message opens to that message under the same key, nonce
  and associated data, nothing but that ciphertext does (the tag is recomputed and compared), and a
  ciphertext is never empty because it carries a tag.\<close>

definition aead_lawful :: "aead \<Rightarrow> bool" where
  "aead_lawful A \<longleftrightarrow> (\<forall>k n c p a. length k = KeySize \<longrightarrow> length n = NonceSize \<longrightarrow>
     (gcm_Open A k n c a = Some p \<longleftrightarrow> c = gcm_Seal A k n p a) \<and> gcm_Seal A k n p a \<noteq> [])"

lemma aead_lawfulD:
  assumes "aead_lawful A" "length k = KeySize" "length n = NonceSize"
  shows "gcm_Open A k n c a = Some p \<longleftrightarrow> c = gcm_Seal A k n p a" "gcm_Seal A k n p a \<noteq> []"
  using assms by (auto simp: aead_lawful_def)

text \<open>A concrete instance for the witnesses: the text followed by a tag that spells out the key, the nonce and
  the associated data, each with its length.\<close>

definition demo_tag :: "bytes \<Rightarrow> bytes \<Rightarrow> bytes \<Rightarrow> bytes" where
  "demo_tag k n a = CHR ''#'' # k @ n @ a"

definition demo_aead :: aead where
  "demo_aead = \<lparr>gcm_Seal = (\<lambda>k n p a. p @ demo_tag k n a),
     gcm_Open = (\<lambda>k n c a. let t = demo_tag k n a in
        if HasSuffix c t then Some (take (length c - length t) c) else None)\<rparr>"

lemma demo_aead_lawful [simp]: "aead_lawful demo_aead"
  by (auto simp: aead_lawful_def demo_aead_def Let_def HasSuffix_iff demo_tag_def)

datatype crypto_error = ErrKeySize | ErrNonce | ErrDecryptFailed

definition newGCM :: "bytes \<Rightarrow> crypto_error + unit" where
  "newGCM key = (if length key \<noteq> KeySize then Inl ErrKeySize else Inr ())"

text \<open>The result of reading \<open>crypto/rand\<close> is an argument: \<open>None\<close> when the read fails, otherwise the stream of
  random bytes, of which the first 12 are the nonce.\<close>

definition read_nonce :: "(nat \<Rightarrow> char) \<Rightarrow> bytes" where
  "read_nonce bs = map bs [0..<NonceSize]"

definition Seal :: "aead \<Rightarrow> (nat \<Rightarrow> char) option \<Rightarrow> string \<Rightarrow> bytes \<Rightarrow> bytes \<Rightarrow> bytes \<Rightarrow> crypto_error + (bytes \<times> bytes)" where
  "Seal A rnd keyID key plaintext aad =
     (case newGCM key of
        Inl e \<Rightarrow> Inl e
      | Inr _ \<Rightarrow> (case rnd of
            None \<Rightarrow> Inl ErrNonce
          | Some bs \<Rightarrow> Inr (read_nonce bs, gcm_Seal A key (read_nonce bs) plaintext aad)))"

definition Open :: "aead \<Rightarrow> string \<Rightarrow> bytes \<Rightarrow> bytes \<Rightarrow> bytes \<Rightarrow> bytes \<Rightarrow> crypto_error + bytes" where
  "Open A keyID key nonce ciphertext aad =
     (case newGCM key of
        Inl e \<Rightarrow> Inl e
      | Inr _ \<Rightarrow>
          if length nonce \<noteq> NonceSize then Inl ErrDecryptFailed
          else (case gcm_Open A key nonce ciphertext aad of
              None \<Rightarrow> Inl ErrDecryptFailed
            | Some plaintext \<Rightarrow> Inr plaintext))"

section \<open>Associated data (aad.go) and wiping (wipe.go)\<close>

definition CredentialAAD :: "golib \<Rightarrow> uuid \<Rightarrow> uuid \<Rightarrow> int64 \<Rightarrow> bytes" where
  "CredentialAAD L deploymentID accountID generation =
     Join [CHR 0x0A]
       [''coder-ssh-gateway'', ''schema=v1'', ''deployment='' @ uuid_String L deploymentID,
        ''account='' @ uuid_String L accountID, ''record=credential'',
        ''generation='' @ FormatInt (sint generation)]"

definition BestEffortWipe :: "bytes \<Rightarrow> bytes" where
  "BestEffortWipe b = map (\<lambda>_. CHR 0x00) b"

section \<open>Key material (provider.go)\<close>

text \<open>\<open>base64.Encoding.DecodeString\<close>: carriage returns and newlines are skipped; the padded encodings
  require complete groups of four, the raw ones forbid padding.\<close>

definition b64_value :: "bool \<Rightarrow> char \<Rightarrow> nat option" where
  "b64_value url c =
     (if CHR ''A'' \<le> c \<and> c \<le> CHR ''Z'' then Some (of_char c - 65)
      else if CHR ''a'' \<le> c \<and> c \<le> CHR ''z'' then Some (of_char c - 97 + 26)
      else if CHR ''0'' \<le> c \<and> c \<le> CHR ''9'' then Some (of_char c - 48 + 52)
      else if c = (if url then CHR ''-'' else CHR ''+'') then Some 62
      else if c = (if url then CHR ''_'' else CHR ''/'') then Some 63
      else None)"

definition b64_bytes :: "nat \<Rightarrow> nat \<Rightarrow> nat \<Rightarrow> nat \<Rightarrow> bytes" where
  "b64_bytes a b c d = (let v = ((a * 64 + b) * 64 + c) * 64 + d in
     [char_of (v div 65536), char_of (v div 256), char_of v])"

fun b64_groups :: "bool \<Rightarrow> bool \<Rightarrow> string \<Rightarrow> bytes option" where
  "b64_groups url pad [] = Some []"
| "b64_groups url pad [a] = None"
| "b64_groups url pad [a, b] = (if pad then None else
     (case (b64_value url a, b64_value url b) of
        (Some v, Some w) \<Rightarrow> Some (take 1 (b64_bytes v w 0 0)) | _ \<Rightarrow> None))"
| "b64_groups url pad [a, b, c] = (if pad then None else
     (case (b64_value url a, b64_value url b, b64_value url c) of
        (Some v, Some w, Some x) \<Rightarrow> Some (take 2 (b64_bytes v w x 0)) | _ \<Rightarrow> None))"
| "b64_groups url pad (a # b # c # d # rest) =
     (case (b64_value url a, b64_value url b) of
        (Some v, Some w) \<Rightarrow>
          if pad \<and> c = CHR ''='' \<and> d = CHR ''='' \<and> rest = [] then Some (take 1 (b64_bytes v w 0 0))
          else (case b64_value url c of
              None \<Rightarrow> None
            | Some x \<Rightarrow>
                if pad \<and> d = CHR ''='' \<and> rest = [] then Some (take 2 (b64_bytes v w x 0))
                else (case b64_value url d of
                    None \<Rightarrow> None
                  | Some y \<Rightarrow> map_option (\<lambda>r. b64_bytes v w x y @ r) (b64_groups url pad rest)))
      | _ \<Rightarrow> None)"

definition b64_DecodeString :: "bool \<times> bool \<Rightarrow> string \<Rightarrow> bytes option" where
  "b64_DecodeString enc s = b64_groups (fst enc) (snd enc) (filter (\<lambda>c. c \<noteq> CHR 0x0A \<and> c \<noteq> CHR 0x0D) s)"

text \<open>The four encodings in the order they are tried: standard, raw standard, URL, raw URL.\<close>

definition b64_encodings :: "(bool \<times> bool) list" where
  "b64_encodings = [(False, True), (False, False), (True, True), (True, False)]"

datatype key_error = KeyNotFound | KeyFormat | DecodedKeySize | EnvNotSet | FileError | CtxError

text \<open>The loop over the encodings; the flag is \<open>decodedOK\<close>.\<close>

fun try_encodings :: "(bool \<times> bool) list \<Rightarrow> bool \<Rightarrow> string \<Rightarrow> key_error + bytes" where
  "try_encodings [] decodedOK s = Inl (if decodedOK then DecodedKeySize else KeyFormat)"
| "try_encodings (e # es) decodedOK s =
     (case b64_DecodeString e s of
        None \<Rightarrow> try_encodings es decodedOK s
      | Some d \<Rightarrow> if length d = KeySize then Inr d else try_encodings es True s)"

definition parseKeyMaterial :: "golib \<Rightarrow> bytes \<Rightarrow> key_error + bytes" where
  "parseKeyMaterial L data =
     (if length data = KeySize then Inr data
      else let trimmed = TrimSpace L data in
        if length trimmed = KeySize then Inr trimmed
        else try_encodings b64_encodings False trimmed)"

record SourceKeyProvider =
  skp_Keys :: "string \<rightharpoonup> string"
  skp_ActiveID :: string
  skp_cache :: "string \<rightharpoonup> bytes"

text \<open>The outside world at the time of a call: environment variables (empty when unset) and readable files.\<close>

record key_world =
  os_Getenv :: "string \<Rightarrow> string"
  os_ReadFile :: "string \<Rightarrow> bytes option"

definition envKey :: "golib \<Rightarrow> key_world \<Rightarrow> string \<Rightarrow> key_error + bytes" where
  "envKey L W varName =
     (if varName = [] then Inl KeyFormat
      else let value = os_Getenv W varName in
        if value = [] then Inl EnvNotSet else parseKeyMaterial L value)"

definition fileKey :: "golib \<Rightarrow> key_world \<Rightarrow> string \<Rightarrow> key_error + bytes" where
  "fileKey L W path = (case os_ReadFile W path of None \<Rightarrow> Inl FileError | Some data \<Rightarrow> parseKeyMaterial L data)"

definition provider_Key :: "golib \<Rightarrow> key_world \<Rightarrow> bool \<Rightarrow> string \<Rightarrow> (SourceKeyProvider, key_error, bytes) sr" where
  "provider_Key L W ctxErr keyID p =
     (if ctxErr then (Inl CtxError, p)
      else case skp_Keys p keyID of
        None \<Rightarrow> (Inl KeyNotFound, p)
      | Some source \<Rightarrow>
          (case skp_cache p keyID of
             Some key \<Rightarrow> (Inr key, p)
           | None \<Rightarrow>
               (case (if HasPrefix source ''env:'' then envKey L W (drop 4 source) else fileKey L W source) of
                  Inl e \<Rightarrow> (Inl e, p)
                | Inr key \<Rightarrow> (Inr key, p\<lparr>skp_cache := (skp_cache p)(keyID \<mapsto> key)\<rparr>))))"

definition provider_ActiveKey :: "golib \<Rightarrow> key_world \<Rightarrow> bool \<Rightarrow> (SourceKeyProvider, key_error, string \<times> bytes) sr" where
  "provider_ActiveKey L W ctxErr p =
     (if skp_ActiveID p = [] then (Inl KeyNotFound, p)
      else case provider_Key L W ctxErr (skp_ActiveID p) p of
        (Inl e, p') \<Rightarrow> (Inl e, p')
      | (Inr key, p') \<Rightarrow> (Inr (skp_ActiveID p, key), p'))"

section \<open>Facts\<close>

lemma length_read_nonce [simp]: "length (read_nonce bs) = NonceSize"
  by (simp add: read_nonce_def)

lemma Seal_Inr:
  "Seal A rnd keyID key p aad = Inr (n, c) \<longleftrightarrow>
     length key = KeySize \<and> (\<exists>bs. rnd = Some bs \<and> n = read_nonce bs \<and> c = gcm_Seal A key n p aad)"
  by (auto simp: Seal_def newGCM_def split: option.splits)

lemma Open_Inr:
  assumes "aead_lawful A"
  shows "Open A keyID key n c aad = Inr p \<longleftrightarrow>
    length key = KeySize \<and> length n = NonceSize \<and> c = gcm_Seal A key n p aad"
proof (cases "length key = KeySize \<and> length n = NonceSize")
  case True
  then have "Open A keyID key n c aad = Inr p \<longleftrightarrow> gcm_Open A key n c aad = Some p"
    by (auto simp: Open_def newGCM_def split: option.splits)
  with True aead_lawfulD(1) [OF assms] show ?thesis by simp
qed (auto simp: Open_def newGCM_def)

text \<open>The six lines of the associated data have no line breaks inside, so the data determines them.\<close>

lemma CredentialAAD_inj:
  assumes "uuid_lawful L"
  shows "CredentialAAD L d a g = CredentialAAD L d' a' g' \<longleftrightarrow> d = d' \<and> a = a' \<and> g = g'"
proof
  assume e: "CredentialAAD L d a g = CredentialAAD L d' a' g'"
  let ?ls = "\<lambda>d a g. [''coder-ssh-gateway'', ''schema=v1'', ''deployment='' @ uuid_String L d,
        ''account='' @ uuid_String L a, ''record=credential'', ''generation='' @ FormatInt (sint g)]"
  have "Split (CHR 0x0A) (CredentialAAD L d a g) = ?ls d a g" for d a and g :: int64
    unfolding CredentialAAD_def using assms FormatInt_no_newline by (intro Split_Join) auto
  from this [of d a g] this [of d' a' g'] e
  have "uuid_String L d = uuid_String L d'" "uuid_String L a = uuid_String L a'"
    "FormatInt (sint g) = FormatInt (sint g')" by simp_all
  then show "d = d' \<and> a = a' \<and> g = g'"
    using assms FormatInt_inj [of "sint g" "sint g'"] by (simp add: signed_word_eqI)
qed simp

lemma try_encodings_size: "try_encodings es ok s = Inr k \<Longrightarrow> length k = KeySize"
  by (induction es arbitrary: ok) (auto split: option.splits if_splits)

lemma parseKeyMaterial_size: "parseKeyMaterial L d = Inr k \<Longrightarrow> length k = KeySize"
  by (auto simp: parseKeyMaterial_def Let_def split: if_splits dest: try_encodings_size)

definition provider_inv :: "SourceKeyProvider \<Rightarrow> bool" where
  "provider_inv p \<longleftrightarrow> (\<forall>i k. skp_cache p i = Some k \<longrightarrow> length k = KeySize)"

lemma load_key_size:
  "(if HasPrefix src ''env:'' then envKey L W (drop 4 src) else fileKey L W src) = Inr k \<Longrightarrow> length k = KeySize"
  by (auto simp: envKey_def fileKey_def Let_def split: if_splits option.splits dest: parseKeyMaterial_size)

lemma provider_Key_Inr:
  "provider_Key L W c i p = (Inr k, p') \<longleftrightarrow> \<not> c \<and> (\<exists>src. skp_Keys p i = Some src
     \<and> (skp_cache p i = Some k \<and> p' = p \<or> skp_cache p i = None
        \<and> (if HasPrefix src ''env:'' then envKey L W (drop 4 src) else fileKey L W src) = Inr k
        \<and> p' = p\<lparr>skp_cache := (skp_cache p)(i \<mapsto> k)\<rparr>))"
  unfolding provider_Key_def by (auto split: option.splits sum.splits)

lemma provider_Key_cases:
  assumes "provider_inv p" "provider_Key L W c i p = (Inr k, p')"
  shows "length k = KeySize" "provider_inv p'" "skp_cache p' i = Some k" "skp_Keys p' = skp_Keys p"
    "skp_ActiveID p' = skp_ActiveID p" "skp_Keys p i \<noteq> None"
proof -
  from assms(2) [unfolded provider_Key_Inr] obtain src where s: "skp_Keys p i = Some src" and
    d: "skp_cache p i = Some k \<and> p' = p \<or> skp_cache p i = None
        \<and> (if HasPrefix src ''env:'' then envKey L W (drop 4 src) else fileKey L W src) = Inr k
        \<and> p' = p\<lparr>skp_cache := (skp_cache p)(i \<mapsto> k)\<rparr>" by blast
  show k: "length k = KeySize" using d assms(1) load_key_size [of src] unfolding provider_inv_def by blast
  show "provider_inv p'" using d k assms(1) by (auto simp: provider_inv_def split: if_split_asm)
  show "skp_cache p' i = Some k" "skp_Keys p' = skp_Keys p" "skp_ActiveID p' = skp_ActiveID p" using d by auto
  show "skp_Keys p i \<noteq> None" using s by simp
qed

section \<open>Properties\<close>



text \<open>Key material is always a usable key and never altered: whatever a source holds, a key that is accepted
  has exactly 32 bytes; 32 raw bytes are taken verbatim even when they begin or end with white space; and a key
  once returned is returned again, from the cache, whatever happens to its file or variable afterwards.\<close>

theorem key_material_stable:
  assumes "provider_inv p" "provider_Key L W False i p = (Inr k, p')"
  shows "length k = 32 \<and> provider_inv p' \<and> provider_Key L W' False i p' = (Inr k, p')
    \<and> (\<forall>d. length d = 32 \<longrightarrow> parseKeyMaterial L d = Inr d)"
proof -
  note c = provider_Key_cases [OF assms]
  have "provider_Key L W' False i p' = (Inr k, p')" using c by (auto simp: provider_Key_Inr)
  with c show ?thesis by (simp add: KeySize_def parseKeyMaterial_def)
qed

definition demo_provider :: SourceKeyProvider where
  "demo_provider = \<lparr>skp_Keys = [''k1'' \<mapsto> ''env:KEY''], skp_ActiveID = ''k1'', skp_cache = Map.empty\<rparr>"

theorem key_material_stable_witness:
  "provider_Key demo_lib \<lparr>os_Getenv = (\<lambda>_. []), os_ReadFile = (\<lambda>_. None)\<rparr> False ''k1''
     (demo_provider\<lparr>skp_cache := [''k1'' \<mapsto> replicate 32 CHR '' '']\<rparr>)
   = (Inr (replicate 32 CHR '' ''), demo_provider\<lparr>skp_cache := [''k1'' \<mapsto> replicate 32 CHR '' '']\<rparr>)"
proof -
  have "provider_Key demo_lib \<lparr>os_Getenv = (\<lambda>_. replicate 32 CHR '' ''), os_ReadFile = (\<lambda>_. None)\<rparr> False ''k1'' demo_provider
    = (Inr (replicate 32 CHR '' ''), demo_provider\<lparr>skp_cache := [''k1'' \<mapsto> replicate 32 CHR '' '']\<rparr>)"
    by (simp add: provider_Key_def demo_provider_def HasPrefix_def envKey_def parseKeyMaterial_def KeySize_def numeral_eq_Suc)
  moreover have "provider_inv demo_provider" by (simp add: provider_inv_def demo_provider_def)
  ultimately show ?thesis using key_material_stable by blast
qed

end
