(* ===== verification/Files.thy ===== *)
theory Files
  imports Secretbox
begin

text \<open>
  The file primitives of \<open>internal/store/store.go\<close> over an explicit model of one directory, its entries and
  the outcome of every system call. Any system call may fail: the environment decides by a running counter,
  so a theorem for all environments covers every crash-free pattern of input/output errors. A record file is
  modelled by the record its JSON text decodes to (\<open>None\<close> when it does not decode).
\<close>

section \<open>Errors\<close>

datatype sentinel =
    ErrStoreLocked | ErrStoreCorrupt | ErrVersionMismatch | ErrStoreClosed | ErrUnknownKey
  | ErrCertificatesRejected | ErrDuplicateKey | ErrDuplicateCoderUser | ErrAccountNotFound
  | ErrAccountExists | ErrAccountDisabled | ErrKeyNotFound | ErrGenerationConflict | ErrWrongIdentity
  | ErrCryptoDecryptFailed | ErrNoKeyProvider

text \<open>\<open>Panicked\<close> marks a run-time panic (\<open>uuid.MustParse\<close> of a malformed string).\<close>

datatype cause = Sent sentinel | FsNotExist | FsIO | CtxDone | ProviderErr | SealErr | Panicked | NoCause

text \<open>The typed store error with its code and wrapped cause, or an error returned without a code. The
  message texts are not modelled.\<close>

datatype serror = StoreError string cause | RawErr cause

fun cause_of :: "serror \<Rightarrow> cause" where
  "cause_of (StoreError _ c) = c"
| "cause_of (RawErr c) = c"

text \<open>\<open>errors.Is(err, target)\<close>.\<close>

definition errIs :: "serror \<Rightarrow> cause \<Rightarrow> bool" where
  "errIs e c \<longleftrightarrow> cause_of e = c"

fun store_CodeOf :: "serror \<Rightarrow> string" where
  "store_CodeOf (StoreError c _) = c"
| "store_CodeOf (RawErr _) = []"

definition storeUnavailable :: "cause \<Rightarrow> serror" where
  "storeUnavailable c = StoreError STORE_UNAVAILABLE c"

definition unknownKeyErr :: "cause \<Rightarrow> serror" where
  "unknownKeyErr c = StoreError AUTH_UNKNOWN_KEY c"

section \<open>The environment\<close>

text \<open>Everything the code asks the outside world, by a running counter: whether the system call with that
  number fails, the clock in milliseconds, a new UUID, the random part of a temporary file name, and the
  random bytes of a nonce.\<close>

record env =
  env_lib :: golib
  env_aead :: aead
  env_fault :: "nat \<Rightarrow> bool"
  env_now :: "nat \<Rightarrow> int"
  env_uuid :: "nat \<Rightarrow> uuid"
  env_rand :: "nat \<Rightarrow> string"
  env_nonce :: "nat \<Rightarrow> (nat \<Rightarrow> char) option"

section \<open>A directory\<close>

text \<open>An entry is a subdirectory or a file with its contents and modification time in milliseconds.\<close>

datatype 'r fentry = FDir | FFile "'r option" int

type_synonym 'r fdir = "(string, 'r fentry) gomap"

record 'r fs =
  fs_tick :: nat
  fs_dir :: "'r fdir"

type_synonym ('r, 'a) fsm = "('r fs, serror, 'a) sr"

definition fs_modify :: "('r fdir \<Rightarrow> 'r fdir) \<Rightarrow> ('r, unit) fsm" where
  "fs_modify f = (\<lambda>s. (Inr (), s\<lparr>fs_dir := f (fs_dir s)\<rparr>))"

definition fs_syscall :: "env \<Rightarrow> ('r, unit) fsm" where
  "fs_syscall E = (\<lambda>s. (if env_fault E (fs_tick s) then Inl (RawErr FsIO) else Inr (), s\<lparr>fs_tick := Suc (fs_tick s)\<rparr>))"

text \<open>\<open>os.CreateTemp(dir, name + ".*.tmp")\<close> opens with \<open>O_EXCL\<close>: it fails if the name it chose exists.\<close>

definition tmp_name :: "string \<Rightarrow> string \<Rightarrow> string" where
  "tmp_name name rand = name @ ''.'' @ rand @ ''.tmp''"

definition os_CreateTemp :: "env \<Rightarrow> string \<Rightarrow> ('r, string) fsm" where
  "os_CreateTemp E name =
     bnd (fs_syscall E) (\<lambda>_.
     bnd (gets (\<lambda>s. (tmp_name name (env_rand E (fs_tick s)), env_now E (fs_tick s)))) (\<lambda>(tmp, now).
     bnd (gets fs_dir) (\<lambda>d.
     bnd (guard (map_of d tmp = None) (RawErr FsIO)) (\<lambda>_.
     bnd (fs_modify (gm_put tmp (FFile None now))) (\<lambda>_. ret tmp)))))"

definition os_Write :: "env \<Rightarrow> string \<Rightarrow> 'r \<Rightarrow> ('r, unit) fsm" where
  "os_Write E tmp v =
     bnd (fs_syscall E) (\<lambda>_.
     bnd (gets (\<lambda>s. env_now E (fs_tick s))) (\<lambda>now. fs_modify (gm_put tmp (FFile (Some v) now))))"

text \<open>\<open>os.Rename\<close> replaces an existing file in one step and fails on a directory.\<close>

definition os_Rename :: "env \<Rightarrow> string \<Rightarrow> string \<Rightarrow> ('r, unit) fsm" where
  "os_Rename E old new =
     bnd (fs_syscall E) (\<lambda>_.
     bnd (gets fs_dir) (\<lambda>d.
     case map_of d old of
       None \<Rightarrow> raise (RawErr FsNotExist)
     | Some e \<Rightarrow>
         if map_of d new = Some FDir then raise (RawErr FsIO)
         else fs_modify (\<lambda>d. gm_put new e (gm_delete old d))))"

definition os_Remove :: "env \<Rightarrow> string \<Rightarrow> ('r, unit) fsm" where
  "os_Remove E name =
     bnd (fs_syscall E) (\<lambda>_.
     bnd (gets fs_dir) (\<lambda>d.
     bnd (guard (map_of d name \<noteq> None) (RawErr FsNotExist)) (\<lambda>_. fs_modify (gm_delete name))))"

definition os_Stat :: "env \<Rightarrow> string \<Rightarrow> ('r, unit) fsm" where
  "os_Stat E name =
     bnd (fs_syscall E) (\<lambda>_. bnd (gets fs_dir) (\<lambda>d. guard (map_of d name \<noteq> None) (RawErr FsNotExist)))"

text \<open>\<open>os.ReadDir\<close> lists the entries in the order of their names; every scan of the store skips
  subdirectories and names that do not end in \<open>.json\<close>.\<close>

definition os_ReadDir :: "env \<Rightarrow> ('r, 'r fdir) fsm" where
  "os_ReadDir E = bnd (fs_syscall E) (\<lambda>_. gets (\<lambda>s. sort_key fst (fs_dir s)))"

definition jsonNames :: "'r fdir \<Rightarrow> string list" where
  "jsonNames es = map fst (filter (\<lambda>(n, e). e \<noteq> FDir \<and> HasSuffix n ''.json'') es)"

section \<open>Record files (store.go)\<close>

text \<open>The body of \<open>writeFileAtomic\<close> after the temporary file exists: chmod, write, sync, close, rename, open
  and sync the directory.\<close>

definition write_steps :: "env \<Rightarrow> string \<Rightarrow> string \<Rightarrow> 'r \<Rightarrow> ('r, unit) fsm" where
  "write_steps E tmp name data =
     bnd (fs_syscall E) (\<lambda>_.
     bnd (os_Write E tmp data) (\<lambda>_.
     bnd (fs_syscall E) (\<lambda>_.
     bnd (fs_syscall E) (\<lambda>_.
     bnd (os_Rename E tmp name) (\<lambda>_.
     bnd (fs_syscall E) (\<lambda>_.
     fs_syscall E))))))"

definition writeFileAtomic :: "env \<Rightarrow> string \<Rightarrow> 'r \<Rightarrow> ('r, unit) fsm" where
  "writeFileAtomic E name data =
     bnd (os_CreateTemp E name) (\<lambda>tmp.
     bnd (attempt (write_steps E tmp name data)) (\<lambda>r.
     case r of
       Inr _ \<Rightarrow> ret ()
     | Inl e \<Rightarrow> bnd (attempt (os_Remove E tmp)) (\<lambda>_. raise e)))"

definition readRecord :: "env \<Rightarrow> string \<Rightarrow> ('r, 'r) fsm" where
  "readRecord E name =
     bnd (fs_syscall E) (\<lambda>_.
     bnd (gets fs_dir) (\<lambda>d.
     case map_of d name of
       None \<Rightarrow> raise (RawErr FsNotExist)
     | Some FDir \<Rightarrow> raise (RawErr FsIO)
     | Some (FFile None _) \<Rightarrow> raise (storeUnavailable (Sent ErrStoreCorrupt))
     | Some (FFile (Some v) _) \<Rightarrow> ret v))"

definition writeRecord :: "env \<Rightarrow> string \<Rightarrow> 'r \<Rightarrow> ('r, unit) fsm" where
  "writeRecord E name v =
     bnd (attempt (writeFileAtomic E name v)) (\<lambda>r.
     case r of Inr _ \<Rightarrow> ret () | Inl e \<Rightarrow> raise (storeUnavailable (cause_of e)))"

definition deleteRecordDurably :: "env \<Rightarrow> string \<Rightarrow> ('r, unit) fsm" where
  "deleteRecordDurably E name =
     bnd (attempt (os_Remove E name)) (\<lambda>r.
     case r of
       Inl e \<Rightarrow> raise (storeUnavailable (cause_of e))
     | Inr _ \<Rightarrow>
         bnd (attempt (fs_syscall E)) (\<lambda>r.
         case r of
           Inl e \<Rightarrow> raise (storeUnavailable (cause_of e))
         | Inr _ \<Rightarrow>
             bnd (attempt (fs_syscall E)) (\<lambda>r.
             case r of Inl e \<Rightarrow> raise (storeUnavailable (cause_of e)) | Inr _ \<Rightarrow> ret ())))"

text \<open>The scan of one directory by \<open>cleanStrayTemps\<close>. \<open>e.Info()\<close> may fail, in which case the file is removed.\<close>

definition strayTempMinAge :: int where "strayTempMinAge = 600000"

fun cleanEntries :: "env \<Rightarrow> 'r fdir \<Rightarrow> ('r, unit) fsm" where
  "cleanEntries E [] = ret ()"
| "cleanEntries E ((n, FDir) # es) = cleanEntries E es"
| "cleanEntries E ((n, FFile c t) # es) =
     (if \<not> HasSuffix n ''.tmp'' then cleanEntries E es
      else bnd (attempt (fs_syscall E)) (\<lambda>info.
           bnd (gets (\<lambda>s. env_now E (fs_tick s))) (\<lambda>now.
           if (case info of Inr _ \<Rightarrow> now - t < strayTempMinAge | Inl _ \<Rightarrow> False) then cleanEntries E es
           else bnd (attempt (os_Remove E n)) (\<lambda>r.
                case r of Inl e \<Rightarrow> raise (storeUnavailable (cause_of e)) | Inr _ \<Rightarrow> cleanEntries E es))))"

definition cleanDir :: "env \<Rightarrow> ('r, unit) fsm" where
  "cleanDir E =
     bnd (attempt (os_ReadDir E)) (\<lambda>r.
     case r of Inl e \<Rightarrow> raise (storeUnavailable (cause_of e)) | Inr es \<Rightarrow> cleanEntries E es)"


section \<open>The view of a directory\<close>

text \<open>What the store can see: temporary files are never read, modification times do not matter.\<close>

datatype 'r fnode = NDir | NFile "'r option"

fun node :: "'r fentry \<Rightarrow> 'r fnode" where
  "node FDir = NDir"
| "node (FFile c _) = NFile c"

definition is_tmp :: "string \<Rightarrow> bool" where
  "is_tmp n \<longleftrightarrow> HasSuffix n ''.tmp''"

definition view :: "'r fdir \<Rightarrow> string \<Rightarrow> 'r fnode option" where
  "view d n = (if is_tmp n then None else map_option node (map_of d n))"

lemma is_tmp_tmp_name [simp]: "is_tmp (tmp_name n r)"
proof -
  have "tmp_name n r = (n @ ''.'' @ r) @ ''.tmp''" by (simp add: tmp_name_def)
  then show ?thesis unfolding is_tmp_def by (metis HasSuffix_append)
qed

lemma not_tmp_json [simp]: "\<not> is_tmp (n @ ''.json'')"
  unfolding is_tmp_def HasSuffix_iff
proof
  assume "\<exists>r. n @ ''.json'' = r @ ''.tmp''"
  then have "last (n @ ''.json'') = last (r @ ''.tmp'')" for r by auto
  then show False by simp
qed

lemma HasSuffix_json_not_tmp: "HasSuffix n ''.json'' \<Longrightarrow> \<not> is_tmp n"
  using not_tmp_json by (metis HasSuffix_iff)

lemma view_put_tmp [simp]: "is_tmp t \<Longrightarrow> view (gm_put t e d) = view d"
  by (auto simp: view_def fun_eq_iff)

lemma view_delete_tmp [simp]: "is_tmp t \<Longrightarrow> view (gm_delete t d) = view d"
  by (auto simp: view_def fun_eq_iff)

lemma view_put [simp]: "\<not> is_tmp n \<Longrightarrow> view (gm_put n e d) = (view d)(n \<mapsto> node e)"
  by (auto simp: view_def fun_eq_iff)

lemma view_delete [simp]: "\<not> is_tmp n \<Longrightarrow> view (gm_delete n d) = (view d)(n := None)"
  by (auto simp: view_def fun_eq_iff)

lemma view_jsonNames:
  assumes "distinct (map fst d)"
  shows "n \<in> set (jsonNames (sort_key fst d)) \<longleftrightarrow> HasSuffix n ''.json'' \<and> (\<exists>c. view d n = Some (NFile c))"
proof -
  have "(\<exists>e. (n, e) \<in> set d \<and> e \<noteq> FDir) \<longleftrightarrow> (\<exists>c. map_option node (map_of d n) = Some (NFile c))"
  proof
    assume "\<exists>e. (n, e) \<in> set d \<and> e \<noteq> FDir"
    then obtain e where "map_of d n = Some e" "e \<noteq> FDir" using assms by (metis map_of_is_SomeI)
    then show "\<exists>c. map_option node (map_of d n) = Some (NFile c)" by (cases e) auto
  next
    assume "\<exists>c. map_option node (map_of d n) = Some (NFile c)"
    then obtain e c where "map_of d n = Some e" "node e = NFile c" by auto
    then show "\<exists>e. (n, e) \<in> set d \<and> e \<noteq> FDir" by (auto dest: map_of_SomeD)
  qed
  moreover have "n \<in> set (jsonNames (sort_key fst d)) \<longleftrightarrow> HasSuffix n ''.json'' \<and> (\<exists>e. (n, e) \<in> set d \<and> e \<noteq> FDir)"
    unfolding jsonNames_def by (force simp: image_iff)
  ultimately show ?thesis unfolding view_def by (auto dest: HasSuffix_json_not_tmp)
qed

section \<open>Outcomes of the primitives\<close>

lemma fs_syscall_eq:
  "fs_syscall E s = (if env_fault E (fs_tick s) then Inl (RawErr FsIO) else Inr (), s\<lparr>fs_tick := Suc (fs_tick s)\<rparr>)"
  by (simp add: fs_syscall_def)

lemma fs_syscallE:
  assumes "fs_syscall E s = (r, s')"
  obtains "r = Inr ()" "fs_dir s' = fs_dir s" | "r = Inl (RawErr FsIO)" "fs_dir s' = fs_dir s"
  using assms by (auto simp: fs_syscall_def split: if_splits)

text \<open>A step of the directory is atomic in the view: it either leaves the view as it was or installs the new
  record. The invariant carries that the temporary file is the only other difference.\<close>

definition staged :: "'r fdir \<Rightarrow> string \<Rightarrow> 'r \<Rightarrow> bool \<Rightarrow> 'r fs \<Rightarrow> bool" where
  "staged d0 tmp v full s \<longleftrightarrow> view (fs_dir s) = view d0 \<and> distinct (map fst (fs_dir s))
     \<and> map_of (fs_dir s) tmp \<noteq> None \<and> (full \<longrightarrow> (\<exists>t. map_of (fs_dir s) tmp = Some (FFile (Some v) t)))"

abbreviation written :: "'r fdir \<Rightarrow> string \<Rightarrow> 'r \<Rightarrow> 'r fs \<Rightarrow> bool" where
  "written d0 name v s \<equiv> view (fs_dir s) = (view d0)(name \<mapsto> NFile (Some v)) \<and> distinct (map fst (fs_dir s))"

abbreviation unwritten :: "'r fdir \<Rightarrow> 'r fs \<Rightarrow> bool" where
  "unwritten d0 s \<equiv> view (fs_dir s) = view d0 \<and> distinct (map fst (fs_dir s))"

lemma syscall_triple:
  "(\<And>s. P s \<Longrightarrow> P (s\<lparr>fs_tick := Suc (fs_tick s)\<rparr>)) \<Longrightarrow> triple P (fs_syscall E) (\<lambda>_. P) (\<lambda>_. P)"
  by (rule tripleI) (auto simp: fs_syscall_def split: if_splits)

lemma staged_syscall: "triple (staged d tmp v b) (fs_syscall E) (\<lambda>_. staged d tmp v b) (\<lambda>_. staged d tmp v b)"
  by (rule syscall_triple) (auto simp: staged_def)

lemma written_syscall: "triple (written d n v) (fs_syscall E) (\<lambda>_. written d n v) (\<lambda>_. written d n v)"
  by (rule syscall_triple) simp

lemma Write_triple:
  "is_tmp tmp \<Longrightarrow> triple (staged d tmp v False) (os_Write E tmp v) (\<lambda>_. staged d tmp v True) (\<lambda>_. staged d tmp v False)"
  by (rule tripleI)
    (auto simp: os_Write_def fs_syscall_def bnd_def fs_modify_def staged_def split: if_splits)

lemma Rename_triple:
  "is_tmp tmp \<Longrightarrow> \<not> is_tmp n \<Longrightarrow>
   triple (staged d tmp v True) (os_Rename E tmp n) (\<lambda>_. written d n v) (\<lambda>_. staged d tmp v True)"
  by (rule tripleI)
    (auto simp: os_Rename_def fs_syscall_def bnd_def fs_modify_def staged_def split: if_splits option.splits)

lemma write_steps_triple:
  assumes "is_tmp tmp" "\<not> is_tmp n"
  shows "triple (staged d tmp v False) (write_steps E tmp n v) (\<lambda>_. written d n v)
    (\<lambda>_ s. unwritten d s \<or> written d n v s)"
proof -
  let ?R = "\<lambda>_ s. (unwritten d s \<or> written d n v s)"
  have st: "triple (staged d tmp v b) (fs_syscall E) (\<lambda>_. staged d tmp v b) ?R" for b
    by (rule triple_weaken [OF staged_syscall]) (auto simp: staged_def)
  have wr: "triple (written d n v) (fs_syscall E) (\<lambda>_. written d n v) ?R"
    by (rule triple_weaken [OF written_syscall]) auto
  have w: "triple (staged d tmp v False) (os_Write E tmp v) (\<lambda>_. staged d tmp v True) ?R"
    by (rule triple_weaken [OF Write_triple [OF assms(1)]]) (auto simp: staged_def)
  have r: "triple (staged d tmp v True) (os_Rename E tmp n) (\<lambda>_. written d n v) ?R"
    by (rule triple_weaken [OF Rename_triple [OF assms]]) (auto simp: staged_def)
  show ?thesis unfolding write_steps_def by (intro triple_bnd) (rule st w r wr)+
qed

lemma CreateTemp_triple:
  "triple (\<lambda>s. fs_dir s = d \<and> distinct (map fst d)) (os_CreateTemp E n)
     (\<lambda>tmp s. is_tmp tmp \<and> staged d tmp v False s) (\<lambda>_. unwritten d)"
  by (rule tripleI)
    (auto simp: os_CreateTemp_def fs_syscall_def bnd_def fs_modify_def staged_def split: if_splits)

lemma Remove_tmp_triple:
  "is_tmp tmp \<Longrightarrow> triple (\<lambda>s. unwritten d s \<or> written d n v s) (os_Remove E tmp)
     (\<lambda>_ s. unwritten d s \<or> written d n v s) (\<lambda>_ s. unwritten d s \<or> written d n v s)"
  by (rule tripleI) (auto simp: os_Remove_def fs_syscall_def bnd_def fs_modify_def split: if_splits)

text \<open>The atomicity of a write, for every pattern of failing system calls.\<close>

lemma writeFileAtomic_triple:
  assumes "\<not> is_tmp n"
  shows "triple (\<lambda>s. fs_dir s = d \<and> distinct (map fst d)) (writeFileAtomic E n v)
    (\<lambda>_. written d n v) (\<lambda>_ s. unwritten d s \<or> written d n v s)"
  unfolding writeFileAtomic_def
proof (rule triple_bnd)
  show "triple (\<lambda>s. fs_dir s = d \<and> distinct (map fst d)) (os_CreateTemp E n)
     (\<lambda>tmp s. is_tmp tmp \<and> staged d tmp v False s) (\<lambda>_ s. unwritten d s \<or> written d n v s)"
    by (rule triple_weaken [OF CreateTemp_triple]) auto
  fix tmp
  let ?Q = "\<lambda>r s. is_tmp tmp \<and> (case r of Inr _ \<Rightarrow> written d n v s | Inl _ \<Rightarrow> unwritten d s \<or> written d n v s)"
  show "triple (\<lambda>s. is_tmp tmp \<and> staged d tmp v False s)
     (bnd (attempt (write_steps E tmp n v)) (\<lambda>r. case r of Inl e \<Rightarrow> bnd (attempt (os_Remove E tmp)) (\<lambda>_. raise e) | Inr _ \<Rightarrow> ret ()))
     (\<lambda>_. written d n v) (\<lambda>_ s. unwritten d s \<or> written d n v s)"
  proof (cases "is_tmp tmp")
    case True
    show ?thesis
    proof (rule triple_bnd [where Q = ?Q])
      show "triple (\<lambda>s. is_tmp tmp \<and> staged d tmp v False s) (attempt (write_steps E tmp n v)) ?Q
          (\<lambda>_ s. unwritten d s \<or> written d n v s)"
        by (rule triple_attempt, rule triple_weaken [OF write_steps_triple [OF True assms]]) (use True in auto)
      fix r
      show "triple (?Q r) (case r of Inl e \<Rightarrow> bnd (attempt (os_Remove E tmp)) (\<lambda>_. raise e) | Inr _ \<Rightarrow> ret ())
          (\<lambda>_. written d n v) (\<lambda>_ s. unwritten d s \<or> written d n v s)"
      proof (cases r)
        case (Inl e)
        have "triple (\<lambda>s. unwritten d s \<or> written d n v s) (attempt (os_Remove E tmp))
            (\<lambda>_ s. unwritten d s \<or> written d n v s) (\<lambda>_ s. unwritten d s \<or> written d n v s)"
          by (rule triple_attempt) (rule Remove_tmp_triple [OF True])
        then have "triple (\<lambda>s. unwritten d s \<or> written d n v s) (bnd (attempt (os_Remove E tmp)) (\<lambda>_. raise e))
            (\<lambda>_. written d n v) (\<lambda>_ s. unwritten d s \<or> written d n v s)"
          by (rule triple_bnd) (auto intro: triple_pure)
        then show ?thesis unfolding Inl by (simp, rule triple_weaken) auto
      qed (auto intro: triple_pure)
    qed
  qed (simp add: triple_def)
qed

lemma writeRecord_triple:
  assumes "\<not> is_tmp n"
  shows "triple (\<lambda>s. fs_dir s = d \<and> distinct (map fst d)) (writeRecord E n v)
    (\<lambda>_. written d n v) (\<lambda>e s. (\<exists>c. e = storeUnavailable c) \<and> (unwritten d s \<or> written d n v s))"
  unfolding writeRecord_def
proof (rule triple_bnd)
  show "triple (\<lambda>s. fs_dir s = d \<and> distinct (map fst d)) (attempt (writeFileAtomic E n v))
     (\<lambda>r s. case r of Inr _ \<Rightarrow> written d n v s | Inl _ \<Rightarrow> unwritten d s \<or> written d n v s) R" for R
    by (rule triple_attempt, rule triple_weaken [OF writeFileAtomic_triple [OF assms]]) auto
  fix r
  show "triple (\<lambda>s. case r of Inr _ \<Rightarrow> written d n v s | Inl _ \<Rightarrow> unwritten d s \<or> written d n v s)
     (case r of Inl e \<Rightarrow> raise (storeUnavailable (cause_of e)) | Inr _ \<Rightarrow> ret ())
     (\<lambda>_. written d n v) (\<lambda>e s. (\<exists>c. e = storeUnavailable c) \<and> (unwritten d s \<or> written d n v s))"
    by (cases r) (auto intro!: triple_pure)
qed


lemma Remove_triple:
  assumes "\<not> is_tmp n"
  shows "triple (\<lambda>s. fs_dir s = d \<and> distinct (map fst d)) (os_Remove E n)
    (\<lambda>_ s. view (fs_dir s) = (view d)(n := None) \<and> distinct (map fst (fs_dir s))) (\<lambda>_ s. fs_dir s = d)"
  by (rule tripleI) (use assms in \<open>auto simp: os_Remove_def fs_syscall_def bnd_def fs_modify_def split: if_splits\<close>)

text \<open>The deletion of a record is one step too: the file is gone on success, and on failure it is either gone or
  untouched.\<close>

lemma deleteRecord_triple:
  assumes "\<not> is_tmp n"
  shows "triple (\<lambda>s. fs_dir s = d \<and> distinct (map fst d)) (deleteRecordDurably E n)
    (\<lambda>_ s. view (fs_dir s) = (view d)(n := None) \<and> distinct (map fst (fs_dir s)))
    (\<lambda>e s. (\<exists>c. e = storeUnavailable c) \<and> (fs_dir s = d \<and> distinct (map fst d)
      \<or> view (fs_dir s) = (view d)(n := None) \<and> distinct (map fst (fs_dir s))))"
  by (rule tripleI) (use assms in \<open>auto simp: deleteRecordDurably_def os_Remove_def fs_syscall_def bnd_def
      fs_modify_def attempt_def split: if_splits\<close>)

lemma readRecord_triple:
  "triple (\<lambda>s. fs_dir s = d) (readRecord E n) (\<lambda>v s. fs_dir s = d \<and> (\<exists>t. map_of d n = Some (FFile (Some v) t)))
     (\<lambda>e s. fs_dir s = d \<and> (e = RawErr FsNotExist \<and> map_of d n = None \<or> e = RawErr FsIO
        \<or> e = storeUnavailable (Sent ErrStoreCorrupt) \<and> (\<exists>t. map_of d n = Some (FFile None t))))"
  by (rule tripleI)
    (auto simp: readRecord_def fs_syscall_def bnd_def split: if_splits option.splits fentry.splits)

lemma Stat_triple:
  "triple (\<lambda>s. fs_dir s = d) (os_Stat E n) (\<lambda>_ s. fs_dir s = d \<and> map_of d n \<noteq> None)
     (\<lambda>e s. fs_dir s = d \<and> (e = RawErr FsNotExist \<and> map_of d n = None \<or> e = RawErr FsIO))"
  by (rule tripleI) (auto simp: os_Stat_def fs_syscall_def bnd_def split: if_splits)

text \<open>Reads and scans leave the directory as it is.\<close>

lemma reads_keep [keeps_intros]:
  "keeps (\<lambda>s. P (fs_dir s)) (fs_syscall E)" "keeps (\<lambda>s. P (fs_dir s)) (readRecord E n)"
  "keeps (\<lambda>s. P (fs_dir s)) (os_Stat E n)" "keeps (\<lambda>s. P (fs_dir s)) (os_ReadDir E)"
  by (auto simp: keeps_def readRecord_def os_Stat_def os_ReadDir_def fs_syscall_def bnd_def
      split: option.splits fentry.splits)

text \<open>Without faults the primitives are total functions of the directory.\<close>

definition faultless :: "env \<Rightarrow> bool" where
  "faultless E \<longleftrightarrow> (\<forall>k. \<not> env_fault E k)"

lemma faultless_syscall [simp]: "faultless E \<Longrightarrow> fs_syscall E s = (Inr (), s\<lparr>fs_tick := Suc (fs_tick s)\<rparr>)"
  by (simp add: fs_syscall_def faultless_def)

lemma faultless_write:
  assumes "faultless E" "map_of (fs_dir s) n \<noteq> Some FDir" "\<not> is_tmp n"
    "map_of (fs_dir s) (tmp_name n (env_rand E (Suc (fs_tick s)))) = None"
  shows "fst (writeFileAtomic E n v s) = Inr ()"
proof -
  have "tmp_name n (env_rand E (Suc (fs_tick s))) \<noteq> n" using assms(3) is_tmp_tmp_name by metis
  with assms show ?thesis
    by (simp add: writeFileAtomic_def os_CreateTemp_def write_steps_def os_Write_def os_Rename_def fs_modify_def bnd_def)
qed

section \<open>Properties\<close>

text \<open>A record write is atomic under every pattern of input/output errors: when it reports success the
  named file holds the new record; when it reports an error the file holds either what it held before or the
  complete new record; every other visible file is untouched in both cases. Without faults, and unless the
  random temporary name is taken or the target is a directory, the write succeeds.\<close>

theorem write_atomic:
  assumes "distinct (map fst (fs_dir s))" "\<not> is_tmp n" "writeFileAtomic E n v s = (r, s')"
  shows "(if r = Inr () then view (fs_dir s') = (view (fs_dir s))(n \<mapsto> NFile (Some v))
      else view (fs_dir s') = view (fs_dir s) \<or> view (fs_dir s') = (view (fs_dir s))(n \<mapsto> NFile (Some v)))
    \<and> (faultless E \<and> view (fs_dir s) n \<noteq> Some NDir
        \<and> map_of (fs_dir s) (tmp_name n (env_rand E (Suc (fs_tick s)))) = None \<longrightarrow> r = Inr ())"
proof -
  note T = writeFileAtomic_triple [OF assms(2), of "fs_dir s" E v]
  have P: "fs_dir s = fs_dir s \<and> distinct (map fst (fs_dir s))" using assms(1) by simp
  have "if r = Inr () then view (fs_dir s') = (view (fs_dir s))(n \<mapsto> NFile (Some v))
      else view (fs_dir s') = view (fs_dir s) \<or> view (fs_dir s') = (view (fs_dir s))(n \<mapsto> NFile (Some v))"
    using tripleD [OF T P] assms(3) by (cases r) auto
  moreover have "r = Inr ()" if "faultless E" "view (fs_dir s) n \<noteq> Some NDir"
    "map_of (fs_dir s) (tmp_name n (env_rand E (Suc (fs_tick s)))) = None"
  proof -
    have "map_of (fs_dir s) n \<noteq> Some FDir" using that(2) assms(2) by (auto simp: view_def)
    from faultless_write [OF that(1) this assms(2) that(3), of v] assms(3) show ?thesis by simp
  qed
  ultimately show ?thesis by blast
qed

definition demo_env :: env where
  "demo_env = \<lparr>env_lib = demo_lib, env_aead = demo_aead, env_fault = (\<lambda>_. False), env_now = int, env_uuid = (\<lambda>k. if of_nat k = uuid_Nil then 1 else of_nat k),
     env_rand = show_nat, env_nonce = (\<lambda>k. Some (\<lambda>_. CHR ''n''))\<rparr>"

lemma demo_env_faultless [simp]: "faultless demo_env"
  by (simp add: faultless_def demo_env_def)

theorem write_atomic_witness:
  "\<exists>s'. writeFileAtomic demo_env ''a.json'' (7::int) \<lparr>fs_tick = 0, fs_dir = [(''a.json'', FFile (Some 3) 0)]\<rparr> = (Inr (), s')
     \<and> view (fs_dir s') ''a.json'' = Some (NFile (Some 7))"
proof -
  let ?s = "\<lparr>fs_tick = 0, fs_dir = [(''a.json'', FFile (Some (3::int)) 0)]\<rparr>"
  obtain r s' where w: "writeFileAtomic demo_env ''a.json'' 7 ?s = (r, s')" by fastforce
  have nt: "\<not> is_tmp ''a.json''" using not_tmp_json [of "''a''"] by simp
  have "tmp_name ''a.json'' (env_rand demo_env (Suc (fs_tick ?s))) \<noteq> ''a.json''" using nt is_tmp_tmp_name by metis
  moreover have "view (fs_dir ?s) ''a.json'' \<noteq> Some NDir" using nt by (simp add: view_def)
  ultimately show ?thesis using write_atomic [OF _ nt w] w by (auto split: if_splits)
qed

end
