(* ===== verification/Store.thy ===== *)
theory Store
  imports Files
begin

text \<open>
  \<open>internal/store/store.go\<close> and \<open>enroll.go\<close>: deployments, accounts and SSH keys of the flat-file store. The
  methods run under the store mutex, so each is one computation on the store state; within it every system
  call may fail. The key provider is the parameter the code has it as.
\<close>

section \<open>Records\<close>

record deploymentRecord =
  dr_ID :: string
  dr_CoderURL :: string
  dr_CoderBinary :: string
  dr_GlobalConfig :: string
  dr_WorkingDir :: string
  dr_Autostart :: bool
  dr_WaitMode :: string
  dr_CreatedAtMs :: int
  dr_UpdatedAtMs :: int

record accountRecord =
  ar_ID :: string
  ar_DeploymentID :: string
  ar_Label :: string
  ar_CoderUserID :: "string option"
  ar_CachedUsername :: string
  ar_BindOnFirstToken :: bool
  ar_Enabled :: bool
  ar_CreatedAtMs :: int
  ar_UpdatedAtMs :: int

record keyRecord =
  kr_ID :: string
  kr_AccountID :: string
  kr_KeyDigestSHA256 :: bytes
  kr_PublicKeyBlob :: bytes
  kr_Algorithm :: string
  kr_Fingerprint :: string
  kr_Label :: string
  kr_Enabled :: bool
  kr_CreatedAtMs :: int
  kr_LastUsedAtMs :: "int option"

text \<open>Absent and empty byte slices are both the empty list: the code only tests their length.\<close>

record CredentialRecord =
  cr_AccountID :: string
  cr_Generation :: int64
  cr_State :: string
  cr_KeyVersion :: "string option"
  cr_Nonce :: bytes
  cr_Ciphertext :: bytes
  cr_LastValidatedAtMs :: "int option"
  cr_InvalidatedAtMs :: "int option"
  cr_LastErrorClass :: "string option"
  cr_UpdatedAtMs :: int

text \<open>An \<open>ssh.PublicKey\<close>: what \<open>Marshal\<close>, \<open>Type\<close> and \<open>ssh.FingerprintSHA256\<close> return, and whether it is a
  certificate.\<close>

record pubkey =
  pk_Marshal :: bytes
  pk_Type :: string
  pk_Fingerprint :: string
  pk_isCert :: bool

text \<open>A \<open>secretbox.KeyProvider\<close>: the answers of its two methods, \<open>None\<close> for an error.\<close>

record keyprov =
  kp_ActiveKey :: "(string \<times> bytes) option"
  kp_Key :: "string \<Rightarrow> bytes option"

record store =
  st_closed :: bool
  st_kp :: "keyprov option"
  st_root :: "bytes fdir"
  st_deployments :: "deploymentRecord fdir"
  st_accounts :: "accountRecord fdir"
  st_keys :: "keyRecord fdir"
  st_credentials :: "CredentialRecord fdir"
  st_tick :: nat

type_synonym 'a stm = "(store, serror, 'a) sr"

section \<open>Access to the directories\<close>

text \<open>A file operation on one of the directories of the store.\<close>

definition on_dir :: "(store \<Rightarrow> 'r fdir) \<Rightarrow> (('r fdir \<Rightarrow> 'r fdir) \<Rightarrow> store \<Rightarrow> store) \<Rightarrow> ('r, 'a) fsm \<Rightarrow> 'a stm" where
  "on_dir get upd m = (\<lambda>s. case m \<lparr>fs_tick = st_tick s, fs_dir = get s\<rparr> of
     (r, f) \<Rightarrow> (r, upd (\<lambda>_. fs_dir f) (s\<lparr>st_tick := fs_tick f\<rparr>)))"

abbreviation on_root :: "(bytes, 'a) fsm \<Rightarrow> 'a stm" where
  "on_root \<equiv> on_dir st_root st_root_update"

abbreviation on_deployments :: "(deploymentRecord, 'a) fsm \<Rightarrow> 'a stm" where
  "on_deployments \<equiv> on_dir st_deployments st_deployments_update"

abbreviation on_accounts :: "(accountRecord, 'a) fsm \<Rightarrow> 'a stm" where
  "on_accounts \<equiv> on_dir st_accounts st_accounts_update"

abbreviation on_keys :: "(keyRecord, 'a) fsm \<Rightarrow> 'a stm" where
  "on_keys \<equiv> on_dir st_keys st_keys_update"

abbreviation on_credentials :: "(CredentialRecord, 'a) fsm \<Rightarrow> 'a stm" where
  "on_credentials \<equiv> on_dir st_credentials st_credentials_update"

definition nowMs :: "env \<Rightarrow> int stm" where
  "nowMs E = (\<lambda>s. (Inr (env_now E (st_tick s)), s\<lparr>st_tick := Suc (st_tick s)\<rparr>))"

definition uuid_New :: "env \<Rightarrow> uuid stm" where
  "uuid_New E = (\<lambda>s. (Inr (env_uuid E (st_tick s)), s\<lparr>st_tick := Suc (st_tick s)\<rparr>))"

text \<open>A system call that touches no modelled directory (locks, modes, directory creation).\<close>

definition syscall :: "env \<Rightarrow> unit stm" where
  "syscall E = (\<lambda>s. (if env_fault E (st_tick s) then Inl (RawErr FsIO) else Inr (), s\<lparr>st_tick := Suc (st_tick s)\<rparr>))"

definition modify_store :: "(store \<Rightarrow> store) \<Rightarrow> unit stm" where
  "modify_store f = (\<lambda>s. (Inr (), f s))"

text \<open>\<open>if err != nil \{ return storeUnavailable(msg, err) \}\<close>.\<close>

definition or_unavailable :: "'a stm \<Rightarrow> 'a stm" where
  "or_unavailable m = bnd (attempt m) (\<lambda>r. case r of Inl e \<Rightarrow> raise (storeUnavailable (cause_of e)) | Inr a \<Rightarrow> ret a)"

definition checkOpen :: "unit stm" where
  "checkOpen = bnd (gets st_closed) (\<lambda>c. guard (\<not> c) (storeUnavailable (Sent ErrStoreClosed)))"

definition json :: "string \<Rightarrow> string" where
  "json n = n @ ''.json''"

section \<open>Opening and closing\<close>

definition os_ReadFile_raw :: "env \<Rightarrow> string \<Rightarrow> (bytes, bytes) fsm" where
  "os_ReadFile_raw E name =
     bnd (fs_syscall E) (\<lambda>_. bnd (gets fs_dir) (\<lambda>d. case map_of d name of
       None \<Rightarrow> raise (RawErr FsNotExist)
     | Some FDir \<Rightarrow> raise (RawErr FsIO)
     | Some (FFile c _) \<Rightarrow> ret (case c of None \<Rightarrow> [] | Some b \<Rightarrow> b)))"

definition ensureVersion :: "env \<Rightarrow> unit stm" where
  "ensureVersion E =
     bnd (attempt (on_root (os_ReadFile_raw E ''VERSION''))) (\<lambda>r. case r of
       Inl e \<Rightarrow> if errIs e FsNotExist
                then or_unavailable (on_root (writeFileAtomic E ''VERSION'' (''1'' @ [CHR 0x0A])))
                else raise (storeUnavailable (cause_of e))
     | Inr b \<Rightarrow> guard (TrimSpace (env_lib E) b = ''1'') (storeUnavailable (Sent ErrVersionMismatch)))"

definition cleanStrayTemps :: "env \<Rightarrow> unit stm" where
  "cleanStrayTemps E =
     bnd (on_root (cleanDir E)) (\<lambda>_.
     bnd (on_deployments (cleanDir E)) (\<lambda>_.
     bnd (on_accounts (cleanDir E)) (\<lambda>_.
     bnd (on_keys (cleanDir E)) (\<lambda>_.
     on_credentials (cleanDir E)))))"

text \<open>\<open>MkdirAll\<close> and \<open>Chmod\<close> for each of the five subdirectories.\<close>

definition ensureDirs :: "env \<Rightarrow> unit stm" where
  "ensureDirs E = (let one = bnd (or_unavailable (syscall E)) (\<lambda>_. or_unavailable (syscall E)) in
     bnd one (\<lambda>_. bnd one (\<lambda>_. bnd one (\<lambda>_. bnd one (\<lambda>_. one)))))"

text \<open>The state before the call is the disk; \<open>present\<close> tells whether the directory exists.\<close>

definition store_Open :: "env \<Rightarrow> string \<Rightarrow> bool \<Rightarrow> unit stm" where
  "store_Open E dir present =
     bnd (guard (dir \<noteq> []) (storeUnavailable NoCause)) (\<lambda>_.
     bnd (attempt (syscall E)) (\<lambda>statErr.
     bnd (or_unavailable (syscall E)) (\<lambda>_.
     bnd (if statErr = Inr () \<and> \<not> present then or_unavailable (syscall E) else ret ()) (\<lambda>_.
     bnd (or_unavailable (syscall E)) (\<lambda>_.
     bnd (or_unavailable (syscall E)) (\<lambda>_.
     bnd (attempt (syscall E)) (\<lambda>flock.
     bnd (guard (flock = Inr ()) (storeUnavailable (Sent ErrStoreLocked))) (\<lambda>_.
     bnd (ensureVersion E) (\<lambda>_.
     bnd (ensureDirs E) (\<lambda>_.
     bnd (cleanStrayTemps E) (\<lambda>_.
     modify_store (\<lambda>s. s\<lparr>st_closed := False, st_kp := None\<rparr>))))))))))))"

definition store_Close :: "env \<Rightarrow> unit stm" where
  "store_Close E =
     bnd (gets st_closed) (\<lambda>c.
     if c then ret ()
     else bnd (modify_store (\<lambda>s. s\<lparr>st_closed := True\<rparr>)) (\<lambda>_.
          bnd (attempt (syscall E)) (\<lambda>unlockErr.
          bnd (attempt (syscall E)) (\<lambda>closeErr.
          guard (unlockErr = Inr () \<and> closeErr = Inr ()) (RawErr FsIO)))))"

section \<open>Deployments\<close>

definition EnsureDeployment :: "env \<Rightarrow> Deployment \<Rightarrow> unit stm" where
  "EnsureDeployment E d =
     bnd checkOpen (\<lambda>_.
     let name = json (uuid_String (env_lib E) (dep_ID d)) in
     bnd (attempt (on_deployments (readRecord E name))) (\<lambda>r.
     bnd (case r of
            Inr rec \<Rightarrow> ret rec
          | Inl e \<Rightarrow>
              if errIs e FsNotExist
              then bnd (nowMs E) (\<lambda>now. ret \<lparr>dr_ID = uuid_String (env_lib E) (dep_ID d), dr_CoderURL = [],
                     dr_CoderBinary = [], dr_GlobalConfig = [], dr_WorkingDir = [], dr_Autostart = False,
                     dr_WaitMode = [], dr_CreatedAtMs = now, dr_UpdatedAtMs = 0\<rparr>)
              else raise e) (\<lambda>rec.
     bnd (nowMs E) (\<lambda>now.
     on_deployments (writeRecord E name (rec\<lparr>dr_CoderURL := (case dep_CoderURL d of None \<Rightarrow> [] | Some u \<Rightarrow> u),
       dr_CoderBinary := dep_CoderBinary d, dr_GlobalConfig := dep_GlobalConfig d,
       dr_WorkingDir := dep_WorkingDir d, dr_Autostart := dep_Autostart d, dr_WaitMode := dep_WaitMode d,
       dr_UpdatedAtMs := now\<rparr>))))))"

section \<open>Accounts\<close>

definition accountToRecord :: "golib \<Rightarrow> Account \<Rightarrow> int \<Rightarrow> int \<Rightarrow> accountRecord" where
  "accountToRecord L a created updated =
     \<lparr>ar_ID = uuid_String L (acct_ID a), ar_DeploymentID = uuid_String L (acct_DeploymentID a),
      ar_Label = acct_Label a, ar_CoderUserID = map_option (uuid_String L) (acct_CoderUserID a),
      ar_CachedUsername = acct_CachedUsername a, ar_BindOnFirstToken = acct_BindOnFirstToken a,
      ar_Enabled = acct_Enabled a, ar_CreatedAtMs = created, ar_UpdatedAtMs = updated\<rparr>"

definition account_toCore :: "golib \<Rightarrow> accountRecord \<Rightarrow> serror + Account" where
  "account_toCore L r =
     (case uuid_Parse L (ar_ID r) of
        None \<Rightarrow> Inl (storeUnavailable (Sent ErrStoreCorrupt))
      | Some i \<Rightarrow> (case uuid_Parse L (ar_DeploymentID r) of
          None \<Rightarrow> Inl (storeUnavailable (Sent ErrStoreCorrupt))
        | Some dep \<Rightarrow>
            let a = \<lparr>acct_ID = i, acct_DeploymentID = dep, acct_Label = ar_Label r, acct_CoderUserID = None,
                  acct_CachedUsername = ar_CachedUsername r, acct_BindOnFirstToken = ar_BindOnFirstToken r,
                  acct_Enabled = ar_Enabled r\<rparr>
            in (case ar_CoderUserID r of
                  None \<Rightarrow> Inr a
                | Some u \<Rightarrow> (case uuid_Parse L u of
                      None \<Rightarrow> Inl (storeUnavailable (Sent ErrStoreCorrupt))
                    | Some uid \<Rightarrow> Inr (a\<lparr>acct_CoderUserID := Some uid\<rparr>)))))"

fun checkDuplicateLoop :: "env \<Rightarrow> uuid \<Rightarrow> uuid \<Rightarrow> uuid \<Rightarrow> string list \<Rightarrow> unit stm" where
  "checkDuplicateLoop E dep user excl [] = ret ()"
| "checkDuplicateLoop E dep user excl (n # ns) =
     bnd (on_accounts (readRecord E n)) (\<lambda>rec.
     if ar_CoderUserID rec = None \<or> ar_DeploymentID rec \<noteq> uuid_String (env_lib E) dep
     then checkDuplicateLoop E dep user excl ns
     else (case uuid_Parse (env_lib E) (the (ar_CoderUserID rec)) of
         None \<Rightarrow> raise (storeUnavailable (Sent ErrStoreCorrupt))
       | Some uid \<Rightarrow>
           if uid = user \<and> ar_ID rec \<noteq> uuid_String (env_lib E) excl
           then raise (StoreError STORE_UNAVAILABLE (Sent ErrDuplicateCoderUser))
           else checkDuplicateLoop E dep user excl ns))"

definition checkDuplicateCoderUser :: "env \<Rightarrow> uuid \<Rightarrow> uuid \<Rightarrow> uuid \<Rightarrow> unit stm" where
  "checkDuplicateCoderUser E dep user excl =
     bnd (or_unavailable (on_accounts (os_ReadDir E))) (\<lambda>es. checkDuplicateLoop E dep user excl (jsonNames es))"

definition AddAccount :: "env \<Rightarrow> Account \<Rightarrow> unit stm" where
  "AddAccount E a =
     bnd checkOpen (\<lambda>_.
     let name = json (uuid_String (env_lib E) (acct_ID a)) in
     bnd (attempt (on_accounts (os_Stat E name))) (\<lambda>r.
     bnd (case r of
            Inr _ \<Rightarrow> raise (StoreError STORE_UNAVAILABLE (Sent ErrAccountExists))
          | Inl e \<Rightarrow> guard (errIs e FsNotExist) (storeUnavailable (cause_of e))) (\<lambda>_.
     bnd (case acct_CoderUserID a of
            None \<Rightarrow> ret ()
          | Some u \<Rightarrow> checkDuplicateCoderUser E (acct_DeploymentID a) u uuid_Nil) (\<lambda>_.
     bnd (nowMs E) (\<lambda>now.
     on_accounts (writeRecord E name (accountToRecord (env_lib E) a now now)))))))"

text \<open>\<open>mustReadAccountLocked\<close> and \<open>getAccountLocked\<close> turn a missing file into \<open>ErrAccountNotFound\<close>.\<close>

definition mustReadAccount :: "env \<Rightarrow> uuid \<Rightarrow> accountRecord stm" where
  "mustReadAccount E i =
     bnd (attempt (on_accounts (readRecord E (json (uuid_String (env_lib E) i))))) (\<lambda>r. case r of
       Inr rec \<Rightarrow> ret rec
     | Inl e \<Rightarrow> raise (if errIs e FsNotExist then StoreError STORE_UNAVAILABLE (Sent ErrAccountNotFound) else e))"

definition getAccountLocked :: "env \<Rightarrow> uuid \<Rightarrow> Account stm" where
  "getAccountLocked E i = bnd (mustReadAccount E i) (\<lambda>rec. lift_sum (account_toCore (env_lib E) rec))"

definition GetAccount :: "env \<Rightarrow> uuid \<Rightarrow> Account stm" where
  "GetAccount E i = bnd checkOpen (\<lambda>_. getAccountLocked E i)"

fun listAccountsLoop :: "env \<Rightarrow> string list \<Rightarrow> Account list stm" where
  "listAccountsLoop E [] = ret []"
| "listAccountsLoop E (n # ns) =
     bnd (on_accounts (readRecord E n)) (\<lambda>rec.
     bnd (lift_sum (account_toCore (env_lib E) rec)) (\<lambda>a.
     bnd (listAccountsLoop E ns) (\<lambda>as. ret (a # as))))"

definition ListAccounts :: "env \<Rightarrow> Account list stm" where
  "ListAccounts E =
     bnd checkOpen (\<lambda>_.
     bnd (or_unavailable (on_accounts (os_ReadDir E))) (\<lambda>es.
     bnd (listAccountsLoop E (jsonNames es)) (\<lambda>out.
     ret (sort_key (\<lambda>a. uuid_String (env_lib E) (acct_ID a)) out))))"

definition SetAccountEnabled :: "env \<Rightarrow> uuid \<Rightarrow> bool \<Rightarrow> unit stm" where
  "SetAccountEnabled E i enabled =
     bnd checkOpen (\<lambda>_.
     bnd (mustReadAccount E i) (\<lambda>rec.
     bnd (nowMs E) (\<lambda>now.
     on_accounts (writeRecord E (json (uuid_String (env_lib E) i))
       (rec\<lparr>ar_Enabled := enabled, ar_UpdatedAtMs := now\<rparr>)))))"

definition updateAccountIdentityLocked :: "env \<Rightarrow> uuid \<Rightarrow> uuid \<Rightarrow> string \<Rightarrow> unit stm" where
  "updateAccountIdentityLocked E i user username =
     bnd (mustReadAccount E i) (\<lambda>rec.
     case uuid_Parse (env_lib E) (ar_DeploymentID rec) of
       None \<Rightarrow> raise (storeUnavailable (Sent ErrStoreCorrupt))
     | Some dep \<Rightarrow>
         bnd (checkDuplicateCoderUser E dep user i) (\<lambda>_.
         bnd (nowMs E) (\<lambda>now.
         on_accounts (writeRecord E (json (uuid_String (env_lib E) i))
           (rec\<lparr>ar_CoderUserID := Some (uuid_String (env_lib E) user), ar_CachedUsername := username,
               ar_UpdatedAtMs := now\<rparr>)))))"

definition UpdateAccountIdentity :: "env \<Rightarrow> uuid \<Rightarrow> uuid \<Rightarrow> string \<Rightarrow> unit stm" where
  "UpdateAccountIdentity E i user username =
     bnd checkOpen (\<lambda>_. updateAccountIdentityLocked E i user username)"

fun lookupByCoderIDLoop :: "env \<Rightarrow> string \<Rightarrow> string \<Rightarrow> string \<Rightarrow> string list \<Rightarrow> Account option stm" where
  "lookupByCoderIDLoop E depStr uidStr username [] = ret None"
| "lookupByCoderIDLoop E depStr uidStr username (n # ns) =
     bnd (on_accounts (readRecord E n)) (\<lambda>rec.
     if ar_DeploymentID rec \<noteq> depStr \<or> ar_CoderUserID rec \<noteq> Some uidStr
     then lookupByCoderIDLoop E depStr uidStr username ns
     else bnd (if ar_CachedUsername rec \<noteq> username
               then bnd (nowMs E) (\<lambda>now.
                    let rec' = rec\<lparr>ar_CachedUsername := username, ar_UpdatedAtMs := now\<rparr> in
                    bnd (on_accounts (writeRecord E n rec')) (\<lambda>_. ret rec'))
               else ret rec) (\<lambda>rec'.
          bnd (lift_sum (account_toCore (env_lib E) rec')) (\<lambda>a. ret (Some a))))"

definition LookupOrCreateAccountByCoderID :: "env \<Rightarrow> bool \<Rightarrow> uuid \<Rightarrow> uuid \<Rightarrow> string \<Rightarrow> (Account \<times> bool) stm" where
  "LookupOrCreateAccountByCoderID E ctxErr dep user username =
     bnd (guard (\<not> ctxErr) (RawErr CtxDone)) (\<lambda>_.
     bnd checkOpen (\<lambda>_.
     bnd (or_unavailable (on_accounts (os_ReadDir E))) (\<lambda>es.
     bnd (lookupByCoderIDLoop E (uuid_String (env_lib E) dep) (uuid_String (env_lib E) user) username (jsonNames es)) (\<lambda>found.
     case found of
       Some a \<Rightarrow> ret (a, False)
     | None \<Rightarrow>
         bnd (uuid_New E) (\<lambda>i.
         bnd (nowMs E) (\<lambda>now.
         let a = \<lparr>acct_ID = i, acct_DeploymentID = dep, acct_Label = username, acct_CoderUserID = Some user,
               acct_CachedUsername = username, acct_BindOnFirstToken = False, acct_Enabled = True\<rparr> in
         bnd (on_accounts (writeRecord E (json (uuid_String (env_lib E) i)) (accountToRecord (env_lib E) a now now)))
           (\<lambda>_. ret (a, True))))))))"

section \<open>Keys\<close>

text \<open>Unparsable identifiers become the zero UUID.\<close>

definition key_toCore :: "golib \<Rightarrow> keyRecord \<Rightarrow> SSHKeyRecord" where
  "key_toCore L r =
     \<lparr>key_ID = (case uuid_Parse L (kr_ID r) of None \<Rightarrow> uuid_Nil | Some i \<Rightarrow> i),
      key_AccountID = (case uuid_Parse L (kr_AccountID r) of None \<Rightarrow> uuid_Nil | Some i \<Rightarrow> i),
      key_Fingerprint = kr_Fingerprint r, key_Algorithm = kr_Algorithm r, key_Label = kr_Label r,
      key_Enabled = kr_Enabled r, key_CreatedAtMs = kr_CreatedAtMs r, key_LastUsedAtMs = kr_LastUsedAtMs r\<rparr>"

definition keyFileName :: "golib \<Rightarrow> bytes \<Rightarrow> string" where
  "keyFileName L blob = json (hex_EncodeToString (sha256_Sum L blob))"

definition AddKey :: "env \<Rightarrow> uuid \<Rightarrow> pubkey \<Rightarrow> string \<Rightarrow> SSHKeyRecord stm" where
  "AddKey E accountID key label =
     bnd (guard (\<not> pk_isCert key) (unknownKeyErr (Sent ErrCertificatesRejected))) (\<lambda>_.
     bnd checkOpen (\<lambda>_.
     bnd (getAccountLocked E accountID) (\<lambda>_.
     let blob = pk_Marshal key; name = keyFileName (env_lib E) blob in
     bnd (attempt (on_keys (os_Stat E name))) (\<lambda>r.
     bnd (case r of
            Inr _ \<Rightarrow> raise (StoreError STORE_UNAVAILABLE (Sent ErrDuplicateKey))
          | Inl e \<Rightarrow> guard (errIs e FsNotExist) (storeUnavailable (cause_of e))) (\<lambda>_.
     bnd (uuid_New E) (\<lambda>i.
     bnd (nowMs E) (\<lambda>now.
     let rec = \<lparr>kr_ID = uuid_String (env_lib E) i, kr_AccountID = uuid_String (env_lib E) accountID,
           kr_KeyDigestSHA256 = sha256_Sum (env_lib E) blob, kr_PublicKeyBlob = blob, kr_Algorithm = pk_Type key,
           kr_Fingerprint = pk_Fingerprint key, kr_Label = label, kr_Enabled = True, kr_CreatedAtMs = now,
           kr_LastUsedAtMs = None\<rparr> in
     bnd (on_keys (writeRecord E name rec)) (\<lambda>_. ret (key_toCore (env_lib E) rec)))))))))"

fun listKeysLoop :: "env \<Rightarrow> uuid \<Rightarrow> string list \<Rightarrow> SSHKeyRecord list stm" where
  "listKeysLoop E accountID [] = ret []"
| "listKeysLoop E accountID (n # ns) =
     bnd (on_keys (readRecord E n)) (\<lambda>rec.
     bnd (listKeysLoop E accountID ns) (\<lambda>ks.
     ret (if kr_AccountID rec \<noteq> uuid_String (env_lib E) accountID then ks else key_toCore (env_lib E) rec # ks)))"

definition ListKeysForAccount :: "env \<Rightarrow> uuid \<Rightarrow> SSHKeyRecord list stm" where
  "ListKeysForAccount E accountID =
     bnd checkOpen (\<lambda>_.
     bnd (or_unavailable (on_keys (os_ReadDir E))) (\<lambda>es.
     bnd (listKeysLoop E accountID (jsonNames es)) (\<lambda>out.
     ret (sort_key (\<lambda>k. uuid_String (env_lib E) (key_ID k)) out))))"

fun findKeyLoop :: "env \<Rightarrow> uuid \<Rightarrow> string list \<Rightarrow> (string \<times> keyRecord) stm" where
  "findKeyLoop E keyID [] = raise (StoreError STORE_UNAVAILABLE (Sent ErrKeyNotFound))"
| "findKeyLoop E keyID (n # ns) =
     bnd (on_keys (readRecord E n)) (\<lambda>rec.
     if kr_ID rec = uuid_String (env_lib E) keyID then ret (n, rec) else findKeyLoop E keyID ns)"

definition findKeyByID :: "env \<Rightarrow> uuid \<Rightarrow> (string \<times> keyRecord) stm" where
  "findKeyByID E keyID =
     bnd (or_unavailable (on_keys (os_ReadDir E))) (\<lambda>es. findKeyLoop E keyID (jsonNames es))"

definition SetKeyEnabled :: "env \<Rightarrow> uuid \<Rightarrow> bool \<Rightarrow> unit stm" where
  "SetKeyEnabled E keyID enabled =
     bnd checkOpen (\<lambda>_.
     bnd (findKeyByID E keyID) (\<lambda>(name, rec).
     on_keys (writeRecord E name (rec\<lparr>kr_Enabled := enabled\<rparr>))))"

definition DeleteKey :: "env \<Rightarrow> uuid \<Rightarrow> uuid \<Rightarrow> unit stm" where
  "DeleteKey E accountID keyID =
     bnd checkOpen (\<lambda>_.
     bnd (findKeyByID E keyID) (\<lambda>(name, rec).
     bnd (guard (kr_AccountID rec = uuid_String (env_lib E) accountID) (StoreError STORE_UNAVAILABLE (Sent ErrKeyNotFound))) (\<lambda>_.
     bnd (guard (keyFileName (env_lib E) (kr_PublicKeyBlob rec) = name) (storeUnavailable (Sent ErrStoreCorrupt))) (\<lambda>_.
     on_keys (deleteRecordDurably E name)))))"

fun deleteKeysLoop :: "env \<Rightarrow> uuid \<Rightarrow> string list \<Rightarrow> unit stm" where
  "deleteKeysLoop E accountID [] = ret ()"
| "deleteKeysLoop E accountID (n # ns) =
     bnd (on_keys (readRecord E n)) (\<lambda>rec.
     if kr_AccountID rec \<noteq> uuid_String (env_lib E) accountID then deleteKeysLoop E accountID ns
     else bnd (on_keys (deleteRecordDurably E n)) (\<lambda>_. deleteKeysLoop E accountID ns))"

definition DeleteAccount :: "env \<Rightarrow> uuid \<Rightarrow> unit stm" where
  "DeleteAccount E accountID =
     bnd checkOpen (\<lambda>_.
     bnd (getAccountLocked E accountID) (\<lambda>_.
     bnd (or_unavailable (on_keys (os_ReadDir E))) (\<lambda>es.
     bnd (deleteKeysLoop E accountID (jsonNames es)) (\<lambda>_.
     let name = json (uuid_String (env_lib E) accountID) in
     bnd (attempt (on_credentials (os_Stat E name))) (\<lambda>r.
     bnd (case r of
            Inr _ \<Rightarrow> on_credentials (deleteRecordDurably E name)
          | Inl e \<Rightarrow> guard (errIs e FsNotExist) (storeUnavailable (cause_of e))) (\<lambda>_.
     on_accounts (deleteRecordDurably E name)))))))"

definition TouchKeyLastUsed :: "env \<Rightarrow> uuid \<Rightarrow> unit stm" where
  "TouchKeyLastUsed E keyID =
     bnd checkOpen (\<lambda>_.
     bnd (findKeyByID E keyID) (\<lambda>(name, rec).
     bnd (nowMs E) (\<lambda>now.
     on_keys (writeRecord E name (rec\<lparr>kr_LastUsedAtMs := Some now\<rparr>)))))"

definition LookupByPublicKey :: "env \<Rightarrow> bool \<Rightarrow> uuid \<Rightarrow> pubkey \<Rightarrow> (Account \<times> SSHKeyRecord) stm" where
  "LookupByPublicKey E ctxErr dep key =
     bnd (guard (\<not> ctxErr) (RawErr CtxDone)) (\<lambda>_.
     bnd (guard (\<not> pk_isCert key) (unknownKeyErr (Sent ErrCertificatesRejected))) (\<lambda>_.
     bnd checkOpen (\<lambda>_.
     bnd (attempt (on_keys (readRecord E (keyFileName (env_lib E) (pk_Marshal key))))) (\<lambda>r.
     bnd (case r of
            Inr rec \<Rightarrow> ret rec
          | Inl e \<Rightarrow> raise (if errIs e FsNotExist then unknownKeyErr (Sent ErrUnknownKey) else e)) (\<lambda>rec.
     bnd (guard (kr_Enabled rec) (unknownKeyErr (Sent ErrUnknownKey))) (\<lambda>_.
     case uuid_Parse (env_lib E) (kr_AccountID rec) of
       None \<Rightarrow> raise (storeUnavailable (Sent ErrStoreCorrupt))
     | Some acctID \<Rightarrow>
         bnd (attempt (getAccountLocked E acctID)) (\<lambda>r.
         bnd (case r of
                Inr a \<Rightarrow> ret a
              | Inl e \<Rightarrow> raise (if errIs e (Sent ErrAccountNotFound) then storeUnavailable (Sent ErrStoreCorrupt) else e)) (\<lambda>acct.
         bnd (guard (acct_DeploymentID acct = dep) (unknownKeyErr (Sent ErrUnknownKey))) (\<lambda>_.
         bnd (guard (acct_Enabled acct) (StoreError AUTH_ACCOUNT_DISABLED (Sent ErrAccountDisabled))) (\<lambda>_.
         ret (acct, key_toCore (env_lib E) rec)))))))))))"

definition KeyDigestExists :: "env \<Rightarrow> string \<Rightarrow> uuid option stm" where
  "KeyDigestExists E digestHex =
     bnd (guard (length digestHex = 64) (storeUnavailable NoCause)) (\<lambda>_.
     bnd (guard (hex_decodable digestHex) (storeUnavailable NoCause)) (\<lambda>_.
     bnd checkOpen (\<lambda>_.
     bnd (attempt (on_keys (readRecord E (json digestHex)))) (\<lambda>r.
     case r of
       Inl e \<Rightarrow> if errIs e FsNotExist then ret None else raise e
     | Inr rec \<Rightarrow> (case uuid_Parse (env_lib E) (kr_AccountID rec) of
           None \<Rightarrow> raise (storeUnavailable (Sent ErrStoreCorrupt))
         | Some i \<Rightarrow> ret (Some i))))))"

end
