(* ===== verification/Credentials.thy ===== *)
theory Credentials
  imports Store
begin

text \<open>
  \<open>internal/store/credential.go\<close>: the encrypted credential of an account, with its generation
  compare-and-set. Loading opens the ciphertext under the associated data of the record's deployment, account
  and generation; replacing checks the binding of the account, compares the generation and seals the token
  under the next one.
\<close>

section \<open>Model\<close>

definition generationConflictErr :: serror where
  "generationConflictErr = StoreError STORE_GENERATION_CONFLICT (Sent ErrGenerationConflict)"

definition wrongIdentityErr :: serror where
  "wrongIdentityErr = StoreError AUTH_WRONG_CODER_IDENTITY (Sent ErrWrongIdentity)"

definition cryptoKeyUnavailable :: "cause \<Rightarrow> serror" where
  "cryptoKeyUnavailable c = StoreError CRYPTO_KEY_UNAVAILABLE c"

definition decryptFailedErr :: serror where
  "decryptFailedErr = StoreError CRYPTO_DECRYPT_FAILED (Sent ErrCryptoDecryptFailed)"

definition SetKeyProvider :: "keyprov option \<Rightarrow> unit stm" where
  "SetKeyProvider kp = modify_store (\<lambda>s. s\<lparr>st_kp := kp\<rparr>)"

definition missing_record :: "golib \<Rightarrow> uuid \<Rightarrow> CredentialRecord" where
  "missing_record L i = \<lparr>cr_AccountID = uuid_String L i, cr_Generation = 0,
     cr_State = CredentialState_String CredentialStateMissing, cr_KeyVersion = None, cr_Nonce = [], cr_Ciphertext = [],
     cr_LastValidatedAtMs = None, cr_InvalidatedAtMs = None, cr_LastErrorClass = None, cr_UpdatedAtMs = 0\<rparr>"

definition loadCredentialRecordLocked :: "env \<Rightarrow> uuid \<Rightarrow> (CredentialRecord \<times> bool) stm" where
  "loadCredentialRecordLocked E i =
     bnd (attempt (on_credentials (readRecord E (json (uuid_String (env_lib E) i))))) (\<lambda>r. case r of
       Inr rec \<Rightarrow> ret (rec, True)
     | Inl e \<Rightarrow> if errIs e FsNotExist then ret (missing_record (env_lib E) i, False) else raise e)"

definition LoadCredentialRecord :: "env \<Rightarrow> uuid \<Rightarrow> CredentialRecord stm" where
  "LoadCredentialRecord E i = bnd checkOpen (\<lambda>_. bnd (loadCredentialRecordLocked E i) (\<lambda>(rec, _). ret rec))"

definition validateCredentialRecord :: "golib \<Rightarrow> CredentialRecord \<Rightarrow> serror + unit" where
  "validateCredentialRecord L rec =
     (if snd (ParseCredentialState L (cr_State rec)) then Inl (storeUnavailable (Sent ErrStoreCorrupt))
      else let missing = (cr_State rec = CredentialState_String CredentialStateMissing);
               hasCiphertext = (0 < length (cr_Ciphertext rec)) in
        if missing = hasCiphertext then Inl (storeUnavailable (Sent ErrStoreCorrupt))
        else if hasCiphertext \<and> (cr_KeyVersion rec = None \<or> length (cr_Nonce rec) = 0)
          then Inl (storeUnavailable (Sent ErrStoreCorrupt))
        else Inr ())"

definition keyProviderLocked :: "keyprov stm" where
  "keyProviderLocked = bnd (gets st_kp) (\<lambda>kp. case kp of
     None \<Rightarrow> raise (cryptoKeyUnavailable (Sent ErrNoKeyProvider)) | Some k \<Rightarrow> ret k)"

definition snapshotFromRecord :: "golib \<Rightarrow> CredentialRecord \<Rightarrow> bytes \<Rightarrow> CredentialSnapshot stm" where
  "snapshotFromRecord L rec token =
     (case uuid_Parse L (cr_AccountID rec) of
        None \<Rightarrow> raise (RawErr Panicked)
      | Some i \<Rightarrow> ret \<lparr>snap_AccountID = i, snap_Generation = cr_Generation rec,
          snap_State = fst (ParseCredentialState L (cr_State rec)), snap_Token = token,
          snap_LastValidatedAt = cr_LastValidatedAtMs rec\<rparr>)"

definition LoadCredential :: "env \<Rightarrow> bool \<Rightarrow> uuid \<Rightarrow> CredentialSnapshot stm" where
  "LoadCredential E ctxErr i =
     bnd (guard (\<not> ctxErr) (RawErr CtxDone)) (\<lambda>_.
     bnd checkOpen (\<lambda>_.
     bnd (loadCredentialRecordLocked E i) (\<lambda>(rec, exists).
     if \<not> exists then snapshotFromRecord (env_lib E) rec []
     else
     bnd (lift_sum (validateCredentialRecord (env_lib E) rec)) (\<lambda>_.
     bnd (guard (cr_AccountID rec = uuid_String (env_lib E) i) (storeUnavailable (Sent ErrStoreCorrupt))) (\<lambda>_.
     if cr_State rec = CredentialState_String CredentialStateMissing then snapshotFromRecord (env_lib E) rec []
     else
     bnd (getAccountLocked E i) (\<lambda>acct.
     bnd keyProviderLocked (\<lambda>kp.
     let ver = the (cr_KeyVersion rec) in
     case kp_Key kp ver of
       None \<Rightarrow> raise (cryptoKeyUnavailable ProviderErr)
     | Some key \<Rightarrow>
         (case Open (env_aead E) ver key (cr_Nonce rec) (cr_Ciphertext rec)
                 (CredentialAAD (env_lib E) (acct_DeploymentID acct) i (cr_Generation rec)) of
            Inl _ \<Rightarrow> raise decryptFailedErr
          | Inr token \<Rightarrow> snapshotFromRecord (env_lib E) rec token))))))))"

text \<open>The deferred wipe of the request token is the second result: the caller's buffer after the call.\<close>

definition seal_nonce :: "env \<Rightarrow> ((nat \<Rightarrow> char) option) stm" where
  "seal_nonce E = (\<lambda>s. (Inr (env_nonce E (st_tick s)), s\<lparr>st_tick := Suc (st_tick s)\<rparr>))"

definition replaced_record :: "golib \<Rightarrow> uuid \<Rightarrow> int64 \<Rightarrow> string \<Rightarrow> bytes \<Rightarrow> bytes \<Rightarrow> int \<Rightarrow> CredentialRecord" where
  "replaced_record L i gen keyID nonce ciphertext now =
     \<lparr>cr_AccountID = uuid_String L i, cr_Generation = gen, cr_State = CredentialState_String CredentialStateValid,
      cr_KeyVersion = Some keyID, cr_Nonce = nonce, cr_Ciphertext = ciphertext, cr_LastValidatedAtMs = Some now,
      cr_InvalidatedAtMs = None, cr_LastErrorClass = None, cr_UpdatedAtMs = now\<rparr>"

text \<open>The part of \<open>ReplaceCredential\<close> after the active key is known: seal the token for the new generation, refresh
  the account identity, write the record.\<close>

definition seal_and_install :: "env \<Rightarrow> ReplaceCredentialRequest \<Rightarrow> Account \<Rightarrow> int64 \<Rightarrow> string \<Rightarrow> bytes \<Rightarrow> CredentialSnapshot stm" where
  "seal_and_install E req acct newGeneration keyID key =
     bnd (seal_nonce E) (\<lambda>rnd.
     case Seal (env_aead E) rnd keyID key (req_Token req)
            (CredentialAAD (env_lib E) (acct_DeploymentID acct) (req_AccountID req) newGeneration) of
       Inl _ \<Rightarrow> raise (cryptoKeyUnavailable SealErr)
     | Inr (nonce, ciphertext) \<Rightarrow>
         bnd (updateAccountIdentityLocked E (req_AccountID req) (ident_ID (req_Identity req)) (ident_Username (req_Identity req))) (\<lambda>_.
         bnd (nowMs E) (\<lambda>now.
         let newRec = replaced_record (env_lib E) (req_AccountID req) newGeneration keyID nonce ciphertext now in
         bnd (on_credentials (writeRecord E (json (uuid_String (env_lib E) (req_AccountID req))) newRec)) (\<lambda>_.
         snapshotFromRecord (env_lib E) newRec []))))"

definition ReplaceCredential :: "env \<Rightarrow> bool \<Rightarrow> ReplaceCredentialRequest \<Rightarrow> CredentialSnapshot stm" where
  "ReplaceCredential E ctxErr req =
     bnd (guard (\<not> ctxErr) (RawErr CtxDone)) (\<lambda>_.
     bnd checkOpen (\<lambda>_.
     bnd keyProviderLocked (\<lambda>kp.
     bnd (getAccountLocked E (req_AccountID req)) (\<lambda>acct.
     bnd (guard (acct_Enabled acct) (StoreError AUTH_ACCOUNT_DISABLED (Sent ErrAccountDisabled))) (\<lambda>_.
     bnd (guard (ident_ID (req_Identity req) \<noteq> uuid_Nil) wrongIdentityErr) (\<lambda>_.
     bnd (guard (case acct_CoderUserID acct of None \<Rightarrow> acct_BindOnFirstToken acct
                 | Some u \<Rightarrow> u = ident_ID (req_Identity req)) wrongIdentityErr) (\<lambda>_.
     bnd (loadCredentialRecordLocked E (req_AccountID req)) (\<lambda>(rec, exists).
     bnd (if exists then lift_sum (validateCredentialRecord (env_lib E) rec) else ret ()) (\<lambda>_.
     bnd (guard (cr_Generation rec = req_ExpectedGeneration req) generationConflictErr) (\<lambda>_.
     case kp_ActiveKey kp of
       None \<Rightarrow> raise (cryptoKeyUnavailable ProviderErr)
     | Some (keyID, key) \<Rightarrow> seal_and_install E req acct (cr_Generation rec + 1) keyID key))))))))))"

definition ReplaceCredential_wiped :: "ReplaceCredentialRequest \<Rightarrow> ReplaceCredentialRequest" where
  "ReplaceCredential_wiped req = req\<lparr>req_Token := BestEffortWipe (req_Token req)\<rparr>"

definition MarkCredentialInvalid :: "env \<Rightarrow> bool \<Rightarrow> uuid \<Rightarrow> int64 \<Rightarrow> string \<Rightarrow> unit stm" where
  "MarkCredentialInvalid E ctxErr i expected reason =
     bnd (guard (\<not> ctxErr) (RawErr CtxDone)) (\<lambda>_.
     bnd checkOpen (\<lambda>_.
     bnd (loadCredentialRecordLocked E i) (\<lambda>(rec, exists).
     if \<not> exists then ret ()
     else
     bnd (lift_sum (validateCredentialRecord (env_lib E) rec)) (\<lambda>_.
     if cr_Generation rec \<noteq> expected then ret ()
     else
     bnd (nowMs E) (\<lambda>now.
     on_credentials (writeRecord E (json (uuid_String (env_lib E) i))
       (rec\<lparr>cr_State := CredentialState_String CredentialStateInvalid, cr_InvalidatedAtMs := Some now,
           cr_LastErrorClass := Some reason, cr_UpdatedAtMs := now\<rparr>)))))))"

definition ClearCredential :: "env \<Rightarrow> bool \<Rightarrow> uuid \<Rightarrow> int64 \<Rightarrow> unit stm" where
  "ClearCredential E ctxErr i expected =
     bnd (guard (\<not> ctxErr) (RawErr CtxDone)) (\<lambda>_.
     bnd checkOpen (\<lambda>_.
     bnd (getAccountLocked E i) (\<lambda>_.
     bnd (loadCredentialRecordLocked E i) (\<lambda>(rec, exists).
     bnd (if exists then lift_sum (validateCredentialRecord (env_lib E) rec) else ret ()) (\<lambda>_.
     bnd (guard (cr_Generation rec = expected) generationConflictErr) (\<lambda>_.
     bnd (nowMs E) (\<lambda>now.
     on_credentials (writeRecord E (json (uuid_String (env_lib E) i))
       ((missing_record (env_lib E) i)\<lparr>cr_Generation := cr_Generation rec + 1, cr_UpdatedAtMs := now\<rparr>)))))))))"

text \<open>The part of \<open>reencryptOneLocked\<close> after the account is known.\<close>

definition reseal_record :: "env \<Rightarrow> keyprov \<Rightarrow> string \<Rightarrow> string \<Rightarrow> bytes \<Rightarrow> CredentialRecord \<Rightarrow> uuid \<Rightarrow> Account \<Rightarrow> unit stm" where
  "reseal_record E kp name activeID activeKey rec i acct =
     (case kp_Key kp (the (cr_KeyVersion rec)) of
        None \<Rightarrow> raise (cryptoKeyUnavailable ProviderErr)
      | Some oldKey \<Rightarrow>
          let aad = CredentialAAD (env_lib E) (acct_DeploymentID acct) i (cr_Generation rec) in
          (case Open (env_aead E) (the (cr_KeyVersion rec)) oldKey (cr_Nonce rec) (cr_Ciphertext rec) aad of
             Inl _ \<Rightarrow> raise decryptFailedErr
           | Inr plaintext \<Rightarrow>
               bnd (seal_nonce E) (\<lambda>rnd.
               case Seal (env_aead E) rnd activeID activeKey plaintext aad of
                 Inl _ \<Rightarrow> raise (cryptoKeyUnavailable SealErr)
               | Inr (nonce, ciphertext) \<Rightarrow>
                   on_credentials (writeRecord E name (rec\<lparr>cr_KeyVersion := Some activeID, cr_Nonce := nonce,
                     cr_Ciphertext := ciphertext\<rparr>)))))"

definition reencryptOneLocked :: "env \<Rightarrow> keyprov \<Rightarrow> string \<Rightarrow> string \<Rightarrow> bytes \<Rightarrow> unit stm" where
  "reencryptOneLocked E kp name activeID activeKey =
     bnd (on_credentials (readRecord E name)) (\<lambda>rec.
     bnd (lift_sum (validateCredentialRecord (env_lib E) rec)) (\<lambda>_.
     if length (cr_Ciphertext rec) = 0 \<or> the (cr_KeyVersion rec) = activeID then ret ()
     else (case uuid_Parse (env_lib E) (cr_AccountID rec) of
         None \<Rightarrow> raise (storeUnavailable (Sent ErrStoreCorrupt))
       | Some i \<Rightarrow> bnd (getAccountLocked E i) (\<lambda>acct. reseal_record E kp name activeID activeKey rec i acct))))"

fun reencryptLoop :: "env \<Rightarrow> keyprov \<Rightarrow> string \<Rightarrow> bytes \<Rightarrow> string list \<Rightarrow> unit stm" where
  "reencryptLoop E kp activeID activeKey [] = ret ()"
| "reencryptLoop E kp activeID activeKey (n # ns) =
     bnd (reencryptOneLocked E kp n activeID activeKey) (\<lambda>_. reencryptLoop E kp activeID activeKey ns)"

definition ReencryptAll :: "env \<Rightarrow> bool \<Rightarrow> keyprov option \<Rightarrow> unit stm" where
  "ReencryptAll E ctxErr kp =
     bnd (guard (\<not> ctxErr) (RawErr CtxDone)) (\<lambda>_.
     bnd checkOpen (\<lambda>_.
     case kp of
       None \<Rightarrow> raise (cryptoKeyUnavailable (Sent ErrNoKeyProvider))
     | Some p \<Rightarrow> (case kp_ActiveKey p of
         None \<Rightarrow> raise (cryptoKeyUnavailable ProviderErr)
       | Some (activeID, activeKey) \<Rightarrow>
           bnd (or_unavailable (on_credentials (os_ReadDir E))) (\<lambda>es.
           reencryptLoop E p activeID activeKey (jsonNames es)))))"

end
