(* ===== verification/StoreView.thy ===== *)
theory StoreView
  imports Credentials
begin

text \<open>
  The store as the code can observe it: the view of each directory, the key provider and whether the store is
  closed. The file primitives are lifted to this image once, in locales over a directory slot, and every
  operation gets an outcome rule on it that holds whichever system calls fail.
\<close>

section \<open>A directory inside the store\<close>

text \<open>The interface between the file primitives and the store: a directory is a slot of the store state that can
  be read and replaced and does not depend on the counter. The outcome rules of the primitives are lifted once,
  for every slot.\<close>

locale dir_slot =
  fixes get :: "store \<Rightarrow> 'r fdir"
    and upd :: "('r fdir \<Rightarrow> 'r fdir) \<Rightarrow> store \<Rightarrow> store"
  assumes get_upd: "get (upd f s) = f (get s)"
    and get_tick: "get (s\<lparr>st_tick := t\<rparr>) = get s"
    and upd_get: "upd (\<lambda>_. get s) s = s"
    and upd_upd: "upd f (upd g s) = upd (\<lambda>d. f (g d)) s"
begin

text \<open>A state predicate that looks at the slot only through its view.\<close>

definition stable :: "(store \<Rightarrow> bool) \<Rightarrow> bool" where
  "stable P \<longleftrightarrow> (\<forall>s d t. P s \<longrightarrow> distinct (map fst d) \<longrightarrow> view d = view (get s) \<longrightarrow> P (upd (\<lambda>_. d) (s\<lparr>st_tick := t\<rparr>)))"

lemma stable_same: "stable P \<Longrightarrow> P s \<Longrightarrow> distinct (map fst (get s)) \<Longrightarrow> P (upd (\<lambda>_. get s) (s\<lparr>st_tick := t\<rparr>))"
  by (simp add: stable_def)

lemma on_triple:
  assumes T: "\<And>d. triple (\<lambda>f. fs_dir f = d \<and> distinct (map fst d)) m (\<lambda>a f. Q d a (fs_dir f)) (\<lambda>e f. R d e (fs_dir f))"
    and D: "\<And>s. P s \<Longrightarrow> distinct (map fst (get s))"
    and S: "\<And>s a d t. P s \<Longrightarrow> Q (get s) a d \<Longrightarrow> Q' a (upd (\<lambda>_. d) (s\<lparr>st_tick := t\<rparr>))"
    and F: "\<And>s e d t. P s \<Longrightarrow> R (get s) e d \<Longrightarrow> R' e (upd (\<lambda>_. d) (s\<lparr>st_tick := t\<rparr>))"
  shows "triple P (on_dir get upd m) Q' R'"
proof -
  have "case on_dir get upd m s of (Inr a, t) \<Rightarrow> Q' a t | (Inl e, t) \<Rightarrow> R' e t" if P: "P s" for s
  proof -
    let ?f = "\<lparr>fs_tick = st_tick s, fs_dir = get s\<rparr>"
    obtain r f where f: "m ?f = (r, f)" by fastforce
    have p: "fs_dir ?f = get s \<and> distinct (map fst (get s))" using D [OF P] by simp
    show ?thesis
    proof (cases r)
      case (Inl e)
      with tripleD(2) [OF T p] f have "R (get s) e (fs_dir f)" by simp
      with F [OF P] f Inl show ?thesis by (simp add: on_dir_def)
    next
      case (Inr a)
      with tripleD(1) [OF T p] f have "Q (get s) a (fs_dir f)" by simp
      with S [OF P] f Inr show ?thesis by (simp add: on_dir_def)
    qed
  qed
  then show ?thesis by (simp add: triple_def)
qed

lemma on_read:
  assumes "stable P" "\<And>s. P s \<Longrightarrow> distinct (map fst (get s))"
  shows "triple P (on_dir get upd (readRecord E n))
    (\<lambda>v s. P s \<and> (\<exists>t. map_of (get s) n = Some (FFile (Some v) t)))
    (\<lambda>e s. P s \<and> (e = RawErr FsNotExist \<and> map_of (get s) n = None \<or> e = RawErr FsIO
      \<or> e = storeUnavailable (Sent ErrStoreCorrupt) \<and> (\<exists>t. map_of (get s) n = Some (FFile None t))))"
proof (rule on_triple [where Q = "\<lambda>d v d'. d' = d \<and> (\<exists>t. map_of d n = Some (FFile (Some v) t))"
      and R = "\<lambda>d e d'. d' = d \<and> (e = RawErr FsNotExist \<and> map_of d n = None \<or> e = RawErr FsIO
        \<or> e = storeUnavailable (Sent ErrStoreCorrupt) \<and> (\<exists>t. map_of d n = Some (FFile None t)))"])
  show "triple (\<lambda>f. fs_dir f = d \<and> distinct (map fst d)) (readRecord E n)
     (\<lambda>v f. fs_dir f = d \<and> (\<exists>t. map_of d n = Some (FFile (Some v) t)))
     (\<lambda>e f. fs_dir f = d \<and> (e = RawErr FsNotExist \<and> map_of d n = None \<or> e = RawErr FsIO
        \<or> e = storeUnavailable (Sent ErrStoreCorrupt) \<and> (\<exists>t. map_of d n = Some (FFile None t))))" for d
    by (rule triple_weaken [OF readRecord_triple]) auto
qed (use assms stable_same in \<open>auto simp: get_upd\<close>)

lemma on_write:
  assumes "\<not> is_tmp n" "\<And>s. P s \<Longrightarrow> distinct (map fst (get s))"
    "\<And>s d t. P s \<Longrightarrow> distinct (map fst d) \<Longrightarrow> view d = (view (get s))(n \<mapsto> NFile (Some v)) \<Longrightarrow> Q (upd (\<lambda>_. d) (s\<lparr>st_tick := t\<rparr>))"
    "\<And>s d t c. P s \<Longrightarrow> distinct (map fst d) \<Longrightarrow> view d = view (get s) \<or> view d = (view (get s))(n \<mapsto> NFile (Some v))
      \<Longrightarrow> R (storeUnavailable c) (upd (\<lambda>_. d) (s\<lparr>st_tick := t\<rparr>))"
  shows "triple P (on_dir get upd (writeRecord E n v)) (\<lambda>_. Q) R"
proof (rule on_triple [where Q = "\<lambda>d _ d'. distinct (map fst d') \<and> view d' = (view d)(n \<mapsto> NFile (Some v))"
      and R = "\<lambda>d e d'. distinct (map fst d') \<and> (\<exists>c. e = storeUnavailable c)
         \<and> (view d' = view d \<or> view d' = (view d)(n \<mapsto> NFile (Some v)))"])
  show "triple (\<lambda>f. fs_dir f = d \<and> distinct (map fst d)) (writeRecord E n v)
     (\<lambda>a f. distinct (map fst (fs_dir f)) \<and> view (fs_dir f) = (view d)(n \<mapsto> NFile (Some v)))
     (\<lambda>e f. distinct (map fst (fs_dir f)) \<and> (\<exists>c. e = storeUnavailable c)
         \<and> (view (fs_dir f) = view d \<or> view (fs_dir f) = (view d)(n \<mapsto> NFile (Some v))))" for d
    by (rule triple_weaken [OF writeRecord_triple [OF assms(1)]]) auto
qed (use assms(2-4) in auto)

lemma on_delete:
  assumes "\<not> is_tmp n" "\<And>s. P s \<Longrightarrow> distinct (map fst (get s))"
    "\<And>s d t. P s \<Longrightarrow> distinct (map fst d) \<Longrightarrow> view d = (view (get s))(n := None) \<Longrightarrow> Q (upd (\<lambda>_. d) (s\<lparr>st_tick := t\<rparr>))"
    "\<And>s d t c. P s \<Longrightarrow> distinct (map fst d) \<Longrightarrow> view d = view (get s) \<or> view d = (view (get s))(n := None)
      \<Longrightarrow> R (storeUnavailable c) (upd (\<lambda>_. d) (s\<lparr>st_tick := t\<rparr>))"
  shows "triple P (on_dir get upd (deleteRecordDurably E n)) (\<lambda>_. Q) R"
proof (rule on_triple [where Q = "\<lambda>d _ d'. distinct (map fst d') \<and> view d' = (view d)(n := None)"
      and R = "\<lambda>d e d'. distinct (map fst d') \<and> (\<exists>c. e = storeUnavailable c)
         \<and> (view d' = view d \<or> view d' = (view d)(n := None))"])
  show "triple (\<lambda>f. fs_dir f = d \<and> distinct (map fst d)) (deleteRecordDurably E n)
     (\<lambda>a f. distinct (map fst (fs_dir f)) \<and> view (fs_dir f) = (view d)(n := None))
     (\<lambda>e f. distinct (map fst (fs_dir f)) \<and> (\<exists>c. e = storeUnavailable c)
         \<and> (view (fs_dir f) = view d \<or> view (fs_dir f) = (view d)(n := None)))" for d
    by (rule triple_weaken [OF deleteRecord_triple [OF assms(1)]]) auto
qed (use assms(2-4) in auto)

lemma on_stat:
  assumes "stable P" "\<And>s. P s \<Longrightarrow> distinct (map fst (get s))"
  shows "triple P (on_dir get upd (os_Stat E n)) (\<lambda>_ s. P s \<and> map_of (get s) n \<noteq> None)
    (\<lambda>e s. P s \<and> (e = RawErr FsNotExist \<and> map_of (get s) n = None \<or> e = RawErr FsIO))"
proof (rule on_triple [where Q = "\<lambda>d _ d'. d' = d \<and> map_of d n \<noteq> None"
      and R = "\<lambda>d e d'. d' = d \<and> (e = RawErr FsNotExist \<and> map_of d n = None \<or> e = RawErr FsIO)"])
  show "triple (\<lambda>f. fs_dir f = d \<and> distinct (map fst d)) (os_Stat E n) (\<lambda>a f. fs_dir f = d \<and> map_of d n \<noteq> None)
     (\<lambda>e f. fs_dir f = d \<and> (e = RawErr FsNotExist \<and> map_of d n = None \<or> e = RawErr FsIO))" for d
    by (rule triple_weaken [OF Stat_triple]) auto
qed (use assms stable_same in \<open>auto simp: get_upd\<close>)

lemma on_readdir:
  assumes "stable P" "\<And>s. P s \<Longrightarrow> distinct (map fst (get s))"
  shows "triple P (on_dir get upd (os_ReadDir E)) (\<lambda>es s. P s \<and> es = sort_key fst (get s)) (\<lambda>e s. P s \<and> e = RawErr FsIO)"
  by (rule on_triple [where Q = "\<lambda>d es d'. d' = d \<and> es = sort_key fst d" and R = "\<lambda>d e d'. d' = d \<and> e = RawErr FsIO"])
    (use assms stable_same in \<open>auto simp: get_upd triple_def os_ReadDir_def fs_syscall_def bnd_def\<close>)

end

lemma or_unavailable_triple:
  "triple P m Q (\<lambda>e. R (storeUnavailable (cause_of e))) \<Longrightarrow> triple P (or_unavailable m) Q R"
  unfolding triple_def or_unavailable_def bnd_def attempt_def raise_def ret_def
  by (fastforce split: prod.splits sum.splits)

section \<open>The image of the store\<close>

record image =
  im_closed :: bool
  im_kp :: "keyprov option"
  im_dep :: "string \<Rightarrow> deploymentRecord fnode option"
  im_acc :: "string \<Rightarrow> accountRecord fnode option"
  im_key :: "string \<Rightarrow> keyRecord fnode option"
  im_cred :: "string \<Rightarrow> CredentialRecord fnode option"

definition img_of :: "store \<Rightarrow> image" where
  "img_of s = \<lparr>im_closed = st_closed s, im_kp = st_kp s, im_dep = view (st_deployments s),
     im_acc = view (st_accounts s), im_key = view (st_keys s), im_cred = view (st_credentials s)\<rparr>"

definition dirs_distinct :: "store \<Rightarrow> bool" where
  "dirs_distinct s \<longleftrightarrow> distinct (map fst (st_deployments s)) \<and> distinct (map fst (st_accounts s))
     \<and> distinct (map fst (st_keys s)) \<and> distinct (map fst (st_credentials s))"

definition disk :: "image \<Rightarrow> store \<Rightarrow> bool" where
  "disk I s \<longleftrightarrow> dirs_distinct s \<and> img_of s = I"

definition read_err :: "'r fnode option \<Rightarrow> serror \<Rightarrow> bool" where
  "read_err x e \<longleftrightarrow> e = RawErr FsNotExist \<and> x = None \<or> e = RawErr FsIO
     \<or> e = storeUnavailable (Sent ErrStoreCorrupt) \<and> x = Some (NFile None)"

definition read_result :: "'r fnode option \<Rightarrow> serror + 'r \<Rightarrow> bool" where
  "read_result x r \<longleftrightarrow> (case r of Inr v \<Rightarrow> x = Some (NFile (Some v)) | Inl e \<Rightarrow> read_err x e)"

definition read_spec :: "'r fnode option \<Rightarrow> serror + 'r" where
  "read_spec x = (case x of None \<Rightarrow> Inl (RawErr FsNotExist) | Some NDir \<Rightarrow> Inl (RawErr FsIO)
     | Some (NFile None) \<Rightarrow> Inl (storeUnavailable (Sent ErrStoreCorrupt)) | Some (NFile (Some v)) \<Rightarrow> Inr v)"

locale viewed_slot = dir_slot get upd for get :: "store \<Rightarrow> 'r fdir" and upd +
  fixes iget :: "image \<Rightarrow> string \<Rightarrow> 'r fnode option"
    and iupd :: "((string \<Rightarrow> 'r fnode option) \<Rightarrow> (string \<Rightarrow> 'r fnode option)) \<Rightarrow> image \<Rightarrow> image"
  assumes iget_img: "iget (img_of s) = view (get s)"
    and img_upd: "img_of (upd (\<lambda>_. d) (s\<lparr>st_tick := t\<rparr>)) = iupd (\<lambda>_. view d) (img_of s)"
    and iupd_iget: "iupd (\<lambda>_. iget I) I = I"
    and iupd_fun: "iupd F I = iupd (\<lambda>_. F (iget I)) I"
    and distinct_get: "dirs_distinct s \<Longrightarrow> distinct (map fst (get s))"
    and distinct_upd: "dirs_distinct s \<Longrightarrow> distinct (map fst d) \<Longrightarrow> dirs_distinct (upd (\<lambda>_. d) (s\<lparr>st_tick := t\<rparr>))"
begin

lemma disk_get: "disk I s \<Longrightarrow> distinct (map fst (get s)) \<and> view (get s) = iget I"
  using distinct_get by (auto simp: disk_def iget_img)

lemma disk_upd: "disk I s \<Longrightarrow> distinct (map fst d) \<Longrightarrow> view d = V \<Longrightarrow> disk (iupd (\<lambda>_. V) I) (upd (\<lambda>_. d) (s\<lparr>st_tick := t\<rparr>))"
  using distinct_upd by (auto simp: disk_def img_upd)

lemma disk_same: "disk I s \<Longrightarrow> distinct (map fst d) \<Longrightarrow> view d = view (get s) \<Longrightarrow> disk I (upd (\<lambda>_. d) (s\<lparr>st_tick := t\<rparr>))"
  using disk_upd [of I s d "iget I"] disk_get [of I s] by (simp add: iupd_iget)

lemma stable_disk: "stable (disk I)"
  by (simp add: stable_def disk_same)

lemma read_disk:
  assumes "\<not> is_tmp n"
  shows "triple (disk I) (on_dir get upd (readRecord E n)) (\<lambda>v s. disk I s \<and> iget I n = Some (NFile (Some v)))
    (\<lambda>e s. disk I s \<and> read_err (iget I n) e)"
proof (rule triple_weaken [OF on_read])
  show "stable (disk I)" by (rule stable_disk)
  have v: "view (get s) n = map_option node (map_of (get s) n)" for s using assms by (simp add: view_def)
  have g: "view (get s) n = iget I n" if "disk I s" for s using disk_get [OF that] by simp
  show "disk I s \<and> iget I n = Some (NFile (Some a))"
    if "disk I s \<and> (\<exists>t. map_of (get s) n = Some (FFile (Some a) t))" for a s
    using that v [of s] g [of s] by auto
  show "disk I s \<and> read_err (iget I n) e"
    if "disk I s \<and> (e = RawErr FsNotExist \<and> map_of (get s) n = None \<or> e = RawErr FsIO
      \<or> e = storeUnavailable (Sent ErrStoreCorrupt) \<and> (\<exists>t. map_of (get s) n = Some (FFile None t)))" for e s
    using that v [of s] g [of s] by (auto simp: read_err_def)
qed (use disk_get in auto)

lemma attempt_read_disk:
  assumes "\<not> is_tmp n"
  shows "triple (disk I) (attempt (on_dir get upd (readRecord E n))) (\<lambda>r s. disk I s \<and> read_result (iget I n) r) R"
  by (rule triple_attempt, rule triple_weaken [OF read_disk [OF assms]]) (auto simp: read_result_def)

lemma write_disk:
  assumes "\<not> is_tmp n"
  shows "triple (disk I) (on_dir get upd (writeRecord E n v)) (\<lambda>_. disk (iupd (\<lambda>V. V(n \<mapsto> NFile (Some v))) I))
    (\<lambda>e s. (\<exists>c. e = storeUnavailable c) \<and> (disk I s \<or> disk (iupd (\<lambda>V. V(n \<mapsto> NFile (Some v))) I) s))"
proof (rule on_write [OF assms])
  have w: "disk (iupd (\<lambda>V. V(n \<mapsto> NFile (Some v))) I) (upd (\<lambda>_. d) (s\<lparr>st_tick := t\<rparr>))"
    if "disk I s" "distinct (map fst d)" "view d = (view (get s))(n \<mapsto> NFile (Some v))" for s d t
    using disk_upd [OF that(1,2)] that(3) disk_get [OF that(1)] iupd_fun [of "\<lambda>V. V(n \<mapsto> NFile (Some v))"] by simp
  then show "disk I s \<Longrightarrow> distinct (map fst d) \<Longrightarrow> view d = (view (get s))(n \<mapsto> NFile (Some v)) \<Longrightarrow>
      disk (iupd (\<lambda>V. V(n \<mapsto> NFile (Some v))) I) (upd (\<lambda>_. d) (s\<lparr>st_tick := t\<rparr>))" for s d t by blast
  show "(\<exists>c'. storeUnavailable c = storeUnavailable c') \<and> (disk I (upd (\<lambda>_. d) (s\<lparr>st_tick := t\<rparr>))
      \<or> disk (iupd (\<lambda>V. V(n \<mapsto> NFile (Some v))) I) (upd (\<lambda>_. d) (s\<lparr>st_tick := t\<rparr>)))"
    if "disk I s" "distinct (map fst d)" "view d = view (get s) \<or> view d = (view (get s))(n \<mapsto> NFile (Some v))" for s d t c
    using that w disk_same by blast
qed (use disk_get in auto)

lemma delete_disk:
  assumes "\<not> is_tmp n"
  shows "triple (disk I) (on_dir get upd (deleteRecordDurably E n)) (\<lambda>_. disk (iupd (\<lambda>V. V(n := None)) I))
    (\<lambda>e s. (\<exists>c. e = storeUnavailable c) \<and> (disk I s \<or> disk (iupd (\<lambda>V. V(n := None)) I) s))"
proof (rule on_delete [OF assms])
  have w: "disk (iupd (\<lambda>V. V(n := None)) I) (upd (\<lambda>_. d) (s\<lparr>st_tick := t\<rparr>))"
    if "disk I s" "distinct (map fst d)" "view d = (view (get s))(n := None)" for s d t
    using disk_upd [OF that(1,2)] that(3) disk_get [OF that(1)] iupd_fun [of "\<lambda>V. V(n := None)"] by simp
  then show "disk I s \<Longrightarrow> distinct (map fst d) \<Longrightarrow> view d = (view (get s))(n := None) \<Longrightarrow>
      disk (iupd (\<lambda>V. V(n := None)) I) (upd (\<lambda>_. d) (s\<lparr>st_tick := t\<rparr>))" for s d t by blast
  show "(\<exists>c'. storeUnavailable c = storeUnavailable c') \<and> (disk I (upd (\<lambda>_. d) (s\<lparr>st_tick := t\<rparr>))
      \<or> disk (iupd (\<lambda>V. V(n := None)) I) (upd (\<lambda>_. d) (s\<lparr>st_tick := t\<rparr>)))"
    if "disk I s" "distinct (map fst d)" "view d = view (get s) \<or> view d = (view (get s))(n := None)" for s d t c
    using that w disk_same by blast
qed (use disk_get in auto)

lemma stat_disk:
  assumes "\<not> is_tmp n"
  shows "triple (disk I) (on_dir get upd (os_Stat E n)) (\<lambda>_ s. disk I s \<and> iget I n \<noteq> None)
    (\<lambda>e s. disk I s \<and> (e = RawErr FsNotExist \<and> iget I n = None \<or> e = RawErr FsIO))"
proof (rule triple_weaken [OF on_stat [OF stable_disk]])
  have v: "map_of (get s) n = None \<longleftrightarrow> iget I n = None" if "disk I s" for s
    using assms disk_get [OF that] by (metis view_def map_option_is_None)
  show "disk I s \<and> map_of (get s) n \<noteq> None \<Longrightarrow> disk I s \<and> iget I n \<noteq> None" for s using v [of s] by auto
  show "disk I s \<and> (e = RawErr FsNotExist \<and> map_of (get s) n = None \<or> e = RawErr FsIO) \<Longrightarrow>
      disk I s \<and> (e = RawErr FsNotExist \<and> iget I n = None \<or> e = RawErr FsIO)" for e s using v [of s] by auto
qed (use disk_get in auto)

lemma attempt_stat_disk:
  assumes "\<not> is_tmp n"
  shows "triple (disk I) (attempt (on_dir get upd (os_Stat E n)))
    (\<lambda>r s. disk I s \<and> (case r of Inr _ \<Rightarrow> iget I n \<noteq> None
       | Inl e \<Rightarrow> e = RawErr FsNotExist \<and> iget I n = None \<or> e = RawErr FsIO)) R"
  by (rule triple_attempt, rule triple_weaken [OF stat_disk [OF assms]]) auto

lemma readdir_disk:
  "triple (disk I) (on_dir get upd (os_ReadDir E))
     (\<lambda>es s. disk I s \<and> set (jsonNames es) = {n. HasSuffix n ''.json'' \<and> (\<exists>c. iget I n = Some (NFile c))})
     (\<lambda>e s. disk I s \<and> e = RawErr FsIO)"
proof (rule triple_weaken [OF on_readdir [OF stable_disk]])
  show "disk I s \<and> es = sort_key fst (get s) \<Longrightarrow>
      disk I s \<and> set (jsonNames es) = {n. HasSuffix n ''.json'' \<and> (\<exists>c. iget I n = Some (NFile c))}" for es s
    using disk_get [of I s] view_jsonNames [of "get s"] by auto
qed (use disk_get in auto)

lemma quiet_read:
  assumes "\<not> env_fault E (st_tick s)" "disk I s" "\<not> is_tmp n"
  shows "on_dir get upd (readRecord E n) s = (read_spec (iget I n), s\<lparr>st_tick := Suc (st_tick s)\<rparr>)"
proof -
  have g: "upd (\<lambda>_. get s) (s\<lparr>st_tick := t\<rparr>) = s\<lparr>st_tick := t\<rparr>" for t
    using upd_get [of "s\<lparr>st_tick := t\<rparr>"] by (simp add: get_tick)
  have "iget I n = map_option node (map_of (get s) n)"
    using disk_get [OF assms(2)] assms(3) by (metis view_def)
  with assms(1) show ?thesis
    by (cases "map_of (get s) n")
      (auto simp: on_dir_def readRecord_def read_spec_def g fs_syscall_def bnd_def split: fentry.splits option.splits)
qed

lemma scan_disk:
  "triple (disk I) (or_unavailable (on_dir get upd (os_ReadDir E)))
     (\<lambda>es s. disk I s \<and> set (jsonNames es) = {n. HasSuffix n ''.json'' \<and> (\<exists>c. iget I n = Some (NFile c))}) (\<lambda>_. disk I)"
  by (rule or_unavailable_triple, rule triple_weaken [OF readdir_disk]) auto

end

interpretation deps: viewed_slot st_deployments st_deployments_update im_dep im_dep_update
  by unfold_locales (auto simp: img_of_def dirs_distinct_def comp_def)

interpretation accts: viewed_slot st_accounts st_accounts_update im_acc im_acc_update
  by unfold_locales (auto simp: img_of_def dirs_distinct_def comp_def)

interpretation keys: viewed_slot st_keys st_keys_update im_key im_key_update
  by unfold_locales (auto simp: img_of_def dirs_distinct_def comp_def)

interpretation creds: viewed_slot st_credentials st_credentials_update im_cred im_cred_update
  by unfold_locales (auto simp: img_of_def dirs_distinct_def comp_def)


section \<open>Outcome rules of the store's building blocks\<close>

lemma disk_tick [simp]: "disk I (s\<lparr>st_tick := t\<rparr>) = disk I s"
  by (simp add: disk_def dirs_distinct_def img_of_def)

lemma tick_disk:
  "triple (disk I) (nowMs E) (\<lambda>_. disk I) R" "triple (disk I) (uuid_New E) (\<lambda>_. disk I) R"
  "triple (disk I) (seal_nonce E) (\<lambda>_. disk I) R" "triple (disk I) (syscall E) (\<lambda>_. disk I) (\<lambda>_. disk I)"
  by (auto simp: triple_def nowMs_def uuid_New_def seal_nonce_def syscall_def)

lemma uuid_New_disk: "triple (disk I) (uuid_New E) (\<lambda>i s. disk I s \<and> i \<in> range (env_uuid E)) R"
  by (auto simp: triple_def uuid_New_def)

lemma checkOpen_disk:
  "triple (disk I) checkOpen (\<lambda>_ s. disk I s \<and> \<not> im_closed I)
     (\<lambda>e s. disk I s \<and> e = storeUnavailable (Sent ErrStoreClosed) \<and> im_closed I)"
  by (auto simp: triple_def checkOpen_def disk_def img_of_def)

lemma not_tmp_json' [simp]: "\<not> is_tmp (json n)" "\<not> is_tmp (keyFileName L b)"
  by (simp_all add: json_def keyFileName_def)

definition acct_name :: "env \<Rightarrow> uuid \<Rightarrow> string" where
  "acct_name E i = json (uuid_String (env_lib E) i)"

lemma acct_name_not_tmp [simp]: "\<not> is_tmp (acct_name E i)"
  by (simp add: acct_name_def)

definition acct_err :: "accountRecord fnode option \<Rightarrow> serror \<Rightarrow> bool" where
  "acct_err x e \<longleftrightarrow> e = StoreError STORE_UNAVAILABLE (Sent ErrAccountNotFound) \<and> x = None \<or> e = RawErr FsIO
     \<or> e = storeUnavailable (Sent ErrStoreCorrupt)"

lemma mustReadAccount_disk:
  "triple (disk I) (mustReadAccount E i) (\<lambda>r s. disk I s \<and> im_acc I (acct_name E i) = Some (NFile (Some r)))
     (\<lambda>e s. disk I s \<and> acct_err (im_acc I (acct_name E i)) e)"
  unfolding mustReadAccount_def acct_name_def [symmetric]
proof (rule triple_bnd [OF accts.attempt_read_disk])
  fix r
  show "triple (\<lambda>s. disk I s \<and> read_result (im_acc I (acct_name E i)) r)
     (case r of Inl e \<Rightarrow> raise (if errIs e FsNotExist then StoreError STORE_UNAVAILABLE (Sent ErrAccountNotFound) else e)
      | Inr rec \<Rightarrow> ret rec) (\<lambda>r s. disk I s \<and> im_acc I (acct_name E i) = Some (NFile (Some r)))
     (\<lambda>e s. disk I s \<and> acct_err (im_acc I (acct_name E i)) e)"
    by (cases r) (auto simp: triple_def read_result_def read_err_def acct_err_def errIs_def storeUnavailable_def)
qed simp

lemma getAccountLocked_disk:
  "triple (disk I) (getAccountLocked E i)
     (\<lambda>a s. disk I s \<and> (\<exists>r. im_acc I (acct_name E i) = Some (NFile (Some r)) \<and> account_toCore (env_lib E) r = Inr a))
     (\<lambda>e s. disk I s \<and> acct_err (im_acc I (acct_name E i)) e)"
  unfolding getAccountLocked_def
proof (rule triple_bnd [OF mustReadAccount_disk], rule triple_lift_sum)
  fix r s e assume "disk I s \<and> im_acc I (acct_name E i) = Some (NFile (Some r))" "account_toCore (env_lib E) r = Inl e"
  then show "disk I s \<and> acct_err (im_acc I (acct_name E i)) e"
    by (auto simp: account_toCore_def acct_err_def Let_def split: option.splits)
qed auto

text \<open>The duplicate scan succeeds only if no other account of the deployment has the user.\<close>

definition user_free :: "golib \<Rightarrow> uuid \<Rightarrow> uuid \<Rightarrow> uuid \<Rightarrow> accountRecord \<Rightarrow> bool" where
  "user_free L dep user excl r \<longleftrightarrow> (ar_DeploymentID r = uuid_String L dep \<longrightarrow>
     ar_CoderUserID r = Some (uuid_String L user) \<longrightarrow> ar_ID r = uuid_String L excl)"

definition all_free :: "env \<Rightarrow> image \<Rightarrow> uuid \<Rightarrow> uuid \<Rightarrow> uuid \<Rightarrow> bool" where
  "all_free E I dep user excl \<longleftrightarrow> (\<forall>n r. HasSuffix n ''.json'' \<longrightarrow> im_acc I n = Some (NFile (Some r)) \<longrightarrow>
     user_free (env_lib E) dep user excl r)"

lemma checkDuplicateLoop_disk:
  assumes "uuid_lawful (env_lib E)" "\<forall>n\<in>set ns. \<not> is_tmp n"
  shows "triple (disk I) (checkDuplicateLoop E dep user excl ns)
    (\<lambda>_ s. disk I s \<and> (\<forall>n\<in>set ns. \<forall>r. im_acc I n = Some (NFile (Some r)) \<longrightarrow> user_free (env_lib E) dep user excl r))
    (\<lambda>_. disk I)"
  using assms(2)
proof (induction ns)
  case (Cons n ns)
  let ?Q = "\<lambda>s. disk I s \<and> (\<forall>m\<in>set (n # ns). \<forall>r. im_acc I m = Some (NFile (Some r)) \<longrightarrow> user_free (env_lib E) dep user excl r)"
  have IH: "triple (disk I) (checkDuplicateLoop E dep user excl ns) (\<lambda>_. ?Q) (\<lambda>_. disk I)"
    if "im_acc I n = Some (NFile (Some r))" "user_free (env_lib E) dep user excl r" for r
    by (rule triple_weaken [OF Cons.IH]) (use Cons.prems that in auto)
  show ?case
    unfolding checkDuplicateLoop.simps
  proof (rule triple_seq [OF accts.read_disk])
    fix r
    show "triple (\<lambda>s. disk I s \<and> im_acc I n = Some (NFile (Some r)))
       (if ar_CoderUserID r = None \<or> ar_DeploymentID r \<noteq> uuid_String (env_lib E) dep then checkDuplicateLoop E dep user excl ns
        else case uuid_Parse (env_lib E) (the (ar_CoderUserID r)) of None \<Rightarrow> raise (storeUnavailable (Sent ErrStoreCorrupt))
          | Some uid \<Rightarrow> if uid = user \<and> ar_ID r \<noteq> uuid_String (env_lib E) excl
              then raise (StoreError STORE_UNAVAILABLE (Sent ErrDuplicateCoderUser)) else checkDuplicateLoop E dep user excl ns)
       (\<lambda>_. ?Q) (\<lambda>_. disk I)"
    proof (rule triple_fact)
      assume v: "im_acc I n = Some (NFile (Some r))"
      have free: "user_free (env_lib E) dep user excl r"
        if "\<not> (\<exists>u. ar_CoderUserID r = Some u \<and> uuid_Parse (env_lib E) u = Some user \<and> ar_ID r \<noteq> uuid_String (env_lib E) excl)
          \<or> ar_CoderUserID r = None \<or> ar_DeploymentID r \<noteq> uuid_String (env_lib E) dep"
        using that assms(1) by (auto simp: user_free_def)
      show "triple (disk I) (if ar_CoderUserID r = None \<or> ar_DeploymentID r \<noteq> uuid_String (env_lib E) dep then checkDuplicateLoop E dep user excl ns
        else case uuid_Parse (env_lib E) (the (ar_CoderUserID r)) of None \<Rightarrow> raise (storeUnavailable (Sent ErrStoreCorrupt))
          | Some uid \<Rightarrow> if uid = user \<and> ar_ID r \<noteq> uuid_String (env_lib E) excl
              then raise (StoreError STORE_UNAVAILABLE (Sent ErrDuplicateCoderUser)) else checkDuplicateLoop E dep user excl ns)
       (\<lambda>_. ?Q) (\<lambda>_. disk I)"
        using IH [OF v free]
        by (cases "ar_CoderUserID r"; cases "uuid_Parse (env_lib E) (the (ar_CoderUserID r))")
          (auto intro!: triple_pure)
    qed
  qed (use Cons.prems in auto)
qed (auto intro: triple_pure)

lemma checkDuplicateCoderUser_disk:
  assumes "uuid_lawful (env_lib E)"
  shows "triple (disk I) (checkDuplicateCoderUser E dep user excl) (\<lambda>_ s. disk I s \<and> all_free E I dep user excl) (\<lambda>_. disk I)"
  unfolding checkDuplicateCoderUser_def
proof (rule triple_bnd [OF accts.scan_disk], rule triple_fact)
  fix es assume js: "set (jsonNames es) = {n. HasSuffix n ''.json'' \<and> (\<exists>c. im_acc I n = Some (NFile c))}"
  then have nt: "\<forall>n\<in>set (jsonNames es). \<not> is_tmp n" by (auto dest: HasSuffix_json_not_tmp)
  show "triple (disk I) (checkDuplicateLoop E dep user excl (jsonNames es)) (\<lambda>_ s. disk I s \<and> all_free E I dep user excl) (\<lambda>_. disk I)"
    by (rule triple_weaken [OF checkDuplicateLoop_disk [OF assms nt]]) (use js in \<open>auto simp: all_free_def\<close>)
qed

end
