(* ===== verification/StoreOps.thy ===== *)
theory StoreOps
  imports StoreView
begin

text \<open>
  The outcome of every operation of the store on its image. A successful operation leaves one of the images its
  rule names; a failing one leaves the image unchanged or is caught after its write: nothing in between can be
  observed.
\<close>

section \<open>Outcomes\<close>

definition becomes :: "image set \<Rightarrow> store \<Rightarrow> bool" where
  "becomes X s \<longleftrightarrow> (\<exists>I\<in>X. disk I s)"

lemma becomesI: "disk I s \<Longrightarrow> I \<in> X \<Longrightarrow> becomes X s"
  by (auto simp: becomes_def)

definition put_acc :: "string \<Rightarrow> accountRecord \<Rightarrow> image \<Rightarrow> image" where
  "put_acc n r I = im_acc_update (\<lambda>V. V(n \<mapsto> NFile (Some r))) I"

definition put_key :: "string \<Rightarrow> keyRecord \<Rightarrow> image \<Rightarrow> image" where
  "put_key n r I = im_key_update (\<lambda>V. V(n \<mapsto> NFile (Some r))) I"

definition put_cred :: "string \<Rightarrow> CredentialRecord \<Rightarrow> image \<Rightarrow> image" where
  "put_cred n r I = im_cred_update (\<lambda>V. V(n \<mapsto> NFile (Some r))) I"

lemma put_sel [simp]:
  "im_acc (put_acc n r I) = (im_acc I)(n \<mapsto> NFile (Some r))" "im_key (put_acc n r I) = im_key I"
  "im_cred (put_acc n r I) = im_cred I" "im_kp (put_acc n r I) = im_kp I" "im_closed (put_acc n r I) = im_closed I"
  "im_acc (put_key n k I) = im_acc I" "im_key (put_key n k I) = (im_key I)(n \<mapsto> NFile (Some k))"
  "im_cred (put_key n k I) = im_cred I" "im_kp (put_key n k I) = im_kp I" "im_closed (put_key n k I) = im_closed I"
  "im_acc (put_cred n c I) = im_acc I" "im_key (put_cred n c I) = im_key I"
  "im_cred (put_cred n c I) = (im_cred I)(n \<mapsto> NFile (Some c))" "im_kp (put_cred n c I) = im_kp I"
  "im_closed (put_cred n c I) = im_closed I" "im_dep (put_acc n r I) = im_dep I" "im_dep (put_key n k I) = im_dep I"
  "im_dep (put_cred n c I) = im_dep I"
  by (simp_all add: put_acc_def put_key_def put_cred_def)

text \<open>A write is the last step of most operations: with the record known, it yields the outcome.\<close>

lemma write_acc_becomes:
  assumes "\<not> is_tmp n" "put_acc n r I \<in> X"
  shows "triple (disk I) (on_accounts (writeRecord E n r)) (\<lambda>_. becomes X) (\<lambda>_ s. disk I s \<or> becomes X s)"
  by (rule triple_weaken [OF accts.write_disk [OF assms(1)]])
    (use assms(2) in \<open>auto simp: becomes_def put_acc_def\<close>)

lemma write_key_becomes:
  assumes "\<not> is_tmp n" "put_key n r I \<in> X"
  shows "triple (disk I) (on_keys (writeRecord E n r)) (\<lambda>_. becomes X) (\<lambda>_ s. disk I s \<or> becomes X s)"
  by (rule triple_weaken [OF keys.write_disk [OF assms(1)]])
    (use assms(2) in \<open>auto simp: becomes_def put_key_def\<close>)

lemma write_cred_becomes:
  assumes "\<not> is_tmp n" "put_cred n r I \<in> X"
  shows "triple (disk I) (on_credentials (writeRecord E n r)) (\<lambda>_. becomes X) (\<lambda>_ s. disk I s \<or> becomes X s)"
  by (rule triple_weaken [OF creds.write_disk [OF assms(1)]])
    (use assms(2) in \<open>auto simp: becomes_def put_cred_def\<close>)

section \<open>Accounts\<close>

definition acct_put :: "env \<Rightarrow> uuid \<Rightarrow> (accountRecord \<Rightarrow> int \<Rightarrow> accountRecord) \<Rightarrow> (accountRecord \<Rightarrow> bool) \<Rightarrow> image \<Rightarrow> image set" where
  "acct_put E i F C I = {put_acc (acct_name E i) (F r now) I | r now. im_acc I (acct_name E i) = Some (NFile (Some r)) \<and> C r}"

lemma SetAccountEnabled_disk:
  defines "F \<equiv> \<lambda>b r now. r\<lparr>ar_Enabled := b, ar_UpdatedAtMs := now\<rparr>"
  shows "triple (disk I) (SetAccountEnabled E i b) (\<lambda>_. becomes (acct_put E i (F b) (\<lambda>_. True) I))
    (\<lambda>_ s. disk I s \<or> becomes (acct_put E i (F b) (\<lambda>_. True) I) s)"
  unfolding SetAccountEnabled_def acct_name_def [symmetric]
  by (rule triple_seq [OF checkOpen_disk], simp, rule triple_fact, rule triple_seq [OF mustReadAccount_disk], simp,
      rule triple_fact, rule triple_bnd [OF tick_disk(1)], rule write_acc_becomes)
    (auto simp: acct_put_def F_def)

definition identity_free :: "env \<Rightarrow> image \<Rightarrow> uuid \<Rightarrow> uuid \<Rightarrow> accountRecord \<Rightarrow> bool" where
  "identity_free E I i user r \<longleftrightarrow> (\<exists>dep. uuid_Parse (env_lib E) (ar_DeploymentID r) = Some dep
     \<and> all_free E I dep user i)"

abbreviation set_identity :: "env \<Rightarrow> uuid \<Rightarrow> string \<Rightarrow> accountRecord \<Rightarrow> int \<Rightarrow> accountRecord" where
  "set_identity E user username r now \<equiv> r\<lparr>ar_CoderUserID := Some (uuid_String (env_lib E) user), ar_CachedUsername := username,
     ar_UpdatedAtMs := now\<rparr>"

abbreviation identity_put :: "env \<Rightarrow> uuid \<Rightarrow> uuid \<Rightarrow> string \<Rightarrow> image \<Rightarrow> image set" where
  "identity_put E i user username I \<equiv> acct_put E i (set_identity E user username) (identity_free E I i user) I"

lemma updateAccountIdentity_disk:
  assumes "uuid_lawful (env_lib E)"
  shows "triple (disk I) (updateAccountIdentityLocked E i user username) (\<lambda>_. becomes (identity_put E i user username I))
    (\<lambda>_ s. disk I s \<or> becomes (identity_put E i user username I) s)"
  unfolding updateAccountIdentityLocked_def acct_name_def [symmetric]
proof (rule triple_seq [OF mustReadAccount_disk], simp, rule triple_fact)
  fix r assume v: "im_acc I (acct_name E i) = Some (NFile (Some r))"
  let ?X = "identity_put E i user username I"
  show "triple (disk I) (case uuid_Parse (env_lib E) (ar_DeploymentID r) of None \<Rightarrow> raise (storeUnavailable (Sent ErrStoreCorrupt))
      | Some dep \<Rightarrow> bnd (checkDuplicateCoderUser E dep user i) (\<lambda>_. bnd (nowMs E) (\<lambda>now. on_accounts (writeRecord E (acct_name E i)
          (set_identity E user username r now))))) (\<lambda>_. becomes ?X) (\<lambda>_ s. disk I s \<or> becomes ?X s)"
  proof (cases "uuid_Parse (env_lib E) (ar_DeploymentID r)")
    case (Some dep)
    have "triple (disk I) (bnd (checkDuplicateCoderUser E dep user i) (\<lambda>_. bnd (nowMs E) (\<lambda>now. on_accounts (writeRecord E (acct_name E i)
          (set_identity E user username r now))))) (\<lambda>_. becomes ?X) (\<lambda>_ s. disk I s \<or> becomes ?X s)"
      by (rule triple_seq [OF checkDuplicateCoderUser_disk [OF assms]], simp, rule triple_fact,
          rule triple_bnd [OF tick_disk(1)], rule write_acc_becomes)
        (use v Some in \<open>auto simp: acct_put_def identity_free_def\<close>)
    with Some show ?thesis by simp
  qed (auto intro: triple_pure)
qed

lemma UpdateAccountIdentity_disk:
  assumes "uuid_lawful (env_lib E)"
  shows "triple (disk I) (UpdateAccountIdentity E i user username) (\<lambda>_. becomes (identity_put E i user username I))
    (\<lambda>_ s. disk I s \<or> becomes (identity_put E i user username I) s)"
  unfolding UpdateAccountIdentity_def
  by (rule triple_seq [OF checkOpen_disk], simp, rule triple_fact, rule updateAccountIdentity_disk [OF assms])

definition account_add :: "env \<Rightarrow> Account \<Rightarrow> image \<Rightarrow> image set" where
  "account_add E a I = {put_acc (acct_name E (acct_ID a)) (accountToRecord (env_lib E) a now now) I | now.
     im_acc I (acct_name E (acct_ID a)) = None \<and> (\<forall>u. acct_CoderUserID a = Some u \<longrightarrow> all_free E I (acct_DeploymentID a) u uuid_Nil)}"

lemma AddAccount_disk:
  assumes "uuid_lawful (env_lib E)"
  shows "triple (disk I) (AddAccount E a) (\<lambda>_. becomes (account_add E a I)) (\<lambda>_ s. disk I s \<or> becomes (account_add E a I) s)"
  unfolding AddAccount_def Let_def acct_name_def [symmetric]
proof (rule triple_seq [OF checkOpen_disk], simp, rule triple_fact, rule triple_bnd [OF accts.attempt_stat_disk], simp, rule triple_fact)
  fix r :: "serror + unit"
  let ?X = "account_add E a I"
  assume c: "case r of Inr _ \<Rightarrow> im_acc I (acct_name E (acct_ID a)) \<noteq> None
       | Inl e \<Rightarrow> e = RawErr FsNotExist \<and> im_acc I (acct_name E (acct_ID a)) = None \<or> e = RawErr FsIO"
  have dup: "triple (disk I) (case acct_CoderUserID a of None \<Rightarrow> ret () | Some u \<Rightarrow> checkDuplicateCoderUser E (acct_DeploymentID a) u uuid_Nil)
     (\<lambda>_ s. disk I s \<and> (\<forall>u. acct_CoderUserID a = Some u \<longrightarrow> all_free E I (acct_DeploymentID a) u uuid_Nil)) (\<lambda>_. disk I)"
    by (cases "acct_CoderUserID a") (auto intro!: triple_pure checkDuplicateCoderUser_disk [OF assms])
  show "triple (disk I)
     (bnd (case r of Inl e \<Rightarrow> guard (errIs e FsNotExist) (storeUnavailable (cause_of e))
           | Inr _ \<Rightarrow> raise (StoreError STORE_UNAVAILABLE (Sent ErrAccountExists)))
       (\<lambda>_. bnd (case acct_CoderUserID a of None \<Rightarrow> ret () | Some u \<Rightarrow> checkDuplicateCoderUser E (acct_DeploymentID a) u uuid_Nil)
          (\<lambda>_. bnd (nowMs E) (\<lambda>now. on_accounts (writeRecord E (acct_name E (acct_ID a)) (accountToRecord (env_lib E) a now now))))))
     (\<lambda>_. becomes ?X) (\<lambda>_ s. disk I s \<or> becomes ?X s)"
  proof (rule triple_bnd [where Q = "\<lambda>_ s. disk I s \<and> im_acc I (acct_name E (acct_ID a)) = None"])
    show "triple (disk I) (case r of Inl e \<Rightarrow> guard (errIs e FsNotExist) (storeUnavailable (cause_of e))
           | Inr _ \<Rightarrow> raise (StoreError STORE_UNAVAILABLE (Sent ErrAccountExists)))
        (\<lambda>_ s. disk I s \<and> im_acc I (acct_name E (acct_ID a)) = None) (\<lambda>_ s. disk I s \<or> becomes ?X s)"
      using c by (cases r) (auto simp: errIs_def intro!: triple_pure)
    show "triple (\<lambda>s. disk I s \<and> im_acc I (acct_name E (acct_ID a)) = None)
       (bnd (case acct_CoderUserID a of None \<Rightarrow> ret () | Some u \<Rightarrow> checkDuplicateCoderUser E (acct_DeploymentID a) u uuid_Nil)
          (\<lambda>_. bnd (nowMs E) (\<lambda>now. on_accounts (writeRecord E (acct_name E (acct_ID a)) (accountToRecord (env_lib E) a now now)))))
       (\<lambda>_. becomes ?X) (\<lambda>_ s. disk I s \<or> becomes ?X s)" for u
      by (rule triple_fact, rule triple_seq [OF dup], simp, rule triple_fact, rule triple_bnd [OF tick_disk(1)], rule write_acc_becomes)
        (auto simp: account_add_def)
  qed
qed


section \<open>Enrollment\<close>

text \<open>The account bound to a Coder user, and the images in which its cached user name is refreshed.\<close>

definition bound_to :: "string \<Rightarrow> string \<Rightarrow> accountRecord \<Rightarrow> bool" where
  "bound_to depStr uidStr r \<longleftrightarrow> ar_DeploymentID r = depStr \<and> ar_CoderUserID r = Some uidStr"

definition refreshed :: "image \<Rightarrow> string \<Rightarrow> string \<Rightarrow> string \<Rightarrow> image set" where
  "refreshed I depStr uidStr username = {put_acc n (r\<lparr>ar_CachedUsername := username, ar_UpdatedAtMs := now\<rparr>) I | n r now.
     \<not> is_tmp n \<and> im_acc I n = Some (NFile (Some r)) \<and> bound_to depStr uidStr r}"

definition found_account :: "env \<Rightarrow> image \<Rightarrow> string \<Rightarrow> string \<Rightarrow> string \<Rightarrow> Account \<Rightarrow> store \<Rightarrow> bool" where
  "found_account E I depStr uidStr username a s \<longleftrightarrow> (\<exists>J. disk J s \<and> (J = I \<or> J \<in> refreshed I depStr uidStr username)
     \<and> (\<exists>n r. im_acc J n = Some (NFile (Some r)) \<and> bound_to depStr uidStr r \<and> ar_CachedUsername r = username
          \<and> account_toCore (env_lib E) r = Inr a))"

lemma lookupByCoderIDLoop_disk:
  assumes "\<forall>n\<in>set ns. \<not> is_tmp n"
  shows "triple (disk I) (lookupByCoderIDLoop E depStr uidStr username ns)
    (\<lambda>x s. case x of None \<Rightarrow> disk I s \<and> (\<forall>n\<in>set ns. \<forall>r. im_acc I n = Some (NFile (Some r)) \<longrightarrow> \<not> bound_to depStr uidStr r)
       | Some a \<Rightarrow> found_account E I depStr uidStr username a s)
    (\<lambda>_ s. disk I s \<or> becomes (refreshed I depStr uidStr username) s)"
  using assms
proof (induction ns)
  case (Cons n ns)
  let ?R = "\<lambda>_ s. disk I s \<or> becomes (refreshed I depStr uidStr username) s"
  let ?Q = "\<lambda>ns x s. case x of None \<Rightarrow> disk I s \<and> (\<forall>n\<in>set ns. \<forall>r. im_acc I n = Some (NFile (Some r)) \<longrightarrow> \<not> bound_to depStr uidStr r)
       | Some a \<Rightarrow> found_account E I depStr uidStr username a s"
  have nt: "\<not> is_tmp n" using Cons.prems by simp
  show ?case
    unfolding lookupByCoderIDLoop.simps
  proof (rule triple_seq [OF accts.read_disk [OF nt]], simp, rule triple_fact)
    fix r assume v: "im_acc I n = Some (NFile (Some r))"
    show "triple (disk I) (if ar_DeploymentID r \<noteq> depStr \<or> ar_CoderUserID r \<noteq> Some uidStr then lookupByCoderIDLoop E depStr uidStr username ns
        else bnd (if ar_CachedUsername r \<noteq> username then bnd (nowMs E) (\<lambda>now. let r' = r\<lparr>ar_CachedUsername := username, ar_UpdatedAtMs := now\<rparr> in
               bnd (on_accounts (writeRecord E n r')) (\<lambda>_. ret r')) else ret r)
             (\<lambda>r'. bnd (lift_sum (account_toCore (env_lib E) r')) (\<lambda>a. ret (Some a)))) (?Q (n # ns)) ?R"
    proof (rule triple_if)
      assume "ar_DeploymentID r \<noteq> depStr \<or> ar_CoderUserID r \<noteq> Some uidStr"
      then have "\<not> bound_to depStr uidStr r" by (auto simp: bound_to_def)
      then show "triple (disk I) (lookupByCoderIDLoop E depStr uidStr username ns) (?Q (n # ns)) ?R"
        using Cons.prems v by (intro triple_weaken [OF Cons.IH]) (auto split: option.splits)
    next
      assume "\<not> (ar_DeploymentID r \<noteq> depStr \<or> ar_CoderUserID r \<noteq> Some uidStr)"
      then have b: "bound_to depStr uidStr r" by (simp add: bound_to_def)
      let ?M = "\<lambda>r' s. \<exists>J. disk J s \<and> (J = I \<or> J \<in> refreshed I depStr uidStr username)
         \<and> im_acc J n = Some (NFile (Some r')) \<and> bound_to depStr uidStr r' \<and> ar_CachedUsername r' = username"
      show "triple (disk I) (bnd (if ar_CachedUsername r \<noteq> username then bnd (nowMs E) (\<lambda>now. let r' = r\<lparr>ar_CachedUsername := username, ar_UpdatedAtMs := now\<rparr> in
               bnd (on_accounts (writeRecord E n r')) (\<lambda>_. ret r')) else ret r)
             (\<lambda>r'. bnd (lift_sum (account_toCore (env_lib E) r')) (\<lambda>a. ret (Some a)))) (?Q (n # ns)) ?R"
      proof (rule triple_bnd [where Q = ?M])
        have W: "triple (disk I) (bnd (on_accounts (writeRecord E n (r\<lparr>ar_CachedUsername := username, ar_UpdatedAtMs := now\<rparr>)))
            (\<lambda>_. ret (r\<lparr>ar_CachedUsername := username, ar_UpdatedAtMs := now\<rparr>))) ?M ?R" for now
        proof (rule triple_seq [OF accts.write_disk [OF nt]])
          have X: "put_acc n (r\<lparr>ar_CachedUsername := username, ar_UpdatedAtMs := now\<rparr>) I \<in> refreshed I depStr uidStr username"
            using v b nt by (auto simp: refreshed_def)
          then show "(\<exists>c. e = storeUnavailable c) \<and> (disk I s \<or> disk (im_acc_update (\<lambda>V. V(n \<mapsto> NFile (Some (r\<lparr>ar_CachedUsername := username, ar_UpdatedAtMs := now\<rparr>)))) I) s)
            \<Longrightarrow> disk I s \<or> becomes (refreshed I depStr uidStr username) s" for e s
            by (auto simp: becomes_def put_acc_def)
          show "triple (disk (im_acc_update (\<lambda>V. V(n \<mapsto> NFile (Some (r\<lparr>ar_CachedUsername := username, ar_UpdatedAtMs := now\<rparr>)))) I))
             (ret (r\<lparr>ar_CachedUsername := username, ar_UpdatedAtMs := now\<rparr>)) ?M ?R" for a
            using X b by (intro triple_pure) (auto simp: put_acc_def bound_to_def)
        qed
        show "triple (disk I) (if ar_CachedUsername r \<noteq> username then bnd (nowMs E) (\<lambda>now. let r' = r\<lparr>ar_CachedUsername := username, ar_UpdatedAtMs := now\<rparr> in
               bnd (on_accounts (writeRecord E n r')) (\<lambda>_. ret r')) else ret r) ?M ?R"
        proof (rule triple_if)
          show "triple (disk I) (bnd (nowMs E) (\<lambda>now. let r' = r\<lparr>ar_CachedUsername := username, ar_UpdatedAtMs := now\<rparr> in
               bnd (on_accounts (writeRecord E n r')) (\<lambda>_. ret r'))) ?M ?R"
            unfolding Let_def by (rule triple_bnd [OF tick_disk(1)]) (rule W)
        qed (use v b in \<open>auto intro!: triple_pure\<close>)
        show "triple (?M r') (bnd (lift_sum (account_toCore (env_lib E) r')) (\<lambda>a. ret (Some a))) (?Q (n # ns)) ?R" for r'
          by (auto simp: triple_def bnd_def found_account_def becomes_def split: sum.splits)
      qed
    qed
  qed
qed (auto intro: triple_pure)

definition enrolled :: "env \<Rightarrow> image \<Rightarrow> uuid \<Rightarrow> uuid \<Rightarrow> string \<Rightarrow> Account \<Rightarrow> image \<Rightarrow> bool" where
  "enrolled E I dep user username a J \<longleftrightarrow>
     (\<forall>n r. HasSuffix n ''.json'' \<longrightarrow> im_acc I n = Some (NFile (Some r)) \<longrightarrow>
        \<not> bound_to (uuid_String (env_lib E) dep) (uuid_String (env_lib E) user) r)
     \<and> (\<exists>i now. i \<in> range (env_uuid E) \<and> a = \<lparr>acct_ID = i, acct_DeploymentID = dep, acct_Label = username, acct_CoderUserID = Some user,
               acct_CachedUsername = username, acct_BindOnFirstToken = False, acct_Enabled = True\<rparr>
        \<and> J = put_acc (acct_name E i) (accountToRecord (env_lib E) a now now) I)"

abbreviation enroll_images :: "env \<Rightarrow> image \<Rightarrow> uuid \<Rightarrow> uuid \<Rightarrow> string \<Rightarrow> image set" where
  "enroll_images E I dep user username \<equiv>
     refreshed I (uuid_String (env_lib E) dep) (uuid_String (env_lib E) user) username \<union> {J. \<exists>a. enrolled E I dep user username a J}"

lemma LookupOrCreate_disk:
  "triple (disk I) (LookupOrCreateAccountByCoderID E c dep user username)
     (\<lambda>(a, created) s. if created then \<exists>J. disk J s \<and> enrolled E I dep user username a J
        else found_account E I (uuid_String (env_lib E) dep) (uuid_String (env_lib E) user) username a s)
     (\<lambda>_ s. disk I s \<or> becomes (enroll_images E I dep user username) s)"
  unfolding LookupOrCreateAccountByCoderID_def acct_name_def [symmetric]
proof (rule triple_guard, simp, rule triple_seq [OF checkOpen_disk], simp, rule triple_fact,
    rule triple_seq [OF accts.scan_disk], simp, rule triple_fact)
  fix es assume js: "set (jsonNames es) = {n. HasSuffix n ''.json'' \<and> (\<exists>c. im_acc I n = Some (NFile c))}"
  then have nt: "\<forall>n\<in>set (jsonNames es). \<not> is_tmp n" by (auto dest: HasSuffix_json_not_tmp)
  let ?d = "uuid_String (env_lib E) dep" and ?u = "uuid_String (env_lib E) user"
  let ?R = "\<lambda>_ s. disk I s \<or> becomes (enroll_images E I dep user username) s"
  let ?Q = "\<lambda>(a, created) s. if created then \<exists>J. disk J s \<and> enrolled E I dep user username a J
        else found_account E I ?d ?u username a s"
  let ?mk = "\<lambda>i. \<lparr>acct_ID = i, acct_DeploymentID = dep, acct_Label = username, acct_CoderUserID = Some user,
               acct_CachedUsername = username, acct_BindOnFirstToken = False, acct_Enabled = True\<rparr>"
  have mk: "triple (disk I) (bnd (uuid_New E) (\<lambda>i. bnd (nowMs E) (\<lambda>now.
       bnd (on_accounts (writeRecord E (acct_name E i) (accountToRecord (env_lib E) (?mk i) now now))) (\<lambda>_. ret (?mk i, True))))) ?Q ?R"
    if none: "\<forall>n\<in>set (jsonNames es). \<forall>r. im_acc I n = Some (NFile (Some r)) \<longrightarrow> \<not> bound_to ?d ?u r"
  proof (rule triple_bnd [OF uuid_New_disk], rule triple_fact, rule triple_bnd [OF tick_disk(1)], rule triple_seq [OF accts.write_disk])
    fix i now assume i: "i \<in> range (env_uuid E)"
    have N: "\<forall>n r. HasSuffix n ''.json'' \<longrightarrow> im_acc I n = Some (NFile (Some r)) \<longrightarrow> \<not> bound_to ?d ?u r"
      using none js by auto
    have e: "enrolled E I dep user username (?mk i) (put_acc (acct_name E i) (accountToRecord (env_lib E) (?mk i) now now) I)"
      unfolding enrolled_def using N i by blast
    then show "(\<exists>c. e = storeUnavailable c) \<and> (disk I s \<or> disk (im_acc_update (\<lambda>V. V(acct_name E i \<mapsto> NFile (Some (accountToRecord (env_lib E) (?mk i) now now)))) I) s)
      \<Longrightarrow> disk I s \<or> becomes (enroll_images E I dep user username) s" for e s
      by (auto simp: becomes_def put_acc_def)
    show "triple (disk (im_acc_update (\<lambda>V. V(acct_name E i \<mapsto> NFile (Some (accountToRecord (env_lib E) (?mk i) now now)))) I))
       (ret (?mk i, True)) ?Q ?R" for a
      using e by (intro triple_pure) (auto simp: put_acc_def)
  qed simp
  show "triple (disk I) (bnd (lookupByCoderIDLoop E ?d ?u username (jsonNames es)) (\<lambda>found. case found of
       None \<Rightarrow> bnd (uuid_New E) (\<lambda>i. bnd (nowMs E) (\<lambda>now. let a = ?mk i in
         bnd (on_accounts (writeRecord E (acct_name E i) (accountToRecord (env_lib E) a now now))) (\<lambda>_. ret (a, True))))
     | Some a \<Rightarrow> ret (a, False))) ?Q ?R"
    unfolding Let_def
  proof (rule triple_seq [OF lookupByCoderIDLoop_disk [OF nt]])
    show "disk I s \<or> becomes (refreshed I ?d ?u username) s \<Longrightarrow> ?R e s" for e s by (auto simp: becomes_def)
    fix x
    show "triple (\<lambda>s. case x of None \<Rightarrow> disk I s \<and> (\<forall>n\<in>set (jsonNames es). \<forall>r. im_acc I n = Some (NFile (Some r)) \<longrightarrow> \<not> bound_to ?d ?u r)
         | Some a \<Rightarrow> found_account E I ?d ?u username a s)
       (case x of None \<Rightarrow> bnd (uuid_New E) (\<lambda>i. bnd (nowMs E) (\<lambda>now.
         bnd (on_accounts (writeRecord E (acct_name E i) (accountToRecord (env_lib E) (?mk i) now now))) (\<lambda>_. ret (?mk i, True))))
        | Some a \<Rightarrow> ret (a, False)) ?Q ?R"
    proof (cases x)
      case None
      show ?thesis unfolding None option.case by (rule triple_fact) (rule mk)
    qed (auto intro!: triple_pure)
  qed
qed


section \<open>Keys\<close>

definition key_added :: "env \<Rightarrow> uuid \<Rightarrow> pubkey \<Rightarrow> string \<Rightarrow> keyRecord \<Rightarrow> image \<Rightarrow> image \<Rightarrow> bool" where
  "key_added E a k label r I J \<longleftrightarrow> (let L = env_lib E; n = keyFileName L (pk_Marshal k) in
     \<not> pk_isCert k \<and> (\<exists>q. im_acc I (acct_name E a) = Some (NFile (Some q))) \<and> im_key I n = None
     \<and> (\<exists>i now. r = \<lparr>kr_ID = uuid_String L i, kr_AccountID = uuid_String L a, kr_KeyDigestSHA256 = sha256_Sum L (pk_Marshal k),
           kr_PublicKeyBlob = pk_Marshal k, kr_Algorithm = pk_Type k, kr_Fingerprint = pk_Fingerprint k, kr_Label = label,
           kr_Enabled = True, kr_CreatedAtMs = now, kr_LastUsedAtMs = None\<rparr>)
     \<and> J = put_key n r I)"

lemma AddKey_disk:
  "triple (disk I) (AddKey E a k label)
     (\<lambda>x s. \<exists>r J. disk J s \<and> key_added E a k label r I J \<and> x = key_toCore (env_lib E) r)
     (\<lambda>_ s. disk I s \<or> becomes {J. \<exists>r. key_added E a k label r I J} s)"
  unfolding AddKey_def Let_def
proof (rule triple_guard, simp, rule triple_seq [OF checkOpen_disk], simp, rule triple_fact,
    rule triple_seq [OF getAccountLocked_disk], simp, rule triple_fact, rule triple_bnd [OF keys.attempt_stat_disk], simp, rule triple_fact)
  fix acct and x :: "serror + unit"
  let ?n = "keyFileName (env_lib E) (pk_Marshal k)"
  let ?r = "\<lambda>i now. \<lparr>kr_ID = uuid_String (env_lib E) i, kr_AccountID = uuid_String (env_lib E) a,
      kr_KeyDigestSHA256 = sha256_Sum (env_lib E) (pk_Marshal k), kr_PublicKeyBlob = pk_Marshal k, kr_Algorithm = pk_Type k,
      kr_Fingerprint = pk_Fingerprint k, kr_Label = label, kr_Enabled = True, kr_CreatedAtMs = now, kr_LastUsedAtMs = None\<rparr>"
  let ?R = "\<lambda>_ s. disk I s \<or> becomes {J. \<exists>r. key_added E a k label r I J} s"
  let ?Q = "\<lambda>x s. \<exists>r J. disk J s \<and> key_added E a k label r I J \<and> x = key_toCore (env_lib E) r"
  assume pre: "\<not> pk_isCert k" "\<exists>r. im_acc I (acct_name E a) = Some (NFile (Some r)) \<and> account_toCore (env_lib E) r = Inr acct"
    and c: "case x of Inr _ \<Rightarrow> im_key I ?n \<noteq> None | Inl e \<Rightarrow> e = RawErr FsNotExist \<and> im_key I ?n = None \<or> e = RawErr FsIO"
  have W: "triple (disk I) (bnd (uuid_New E) (\<lambda>i. bnd (nowMs E) (\<lambda>now. bnd (on_keys (writeRecord E ?n (?r i now)))
      (\<lambda>_. ret (key_toCore (env_lib E) (?r i now)))))) ?Q ?R" if none: "im_key I ?n = None"
  proof (rule triple_bnd [OF tick_disk(2)], rule triple_bnd [OF tick_disk(1)], rule triple_seq [OF keys.write_disk])
    fix i now
    have ka: "key_added E a k label (?r i now) I (put_key ?n (?r i now) I)"
      using pre none unfolding key_added_def Let_def by blast
    then show "(\<exists>c. e = storeUnavailable c) \<and> (disk I s \<or> disk (im_key_update (\<lambda>V. V(?n \<mapsto> NFile (Some (?r i now)))) I) s) \<Longrightarrow> ?R e s" for e s
      by (auto simp: becomes_def put_key_def)
    show "triple (disk (im_key_update (\<lambda>V. V(?n \<mapsto> NFile (Some (?r i now)))) I)) (ret (key_toCore (env_lib E) (?r i now))) ?Q ?R" for u
      using ka by (intro triple_pure) (auto simp: put_key_def)
  qed simp
  show "triple (disk I) (bnd (case x of Inl e \<Rightarrow> guard (errIs e FsNotExist) (storeUnavailable (cause_of e))
        | Inr _ \<Rightarrow> raise (StoreError STORE_UNAVAILABLE (Sent ErrDuplicateKey)))
      (\<lambda>_. bnd (uuid_New E) (\<lambda>i. bnd (nowMs E) (\<lambda>now. bnd (on_keys (writeRecord E ?n (?r i now)))
      (\<lambda>_. ret (key_toCore (env_lib E) (?r i now))))))) ?Q ?R"
  proof (rule triple_bnd [where Q = "\<lambda>_ s. disk I s \<and> im_key I ?n = None"])
    show "triple (disk I) (case x of Inl e \<Rightarrow> guard (errIs e FsNotExist) (storeUnavailable (cause_of e))
        | Inr _ \<Rightarrow> raise (StoreError STORE_UNAVAILABLE (Sent ErrDuplicateKey))) (\<lambda>_ s. disk I s \<and> im_key I ?n = None) ?R"
      using c by (cases x) (auto simp: errIs_def intro!: triple_pure)
  qed (rule triple_fact, rule W)
qed

lemma findKeyLoop_disk:
  assumes "\<forall>n\<in>set ns. HasSuffix n ''.json''"
  shows "triple (disk I) (findKeyLoop E kid ns)
    (\<lambda>(n, r) s. disk I s \<and> HasSuffix n ''.json'' \<and> im_key I n = Some (NFile (Some r)) \<and> kr_ID r = uuid_String (env_lib E) kid)
    (\<lambda>_. disk I)"
  using assms
proof (induction ns)
  case (Cons n ns)
  then have nt: "\<not> is_tmp n" by (auto dest: HasSuffix_json_not_tmp)
  have IH: "triple (disk I) (findKeyLoop E kid ns)
    (\<lambda>(n, r) s. disk I s \<and> HasSuffix n ''.json'' \<and> im_key I n = Some (NFile (Some r)) \<and> kr_ID r = uuid_String (env_lib E) kid)
    (\<lambda>_. disk I)" using Cons by simp
  show ?case
    unfolding findKeyLoop.simps
    by (rule triple_seq [OF keys.read_disk [OF nt]], simp, rule triple_fact, rule triple_if)
      (use Cons.prems IH in \<open>auto intro!: triple_pure\<close>)
qed (auto intro: triple_pure)

lemma findKeyByID_disk:
  "triple (disk I) (findKeyByID E kid)
    (\<lambda>(n, r) s. disk I s \<and> HasSuffix n ''.json'' \<and> im_key I n = Some (NFile (Some r)) \<and> kr_ID r = uuid_String (env_lib E) kid)
    (\<lambda>_. disk I)"
  unfolding findKeyByID_def
  by (rule triple_bnd [OF keys.scan_disk], rule triple_fact, rule findKeyLoop_disk) auto

definition key_put :: "env \<Rightarrow> uuid \<Rightarrow> (keyRecord \<Rightarrow> int \<Rightarrow> keyRecord) \<Rightarrow> image \<Rightarrow> image set" where
  "key_put E kid F I = {put_key n (F r now) I | n r now. HasSuffix n ''.json'' \<and> im_key I n = Some (NFile (Some r))
     \<and> kr_ID r = uuid_String (env_lib E) kid}"

lemma SetKeyEnabled_disk:
  defines "F \<equiv> \<lambda>b r (now::int). r\<lparr>kr_Enabled := b\<rparr>"
  shows "triple (disk I) (SetKeyEnabled E kid b) (\<lambda>_. becomes (key_put E kid (F b) I))
    (\<lambda>_ s. disk I s \<or> becomes (key_put E kid (F b) I) s)"
  unfolding SetKeyEnabled_def
proof (rule triple_seq [OF checkOpen_disk], simp, rule triple_fact, rule triple_seq [OF findKeyByID_disk], simp, clarify, rule triple_fact)
  fix n r assume "HasSuffix n ''.json'' \<and> im_key I n = Some (NFile (Some r)) \<and> kr_ID r = uuid_String (env_lib E) kid"
  then show "triple (disk I) (on_keys (writeRecord E n (r\<lparr>kr_Enabled := b\<rparr>))) (\<lambda>_. becomes (key_put E kid (F b) I))
      (\<lambda>_ s. disk I s \<or> becomes (key_put E kid (F b) I) s)"
    by (intro write_key_becomes) (auto simp: key_put_def F_def HasSuffix_json_not_tmp)
qed

lemma TouchKeyLastUsed_disk:
  defines "F \<equiv> \<lambda>r now. r\<lparr>kr_LastUsedAtMs := Some now\<rparr>"
  shows "triple (disk I) (TouchKeyLastUsed E kid) (\<lambda>_. becomes (key_put E kid F I))
    (\<lambda>_ s. disk I s \<or> becomes (key_put E kid F I) s)"
  unfolding TouchKeyLastUsed_def
proof (rule triple_seq [OF checkOpen_disk], simp, rule triple_fact, rule triple_seq [OF findKeyByID_disk], simp, clarify, rule triple_fact,
    rule triple_bnd [OF tick_disk(1)])
  fix n r now assume "HasSuffix n ''.json'' \<and> im_key I n = Some (NFile (Some r)) \<and> kr_ID r = uuid_String (env_lib E) kid"
  then show "triple (disk I) (on_keys (writeRecord E n (r\<lparr>kr_LastUsedAtMs := Some now\<rparr>))) (\<lambda>_. becomes (key_put E kid F I))
      (\<lambda>_ s. disk I s \<or> becomes (key_put E kid F I) s)"
    by (intro write_key_becomes) (auto simp: key_put_def F_def HasSuffix_json_not_tmp)
qed

text \<open>Deleting one key: only a key of that account, under its own file name.\<close>

definition key_dropped :: "env \<Rightarrow> uuid \<Rightarrow> uuid \<Rightarrow> image \<Rightarrow> image set" where
  "key_dropped E a kid I = {im_key_update (\<lambda>V. V(n := None)) I | n r. im_key I n = Some (NFile (Some r))
     \<and> kr_ID r = uuid_String (env_lib E) kid \<and> kr_AccountID r = uuid_String (env_lib E) a}"

lemma DeleteKey_disk:
  "triple (disk I) (DeleteKey E a kid) (\<lambda>_. becomes (key_dropped E a kid I)) (\<lambda>_ s. disk I s \<or> becomes (key_dropped E a kid I) s)"
  unfolding DeleteKey_def
proof (rule triple_seq [OF checkOpen_disk], simp, rule triple_fact, rule triple_seq [OF findKeyByID_disk], simp, clarify, rule triple_fact,
    rule triple_guard, simp, rule triple_guard, simp)
  fix n r assume "HasSuffix n ''.json'' \<and> im_key I n = Some (NFile (Some r)) \<and> kr_ID r = uuid_String (env_lib E) kid"
    and "kr_AccountID r = uuid_String (env_lib E) a" and "keyFileName (env_lib E) (kr_PublicKeyBlob r) = n"
  then show "triple (disk I) (on_keys (deleteRecordDurably E n)) (\<lambda>_. becomes (key_dropped E a kid I))
     (\<lambda>_ s. disk I s \<or> becomes (key_dropped E a kid I) s)"
    by (intro triple_weaken [OF keys.delete_disk]) (auto simp: becomes_def key_dropped_def)
qed


section \<open>Deleting an account\<close>

text \<open>\<open>cut_from a V K\<close>: the view \<open>K\<close> of the key directory lacks some keys of the account and nothing else.\<close>

definition owned :: "env \<Rightarrow> uuid \<Rightarrow> keyRecord fnode option \<Rightarrow> bool" where
  "owned E a x \<longleftrightarrow> (\<exists>r. x = Some (NFile (Some r)) \<and> kr_AccountID r = uuid_String (env_lib E) a)"

definition cut_from :: "env \<Rightarrow> uuid \<Rightarrow> (string \<Rightarrow> keyRecord fnode option) \<Rightarrow> (string \<Rightarrow> keyRecord fnode option) \<Rightarrow> bool" where
  "cut_from E a V K \<longleftrightarrow> (\<forall>n. K n = V n \<or> K n = None \<and> owned E a (V n))"

definition keyless :: "env \<Rightarrow> uuid \<Rightarrow> (string \<Rightarrow> keyRecord fnode option) \<Rightarrow> bool" where
  "keyless E a K \<longleftrightarrow> (\<forall>n. HasSuffix n ''.json'' \<longrightarrow> \<not> owned E a (K n))"

lemma deleteKeysLoop_disk:
  assumes "\<forall>n\<in>set ns. \<not> is_tmp n" "cut_from E a (im_key I) K"
  shows "triple (disk (I\<lparr>im_key := K\<rparr>)) (deleteKeysLoop E a ns)
    (\<lambda>_ s. \<exists>K'. disk (I\<lparr>im_key := K'\<rparr>) s \<and> cut_from E a (im_key I) K' \<and> cut_from E a K K' \<and> (\<forall>n\<in>set ns. \<not> owned E a (K' n)))
    (\<lambda>_ s. \<exists>K'. disk (I\<lparr>im_key := K'\<rparr>) s \<and> cut_from E a (im_key I) K')"
  using assms
proof (induction ns arbitrary: K)
  case Nil
  show ?case unfolding deleteKeysLoop.simps
    by (rule triple_pure(1), rule exI [of _ K]) (use Nil in \<open>auto simp: cut_from_def\<close>)
next
  case (Cons n ns)
  let ?J = "I\<lparr>im_key := K\<rparr>"
  let ?Q = "\<lambda>_ s. \<exists>K'. disk (I\<lparr>im_key := K'\<rparr>) s \<and> cut_from E a (im_key I) K' \<and> cut_from E a K K' \<and> (\<forall>m\<in>set (n # ns). \<not> owned E a (K' m))"
  let ?R = "\<lambda>_ s. \<exists>K'. disk (I\<lparr>im_key := K'\<rparr>) s \<and> cut_from E a (im_key I) K'"
  have nt: "\<not> is_tmp n" and nts: "\<forall>m\<in>set ns. \<not> is_tmp m" using Cons.prems by auto
  show ?case
    unfolding deleteKeysLoop.simps
  proof (rule triple_seq [OF keys.read_disk [OF nt]])
    show "disk ?J s \<and> read_err (im_key ?J n) e \<Longrightarrow> ?R e s" for e s using Cons.prems(2) by auto
    fix r
    show "triple (\<lambda>s. disk ?J s \<and> im_key ?J n = Some (NFile (Some r)))
       (if kr_AccountID r \<noteq> uuid_String (env_lib E) a then deleteKeysLoop E a ns
        else bnd (on_keys (deleteRecordDurably E n)) (\<lambda>_. deleteKeysLoop E a ns)) ?Q ?R"
    proof (rule triple_fact, rule triple_if)
      assume v: "im_key ?J n = Some (NFile (Some r))" and o: "kr_AccountID r \<noteq> uuid_String (env_lib E) a"
      then have "\<not> owned E a (K n)" by (auto simp: owned_def)
      then have "\<not> owned E a (K' n)" if "cut_from E a K K'" for K'
        using that by (metis cut_from_def owned_def option.distinct(1))
      then show "triple (disk ?J) (deleteKeysLoop E a ns) ?Q ?R"
        by (intro triple_weaken [OF Cons.IH [OF nts Cons.prems(2)]]) auto
    next
      assume v: "im_key ?J n = Some (NFile (Some r))" and o: "\<not> kr_AccountID r \<noteq> uuid_String (env_lib E) a"
      let ?K = "K(n := None)"
      have ow: "owned E a (K n)" using v o by (auto simp: owned_def)
      moreover have "im_key I n = K n" using ow Cons.prems(2) by (metis cut_from_def owned_def option.distinct(1))
      ultimately have c: "cut_from E a (im_key I) ?K" using Cons.prems(2) by (auto simp: cut_from_def)
      have J: "im_key_update (\<lambda>V. V(n := None)) ?J = I\<lparr>im_key := ?K\<rparr>" by simp
      show "triple (disk ?J) (bnd (on_keys (deleteRecordDurably E n)) (\<lambda>_. deleteKeysLoop E a ns)) ?Q ?R"
      proof (rule triple_seq [OF keys.delete_disk [OF nt]])
        show "(\<exists>c. e = storeUnavailable c) \<and> (disk ?J s \<or> disk (im_key_update (\<lambda>V. V(n := None)) ?J) s) \<Longrightarrow> ?R e s" for e s
          using c Cons.prems(2) unfolding J by blast
        have k: "cut_from E a K K' \<and> \<not> owned E a (K' n)" if "cut_from E a ?K K'" for K'
          using that ow unfolding cut_from_def by (metis fun_upd_apply owned_def option.distinct(1))
        show "triple (disk (im_key_update (\<lambda>V. V(n := None)) ?J)) (deleteKeysLoop E a ns) ?Q ?R" for u
        proof (unfold J, rule triple_weaken [OF Cons.IH [OF nts c]])
          show "?Q v s" if "\<exists>K'. disk (I\<lparr>im_key := K'\<rparr>) s \<and> cut_from E a (im_key I) K' \<and> cut_from E a ?K K'
              \<and> (\<forall>n\<in>set ns. \<not> owned E a (K' n))" for v s
            using that k by auto
        qed (auto simp: fun_upd_def)
      qed
    qed
  qed
qed

text \<open>The images a deletion can leave: keys go first, then the credential, then the account.\<close>

definition deleting :: "env \<Rightarrow> uuid \<Rightarrow> image \<Rightarrow> image set" where
  "deleting E a I = {J. \<exists>K C A. J = I\<lparr>im_key := K, im_cred := C, im_acc := A\<rparr> \<and> cut_from E a (im_key I) K
     \<and> (C = im_cred I \<or> C = (im_cred I)(acct_name E a := None) \<and> keyless E a K)
     \<and> (A = im_acc I \<or> A = (im_acc I)(acct_name E a := None) \<and> keyless E a K \<and> C (acct_name E a) = None)}"

definition deleted :: "env \<Rightarrow> uuid \<Rightarrow> image \<Rightarrow> image set" where
  "deleted E a I = {J. J \<in> deleting E a I \<and> keyless E a (im_key J) \<and> im_cred J (acct_name E a) = None \<and> im_acc J (acct_name E a) = None}"

lemma deleting_refl [simp]: "I \<in> deleting E a I"
  unfolding deleting_def by (auto intro!: exI [of _ "im_key I"] exI [of _ "im_cred I"] exI [of _ "im_acc I"] simp: cut_from_def)

lemma deleting_key:
  "cut_from E a (im_key I) K \<Longrightarrow> I\<lparr>im_key := K\<rparr> \<in> deleting E a I"
  unfolding deleting_def by (auto intro!: exI [of _ K] exI [of _ "im_cred I"] exI [of _ "im_acc I"])

lemma delete_tail_disk:
  assumes cut: "cut_from E a (im_key I) K" and kl: "keyless E a K"
  shows "triple (disk (I\<lparr>im_key := K\<rparr>))
    (bnd (attempt (on_credentials (os_Stat E (acct_name E a)))) (\<lambda>r.
     bnd (case r of Inr _ \<Rightarrow> on_credentials (deleteRecordDurably E (acct_name E a))
          | Inl e \<Rightarrow> guard (errIs e FsNotExist) (storeUnavailable (cause_of e))) (\<lambda>_.
     on_accounts (deleteRecordDurably E (acct_name E a)))))
    (\<lambda>_. becomes (deleted E a I)) (\<lambda>_. becomes (deleting E a I))"
proof (rule triple_bnd [OF creds.attempt_stat_disk])
  let ?J = "I\<lparr>im_key := K\<rparr>" and ?n = "acct_name E a"
  let ?C = "(im_cred I)(?n := None)"
  let ?M = "?J\<lparr>im_cred := ?C\<rparr>"
  let ?R = "\<lambda>_. becomes (deleting E a I)"
  have JM: "im_cred_update (\<lambda>V. V(?n := None)) ?J = ?M" by (cases I) simp
  have MA: "im_acc_update (\<lambda>V. V(?n := None)) ?M = ?M\<lparr>im_acc := (im_acc I)(?n := None)\<rparr>" by (cases I) simp
  have del: "I\<lparr>im_key := K, im_cred := C, im_acc := A\<rparr> \<in> deleting E a I"
    if "C = im_cred I \<or> C = ?C" "A = im_acc I \<or> A = (im_acc I)(?n := None) \<and> C ?n = None" for C A
    using that cut kl unfolding deleting_def by blast
  have J: "?J \<in> deleting E a I" using del [of "im_cred I" "im_acc I"] by simp
  have M: "?M \<in> deleting E a I" using del [of ?C "im_acc I"] by simp
  fix r :: "serror + unit"
  show "triple (\<lambda>s. disk ?J s \<and> (case r of Inr _ \<Rightarrow> im_cred ?J ?n \<noteq> None
       | Inl e \<Rightarrow> e = RawErr FsNotExist \<and> im_cred ?J ?n = None \<or> e = RawErr FsIO))
    (bnd (case r of Inr _ \<Rightarrow> on_credentials (deleteRecordDurably E ?n) | Inl e \<Rightarrow> guard (errIs e FsNotExist) (storeUnavailable (cause_of e)))
      (\<lambda>_. on_accounts (deleteRecordDurably E ?n))) (\<lambda>_. becomes (deleted E a I)) ?R"
  proof (rule triple_fact, rule triple_bnd [where Q = "\<lambda>_. disk ?M"])
    assume c: "case r of Inr _ \<Rightarrow> im_cred ?J ?n \<noteq> None | Inl e \<Rightarrow> e = RawErr FsNotExist \<and> im_cred ?J ?n = None \<or> e = RawErr FsIO"
    have same: "?M = ?J" if "im_cred I ?n = None" using that by (simp add: fun_upd_idem)
    have "triple (disk ?J) (on_credentials (deleteRecordDurably E ?n)) (\<lambda>_. disk ?M) ?R"
      by (rule triple_weaken [OF creds.delete_disk]) (use J M in \<open>auto simp: JM intro: becomesI\<close>)
    then show "triple (disk ?J) (case r of Inr _ \<Rightarrow> on_credentials (deleteRecordDurably E ?n)
        | Inl e \<Rightarrow> guard (errIs e FsNotExist) (storeUnavailable (cause_of e))) (\<lambda>_. disk ?M) ?R"
      using c same by (cases r) (auto simp: errIs_def intro!: triple_pure becomesI [OF _ J])
    have "im_acc_update (\<lambda>V. V(?n := None)) ?M \<in> deleting E a I"
      unfolding MA using del [of ?C "(im_acc I)(?n := None)"] by simp
    moreover then have "im_acc_update (\<lambda>V. V(?n := None)) ?M \<in> deleted E a I" using kl by (simp add: deleted_def)
    ultimately show "triple (disk ?M) (on_accounts (deleteRecordDurably E ?n)) (\<lambda>_. becomes (deleted E a I)) ?R" for u
      by (intro triple_weaken [OF accts.delete_disk]) (use M in \<open>auto intro: becomesI\<close>)
  qed
qed simp

lemma DeleteAccount_disk:
  "triple (disk I) (DeleteAccount E a) (\<lambda>_ s. becomes (deleted E a I) s \<and> im_acc I (acct_name E a) \<noteq> None)
     (\<lambda>_. becomes (deleting E a I))"
  unfolding DeleteAccount_def Let_def acct_name_def [symmetric]
proof (rule triple_seq [OF checkOpen_disk], blast intro: becomesI deleting_refl, rule triple_fact,
    rule triple_seq [OF getAccountLocked_disk], blast intro: becomesI deleting_refl, rule triple_fact,
    rule triple_seq [OF keys.scan_disk], blast intro: becomesI deleting_refl, rule triple_fact)
  fix acct es
  assume ex: "\<exists>r. im_acc I (acct_name E a) = Some (NFile (Some r)) \<and> account_toCore (env_lib E) r = Inr acct"
    and js: "set (jsonNames es) = {n. HasSuffix n ''.json'' \<and> (\<exists>c. im_key I n = Some (NFile c))}"
  then have nt: "\<forall>n\<in>set (jsonNames es). \<not> is_tmp n" by (auto dest: HasSuffix_json_not_tmp)
  have I: "I\<lparr>im_key := im_key I\<rparr> = I" and c: "cut_from E a (im_key I) (im_key I)" by (simp_all add: cut_from_def)
  have kl: "keyless E a K" if "cut_from E a (im_key I) K" "\<forall>n\<in>set (jsonNames es). \<not> owned E a (K n)" for K
    unfolding keyless_def
  proof (intro allI impI notI)
    fix n assume "HasSuffix n ''.json''" "owned E a (K n)"
    moreover then have "im_key I n = K n" using that(1) by (metis cut_from_def owned_def option.distinct(1))
    ultimately show False using that(2) js by (auto simp: owned_def)
  qed
  note loop = deleteKeysLoop_disk [OF nt c, unfolded I]
  show "triple (disk I) (bnd (deleteKeysLoop E a (jsonNames es)) (\<lambda>_.
     bnd (attempt (on_credentials (os_Stat E (acct_name E a)))) (\<lambda>r.
     bnd (case r of Inr _ \<Rightarrow> on_credentials (deleteRecordDurably E (acct_name E a))
          | Inl e \<Rightarrow> guard (errIs e FsNotExist) (storeUnavailable (cause_of e))) (\<lambda>_.
     on_accounts (deleteRecordDurably E (acct_name E a))))))
    (\<lambda>_ s. becomes (deleted E a I) s \<and> im_acc I (acct_name E a) \<noteq> None) (\<lambda>_. becomes (deleting E a I))"
  proof (rule triple_seq [OF loop])
    show "\<exists>K'. disk (I\<lparr>im_key := K'\<rparr>) s \<and> cut_from E a (im_key I) K' \<Longrightarrow> becomes (deleting E a I) s" for s
      by (auto intro: becomesI deleting_key)
  qed (rule triple_ex, rule triple_fact, rule triple_weaken [OF delete_tail_disk], use kl ex in auto)
qed

end
