(* ===== verification/CredOps.thy ===== *)
theory CredOps
  imports StoreOps
begin

text \<open>
  The outcome of the credential operations on the image of the store, and the value a load returns as a function
  of the image.
\<close>

section \<open>The stored record\<close>

definition cred_at :: "env \<Rightarrow> image \<Rightarrow> uuid \<Rightarrow> CredentialRecord \<times> bool \<Rightarrow> bool" where
  "cred_at E I i x \<longleftrightarrow> (if snd x then im_cred I (acct_name E i) = Some (NFile (Some (fst x)))
     else im_cred I (acct_name E i) = None \<and> fst x = missing_record (env_lib E) i)"

lemma loadCredentialRecord_disk:
  "triple (disk I) (loadCredentialRecordLocked E i) (\<lambda>x s. disk I s \<and> cred_at E I i x) (\<lambda>_. disk I)"
  unfolding loadCredentialRecordLocked_def acct_name_def [symmetric]
proof (rule triple_bnd [OF creds.attempt_read_disk], simp, rule triple_fact)
  fix r assume "read_result (im_cred I (acct_name E i)) r"
  then show "triple (disk I) (case r of Inl e \<Rightarrow> if errIs e FsNotExist then ret (missing_record (env_lib E) i, False) else raise e
      | Inr rec \<Rightarrow> ret (rec, True)) (\<lambda>x s. disk I s \<and> cred_at E I i x) (\<lambda>_. disk I)"
    by (cases r) (auto simp: triple_def read_result_def read_err_def cred_at_def errIs_def storeUnavailable_def)
qed

text \<open>\<open>rec\<close> is valid if it was read from a file.\<close>

abbreviation valid_if :: "env \<Rightarrow> CredentialRecord \<times> bool \<Rightarrow> bool" where
  "valid_if E x \<equiv> snd x \<longrightarrow> validateCredentialRecord (env_lib E) (fst x) = Inr ()"

lemma validate_if_disk:
  "triple (disk I) (if snd x then lift_sum (validateCredentialRecord (env_lib E) (fst x)) else ret ())
     (\<lambda>_ s. disk I s \<and> valid_if E x) (\<lambda>_. disk I)"
  by (cases "snd x") (auto intro!: triple_lift_sum triple_pure)

section \<open>Replacing\<close>

definition binding_ok :: "Account \<Rightarrow> CoderIdentity \<Rightarrow> bool" where
  "binding_ok acct ident \<longleftrightarrow> ident_ID ident \<noteq> uuid_Nil
     \<and> (case acct_CoderUserID acct of None \<Rightarrow> acct_BindOnFirstToken acct | Some u \<Rightarrow> u = ident_ID ident)"

text \<open>What a replacement has established when it seals: the account, its binding, the generation and the key.\<close>

definition replace_ready ::
    "env \<Rightarrow> image \<Rightarrow> ReplaceCredentialRequest \<Rightarrow> Account \<Rightarrow> string \<Rightarrow> bytes \<Rightarrow> bytes \<Rightarrow> bytes \<Rightarrow> bool" where
  "replace_ready E I req acct keyID key nonce ciphertext \<longleftrightarrow>
     (\<exists>r. im_acc I (acct_name E (req_AccountID req)) = Some (NFile (Some r)) \<and> account_toCore (env_lib E) r = Inr acct)
     \<and> acct_Enabled acct \<and> binding_ok acct (req_Identity req)
     \<and> (\<exists>x. cred_at E I (req_AccountID req) x \<and> valid_if E x \<and> cr_Generation (fst x) = req_ExpectedGeneration req)
     \<and> (\<exists>kp. im_kp I = Some kp \<and> kp_ActiveKey kp = Some (keyID, key))
     \<and> (\<exists>rnd. Seal (env_aead E) rnd keyID key (req_Token req)
          (CredentialAAD (env_lib E) (acct_DeploymentID acct) (req_AccountID req) (req_ExpectedGeneration req + 1)) = Inr (nonce, ciphertext))"

definition replaced :: "env \<Rightarrow> ReplaceCredentialRequest \<Rightarrow> image \<Rightarrow> image set" where
  "replaced E req I = {put_cred (acct_name E (req_AccountID req))
       (replaced_record (env_lib E) (req_AccountID req) (req_ExpectedGeneration req + 1) keyID nonce ciphertext now) J
     | acct keyID key nonce ciphertext now J. replace_ready E I req acct keyID key nonce ciphertext
       \<and> J \<in> identity_put E (req_AccountID req) (ident_ID (req_Identity req)) (ident_Username (req_Identity req)) I}"

text \<open>The identity refreshed and the credential not yet written.\<close>

definition rebound :: "env \<Rightarrow> ReplaceCredentialRequest \<Rightarrow> image \<Rightarrow> image set" where
  "rebound E req I = {J. J \<in> identity_put E (req_AccountID req) (ident_ID (req_Identity req)) (ident_Username (req_Identity req)) I
     \<and> (\<exists>acct keyID key nonce ciphertext. replace_ready E I req acct keyID key nonce ciphertext)}"

lemma replace_tail_disk:
  assumes "uuid_lawful (env_lib E)" "replace_ready E I req acct keyID key nonce ciphertext"
  defines "rec \<equiv> replaced_record (env_lib E) (req_AccountID req) (req_ExpectedGeneration req + 1) keyID nonce ciphertext"
  shows "triple (disk I)
    (bnd (updateAccountIdentityLocked E (req_AccountID req) (ident_ID (req_Identity req)) (ident_Username (req_Identity req))) (\<lambda>_.
     bnd (nowMs E) (\<lambda>now.
     bnd (on_credentials (writeRecord E (acct_name E (req_AccountID req)) (rec now))) (\<lambda>_.
     snapshotFromRecord (env_lib E) (rec now) []))))
    (\<lambda>_. becomes (replaced E req I)) (\<lambda>_ s. disk I s \<or> becomes (rebound E req I) s \<or> becomes (replaced E req I) s)"
proof (rule triple_seq [OF triple_weaken [OF updateAccountIdentity_disk [OF assms(1)], where P' = "disk I"
        and Q' = "\<lambda>_. becomes (rebound E req I)" and R' = "\<lambda>_ s. disk I s \<or> becomes (rebound E req I) s"]], assumption)
  show "becomes (identity_put E (req_AccountID req) (ident_ID (req_Identity req)) (ident_Username (req_Identity req)) I) s
      \<Longrightarrow> becomes (rebound E req I) s" for s
    using assms(2) unfolding becomes_def rebound_def by blast
  then show "disk I s \<or> becomes (identity_put E (req_AccountID req) (ident_ID (req_Identity req)) (ident_Username (req_Identity req)) I) s
      \<Longrightarrow> disk I s \<or> becomes (rebound E req I) s" for s by blast
  let ?R = "\<lambda>_ s. disk I s \<or> becomes (rebound E req I) s \<or> becomes (replaced E req I) s"
  let ?m = "bnd (nowMs E) (\<lambda>now. bnd (on_credentials (writeRecord E (acct_name E (req_AccountID req)) (rec now)))
     (\<lambda>_. snapshotFromRecord (env_lib E) (rec now) []))"
  have snap: "triple (becomes X) (snapshotFromRecord (env_lib E) (rec now) []) (\<lambda>_. becomes X) R" for X R now
    using assms(1) by (auto simp: snapshotFromRecord_def rec_def replaced_record_def intro!: triple_pure)
  have "triple (\<lambda>s. disk J s \<and> J \<in> rebound E req I) ?m (\<lambda>_. becomes (replaced E req I)) ?R" for J
  proof (rule triple_fact, rule triple_bnd [OF tick_disk(1)])
    fix now assume J: "J \<in> rebound E req I"
    then have X: "put_cred (acct_name E (req_AccountID req)) (rec now) J \<in> replaced E req I"
      using assms(2) unfolding replaced_def rec_def rebound_def by blast
    show "triple (disk J) (bnd (on_credentials (writeRecord E (acct_name E (req_AccountID req)) (rec now)))
        (\<lambda>_. snapshotFromRecord (env_lib E) (rec now) [])) (\<lambda>_. becomes (replaced E req I)) ?R"
      by (rule triple_seq [OF write_cred_becomes [OF _ X]]) (use J in \<open>auto intro: snap becomesI\<close>)
  qed
  then have "triple (\<lambda>s. \<exists>J. disk J s \<and> J \<in> rebound E req I) ?m (\<lambda>_. becomes (replaced E req I)) ?R" by (rule triple_ex)
  then show "triple (becomes (rebound E req I)) ?m (\<lambda>_. becomes (replaced E req I)) ?R" for u
    by (rule triple_weaken) (auto simp: becomes_def)
qed blast

lemma seal_and_install_disk:
  assumes "uuid_lawful (env_lib E)"
    and "\<And>nonce ciphertext rnd. Seal (env_aead E) rnd keyID key (req_Token req)
        (CredentialAAD (env_lib E) (acct_DeploymentID acct) (req_AccountID req) (req_ExpectedGeneration req + 1)) = Inr (nonce, ciphertext)
      \<Longrightarrow> replace_ready E I req acct keyID key nonce ciphertext"
  shows "triple (disk I) (seal_and_install E req acct (req_ExpectedGeneration req + 1) keyID key)
    (\<lambda>_. becomes (replaced E req I)) (\<lambda>_ s. disk I s \<or> becomes (rebound E req I) s \<or> becomes (replaced E req I) s)"
  unfolding seal_and_install_def Let_def acct_name_def [symmetric]
  by (rule triple_bnd [OF tick_disk(3)])
    (auto intro!: triple_pure replace_tail_disk [OF assms] split: sum.splits prod.splits)

lemma keyProvider_disk:
  "triple (disk I) keyProviderLocked (\<lambda>kp s. disk I s \<and> im_kp I = Some kp) (\<lambda>_. disk I)"
  unfolding triple_def keyProviderLocked_def
  by (auto simp: bnd_def disk_def img_of_def split: option.splits)

lemma ReplaceCredential_disk:
  assumes "uuid_lawful (env_lib E)"
  shows "triple (disk I) (ReplaceCredential E c req) (\<lambda>_. becomes (replaced E req I))
    (\<lambda>_ s. disk I s \<or> becomes (rebound E req I) s \<or> becomes (replaced E req I) s)"
  unfolding ReplaceCredential_def
proof (rule triple_guard, simp, rule triple_seq [OF checkOpen_disk], simp, rule triple_fact,
    rule triple_seq [OF keyProvider_disk], simp, rule triple_fact, rule triple_seq [OF getAccountLocked_disk], simp, rule triple_fact,
    rule triple_guard, simp, rule triple_guard, simp, rule triple_guard, simp, rule triple_seq [OF loadCredentialRecord_disk], simp,
    clarify, rule triple_fact)
  fix kp acct r rec ex
  let ?R = "\<lambda>_ s. disk I s \<or> becomes (rebound E req I) s \<or> becomes (replaced E req I) s"
  assume kp: "im_kp I = Some kp"
    and ac: "im_acc I (acct_name E (req_AccountID req)) = Some (NFile (Some r))" "account_toCore (env_lib E) r = Inr acct"
    and en: "acct_Enabled acct" and nil: "ident_ID (req_Identity req) \<noteq> uuid_Nil"
    and bi: "case acct_CoderUserID acct of None \<Rightarrow> acct_BindOnFirstToken acct | Some u \<Rightarrow> u = ident_ID (req_Identity req)"
    and ca: "cred_at E I (req_AccountID req) (rec, ex)"
  show "triple (disk I) (bnd (if ex then lift_sum (validateCredentialRecord (env_lib E) rec) else ret ()) (\<lambda>_.
     bnd (guard (cr_Generation rec = req_ExpectedGeneration req) generationConflictErr) (\<lambda>_.
     case kp_ActiveKey kp of None \<Rightarrow> raise (cryptoKeyUnavailable ProviderErr)
     | Some (keyID, key) \<Rightarrow> seal_and_install E req acct (cr_Generation rec + 1) keyID key)))
     (\<lambda>_. becomes (replaced E req I)) ?R"
  proof (rule triple_seq [OF validate_if_disk [of I "(rec, ex)", unfolded fst_conv snd_conv]], simp, rule triple_fact, rule triple_guard, simp)
    assume va: "ex \<longrightarrow> validateCredentialRecord (env_lib E) rec = Inr ()" and g: "cr_Generation rec = req_ExpectedGeneration req"
    then have x: "\<exists>x. cred_at E I (req_AccountID req) x \<and> valid_if E x \<and> cr_Generation (fst x) = req_ExpectedGeneration req"
      using ca by (intro exI [of _ "(rec, ex)"]) simp
    have "triple (disk I) (seal_and_install E req acct (req_ExpectedGeneration req + 1) keyID key) (\<lambda>_. becomes (replaced E req I)) ?R"
      if "kp_ActiveKey kp = Some (keyID, key)" for keyID key
      by (rule seal_and_install_disk [OF assms])
        (use that ac en nil bi kp x in \<open>unfold replace_ready_def binding_ok_def, blast\<close>)
    then show "triple (disk I) (case kp_ActiveKey kp of None \<Rightarrow> raise (cryptoKeyUnavailable ProviderErr)
     | Some (keyID, key) \<Rightarrow> seal_and_install E req acct (cr_Generation rec + 1) keyID key) (\<lambda>_. becomes (replaced E req I)) ?R"
      unfolding g by (cases "kp_ActiveKey kp") (auto intro!: triple_pure)
  qed
qed

section \<open>Marking, clearing, re-encrypting\<close>

definition marked :: "env \<Rightarrow> uuid \<Rightarrow> int64 \<Rightarrow> string \<Rightarrow> image \<Rightarrow> image set" where
  "marked E i g reason I = {put_cred (acct_name E i) (rec\<lparr>cr_State := CredentialState_String CredentialStateInvalid,
       cr_InvalidatedAtMs := Some now, cr_LastErrorClass := Some reason, cr_UpdatedAtMs := now\<rparr>) I | rec now.
     im_cred I (acct_name E i) = Some (NFile (Some rec)) \<and> validateCredentialRecord (env_lib E) rec = Inr () \<and> cr_Generation rec = g}"

lemma MarkCredentialInvalid_disk:
  "triple (disk I) (MarkCredentialInvalid E c i g reason)
     (\<lambda>_ s. disk I s \<and> \<not> (\<exists>rec. im_cred I (acct_name E i) = Some (NFile (Some rec)) \<and> cr_Generation rec = g) \<or> becomes (marked E i g reason I) s)
     (\<lambda>_ s. disk I s \<or> becomes (marked E i g reason I) s)"
  unfolding MarkCredentialInvalid_def acct_name_def [symmetric]
proof (rule triple_guard, simp, rule triple_seq [OF checkOpen_disk], simp, rule triple_fact,
    rule triple_seq [OF loadCredentialRecord_disk], simp, clarify, rule triple_fact, rule triple_if)
  let ?Q = "\<lambda>_ s. disk I s \<and> \<not> (\<exists>rec. im_cred I (acct_name E i) = Some (NFile (Some rec)) \<and> cr_Generation rec = g) \<or> becomes (marked E i g reason I) s"
  let ?R = "\<lambda>_ s. disk I s \<or> becomes (marked E i g reason I) s"
  fix rec ex assume ca: "cred_at E I i (rec, ex)"
  show "\<not> ex \<Longrightarrow> triple (disk I) (ret ()) ?Q ?R" using ca by (auto simp: cred_at_def intro!: triple_pure)
  assume "\<not> \<not> ex"
  with ca have v: "im_cred I (acct_name E i) = Some (NFile (Some rec))" by (simp add: cred_at_def)
  show "triple (disk I) (bnd (lift_sum (validateCredentialRecord (env_lib E) rec)) (\<lambda>_. if cr_Generation rec \<noteq> g then ret ()
      else bnd (nowMs E) (\<lambda>now. on_credentials (writeRecord E (acct_name E i) (rec\<lparr>cr_State := CredentialState_String CredentialStateInvalid,
       cr_InvalidatedAtMs := Some now, cr_LastErrorClass := Some reason, cr_UpdatedAtMs := now\<rparr>))))) ?Q ?R"
  proof (rule triple_bnd [where Q = "\<lambda>_ s. disk I s \<and> validateCredentialRecord (env_lib E) rec = Inr ()"], rule triple_lift_sum, simp, simp,
      rule triple_fact, rule triple_if)
    show "cr_Generation rec \<noteq> g \<Longrightarrow> triple (disk I) (ret ()) ?Q ?R" using v by (auto intro!: triple_pure)
    assume "validateCredentialRecord (env_lib E) rec = Inr ()" "\<not> cr_Generation rec \<noteq> g"
    then show "triple (disk I) (bnd (nowMs E) (\<lambda>now. on_credentials (writeRecord E (acct_name E i)
        (rec\<lparr>cr_State := CredentialState_String CredentialStateInvalid,
       cr_InvalidatedAtMs := Some now, cr_LastErrorClass := Some reason, cr_UpdatedAtMs := now\<rparr>)))) ?Q ?R"
      by (intro triple_bnd [OF tick_disk(1)] triple_weaken [OF write_cred_becomes [where X = "marked E i g reason I"]])
        (use v in \<open>auto simp: marked_def\<close>)
  qed
qed

definition cleared :: "env \<Rightarrow> uuid \<Rightarrow> int64 \<Rightarrow> image \<Rightarrow> image set" where
  "cleared E i g I = {put_cred (acct_name E i) ((missing_record (env_lib E) i)\<lparr>cr_Generation := g + 1, cr_UpdatedAtMs := now\<rparr>) I | now.
     \<exists>x. cred_at E I i x \<and> valid_if E x \<and> cr_Generation (fst x) = g}"

lemma ClearCredential_disk:
  "triple (disk I) (ClearCredential E c i g) (\<lambda>_. becomes (cleared E i g I)) (\<lambda>_ s. disk I s \<or> becomes (cleared E i g I) s)"
  unfolding ClearCredential_def acct_name_def [symmetric]
proof (rule triple_guard, simp, rule triple_seq [OF checkOpen_disk], simp, rule triple_fact,
    rule triple_seq [OF getAccountLocked_disk], simp, rule triple_fact,
    rule triple_seq [OF loadCredentialRecord_disk], simp, clarify, rule triple_fact)
  fix rec ex assume ca: "cred_at E I i (rec, ex)"
  show "triple (disk I) (bnd (if ex then lift_sum (validateCredentialRecord (env_lib E) rec) else ret ()) (\<lambda>_.
     bnd (guard (cr_Generation rec = g) generationConflictErr) (\<lambda>_. bnd (nowMs E) (\<lambda>now. on_credentials (writeRecord E (acct_name E i)
       ((missing_record (env_lib E) i)\<lparr>cr_Generation := cr_Generation rec + 1, cr_UpdatedAtMs := now\<rparr>))))))
     (\<lambda>_. becomes (cleared E i g I)) (\<lambda>_ s. disk I s \<or> becomes (cleared E i g I) s)"
  proof (rule triple_seq [OF validate_if_disk [of I "(rec, ex)", unfolded fst_conv snd_conv]], simp, rule triple_fact, rule triple_guard, simp,
      rule triple_bnd [OF tick_disk(1)], rule write_cred_becomes)
    fix now assume "ex \<longrightarrow> validateCredentialRecord (env_lib E) rec = Inr ()" "cr_Generation rec = g"
    with ca have "\<exists>x. cred_at E I i x \<and> valid_if E x \<and> cr_Generation (fst x) = g" by (intro exI [of _ "(rec, ex)"]) simp
    then show "put_cred (acct_name E i) ((missing_record (env_lib E) i)\<lparr>cr_Generation := cr_Generation rec + 1, cr_UpdatedAtMs := now\<rparr>) I \<in> cleared E i g I"
      unfolding cleared_def \<open>cr_Generation rec = g\<close> by blast
  qed simp
qed


text \<open>One record moved to the active key: the plaintext and the associated data stay the same.\<close>

definition resealed_rec :: "env \<Rightarrow> image \<Rightarrow> keyprov \<Rightarrow> string \<Rightarrow> bytes \<Rightarrow> CredentialRecord \<Rightarrow> CredentialRecord \<Rightarrow> bool" where
  "resealed_rec E I kp aid akey rec rec' \<longleftrightarrow> (\<exists>i r acct oldKey plaintext rnd nonce ciphertext.
     validateCredentialRecord (env_lib E) rec = Inr () \<and> cr_Ciphertext rec \<noteq> []
     \<and> uuid_Parse (env_lib E) (cr_AccountID rec) = Some i
     \<and> im_acc I (acct_name E i) = Some (NFile (Some r)) \<and> account_toCore (env_lib E) r = Inr acct
     \<and> kp_Key kp (the (cr_KeyVersion rec)) = Some oldKey
     \<and> Open (env_aead E) (the (cr_KeyVersion rec)) oldKey (cr_Nonce rec) (cr_Ciphertext rec)
         (CredentialAAD (env_lib E) (acct_DeploymentID acct) i (cr_Generation rec)) = Inr plaintext
     \<and> Seal (env_aead E) rnd aid akey plaintext (CredentialAAD (env_lib E) (acct_DeploymentID acct) i (cr_Generation rec))
         = Inr (nonce, ciphertext)
     \<and> rec' = rec\<lparr>cr_KeyVersion := Some aid, cr_Nonce := nonce, cr_Ciphertext := ciphertext\<rparr>)"

definition resealed_from :: "env \<Rightarrow> image \<Rightarrow> keyprov \<Rightarrow> string \<Rightarrow> bytes \<Rightarrow> (string \<Rightarrow> CredentialRecord fnode option) \<Rightarrow> bool" where
  "resealed_from E I kp aid akey C \<longleftrightarrow> (\<forall>n. C n = im_cred I n \<or>
     (\<exists>rec rec'. im_cred I n = Some (NFile (Some rec)) \<and> C n = Some (NFile (Some rec')) \<and> resealed_rec E I kp aid akey rec rec'))"

definition current_key :: "string \<Rightarrow> CredentialRecord fnode option \<Rightarrow> bool" where
  "current_key aid x \<longleftrightarrow> (\<forall>rec. x = Some (NFile (Some rec)) \<longrightarrow> cr_Ciphertext rec = [] \<or> cr_KeyVersion rec = Some aid)"

lemma validate_key_version:
  "validateCredentialRecord L rec = Inr () \<Longrightarrow> cr_Ciphertext rec \<noteq> [] \<Longrightarrow> \<exists>v. cr_KeyVersion rec = Some v"
  by (auto simp: validateCredentialRecord_def Let_def split: if_splits)

lemma reseal_record_disk:
  assumes nt: "\<not> is_tmp n" and C: "resealed_from E I kp aid akey C" and orig: "im_cred I n = Some (NFile (Some rec))"
    and va: "validateCredentialRecord (env_lib E) rec = Inr ()" "cr_Ciphertext rec \<noteq> []"
    and a: "uuid_Parse (env_lib E) (cr_AccountID rec) = Some i" "im_acc I (acct_name E i) = Some (NFile (Some r))"
      "account_toCore (env_lib E) r = Inr acct"
  shows "triple (disk (I\<lparr>im_cred := C\<rparr>)) (reseal_record E kp n aid akey rec i acct)
    (\<lambda>_ s. \<exists>x. disk (I\<lparr>im_cred := C(n := x)\<rparr>) s \<and> resealed_from E I kp aid akey (C(n := x)) \<and> current_key aid x)
    (\<lambda>_ s. \<exists>C'. disk (I\<lparr>im_cred := C'\<rparr>) s \<and> resealed_from E I kp aid akey C')" (is "triple (disk ?J) _ ?Q ?R")
proof -
  have W: "triple (disk ?J) (on_credentials (writeRecord E n rec')) ?Q ?R" if r: "resealed_rec E I kp aid akey rec rec'" for rec'
  proof (rule triple_weaken [OF creds.write_disk [OF nt]])
    let ?C = "C(n \<mapsto> NFile (Some rec'))"
    have c: "resealed_from E I kp aid akey ?C" using C orig r by (auto simp: resealed_from_def)
    have J: "im_cred_update (\<lambda>V. V(n \<mapsto> NFile (Some rec'))) ?J = I\<lparr>im_cred := ?C\<rparr>" by simp
    have "current_key aid (Some (NFile (Some rec')))" using r by (auto simp: current_key_def resealed_rec_def)
    with c show "disk (im_cred_update (\<lambda>V. V(n \<mapsto> NFile (Some rec'))) ?J) s \<Longrightarrow> ?Q u s" for u s unfolding J by blast
    from c C show "(\<exists>c. e = storeUnavailable c) \<and> (disk ?J s \<or> disk (im_cred_update (\<lambda>V. V(n \<mapsto> NFile (Some rec'))) ?J) s) \<Longrightarrow> ?R e s"
      for e s unfolding J by blast
  qed auto
  have R: "resealed_rec E I kp aid akey rec (rec\<lparr>cr_KeyVersion := Some aid, cr_Nonce := nonce, cr_Ciphertext := ciphertext\<rparr>)"
    if "kp_Key kp (the (cr_KeyVersion rec)) = Some oldKey"
      "Open (env_aead E) (the (cr_KeyVersion rec)) oldKey (cr_Nonce rec) (cr_Ciphertext rec)
         (CredentialAAD (env_lib E) (acct_DeploymentID acct) i (cr_Generation rec)) = Inr plaintext"
      "Seal (env_aead E) rnd aid akey plaintext (CredentialAAD (env_lib E) (acct_DeploymentID acct) i (cr_Generation rec)) = Inr (nonce, ciphertext)"
    for oldKey plaintext rnd nonce ciphertext
    using that a va unfolding resealed_rec_def by blast
  have err: "triple (disk ?J) (raise e) ?Q ?R" for e using C by (intro triple_pure) blast
  show ?thesis unfolding reseal_record_def Let_def
    by (auto split: option.splits sum.splits prod.splits intro!: err triple_bnd [OF tick_disk(3)] W R)
qed

lemma reencryptOne_disk:
  assumes nt: "\<not> is_tmp n" and C: "resealed_from E I kp aid akey C"
  shows "triple (disk (I\<lparr>im_cred := C\<rparr>)) (reencryptOneLocked E kp n aid akey)
    (\<lambda>_ s. \<exists>x. disk (I\<lparr>im_cred := C(n := x)\<rparr>) s \<and> resealed_from E I kp aid akey (C(n := x)) \<and> current_key aid x)
    (\<lambda>_ s. \<exists>C'. disk (I\<lparr>im_cred := C'\<rparr>) s \<and> resealed_from E I kp aid akey C')" (is "triple (disk ?J) _ ?Q ?R")
  unfolding reencryptOneLocked_def
proof (rule triple_seq [OF creds.read_disk [OF nt]])
  show "disk ?J s \<and> read_err (im_cred ?J n) e \<Longrightarrow> ?R e s" for e s using C by blast
  have JR: "disk ?J s \<Longrightarrow> ?R e s" for s e using C by blast
  fix rec :: CredentialRecord
  let ?m = "\<lambda>i. bnd (getAccountLocked E i) (\<lambda>acct. reseal_record E kp n aid akey rec i acct)"
  show "triple (\<lambda>s. disk ?J s \<and> im_cred ?J n = Some (NFile (Some rec)))
     (bnd (lift_sum (validateCredentialRecord (env_lib E) rec)) (\<lambda>_.
      if length (cr_Ciphertext rec) = 0 \<or> the (cr_KeyVersion rec) = aid then ret ()
      else (case uuid_Parse (env_lib E) (cr_AccountID rec) of None \<Rightarrow> raise (storeUnavailable (Sent ErrStoreCorrupt)) | Some i \<Rightarrow> ?m i))) ?Q ?R"
  proof (rule triple_fact, rule triple_bnd [where Q = "\<lambda>_ s. disk ?J s \<and> validateCredentialRecord (env_lib E) rec = Inr ()"])
    assume v: "im_cred ?J n = Some (NFile (Some rec))"
    show "triple (disk ?J) (lift_sum (validateCredentialRecord (env_lib E) rec))
        (\<lambda>_ s. disk ?J s \<and> validateCredentialRecord (env_lib E) rec = Inr ()) ?R"
      by (rule triple_lift_sum) (use JR in auto)
    have "triple (disk ?J) (ret ()) ?Q ?R"
      if va: "validateCredentialRecord (env_lib E) rec = Inr ()" and k: "length (cr_Ciphertext rec) = 0 \<or> the (cr_KeyVersion rec) = aid"
    proof (rule triple_pure, intro exI conjI)
      have Cn: "C(n := Some (NFile (Some rec))) = C" using v by (simp add: fun_upd_idem)
      show "disk ?J s \<Longrightarrow> disk (I\<lparr>im_cred := C(n := Some (NFile (Some rec)))\<rparr>) s" for s unfolding Cn .
      show "resealed_from E I kp aid akey (C(n := Some (NFile (Some rec))))" unfolding Cn by (rule C)
      show "current_key aid (Some (NFile (Some rec)))" using validate_key_version [OF va] k
        by (cases "cr_Ciphertext rec = []") (auto simp: current_key_def)
    qed
    moreover have "triple (disk ?J) (?m i) ?Q ?R"
      if va: "validateCredentialRecord (env_lib E) rec = Inr ()" and k: "\<not> (length (cr_Ciphertext rec) = 0 \<or> the (cr_KeyVersion rec) = aid)"
        and i: "uuid_Parse (env_lib E) (cr_AccountID rec) = Some i" for i
    proof (rule triple_seq [OF getAccountLocked_disk], rule JR, blast, rule triple_fact)
      have "C n = im_cred I n \<or> (\<exists>rec0 rec'. C n = Some (NFile (Some rec')) \<and> resealed_rec E I kp aid akey rec0 rec')"
        using C unfolding resealed_from_def by blast
      moreover have "cr_KeyVersion rec' = Some aid" if "resealed_rec E I kp aid akey rec0 rec'" for rec0 rec'
        using that by (auto simp: resealed_rec_def)
      ultimately have orig: "im_cred I n = Some (NFile (Some rec))" using v k by auto
      fix acct assume "\<exists>r. im_acc ?J (acct_name E i) = Some (NFile (Some r)) \<and> account_toCore (env_lib E) r = Inr acct"
      then obtain r where "im_acc I (acct_name E i) = Some (NFile (Some r))" "account_toCore (env_lib E) r = Inr acct" by auto
      with nt C orig va k i show "triple (disk ?J) (reseal_record E kp n aid akey rec i acct) ?Q ?R"
        by (intro reseal_record_disk) auto
    qed
    moreover have "triple (disk ?J) (raise e) ?Q ?R" for e using JR by (intro triple_pure)
    ultimately show "triple (\<lambda>s. disk ?J s \<and> validateCredentialRecord (env_lib E) rec = Inr ())
       (if length (cr_Ciphertext rec) = 0 \<or> the (cr_KeyVersion rec) = aid then ret ()
      else (case uuid_Parse (env_lib E) (cr_AccountID rec) of None \<Rightarrow> raise (storeUnavailable (Sent ErrStoreCorrupt)) | Some i \<Rightarrow> ?m i)) ?Q ?R" for u
      by (intro triple_fact triple_if) (auto split: option.splits)
  qed
qed

lemma reencryptLoop_disk:
  assumes "\<forall>n\<in>set ns. \<not> is_tmp n" "resealed_from E I kp aid akey C"
  shows "triple (disk (I\<lparr>im_cred := C\<rparr>)) (reencryptLoop E kp aid akey ns)
    (\<lambda>_ s. \<exists>C'. disk (I\<lparr>im_cred := C'\<rparr>) s \<and> resealed_from E I kp aid akey C' \<and> (\<forall>n. n \<in> set ns \<or> current_key aid (C n) \<longrightarrow> current_key aid (C' n)))
    (\<lambda>_ s. \<exists>C'. disk (I\<lparr>im_cred := C'\<rparr>) s \<and> resealed_from E I kp aid akey C')"
  using assms
proof (induction ns arbitrary: C)
  case Nil
  show ?case unfolding reencryptLoop.simps
    by (rule triple_pure(1), rule exI [of _ C]) (use Nil in auto)
next
  case (Cons n ns)
  have n: "\<not> is_tmp n" using Cons.prems by simp
  show ?case unfolding reencryptLoop.simps
  proof (rule triple_seq [OF reencryptOne_disk [OF n Cons.prems(2)]], assumption, rule triple_ex)
    fix x
    let ?C = "C(n := x)"
    have "triple (\<lambda>s. disk (I\<lparr>im_cred := ?C\<rparr>) s \<and> (resealed_from E I kp aid akey ?C \<and> current_key aid x)) (reencryptLoop E kp aid akey ns)
      (\<lambda>_ s. \<exists>C'. disk (I\<lparr>im_cred := C'\<rparr>) s \<and> resealed_from E I kp aid akey C' \<and> (\<forall>m. m \<in> set (n # ns) \<or> current_key aid (C m) \<longrightarrow> current_key aid (C' m)))
      (\<lambda>_ s. \<exists>C'. disk (I\<lparr>im_cred := C'\<rparr>) s \<and> resealed_from E I kp aid akey C')"
    proof (rule triple_fact, elim conjE)
      assume c: "resealed_from E I kp aid akey ?C" and x: "current_key aid x"
      have nts: "\<forall>n\<in>set ns. \<not> is_tmp n" using Cons.prems by simp
      show "triple (disk (I\<lparr>im_cred := ?C\<rparr>)) (reencryptLoop E kp aid akey ns)
      (\<lambda>_ s. \<exists>C'. disk (I\<lparr>im_cred := C'\<rparr>) s \<and> resealed_from E I kp aid akey C' \<and> (\<forall>m. m \<in> set (n # ns) \<or> current_key aid (C m) \<longrightarrow> current_key aid (C' m)))
      (\<lambda>_ s. \<exists>C'. disk (I\<lparr>im_cred := C'\<rparr>) s \<and> resealed_from E I kp aid akey C')"
        by (rule triple_weaken [OF Cons.IH [OF nts c]]) (use x in \<open>auto simp: fun_upd_def split: if_splits\<close>)
    qed
    then show "triple (\<lambda>s. disk (I\<lparr>im_cred := ?C\<rparr>) s \<and> resealed_from E I kp aid akey ?C \<and> current_key aid x) (reencryptLoop E kp aid akey ns)
      (\<lambda>_ s. \<exists>C'. disk (I\<lparr>im_cred := C'\<rparr>) s \<and> resealed_from E I kp aid akey C' \<and> (\<forall>m. m \<in> set (n # ns) \<or> current_key aid (C m) \<longrightarrow> current_key aid (C' m)))
      (\<lambda>_ s. \<exists>C'. disk (I\<lparr>im_cred := C'\<rparr>) s \<and> resealed_from E I kp aid akey C')" .
  qed
qed

lemma ReencryptAll_disk:
  "triple (disk I) (ReencryptAll E c kp)
    (\<lambda>_ s. \<exists>p aid akey C. kp = Some p \<and> kp_ActiveKey p = Some (aid, akey) \<and> disk (I\<lparr>im_cred := C\<rparr>) s \<and> resealed_from E I p aid akey C
       \<and> (\<forall>n. HasSuffix n ''.json'' \<longrightarrow> current_key aid (C n)))
    (\<lambda>_ s. disk I s \<or> (\<exists>p aid akey C. kp = Some p \<and> kp_ActiveKey p = Some (aid, akey) \<and> disk (I\<lparr>im_cred := C\<rparr>) s \<and> resealed_from E I p aid akey C))"
  (is "triple _ _ ?Q ?R")
  unfolding ReencryptAll_def
proof (rule triple_guard, simp, rule triple_seq [OF checkOpen_disk], simp, rule triple_fact)
  have "triple (disk I) (bnd (or_unavailable (on_credentials (os_ReadDir E))) (\<lambda>es. reencryptLoop E p aid akey (jsonNames es))) ?Q ?R"
    if p: "kp = Some p" "kp_ActiveKey p = Some (aid, akey)" for p aid akey
  proof (rule triple_seq [OF creds.scan_disk], simp, rule triple_fact)
    fix es assume js: "set (jsonNames es) = {n. HasSuffix n ''.json'' \<and> (\<exists>c. im_cred I n = Some (NFile c))}"
    then have nt: "\<forall>n\<in>set (jsonNames es). \<not> is_tmp n" by (auto dest: HasSuffix_json_not_tmp)
    have c: "resealed_from E I p aid akey (im_cred I)" by (simp add: resealed_from_def)
    have I: "I\<lparr>im_cred := im_cred I\<rparr> = I" by simp
    have "current_key aid (im_cred I n)" if "HasSuffix n ''.json''" "n \<notin> set (jsonNames es)" for n
      using that js by (auto simp: current_key_def)
    then show "triple (disk I) (reencryptLoop E p aid akey (jsonNames es)) ?Q ?R"
      by (intro triple_weaken [OF reencryptLoop_disk [OF nt c, unfolded I]]) (use p in blast)+
  qed
  then show "triple (disk I) (case kp of None \<Rightarrow> raise (cryptoKeyUnavailable (Sent ErrNoKeyProvider)) | Some p \<Rightarrow>
     (case kp_ActiveKey p of None \<Rightarrow> raise (cryptoKeyUnavailable ProviderErr) | Some (activeID, activeKey) \<Rightarrow>
        bnd (or_unavailable (on_credentials (os_ReadDir E))) (\<lambda>es. reencryptLoop E p activeID activeKey (jsonNames es)))) ?Q ?R"
    by (auto split: option.splits intro!: triple_pure)
qed

end
