(* ===== verification/StoreInv.thy ===== *)
theory StoreInv
  imports CredOps
begin

text \<open>
  The well-formedness of the store on disk and that every operation keeps it, whichever system calls fail:
  files are named after the records they hold, every record decodes, identifiers are printed UUIDs,
  credentials satisfy the check of \<open>validateCredentialRecord\<close>, and no two accounts of a deployment share a
  Coder user.
\<close>

section \<open>Well-formed images\<close>

definition acct_ok :: "golib \<Rightarrow> string \<Rightarrow> accountRecord \<Rightarrow> bool" where
  "acct_ok L n r \<longleftrightarrow> (\<exists>i. i \<noteq> uuid_Nil \<and> ar_ID r = uuid_String L i) \<and> n = json (ar_ID r)
     \<and> (\<exists>d. ar_DeploymentID r = uuid_String L d) \<and> (\<forall>u. ar_CoderUserID r = Some u \<longrightarrow> (\<exists>i. u = uuid_String L i))"

definition wf_accounts :: "golib \<Rightarrow> (string \<Rightarrow> accountRecord fnode option) \<Rightarrow> bool" where
  "wf_accounts L V \<longleftrightarrow> (\<forall>n x. V n = Some x \<longrightarrow> (\<exists>r. x = NFile (Some r) \<and> acct_ok L n r))
     \<and> (\<forall>n m r q. V n = Some (NFile (Some r)) \<longrightarrow> V m = Some (NFile (Some q)) \<longrightarrow> ar_CoderUserID r \<noteq> None
          \<longrightarrow> ar_CoderUserID q = ar_CoderUserID r \<longrightarrow> ar_DeploymentID q = ar_DeploymentID r \<longrightarrow> n = m)"

definition key_ok :: "golib \<Rightarrow> string \<Rightarrow> keyRecord \<Rightarrow> bool" where
  "key_ok L n r \<longleftrightarrow> n = keyFileName L (kr_PublicKeyBlob r) \<and> kr_KeyDigestSHA256 r = sha256_Sum L (kr_PublicKeyBlob r)
     \<and> (\<exists>i. kr_ID r = uuid_String L i) \<and> (\<exists>a. kr_AccountID r = uuid_String L a)"

definition wf_keys :: "golib \<Rightarrow> (string \<Rightarrow> keyRecord fnode option) \<Rightarrow> bool" where
  "wf_keys L V \<longleftrightarrow> (\<forall>n x. V n = Some x \<longrightarrow> (\<exists>r. x = NFile (Some r) \<and> key_ok L n r))"

definition cred_ok :: "golib \<Rightarrow> string \<Rightarrow> CredentialRecord \<Rightarrow> bool" where
  "cred_ok L n r \<longleftrightarrow> n = json (cr_AccountID r) \<and> (\<exists>i. cr_AccountID r = uuid_String L i)
     \<and> (\<exists>st. cr_State r = CredentialState_String st) \<and> validateCredentialRecord L r = Inr ()"

definition wf_credentials :: "golib \<Rightarrow> (string \<Rightarrow> CredentialRecord fnode option) \<Rightarrow> bool" where
  "wf_credentials L V \<longleftrightarrow> (\<forall>n x. V n = Some x \<longrightarrow> (\<exists>r. x = NFile (Some r) \<and> cred_ok L n r))"

definition wf_image :: "golib \<Rightarrow> image \<Rightarrow> bool" where
  "wf_image L I \<longleftrightarrow> wf_accounts L (im_acc I) \<and> wf_keys L (im_key I) \<and> wf_credentials L (im_cred I)"

section \<open>Accounts\<close>

lemma wf_accountsD:
  assumes "wf_accounts L V" "V n = Some (NFile (Some r))" shows "acct_ok L n r"
  using assms unfolding wf_accounts_def by (metis fnode.inject option.inject)

lemma wf_accounts_unique:
  assumes "wf_accounts L V" "V n = Some (NFile (Some r))" "V m = Some (NFile (Some q))" "ar_CoderUserID r \<noteq> None"
    "ar_CoderUserID q = ar_CoderUserID r" "ar_DeploymentID q = ar_DeploymentID r"
  shows "n = m"
  using assms unfolding wf_accounts_def by blast

text \<open>Writing an account record keeps the accounts well formed if the record fits its name and no other record
  has its deployment and user.\<close>

lemma wf_accounts_put:
  assumes wf: "wf_accounts L V" and ok: "acct_ok L n r'"
    and fresh: "\<And>m q. V m = Some (NFile (Some q)) \<Longrightarrow> ar_CoderUserID r' \<noteq> None \<Longrightarrow> ar_CoderUserID q = ar_CoderUserID r'
      \<Longrightarrow> ar_DeploymentID q = ar_DeploymentID r' \<Longrightarrow> m = n"
  shows "wf_accounts L (V(n \<mapsto> NFile (Some r')))"
  unfolding wf_accounts_def
proof (intro conjI allI impI)
  fix m x assume "(V(n \<mapsto> NFile (Some r'))) m = Some x"
  then show "\<exists>r. x = NFile (Some r) \<and> acct_ok L m r"
    using wf ok by (auto simp: wf_accounts_def split: if_splits)
next
  fix m k r q
  assume "(V(n \<mapsto> NFile (Some r'))) m = Some (NFile (Some r))" "(V(n \<mapsto> NFile (Some r'))) k = Some (NFile (Some q))"
    "ar_CoderUserID r \<noteq> None" "ar_CoderUserID q = ar_CoderUserID r" "ar_DeploymentID q = ar_DeploymentID r"
  then show "m = k"
    using fresh wf_accounts_unique [OF wf] by (auto split: if_splits)
qed

lemma wf_accounts_put_same:
  assumes "wf_accounts L V" "V n = Some (NFile (Some r))" "ar_ID r' = ar_ID r" "ar_DeploymentID r' = ar_DeploymentID r"
    "ar_CoderUserID r' = ar_CoderUserID r"
  shows "wf_accounts L (V(n \<mapsto> NFile (Some r')))"
proof (rule wf_accounts_put [OF assms(1)])
  show "acct_ok L n r'" using wf_accountsD [OF assms(1,2)] assms(3-5) by (simp add: acct_ok_def)
  show "m = n" if "V m = Some (NFile (Some q))" "ar_CoderUserID r' \<noteq> None" "ar_CoderUserID q = ar_CoderUserID r'"
    "ar_DeploymentID q = ar_DeploymentID r'" for m q
    using wf_accounts_unique [OF assms(1,2) that(1)] that assms(4,5) by simp
qed

lemma acct_ok_json: "acct_ok L n r \<Longrightarrow> HasSuffix n ''.json''"
  by (auto simp: acct_ok_def json_def)

lemma wf_identity_put:
  assumes L: "uuid_lawful (env_lib E)" and wf: "wf_image (env_lib E) I" and J: "J \<in> identity_put E i user username I"
  shows "wf_image (env_lib E) J"
proof -
  from J obtain r now where r: "im_acc I (acct_name E i) = Some (NFile (Some r))" and fr: "identity_free E I i user r"
    and J': "J = put_acc (acct_name E i) (set_identity E user username r now) I"
    by (auto simp: acct_put_def)
  have wa: "wf_accounts (env_lib E) (im_acc I)" using wf by (simp add: wf_image_def)
  note ok = wf_accountsD [OF wa r]
  from fr ok L obtain d where d: "ar_DeploymentID r = uuid_String (env_lib E) d" and af: "all_free E I d user i"
    by (auto simp: identity_free_def acct_ok_def)
  have "wf_accounts (env_lib E) ((im_acc I)(acct_name E i \<mapsto> NFile (Some (set_identity E user username r now))))"
  proof (rule wf_accounts_put [OF wa])
    show "acct_ok (env_lib E) (acct_name E i) (set_identity E user username r now)" using ok by (auto simp: acct_ok_def)
    fix m q assume q: "im_acc I m = Some (NFile (Some q))" "ar_CoderUserID q = ar_CoderUserID (set_identity E user username r now)"
      "ar_DeploymentID q = ar_DeploymentID (set_identity E user username r now)"
    note okq = wf_accountsD [OF wa q(1)]
    from af acct_ok_json [OF okq] q(1) have "user_free (env_lib E) d user i q" unfolding all_free_def by blast
    with q(2,3) d have "ar_ID q = uuid_String (env_lib E) i" by (auto simp: user_free_def)
    with okq show "m = acct_name E i" by (simp add: acct_ok_def acct_name_def)
  qed
  with wf J' show ?thesis by (simp add: wf_image_def)
qed

lemma wf_new_account:
  assumes wf: "wf_image (env_lib E) I" and nz: "acct_ID a \<noteq> uuid_Nil"
    and free: "\<And>m q u. im_acc I m = Some (NFile (Some q)) \<Longrightarrow> acct_CoderUserID a = Some u \<Longrightarrow>
      \<not> bound_to (uuid_String (env_lib E) (acct_DeploymentID a)) (uuid_String (env_lib E) u) q"
  shows "wf_image (env_lib E) (put_acc (acct_name E (acct_ID a)) (accountToRecord (env_lib E) a t u) I)"
proof -
  have "wf_accounts (env_lib E) ((im_acc I)(acct_name E (acct_ID a) \<mapsto> NFile (Some (accountToRecord (env_lib E) a t u))))"
  proof (rule wf_accounts_put)
    show "wf_accounts (env_lib E) (im_acc I)" using wf by (simp add: wf_image_def)
    show "acct_ok (env_lib E) (acct_name E (acct_ID a)) (accountToRecord (env_lib E) a t u)"
      using nz by (auto simp: acct_ok_def accountToRecord_def acct_name_def)
  qed (use free in \<open>auto simp: accountToRecord_def bound_to_def\<close>)
  with wf show ?thesis by (simp add: wf_image_def)
qed

lemma wf_account_add:
  assumes L: "uuid_lawful (env_lib E)" and wf: "wf_image (env_lib E) I" and nz: "acct_ID a \<noteq> uuid_Nil" and J: "J \<in> account_add E a I"
  shows "wf_image (env_lib E) J"
proof -
  from J obtain now where J': "J = put_acc (acct_name E (acct_ID a)) (accountToRecord (env_lib E) a now now) I"
    and af: "\<forall>u. acct_CoderUserID a = Some u \<longrightarrow> all_free E I (acct_DeploymentID a) u uuid_Nil"
    by (auto simp: account_add_def)
  show ?thesis unfolding J'
  proof (rule wf_new_account [OF wf nz], rule notI)
    fix m q u assume q: "im_acc I m = Some (NFile (Some q))" and u: "acct_CoderUserID a = Some u"
      and b: "bound_to (uuid_String (env_lib E) (acct_DeploymentID a)) (uuid_String (env_lib E) u) q"
    have okq: "acct_ok (env_lib E) m q" using wf q by (auto simp: wf_image_def intro: wf_accountsD)
    from af u acct_ok_json [OF okq] q have "user_free (env_lib E) (acct_DeploymentID a) u uuid_Nil q"
      unfolding all_free_def by blast
    with b have "ar_ID q = uuid_String (env_lib E) uuid_Nil" by (auto simp: user_free_def bound_to_def)
    with okq L show False by (auto simp: acct_ok_def)
  qed
qed

lemma wf_enroll:
  assumes wf: "wf_image (env_lib E) I" and nz: "\<And>k. env_uuid E k \<noteq> uuid_Nil"
  shows "J \<in> refreshed I d u username \<Longrightarrow> wf_image (env_lib E) J"
    "enrolled E I dep user username a J \<Longrightarrow> wf_image (env_lib E) J"
proof -
  show "J \<in> refreshed I d u username \<Longrightarrow> wf_image (env_lib E) J"
    using wf by (auto simp: refreshed_def wf_image_def intro!: wf_accounts_put_same)
  assume e: "enrolled E I dep user username a J"
  then have n: "acct_ID a \<noteq> uuid_Nil" using nz by (auto simp: enrolled_def)
  from e obtain i now where a: "a = \<lparr>acct_ID = i, acct_DeploymentID = dep, acct_Label = username, acct_CoderUserID = Some user,
               acct_CachedUsername = username, acct_BindOnFirstToken = False, acct_Enabled = True\<rparr>"
    "J = put_acc (acct_name E (acct_ID a)) (accountToRecord (env_lib E) a now now) I"
    and none: "\<forall>n r. HasSuffix n ''.json'' \<longrightarrow> im_acc I n = Some (NFile (Some r)) \<longrightarrow>
        \<not> bound_to (uuid_String (env_lib E) dep) (uuid_String (env_lib E) user) r"
    by (auto simp: enrolled_def)
  show "wf_image (env_lib E) J" unfolding a(2)
  proof (rule wf_new_account [OF wf n])
    fix m q u assume q: "im_acc I m = Some (NFile (Some q))" "acct_CoderUserID a = Some u"
    then have "HasSuffix m ''.json''" using wf by (auto simp: wf_image_def intro: wf_accountsD acct_ok_json)
    with none q a(1) show "\<not> bound_to (uuid_String (env_lib E) (acct_DeploymentID a)) (uuid_String (env_lib E) u) q" by auto
  qed
qed


section \<open>Keys\<close>

lemma wf_keysD: "wf_keys L V \<Longrightarrow> V n = Some (NFile (Some r)) \<Longrightarrow> key_ok L n r"
  unfolding wf_keys_def by (metis fnode.inject option.inject)

lemma wf_keys_put: "wf_keys L V \<Longrightarrow> key_ok L n r \<Longrightarrow> wf_keys L (V(n \<mapsto> NFile (Some r)))"
  by (auto simp: wf_keys_def)

lemma wf_keys_cut: "wf_keys L V \<Longrightarrow> (\<And>n. K n = V n \<or> K n = None) \<Longrightarrow> wf_keys L K"
  unfolding wf_keys_def by (metis option.distinct(1))

lemma wf_key_added: "wf_image (env_lib E) I \<Longrightarrow> key_added E a k label r I J \<Longrightarrow> wf_image (env_lib E) J"
  by (auto simp: key_added_def Let_def wf_image_def key_ok_def intro!: wf_keys_put)

lemma wf_key_put:
  assumes "wf_image (env_lib E) I" "J \<in> key_put E kid F I"
    "\<And>r now. kr_PublicKeyBlob (F r now) = kr_PublicKeyBlob r \<and> kr_KeyDigestSHA256 (F r now) = kr_KeyDigestSHA256 r
      \<and> kr_ID (F r now) = kr_ID r \<and> kr_AccountID (F r now) = kr_AccountID r"
  shows "wf_image (env_lib E) J"
proof -
  obtain n r now where J: "J = put_key n (F r now) I" and r: "im_key I n = Some (NFile (Some r))"
    using assms(2) by (auto simp: key_put_def)
  have wk: "wf_keys (env_lib E) (im_key I)" using assms(1) by (simp add: wf_image_def)
  have "key_ok (env_lib E) n (F r now)" using wf_keysD [OF wk r] assms(3) by (simp add: key_ok_def)
  with assms(1) wk J show ?thesis by (simp add: wf_image_def wf_keys_put)
qed

lemma wf_key_dropped: "wf_image (env_lib E) I \<Longrightarrow> J \<in> key_dropped E a kid I \<Longrightarrow> wf_image (env_lib E) J"
  by (auto simp: key_dropped_def wf_image_def intro!: wf_keys_cut [of _ "im_key I"] split: if_splits)

lemma wf_drop_maps:
  "wf_accounts L V \<Longrightarrow> wf_accounts L (V(n := None))" "wf_credentials L C \<Longrightarrow> wf_credentials L (C(n := None))"
  unfolding wf_accounts_def wf_credentials_def by (auto split: if_splits)

lemma wf_deleting:
  assumes "wf_image (env_lib E) I" "J \<in> deleting E a I"
  shows "wf_image (env_lib E) J"
proof -
  obtain K C A where J: "J = I\<lparr>im_key := K, im_cred := C, im_acc := A\<rparr>" and K: "cut_from E a (im_key I) K"
    and C: "C = im_cred I \<or> C = (im_cred I)(acct_name E a := None)" and A: "A = im_acc I \<or> A = (im_acc I)(acct_name E a := None)"
    using assms(2) unfolding deleting_def by blast
  have "wf_keys (env_lib E) K" using assms(1) K unfolding wf_image_def cut_from_def by (blast intro: wf_keys_cut)
  with assms(1) C A show ?thesis unfolding J wf_image_def using wf_drop_maps by auto
qed

section \<open>Credentials\<close>

lemma wf_credentialsD: "wf_credentials L V \<Longrightarrow> V n = Some (NFile (Some r)) \<Longrightarrow> cred_ok L n r"
  unfolding wf_credentials_def by (metis fnode.inject option.inject)

lemma wf_credentials_put: "wf_credentials L V \<Longrightarrow> cred_ok L n r \<Longrightarrow> wf_credentials L (V(n \<mapsto> NFile (Some r)))"
  by (auto simp: wf_credentials_def)

lemma validate_iff:
  "cr_State r = CredentialState_String st \<Longrightarrow>
   validateCredentialRecord L r = Inr () \<longleftrightarrow> (if st = CredentialStateMissing then cr_Ciphertext r = []
     else cr_Ciphertext r \<noteq> [] \<and> cr_KeyVersion r \<noteq> None \<and> cr_Nonce r \<noteq> [])"
  by (auto simp: validateCredentialRecord_def Let_def)

lemma Seal_parts: "aead_lawful A \<Longrightarrow> Seal A rnd k key p aad = Inr (n, c) \<Longrightarrow> n \<noteq> [] \<and> c \<noteq> []"
proof -
  assume A: "aead_lawful A" and "Seal A rnd k key p aad = Inr (n, c)"
  then obtain bs where "length key = KeySize" "n = read_nonce bs" "c = gcm_Seal A key n p aad" by (auto simp: Seal_Inr)
  moreover then have l: "length n = NonceSize" by simp
  moreover from l have "n \<noteq> []" by (auto simp: NonceSize_def)
  ultimately show ?thesis using aead_lawfulD(2) [OF A, of key n p aad] by simp
qed

lemma wf_replaced:
  assumes "uuid_lawful (env_lib E)" "aead_lawful (env_aead E)" "wf_image (env_lib E) I" "J \<in> replaced E req I"
  shows "wf_image (env_lib E) J"
proof -
  obtain acct keyID key nonce ct now J0 where J: "J = put_cred (acct_name E (req_AccountID req))
      (replaced_record (env_lib E) (req_AccountID req) (req_ExpectedGeneration req + 1) keyID nonce ct now) J0"
    and r: "replace_ready E I req acct keyID key nonce ct"
    and J0: "J0 \<in> identity_put E (req_AccountID req) (ident_ID (req_Identity req)) (ident_Username (req_Identity req)) I"
    using assms(4) by (auto simp: replaced_def)
  have "nonce \<noteq> [] \<and> ct \<noteq> []" using r Seal_parts [OF assms(2)] unfolding replace_ready_def by blast
  then have "cred_ok (env_lib E) (acct_name E (req_AccountID req))
      (replaced_record (env_lib E) (req_AccountID req) (req_ExpectedGeneration req + 1) keyID nonce ct now)"
    unfolding cred_ok_def by (subst validate_iff [where st = CredentialStateValid])
      (auto simp: replaced_record_def acct_name_def simp del: CredentialState_String.simps)
  with wf_identity_put [OF assms(1,3)] J0 show ?thesis unfolding J by (simp add: wf_image_def wf_credentials_put)
qed

definition no_tombstone :: "env \<Rightarrow> image \<Rightarrow> uuid \<Rightarrow> int64 \<Rightarrow> bool" where
  "no_tombstone E I i g \<longleftrightarrow> (\<forall>rec. im_cred I (acct_name E i) = Some (NFile (Some rec)) \<longrightarrow> cr_Generation rec = g \<longrightarrow> cr_Ciphertext rec \<noteq> [])"

lemma wf_marked:
  assumes "wf_image (env_lib E) I" "no_tombstone E I i g" "J \<in> marked E i g reason I"
  shows "wf_image (env_lib E) J"
proof -
  obtain rec now where r: "im_cred I (acct_name E i) = Some (NFile (Some rec))" "cr_Generation rec = g"
    and J: "J = put_cred (acct_name E i) (rec\<lparr>cr_State := CredentialState_String CredentialStateInvalid,
       cr_InvalidatedAtMs := Some now, cr_LastErrorClass := Some reason, cr_UpdatedAtMs := now\<rparr>) I"
    using assms(3) by (auto simp: marked_def)
  have wc: "wf_credentials (env_lib E) (im_cred I)" using assms(1) by (simp add: wf_image_def)
  note ok = wf_credentialsD [OF wc r(1)]
  have ne: "cr_Ciphertext rec \<noteq> []" using assms(2) r by (simp add: no_tombstone_def)
  obtain st where st: "cr_State rec = CredentialState_String st" and va: "validateCredentialRecord (env_lib E) rec = Inr ()"
    using ok by (auto simp: cred_ok_def)
  have kv: "cr_KeyVersion rec \<noteq> None" "cr_Nonce rec \<noteq> []" using va ne validate_iff [OF st] by (auto split: if_splits)
  have "cred_ok (env_lib E) (acct_name E i) (rec\<lparr>cr_State := CredentialState_String CredentialStateInvalid,
       cr_InvalidatedAtMs := Some now, cr_LastErrorClass := Some reason, cr_UpdatedAtMs := now\<rparr>)"
    unfolding cred_ok_def by (subst validate_iff [where st = CredentialStateInvalid])
      (use ok ne kv in \<open>auto simp: cred_ok_def simp del: CredentialState_String.simps\<close>)
  with assms(1) wc show ?thesis unfolding J by (simp add: wf_image_def wf_credentials_put)
qed

lemma missing_ok: "cred_ok (env_lib E) (acct_name E i) ((missing_record (env_lib E) i)\<lparr>cr_Generation := g, cr_UpdatedAtMs := t\<rparr>)"
  unfolding cred_ok_def by (subst validate_iff [where st = CredentialStateMissing])
    (auto simp: missing_record_def acct_name_def simp del: CredentialState_String.simps)

lemma wf_cleared: "wf_image (env_lib E) I \<Longrightarrow> J \<in> cleared E i g I \<Longrightarrow> wf_image (env_lib E) J"
  by (auto simp: cleared_def wf_image_def intro!: wf_credentials_put missing_ok)

lemma wf_resealed:
  assumes "aead_lawful (env_aead E)" "wf_image (env_lib E) I" "resealed_from E I kp aid akey C"
  shows "wf_image (env_lib E) (I\<lparr>im_cred := C\<rparr>)"
proof -
  have wc: "wf_credentials (env_lib E) (im_cred I)" using assms(2) by (simp add: wf_image_def)
  have R: "cred_ok (env_lib E) n rec'" if ok: "cred_ok (env_lib E) n rec" and rs: "resealed_rec E I kp aid akey rec rec'" for n rec rec'
  proof -
    obtain nonce ct rnd p aad where r': "rec' = rec\<lparr>cr_KeyVersion := Some aid, cr_Nonce := nonce, cr_Ciphertext := ct\<rparr>"
      and s: "Seal (env_aead E) rnd aid akey p aad = Inr (nonce, ct)" and ne: "cr_Ciphertext rec \<noteq> []"
      using rs unfolding resealed_rec_def by blast
    obtain st where st: "cr_State rec = CredentialState_String st" using ok by (auto simp: cred_ok_def)
    with ok ne have "st \<noteq> CredentialStateMissing" using validate_iff [OF st] by (auto simp: cred_ok_def)
    moreover have "cr_State rec' = CredentialState_String st" using st r' by simp
    ultimately have "validateCredentialRecord (env_lib E) rec' = Inr ()"
      using Seal_parts [OF assms(1) s] r' by (simp add: validate_iff)
    with ok show ?thesis by (simp add: cred_ok_def r')
  qed
  have "wf_credentials (env_lib E) C"
    unfolding wf_credentials_def
  proof (intro allI impI)
    fix n x assume x: "C n = Some x"
    from assms(3) consider "C n = im_cred I n" | rec rec' where "im_cred I n = Some (NFile (Some rec))"
      "C n = Some (NFile (Some rec'))" "resealed_rec E I kp aid akey rec rec'"
      unfolding resealed_from_def by blast
    then show "\<exists>r. x = NFile (Some r) \<and> cred_ok (env_lib E) n r"
    proof cases
      case 1
      with x wc show ?thesis by (auto simp: wf_credentials_def)
    next
      case 2
      with x R [OF wf_credentialsD [OF wc 2(1)] 2(3)] show ?thesis by auto
    qed
  qed
  with assms(2) show ?thesis by (simp add: wf_image_def)
qed


section \<open>Operations that keep the image\<close>

lemma blocks_keep [keeps_intros]:
  "keeps (disk I) checkOpen" "keeps (disk I) (getAccountLocked E i)" "keeps (disk I) (loadCredentialRecordLocked E i)"
  "keeps (disk I) keyProviderLocked" "keeps (disk I) (snapshotFromRecord L rec tok)"
  "\<not> is_tmp n \<Longrightarrow> keeps (disk I) (on_keys (readRecord E n))"
proof -
  show "keeps (disk I) checkOpen" by (rule keeps_of_triple [OF checkOpen_disk]) auto
  show "keeps (disk I) (getAccountLocked E i)" by (rule keeps_of_triple [OF getAccountLocked_disk]) auto
  show "keeps (disk I) (loadCredentialRecordLocked E i)" by (rule keeps_of_triple [OF loadCredentialRecord_disk]) auto
  show "keeps (disk I) keyProviderLocked" by (rule keeps_of_triple [OF keyProvider_disk]) auto
  show "keeps (disk I) (snapshotFromRecord L rec tok)" unfolding snapshotFromRecord_def by (intro keeps_intros)
  show "keeps (disk I) (on_keys (readRecord E n))" if "\<not> is_tmp n"
    by (rule keeps_of_triple [OF keys.read_disk [OF that]]) auto
qed

lemma LoadCredential_keeps: "keeps (disk I) (LoadCredential E c i)"
  unfolding LoadCredential_def Let_def by (intro keeps_intros)

lemma LookupByPublicKey_keeps: "keeps (disk I) (LookupByPublicKey E c dep k)"
  unfolding LookupByPublicKey_def Let_def by (intro keeps_intros) simp_all

lemma EnsureDeployment_disk:
  "triple (disk I) (EnsureDeployment E d) (\<lambda>_ s. \<exists>D. disk (I\<lparr>im_dep := D\<rparr>) s) (\<lambda>_ s. \<exists>D. disk (I\<lparr>im_dep := D\<rparr>) s)"
  unfolding EnsureDeployment_def Let_def
proof (rule triple_seq [OF checkOpen_disk])
  have same: "disk I s \<Longrightarrow> \<exists>D. disk (I\<lparr>im_dep := D\<rparr>) s" for s by (intro exI [of _ "im_dep I"]) simp
  have upd: "disk (im_dep_update f I) s \<Longrightarrow> \<exists>D. disk (I\<lparr>im_dep := D\<rparr>) s" for f s
    by (intro exI [of _ "f (im_dep I)"]) (cases I, simp)
  show "disk I s \<and> e = storeUnavailable (Sent ErrStoreClosed) \<and> im_closed I \<Longrightarrow> \<exists>D. disk (I\<lparr>im_dep := D\<rparr>) s" for e s
    using same by blast
  let ?n = "json (uuid_String (env_lib E) (dep_ID d))"
  show "triple (\<lambda>s. disk I s \<and> \<not> im_closed I)
     (bnd (attempt (on_deployments (readRecord E ?n))) (\<lambda>r.
     bnd (case r of Inr rec \<Rightarrow> ret rec | Inl e \<Rightarrow> if errIs e FsNotExist
              then bnd (nowMs E) (\<lambda>now. ret \<lparr>dr_ID = uuid_String (env_lib E) (dep_ID d), dr_CoderURL = [],
                     dr_CoderBinary = [], dr_GlobalConfig = [], dr_WorkingDir = [], dr_Autostart = False,
                     dr_WaitMode = [], dr_CreatedAtMs = now, dr_UpdatedAtMs = 0\<rparr>)
              else raise e) (\<lambda>rec.
     bnd (nowMs E) (\<lambda>now.
     on_deployments (writeRecord E ?n (rec\<lparr>dr_CoderURL := (case dep_CoderURL d of None \<Rightarrow> [] | Some u \<Rightarrow> u),
       dr_CoderBinary := dep_CoderBinary d, dr_GlobalConfig := dep_GlobalConfig d,
       dr_WorkingDir := dep_WorkingDir d, dr_Autostart := dep_Autostart d, dr_WaitMode := dep_WaitMode d,
       dr_UpdatedAtMs := now\<rparr>)))))) (\<lambda>_ s. \<exists>D. disk (I\<lparr>im_dep := D\<rparr>) s) (\<lambda>_ s. \<exists>D. disk (I\<lparr>im_dep := D\<rparr>) s)" for u
  proof (rule triple_fact, rule triple_bnd [OF deps.attempt_read_disk], simp, rule triple_fact, rule triple_bnd [where Q = "\<lambda>_. disk I"])
    fix r
    show "triple (disk I) (case r of Inr rec \<Rightarrow> ret rec | Inl e \<Rightarrow> if errIs e FsNotExist
              then bnd (nowMs E) (\<lambda>now. ret \<lparr>dr_ID = uuid_String (env_lib E) (dep_ID d), dr_CoderURL = [],
                     dr_CoderBinary = [], dr_GlobalConfig = [], dr_WorkingDir = [], dr_Autostart = False,
                     dr_WaitMode = [], dr_CreatedAtMs = now, dr_UpdatedAtMs = 0\<rparr>)
              else raise e) (\<lambda>_. disk I) (\<lambda>_ s. \<exists>D. disk (I\<lparr>im_dep := D\<rparr>) s)"
      by (cases r) (auto intro!: triple_pure triple_bnd [OF tick_disk(1)] same)
    fix rec
    have w: "triple (disk I) (on_deployments (writeRecord E ?n rec')) (\<lambda>_ s. \<exists>D. disk (I\<lparr>im_dep := D\<rparr>) s) (\<lambda>_ s. \<exists>D. disk (I\<lparr>im_dep := D\<rparr>) s)" for rec'
      by (rule triple_weaken [OF deps.write_disk]) (auto dest: upd same)
    show "triple (disk I) (bnd (nowMs E) (\<lambda>now. on_deployments (writeRecord E ?n (rec\<lparr>dr_CoderURL := (case dep_CoderURL d of None \<Rightarrow> [] | Some u \<Rightarrow> u),
       dr_CoderBinary := dep_CoderBinary d, dr_GlobalConfig := dep_GlobalConfig d,
       dr_WorkingDir := dep_WorkingDir d, dr_Autostart := dep_Autostart d, dr_WaitMode := dep_WaitMode d,
       dr_UpdatedAtMs := now\<rparr>)))) (\<lambda>_ s. \<exists>D. disk (I\<lparr>im_dep := D\<rparr>) s) (\<lambda>_ s. \<exists>D. disk (I\<lparr>im_dep := D\<rparr>) s)"
      by (rule triple_bnd [OF tick_disk(1)]) (rule w)
  qed
qed

section \<open>Reachable stores\<close>

datatype store_op =
    DoEnsureDeployment Deployment | DoAddAccount Account | DoSetAccountEnabled uuid bool
  | DoUpdateIdentity uuid uuid string | DoEnroll bool uuid uuid string | DoAddKey uuid pubkey string
  | DoSetKeyEnabled uuid bool | DoTouchKey uuid | DoDeleteKey uuid uuid | DoDeleteAccount uuid
  | DoSetKeyProvider "keyprov option" | DoReplace bool ReplaceCredentialRequest | DoMark bool uuid int64 string
  | DoClear bool uuid int64 | DoReencrypt bool "keyprov option" | DoLoad bool uuid | DoLookup bool uuid pubkey

text \<open>The state after an operation, whether it succeeded or not.\<close>

fun store_exec :: "env \<Rightarrow> store_op \<Rightarrow> store \<Rightarrow> store" where
  "store_exec E (DoEnsureDeployment d) s = snd (EnsureDeployment E d s)"
| "store_exec E (DoAddAccount a) s = snd (AddAccount E a s)"
| "store_exec E (DoSetAccountEnabled i b) s = snd (SetAccountEnabled E i b s)"
| "store_exec E (DoUpdateIdentity i u n) s = snd (UpdateAccountIdentity E i u n s)"
| "store_exec E (DoEnroll c d u n) s = snd (LookupOrCreateAccountByCoderID E c d u n s)"
| "store_exec E (DoAddKey a k l) s = snd (AddKey E a k l s)"
| "store_exec E (DoSetKeyEnabled k b) s = snd (SetKeyEnabled E k b s)"
| "store_exec E (DoTouchKey k) s = snd (TouchKeyLastUsed E k s)"
| "store_exec E (DoDeleteKey a k) s = snd (DeleteKey E a k s)"
| "store_exec E (DoDeleteAccount a) s = snd (DeleteAccount E a s)"
| "store_exec E (DoSetKeyProvider kp) s = snd (SetKeyProvider kp s)"
| "store_exec E (DoReplace c r) s = snd (ReplaceCredential E c r s)"
| "store_exec E (DoMark c i g w) s = snd (MarkCredentialInvalid E c i g w s)"
| "store_exec E (DoClear c i g) s = snd (ClearCredential E c i g s)"
| "store_exec E (DoReencrypt c kp) s = snd (ReencryptAll E c kp s)"
| "store_exec E (DoLoad c i) s = snd (LoadCredential E c i s)"
| "store_exec E (DoLookup c d k) s = snd (LookupByPublicKey E c d k s)"

text \<open>What callers must respect: a new account has a proper identifier, and a credential is marked invalid only by
  a caller that holds a token of that generation, so never a tombstone.\<close>

fun op_ok :: "env \<Rightarrow> store \<Rightarrow> store_op \<Rightarrow> bool" where
  "op_ok E s (DoAddAccount a) = (acct_ID a \<noteq> uuid_Nil)"
| "op_ok E s (DoMark c i g w) = no_tombstone E (img_of s) i g"
| "op_ok E s _ = True"

definition empty_store :: store where
  "empty_store = \<lparr>st_closed = False, st_kp = None, st_root = [], st_deployments = [], st_accounts = [], st_keys = [],
     st_credentials = [], st_tick = 0\<rparr>"

inductive store_reach :: "env \<Rightarrow> store \<Rightarrow> bool" for E where
  start: "store_reach E empty_store"
| step: "store_reach E s \<Longrightarrow> op_ok E s p \<Longrightarrow> store_reach E (store_exec E p s)"

definition env_lawful :: "env \<Rightarrow> bool" where
  "env_lawful E \<longleftrightarrow> uuid_lawful (env_lib E) \<and> aead_lawful (env_aead E) \<and> (\<forall>k. env_uuid E k \<noteq> uuid_Nil)"

definition store_wf :: "golib \<Rightarrow> store \<Rightarrow> bool" where
  "store_wf L s \<longleftrightarrow> dirs_distinct s \<and> wf_image L (img_of s)"

text \<open>If every image an operation may leave is well formed, the operation keeps the store well formed.\<close>

lemma store_wf_triple:
  assumes "store_wf L s" "triple (disk (img_of s)) m Q R"
    "\<And>a t. Q a t \<Longrightarrow> store_wf L t" "\<And>e t. R e t \<Longrightarrow> store_wf L t"
  shows "store_wf L (snd (m s))"
proof (rule triple_snd)
  show "triple (disk (img_of s)) m (\<lambda>_. store_wf L) (\<lambda>_. store_wf L)"
    by (rule triple_weaken [OF assms(2)]) (use assms(3,4) in auto)
  show "disk (img_of s) s" using assms(1) by (simp add: store_wf_def disk_def)
qed

lemma store_wf_disk: "disk I t \<Longrightarrow> wf_image L I \<Longrightarrow> store_wf L t"
  by (auto simp: store_wf_def disk_def)

lemma store_wf_becomes: "becomes X t \<Longrightarrow> (\<And>J. J \<in> X \<Longrightarrow> wf_image L J) \<Longrightarrow> store_wf L t"
  by (auto simp: becomes_def store_wf_def disk_def)


lemma image_field_wf [simp]:
  "wf_image L (I\<lparr>im_dep := D\<rparr>) = wf_image L I" "wf_image L (I\<lparr>im_kp := k\<rparr>) = wf_image L I"
  by (simp_all add: wf_image_def)

lemma wf_acct_put:
  assumes "wf_image (env_lib E) I" "J \<in> acct_put E i F C I"
    "\<And>r now. ar_ID (F r now) = ar_ID r \<and> ar_DeploymentID (F r now) = ar_DeploymentID r \<and> ar_CoderUserID (F r now) = ar_CoderUserID r"
  shows "wf_image (env_lib E) J"
  using assms by (auto simp: acct_put_def wf_image_def intro!: wf_accounts_put_same)

lemma exec_accounts_wf:
  assumes E: "env_lawful E" and wf: "store_wf (env_lib E) s"
  shows "acct_ID a \<noteq> uuid_Nil \<Longrightarrow> store_wf (env_lib E) (snd (AddAccount E a s))"
    "store_wf (env_lib E) (snd (SetAccountEnabled E i b s))" "store_wf (env_lib E) (snd (UpdateAccountIdentity E i u n s))"
    "store_wf (env_lib E) (snd (LookupOrCreateAccountByCoderID E c d u n s))" "store_wf (env_lib E) (snd (DeleteAccount E i s))"
proof -
  have L: "uuid_lawful (env_lib E)" and nz: "\<And>k. env_uuid E k \<noteq> uuid_Nil" using E by (auto simp: env_lawful_def)
  have I: "wf_image (env_lib E) (img_of s)" using wf by (simp add: store_wf_def)
  show "store_wf (env_lib E) (snd (AddAccount E a s))" if "acct_ID a \<noteq> uuid_Nil"
    by (rule store_wf_triple [OF wf AddAccount_disk [OF L]])
      (use wf_account_add [OF L I that] I in \<open>auto elim: store_wf_becomes store_wf_disk\<close>)
  show "store_wf (env_lib E) (snd (SetAccountEnabled E i b s))"
    by (rule store_wf_triple [OF wf SetAccountEnabled_disk])
      (use I in \<open>auto elim!: store_wf_becomes store_wf_disk wf_acct_put [rotated]\<close>)
  show "store_wf (env_lib E) (snd (UpdateAccountIdentity E i u n s))"
    by (rule store_wf_triple [OF wf UpdateAccountIdentity_disk [OF L]])
      (use wf_identity_put [OF L I] I in \<open>auto elim: store_wf_becomes store_wf_disk\<close>)
  show "store_wf (env_lib E) (snd (DeleteAccount E i s))"
    by (rule store_wf_triple [OF wf DeleteAccount_disk])
      (use wf_deleting [OF I] in \<open>auto simp: deleted_def elim: store_wf_becomes\<close>)
  have en: "wf_image (env_lib E) J" if "J \<in> enroll_images E (img_of s) d u n" for J
    using that wf_enroll [OF I nz] by blast
  have fo: "store_wf (env_lib E) t" if "found_account E (img_of s) x y n a t" for a t x y
    using that wf_enroll(1) [OF I nz] I by (auto simp: found_account_def store_wf_def disk_def)
  show "store_wf (env_lib E) (snd (LookupOrCreateAccountByCoderID E c d u n s))"
  proof (rule store_wf_triple [OF wf LookupOrCreate_disk], goal_cases)
    case (1 x t)
    then show ?case
      using fo wf_enroll(2) [OF I nz] by (cases x) (auto split: if_splits elim: store_wf_disk)
  next
    case (2 e t)
    then show ?case using store_wf_becomes [OF _ en] store_wf_disk [OF _ I] by blast
  qed
qed

lemma exec_keys_wf:
  assumes wf: "store_wf (env_lib E) s"
  shows "store_wf (env_lib E) (snd (AddKey E a k l s))" "store_wf (env_lib E) (snd (SetKeyEnabled E i b s))"
    "store_wf (env_lib E) (snd (TouchKeyLastUsed E i s))" "store_wf (env_lib E) (snd (DeleteKey E a i s))"
    "store_wf (env_lib E) (snd (LookupByPublicKey E c d k s))" "store_wf (env_lib E) (snd (EnsureDeployment E dep s))"
proof -
  have I: "wf_image (env_lib E) (img_of s)" using wf by (simp add: store_wf_def)
  show "store_wf (env_lib E) (snd (AddKey E a k l s))"
    by (rule store_wf_triple [OF wf AddKey_disk])
      (use wf_key_added [OF I] I in \<open>auto elim!: store_wf_becomes store_wf_disk\<close>)
  show "store_wf (env_lib E) (snd (SetKeyEnabled E i b s))"
    by (rule store_wf_triple [OF wf SetKeyEnabled_disk])
      (use I in \<open>auto elim!: store_wf_becomes store_wf_disk wf_key_put [rotated]\<close>)
  show "store_wf (env_lib E) (snd (TouchKeyLastUsed E i s))"
    by (rule store_wf_triple [OF wf TouchKeyLastUsed_disk])
      (use I in \<open>auto elim!: store_wf_becomes store_wf_disk wf_key_put [rotated]\<close>)
  show "store_wf (env_lib E) (snd (DeleteKey E a i s))"
    by (rule store_wf_triple [OF wf DeleteKey_disk])
      (use wf_key_dropped [OF I] I in \<open>auto elim!: store_wf_becomes store_wf_disk\<close>)
  show "store_wf (env_lib E) (snd (LookupByPublicKey E c d k s))"
    by (rule store_wf_triple [OF wf triple_keeps [OF LookupByPublicKey_keeps]]) (use I in \<open>auto elim: store_wf_disk\<close>)
  show "store_wf (env_lib E) (snd (EnsureDeployment E dep s))"
    by (rule store_wf_triple [OF wf EnsureDeployment_disk]) (use I in \<open>auto elim!: store_wf_disk\<close>)
qed

lemma exec_credentials_wf:
  assumes E: "env_lawful E" and wf: "store_wf (env_lib E) s"
  shows "store_wf (env_lib E) (snd (ReplaceCredential E c req s))"
    "no_tombstone E (img_of s) i g \<Longrightarrow> store_wf (env_lib E) (snd (MarkCredentialInvalid E c i g w s))"
    "store_wf (env_lib E) (snd (ClearCredential E c i g s))" "store_wf (env_lib E) (snd (ReencryptAll E c kp s))"
    "store_wf (env_lib E) (snd (LoadCredential E c i s))" "store_wf (env_lib E) (snd (SetKeyProvider kp s))"
proof -
  have L: "uuid_lawful (env_lib E)" and A: "aead_lawful (env_aead E)" using E by (auto simp: env_lawful_def)
  have I: "wf_image (env_lib E) (img_of s)" using wf by (simp add: store_wf_def)
  show "store_wf (env_lib E) (snd (ReplaceCredential E c req s))"
    by (rule store_wf_triple [OF wf ReplaceCredential_disk [OF L]])
      (use wf_replaced [OF L A I] wf_identity_put [OF L I] I in \<open>auto simp: rebound_def elim: store_wf_becomes store_wf_disk\<close>)
  show "store_wf (env_lib E) (snd (MarkCredentialInvalid E c i g w s))" if "no_tombstone E (img_of s) i g"
    by (rule store_wf_triple [OF wf MarkCredentialInvalid_disk])
      (use wf_marked [OF I that] I in \<open>auto elim: store_wf_becomes store_wf_disk\<close>)
  show "store_wf (env_lib E) (snd (ClearCredential E c i g s))"
    by (rule store_wf_triple [OF wf ClearCredential_disk])
      (use wf_cleared [OF I] I in \<open>auto elim: store_wf_becomes store_wf_disk\<close>)
  show "store_wf (env_lib E) (snd (ReencryptAll E c kp s))"
    by (rule store_wf_triple [OF wf ReencryptAll_disk])
      (use wf_resealed [OF A I] I in \<open>auto elim: store_wf_disk\<close>)
  show "store_wf (env_lib E) (snd (LoadCredential E c i s))"
    by (rule store_wf_triple [OF wf triple_keeps [OF LoadCredential_keeps]]) (use I in \<open>auto elim: store_wf_disk\<close>)
  show "store_wf (env_lib E) (snd (SetKeyProvider kp s))"
    using wf by (simp add: SetKeyProvider_def modify_store_def store_wf_def dirs_distinct_def img_of_def wf_image_def)
qed

lemma store_exec_wf:
  assumes "env_lawful E" "store_wf (env_lib E) s" "op_ok E s p"
  shows "store_wf (env_lib E) (store_exec E p s)"
  using assms exec_accounts_wf [OF assms(1,2)] exec_keys_wf [OF assms(2)] exec_credentials_wf [OF assms(1,2)]
  by (cases p) simp_all

lemma empty_store_wf [simp]: "store_wf L empty_store"
  by (simp add: store_wf_def empty_store_def dirs_distinct_def img_of_def wf_image_def wf_accounts_def wf_keys_def
      wf_credentials_def view_def)

lemma store_reach_wf: "store_reach E s \<Longrightarrow> env_lawful E \<Longrightarrow> store_wf (env_lib E) s"
  by (induction rule: store_reach.induct) (auto intro: store_exec_wf)

lemma demo_env_lawful [simp]: "env_lawful demo_env"
  by (simp add: env_lawful_def demo_env_def)

end
