(* ===== verification/StoreProps.thy ===== *)
theory StoreProps
  imports StoreInv
begin

text \<open>
  The properties of the store: the invariant of every reachable state, the credential round trip and its
  compare-and-set, rotation of the encryption key, the lookup of offered keys, enrollment and deletion.
\<close>

section \<open>Reads without faults\<close>

lemma disk_img: "dirs_distinct s \<Longrightarrow> disk (img_of s) s"
  by (simp add: disk_def)

lemma disk_view:
  "disk I s \<Longrightarrow> view (st_accounts s) = im_acc I" "disk I s \<Longrightarrow> view (st_keys s) = im_key I"
  "disk I s \<Longrightarrow> view (st_credentials s) = im_cred I" "disk I s \<Longrightarrow> st_kp s = im_kp I" "disk I s \<Longrightarrow> st_closed s = im_closed I"
  by (auto simp: disk_def img_of_def)

definition getAccount_spec :: "env \<Rightarrow> image \<Rightarrow> uuid \<Rightarrow> serror + Account" where
  "getAccount_spec E I i = (case read_spec (im_acc I (acct_name E i)) of
     Inl e \<Rightarrow> Inl (if errIs e FsNotExist then StoreError STORE_UNAVAILABLE (Sent ErrAccountNotFound) else e)
   | Inr r \<Rightarrow> account_toCore (env_lib E) r)"

lemma quiet_getAccount:
  assumes "\<not> env_fault E (st_tick s)" "disk I s"
  shows "getAccountLocked E i s = (getAccount_spec E I i, s\<lparr>st_tick := Suc (st_tick s)\<rparr>)"
  using accts.quiet_read [OF assms, of "acct_name E i"]
  by (simp add: getAccountLocked_def mustReadAccount_def acct_name_def [symmetric] getAccount_spec_def bnd_def split: sum.splits)

lemma quiet_loadRecord:
  assumes "\<not> env_fault E (st_tick s)" "disk I s"
  shows "loadCredentialRecordLocked E i s = (case im_cred I (acct_name E i) of
      None \<Rightarrow> (Inr (missing_record (env_lib E) i, False), s\<lparr>st_tick := Suc (st_tick s)\<rparr>)
    | Some NDir \<Rightarrow> (Inl (RawErr FsIO), s\<lparr>st_tick := Suc (st_tick s)\<rparr>)
    | Some (NFile None) \<Rightarrow> (Inl (storeUnavailable (Sent ErrStoreCorrupt)), s\<lparr>st_tick := Suc (st_tick s)\<rparr>)
    | Some (NFile (Some rec)) \<Rightarrow> (Inr (rec, True), s\<lparr>st_tick := Suc (st_tick s)\<rparr>))"
  using creds.quiet_read [OF assms, of "acct_name E i"]
  by (auto simp: loadCredentialRecordLocked_def acct_name_def [symmetric] bnd_def read_spec_def errIs_def storeUnavailable_def
      split: option.splits fnode.splits)

text \<open>The two system calls of a load succeed.\<close>

definition quiet :: "env \<Rightarrow> store \<Rightarrow> bool" where
  "quiet E s \<longleftrightarrow> \<not> env_fault E (st_tick s) \<and> \<not> env_fault E (Suc (st_tick s))"

definition snapshot :: "golib \<Rightarrow> uuid \<Rightarrow> CredentialRecord \<Rightarrow> bytes \<Rightarrow> CredentialSnapshot" where
  "snapshot L i rec token = \<lparr>snap_AccountID = i, snap_Generation = cr_Generation rec,
     snap_State = fst (ParseCredentialState L (cr_State rec)), snap_Token = token, snap_LastValidatedAt = cr_LastValidatedAtMs rec\<rparr>"

definition decrypts :: "env \<Rightarrow> image \<Rightarrow> uuid \<Rightarrow> CredentialRecord \<Rightarrow> bytes \<Rightarrow> bool" where
  "decrypts E I i rec token \<longleftrightarrow> (\<exists>acct kp key. getAccount_spec E I i = Inr acct \<and> im_kp I = Some kp
     \<and> kp_Key kp (the (cr_KeyVersion rec)) = Some key
     \<and> Open (env_aead E) (the (cr_KeyVersion rec)) key (cr_Nonce rec) (cr_Ciphertext rec)
         (CredentialAAD (env_lib E) (acct_DeploymentID acct) i (cr_Generation rec)) = Inr token)"

definition load_value :: "env \<Rightarrow> image \<Rightarrow> uuid \<Rightarrow> CredentialSnapshot \<Rightarrow> bool" where
  "load_value E I i snap \<longleftrightarrow> \<not> im_closed I \<and> (case im_cred I (acct_name E i) of
     None \<Rightarrow> snap = snapshot (env_lib E) i (missing_record (env_lib E) i) []
   | Some (NFile (Some rec)) \<Rightarrow> validateCredentialRecord (env_lib E) rec = Inr () \<and> cr_AccountID rec = uuid_String (env_lib E) i
       \<and> (if cr_State rec = CredentialState_String CredentialStateMissing then snap = snapshot (env_lib E) i rec []
          else \<exists>token. decrypts E I i rec token \<and> snap = snapshot (env_lib E) i rec token)
   | _ \<Rightarrow> False)"

lemma snapshotFromRecord_eq:
  "uuid_Parse L (cr_AccountID rec) = Some i \<Longrightarrow> snapshotFromRecord L rec tok s = (Inr (snapshot L i rec tok), s)"
  by (simp add: snapshotFromRecord_def snapshot_def)

text \<open>What a load returns, as a function of the image.\<close>

lemma LoadCredential_value:
  assumes L: "uuid_lawful (env_lib E)" and q: "quiet E s" and d: "disk I s"
  shows "(\<exists>t. LoadCredential E False i s = (Inr snap, t)) \<longleftrightarrow> load_value E I i snap"
proof -
  let ?s = "s\<lparr>st_tick := Suc (st_tick s)\<rparr>"
  have q1: "\<not> env_fault E (st_tick s)" and q2: "\<not> env_fault E (st_tick ?s)" using q by (simp_all add: quiet_def)
  have d': "disk I ?s" using d by simp
  note c = disk_view(4,5) [OF d] disk_view(4) [OF d']
  show ?thesis
  proof (cases "im_cred I (acct_name E i)")
    case None
    then show ?thesis using L c quiet_loadRecord [OF q1 d, of i]
      by (auto simp: LoadCredential_def checkOpen_def bnd_def load_value_def snapshotFromRecord_eq missing_record_def)
  next
    case (Some x)
    show ?thesis
    proof (cases "\<exists>rec. x = NFile (Some rec)")
      case False
      then show ?thesis using Some quiet_loadRecord [OF q1 d, of i]
        by (auto simp: LoadCredential_def checkOpen_def bnd_def load_value_def split: fnode.splits option.splits if_splits)
    next
      case True
      then obtain rec where x: "x = NFile (Some rec)" by blast
      then have l: "loadCredentialRecordLocked E i s = (Inr (rec, True), ?s)" using Some quiet_loadRecord [OF q1 d, of i] by simp
      note g = quiet_getAccount [OF q2 d', of i]
      show ?thesis
      proof (cases "\<not> im_closed I \<and> validateCredentialRecord (env_lib E) rec = Inr () \<and> cr_AccountID rec = uuid_String (env_lib E) i
          \<and> cr_State rec \<noteq> CredentialState_String CredentialStateMissing")
        case True
        then have "LoadCredential E False i s =
          bnd (getAccountLocked E i) (\<lambda>acct. bnd keyProviderLocked (\<lambda>kp. let ver = the (cr_KeyVersion rec) in case kp_Key kp ver of
             None \<Rightarrow> raise (cryptoKeyUnavailable ProviderErr)
           | Some key \<Rightarrow> (case Open (env_aead E) ver key (cr_Nonce rec) (cr_Ciphertext rec)
                 (CredentialAAD (env_lib E) (acct_DeploymentID acct) i (cr_Generation rec)) of
               Inl _ \<Rightarrow> raise decryptFailedErr | Inr token \<Rightarrow> snapshotFromRecord (env_lib E) rec token))) ?s"
          using l c by (simp add: LoadCredential_def checkOpen_def bnd_step(1) [of "loadCredentialRecordLocked E i"] del: CredentialState_String.simps)
        also have "(\<exists>t. \<dots> = (Inr snap, t)) \<longleftrightarrow> (\<exists>token. decrypts E I i rec token \<and> snap = snapshot (env_lib E) i rec token)"
          using g c L True
          by (auto simp: decrypts_def keyProviderLocked_def bnd_def snapshotFromRecord_eq Let_def
              split: option.splits sum.splits)
        finally show ?thesis using True Some x by (simp add: load_value_def del: CredentialState_String.simps)
      next
        case False
        then show ?thesis using l c L Some x
          by (auto simp: LoadCredential_def checkOpen_def bnd_def load_value_def snapshotFromRecord_eq
              simp del: CredentialState_String.simps split: if_splits sum.splits)
      qed
    qed
  qed
qed

text \<open>The same environment with every system call succeeding: what a read returns when the disk answers.\<close>

definition calm :: "env \<Rightarrow> env" where
  "calm E = E\<lparr>env_fault := (\<lambda>_. False)\<rparr>"

lemma calm_sel [simp]:
  "env_lib (calm E) = env_lib E" "env_aead (calm E) = env_aead E" "\<not> env_fault (calm E) k" "acct_name (calm E) i = acct_name E i"
  by (simp_all add: calm_def acct_name_def)

lemma decrypts_calm: "decrypts (calm E) I i rec token = decrypts E I i rec token"
  unfolding decrypts_def getAccount_spec_def calm_sel ..

lemma load_calm:
  assumes "uuid_lawful (env_lib E)" "dirs_distinct s"
  shows "(\<exists>t. LoadCredential (calm E) False i s = (Inr snap, t)) \<longleftrightarrow> load_value E (img_of s) i snap"
proof -
  have "(\<exists>t. LoadCredential (calm E) False i s = (Inr snap, t)) \<longleftrightarrow> load_value (calm E) (img_of s) i snap"
    by (rule LoadCredential_value) (use assms disk_img in \<open>auto simp: quiet_def\<close>)
  then show ?thesis unfolding load_value_def calm_sel decrypts_calm .
qed

text \<open>From a run to its outcome.\<close>

lemma becomes_disk: "becomes X t \<Longrightarrow> dirs_distinct t \<and> img_of t \<in> X"
  by (auto simp: becomes_def disk_def)

lemma disk_iff: "disk I s \<longleftrightarrow> dirs_distinct s \<and> img_of s = I"
  by (simp add: disk_def)

lemma Replace_outcome:
  assumes "uuid_lawful (env_lib E)" "dirs_distinct s"
  shows "ReplaceCredential E c req s = (Inr snap, t) \<Longrightarrow> dirs_distinct t \<and> img_of t \<in> replaced E req (img_of s)"
    "ReplaceCredential E c req s = (Inl e, t) \<Longrightarrow>
       dirs_distinct t \<and> (img_of t = img_of s \<or> img_of t \<in> rebound E req (img_of s) \<or> img_of t \<in> replaced E req (img_of s))"
  using tripleD [OF ReplaceCredential_disk [OF assms(1)] disk_img [OF assms(2)]] becomes_disk disk_iff by blast+

lemma Clear_outcome:
  assumes "dirs_distinct s"
  shows "ClearCredential E c i g s = (Inr u, t) \<Longrightarrow> dirs_distinct t \<and> img_of t \<in> cleared E i g (img_of s)"
    "ClearCredential E c i g s = (Inl e, t) \<Longrightarrow> dirs_distinct t \<and> (img_of t = img_of s \<or> img_of t \<in> cleared E i g (img_of s))"
  using tripleD [OF ClearCredential_disk disk_img [OF assms]] becomes_disk disk_iff by blast+

lemma Mark_outcome:
  assumes "dirs_distinct s" "MarkCredentialInvalid E c i g w s = (r, t)"
  shows "dirs_distinct t \<and> (img_of t = img_of s \<or> img_of t \<in> marked E i g w (img_of s))"
  using tripleD [OF MarkCredentialInvalid_disk disk_img [OF assms(1)]] assms(2) becomes_disk disk_iff by (cases r) blast+

section \<open>The identity of an account across a refresh\<close>

lemma toCore_set_identity:
  assumes "uuid_lawful (env_lib E)" "account_toCore (env_lib E) r = Inr acct"
  shows "account_toCore (env_lib E) (set_identity E user username r now) =
    Inr (acct\<lparr>acct_CoderUserID := Some user, acct_CachedUsername := username\<rparr>)"
  using assms by (auto simp: account_toCore_def Let_def split: option.splits)

lemma replacedE:
  assumes "J \<in> replaced E req I"
  obtains acct keyID key nonce ct now now' r where "replace_ready E I req acct keyID key nonce ct"
    "im_acc I (acct_name E (req_AccountID req)) = Some (NFile (Some r))" "account_toCore (env_lib E) r = Inr acct"
    "J = put_cred (acct_name E (req_AccountID req))
       (replaced_record (env_lib E) (req_AccountID req) (req_ExpectedGeneration req + 1) keyID nonce ct now)
       (put_acc (acct_name E (req_AccountID req))
         (set_identity E (ident_ID (req_Identity req)) (ident_Username (req_Identity req)) r now') I)"
proof -
  obtain acct keyID key nonce ct now J0 where r: "replace_ready E I req acct keyID key nonce ct"
    and J0: "J0 \<in> identity_put E (req_AccountID req) (ident_ID (req_Identity req)) (ident_Username (req_Identity req)) I"
    and J: "J = put_cred (acct_name E (req_AccountID req))
       (replaced_record (env_lib E) (req_AccountID req) (req_ExpectedGeneration req + 1) keyID nonce ct now) J0"
    using assms by (auto simp: replaced_def)
  from J0 obtain q now' where "im_acc I (acct_name E (req_AccountID req)) = Some (NFile (Some q))"
    "J0 = put_acc (acct_name E (req_AccountID req))
         (set_identity E (ident_ID (req_Identity req)) (ident_Username (req_Identity req)) q now') I"
    by (auto simp: acct_put_def)
  moreover from this r have "account_toCore (env_lib E) q = Inr acct" by (auto simp: replace_ready_def)
  ultimately show ?thesis using that r J by blast
qed

text \<open>The generation a compare-and-set compares with.\<close>

definition generation_at :: "env \<Rightarrow> image \<Rightarrow> uuid \<Rightarrow> int64" where
  "generation_at E I i = (case im_cred I (acct_name E i) of Some (NFile (Some rec)) \<Rightarrow> cr_Generation rec | _ \<Rightarrow> 0)"

lemma cred_at_generation: "cred_at E I i x \<Longrightarrow> cr_Generation (fst x) = generation_at E I i"
  by (auto simp: cred_at_def generation_at_def missing_record_def split: if_splits)

lemma replaced_generation:
  "J \<in> replaced E req I \<Longrightarrow> generation_at E I (req_AccountID req) = req_ExpectedGeneration req
     \<and> generation_at E J (req_AccountID req) = req_ExpectedGeneration req + 1"
  by (erule replacedE) (auto simp: replace_ready_def generation_at_def [of _ "put_cred _ _ _"] replaced_record_def dest: cred_at_generation)

lemma rebound_generation:
  "J \<in> rebound E req I \<Longrightarrow> generation_at E I (req_AccountID req) = req_ExpectedGeneration req"
  by (auto simp: rebound_def replace_ready_def dest: cred_at_generation)

lemma cleared_generation:
  "J \<in> cleared E i g I \<Longrightarrow> generation_at E I i = g \<and> generation_at E J i = g + 1"
  by (auto simp: cleared_def generation_at_def [of _ "put_cred _ _ _"] dest: cred_at_generation)

lemma marked_generation: "J \<in> marked E i g w I \<Longrightarrow> generation_at E I i = g \<and> generation_at E J i = g"
  by (auto simp: marked_def generation_at_def)

section \<open>Loads after an operation\<close>

lemma replaced_load:
  assumes E: "env_lawful E" and J: "J \<in> replaced E req I" and op: "\<not> im_closed I"
    and kp: "im_kp I = Some kp" "kp_ActiveKey kp = Some (k, key)" "kp_Key kp k = Some key"
  shows "\<exists>now. load_value E J (req_AccountID req) \<lparr>snap_AccountID = req_AccountID req,
     snap_Generation = req_ExpectedGeneration req + 1, snap_State = CredentialStateValid, snap_Token = req_Token req,
     snap_LastValidatedAt = Some now\<rparr>"
proof -
  let ?i = "req_AccountID req"
  have L: "uuid_lawful (env_lib E)" and A: "aead_lawful (env_aead E)" using E by (auto simp: env_lawful_def)
  from J obtain acct keyID key' nonce ct now now' r where rr: "replace_ready E I req acct keyID key' nonce ct"
    and r: "im_acc I (acct_name E ?i) = Some (NFile (Some r))" "account_toCore (env_lib E) r = Inr acct"
    and J: "J = put_cred (acct_name E ?i) (replaced_record (env_lib E) ?i (req_ExpectedGeneration req + 1) keyID nonce ct now)
       (put_acc (acct_name E ?i) (set_identity E (ident_ID (req_Identity req)) (ident_Username (req_Identity req)) r now') I)"
    by (rule replacedE)
  let ?rec = "replaced_record (env_lib E) ?i (req_ExpectedGeneration req + 1) keyID nonce ct now"
  have k: "keyID = k" "key' = key" using rr kp by (auto simp: replace_ready_def)
  from rr obtain rnd where S: "Seal (env_aead E) rnd keyID key' (req_Token req)
      (CredentialAAD (env_lib E) (acct_DeploymentID acct) ?i (req_ExpectedGeneration req + 1)) = Inr (nonce, ct)"
    unfolding replace_ready_def by blast
  then have O: "Open (env_aead E) k key nonce ct (CredentialAAD (env_lib E) (acct_DeploymentID acct) ?i (req_ExpectedGeneration req + 1))
      = Inr (req_Token req)"
    using k Open_Inr [OF A] by (auto simp: Seal_Inr)
  have va: "validateCredentialRecord (env_lib E) ?rec = Inr ()"
    using Seal_parts [OF A S] by (subst validate_iff [where st = CredentialStateValid])
      (auto simp: replaced_record_def simp del: CredentialState_String.simps)
  have "getAccount_spec E J ?i = Inr (acct\<lparr>acct_CoderUserID := Some (ident_ID (req_Identity req)),
      acct_CachedUsername := ident_Username (req_Identity req)\<rparr>)"
    using toCore_set_identity [OF L r(2)] by (simp add: getAccount_spec_def J read_spec_def)
  then have "decrypts E J ?i ?rec (req_Token req)"
    using O kp k by (auto simp: decrypts_def J replaced_record_def)
  then have "load_value E J ?i (snapshot (env_lib E) ?i ?rec (req_Token req))"
    using va op by (auto simp: load_value_def J replaced_record_def)
  moreover have "snapshot (env_lib E) ?i ?rec (req_Token req) = \<lparr>snap_AccountID = ?i,
     snap_Generation = req_ExpectedGeneration req + 1, snap_State = CredentialStateValid, snap_Token = req_Token req,
     snap_LastValidatedAt = Some now\<rparr>"
    by (simp add: snapshot_def replaced_record_def del: CredentialState_String.simps)
  ultimately show ?thesis by auto
qed

lemma Replace_open: "ReplaceCredential E c req s = (Inr snap, t) \<Longrightarrow> \<not> st_closed s"
  by (auto simp: ReplaceCredential_def checkOpen_def bnd_def split: if_splits)

lemma resealed_load:
  assumes L: "uuid_lawful (env_lib E)" and A: "aead_lawful (env_aead E)" and kp: "im_kp I = Some p" "kp_Key p aid = Some akey"
    and C: "resealed_from E I p aid akey C" and ld: "load_value E I i snap"
  shows "load_value E (I\<lparr>im_cred := C\<rparr>) i snap"
proof -
  let ?n = "acct_name E i"
  have g: "getAccount_spec E (I\<lparr>im_cred := C\<rparr>) i = getAccount_spec E I i" by (simp add: getAccount_spec_def)
  show ?thesis
  proof (cases "C ?n = im_cred I ?n")
    case True
    have dc: "decrypts E (I\<lparr>im_cred := C\<rparr>) i rec token = decrypts E I i rec token" for rec token
      by (simp add: decrypts_def g)
    from ld True show ?thesis unfolding load_value_def dc by simp
  next
    case False
    then obtain rec rec' where n: "im_cred I ?n = Some (NFile (Some rec))" "C ?n = Some (NFile (Some rec'))"
      and rs: "resealed_rec E I p aid akey rec rec'" using C unfolding resealed_from_def by blast
    then obtain j r acct oldKey plaintext rnd nonce ct where va: "validateCredentialRecord (env_lib E) rec = Inr ()" "cr_Ciphertext rec \<noteq> []"
      and j: "uuid_Parse (env_lib E) (cr_AccountID rec) = Some j"
      and a: "im_acc I (acct_name E j) = Some (NFile (Some r))" "account_toCore (env_lib E) r = Inr acct"
      and ok: "kp_Key p (the (cr_KeyVersion rec)) = Some oldKey"
      and Op: "Open (env_aead E) (the (cr_KeyVersion rec)) oldKey (cr_Nonce rec) (cr_Ciphertext rec)
         (CredentialAAD (env_lib E) (acct_DeploymentID acct) j (cr_Generation rec)) = Inr plaintext"
      and S: "Seal (env_aead E) rnd aid akey plaintext (CredentialAAD (env_lib E) (acct_DeploymentID acct) j (cr_Generation rec)) = Inr (nonce, ct)"
      and rec': "rec' = rec\<lparr>cr_KeyVersion := Some aid, cr_Nonce := nonce, cr_Ciphertext := ct\<rparr>"
      unfolding resealed_rec_def by blast
    have ms: "cr_State rec \<noteq> CredentialState_String CredentialStateMissing"
      using va by (auto simp: validateCredentialRecord_def Let_def split: if_splits)
    from ld n ms have i: "cr_AccountID rec = uuid_String (env_lib E) i" and cl: "\<not> im_closed I"
      by (auto simp: load_value_def split: if_splits)
    with j L have ji: "j = i" by simp
    from ld n ms obtain token where de: "decrypts E I i rec token" and sn: "snap = snapshot (env_lib E) i rec token"
      by (auto simp: load_value_def split: if_splits)
    have ga: "getAccount_spec E I i = Inr acct" using a ji by (simp add: getAccount_spec_def read_spec_def)
    have tk: "token = plaintext" using de ga kp ok Op ji by (auto simp: decrypts_def)
    have "Open (env_aead E) aid akey nonce ct (CredentialAAD (env_lib E) (acct_DeploymentID acct) i (cr_Generation rec)) = Inr token"
      using S ji tk Open_Inr [OF A] by (auto simp: Seal_Inr)
    then have "decrypts E (I\<lparr>im_cred := C\<rparr>) i rec' token" using ga g kp by (auto simp: decrypts_def rec')
    moreover have "validateCredentialRecord (env_lib E) rec' = Inr ()"
      using va Seal_parts [OF A S] by (auto simp: validateCredentialRecord_def rec' Let_def split: if_splits)
    moreover have "snap = snapshot (env_lib E) i rec' token" by (simp add: sn snapshot_def rec')
    ultimately show ?thesis using n i cl ms by (auto simp: load_value_def rec' simp del: CredentialState_String.simps)
  qed
qed

lemma cleared_load:
  assumes L: "uuid_lawful (env_lib E)" and J: "J \<in> cleared E i g I" and "\<not> im_closed I"
  shows "load_value E J i snap \<longleftrightarrow> snap = \<lparr>snap_AccountID = i, snap_Generation = g + 1, snap_State = CredentialStateMissing,
     snap_Token = [], snap_LastValidatedAt = None\<rparr>"
proof -
  obtain now where J: "J = put_cred (acct_name E i) ((missing_record (env_lib E) i)\<lparr>cr_Generation := g + 1, cr_UpdatedAtMs := now\<rparr>) I"
    using J by (auto simp: cleared_def)
  have "validateCredentialRecord (env_lib E) ((missing_record (env_lib E) i)\<lparr>cr_Generation := g + 1, cr_UpdatedAtMs := now\<rparr>) = Inr ()"
    by (subst validate_iff [where st = CredentialStateMissing]) (simp_all add: missing_record_def)
  then show ?thesis using assms(3)
    by (simp add: load_value_def J snapshot_def missing_record_def del: CredentialState_String.simps)
qed

lemma Clear_open: "ClearCredential E c i g s = (Inr u, t) \<Longrightarrow> \<not> st_closed s"
  by (auto simp: ClearCredential_def checkOpen_def bnd_def split: if_splits)

section \<open>A concrete store\<close>

text \<open>An account bound to a Coder user, an encryption key, and a request to store its first token.\<close>

definition demo_account :: Account where
  "demo_account = \<lparr>acct_ID = 5, acct_DeploymentID = 9, acct_Label = ''alice'', acct_CoderUserID = Some 7,
     acct_CachedUsername = ''alice'', acct_BindOnFirstToken = False, acct_Enabled = True\<rparr>"

definition demo_keys :: "string \<Rightarrow> bytes option" where
  "demo_keys v = (if v = ''k1'' then Some (replicate 32 (CHR ''K'')) else if v = ''k2'' then Some (replicate 32 (CHR ''L'')) else None)"

definition demo_kp :: "string \<Rightarrow> keyprov" where
  "demo_kp v = \<lparr>kp_ActiveKey = map_option (Pair v) (demo_keys v), kp_Key = demo_keys\<rparr>"

definition demo_store :: store where
  "demo_store = store_exec demo_env (DoAddAccount demo_account) (store_exec demo_env (DoSetKeyProvider (Some (demo_kp ''k1''))) empty_store)"

definition demo_req :: ReplaceCredentialRequest where
  "demo_req = \<lparr>req_AccountID = 5, req_ExpectedGeneration = 0, req_Token = ''tok'',
     req_Identity = \<lparr>ident_ID = 7, ident_Username = ''alice'', ident_Status = ''active''\<rparr>\<rparr>"

definition demo_loaded :: store where
  "demo_loaded = store_exec demo_env (DoReplace False demo_req) demo_store"

definition demo_cleared :: store where
  "demo_cleared = store_exec demo_env (DoClear False 5 1) demo_loaded"

lemma demo_store_reach: "store_reach demo_env demo_store" "store_reach demo_env demo_loaded" "store_reach demo_env demo_cleared"
proof -
  show s: "store_reach demo_env demo_store" unfolding demo_store_def
    by (intro store_reach.step store_reach.start) (simp_all add: demo_account_def)
  show l: "store_reach demo_env demo_loaded" unfolding demo_loaded_def by (rule store_reach.step [OF s]) simp
  show "store_reach demo_env demo_cleared" unfolding demo_cleared_def by (rule store_reach.step [OF l]) simp
qed

lemma demo_distinct: "dirs_distinct demo_store" "dirs_distinct demo_loaded" "dirs_distinct demo_cleared"
  using demo_store_reach [THEN store_reach_wf] by (simp_all add: store_wf_def)

lemma demo_env_lib [simp]: "env_lib demo_env = demo_lib" "env_aead demo_env = demo_aead"
  by (simp_all add: demo_env_def)

lemma AddAccount_kp:
  assumes "uuid_lawful (env_lib E)" "dirs_distinct s" shows "st_kp (snd (AddAccount E a s)) = st_kp s"
proof (rule triple_snd)
  show "triple (disk (img_of s)) (AddAccount E a) (\<lambda>_ t. st_kp t = st_kp s) (\<lambda>_ t. st_kp t = st_kp s)"
    by (rule triple_weaken [OF AddAccount_disk [OF assms(1)]])
      (auto simp: becomes_def account_add_def img_of_def put_acc_def dest: disk_view(4))
qed (rule disk_img [OF assms(2)])

lemma demo_store_kp: "st_kp demo_store = Some (demo_kp ''k1'')"
proof -
  have "dirs_distinct (snd (SetKeyProvider (Some (demo_kp ''k1'')) empty_store))"
    by (simp add: SetKeyProvider_def modify_store_def empty_store_def dirs_distinct_def)
  from AddAccount_kp [OF _ this, of demo_env demo_account] show ?thesis
    by (simp add: demo_store_def SetKeyProvider_def modify_store_def)
qed

text \<open>A run of a computation as an equation, from the evaluation of its result.\<close>

lemma run_Inr: "(case fst (m s) of Inl _ \<Rightarrow> False | Inr _ \<Rightarrow> True) \<Longrightarrow> \<exists>a. m s = (Inr a, snd (m s))"
  by (cases "m s") (auto split: sum.splits)

lemma demo_replace: "\<exists>snap. ReplaceCredential demo_env False demo_req demo_store = (Inr snap, demo_loaded)"
proof -
  have "case fst (ReplaceCredential demo_env False demo_req demo_store) of Inl _ \<Rightarrow> False | Inr _ \<Rightarrow> True" by code_simp
  from run_Inr [of "ReplaceCredential demo_env False demo_req" demo_store, OF this] show ?thesis by (simp add: demo_loaded_def)
qed

lemma demo_clear: "\<exists>u. ClearCredential demo_env False 5 1 demo_loaded = (Inr u, demo_cleared)"
proof -
  have "case fst (ClearCredential demo_env False 5 1 demo_loaded) of Inl _ \<Rightarrow> False | Inr _ \<Rightarrow> True" by code_simp
  from run_Inr [of "ClearCredential demo_env False 5 1" demo_loaded, OF this] show ?thesis by (simp add: demo_cleared_def)
qed

section \<open>Properties\<close>



text \<open>C16. A stored token can be read back: after a successful replacement, and as long as the key provider still
  hands out the key it sealed with, a load returns exactly the stored token, in state valid, under the next
  generation.\<close>

theorem replace_then_load:
  assumes "env_lawful E" "dirs_distinct s" "ReplaceCredential E c req s = (Inr snap, s')"
    "st_kp s = Some kp" "kp_ActiveKey kp = Some (k, key)" "kp_Key kp k = Some key"
  shows "\<exists>t now. LoadCredential (calm E) False (req_AccountID req) s' = (Inr \<lparr>snap_AccountID = req_AccountID req,
     snap_Generation = req_ExpectedGeneration req + 1, snap_State = CredentialStateValid, snap_Token = req_Token req,
     snap_LastValidatedAt = Some now\<rparr>, t)"
proof -
  have L: "uuid_lawful (env_lib E)" using assms(1) by (simp add: env_lawful_def)
  have o: "dirs_distinct s'" "img_of s' \<in> replaced E req (img_of s)" using Replace_outcome(1) [OF L assms(2,3)] by auto
  have "\<not> im_closed (img_of s)" "im_kp (img_of s) = Some kp" using Replace_open [OF assms(3)] assms(4) by (auto simp: img_of_def)
  from replaced_load [OF assms(1) o(2) this assms(5,6)] show ?thesis using load_calm [OF L o(1)] by blast
qed

theorem replace_then_load_witness:
  "\<exists>t now. LoadCredential (calm demo_env) False 5 demo_loaded = (Inr \<lparr>snap_AccountID = 5, snap_Generation = 1,
     snap_State = CredentialStateValid, snap_Token = ''tok'', snap_LastValidatedAt = Some now\<rparr>, t)"
proof -
  obtain snap where r: "ReplaceCredential demo_env False demo_req demo_store = (Inr snap, demo_loaded)" using demo_replace by blast
  have k: "st_kp demo_store = Some (demo_kp ''k1'')" by (rule demo_store_kp)
  show ?thesis
    using replace_then_load [OF demo_env_lawful demo_distinct(1) r k, of "''k1''" "replicate 32 (CHR ''K'')"]
    by (simp add: demo_kp_def demo_keys_def demo_req_def)
qed




text \<open>A replacement touches its own account only and never breaks the binding: keys, deployments and every
  other account and credential are unchanged, on success and on every error path; and it succeeds or changes
  anything only if the account is enabled, the validated identity is the bound Coder user (or the account binds
  on its first token), and the expected generation is the stored one.\<close>

theorem replace_bound_isolated:
  assumes "uuid_lawful (env_lib E)" "dirs_distinct s" "ReplaceCredential E c req s = (r, s')"
  shows "view (st_keys s') = view (st_keys s) \<and> view (st_deployments s') = view (st_deployments s)
    \<and> (\<forall>n. n \<noteq> json (uuid_String (env_lib E) (req_AccountID req)) \<longrightarrow> view (st_accounts s') n = view (st_accounts s) n
         \<and> view (st_credentials s') n = view (st_credentials s) n)
    \<and> ((\<exists>snap. r = Inr snap) \<or> img_of s' \<noteq> img_of s \<longrightarrow>
        (\<exists>q acct. view (st_accounts s) (json (uuid_String (env_lib E) (req_AccountID req))) = Some (NFile (Some q))
          \<and> account_toCore (env_lib E) q = Inr acct \<and> acct_Enabled acct \<and> ident_ID (req_Identity req) \<noteq> uuid_Nil
          \<and> (case acct_CoderUserID acct of None \<Rightarrow> acct_BindOnFirstToken acct | Some u \<Rightarrow> u = ident_ID (req_Identity req))
          \<and> generation_at E (img_of s) (req_AccountID req) = req_ExpectedGeneration req))"
proof -
  have o: "dirs_distinct s'" "img_of s' = img_of s \<and> (\<forall>snap. r \<noteq> Inr snap) \<or> img_of s' \<in> rebound E req (img_of s) \<or> img_of s' \<in> replaced E req (img_of s)"
    using Replace_outcome [OF assms(1,2), of c req] assms(3) by (cases r; blast)+
  have ex: "(\<exists>q acct. view (st_accounts s) (json (uuid_String (env_lib E) (req_AccountID req))) = Some (NFile (Some q))
          \<and> account_toCore (env_lib E) q = Inr acct \<and> acct_Enabled acct \<and> ident_ID (req_Identity req) \<noteq> uuid_Nil
          \<and> (case acct_CoderUserID acct of None \<Rightarrow> acct_BindOnFirstToken acct | Some u \<Rightarrow> u = ident_ID (req_Identity req))
          \<and> generation_at E (img_of s) (req_AccountID req) = req_ExpectedGeneration req)"
    if "replace_ready E (img_of s) req acct keyID key nonce ct" for acct keyID key nonce ct
  proof -
    from that obtain q where "view (st_accounts s) (json (uuid_String (env_lib E) (req_AccountID req))) = Some (NFile (Some q))"
      "account_toCore (env_lib E) q = Inr acct" "acct_Enabled acct" "binding_ok acct (req_Identity req)"
      by (auto simp: replace_ready_def img_of_def acct_name_def)
    moreover have "generation_at E (img_of s) (req_AccountID req) = req_ExpectedGeneration req"
      using that by (auto simp: replace_ready_def dest: cred_at_generation)
    ultimately show ?thesis by (auto simp: binding_ok_def)
  qed
  from o(2) consider "img_of s' = img_of s" "\<forall>snap. r \<noteq> Inr snap" | "img_of s' \<in> rebound E req (img_of s)" | "img_of s' \<in> replaced E req (img_of s)"
    by blast
  then show ?thesis
  proof cases
    case 1
    then show ?thesis by (auto simp: img_of_def)
  next
    case 2
    then obtain q now acct keyID key nonce ct where "replace_ready E (img_of s) req acct keyID key nonce ct"
      "img_of s' = put_acc (acct_name E (req_AccountID req)) (set_identity E (ident_ID (req_Identity req)) (ident_Username (req_Identity req)) q now) (img_of s)"
      by (auto simp: rebound_def acct_put_def)
    with ex show ?thesis by (simp add: img_of_def put_acc_def acct_name_def)
  next
    case 3
    then show ?thesis by (rule replacedE) (use ex in \<open>simp add: img_of_def put_acc_def put_cred_def acct_name_def\<close>)
  qed
qed


theorem replace_bound_isolated_witness:
  "view (st_keys demo_loaded) = view (st_keys demo_store)
   \<and> (\<exists>q acct. view (st_accounts demo_store) ''u11111.json'' = Some (NFile (Some q)) \<and> account_toCore demo_lib q = Inr acct
        \<and> acct_Enabled acct)"
proof -
  obtain snap where r: "ReplaceCredential demo_env False demo_req demo_store = (Inr snap, demo_loaded)" using demo_replace by blast
  have n: "json (uuid_String demo_lib 5) = ''u11111.json''" by code_simp
  show ?thesis using replace_bound_isolated [OF _ demo_distinct(1) r] n by (auto simp: demo_req_def)
qed

text \<open>C38. Rotating the encryption key loses nothing: whether or not re-encryption completes, every credential that
  could be loaded before can be loaded after, with the same token, generation and state; and when it reports
  success every stored ciphertext is under the active key.\<close>

theorem reencrypt_preserves_tokens:
  assumes E: "env_lawful E" and wf: "dirs_distinct s" and "ReencryptAll E c (Some p) s = (r, s')"
    and "st_kp s = Some p" "kp_ActiveKey p = Some (aid, akey)" "kp_Key p aid = Some akey"
  shows "(\<forall>i snap t. LoadCredential (calm E) False i s = (Inr snap, t) \<longrightarrow> (\<exists>t'. LoadCredential (calm E) False i s' = (Inr snap, t')))
    \<and> st_kp s' = Some p \<and> (r = Inr () \<longrightarrow> (\<forall>n rec. HasSuffix n ''.json'' \<longrightarrow> view (st_credentials s') n = Some (NFile (Some rec)) \<longrightarrow>
           cr_Ciphertext rec = [] \<or> cr_KeyVersion rec = Some aid))"
proof -
  have L: "uuid_lawful (env_lib E)" and A: "aead_lawful (env_aead E)" using E by (auto simp: env_lawful_def)
  have kp: "im_kp (img_of s) = Some p" using assms(4) by (simp add: img_of_def)
  note T = tripleD [OF ReencryptAll_disk disk_img [OF wf], of E c "Some p"]
  obtain C where d: "disk ((img_of s)\<lparr>im_cred := C\<rparr>) s'" and C: "resealed_from E (img_of s) p aid akey C"
    and cur: "r = Inr () \<Longrightarrow> \<forall>n. HasSuffix n ''.json'' \<longrightarrow> current_key aid (C n)"
  proof (cases r)
    case (Inl e)
    have same: "resealed_from E (img_of s) p aid akey (im_cred (img_of s))" by (simp add: resealed_from_def)
    show ?thesis using T(2) [OF assms(3) [unfolded Inl]] Inl assms(5) same that [of "im_cred (img_of s)"] that by auto
  next
    case (Inr u)
    show ?thesis using T(1) [OF assms(3) [unfolded Inr]] assms(5) that by auto
  qed
  have d': "dirs_distinct s'" "img_of s' = (img_of s)\<lparr>im_cred := C\<rparr>" using d by (simp_all add: disk_def)
  have "\<exists>t'. LoadCredential (calm E) False i s' = (Inr snap, t')" if "LoadCredential (calm E) False i s = (Inr snap, t)" for i snap t
  proof -
    have "load_value E (img_of s) i snap" using that load_calm [OF L wf] by blast
    from resealed_load [OF L A kp assms(6) C this] show ?thesis using load_calm [OF L d'(1)] d'(2) by simp
  qed
  moreover have "st_kp s' = Some p" using disk_view(4) [OF d] kp by simp
  moreover have "r = Inr () \<longrightarrow> (\<forall>n rec. HasSuffix n ''.json'' \<longrightarrow> view (st_credentials s') n = Some (NFile (Some rec)) \<longrightarrow>
           cr_Ciphertext rec = [] \<or> cr_KeyVersion rec = Some aid)"
    using cur disk_view(3) [OF d] by (auto simp: current_key_def)
  ultimately show ?thesis by blast
qed

definition demo_rotated :: store where
  "demo_rotated = store_exec demo_env (DoSetKeyProvider (Some (demo_kp ''k2''))) demo_loaded"

theorem reencrypt_preserves_tokens_witness:
  "\<exists>s' t snap. ReencryptAll demo_env False (Some (demo_kp ''k2'')) demo_rotated = (Inr (), s')
     \<and> LoadCredential (calm demo_env) False 5 s' = (Inr snap, t) \<and> snap_Token snap = ''tok''"
proof -
  have "case fst (ReencryptAll demo_env False (Some (demo_kp ''k2'')) demo_rotated) of Inl _ \<Rightarrow> False | Inr _ \<Rightarrow> True" by code_simp
  from run_Inr [of "ReencryptAll demo_env False (Some (demo_kp ''k2''))" demo_rotated, OF this]
  obtain s' where r: "ReencryptAll demo_env False (Some (demo_kp ''k2'')) demo_rotated = (Inr (), s')" by auto
  have d: "dirs_distinct demo_rotated"
    using demo_distinct(2) by (simp add: demo_rotated_def SetKeyProvider_def modify_store_def dirs_distinct_def)
  have k: "st_kp demo_rotated = Some (demo_kp ''k2'')" by (simp add: demo_rotated_def SetKeyProvider_def modify_store_def)
  have "case fst (LoadCredential (calm demo_env) False 5 demo_rotated) of Inl _ \<Rightarrow> False | Inr snap \<Rightarrow> snap_Token snap = ''tok''" by code_simp
  then obtain snap t where l: "LoadCredential (calm demo_env) False 5 demo_rotated = (Inr snap, t)" "snap_Token snap = ''tok''"
    by (cases "LoadCredential (calm demo_env) False 5 demo_rotated") (auto split: sum.splits)
  have a: "kp_ActiveKey (demo_kp ''k2'') = Some (''k2'', replicate 32 (CHR ''L''))" "kp_Key (demo_kp ''k2'') ''k2'' = Some (replicate 32 (CHR ''L''))"
    by (simp_all add: demo_kp_def demo_keys_def)
  from reencrypt_preserves_tokens [OF demo_env_lawful d r k a] l r show ?thesis by blast
qed

text \<open>A removed credential is gone: after a successful removal a load reports the missing state with an empty
  token, under the next generation, so a writer that still holds the removed generation cannot bring it back.\<close>

theorem clear_then_load:
  assumes "uuid_lawful (env_lib E)" "dirs_distinct s" "ClearCredential E c i g s = (Inr u, s')"
  shows "\<exists>t. LoadCredential (calm E) False i s' = (Inr \<lparr>snap_AccountID = i, snap_Generation = g + 1,
     snap_State = CredentialStateMissing, snap_Token = [], snap_LastValidatedAt = None\<rparr>, t)"
proof -
  have o: "dirs_distinct s'" "img_of s' \<in> cleared E i g (img_of s)" using Clear_outcome(1) [OF assms(2,3)] by auto
  have "\<not> im_closed (img_of s)" using Clear_open [OF assms(3)] by (simp add: img_of_def)
  from cleared_load [OF assms(1) o(2) this] load_calm [OF assms(1) o(1)] show ?thesis by blast
qed

theorem clear_then_load_witness:
  "\<exists>t. LoadCredential (calm demo_env) False 5 demo_cleared = (Inr \<lparr>snap_AccountID = 5, snap_Generation = 2,
     snap_State = CredentialStateMissing, snap_Token = [], snap_LastValidatedAt = None\<rparr>, t)"
proof -
  obtain u where "ClearCredential demo_env False 5 1 demo_loaded = (Inr u, demo_cleared)" using demo_clear by blast
  from clear_then_load [OF _ demo_distinct(2) this] show ?thesis by simp
qed

text \<open>Marking a removed credential invalid corrupts it: a report of rejection that carries the generation of
  a removed credential is accepted and writes a record the loader rejects; after it no load succeeds and no
  replacement can succeed for that account any more.\<close>

theorem tombstone_marked_corrupt:
  assumes L: "uuid_lawful (env_lib E)" and d: "dirs_distinct s"
    and t: "view (st_credentials s) (json (uuid_String (env_lib E) i)) = Some (NFile (Some rec))" "cr_Ciphertext rec = []"
    and m: "MarkCredentialInvalid E c i (cr_Generation rec) why s = (Inr u, s')"
  shows "(\<forall>snap t. LoadCredential (calm E) False i s' \<noteq> (Inr snap, t))
    \<and> (\<forall>c' req snap t. req_AccountID req = i \<longrightarrow> ReplaceCredential E c' req s' \<noteq> (Inr snap, t))"
proof -
  have n: "im_cred (img_of s) (acct_name E i) = Some (NFile (Some rec))" using t by (simp add: img_of_def acct_name_def)
  have o: "becomes (marked E i (cr_Generation rec) why (img_of s)) s'"
    using tripleD(1) [OF MarkCredentialInvalid_disk disk_img [OF d] m] n by blast
  then have ds: "dirs_distinct s'" using becomes_disk by blast
  from o n obtain now where J: "img_of s' = put_cred (acct_name E i) (rec\<lparr>cr_State := CredentialState_String CredentialStateInvalid,
      cr_InvalidatedAtMs := Some now, cr_LastErrorClass := Some why, cr_UpdatedAtMs := now\<rparr>) (img_of s)"
    by (auto simp: becomes_def disk_def marked_def)
  let ?rec = "rec\<lparr>cr_State := CredentialState_String CredentialStateInvalid, cr_InvalidatedAtMs := Some now,
      cr_LastErrorClass := Some why, cr_UpdatedAtMs := now\<rparr>"
  have bad: "validateCredentialRecord (env_lib E) ?rec \<noteq> Inr ()" using t(2)
    by (subst validate_iff [where st = CredentialStateInvalid]) (simp_all add: t)
  have "\<not> load_value E (img_of s') i snap" for snap using bad by (auto simp: load_value_def J)
  then have "LoadCredential (calm E) False i s' \<noteq> (Inr snap, t)" for snap t using load_calm [OF L ds] by blast
  moreover have "ReplaceCredential E c' req s' \<noteq> (Inr snap, t)" if "req_AccountID req = i" for c' req snap t
  proof
    assume "ReplaceCredential E c' req s' = (Inr snap, t)"
    then have "img_of t \<in> replaced E req (img_of s')" using Replace_outcome(1) [OF L ds] by blast
    then show False by (rule replacedE) (use bad that in \<open>auto simp: replace_ready_def cred_at_def J split: if_splits\<close>)
  qed
  ultimately show ?thesis by blast
qed

theorem tombstone_marked_corrupt_witness:
  "\<exists>s'. MarkCredentialInvalid demo_env False 5 2 ''unauthorized'' demo_cleared = (Inr (), s')
     \<and> (\<forall>snap t. LoadCredential (calm demo_env) False 5 s' \<noteq> (Inr snap, t))"
proof -
  have "case fst (MarkCredentialInvalid demo_env False 5 2 ''unauthorized'' demo_cleared) of Inl _ \<Rightarrow> False | Inr _ \<Rightarrow> True" by code_simp
  from run_Inr [of "MarkCredentialInvalid demo_env False 5 2 ''unauthorized''" demo_cleared, OF this]
  obtain s' where m: "MarkCredentialInvalid demo_env False 5 2 ''unauthorized'' demo_cleared = (Inr (), s')" by auto
  obtain u where "ClearCredential demo_env False 5 1 demo_loaded = (Inr u, demo_cleared)" using demo_clear by blast
  from Clear_outcome(1) [OF demo_distinct(2) this] obtain rec where
    t: "view (st_credentials demo_cleared) (json (uuid_String (env_lib demo_env) 5)) = Some (NFile (Some rec))" "cr_Ciphertext rec = []" "cr_Generation rec = 2"
    by (auto simp: cleared_def img_of_def acct_name_def missing_record_def put_cred_def)
  show ?thesis using tombstone_marked_corrupt [OF _ demo_distinct(3) t(1,2), of False "''unauthorized''" "()" s'] m t(3) by auto
qed

end
