(* ===== verification/KeyProps.thy ===== *)
theory KeyProps
  imports StoreProps
begin

text \<open>
  The properties of accounts and SSH keys in the store: which offered keys are accepted, that added keys are found
  and deleted ones are not, that deletion of an account is complete, and that enrollment creates one account per
  Coder user.
\<close>

section \<open>Lookup of an offered key\<close>

text \<open>What a lookup answers when the disk answers, as a function of the image.\<close>

definition key_match :: "env \<Rightarrow> image \<Rightarrow> uuid \<Rightarrow> pubkey \<Rightarrow> Account \<Rightarrow> keyRecord \<Rightarrow> bool" where
  "key_match E I dep key acct rec \<longleftrightarrow> im_key I (keyFileName (env_lib E) (pk_Marshal key)) = Some (NFile (Some rec)) \<and> kr_Enabled rec
     \<and> (\<exists>i. uuid_Parse (env_lib E) (kr_AccountID rec) = Some i \<and> getAccount_spec E I i = Inr acct) \<and> acct_DeploymentID acct = dep"

lemma getAccount_calm [simp]: "getAccount_spec (calm E) = getAccount_spec E"
  by (intro ext) (simp only: getAccount_spec_def calm_sel)

lemma lookup_calm:
  fixes E :: env
  assumes "dirs_distinct s" "\<not> st_closed s" "\<not> pk_isCert key"
  defines "x \<equiv> view (st_keys s) (keyFileName (env_lib E) (pk_Marshal key))"
  shows "fst (LookupByPublicKey (calm E) False dep key s) = (case read_spec x of
      Inl e \<Rightarrow> Inl (if errIs e FsNotExist then unknownKeyErr (Sent ErrUnknownKey) else e)
    | Inr rec \<Rightarrow> if \<not> kr_Enabled rec then Inl (unknownKeyErr (Sent ErrUnknownKey)) else
       (case uuid_Parse (env_lib E) (kr_AccountID rec) of None \<Rightarrow> Inl (storeUnavailable (Sent ErrStoreCorrupt))
        | Some i \<Rightarrow> (case getAccount_spec E (img_of s) i of
            Inl e \<Rightarrow> Inl (if errIs e (Sent ErrAccountNotFound) then storeUnavailable (Sent ErrStoreCorrupt) else e)
          | Inr acct \<Rightarrow> if acct_DeploymentID acct \<noteq> dep then Inl (unknownKeyErr (Sent ErrUnknownKey))
              else if \<not> acct_Enabled acct then Inl (StoreError AUTH_ACCOUNT_DISABLED (Sent ErrAccountDisabled))
              else Inr (acct, key_toCore (env_lib E) rec))))"
proof -
  let ?s = "s\<lparr>st_tick := Suc (st_tick s)\<rparr>"
  have d: "disk (img_of s) s" "disk (img_of s) ?s" using disk_img [OF assms(1)] by simp_all
  have k: "on_keys (readRecord (calm E) (keyFileName (env_lib E) (pk_Marshal key))) s = (read_spec x, ?s)"
    using keys.quiet_read [OF _ d(1)] disk_view(2) [OF d(1)] by (simp add: x_def)
  note a = quiet_getAccount [OF _ d(2), of "calm E", simplified]
  show ?thesis
    using assms(2,3) a by (auto simp: LookupByPublicKey_def k bnd_def checkOpen_def attempt_def split: sum.splits option.splits)
qed

lemma acct_ok_toCore:
  assumes "uuid_lawful L" "acct_ok L n r"
  shows "\<exists>a. account_toCore L r = Inr a"
proof (cases "ar_CoderUserID r")
  case None
  then show ?thesis using assms by (auto simp: account_toCore_def acct_ok_def)
next
  case (Some u)
  then show ?thesis using assms by (auto simp: account_toCore_def acct_ok_def)
qed

lemma lookup_found:
  assumes "dirs_distinct s" "\<not> st_closed s" "\<not> pk_isCert key" "key_match E (img_of s) dep key acct rec"
  shows "fst (LookupByPublicKey (calm E) False dep key s) =
    (if acct_Enabled acct then Inr (acct, key_toCore (env_lib E) rec) else Inl (StoreError AUTH_ACCOUNT_DISABLED (Sent ErrAccountDisabled)))"
  using assms(4) lookup_calm [OF assms(1-3), of E dep] by (auto simp: key_match_def img_of_def read_spec_def)

lemma lookup_unknown:
  assumes "dirs_distinct s" "\<not> st_closed s"
    "view (st_keys s) (keyFileName (env_lib E) (pk_Marshal key)) = None
      \<or> (\<exists>rec. view (st_keys s) (keyFileName (env_lib E) (pk_Marshal key)) = Some (NFile (Some rec)) \<and> \<not> kr_Enabled rec)"
  shows "\<exists>e. fst (LookupByPublicKey (calm E) False dep key s) = Inl e \<and> store_CodeOf e = AUTH_UNKNOWN_KEY"
proof (cases "pk_isCert key")
  case True
  then show ?thesis by (simp add: LookupByPublicKey_def unknownKeyErr_def)
next
  case False
  show ?thesis using lookup_calm [OF assms(1,2) False, of E dep] assms(3)
    by (auto simp: read_spec_def errIs_def unknownKeyErr_def)
qed

section \<open>Deletion and enrollment\<close>

lemma deleting_parts:
  assumes "J \<in> deleting E a I"
  shows "(\<forall>n. n \<noteq> acct_name E a \<longrightarrow> im_acc J n = im_acc I n \<and> im_cred J n = im_cred I n) \<and> cut_from E a (im_key I) (im_key J)
    \<and> im_dep J = im_dep I \<and> im_closed J = im_closed I
    \<and> (im_acc J (acct_name E a) = im_acc I (acct_name E a) \<or> keyless E a (im_key J) \<and> im_cred J (acct_name E a) = None)"
proof -
  obtain K C A where J: "J = I\<lparr>im_key := K, im_cred := C, im_acc := A\<rparr>" and K: "cut_from E a (im_key I) K"
    and C: "C = im_cred I \<or> C = (im_cred I)(acct_name E a := None) \<and> keyless E a K"
    and A: "A = im_acc I \<or> A = (im_acc I)(acct_name E a := None) \<and> keyless E a K \<and> C (acct_name E a) = None"
    using assms unfolding deleting_def by blast
  from C A K show ?thesis unfolding J by auto
qed

lemma bound_unique:
  assumes "store_wf (env_lib E) s" "im_acc (img_of s) n = Some (NFile (Some r))" "im_acc (img_of s) m = Some (NFile (Some q))"
    "bound_to d u r" "bound_to d u q"
  shows "n = m \<and> r = q"
proof -
  have "wf_accounts (env_lib E) (im_acc (img_of s))" using assms(1) by (simp add: store_wf_def wf_image_def)
  from wf_accounts_unique [OF this assms(2,3)] assms show ?thesis by (auto simp: bound_to_def)
qed

lemma Enroll_outcome:
  assumes E: "env_lawful E" and s: "store_reach E s"
    and l: "LookupOrCreateAccountByCoderID E c dep user username s = (Inr (a, created), t)"
  defines "b \<equiv> bound_to (uuid_String (env_lib E) dep) (uuid_String (env_lib E) user)"
  shows "store_reach E t \<and> (\<exists>n r. im_acc (img_of t) n = Some (NFile (Some r)) \<and> b r \<and> account_toCore (env_lib E) r = Inr a
       \<and> ar_CachedUsername r = username)
    \<and> (created \<longrightarrow> (\<forall>n r. im_acc (img_of s) n = Some (NFile (Some r)) \<longrightarrow> \<not> b r))
    \<and> (\<not> created \<longrightarrow> (\<forall>n r. im_acc (img_of s) n = Some (NFile (Some r)) \<and> b r \<longrightarrow>
         (\<exists>r'. im_acc (img_of t) n = Some (NFile (Some r')) \<and> ar_ID r' = ar_ID r \<and> b r')))"
proof -
  have w: "store_wf (env_lib E) s" using store_reach_wf [OF s E] .
  have U: "uuid_lawful (env_lib E)" using E by (simp add: env_lawful_def)
  have wa: "wf_accounts (env_lib E) (im_acc (img_of s))" using w by (simp add: store_wf_def wf_image_def)
  have "store_reach E (store_exec E (DoEnroll c dep user username) s)" by (rule store_reach.step [OF s]) simp
  then have re: "store_reach E t" using l by simp
  note T = tripleD(1) [OF LookupOrCreate_disk disk_img l, simplified]
  have T': "if created then \<exists>J. disk J t \<and> enrolled E (img_of s) dep user username a J
      else found_account E (img_of s) (uuid_String (env_lib E) dep) (uuid_String (env_lib E) user) username a t"
    using T w by (simp add: store_wf_def)
  show ?thesis
  proof (cases created)
    case True
    with T' obtain J where J: "disk J t" and en: "enrolled E (img_of s) dep user username a J" by auto
    from en obtain now where a: "J = put_acc (acct_name E (acct_ID a)) (accountToRecord (env_lib E) a now now) (img_of s)"
      "acct_DeploymentID a = dep" "acct_CoderUserID a = Some user" "acct_CachedUsername a = username"
      by (auto simp: enrolled_def)
    have tc: "account_toCore (env_lib E) (accountToRecord (env_lib E) a now now) = Inr a"
      using U a by (simp add: account_toCore_def accountToRecord_def)
    have none: "\<not> b r" if "im_acc (img_of s) n = Some (NFile (Some r))" for n r
      using en that acct_ok_json [OF wf_accountsD [OF wa that]] by (auto simp: enrolled_def b_def)
    have "im_acc (img_of t) (acct_name E (acct_ID a)) = Some (NFile (Some (accountToRecord (env_lib E) a now now)))"
      using J a by (simp add: disk_def)
    moreover have "b (accountToRecord (env_lib E) a now now)" "ar_CachedUsername (accountToRecord (env_lib E) a now now) = username"
      using a by (simp_all add: b_def bound_to_def accountToRecord_def)
    ultimately show ?thesis using re none tc True by blast
  next
    case False
    with T' obtain J n r where J: "disk J t" and c: "J = img_of s \<or> J \<in> refreshed (img_of s) (uuid_String (env_lib E) dep) (uuid_String (env_lib E) user) username"
      and r: "im_acc J n = Some (NFile (Some r))" "b r" "ar_CachedUsername r = username" "account_toCore (env_lib E) r = Inr a"
      by (auto simp: found_account_def b_def)
    have Jt: "img_of t = J" using J by (simp add: disk_def)
    have "\<exists>r'. im_acc J m = Some (NFile (Some r')) \<and> ar_ID r' = ar_ID q \<and> b r'"
      if q: "im_acc (img_of s) m = Some (NFile (Some q))" "b q" for m q
      using c
    proof
      assume "J \<in> refreshed (img_of s) (uuid_String (env_lib E) dep) (uuid_String (env_lib E) user) username"
      then obtain k r0 now where k: "im_acc (img_of s) k = Some (NFile (Some r0))" "b r0"
        and Jk: "J = put_acc k (r0\<lparr>ar_CachedUsername := username, ar_UpdatedAtMs := now\<rparr>) (img_of s)"
        by (auto simp: refreshed_def b_def)
      have "m = k \<and> q = r0" using bound_unique [OF w q(1) k(1)] q(2) k(2) by (simp add: b_def)
      with k(2) Jk show ?thesis by (simp add: b_def bound_to_def)
    qed (use q in auto)
    with re r False show ?thesis unfolding Jt by blast
  qed
qed

section \<open>A concrete key\<close>

definition demo_key :: pubkey where
  "demo_key = \<lparr>pk_Marshal = ''B'', pk_Type = ''ssh-ed25519'', pk_Fingerprint = ''SHA256:B'', pk_isCert = False\<rparr>"

definition demo_keyed :: store where
  "demo_keyed = store_exec demo_env (DoAddKey 5 demo_key ''laptop'') demo_store"

lemma demo_keyed_reach: "store_reach demo_env demo_keyed"
  unfolding demo_keyed_def by (rule store_reach.step [OF demo_store_reach(1)]) simp

lemma demo_add_key: "\<exists>k. AddKey demo_env 5 demo_key ''laptop'' demo_store = (Inr k, demo_keyed)"
proof -
  have "case fst (AddKey demo_env 5 demo_key ''laptop'' demo_store) of Inl _ \<Rightarrow> False | Inr _ \<Rightarrow> True" by code_simp
  from run_Inr [of "AddKey demo_env 5 demo_key ''laptop''" demo_store, OF this] show ?thesis by (simp add: demo_keyed_def)
qed

section \<open>Properties\<close>

text \<open>C17. The key lookup accepts exactly the enrolled keys: when the disk answers, a reachable store accepts an
  offered key exactly if it is not a certificate, a record is filed under the digest of the key, that record is
  enabled, its account exists in the deployment and is enabled; the answer is that account and that record. Every
  rejection is one of four errors; an unknown key, a disabled key and a key of another deployment cannot be
  told apart.\<close>

theorem lookup_exact:
  assumes L: "env_lawful E" and wf: "store_reach E s" and op: "\<not> st_closed s"
  shows "(fst (LookupByPublicKey (calm E) False dep key s) = Inr (acct, k) \<longleftrightarrow> \<not> pk_isCert key \<and> acct_Enabled acct
      \<and> (\<exists>rec r. view (st_keys s) (json (hex_EncodeToString (sha256_Sum (env_lib E) (pk_Marshal key)))) = Some (NFile (Some rec)) \<and> kr_Enabled rec
          \<and> view (st_accounts s) (json (kr_AccountID rec)) = Some (NFile (Some r)) \<and> account_toCore (env_lib E) r = Inr acct
          \<and> acct_DeploymentID acct = dep \<and> k = key_toCore (env_lib E) rec))
    \<and> (\<forall>e. fst (LookupByPublicKey (calm E) False dep key s) = Inl e \<longrightarrow>
        e \<in> {unknownKeyErr (Sent ErrCertificatesRejected), unknownKeyErr (Sent ErrUnknownKey),
          StoreError AUTH_ACCOUNT_DISABLED (Sent ErrAccountDisabled), storeUnavailable (Sent ErrStoreCorrupt)})"
proof (cases "pk_isCert key")
  case True
  then show ?thesis by (simp add: LookupByPublicKey_def)
next
  case False
  have w: "dirs_distinct s" "wf_image (env_lib E) (img_of s)" using store_reach_wf [OF wf L] by (auto simp: store_wf_def)
  have U: "uuid_lawful (env_lib E)" using L by (simp add: env_lawful_def)
  have ks: "\<exists>rec. y = NFile (Some rec) \<and> key_ok (env_lib E) n rec" if "view (st_keys s) n = Some y" for n y
    using w(2) that by (auto simp: wf_image_def wf_keys_def img_of_def)
  have as: "\<exists>r. y = NFile (Some r) \<and> acct_ok (env_lib E) n r" if "view (st_accounts s) n = Some y" for n y
    using w(2) that by (auto simp: wf_image_def wf_accounts_def img_of_def)
  note l = lookup_calm [OF w(1) op False, of E dep, folded keyFileName_def]
  let ?n = "keyFileName (env_lib E) (pk_Marshal key)"
  show ?thesis
  proof (cases "view (st_keys s) ?n")
    case None
    then show ?thesis using l by (simp add: read_spec_def errIs_def keyFileName_def)
  next
    case (Some y)
    then obtain rec where rec: "view (st_keys s) ?n = Some (NFile (Some rec))" and ok: "key_ok (env_lib E) ?n rec" using ks by blast
    then obtain i where i: "kr_AccountID rec = uuid_String (env_lib E) i" by (auto simp: key_ok_def)
    have n: "acct_name E i = json (kr_AccountID rec)" by (simp add: acct_name_def i)
    show ?thesis
    proof (cases "view (st_accounts s) (json (kr_AccountID rec))")
      case None
      then have "getAccount_spec E (img_of s) i = Inl (StoreError STORE_UNAVAILABLE (Sent ErrAccountNotFound))"
        by (simp add: getAccount_spec_def n img_of_def read_spec_def errIs_def)
      with l rec U None show ?thesis by (simp add: i read_spec_def keyFileName_def [symmetric] errIs_def)
    next
      case (Some y)
      then obtain r where r: "view (st_accounts s) (json (kr_AccountID rec)) = Some (NFile (Some r))"
        and ok: "acct_ok (env_lib E) (json (kr_AccountID rec)) r" using as by blast
      obtain a where a: "account_toCore (env_lib E) r = Inr a" using acct_ok_toCore [OF U ok] by blast
      with r have "getAccount_spec E (img_of s) i = Inr a"
        by (simp add: getAccount_spec_def n img_of_def read_spec_def)
      with l rec U r a False show ?thesis by (auto simp: i read_spec_def keyFileName_def [symmetric])
    qed
  qed
qed

theorem lookup_exact_witness:
  "\<exists>acct k. fst (LookupByPublicKey (calm demo_env) False 9 demo_key demo_keyed) = Inr (acct, k) \<and> acct_Enabled acct \<and> acct_DeploymentID acct = 9"
proof -
  have "case fst (LookupByPublicKey (calm demo_env) False 9 demo_key demo_keyed) of Inl _ \<Rightarrow> False | Inr _ \<Rightarrow> True" by code_simp
  then obtain acct k where r: "fst (LookupByPublicKey (calm demo_env) False 9 demo_key demo_keyed) = Inr (acct, k)" by (auto split: sum.splits)
  have "\<not> st_closed demo_keyed" by code_simp
  from lookup_exact [OF demo_env_lawful demo_keyed_reach this, of 9 demo_key acct k] r show ?thesis by auto
qed

text \<open>Adding a key makes exactly that key work: a successful addition of a new key is followed by a lookup that
  returns its account and the new record, and no second addition of the same key, to any account, can succeed.\<close>

theorem added_key_found:
  assumes E: "env_lawful E" and s: "store_reach E s" and d: "AddKey E a key label s = (Inr k, s')"
    and acct: "fst (GetAccount (calm E) a s) = Inr acct"
  shows "view (st_keys s) (keyFileName (env_lib E) (pk_Marshal key)) = None
    \<and> key_AccountID k = a \<and> key_Label k = label \<and> key_Enabled k
    \<and> fst (LookupByPublicKey (calm E) False (acct_DeploymentID acct) key s') =
        (if acct_Enabled acct then Inr (acct, k) else Inl (StoreError AUTH_ACCOUNT_DISABLED (Sent ErrAccountDisabled)))
    \<and> (\<forall>e. fst (AddKey E b key label' s') \<noteq> Inr e)"
proof -
  have w: "dirs_distinct s" using store_reach_wf [OF s E] by (auto simp: store_wf_def)
  have U: "uuid_lawful (env_lib E)" using E by (simp add: env_lawful_def)
  have op: "\<not> st_closed s" using acct by (auto simp: GetAccount_def checkOpen_def bnd_def split: if_splits)
  obtain r J where o: "disk J s'" and ka: "key_added E a key label r (img_of s) J" and k: "k = key_toCore (env_lib E) r"
    using tripleD(1) [OF AddKey_disk disk_img [OF w] d] by blast
  let ?n = "keyFileName (env_lib E) (pk_Marshal key)"
  from ka obtain i now where nc: "\<not> pk_isCert key" and none: "im_key (img_of s) ?n = None" and J: "J = put_key ?n r (img_of s)" and
    r: "r = \<lparr>kr_ID = uuid_String (env_lib E) i, kr_AccountID = uuid_String (env_lib E) a, kr_KeyDigestSHA256 = sha256_Sum (env_lib E) (pk_Marshal key),
           kr_PublicKeyBlob = pk_Marshal key, kr_Algorithm = pk_Type key, kr_Fingerprint = pk_Fingerprint key, kr_Label = label,
           kr_Enabled = True, kr_CreatedAtMs = now, kr_LastUsedAtMs = None\<rparr>"
    by (auto simp: key_added_def Let_def)
  have o': "dirs_distinct s'" "img_of s' = J" using o by (simp_all add: disk_def)
  have "getAccount_spec E (img_of s) a = Inr acct"
    using acct op quiet_getAccount [OF _ disk_img [OF w], of "calm E" a] by (simp add: GetAccount_def checkOpen_def)
  then have "key_match E (img_of s') (acct_DeploymentID acct) key acct r"
    using U by (simp add: key_match_def o' J r getAccount_spec_def)
  moreover have "\<not> st_closed s'" using op o'(2) J by (metis img_of_def image.select_convs(1) put_sel(10))
  ultimately have "fst (LookupByPublicKey (calm E) False (acct_DeploymentID acct) key s') =
        (if acct_Enabled acct then Inr (acct, k) else Inl (StoreError AUTH_ACCOUNT_DISABLED (Sent ErrAccountDisabled)))"
    using lookup_found [OF o'(1) _ nc] k by simp
  moreover have "fst (AddKey E b key label' s') \<noteq> Inr e" for e
  proof
    assume "fst (AddKey E b key label' s') = Inr e"
    then obtain t where "AddKey E b key label' s' = (Inr e, t)" by (metis prod.collapse)
    from tripleD(1) [OF AddKey_disk disk_img [OF o'(1)] this] show False
      by (auto simp: key_added_def Let_def o' J)
  qed
  ultimately show ?thesis using U none by (auto simp: k r key_toCore_def img_of_def)
qed


theorem added_key_found_witness:
  "\<exists>k acct. fst (LookupByPublicKey (calm demo_env) False (acct_DeploymentID acct) demo_key demo_keyed) = Inr (acct, k) \<and> key_AccountID k = 5"
proof -
  obtain k where a: "AddKey demo_env 5 demo_key ''laptop'' demo_store = (Inr k, demo_keyed)" using demo_add_key by blast
  have "case fst (GetAccount (calm demo_env) 5 demo_store) of Inl _ \<Rightarrow> False | Inr a \<Rightarrow> acct_Enabled a" by code_simp
  then obtain acct where g: "fst (GetAccount (calm demo_env) 5 demo_store) = Inr acct" "acct_Enabled acct" by (auto split: sum.splits)
  from added_key_found [OF demo_env_lawful demo_store_reach(1) a g(1), of 5 "[]"] g(2) show ?thesis by auto
qed

text \<open>A deleted key is refused: a successful deletion removes one record, which carries the given key identifier
  and belongs to the given account, leaves accounts, credentials and all other keys as they were, and every later
  lookup of the deleted key is answered like an unknown key.\<close>

theorem deleted_key_unknown:
  assumes E: "env_lawful E" and s: "store_reach E s" and d: "DeleteKey E a kid s = (Inr u, s')"
  shows "\<exists>n r. view (st_keys s) n = Some (NFile (Some r)) \<and> kr_ID r = uuid_String (env_lib E) kid
     \<and> kr_AccountID r = uuid_String (env_lib E) a \<and> view (st_keys s') = (view (st_keys s))(n := None)
     \<and> view (st_accounts s') = view (st_accounts s) \<and> view (st_credentials s') = view (st_credentials s)
     \<and> (\<forall>key dep. pk_Marshal key = kr_PublicKeyBlob r \<longrightarrow>
          (\<exists>e. fst (LookupByPublicKey (calm E) False dep key s') = Inl e \<and> store_CodeOf e = AUTH_UNKNOWN_KEY))"
proof -
  have w: "dirs_distinct s" "wf_keys (env_lib E) (view (st_keys s))" using store_reach_wf [OF s E] by (auto simp: store_wf_def wf_image_def img_of_def)
  have op: "\<not> st_closed s" using d by (auto simp: DeleteKey_def checkOpen_def bnd_def split: if_splits)
  have o: "dirs_distinct s'" "img_of s' \<in> key_dropped E a kid (img_of s)"
    using tripleD(1) [OF DeleteKey_disk disk_img [OF w(1)] d] becomes_disk by blast+
  then obtain n r where J: "img_of s' = im_key_update (\<lambda>V. V(n := None)) (img_of s)" and n: "view (st_keys s) n = Some (NFile (Some r))"
    and r: "kr_ID r = uuid_String (env_lib E) kid" "kr_AccountID r = uuid_String (env_lib E) a"
    by (auto simp: key_dropped_def img_of_def)
  have v: "view (st_keys s') = (view (st_keys s))(n := None)" "view (st_accounts s') = view (st_accounts s)"
    "view (st_credentials s') = view (st_credentials s)" "st_closed s' = st_closed s"
    using J by (simp_all add: img_of_def)
  have "n = keyFileName (env_lib E) (kr_PublicKeyBlob r)" using wf_keysD [OF w(2) n] by (simp add: key_ok_def)
  then have "\<exists>e. fst (LookupByPublicKey (calm E) False dep key s') = Inl e \<and> store_CodeOf e = AUTH_UNKNOWN_KEY"
    if "pk_Marshal key = kr_PublicKeyBlob r" for key dep
    using lookup_unknown [OF o(1), of E key dep] v op that by simp
  with n r v show ?thesis by blast
qed

theorem deleted_key_unknown_witness:
  "\<exists>kid s'. DeleteKey demo_env 5 kid demo_keyed = (Inr (), s')
     \<and> (\<exists>e. fst (LookupByPublicKey (calm demo_env) False 9 demo_key s') = Inl e \<and> store_CodeOf e = AUTH_UNKNOWN_KEY)"
proof -
  have u: "case fst (AddKey demo_env 5 demo_key ''laptop'' demo_store) of Inl _ \<Rightarrow> False
      | Inr k \<Rightarrow> (case fst (DeleteKey demo_env 5 (key_ID k) demo_keyed) of Inl _ \<Rightarrow> False | Inr _ \<Rightarrow> True)" by code_simp
  obtain k where "AddKey demo_env 5 demo_key ''laptop'' demo_store = (Inr k, demo_keyed)" using demo_add_key by blast
  with u have "case fst (DeleteKey demo_env 5 (key_ID k) demo_keyed) of Inl _ \<Rightarrow> False | Inr _ \<Rightarrow> True" by simp
  from run_Inr [of "DeleteKey demo_env 5 (key_ID k)" demo_keyed, OF this]
  obtain s' where d: "DeleteKey demo_env 5 (key_ID k) demo_keyed = (Inr (), s')" by auto
  have one: "map_of (st_keys demo_keyed) n = Some (FFile (Some r) t) \<Longrightarrow> kr_PublicKeyBlob r = ''B''" for n r t
  proof -
    have "\<forall>p\<in>set (st_keys demo_keyed). case snd p of FFile (Some r) _ \<Rightarrow> kr_PublicKeyBlob r = ''B'' | _ \<Rightarrow> True" by code_simp
    then show "map_of (st_keys demo_keyed) n = Some (FFile (Some r) t) \<Longrightarrow> kr_PublicKeyBlob r = ''B''"
      by (auto dest!: map_of_SomeD)
  qed
  from deleted_key_unknown [OF demo_env_lawful demo_keyed_reach d] obtain n r where n: "view (st_keys demo_keyed) n = Some (NFile (Some r))"
    and a: "\<forall>key dep. pk_Marshal key = kr_PublicKeyBlob r \<longrightarrow>
          (\<exists>e. fst (LookupByPublicKey (calm demo_env) False dep key s') = Inl e \<and> store_CodeOf e = AUTH_UNKNOWN_KEY)"
    by blast
  from n obtain t where "map_of (st_keys demo_keyed) n = Some (FFile (Some r) t)"
    by (auto simp: view_def split: if_splits elim: node.elims)
  with one a have "\<exists>e. fst (LookupByPublicKey (calm demo_env) False 9 demo_key s') = Inl e \<and> store_CodeOf e = AUTH_UNKNOWN_KEY"
    by (simp add: demo_key_def)
  with d show ?thesis by blast
qed

text \<open>Deleting an account leaves no usable remainder: other accounts, their credentials and their keys are
  untouched on every path; the account record goes last, so once it is gone (or the deletion reports success) no
  credential and no key of the account is left, whichever system call failed in between.\<close>

theorem delete_account_complete:
  assumes E: "env_lawful E" and s: "store_reach E s" and d: "DeleteAccount E a s = (r, s')"
  defines "name \<equiv> json (uuid_String (env_lib E) a)"
  shows "(\<forall>n. n \<noteq> name \<longrightarrow> view (st_accounts s') n = view (st_accounts s) n \<and> view (st_credentials s') n = view (st_credentials s) n)
    \<and> (\<forall>n q. view (st_keys s) n = Some (NFile (Some q)) \<and> kr_AccountID q \<noteq> uuid_String (env_lib E) a \<longrightarrow> view (st_keys s') n = view (st_keys s) n)
    \<and> (view (st_accounts s') name \<noteq> view (st_accounts s) name \<or> r = Inr () \<longrightarrow> view (st_credentials s') name = None
         \<and> (\<forall>n q. view (st_keys s') n = Some (NFile (Some q)) \<longrightarrow> kr_AccountID q \<noteq> uuid_String (env_lib E) a))
    \<and> (r = Inr () \<longrightarrow> view (st_accounts s) name \<noteq> None \<and> view (st_accounts s') name = None)"
proof -
  have w: "dirs_distinct s" "wf_keys (env_lib E) (view (st_keys s))" using store_reach_wf [OF s E] by (auto simp: store_wf_def wf_image_def img_of_def)
  note T = tripleD [OF DeleteAccount_disk disk_img [OF w(1)], of E a]
  have o: "dirs_distinct s'" "img_of s' \<in> deleting E a (img_of s)"
    and su: "r = Inr () \<Longrightarrow> img_of s' \<in> deleted E a (img_of s) \<and> im_acc (img_of s) (acct_name E a) \<noteq> None"
    using T d becomes_disk by (cases r; auto simp: deleted_def)+
  note p = deleting_parts [OF o(2)]
  have kl: "\<forall>n q. view (st_keys s') n = Some (NFile (Some q)) \<longrightarrow> kr_AccountID q \<noteq> uuid_String (env_lib E) a" if "keyless E a (view (st_keys s'))"
  proof (intro allI impI notI)
    fix n q assume n: "view (st_keys s') n = Some (NFile (Some q))" and q: "kr_AccountID q = uuid_String (env_lib E) a"
    then have "view (st_keys s) n = Some (NFile (Some q))" using p unfolding cut_from_def by (metis image.select_convs(5) img_of_def option.distinct(1))
    from wf_keysD [OF w(2) this] have "HasSuffix n ''.json''" by (auto simp: key_ok_def keyFileName_def json_def)
    with that n q show False by (auto simp: keyless_def owned_def)
  qed
  have cut: "\<forall>n q. view (st_keys s) n = Some (NFile (Some q)) \<and> kr_AccountID q \<noteq> uuid_String (env_lib E) a \<longrightarrow> view (st_keys s') n = view (st_keys s) n"
  proof (intro allI impI, elim conjE)
    fix n q assume q: "view (st_keys s) n = Some (NFile (Some q))" "kr_AccountID q \<noteq> uuid_String (env_lib E) a"
    have "cut_from E a (view (st_keys s)) (view (st_keys s'))" using p by (simp add: img_of_def)
    with q show "view (st_keys s') n = view (st_keys s) n" unfolding cut_from_def owned_def
      by (metis fnode.inject option.inject)
  qed
  have nm: "acct_name E a = name" by (simp add: acct_name_def name_def)
  show ?thesis using p su kl cut unfolding nm by (auto simp: img_of_def deleted_def nm)
qed

theorem delete_account_complete_witness:
  "\<exists>s'. DeleteAccount demo_env 5 demo_keyed = (Inr (), s') \<and> view (st_accounts s') ''u11111.json'' = None
     \<and> view (st_credentials s') ''u11111.json'' = None"
proof -
  have "case fst (DeleteAccount demo_env 5 demo_keyed) of Inl _ \<Rightarrow> False | Inr _ \<Rightarrow> True" by code_simp
  from run_Inr [of "DeleteAccount demo_env 5" demo_keyed, OF this]
  obtain s' where d: "DeleteAccount demo_env 5 demo_keyed = (Inr (), s')" by auto
  have n: "json ''u11111'' = ''u11111.json''" "uuid_String demo_lib 5 = ''u11111''" by code_simp+
  from delete_account_complete [OF demo_env_lawful demo_keyed_reach d, unfolded demo_env_lib n] d show ?thesis by blast
qed

text \<open>Enrollment is idempotent: enrolling the same Coder user of a deployment again never creates a second
  account; it returns the account of the first time, with the user name refreshed, and the store holds exactly
  one account for that user.\<close>

theorem enrollment_idempotent:
  assumes E: "env_lawful E" and s: "store_reach E s"
    and l: "LookupOrCreateAccountByCoderID E c dep user username s = (Inr (a, created), s')"
    and l': "LookupOrCreateAccountByCoderID E c' dep user username' s' = (Inr (a', created'), s'')"
  shows "\<not> created' \<and> acct_ID a' = acct_ID a \<and> acct_DeploymentID a' = dep \<and> acct_CoderUserID a' = Some user
    \<and> acct_CachedUsername a' = username'
    \<and> (\<exists>!n. \<exists>r. view (st_accounts s'') n = Some (NFile (Some r)) \<and> ar_DeploymentID r = uuid_String (env_lib E) dep
         \<and> ar_CoderUserID r = Some (uuid_String (env_lib E) user))"
proof -
  let ?b = "bound_to (uuid_String (env_lib E) dep) (uuid_String (env_lib E) user)"
  have U: "uuid_lawful (env_lib E)" using E by (simp add: env_lawful_def)
  from Enroll_outcome [OF E s l] obtain n r where s': "store_reach E s'" and r: "im_acc (img_of s') n = Some (NFile (Some r))" "?b r"
    "account_toCore (env_lib E) r = Inr a" by blast
  note o = Enroll_outcome [OF E s' l']
  have nc: "\<not> created'" using o r by blast
  obtain m q where s'': "store_reach E s''" and q: "im_acc (img_of s'') m = Some (NFile (Some q))" "?b q"
    "account_toCore (env_lib E) q = Inr a'" "ar_CachedUsername q = username'" using o by blast
  obtain r' where r': "im_acc (img_of s'') n = Some (NFile (Some r'))" "ar_ID r' = ar_ID r" "?b r'" using o nc r by blast
  have w: "store_wf (env_lib E) s''" using store_reach_wf [OF s'' E] .
  have nm: "n = m" "r' = q" using bound_unique [OF w r'(1) q(1) r'(3) q(2)] by auto
  have "acct_ID a' = acct_ID a" using r(3) q(3) r'(2) nm by (auto simp: account_toCore_def Let_def split: option.splits)
  moreover have "acct_DeploymentID a' = dep" "acct_CoderUserID a' = Some user" "acct_CachedUsername a' = username'"
    using q U by (auto simp: account_toCore_def bound_to_def Let_def split: option.splits)
  moreover have "\<exists>!n. \<exists>r. im_acc (img_of s'') n = Some (NFile (Some r)) \<and> ?b r"
    using q bound_unique [OF w] by blast
  ultimately show ?thesis using nc by (simp add: bound_to_def img_of_def)
qed


theorem enrollment_idempotent_witness:
  "\<exists>a s' a' s''. LookupOrCreateAccountByCoderID demo_env False 9 3 ''bob'' demo_store = (Inr (a, True), s')
     \<and> LookupOrCreateAccountByCoderID demo_env False 9 3 ''bobby'' s' = (Inr (a', False), s'') \<and> acct_ID a' = acct_ID a"
proof -
  let ?m = "LookupOrCreateAccountByCoderID demo_env False 9 3 ''bob''" and ?m' = "LookupOrCreateAccountByCoderID demo_env False 9 3 ''bobby''"
  have u: "case fst (?m demo_store) of Inl _ \<Rightarrow> False | Inr p \<Rightarrow> snd p" by code_simp
  have u': "case fst (?m' (snd (?m demo_store))) of Inl _ \<Rightarrow> False | Inr _ \<Rightarrow> True" by code_simp
  obtain a s' where l: "?m demo_store = (Inr (a, True), s')" using u by (cases "?m demo_store") (auto split: sum.splits)
  then obtain a' c' s'' where l': "?m' s' = (Inr (a', c'), s'')" using u' by (cases "?m' s'") (auto split: sum.splits)
  from enrollment_idempotent [OF demo_env_lawful demo_store_reach(1) l l'] have "\<not> c'" "acct_ID a' = acct_ID a" by blast+
  with l l' show ?thesis by (intro exI [of _ a] exI [of _ s'] exI [of _ a'] exI [of _ s'']) simp
qed

end
