(* ===== verification/Config.thy ===== *)
theory Config
  imports Core
begin

text \<open>
  \<open>internal/config\<close>: the limits section of the configuration; the rest of the package is in \<open>ConfigCheck\<close>.
\<close>

section \<open>The limits section (config.go)\<close>

text \<open>Durations are nanoseconds.\<close>

record ConfigLimits =
  UnauthenticatedConnections :: int
  Handshakes :: int
  ConnectionsPerIP :: int
  ConnectionsPerKey :: int
  ConnectionsPerAccount :: int
  ChannelsPerConnection :: int
  ChannelsPerAccount :: int
  CoderProcesses :: int
  CoderAPIRequests :: int
  RenewalAttemptsPerConnection :: int
  RenewalAttemptsPerAccountPerMinute :: int
  ProcessShutdownGrace :: int
  StderrBufferBytes :: int

end
