(* ===== verification/RateLimits.thy ===== *)
theory RateLimits
  imports Config
begin

text \<open>
  \<open>internal/limits/rate.go\<close>: token buckets per source address, per address for unknown keys, and per
  account for renewals, the bounded bucket maps with their eviction, and the single-use reconnect
  allowance. Times and durations are nanoseconds. Each method runs under the mutex of its map, so a run
  is a sequence of whole calls. The result \<open>None\<close> is a run-time panic (integer division by zero).
\<close>

section \<open>Token buckets\<close>

text \<open>Go's integer division truncates toward zero and panics on a zero divisor.\<close>

definition go_quot :: "int \<Rightarrow> int \<Rightarrow> int option" where
  "go_quot a b = (if b = 0 then None else Some (sgn a * sgn b * (\<bar>a\<bar> div \<bar>b\<bar>)))"

record tokenBucket =
  tb_tokens :: int
  tb_maxTokens :: int
  tb_lastRefill :: int
  tb_refillRate :: int

definition time_Minute :: int where "time_Minute = 60000000000"

text \<open>\<open>wall\<close> is what \<open>time.Now()\<close> returns.\<close>

definition newTokenBucket :: "int \<Rightarrow> int \<Rightarrow> int \<Rightarrow> tokenBucket option" where
  "newTokenBucket wall mx refillPerMin =
     (case go_quot time_Minute refillPerMin of
        None \<Rightarrow> None
      | Some rate \<Rightarrow> Some \<lparr>tb_tokens = mx, tb_maxTokens = mx, tb_lastRefill = wall, tb_refillRate = rate\<rparr>)"

definition refill :: "int \<Rightarrow> tokenBucket \<Rightarrow> tokenBucket option" where
  "refill now tb = (let elapsed = now - tb_lastRefill tb in
     if elapsed < tb_refillRate tb then Some tb
     else case go_quot elapsed (tb_refillRate tb) of
        None \<Rightarrow> None
      | Some tokensToAdd \<Rightarrow>
          if 0 < tokensToAdd
          then Some (tb\<lparr>tb_tokens := min (tb_maxTokens tb) (tb_tokens tb + tokensToAdd), tb_lastRefill := now\<rparr>)
          else Some tb)"

definition Allow :: "int \<Rightarrow> tokenBucket \<Rightarrow> (bool \<times> tokenBucket) option" where
  "Allow now tb = (case refill now tb of
     None \<Rightarrow> None
   | Some b \<Rightarrow> if 0 < tb_tokens b then Some (True, b\<lparr>tb_tokens := tb_tokens b - 1\<rparr>) else Some (False, b))"

fun allow_run :: "int list \<Rightarrow> tokenBucket \<Rightarrow> (bool list \<times> tokenBucket) option" where
  "allow_run [] b = Some ([], b)"
| "allow_run (t # ts) b = (case Allow t b of
     None \<Rightarrow> None
   | Some (r, b') \<Rightarrow> map_option (\<lambda>(rs, b''). (r # rs, b'')) (allow_run ts b'))"

section \<open>Bucket maps\<close>

text \<open>The iteration order of a bucket map does not matter: the candidates are sorted by a key that is
  unique per entry.\<close>

record bucketEntry =
  be_bucket :: tokenBucket
  be_lastSeen :: int

record accountBucketEntry = bucketEntry +
  ab_allowance :: bool

record RateLimits =
  maxPreAuthIP :: int
  ipBucket :: "(string, bucketEntry) gomap"
  keyBucket :: "(string, bucketEntry) gomap"
  accountBucket :: "(uuid, accountBucketEntry) gomap"
  maxMapSize :: int
  maxIdle :: int
  renewalAttemptsPerMin :: int

definition newRateLimitsWithEviction :: "ConfigLimits \<Rightarrow> int \<Rightarrow> int \<Rightarrow> RateLimits" where
  "newRateLimitsWithEviction l mapSize idle =
     \<lparr>maxPreAuthIP = ConnectionsPerIP l, ipBucket = [], keyBucket = [], accountBucket = [],
      maxMapSize = mapSize, maxIdle = idle, renewalAttemptsPerMin = RenewalAttemptsPerAccountPerMinute l\<rparr>"

definition NewRateLimits :: "ConfigLimits \<Rightarrow> RateLimits" where
  "NewRateLimits l = newRateLimitsWithEviction l 10000 (10 * time_Minute)"

section \<open>Eviction\<close>

definition hardLimit :: "RateLimits \<Rightarrow> int" where
  "hardLimit r = (if maxMapSize r < 1 then 1 else maxMapSize r)"

definition targetSize :: "RateLimits \<Rightarrow> int" where
  "targetSize r = (if hardLimit r div 2 < 1 then 1 else hardLimit r div 2)"

text \<open>One deletion loop of the string maps: it leaves the function (flag true) when enough entries are
  gone.\<close>

fun delete_loop :: "'k list \<Rightarrow> int \<Rightarrow> int \<Rightarrow> ('k, 'e) gomap \<Rightarrow> bool \<times> int \<times> ('k, 'e) gomap" where
  "delete_loop [] deleted n m = (False, deleted, m)"
| "delete_loop (k # ks) deleted n m =
     (if n \<le> deleted + 1 then (True, deleted + 1, gm_delete k m) else delete_loop ks (deleted + 1) n (gm_delete k m))"

text \<open>The second loop of the account map tests before it deletes.\<close>

fun delete_loop_pre :: "'k list \<Rightarrow> int \<Rightarrow> int \<Rightarrow> ('k, 'e) gomap \<Rightarrow> ('k, 'e) gomap" where
  "delete_loop_pre [] deleted n m = m"
| "delete_loop_pre (k # ks) deleted n m =
     (if n \<le> deleted then m else delete_loop_pre ks (deleted + 1) n (gm_delete k m))"

definition sortStringBucketCandidates :: "(string, bucketEntry) gomap \<Rightarrow> string list" where
  "sortStringBucketCandidates es = map fst (sort_key (\<lambda>(k, e). (be_lastSeen e, k)) es)"

definition evictStringBucketsIfNeeded ::
    "RateLimits \<Rightarrow> (string, bucketEntry) gomap \<Rightarrow> int \<Rightarrow> (string, bucketEntry) gomap" where
  "evictStringBucketsIfNeeded r buckets now =
     (let currentSize = int (length buckets) in
      if currentSize < hardLimit r then buckets
      else let idleCutoff = now - maxIdle r;
             idleEntries = sortStringBucketCandidates (filter (\<lambda>(k, e). be_lastSeen e < idleCutoff) buckets);
             otherEntries = sortStringBucketCandidates (filter (\<lambda>(k, e). \<not> be_lastSeen e < idleCutoff) buckets)
        in if otherEntries = [] then fold gm_delete idleEntries buckets
           else let n = currentSize - targetSize r + 1 in
             case delete_loop idleEntries 0 n buckets of
               (True, _, m) \<Rightarrow> m
             | (False, d, m) \<Rightarrow> snd (snd (delete_loop otherEntries d n m)))"

definition sortAccountBucketCandidates :: "golib \<Rightarrow> (uuid, accountBucketEntry) gomap \<Rightarrow> uuid list" where
  "sortAccountBucketCandidates L es = map fst (sort_key (\<lambda>(k, e). (be_lastSeen e, uuid_String L k)) es)"

definition evictAccountBucketsIfNeeded :: "golib \<Rightarrow> int \<Rightarrow> RateLimits \<Rightarrow> bool \<times> RateLimits" where
  "evictAccountBucketsIfNeeded L now r =
     (let m = accountBucket r; currentSize = int (length m) in
      if currentSize < hardLimit r then (True, r)
      else let idleCutoff = now - maxIdle r;
             cands = filter (\<lambda>(k, e). \<not> ab_allowance e) m;
             idleEntries = sortAccountBucketCandidates L (filter (\<lambda>(k, e). be_lastSeen e < idleCutoff) cands);
             otherEntries = sortAccountBucketCandidates L (filter (\<lambda>(k, e). \<not> be_lastSeen e < idleCutoff) cands);
             n = currentSize - targetSize r + 1;
             m' = (if otherEntries = [] then fold gm_delete idleEntries m
                   else case delete_loop idleEntries 0 n m of (_, d, m1) \<Rightarrow> delete_loop_pre otherEntries d n m1)
        in (int (length m') < hardLimit r, r\<lparr>accountBucket := m'\<rparr>))"

section \<open>The gates\<close>

text \<open>\<open>now\<close> is the reading of the injected clock, \<open>wall\<close> the one of \<open>time.Now\<close> inside
  \<open>newTokenBucket\<close>. \<open>bucket_gate\<close> is the code the two address gates share.\<close>

definition bucket_gate ::
    "RateLimits \<Rightarrow> int \<Rightarrow> int \<Rightarrow> int \<Rightarrow> string \<Rightarrow> (string, bucketEntry) gomap
     \<Rightarrow> (bool \<times> (string, bucketEntry) gomap) option" where
  "bucket_gate r mx now wall ip m =
     (case (case map_of m ip of
              Some e \<Rightarrow> Some (e, m)
            | None \<Rightarrow> map_option (\<lambda>b. (\<lparr>be_bucket = b, be_lastSeen = now\<rparr>, evictStringBucketsIfNeeded r m now))
                        (newTokenBucket wall mx mx)) of
        None \<Rightarrow> None
      | Some (e, m') \<Rightarrow> (case Allow now (be_bucket e) of
            None \<Rightarrow> None
          | Some (ok, b) \<Rightarrow> Some (ok, gm_put ip (e\<lparr>be_lastSeen := now, be_bucket := b\<rparr>) m')))"

definition AllowPreAuthIP :: "int \<Rightarrow> int \<Rightarrow> string \<Rightarrow> RateLimits \<Rightarrow> (bool \<times> RateLimits) option" where
  "AllowPreAuthIP now wall ip r =
     map_option (\<lambda>(ok, m). (ok, r\<lparr>ipBucket := m\<rparr>)) (bucket_gate r (maxPreAuthIP r) now wall ip (ipBucket r))"

definition AllowUnknownKeyAttempt :: "int \<Rightarrow> int \<Rightarrow> string \<Rightarrow> RateLimits \<Rightarrow> (bool \<times> RateLimits) option" where
  "AllowUnknownKeyAttempt now wall ip r =
     map_option (\<lambda>(ok, m). (ok, r\<lparr>keyBucket := m\<rparr>)) (bucket_gate r 10 now wall ip (keyBucket r))"

definition AllowRenewalAttempt :: "golib \<Rightarrow> int \<Rightarrow> int \<Rightarrow> uuid \<Rightarrow> RateLimits \<Rightarrow> (bool \<times> RateLimits) option" where
  "AllowRenewalAttempt L now wall a r =
     (case map_of (accountBucket r) a of
        None \<Rightarrow>
          (case evictAccountBucketsIfNeeded L now r of
             (False, r') \<Rightarrow> Some (False, r')
           | (True, r') \<Rightarrow>
               (case newTokenBucket wall (renewalAttemptsPerMin r) (renewalAttemptsPerMin r) of
                  None \<Rightarrow> None
                | Some b \<Rightarrow> (case Allow now b of
                      None \<Rightarrow> None
                    | Some (ok, b') \<Rightarrow> Some (ok, r'\<lparr>accountBucket := gm_put a
                        \<lparr>be_bucket = b', be_lastSeen = now, ab_allowance = False\<rparr> (accountBucket r')\<rparr>))))
      | Some e \<Rightarrow>
          if ab_allowance e
          then Some (True, r\<lparr>accountBucket :=
                 gm_put a (e\<lparr>be_lastSeen := now, ab_allowance := False\<rparr>) (accountBucket r)\<rparr>)
          else (case Allow now (be_bucket e) of
              None \<Rightarrow> None
            | Some (ok, b) \<Rightarrow> Some (ok, r\<lparr>accountBucket :=
                gm_put a (e\<lparr>be_lastSeen := now, be_bucket := b\<rparr>) (accountBucket r)\<rparr>)))"

definition GrantReconnectAllowance :: "golib \<Rightarrow> int \<Rightarrow> int \<Rightarrow> uuid \<Rightarrow> RateLimits \<Rightarrow> RateLimits option" where
  "GrantReconnectAllowance L now wall a r =
     (case map_of (accountBucket r) a of
        None \<Rightarrow>
          (case evictAccountBucketsIfNeeded L now r of
             (False, r') \<Rightarrow> Some r'
           | (True, r') \<Rightarrow>
               map_option (\<lambda>b. r'\<lparr>accountBucket := gm_put a
                   \<lparr>be_bucket = b, be_lastSeen = now, ab_allowance = True\<rparr> (accountBucket r')\<rparr>)
                 (newTokenBucket wall (renewalAttemptsPerMin r) (renewalAttemptsPerMin r)))
      | Some e \<Rightarrow> Some (r\<lparr>accountBucket :=
            gm_put a (e\<lparr>be_lastSeen := now, ab_allowance := True\<rparr>) (accountBucket r)\<rparr>))"

text \<open>A call with its clock readings, and a run of calls; \<open>None\<close> if one of them panics.\<close>

datatype rate_op =
    OpPreAuthIP int int string | OpUnknownKey int int string
  | OpRenewal int int uuid | OpGrant int int uuid

fun rate_step :: "golib \<Rightarrow> rate_op \<Rightarrow> RateLimits \<Rightarrow> RateLimits option" where
  "rate_step L (OpPreAuthIP now wall ip) r = map_option snd (AllowPreAuthIP now wall ip r)"
| "rate_step L (OpUnknownKey now wall ip) r = map_option snd (AllowUnknownKeyAttempt now wall ip r)"
| "rate_step L (OpRenewal now wall a) r = map_option snd (AllowRenewalAttempt L now wall a r)"
| "rate_step L (OpGrant now wall a) r = GrantReconnectAllowance L now wall a r"

fun rate_run :: "golib \<Rightarrow> rate_op list \<Rightarrow> RateLimits \<Rightarrow> RateLimits option" where
  "rate_run L [] r = Some r"
| "rate_run L (p # ps) r = (case rate_step L p r of None \<Rightarrow> None | Some r' \<Rightarrow> rate_run L ps r')"

section \<open>Buckets: bounds and rate\<close>

definition bucket_ok :: "int \<Rightarrow> tokenBucket \<Rightarrow> bool" where
  "bucket_ok m b \<longleftrightarrow> tb_maxTokens b = m \<and> 0 \<le> tb_tokens b \<and> tb_tokens b \<le> m \<and> 0 < tb_refillRate b"

lemma go_quot_nonneg: "0 \<le> a \<Longrightarrow> 0 < b \<Longrightarrow> go_quot a b = Some (a div b)"
  by (cases "a = 0") (auto simp: go_quot_def sgn_if)

lemma refill_cases:
  assumes "bucket_ok m b"
  shows "refill now b = Some (if now - tb_lastRefill b < tb_refillRate b then b
    else b\<lparr>tb_tokens := min m (tb_tokens b + (now - tb_lastRefill b) div tb_refillRate b), tb_lastRefill := now\<rparr>)"
proof (cases "now - tb_lastRefill b < tb_refillRate b")
  case False
  with assms have "0 < (now - tb_lastRefill b) div tb_refillRate b"
    using pos_imp_zdiv_pos_iff [of "tb_refillRate b" "now - tb_lastRefill b"] by (simp add: bucket_ok_def)
  with False assms show ?thesis
    using go_quot_nonneg [of "now - tb_lastRefill b" "tb_refillRate b"]
    by (simp add: refill_def Let_def bucket_ok_def)
qed (simp add: refill_def Let_def)

lemma Allow_ok:
  assumes "bucket_ok m b"
  obtains r b' where "Allow now b = Some (r, b')" "bucket_ok m b'" "tb_refillRate b' = tb_refillRate b"
proof -
  obtain c where c: "refill now b = Some c" "bucket_ok m c" "tb_refillRate c = tb_refillRate b"
    using assms pos_imp_zdiv_nonneg_iff [of "tb_refillRate b" "now - tb_lastRefill b"]
    by (auto simp: refill_cases bucket_ok_def)
  then show ?thesis using that
    by (cases "0 < tb_tokens c") (auto simp: Allow_def bucket_ok_def)
qed

lemma newTokenBucket_ok:
  assumes "0 < mx" "mx \<le> time_Minute"
  shows "newTokenBucket wall mx mx = Some \<lparr>tb_tokens = mx, tb_maxTokens = mx, tb_lastRefill = wall,
      tb_refillRate = time_Minute div mx\<rparr>" "0 < time_Minute div mx"
  using assms go_quot_nonneg [of time_Minute mx] pos_imp_zdiv_pos_iff [of mx time_Minute]
  by (simp_all add: newTokenBucket_def time_Minute_def)

text \<open>The spent tokens are paid for by the initial ones and the elapsed refill periods.\<close>

lemma div_add_le:
  fixes r :: int assumes "0 < r" shows "a div r + b div r \<le> (a + b) div r"
proof -
  have "0 \<le> (a mod r + b mod r) div r"
    using assms by (simp add: pos_imp_zdiv_nonneg_iff)
  then show ?thesis using div_add1_eq [of a b r] by simp
qed

lemma allow_run_bound:
  assumes "bucket_ok m b" "sorted (tb_lastRefill b # ts)"
    "r = tb_refillRate b" "tb_tokens b + used \<le> m + (tb_lastRefill b - t0) div r"
  shows "\<exists>bs b'. allow_run ts b = Some (bs, b')
    \<and> int (length (filter id bs)) + used \<le> m + (last (tb_lastRefill b # ts) - t0) div r"
  using assms
proof (induction ts arbitrary: b used)
  case Nil
  then show ?case by (auto simp: bucket_ok_def)
next
  case (Cons t ts)
  obtain c where c: "refill t b = Some c" "bucket_ok m c" "tb_refillRate c = r"
    "tb_tokens c + used \<le> m + (tb_lastRefill c - t0) div r" "tb_lastRefill b \<le> tb_lastRefill c" "tb_lastRefill c \<le> t"
  proof (cases "t - tb_lastRefill b < r")
    case True
    then have "refill t b = Some b" using refill_cases [OF Cons.prems(1), of t] Cons.prems(3) by simp
    with Cons.prems show ?thesis by (intro that [of b]) simp_all
  next
    case False
    have r: "0 < r" using Cons.prems by (simp add: bucket_ok_def)
    have "(tb_lastRefill b - t0) div r + (t - tb_lastRefill b) div r \<le> (t - t0) div r"
      using div_add_le [OF r, of "tb_lastRefill b - t0" "t - tb_lastRefill b"] by simp
    moreover have "0 \<le> (t - tb_lastRefill b) div r"
      using False r pos_imp_zdiv_nonneg_iff [of r "t - tb_lastRefill b"] by simp
    moreover have "refill t b = Some (b\<lparr>tb_tokens := min m (tb_tokens b + (t - tb_lastRefill b) div r),
        tb_lastRefill := t\<rparr>)"
      using False refill_cases [OF Cons.prems(1), of t] Cons.prems(3) by simp
    ultimately show ?thesis
      using Cons.prems by (intro that) (assumption, simp_all add: bucket_ok_def)
  qed
  have s: "sorted (tb_lastRefill c # ts)" using Cons.prems c by auto
  define ok where "ok = (0 < tb_tokens c)"
  define d where "d = (if ok then c\<lparr>tb_tokens := tb_tokens c - 1\<rparr> else c)"
  have al: "Allow t b = Some (ok, d)" using c by (simp add: Allow_def ok_def d_def)
  have dk: "bucket_ok m d" "sorted (tb_lastRefill d # ts)" "r = tb_refillRate d"
    "tb_tokens d + (used + (if ok then 1 else 0)) \<le> m + (tb_lastRefill d - t0) div r"
    using c s by (auto simp: d_def ok_def bucket_ok_def)
  have "last (tb_lastRefill d # ts) \<le> last (tb_lastRefill b # t # ts)" using c by (simp add: d_def)
  then have "(last (tb_lastRefill d # ts) - t0) div r \<le> (last (tb_lastRefill b # t # ts) - t0) div r"
    using dk by (intro zdiv_mono1) (auto simp: bucket_ok_def)
  with Cons.IH [OF dk(1,2) dk(3,4)] al show ?case by (auto simp: algebra_simps split: if_splits)
qed


section \<open>Eviction and the maps\<close>

lemma delete_loop_eq:
  "d < n \<Longrightarrow> delete_loop ks d n m =
     (n \<le> d + int (length ks), min n (d + int (length ks)), fold gm_delete (take (nat (n - d)) ks) m)"
proof (induction ks arbitrary: d m)
  case (Cons k ks)
  then have "nat (n - d) = Suc (nat (n - (d + 1)))" by simp
  with Cons show ?case by auto
qed simp

lemma delete_loop_pre_eq:
  "delete_loop_pre ks d n m = fold gm_delete (take (nat (n - d)) ks) m"
proof (induction ks arbitrary: d m)
  case (Cons k ks)
  show ?case
  proof (cases "n \<le> d")
    case False
    then have "nat (n - d) = Suc (nat (n - (d + 1)))" by simp
    with Cons False show ?thesis by simp
  qed simp
qed simp

text \<open>The candidate lists together name every entry that may be evicted, once.\<close>

lemma length_filter_keys:
  assumes "distinct (map fst m)" "distinct ks" "set ks \<subseteq> fst ` set m"
  shows "length (filter (\<lambda>p. fst p \<notin> set ks) m) = length m - length ks"
proof -
  have "length (filter (\<lambda>p. fst p \<notin> set ks) m) = card (fst ` set m - set ks)"
  proof -
    have "distinct (map fst (filter (\<lambda>p. fst p \<notin> set ks) m))"
      using assms(1) by (rule distinct_map_filter)
    then have "length (filter (\<lambda>p. fst p \<notin> set ks) m) = card (set (map fst (filter (\<lambda>p. fst p \<notin> set ks) m)))"
      by (metis distinct_card length_map)
    also have "set (map fst (filter (\<lambda>p. fst p \<notin> set ks) m)) = fst ` set m - set ks" by auto
    finally show ?thesis .
  qed
  also have "\<dots> = card (fst ` set m) - card (set ks)" using assms(3) by (simp add: card_Diff_subset)
  also have "\<dots> = length m - length ks"
    using assms(1,2) by (metis distinct_card length_map set_map)
  finally show ?thesis .
qed

lemma candidates:
  fixes P :: "'k \<times> 'e \<Rightarrow> bool" and f :: "'k \<times> 'e \<Rightarrow> 'o::linorder"
  assumes "distinct (map fst m)"
  defines "ks \<equiv> map fst (sort_key f (filter P m)) @ map fst (sort_key f (filter (\<lambda>x. \<not> P x) m))"
  shows "distinct ks" "set ks = fst ` set m" "length ks = length m"
proof -
  have d: "distinct (map fst (sort_key f (filter Q m)))" for Q
    using assms(1) by (metis distinct_map distinct_sort distinct_filter inj_on_subset filter_is_subset set_sort)
  have "a \<in> set m \<Longrightarrow> b \<in> set m \<Longrightarrow> fst a = fst b \<Longrightarrow> a = b" for a b
    using assms(1) by (metis distinct_map inj_onD)
  then show "distinct ks" unfolding ks_def using d by auto
  show "set ks = fst ` set m" unfolding ks_def by (auto intro: rev_image_eqI)
  show "length ks = length m" unfolding ks_def by (simp add: sum_length_filter_compl)
qed

lemma hardLimit_pos: "0 < hardLimit r" "1 \<le> targetSize r" "targetSize r \<le> hardLimit r"
  by (auto simp: hardLimit_def targetSize_def)

lemma evictString_eq:
  assumes "distinct (map fst m)"
  obtains S where "evictStringBucketsIfNeeded r m now = filter (\<lambda>p. fst p \<notin> S) m"
    "int (length (evictStringBucketsIfNeeded r m now)) < hardLimit r"
proof (cases "int (length m) < hardLimit r")
  case True
  then show ?thesis using that [of "{}"] by (simp add: evictStringBucketsIfNeeded_def)
next
  case False
  define P where "P = (\<lambda>(k :: string, e :: bucketEntry). be_lastSeen e < now - maxIdle r)"
  define f where "f = (\<lambda>(k :: string, e :: bucketEntry). (be_lastSeen e, k))"
  define ids os where "ids = map fst (sort_key f (filter P m))" and "os = map fst (sort_key f (filter (\<lambda>x. \<not> P x) m))"
  have nP: "(\<lambda>(k :: string, e :: bucketEntry). \<not> be_lastSeen e < now - maxIdle r) = (\<lambda>x. \<not> P x)" by (auto simp: P_def)
  note c = candidates [OF assms, of f P, folded ids_def os_def]
  define n where "n = int (length m) - targetSize r + 1"
  have n: "0 < n" "n \<le> int (length m)" using False hardLimit_pos [of r] by (auto simp: n_def)
  define E where "E = evictStringBucketsIfNeeded r m now"
  have E: "E = (if os = [] then fold gm_delete ids m else case delete_loop ids 0 n m of
      (True, _, m') \<Rightarrow> m' | (False, d, m') \<Rightarrow> snd (snd (delete_loop os d n m')))"
    using False unfolding E_def evictStringBucketsIfNeeded_def sortStringBucketCandidates_def Let_def
      nP P_def [symmetric] f_def [symmetric] ids_def [symmetric] os_def [symmetric] n_def [symmetric] by simp
  define vs where "vs = (if os = [] then ids else take (nat n) (ids @ os))"
  have "E = fold gm_delete vs m"
  proof (cases "os = []")
    case False
    with n E show ?thesis
      by (auto simp: vs_def delete_loop_eq nat_diff_distrib' split: bool.splits)
  qed (simp add: E vs_def)
  then have Ef: "E = filter (\<lambda>p. fst p \<notin> set vs) m" by (simp add: fold_gm_delete)
  have v: "distinct vs" "set vs \<subseteq> fst ` set m"
    using c(1,2) set_take_subset [of "nat n" "ids @ os"] unfolding vs_def
    by (auto simp del: take_append intro: distinct_take)
  have "length E = length m - length vs" unfolding Ef by (rule length_filter_keys [OF assms v])
  moreover have "length vs = (if os = [] then length m else nat n)"
    using c(3) n by (auto simp: vs_def simp del: take_append length_append)
  ultimately have "int (length E) < hardLimit r"
    using n hardLimit_pos [of r] by (auto simp: n_def)
  with Ef that show ?thesis unfolding E_def by blast
qed

lemma evictAccount_eq:
  obtains S where "evictAccountBucketsIfNeeded L now r =
      (int (length (filter (\<lambda>p. fst p \<notin> S) (accountBucket r))) < hardLimit r,
       r\<lparr>accountBucket := filter (\<lambda>p. fst p \<notin> S) (accountBucket r)\<rparr>)"
    "S \<subseteq> {k. \<exists>e. (k, e) \<in> set (accountBucket r) \<and> \<not> ab_allowance e}"
proof (cases "int (length (accountBucket r)) < hardLimit r")
  case True
  then show ?thesis using that [of "{}"] by (simp add: evictAccountBucketsIfNeeded_def)
next
  case False
  define m where "m = accountBucket r"
  define cs where "cs = filter (\<lambda>(k, e). \<not> ab_allowance e) m"
  define ids where "ids = sortAccountBucketCandidates L (filter (\<lambda>(k, e). be_lastSeen e < now - maxIdle r) cs)"
  define os where "os = sortAccountBucketCandidates L (filter (\<lambda>(k, e). \<not> be_lastSeen e < now - maxIdle r) cs)"
  define n where "n = int (length m) - targetSize r + 1"
  have n: "0 < n" using False hardLimit_pos [of r] by (auto simp: n_def m_def)
  define vs where "vs = (if os = [] then ids else take (nat n) ids @ take (nat (n - min n (int (length ids)))) os)"
  define m' where "m' = filter (\<lambda>p. fst p \<notin> set vs) m"
  have "(if os = [] then fold gm_delete ids m
         else case delete_loop ids 0 n m of (_, d, m1) \<Rightarrow> delete_loop_pre os d n m1) = m'"
    using n by (simp add: m'_def vs_def delete_loop_eq delete_loop_pre_eq fold_gm_delete Let_def conj_commute)
  then have "evictAccountBucketsIfNeeded L now r = (int (length m') < hardLimit r, r\<lparr>accountBucket := m'\<rparr>)"
    using False unfolding evictAccountBucketsIfNeeded_def Let_def m_def [symmetric] cs_def [symmetric]
      ids_def [symmetric] os_def [symmetric] n_def [symmetric] by simp
  moreover have "\<exists>e. (k, e) \<in> set m \<and> \<not> ab_allowance e" if "k \<in> set vs" for k
  proof -
    have "k \<in> set ids \<union> set os"
      using that set_take_subset unfolding vs_def by (fastforce split: if_splits dest: in_set_takeD)
    then show ?thesis by (auto simp: ids_def os_def cs_def sortAccountBucketCandidates_def)
  qed
  ultimately show ?thesis using that [of "set vs"] by (auto simp: m'_def m_def)
qed


section \<open>The invariant of the limiter\<close>

definition map_ok :: "int \<Rightarrow> int \<Rightarrow> ('k, 'z bucketEntry_scheme) gomap \<Rightarrow> bool" where
  "map_ok h mx m \<longleftrightarrow> distinct (map fst m) \<and> int (length m) \<le> h \<and> (\<forall>(k, e)\<in>set m. bucket_ok mx (be_bucket e))"

definition gate_range :: "int \<Rightarrow> bool" where
  "gate_range x \<longleftrightarrow> 0 < x \<and> x \<le> time_Minute"

definition rate_inv :: "RateLimits \<Rightarrow> bool" where
  "rate_inv r \<longleftrightarrow> gate_range (maxPreAuthIP r) \<and> gate_range (renewalAttemptsPerMin r)
     \<and> map_ok (hardLimit r) (maxPreAuthIP r) (ipBucket r) \<and> map_ok (hardLimit r) 10 (keyBucket r)
     \<and> map_ok (hardLimit r) (renewalAttemptsPerMin r) (accountBucket r)"

lemma gm_put_ok:
  assumes "map_ok h mx m" "bucket_ok mx (be_bucket e)" "k \<in> fst ` set m \<or> int (length m) < h"
  shows "map_ok h mx (gm_put k e m)"
proof (cases "k \<in> fst ` set m")
  case True
  then have "map fst (gm_put k e m) = map fst m" "length (gm_put k e m) = length m"
    by (simp_all add: gm_put_def case_prod_beta comp_def)
  moreover have "bucket_ok mx (be_bucket d)" if "(j, d) \<in> set (gm_put k e m)" for j d
    using that True assms(1,2) by (auto simp: gm_put_def map_ok_def split: if_splits)
  ultimately show ?thesis using assms(1) unfolding map_ok_def by (metis case_prodI2)
next
  case False
  with assms show ?thesis by (auto simp: map_ok_def gm_put_def)
qed

lemma filter_ok:
  assumes "map_ok h mx m" shows "map_ok h mx (filter P m)"
proof -
  have "int (length (filter P m)) \<le> h"
    using assms length_filter_le [of P m] unfolding map_ok_def by linarith
  with assms show ?thesis unfolding map_ok_def by (auto simp: distinct_map_filter)
qed

lemma map_ok_lookup: "map_ok h mx m \<Longrightarrow> map_of m k = Some e \<Longrightarrow> bucket_ok mx (be_bucket e) \<and> k \<in> fst ` set m"
  by (auto simp: map_ok_def dest!: map_of_SomeD intro: rev_image_eqI)

lemma fresh_bucket_ok:
  assumes "gate_range mx"
  obtains b where "newTokenBucket wall mx mx = Some b" "bucket_ok mx b"
  using newTokenBucket_ok(1) [of mx wall] newTokenBucket_ok(2) [of mx] assms that
  by (auto simp: gate_range_def bucket_ok_def)

lemma bucket_gate_ok:
  assumes ok: "map_ok (hardLimit r) mx m" and g: "gate_range mx"
  obtains b m' where "bucket_gate r mx now wall ip m = Some (b, m')" "map_ok (hardLimit r) mx m'"
proof (cases "map_of m ip")
  case (Some e)
  with ok have e: "bucket_ok mx (be_bucket e)" "ip \<in> fst ` set m" by (auto dest: map_ok_lookup)
  from Allow_ok [OF e(1), of now] obtain b c where "Allow now (be_bucket e) = Some (b, c)" "bucket_ok mx c" .
  with Some e gm_put_ok [OF ok, of "e\<lparr>be_lastSeen := now, be_bucket := c\<rparr>" ip] that show ?thesis
    by (simp add: bucket_gate_def)
next
  case None
  obtain S where S: "evictStringBucketsIfNeeded r m now = filter (\<lambda>p. fst p \<notin> S) m"
    "int (length (evictStringBucketsIfNeeded r m now)) < hardLimit r"
    using evictString_eq [of m r now] ok by (auto simp: map_ok_def)
  obtain b where b: "newTokenBucket wall mx mx = Some b" "bucket_ok mx b" using fresh_bucket_ok [OF g] .
  from Allow_ok [OF b(2), of now] obtain a c where "Allow now b = Some (a, c)" "bucket_ok mx c" .
  with None b S gm_put_ok [OF filter_ok [OF ok], of "\<lparr>be_bucket = c, be_lastSeen = now\<rparr>" ip] that show ?thesis
    by (simp add: bucket_gate_def)
qed

lemma hardLimit_update [simp]:
  "hardLimit (r\<lparr>ipBucket := a\<rparr>) = hardLimit r" "hardLimit (r\<lparr>keyBucket := b\<rparr>) = hardLimit r"
  "hardLimit (r\<lparr>accountBucket := c\<rparr>) = hardLimit r"
  by (simp_all add: hardLimit_def)

lemma evictAccount_inv:
  assumes "rate_inv r" "evictAccountBucketsIfNeeded L now r = (b, r')"
  shows "rate_inv r' \<and> (b \<longrightarrow> int (length (accountBucket r')) < hardLimit r')
    \<and> renewalAttemptsPerMin r' = renewalAttemptsPerMin r \<and> maxMapSize r' = maxMapSize r"
proof -
  obtain S where "evictAccountBucketsIfNeeded L now r =
      (int (length (filter (\<lambda>p. fst p \<notin> S) (accountBucket r))) < hardLimit r,
       r\<lparr>accountBucket := filter (\<lambda>p. fst p \<notin> S) (accountBucket r)\<rparr>)"
    by (rule evictAccount_eq)
  with assms show ?thesis by (auto simp: rate_inv_def filter_ok)
qed

lemma account_put_inv:
  assumes "rate_inv r" "bucket_ok (renewalAttemptsPerMin r) (be_bucket e)"
    "a \<in> fst ` set (accountBucket r) \<or> int (length (accountBucket r)) < hardLimit r"
  shows "rate_inv (r\<lparr>accountBucket := gm_put a e (accountBucket r)\<rparr>)"
  using assms gm_put_ok [of "hardLimit r" "renewalAttemptsPerMin r" "accountBucket r" e a]
  by (simp add: rate_inv_def)


lemma rate_step_inv:
  assumes "rate_inv r" obtains r' where "rate_step L p r = Some r'" "rate_inv r'" "maxMapSize r' = maxMapSize r"
proof (cases p)
  case (OpPreAuthIP now wall ip)
  from bucket_gate_ok [of r "maxPreAuthIP r" "ipBucket r" now wall ip] assms obtain b m where
    "bucket_gate r (maxPreAuthIP r) now wall ip (ipBucket r) = Some (b, m)" "map_ok (hardLimit r) (maxPreAuthIP r) m"
    by (auto simp: rate_inv_def)
  with assms OpPreAuthIP that show ?thesis by (simp add: AllowPreAuthIP_def rate_inv_def)
next
  case (OpUnknownKey now wall ip)
  have "gate_range 10" by (simp add: gate_range_def time_Minute_def)
  with bucket_gate_ok [of r 10 "keyBucket r" now wall ip] assms obtain b m where
    "bucket_gate r 10 now wall ip (keyBucket r) = Some (b, m)" "map_ok (hardLimit r) 10 m"
    by (auto simp: rate_inv_def)
  with assms OpUnknownKey that show ?thesis by (simp add: AllowUnknownKeyAttempt_def rate_inv_def)
next
  case (OpRenewal now wall a)
  show ?thesis
  proof (cases "map_of (accountBucket r) a")
    case None
    obtain b r' where e: "evictAccountBucketsIfNeeded L now r = (b, r')" by fastforce
    note I = evictAccount_inv [OF assms e]
    obtain c where c: "newTokenBucket wall (renewalAttemptsPerMin r) (renewalAttemptsPerMin r) = Some c"
      "bucket_ok (renewalAttemptsPerMin r) c"
      using fresh_bucket_ok assms unfolding rate_inv_def by blast
    from Allow_ok [OF c(2), of now] obtain ok d where d: "Allow now c = Some (ok, d)" "bucket_ok (renewalAttemptsPerMin r) d" .
    show ?thesis
      using that None e I c(1) d OpRenewal
        account_put_inv [of r' "\<lparr>be_bucket = d, be_lastSeen = now, ab_allowance = False\<rparr>" a]
      by (cases b) (simp_all add: AllowRenewalAttempt_def)
  next
    case (Some e)
    with assms have e: "bucket_ok (renewalAttemptsPerMin r) (be_bucket e)" "a \<in> fst ` set (accountBucket r)"
      by (auto simp: rate_inv_def dest: map_ok_lookup)
    from Allow_ok [OF e(1), of now] obtain ok d where d: "Allow now (be_bucket e) = Some (ok, d)"
      "bucket_ok (renewalAttemptsPerMin r) d" .
    show ?thesis
      using that Some e d OpRenewal account_put_inv [OF assms, of "e\<lparr>be_lastSeen := now, ab_allowance := False\<rparr>" a]
        account_put_inv [OF assms, of "e\<lparr>be_lastSeen := now, be_bucket := d\<rparr>" a]
      by (cases "ab_allowance e") (simp_all add: AllowRenewalAttempt_def)
  qed
next
  case (OpGrant now wall a)
  show ?thesis
  proof (cases "map_of (accountBucket r) a")
    case None
    obtain b r' where e: "evictAccountBucketsIfNeeded L now r = (b, r')" by fastforce
    note I = evictAccount_inv [OF assms e]
    obtain c where c: "newTokenBucket wall (renewalAttemptsPerMin r) (renewalAttemptsPerMin r) = Some c"
      "bucket_ok (renewalAttemptsPerMin r) c"
      using fresh_bucket_ok assms unfolding rate_inv_def by blast
    show ?thesis
      using that None e I c OpGrant
        account_put_inv [of r' "\<lparr>be_bucket = c, be_lastSeen = now, ab_allowance = True\<rparr>" a]
      by (cases b) (simp_all add: GrantReconnectAllowance_def)
  next
    case (Some e)
    with assms have e: "bucket_ok (renewalAttemptsPerMin r) (be_bucket e)" "a \<in> fst ` set (accountBucket r)"
      by (auto simp: rate_inv_def dest: map_ok_lookup)
    show ?thesis
      using that Some e OpGrant account_put_inv [OF assms, of "e\<lparr>be_lastSeen := now, ab_allowance := True\<rparr>" a]
      by (simp add: GrantReconnectAllowance_def)
  qed
qed

lemma rate_run_inv:
  "rate_inv r \<Longrightarrow> \<exists>r'. rate_run L ps r = Some r' \<and> rate_inv r' \<and> maxMapSize r' = maxMapSize r"
proof (induction ps arbitrary: r)
  case (Cons p ps)
  from rate_step_inv [OF Cons.prems, of L p] obtain r1 where
    "rate_step L p r = Some r1" "rate_inv r1" "maxMapSize r1 = maxMapSize r" .
  with Cons.IH [of r1] show ?case by auto
qed simp

lemma new_rate_inv:
  "gate_range (ConnectionsPerIP l) \<Longrightarrow> gate_range (RenewalAttemptsPerAccountPerMinute l) \<Longrightarrow>
   rate_inv (newRateLimitsWithEviction l n i)"
  using hardLimit_pos(1) [of "newRateLimitsWithEviction l n i"]
  by (simp add: rate_inv_def map_ok_def newRateLimitsWithEviction_def)

text \<open>An allowance survives every call except the renewal attempt of its own account.\<close>

definition has_allowance :: "uuid \<Rightarrow> RateLimits \<Rightarrow> bool" where
  "has_allowance a r \<longleftrightarrow> (\<exists>e. map_of (accountBucket r) a = Some e \<and> ab_allowance e)"

fun consumes :: "uuid \<Rightarrow> rate_op \<Rightarrow> bool" where
  "consumes a (OpRenewal _ _ b) = (a = b)"
| "consumes a _ = False"

lemma evict_keeps_allowance:
  assumes "rate_inv r" "has_allowance a r" "evictAccountBucketsIfNeeded L now r = (b, r')"
  shows "has_allowance a r'"
proof -
  obtain S where S: "evictAccountBucketsIfNeeded L now r =
      (int (length (filter (\<lambda>p. fst p \<notin> S) (accountBucket r))) < hardLimit r,
       r\<lparr>accountBucket := filter (\<lambda>p. fst p \<notin> S) (accountBucket r)\<rparr>)"
    and vict: "S \<subseteq> {k. \<exists>e. (k, e) \<in> set (accountBucket r) \<and> \<not> ab_allowance e}"
    by (rule evictAccount_eq [where L = L and now = now and r = r])
  have "distinct (map fst (accountBucket r))" using assms(1) by (simp add: rate_inv_def map_ok_def)
  then have "map_of (accountBucket r) a = Some d" if "(a, d) \<in> set (accountBucket r)" for d
    using that by (rule map_of_is_SomeI)
  with vict assms(2) have "a \<notin> S" unfolding has_allowance_def by fastforce
  with S assms(2,3) show ?thesis by (auto simp: has_allowance_def map_of_filter_keep)
qed

lemma rate_step_allowance:
  assumes "rate_inv r" "has_allowance a r" "\<not> consumes a p" "rate_step L p r = Some r'"
  shows "has_allowance a r'"
proof (cases p)
  case (OpPreAuthIP now wall ip)
  with assms(2,4) show ?thesis by (auto simp: AllowPreAuthIP_def has_allowance_def)
next
  case (OpUnknownKey now wall ip)
  with assms(2,4) show ?thesis by (auto simp: AllowUnknownKeyAttempt_def has_allowance_def)
next
  case (OpRenewal now wall b)
  then have ba: "b \<noteq> a" using assms(3) by auto
  obtain c r1 where e: "evictAccountBucketsIfNeeded L now r = (c, r1)" by fastforce
  with evict_keeps_allowance [OF assms(1,2) e] OpRenewal ba assms(2,4) show ?thesis
    by (auto simp: AllowRenewalAttempt_def has_allowance_def map_of_gm_put split: option.splits bool.splits if_splits)
next
  case (OpGrant now wall b)
  obtain c r1 where e: "evictAccountBucketsIfNeeded L now r = (c, r1)" by fastforce
  with evict_keeps_allowance [OF assms(1,2) e] OpGrant assms(2,4) show ?thesis
    by (auto simp: GrantReconnectAllowance_def has_allowance_def map_of_gm_put split: option.splits bool.splits if_splits)
qed

lemma rate_run_allowance:
  "rate_inv r \<Longrightarrow> has_allowance a r \<Longrightarrow> \<forall>p\<in>set ps. \<not> consumes a p \<Longrightarrow> rate_run L ps r = Some r' \<Longrightarrow> has_allowance a r'"
proof (induction ps arbitrary: r)
  case (Cons p ps)
  from rate_step_inv [OF Cons.prems(1), of L p] obtain r1 where r1: "rate_step L p r = Some r1" "rate_inv r1" .
  have "has_allowance a r1" using rate_step_allowance [OF Cons.prems(1,2) _ r1(1)] Cons.prems(3) by simp
  from Cons.IH [OF r1(2) this] r1(1) Cons.prems(3,4) show ?case by simp
qed simp


section \<open>Properties\<close>

text \<open>The token bucket enforces its rate: over any sequence of calls at non-decreasing times, a bucket of
  capacity and refill rate \<open>mx\<close> per minute admits at most \<open>mx\<close> calls plus one per full refill period elapsed
  since it was created, and no call panics.\<close>

theorem token_bucket_rate:
  assumes "0 < mx" "mx \<le> time_Minute" "sorted (t0 # ts)"
  shows "\<exists>b bs b'. newTokenBucket t0 mx mx = Some b \<and> allow_run ts b = Some (bs, b')
    \<and> int (length (filter id bs)) \<le> mx + (last (t0 # ts) - t0) div (time_Minute div mx)"
proof -
  define b where "b = \<lparr>tb_tokens = mx, tb_maxTokens = mx, tb_lastRefill = t0, tb_refillRate = time_Minute div mx\<rparr>"
  have "bucket_ok mx b" using newTokenBucket_ok(2) [OF assms(1,2)] assms(1) by (simp add: bucket_ok_def b_def)
  moreover have l: "tb_lastRefill b = t0" "time_Minute div mx = tb_refillRate b" "tb_tokens b = mx" by (simp_all add: b_def)
  ultimately have "\<exists>bs b'. allow_run ts b = Some (bs, b')
      \<and> int (length (filter id bs)) + 0 \<le> mx + (last (tb_lastRefill b # ts) - t0) div (time_Minute div mx)"
    using assms(3) by (intro allow_run_bound) simp_all
  moreover have "newTokenBucket t0 mx mx = Some b" using newTokenBucket_ok(1) [OF assms(1,2)] by (simp add: b_def)
  ultimately show ?thesis unfolding l(1) add_0_right by blast
qed

theorem token_bucket_rate_witness:
  "\<exists>b bs b'. newTokenBucket 0 2 2 = Some b \<and> allow_run [0, 1, 2, 30000000000] b = Some (bs, b')
    \<and> int (length (filter id bs)) \<le> 3"
  using token_bucket_rate [of 2 0 "[0, 1, 2, 30000000000]"] by (simp add: time_Minute_def)

text \<open>The limiter stays bounded and never fails: with gate sizes between one and one per nanosecond of a
  minute, any sequence of calls with any clock readings runs without a panic, no bucket map ever grows past
  the configured size (or one, if that is smaller), keys stay unique, and every bucket holds between zero
  and its capacity of tokens.\<close>

theorem rate_maps_bounded:
  assumes "0 < ConnectionsPerIP l" "ConnectionsPerIP l \<le> time_Minute"
    "0 < RenewalAttemptsPerAccountPerMinute l" "RenewalAttemptsPerAccountPerMinute l \<le> time_Minute"
  shows "\<exists>r. rate_run L ps (newRateLimitsWithEviction l n i) = Some r
    \<and> int (length (ipBucket r)) \<le> max 1 n \<and> int (length (keyBucket r)) \<le> max 1 n
    \<and> int (length (accountBucket r)) \<le> max 1 n
    \<and> distinct (map fst (ipBucket r)) \<and> distinct (map fst (keyBucket r)) \<and> distinct (map fst (accountBucket r))
    \<and> list_all (\<lambda>(k, e). tb_tokens (be_bucket e) \<in> {0..tb_maxTokens (be_bucket e)}) (ipBucket r)
    \<and> list_all (\<lambda>(k, e). tb_tokens (be_bucket e) \<in> {0..tb_maxTokens (be_bucket e)}) (keyBucket r)
    \<and> list_all (\<lambda>(k, e). tb_tokens (be_bucket e) \<in> {0..tb_maxTokens (be_bucket e)}) (accountBucket r)"
proof -
  have "rate_inv (newRateLimitsWithEviction l n i)" using assms by (intro new_rate_inv) (simp_all add: gate_range_def)
  from rate_run_inv [OF this] obtain r where r: "rate_run L ps (newRateLimitsWithEviction l n i) = Some r"
    "rate_inv r" "maxMapSize r = maxMapSize (newRateLimitsWithEviction l n i)"
    by blast
  from r(3) have h: "hardLimit r = max 1 n" by (simp add: hardLimit_def newRateLimitsWithEviction_def)
  with r h show ?thesis unfolding rate_inv_def by (auto simp: map_ok_def list_all_iff bucket_ok_def)
qed

definition demo_limits :: ConfigLimits where
  "demo_limits = \<lparr>UnauthenticatedConnections = 4, Handshakes = 4, ConnectionsPerIP = 2, ConnectionsPerKey = 2,
     ConnectionsPerAccount = 2, ChannelsPerConnection = 2, ChannelsPerAccount = 2, CoderProcesses = 2,
     CoderAPIRequests = 2, RenewalAttemptsPerConnection = 2, RenewalAttemptsPerAccountPerMinute = 2,
     ProcessShutdownGrace = 1, StderrBufferBytes = 64\<rparr>"

theorem rate_maps_bounded_witness:
  "\<exists>r. rate_run demo_lib [OpPreAuthIP 0 0 ''a'', OpPreAuthIP 1 1 ''b''] (newRateLimitsWithEviction demo_limits 1 5) = Some r
    \<and> int (length (ipBucket r)) \<le> 1"
  using rate_maps_bounded [of demo_limits demo_lib "[OpPreAuthIP 0 0 ''a'', OpPreAuthIP 1 1 ''b'']" 1 5]
  by (fastforce simp: demo_limits_def time_Minute_def)

text \<open>The reconnect allowance is durable and single-use: once an account has it, no sequence of other calls
  (of any account, with any eviction) takes it away, the account's next renewal attempt succeeds whatever the
  state of its bucket and without spending a token, and afterwards the allowance is gone.\<close>

theorem allowance_single_use:
  assumes "0 < ConnectionsPerIP l" "ConnectionsPerIP l \<le> time_Minute"
    "0 < RenewalAttemptsPerAccountPerMinute l" "RenewalAttemptsPerAccountPerMinute l \<le> time_Minute"
    and run: "rate_run L ps (newRateLimitsWithEviction l n i) = Some r" and has: "has_allowance a r"
    and other: "\<forall>p\<in>set qs. \<not> consumes a p"
  shows "\<exists>r1 r2. rate_run L qs r = Some r1 \<and> AllowRenewalAttempt L now wall a r1 = Some (True, r2)
    \<and> \<not> has_allowance a r2
    \<and> map_option be_bucket (map_of (accountBucket r2) a) = map_option be_bucket (map_of (accountBucket r1) a)"
proof -
  have "rate_inv (newRateLimitsWithEviction l n i)" using assms(1-4) by (intro new_rate_inv) (simp_all add: gate_range_def)
  from rate_run_inv [OF this, of L ps] run have inv: "rate_inv r" by auto
  from rate_run_inv [OF inv, of L qs] obtain r1 where r1: "rate_run L qs r = Some r1" by blast
  have "has_allowance a r1" by (rule rate_run_allowance [OF inv has other r1])
  then obtain e where "map_of (accountBucket r1) a = Some e" "ab_allowance e" by (auto simp: has_allowance_def)
  with r1 show ?thesis by (auto simp: AllowRenewalAttempt_def has_allowance_def map_of_gm_put)
qed

theorem allowance_single_use_witness:
  "\<exists>r r1 r2. rate_run demo_lib [OpGrant 0 0 7] (newRateLimitsWithEviction demo_limits 1 5) = Some r
    \<and> rate_run demo_lib [OpRenewal 1 1 8] r = Some r1
    \<and> AllowRenewalAttempt demo_lib 2 2 7 r1 = Some (True, r2) \<and> \<not> has_allowance 7 r2"
proof -
  define r where "r = the (rate_run demo_lib [OpGrant 0 0 7] (newRateLimitsWithEviction demo_limits 1 5))"
  have run: "rate_run demo_lib [OpGrant 0 0 7] (newRateLimitsWithEviction demo_limits 1 5) = Some r"
    and has: "has_allowance 7 r"
    by (simp_all add: r_def GrantReconnectAllowance_def newRateLimitsWithEviction_def demo_limits_def
        evictAccountBucketsIfNeeded_def hardLimit_def newTokenBucket_def go_quot_def has_allowance_def gm_put_def)
  show ?thesis
    using allowance_single_use [OF _ _ _ _ run has, of "[OpRenewal 1 1 8]" 2 2] run
    by (fastforce simp: demo_limits_def time_Minute_def)
qed

end
