(* ===== verification/SshAuth.thy ===== *)
theory SshAuth
  imports Permissions CoderApi KeyProps RateLimits
begin

text \<open>
  \<open>internal/sshauth\<close>: the authentication of one SSH connection. \<open>state.go\<close> and \<open>config.go\<close>, the candidate and the
  verified stage of public-key authentication (\<open>callbacks.go\<close>), the renewal of an expired token (\<open>renewal.go\<close>,
  \<open>sanitize.go\<close>) and the self-enrollment of a new key (\<open>enrollment.go\<close>).

  A callback is a computation on the gateway as the connection sees it: the store, the rate limiter, the cache
  of verdicts, the state of the connection, the audit log and the banners sent. Other connections run
  concurrently: before every call of the store an arbitrary sequence of store operations of others takes place.
  The texts of banners and prompts are named, not spelled out.
\<close>

section \<open>Tokens (sanitize.go)\<close>

datatype token_error = ErrTokenEmpty | ErrTokenTooLong | ErrTokenControlChar

definition MaxTokenBytes :: nat where "MaxTokenBytes = 4096"

definition token_cut :: "char \<Rightarrow> bool" where
  "token_cut c \<longleftrightarrow> c \<in> {CHR '' '', CHR 0x09, CHR 0x0D, CHR 0x0A}"

definition bytes_Trim :: "(char \<Rightarrow> bool) \<Rightarrow> bytes \<Rightarrow> bytes" where
  "bytes_Trim P b = rev (dropWhile P (rev (dropWhile P b)))"

definition SanitizeToken :: "bytes \<Rightarrow> token_error + bytes" where
  "SanitizeToken raw =
     (let trimmed = bytes_Trim token_cut raw in
      if length trimmed = 0 then Inl ErrTokenEmpty
      else if MaxTokenBytes < length trimmed then Inl ErrTokenTooLong
      else if \<exists>b\<in>set trimmed. (of_char b :: nat) < 0x20 then Inl ErrTokenControlChar
      else Inr trimmed)"

section \<open>State of a connection (state.go)\<close>

record ConnState =
  cs_id :: string
  cs_peerAddr :: string
  cs_ctxDone :: bool
  cs_preAuthConn :: bool
  cs_deadlineErr :: bool
  cs_candidate :: "(Account \<times> SSHKeyRecord) option"
  cs_verified :: "(Account \<times> SSHKeyRecord \<times> string) option"
  cs_renewal :: "(Account \<times> SSHKeyRecord \<times> int64) option"
  cs_renewalTries :: nat
  cs_reconnect :: bool

text \<open>The connection as it is accepted; \<open>i\<close> is the random identifier, \<open>deadlineErr\<close> tells whether the raw connection
  refuses a new deadline.\<close>

definition NewConnState :: "string \<Rightarrow> string \<Rightarrow> bool \<Rightarrow> ConnState" where
  "NewConnState i peer deadlineErr = \<lparr>cs_id = i, cs_peerAddr = peer, cs_ctxDone = False, cs_preAuthConn = False,
     cs_deadlineErr = deadlineErr, cs_candidate = None, cs_verified = None, cs_renewal = None, cs_renewalTries = 0, cs_reconnect = False\<rparr>"

definition ConnState_Close :: "ConnState \<Rightarrow> ConnState" where
  "ConnState_Close s = s\<lparr>cs_ctxDone := True\<rparr>"

definition SetPreAuthConn :: "ConnState \<Rightarrow> ConnState" where
  "SetPreAuthConn s = s\<lparr>cs_preAuthConn := True\<rparr>"

definition setCandidate :: "Account \<Rightarrow> SSHKeyRecord \<Rightarrow> ConnState \<Rightarrow> ConnState" where
  [simp]: "setCandidate account keyRecord s = s\<lparr>cs_candidate := Some (account, keyRecord)\<rparr>"

definition SetVerifiedIdentity :: "Account \<Rightarrow> SSHKeyRecord \<Rightarrow> string \<Rightarrow> ConnState \<Rightarrow> ConnState" where
  [simp]: "SetVerifiedIdentity account keyRecord sigAlg s = s\<lparr>cs_verified := Some (account, keyRecord, sigAlg)\<rparr>"

definition SetRenewalAttempt :: "Account \<Rightarrow> SSHKeyRecord \<Rightarrow> int64 \<Rightarrow> ConnState \<Rightarrow> ConnState" where
  [simp]: "SetRenewalAttempt account keyRecord generation s = s\<lparr>cs_renewal := Some (account, keyRecord, generation)\<rparr>"

definition SetMustReconnect :: "bool \<Rightarrow> ConnState \<Rightarrow> ConnState" where
  [simp]: "SetMustReconnect v s = s\<lparr>cs_reconnect := v\<rparr>"

definition VerifiedIdentity :: "ConnState \<Rightarrow> (Account \<times> SSHKeyRecord \<times> string) option" where
  "VerifiedIdentity s = cs_verified s"

definition RenewalAttempts :: "ConnState \<Rightarrow> nat" where
  [simp]: "RenewalAttempts s = cs_renewalTries s"

definition candidateFor :: "ConnState \<Rightarrow> uuid \<Rightarrow> uuid \<Rightarrow> (Account \<times> SSHKeyRecord) option" where
  "candidateFor s accountID keyID =
     (case cs_candidate s of
        None \<Rightarrow> None
      | Some (account, keyRecord) \<Rightarrow>
          if acct_ID account \<noteq> accountID \<or> key_ID keyRecord \<noteq> keyID then None else Some (account, keyRecord))"

section \<open>Configuration (config.go)\<close>

record RenewalConfig =
  rc_Rate :: bool
  rc_Audit :: bool
  rc_MaxAttempts :: int
  rc_RenewalTimeout :: int
  rc_DeploymentID :: uuid

record EnrollmentConfig =
  ec_Enabled :: bool
  ec_User :: string
  ec_Verifier :: bool
  ec_Store :: bool
  ec_Rate :: bool
  ec_PreTokenGate :: bool
  ec_Workspaces :: bool
  ec_Audit :: bool
  ec_MaxAttempts :: int
  ec_RenewalTimeout :: int
  ec_DeploymentID :: uuid

record AuthConfig =
  ac_DeploymentID :: uuid
  ac_RenewalAuthTimeout :: int
  ac_Renewal :: "RenewalConfig option"
  ac_EnrollmentUser :: string
  ac_Enrollment :: "EnrollmentConfig option"
  ac_KeyManagementUser :: string
  ac_KeyManagement :: "bool option"
  ac_Store :: bool
  ac_Verifier :: bool
  ac_Audit :: bool

definition DefaultMaxRenewalAttempts :: int where "DefaultMaxRenewalAttempts = 3"

definition rc_maxAttempts :: "RenewalConfig \<Rightarrow> int" where
  "rc_maxAttempts rc = (if 0 < rc_MaxAttempts rc then rc_MaxAttempts rc else DefaultMaxRenewalAttempts)"

definition ec_maxAttempts :: "EnrollmentConfig \<Rightarrow> int" where
  "ec_maxAttempts ec = (if 0 < ec_MaxAttempts ec then ec_MaxAttempts ec else DefaultMaxRenewalAttempts)"

definition enrollmentUser :: "AuthConfig \<Rightarrow> string" where
  "enrollmentUser c = (case ac_Enrollment c of
     Some ec \<Rightarrow> if ec_User ec \<noteq> [] then ec_User ec else ac_EnrollmentUser c
   | None \<Rightarrow> ac_EnrollmentUser c)"

definition enrollmentEnabled :: "AuthConfig \<Rightarrow> bool" where
  "enrollmentEnabled c = (case ac_Enrollment c of None \<Rightarrow> False | Some ec \<Rightarrow> ec_Enabled ec \<and> enrollmentUser c \<noteq> [])"

definition keysUser :: "AuthConfig \<Rightarrow> string" where
  "keysUser c = ac_KeyManagementUser c"

definition keysEnabled :: "AuthConfig \<Rightarrow> bool" where
  "keysEnabled c = (case ac_KeyManagement c of None \<Rightarrow> False | Some b \<Rightarrow> b \<and> keysUser c \<noteq> [])"

datatype config_error = CfgDeployment | CfgDeps | CfgEnrollUser | CfgEnrollDeps | CfgKeysUser | CfgCollision

definition auth_validate :: "AuthConfig \<Rightarrow> config_error option" where
  "auth_validate c =
     (if ac_DeploymentID c = uuid_Nil then Some CfgDeployment
      else if \<not> ac_Store c \<or> \<not> ac_Verifier c then Some CfgDeps
      else if (case ac_Enrollment c of None \<Rightarrow> False | Some ec \<Rightarrow> ec_Enabled ec \<and> enrollmentUser c = []) then Some CfgEnrollUser
      else if (case ac_Enrollment c of None \<Rightarrow> False | Some ec \<Rightarrow> ec_Enabled ec \<and> (\<not> ec_Verifier ec \<or> \<not> ec_Store ec)) then Some CfgEnrollDeps
      else if ac_KeyManagement c = Some True \<and> keysUser c = [] then Some CfgKeysUser
      else if ac_KeyManagement c = Some True \<and> enrollmentEnabled c \<and> keysUser c = enrollmentUser c then Some CfgCollision
      else None)"

section \<open>The gateway as a connection sees it\<close>

datatype banner = RenewalInstructions | NonRenewable "CredentialErrorKind option" | RenewalSuccess | RenewalAlreadyUpdated
  | EnrollmentBanner | EnrollmentKeyConflict | EnrollmentSuccess string "(string list \<times> int) option"

record auditEvent =
  ev_ConnectionID :: string
  ev_DeploymentID :: uuid
  ev_AccountID :: "uuid option"
  ev_SSHKeyID :: "uuid option"
  ev_EventType :: string
  ev_Result :: bool
  ev_PeerAddress :: string
  ev_DetailCode :: string

record gateway =
  gw_store :: store
  gw_rate :: RateLimits
  gw_cache :: CachedVerifier
  gw_conn :: ConnState
  gw_audit :: "auditEvent list"
  gw_banners :: "banner list"
  gw_steps :: nat
  gw_clock :: nat
  gw_verifications :: nat

text \<open>The world around it: the environment of the store, what the control plane answers to the verification with a
  given number and to a request for the workspaces of a token, the readings of the clock, how a time is printed,
  and the store operations that other connections run before the store call with a given number.\<close>

record world =
  wo_env :: env
  wo_verify :: "nat \<Rightarrow> bytes \<Rightarrow> verify_error + CoderIdentity"
  wo_workspaces :: "bytes \<Rightarrow> uuid \<Rightarrow> int \<Rightarrow> (string list \<times> int) option"
  wo_now :: "nat \<Rightarrow> int"
  wo_RFC3339 :: "int \<Rightarrow> string"
  wo_others :: "nat \<Rightarrow> store_op list"

record renewalSession =
  rs_rc :: RenewalConfig
  rs_account :: Account
  rs_keyRecord :: SSHKeyRecord
  rs_expectedGeneration :: int64

record enrollmentSession =
  es_ec :: EnrollmentConfig
  es_key :: pubkey
  es_digest :: string

datatype next_auth = NextPlaceholder | NextRenewal renewalSession | NextEnrollment enrollmentSession

text \<open>\<open>PartialSuccess\<close> is the error value that carries the continuations; \<open>AuthPanic\<close> is a division by zero in the
  rate limiter.\<close>

datatype auth_error = ErrPublicKeyRejected | PartialSuccess next_auth | ErrTokenRejected | ErrWrongUserToken
  | ErrCoderUnavailable | ErrRenewalFailed | ErrRenewalAttemptsExhausted | ErrRenewalRateLimited
  | ErrEnrollmentFailed | ErrEnrollmentKeyConflict | RenewalNotImplemented | ChallengeAborted | AuthPanic

type_synonym 'a authm = "(gateway, auth_error, 'a) sr"

definition modify_gw :: "(gateway \<Rightarrow> gateway) \<Rightarrow> unit authm" where
  "modify_gw f = (\<lambda>w. (Inr (), f w))"

definition on_conn :: "(ConnState \<Rightarrow> ConnState) \<Rightarrow> unit authm" where
  "on_conn f = modify_gw (\<lambda>w. w\<lparr>gw_conn := f (gw_conn w)\<rparr>)"

text \<open>The store as the next call finds it, and the call.\<close>

definition seen_store :: "world \<Rightarrow> gateway \<Rightarrow> store" where
  "seen_store W w = fold (store_exec (wo_env W)) (wo_others W (gw_steps w)) (gw_store w)"

definition store_call :: "world \<Rightarrow> 'a stm \<Rightarrow> (serror + 'a) authm" where
  "store_call W m = (\<lambda>w. case m (seen_store W w) of (r, s) \<Rightarrow> (Inr r, w\<lparr>gw_store := s, gw_steps := Suc (gw_steps w)\<rparr>))"

definition clock :: "world \<Rightarrow> int authm" where
  "clock W = (\<lambda>w. (Inr (wo_now W (gw_clock w)), w\<lparr>gw_clock := Suc (gw_clock w)\<rparr>))"

definition rate_call :: "world \<Rightarrow> (int \<Rightarrow> int \<Rightarrow> RateLimits \<Rightarrow> (bool \<times> RateLimits) option) \<Rightarrow> bool authm" where
  "rate_call W f = bnd (clock W) (\<lambda>now. bnd (clock W) (\<lambda>wall. (\<lambda>w. case f now wall (gw_rate w) of
     None \<Rightarrow> (Inl AuthPanic, w) | Some (b, r) \<Rightarrow> (Inr b, w\<lparr>gw_rate := r\<rparr>))))"

definition verify_call :: "world \<Rightarrow> bytes \<Rightarrow> (verify_error + CoderIdentity) authm" where
  "verify_call W token = (\<lambda>w. (Inr (wo_verify W (gw_verifications w) token), w\<lparr>gw_verifications := Suc (gw_verifications w)\<rparr>))"

definition cached_call :: "world \<Rightarrow> uuid \<Rightarrow> int64 \<Rightarrow> bytes \<Rightarrow> (verify_error + CoderIdentity) authm" where
  "cached_call W a g token = bnd (clock W) (\<lambda>now. bnd (clock W) (\<lambda>later. (\<lambda>w.
     case VerifyCached (wo_verify W (gw_verifications w)) now later a g token (gw_cache w) of
       (r, cv) \<Rightarrow> (Inr r, w\<lparr>gw_cache := cv, gw_verifications :=
          (if cache_hit now a g (gw_cache w) then gw_verifications w else Suc (gw_verifications w))\<rparr>))))"

definition SendBanner :: "banner \<Rightarrow> unit authm" where
  "SendBanner b = modify_gw (\<lambda>w. if cs_preAuthConn (gw_conn w) then w\<lparr>gw_banners := gw_banners w @ [b]\<rparr> else w)"

definition ctx_done :: "bool authm" where
  "ctx_done = gets (\<lambda>w. cs_ctxDone (gw_conn w))"

definition audit_record :: "bool \<Rightarrow> uuid \<Rightarrow> uuid option \<Rightarrow> uuid option \<Rightarrow> string \<Rightarrow> bool \<Rightarrow> string \<Rightarrow> unit authm" where
  "audit_record on dep a k typ result detail = modify_gw (\<lambda>w. if on then w\<lparr>gw_audit := gw_audit w @
     [\<lparr>ev_ConnectionID = cs_id (gw_conn w), ev_DeploymentID = dep, ev_AccountID = a, ev_SSHKeyID = k, ev_EventType = typ,
       ev_Result = result, ev_PeerAddress = cs_peerAddr (gw_conn w), ev_DetailCode = detail\<rparr>]\<rparr> else w)"

section \<open>Public-key stages (callbacks.go)\<close>

definition EventTypeKeyVerified :: string where "EventTypeKeyVerified = ''ssh_key_verified''"
definition EventTypeAuthRejected :: string where "EventTypeAuthRejected = ''ssh_auth_rejected''"

definition non_nil :: "uuid \<Rightarrow> uuid option" where
  "non_nil i = (if i = uuid_Nil then None else Some i)"

definition recordAuthRejected :: "AuthConfig \<Rightarrow> string \<Rightarrow> uuid \<Rightarrow> uuid \<Rightarrow> unit authm" where
  "recordAuthRejected c detail a k =
     audit_record (ac_Audit c) (ac_DeploymentID c) (non_nil a) (non_nil k) EventTypeAuthRejected False detail"

definition recordVerifiedKey :: "AuthConfig \<Rightarrow> Account \<Rightarrow> SSHKeyRecord \<Rightarrow> string \<Rightarrow> unit authm" where
  "recordVerifiedKey c account keyRecord sigAlg =
     audit_record (ac_Audit c) (ac_DeploymentID c) (Some (acct_ID account)) (Some (key_ID keyRecord)) EventTypeKeyVerified True sigAlg"

text \<open>The rejection closure of the callbacks: audit, then the one outward error.\<close>

definition reject :: "AuthConfig \<Rightarrow> string \<Rightarrow> uuid \<Rightarrow> uuid \<Rightarrow> 'a authm" where
  "reject c detail a k = bnd (recordAuthRejected c detail a k) (\<lambda>_. raise ErrPublicKeyRejected)"

definition peerIPFromState :: "ConnState \<Rightarrow> string" where
  "peerIPFromState s = (case net_SplitHostPort (cs_peerAddr s) of Some (host, _) \<Rightarrow> host | None \<Rightarrow> cs_peerAddr s)"

definition KeyDigestHex :: "golib \<Rightarrow> pubkey \<Rightarrow> string" where
  "KeyDigestHex L key = hex_EncodeToString (sha256_Sum L (pk_Marshal key))"

definition enrollmentCandidate :: "world \<Rightarrow> AuthConfig \<Rightarrow> pubkey \<Rightarrow> permissions authm" where
  "enrollmentCandidate W c key =
     (if pk_isCert key then reject c AUTH_UNKNOWN_KEY uuid_Nil uuid_Nil
      else ret (EnrollmentCandidatePermissions (KeyDigestHex (env_lib (wo_env W)) key)))"

text \<open>The lookup shared by the workspace and the key-management candidate: it stashes the identity and builds the
  candidate permissions.\<close>

definition lookup_candidate :: "world \<Rightarrow> AuthConfig \<Rightarrow> pubkey \<Rightarrow> (uuid \<Rightarrow> uuid \<Rightarrow> permissions) \<Rightarrow> permissions authm" where
  "lookup_candidate W c key perms =
     (if pk_isCert key then reject c AUTH_UNKNOWN_KEY uuid_Nil uuid_Nil
      else
      bnd ctx_done (\<lambda>done.
      bnd (store_call W (LookupByPublicKey (wo_env W) done (ac_DeploymentID c) key)) (\<lambda>r.
      case r of
        Inl e \<Rightarrow> reject c (store_CodeOf e) uuid_Nil uuid_Nil
      | Inr (account, keyRecord) \<Rightarrow>
          bnd (on_conn (setCandidate account keyRecord)) (\<lambda>_.
          ret (perms (acct_ID account) (key_ID keyRecord))))))"

definition keysCandidate :: "world \<Rightarrow> AuthConfig \<Rightarrow> pubkey \<Rightarrow> permissions authm" where
  "keysCandidate W c key = lookup_candidate W c key (KeyManagementCandidatePermissions (env_lib (wo_env W)))"

definition publicKeyCallback :: "world \<Rightarrow> AuthConfig \<Rightarrow> string \<Rightarrow> pubkey \<Rightarrow> permissions authm" where
  "publicKeyCallback W c user key =
     (if auth_validate c \<noteq> None then reject c STORE_UNAVAILABLE uuid_Nil uuid_Nil
      else if enrollmentEnabled c \<and> user = enrollmentUser c then enrollmentCandidate W c key
      else if keysEnabled c \<and> user = keysUser c then keysCandidate W c key
      else lookup_candidate W c key (CandidatePermissions (env_lib (wo_env W))))"

definition detailCodeFor :: "verify_error \<Rightarrow> CredentialErrorKind option \<Rightarrow> string" where
  "detailCodeFor err kind =
     (case err of
        CredErr ce \<Rightarrow> if ce_DetailCode ce \<noteq> [] then ce_DetailCode ce else
          (case kind of
             Some CredentialForbidden \<Rightarrow> AUTH_CREDENTIAL_FORBIDDEN
           | Some ControlPlaneUnavailable \<Rightarrow> AUTH_CODER_UNAVAILABLE
           | Some ControlPlaneIncompatible \<Rightarrow> AUTH_CODER_INCOMPATIBLE
           | Some CredentialMalformedReply \<Rightarrow> AUTH_CODER_INCOMPATIBLE
           | Some CredentialMissing \<Rightarrow> AUTH_CREDENTIAL_MISSING
           | Some CredentialInvalid \<Rightarrow> AUTH_CREDENTIAL_UNAUTHORIZED
           | _ \<Rightarrow> AUTH_UNKNOWN_KEY)
      | OtherErr _ \<Rightarrow> AUTH_UNKNOWN_KEY)"

definition startRenewal :: "AuthConfig \<Rightarrow> Account \<Rightarrow> SSHKeyRecord \<Rightarrow> int64 \<Rightarrow> permissions authm" where
  "startRenewal c account keyRecord generation =
     (let timeout = (case ac_Renewal c of Some rc \<Rightarrow> if 0 < rc_RenewalTimeout rc then rc_RenewalTimeout rc else ac_RenewalAuthTimeout c
          | None \<Rightarrow> ac_RenewalAuthTimeout c) in
      bnd (gets (\<lambda>w. cs_deadlineErr (gw_conn w))) (\<lambda>derr.
      if 0 < timeout \<and> derr then reject c STORE_UNAVAILABLE (acct_ID account) (key_ID keyRecord)
      else
      bnd (on_conn (SetRenewalAttempt account keyRecord generation)) (\<lambda>_.
      bnd (SendBanner RenewalInstructions) (\<lambda>_.
      raise (PartialSuccess (case ac_Renewal c of
          None \<Rightarrow> NextPlaceholder
        | Some rc \<Rightarrow> NextRenewal \<lparr>rs_rc = (if rc_DeploymentID rc = uuid_Nil then rc\<lparr>rc_DeploymentID := ac_DeploymentID c\<rparr> else rc),
            rs_account = account, rs_keyRecord = keyRecord, rs_expectedGeneration = generation\<rparr>))))))"

text \<open>The candidate permissions are tied to the identity the candidate stage stashed.\<close>

definition proven_identity :: "world \<Rightarrow> AuthConfig \<Rightarrow> permissions \<Rightarrow> string \<Rightarrow> (Account \<times> SSHKeyRecord) authm" where
  "proven_identity W c candidate sigAlg =
     (case ParseCandidatePermissions (env_lib (wo_env W)) candidate of
        Inl _ \<Rightarrow> reject c AUTH_UNKNOWN_KEY uuid_Nil uuid_Nil
      | Inr perms \<Rightarrow>
          bnd (gets (\<lambda>w. candidateFor (gw_conn w) (cp_AccountID perms) (cp_SSHKeyID perms))) (\<lambda>r.
          case r of
            None \<Rightarrow> reject c AUTH_UNKNOWN_KEY uuid_Nil uuid_Nil
          | Some (account, keyRecord) \<Rightarrow>
              bnd (on_conn (SetVerifiedIdentity account keyRecord sigAlg)) (\<lambda>_.
              bnd (recordVerifiedKey c account keyRecord sigAlg) (\<lambda>_.
              ret (account, keyRecord)))))"

definition verifiedKeyManagement :: "world \<Rightarrow> AuthConfig \<Rightarrow> permissions \<Rightarrow> string \<Rightarrow> permissions authm" where
  "verifiedKeyManagement W c candidate sigAlg =
     bnd (proven_identity W c candidate sigAlg) (\<lambda>(account, keyRecord).
     ret (FinalKeyManagementPermissions (env_lib (wo_env W)) (acct_ID account) (ac_DeploymentID c) (key_ID keyRecord)))"

text \<open>The verdict on the stored credential of a proven identity.\<close>

definition judge_credential :: "world \<Rightarrow> AuthConfig \<Rightarrow> Account \<Rightarrow> SSHKeyRecord \<Rightarrow> CredentialSnapshot \<Rightarrow> permissions authm" where
  "judge_credential W c account keyRecord snap =
     (if snap_State snap = CredentialStateMissing \<or> length (snap_Token snap) = 0
      then startRenewal c account keyRecord (snap_Generation snap)
      else
      bnd (cached_call W (acct_ID account) (snap_Generation snap) (snap_Token snap)) (\<lambda>v.
      case v of
        Inr identity \<Rightarrow>
          (case acct_CoderUserID account of
             None \<Rightarrow> reject c AUTH_WRONG_CODER_IDENTITY (acct_ID account) (key_ID keyRecord)
           | Some u \<Rightarrow>
               if ident_ID identity \<noteq> u then reject c AUTH_WRONG_CODER_IDENTITY (acct_ID account) (key_ID keyRecord)
               else ret (FinalWorkspacePermissions (env_lib (wo_env W)) (acct_ID account) (ac_DeploymentID c) (key_ID keyRecord) (snap_Generation snap)))
      | Inl err \<Rightarrow>
          let kind = KindOf err in
          if kind_renewable kind then startRenewal c account keyRecord (snap_Generation snap)
          else bnd (SendBanner (NonRenewable kind)) (\<lambda>_. reject c (detailCodeFor err kind) (acct_ID account) (key_ID keyRecord))))"

definition verifiedEnrollment :: "world \<Rightarrow> AuthConfig \<Rightarrow> pubkey \<Rightarrow> permissions \<Rightarrow> permissions authm" where
  "verifiedEnrollment W c key candidate =
     (case (ac_Enrollment c, ParseEnrollmentCandidatePermissions (env_lib (wo_env W)) candidate) of
        (Some ec0, Inr eperms) \<Rightarrow>
          if \<not> enrollmentEnabled c \<or> KeyDigestHex (env_lib (wo_env W)) key \<noteq> ep_KeyDigest eperms
          then reject c AUTH_UNKNOWN_KEY uuid_Nil uuid_Nil
          else
          let ec = (if ec_DeploymentID ec0 = uuid_Nil then ec0\<lparr>ec_DeploymentID := ac_DeploymentID c\<rparr> else ec0);
              timeout = (if 0 < ec_RenewalTimeout ec then ec_RenewalTimeout ec else ac_RenewalAuthTimeout c) in
          bnd (gets (\<lambda>w. cs_deadlineErr (gw_conn w))) (\<lambda>derr.
          if 0 < timeout \<and> derr then reject c STORE_UNAVAILABLE uuid_Nil uuid_Nil
          else
          bnd (gets (\<lambda>w. peerIPFromState (gw_conn w))) (\<lambda>ip.
          bnd (if ec_PreTokenGate ec then rate_call W (\<lambda>now wall. AllowUnknownKeyAttempt now wall ip) else ret True) (\<lambda>allowed.
          if \<not> allowed
          then bnd (audit_record (ec_Audit ec) (ec_DeploymentID ec) None None ''enrollment_rejected'' False ''ENROLLMENT_RATE_LIMITED'')
                 (\<lambda>_. raise ErrPublicKeyRejected)
          else
          bnd (SendBanner EnrollmentBanner) (\<lambda>_.
          raise (PartialSuccess (NextEnrollment \<lparr>es_ec = ec, es_key = key, es_digest = ep_KeyDigest eperms\<rparr>))))))
      | _ \<Rightarrow> reject c AUTH_UNKNOWN_KEY uuid_Nil uuid_Nil)"

definition verifiedPublicKeyCallback :: "world \<Rightarrow> AuthConfig \<Rightarrow> pubkey \<Rightarrow> permissions \<Rightarrow> string \<Rightarrow> permissions authm" where
  "verifiedPublicKeyCallback W c key candidate sigAlg =
     (if auth_validate c \<noteq> None then reject c STORE_UNAVAILABLE uuid_Nil uuid_Nil
      else if (case candidate of None \<Rightarrow> False | Some m \<Rightarrow> ext m PermissionMode = ModeEnrollment)
      then verifiedEnrollment W c key candidate
      else if (case candidate of None \<Rightarrow> False | Some m \<Rightarrow> ext m PermissionMode = ModeKeyManagement)
      then verifiedKeyManagement W c candidate sigAlg
      else
      bnd (proven_identity W c candidate sigAlg) (\<lambda>(account, keyRecord).
      bnd ctx_done (\<lambda>done.
      bnd (store_call W (LoadCredential (wo_env W) done (acct_ID account))) (\<lambda>r.
      case r of
        Inl e \<Rightarrow> reject c (store_CodeOf e) (acct_ID account) (key_ID keyRecord)
      | Inr snap \<Rightarrow> judge_credential W c account keyRecord snap))))"

section \<open>Renewal (renewal.go)\<close>

definition EventTypeCredentialRenewal :: string where "EventTypeCredentialRenewal = ''ssh_credential_renewal''"
definition EventTypeWrongUserToken :: string where "EventTypeWrongUserToken = ''ssh_wrong_user_token''"
definition DetailRenewalAttemptsExhausted :: string where "DetailRenewalAttemptsExhausted = ''RENEWAL_ATTEMPTS_EXHAUSTED''"
definition DetailRenewalRateLimited :: string where "DetailRenewalRateLimited = ''RENEWAL_RATE_LIMITED''"
definition DetailRenewalAlreadyUpdated :: string where "DetailRenewalAlreadyUpdated = ''RENEWAL_ALREADY_UPDATED''"

definition auditRenewal :: "RenewalConfig \<Rightarrow> Account \<Rightarrow> SSHKeyRecord \<Rightarrow> bool \<Rightarrow> string \<Rightarrow> unit authm" where
  "auditRenewal rc account keyRecord result detail =
     audit_record (rc_Audit rc) (rc_DeploymentID rc) (Some (acct_ID account)) (Some (key_ID keyRecord)) EventTypeCredentialRenewal result detail"

definition auditWrongUserToken :: "RenewalConfig \<Rightarrow> Account \<Rightarrow> SSHKeyRecord \<Rightarrow> unit authm" where
  "auditWrongUserToken rc account keyRecord =
     audit_record (rc_Audit rc) (rc_DeploymentID rc) (Some (acct_ID account)) (Some (key_ID keyRecord)) EventTypeWrongUserToken False AUTH_WRONG_CODER_IDENTITY"

text \<open>The last part of \<open>replaceCredential\<close>: the store replacement of a token whose identity fits, with its error
  handling.\<close>

definition store_replacement :: "world \<Rightarrow> RenewalConfig \<Rightarrow> Account \<Rightarrow> SSHKeyRecord \<Rightarrow> int64 \<Rightarrow> bytes \<Rightarrow> CoderIdentity
    \<Rightarrow> (CredentialSnapshot \<times> bool) authm" where
  "store_replacement W rc account keyRecord expectedGeneration candidate identity =
     bnd ctx_done (\<lambda>done.
     bnd (store_call W (ReplaceCredential (wo_env W) done \<lparr>req_AccountID = acct_ID account,
            req_ExpectedGeneration = expectedGeneration, req_Token = candidate, req_Identity = identity\<rparr>)) (\<lambda>r.
     case r of
       Inr snap \<Rightarrow> bnd (auditRenewal rc account keyRecord True []) (\<lambda>_. ret (snap, False))
     | Inl e \<Rightarrow>
         if errIs e (Sent ErrGenerationConflict)
         then bnd (store_call W (LoadCredential (wo_env W) done (acct_ID account))) (\<lambda>l.
              bnd (auditRenewal rc account keyRecord True DetailRenewalAlreadyUpdated) (\<lambda>_.
              ret (case l of
                     Inr current \<Rightarrow> (current\<lparr>snap_Token := BestEffortWipe (snap_Token current)\<rparr>, True)
                   | Inl _ \<Rightarrow> (\<lparr>snap_AccountID = acct_ID account, snap_Generation = expectedGeneration,
                       snap_State = CredentialStateUnknown, snap_Token = [], snap_LastValidatedAt = None\<rparr>, True))))
         else if errIs e (Sent ErrWrongIdentity)
         then bnd (auditWrongUserToken rc account keyRecord) (\<lambda>_. raise ErrWrongUserToken)
         else bnd (auditRenewal rc account keyRecord False (store_CodeOf e)) (\<lambda>_. raise ErrRenewalFailed)))"

definition replaceCredential :: "world \<Rightarrow> RenewalConfig \<Rightarrow> Account \<Rightarrow> SSHKeyRecord \<Rightarrow> int64 \<Rightarrow> bytes
    \<Rightarrow> (CredentialSnapshot \<times> bool) authm" where
  "replaceCredential W rc account keyRecord expectedGeneration rawCandidate =
     (case SanitizeToken rawCandidate of
        Inl _ \<Rightarrow> bnd (auditRenewal rc account keyRecord False AUTH_CREDENTIAL_UNAUTHORIZED) (\<lambda>_. raise ErrTokenRejected)
      | Inr candidate \<Rightarrow>
          bnd (if rc_Rate rc then rate_call W (\<lambda>now wall. AllowRenewalAttempt (env_lib (wo_env W)) now wall (acct_ID account)) else ret True) (\<lambda>allowed.
          if \<not> allowed then bnd (auditRenewal rc account keyRecord False DetailRenewalRateLimited) (\<lambda>_. raise ErrRenewalRateLimited)
          else
          bnd (verify_call W candidate) (\<lambda>v.
          case v of
            Inl err \<Rightarrow>
              let kind = KindOf err; detail = detailCodeFor err kind in
              if kind = Some CredentialInvalid
              then bnd (auditRenewal rc account keyRecord False detail) (\<lambda>_. raise ErrTokenRejected)
              else if kind = Some ControlPlaneUnavailable
              then bnd (auditRenewal rc account keyRecord False AUTH_CODER_UNAVAILABLE) (\<lambda>_. raise ErrCoderUnavailable)
              else bnd (auditRenewal rc account keyRecord False detail) (\<lambda>_. raise ErrRenewalFailed)
          | Inr identity \<Rightarrow>
              if (case acct_CoderUserID account of Some u \<Rightarrow> ident_ID identity \<noteq> u | None \<Rightarrow> \<not> acct_BindOnFirstToken account)
              then bnd (auditWrongUserToken rc account keyRecord) (\<lambda>_. raise ErrWrongUserToken)
              else store_replacement W rc account keyRecord expectedGeneration candidate identity)))"

definition validateAndStoreReplacement :: "world \<Rightarrow> RenewalConfig \<Rightarrow> Account \<Rightarrow> SSHKeyRecord \<Rightarrow> int64 \<Rightarrow> bytes \<Rightarrow> permissions authm" where
  "validateAndStoreReplacement W rc account keyRecord expectedGeneration rawCandidate =
     bnd (replaceCredential W rc account keyRecord expectedGeneration rawCandidate) (\<lambda>(snap, alreadyUpdated).
     bnd (SendBanner (if alreadyUpdated then RenewalAlreadyUpdated else RenewalSuccess)) (\<lambda>_.
     ret (FinalWorkspacePermissions (env_lib (wo_env W)) (acct_ID account) (rc_DeploymentID rc) (key_ID keyRecord) (snap_Generation snap))))"

text \<open>The guard and the counter in front of every attempt.\<close>

definition renewal_attempt :: "renewalSession \<Rightarrow> 'a authm \<Rightarrow> 'a authm" where
  "renewal_attempt s m =
     bnd (gets (\<lambda>w. int (RenewalAttempts (gw_conn w)))) (\<lambda>n.
     if rc_maxAttempts (rs_rc s) \<le> n
     then bnd (auditRenewal (rs_rc s) (rs_account s) (rs_keyRecord s) False DetailRenewalAttemptsExhausted)
            (\<lambda>_. raise ErrRenewalAttemptsExhausted)
     else m)"

definition IncrementRenewalAttempts :: "unit authm" where
  "IncrementRenewalAttempts = on_conn (\<lambda>s. s\<lparr>cs_renewalTries := Suc (cs_renewalTries s)\<rparr>)"

definition renewal_password :: "world \<Rightarrow> renewalSession \<Rightarrow> bytes \<Rightarrow> permissions authm" where
  "renewal_password W s password =
     renewal_attempt s
       (bnd IncrementRenewalAttempts (\<lambda>_.
        validateAndStoreReplacement W (rs_rc s) (rs_account s) (rs_keyRecord s) (rs_expectedGeneration s) password))"

text \<open>The answers of the client to the successive challenges; the client aborts when the list is used up. The
  confirmation after success needs no answer.\<close>

fun renewal_keyboardInteractive :: "world \<Rightarrow> renewalSession \<Rightarrow> string list list \<Rightarrow> permissions authm" where
  "renewal_keyboardInteractive W s [] = renewal_attempt s (raise ChallengeAborted)"
| "renewal_keyboardInteractive W s (answers # rest) =
     renewal_attempt s
       (if length answers \<noteq> 1 then raise ErrRenewalFailed
        else
        bnd IncrementRenewalAttempts (\<lambda>_.
        bnd (attempt (validateAndStoreReplacement W (rs_rc s) (rs_account s) (rs_keyRecord s) (rs_expectedGeneration s) (hd answers))) (\<lambda>r.
        case r of
          Inr perms \<Rightarrow> ret perms
        | Inl e \<Rightarrow> if e \<noteq> ErrTokenRejected then raise e else renewal_keyboardInteractive W s rest)))"

end
