(* ===== verification/Enrollment.thy ===== *)
theory Enrollment
  imports SshAuth
begin

text \<open>
  The continuations of \<open>internal/sshauth/enrollment.go\<close>: the token that a client of the enrollment user pastes is
  sanitized, rate limited and verified; the account of its identity is found or created, its credential replaced
  and the proven key linked.
\<close>

definition EventTypeEnrollmentSuccess :: string where "EventTypeEnrollmentSuccess = ''enrollment_success''"
definition EventTypeEnrollmentRejected :: string where "EventTypeEnrollmentRejected = ''enrollment_rejected''"
definition DetailEnrollmentKeyAlreadyLinked :: string where "DetailEnrollmentKeyAlreadyLinked = ''key_already_linked''"
definition DetailEnrollmentAttemptsExhausted :: string where "DetailEnrollmentAttemptsExhausted = ''ENROLLMENT_ATTEMPTS_EXHAUSTED''"
definition DetailEnrollmentRateLimited :: string where "DetailEnrollmentRateLimited = ''ENROLLMENT_RATE_LIMITED''"
definition DetailEnrollmentAccountCreated :: string where "DetailEnrollmentAccountCreated = ''account_created''"
definition DetailEnrollmentKeyLinked :: string where "DetailEnrollmentKeyLinked = ''key_linked''"
definition maxListedWorkspaces :: int where "maxListedWorkspaces = 10"

definition auditEnrollment :: "EnrollmentConfig \<Rightarrow> uuid option \<Rightarrow> uuid option \<Rightarrow> bool \<Rightarrow> string \<Rightarrow> unit authm" where
  "auditEnrollment ec a k result detail = audit_record (ec_Audit ec) (ec_DeploymentID ec) a k
     (if result then EventTypeEnrollmentSuccess else EventTypeEnrollmentRejected) result detail"

definition enrollment_fail :: "EnrollmentConfig \<Rightarrow> string \<Rightarrow> auth_error \<Rightarrow> 'a authm" where
  "enrollment_fail ec detail e = bnd (auditEnrollment ec None None False detail) (\<lambda>_. raise e)"

section \<open>The store mutations (linkEnrollment)\<close>

text \<open>A key that is already linked may only be enrolled again by the identity of its account.\<close>

definition link_check :: "world \<Rightarrow> EnrollmentConfig \<Rightarrow> CoderIdentity \<Rightarrow> string \<Rightarrow> bool authm" where
  "link_check W ec identity digest =
     bnd (store_call W (KeyDigestExists (wo_env W) digest)) (\<lambda>r.
     case r of
       Inl e \<Rightarrow> enrollment_fail ec (store_CodeOf e) ErrEnrollmentFailed
     | Inr None \<Rightarrow> ret False
     | Inr (Some linkedAccountID) \<Rightarrow>
         bnd (store_call W (GetAccount (wo_env W) linkedAccountID)) (\<lambda>r.
         case r of
           Inl e \<Rightarrow> enrollment_fail ec (store_CodeOf e) ErrEnrollmentFailed
         | Inr linked \<Rightarrow>
             if acct_CoderUserID linked = Some (ident_ID identity) then ret True
             else bnd (SendBanner EnrollmentKeyConflict) (\<lambda>_.
               enrollment_fail ec DetailEnrollmentKeyAlreadyLinked ErrEnrollmentKeyConflict)))"

text \<open>The replacement, from the current generation of the account; the result is the generation afterwards and
  whether a concurrent writer was first.\<close>

definition link_credential :: "world \<Rightarrow> EnrollmentConfig \<Rightarrow> Account \<Rightarrow> bool \<Rightarrow> bytes \<Rightarrow> CoderIdentity \<Rightarrow> (int64 \<times> bool) authm" where
  "link_credential W ec account created candidate identity =
     bnd ctx_done (\<lambda>done.
     bnd (if created then ret 0
          else bnd (store_call W (LoadCredential (wo_env W) done (acct_ID account))) (\<lambda>l.
            case l of
              Inl e \<Rightarrow> enrollment_fail ec (store_CodeOf e) ErrEnrollmentFailed
            | Inr snap \<Rightarrow> ret (snap_Generation snap))) (\<lambda>expectedGeneration.
     bnd (store_call W (ReplaceCredential (wo_env W) done \<lparr>req_AccountID = acct_ID account,
            req_ExpectedGeneration = expectedGeneration, req_Token = candidate, req_Identity = identity\<rparr>)) (\<lambda>r.
     case r of
       Inr snap \<Rightarrow> ret (snap_Generation snap, False)
     | Inl e \<Rightarrow>
         if errIs e (Sent ErrGenerationConflict)
         then bnd (store_call W (LoadCredential (wo_env W) done (acct_ID account))) (\<lambda>l.
              ret (case l of Inr current \<Rightarrow> snap_Generation current | Inl _ \<Rightarrow> expectedGeneration, True))
         else if errIs e (Sent ErrWrongIdentity)
         then enrollment_fail ec AUTH_WRONG_CODER_IDENTITY ErrEnrollmentFailed
         else enrollment_fail ec (store_CodeOf e) ErrEnrollmentFailed)))"

definition link_key :: "world \<Rightarrow> EnrollmentConfig \<Rightarrow> Account \<Rightarrow> bool \<Rightarrow> pubkey \<Rightarrow> SSHKeyRecord authm" where
  "link_key W ec account keyExists key =
     (if keyExists
      then
        bnd ctx_done (\<lambda>done.
        bnd (store_call W (LookupByPublicKey (wo_env W) done (ec_DeploymentID ec) key)) (\<lambda>r.
        case r of
          Inl e \<Rightarrow> enrollment_fail ec (store_CodeOf e) ErrEnrollmentFailed
        | Inr (_, keyRecord) \<Rightarrow>
            if key_AccountID keyRecord \<noteq> acct_ID account
            then enrollment_fail ec DetailEnrollmentKeyAlreadyLinked ErrEnrollmentKeyConflict
            else ret keyRecord))
      else
        bnd (clock W) (\<lambda>now.
        bnd (store_call W (AddKey (wo_env W) (acct_ID account) key (''enrolled '' @ wo_RFC3339 W now @ '' via login@''))) (\<lambda>r.
        case r of
          Inl e \<Rightarrow> enrollment_fail ec (store_CodeOf e) ErrEnrollmentFailed
        | Inr keyRecord \<Rightarrow> ret keyRecord)))"

definition linkEnrollment :: "world \<Rightarrow> EnrollmentConfig \<Rightarrow> bytes \<Rightarrow> CoderIdentity \<Rightarrow> pubkey \<Rightarrow> string
    \<Rightarrow> (Account \<times> SSHKeyRecord \<times> int64 \<times> string list) authm" where
  "linkEnrollment W ec candidate identity key digest =
     bnd (link_check W ec identity digest) (\<lambda>keyExists.
     bnd ctx_done (\<lambda>done.
     bnd (store_call W (LookupOrCreateAccountByCoderID (wo_env W) done (ec_DeploymentID ec) (ident_ID identity) (ident_Username identity))) (\<lambda>r.
     case r of
       Inl e \<Rightarrow> enrollment_fail ec (store_CodeOf e) ErrEnrollmentFailed
     | Inr (account, created) \<Rightarrow>
         bnd (link_credential W ec account created candidate identity) (\<lambda>(generation, alreadyUpdated).
         bnd (link_key W ec account keyExists key) (\<lambda>keyRecord.
         ret (account, keyRecord, generation,
           (if created then [DetailEnrollmentAccountCreated] else []) @
           (if keyExists then [] else [DetailEnrollmentKeyLinked]) @
           (if alreadyUpdated then [DetailRenewalAlreadyUpdated] else [])))))))"

text \<open>Go's \<open>strings.Join\<close>.\<close>

fun strings_Join :: "string list \<Rightarrow> string \<Rightarrow> string" where
  "strings_Join [] sep = []"
| "strings_Join [x] sep = x"
| "strings_Join (x # y # xs) sep = x @ sep @ strings_Join (y # xs) sep"

section \<open>One attempt (validateAndLink)\<close>

text \<open>The work after the verification: the link, and the side effects on the connection.\<close>

definition complete_enrollment :: "world \<Rightarrow> EnrollmentConfig \<Rightarrow> pubkey \<Rightarrow> string \<Rightarrow> bytes \<Rightarrow> CoderIdentity \<Rightarrow> permissions authm" where
  "complete_enrollment W ec key digest candidate identity =
     bnd (linkEnrollment W ec candidate identity key digest) (\<lambda>(account, keyRecord, generation, details).
     bnd (SendBanner (EnrollmentSuccess (ident_Username identity)
            (if ec_Workspaces ec then
               (case wo_workspaces W candidate (ident_ID identity) maxListedWorkspaces of
                  None \<Rightarrow> None
                | Some (names, n) \<Rightarrow> if names = [] then None else Some (names, n))
             else None))) (\<lambda>_.
     bnd (if ec_Rate ec
          then rate_call W (\<lambda>now wall r. map_option (Pair True) (GrantReconnectAllowance (env_lib (wo_env W)) now wall (acct_ID account) r))
          else ret True) (\<lambda>_.
     bnd (auditEnrollment ec (Some (acct_ID account)) (Some (key_ID keyRecord)) True (strings_Join details '','')) (\<lambda>_.
     bnd (on_conn (SetMustReconnect True)) (\<lambda>_.
     ret (FinalEnrollmentPermissions (env_lib (wo_env W)) (acct_ID account) (ec_DeploymentID ec) (key_ID keyRecord) generation))))))"

definition validateAndLink :: "world \<Rightarrow> EnrollmentConfig \<Rightarrow> pubkey \<Rightarrow> string \<Rightarrow> bytes \<Rightarrow> permissions authm" where
  "validateAndLink W ec key digest rawCandidate =
     (case SanitizeToken rawCandidate of
        Inl _ \<Rightarrow> enrollment_fail ec AUTH_CREDENTIAL_UNAUTHORIZED ErrTokenRejected
      | Inr candidate \<Rightarrow>
          bnd (if ec_Rate ec then rate_call W (\<lambda>now wall. AllowRenewalAttempt (env_lib (wo_env W)) now wall uuid_Nil) else ret True) (\<lambda>allowed.
          if \<not> allowed then enrollment_fail ec DetailEnrollmentRateLimited ErrRenewalRateLimited
          else
          bnd (verify_call W candidate) (\<lambda>v.
          case v of
            Inl err \<Rightarrow>
              let kind = KindOf err; detail = detailCodeFor err kind in
              if kind = Some CredentialInvalid then enrollment_fail ec detail ErrTokenRejected
              else if kind = Some ControlPlaneUnavailable then enrollment_fail ec AUTH_CODER_UNAVAILABLE ErrCoderUnavailable
              else enrollment_fail ec detail ErrEnrollmentFailed
          | Inr identity \<Rightarrow> complete_enrollment W ec key digest candidate identity)))"

section \<open>The continuations\<close>

definition PreTokenGate :: "world \<Rightarrow> EnrollmentConfig \<Rightarrow> bool authm" where
  "PreTokenGate W ec = (if ec_PreTokenGate ec
     then bnd (gets (\<lambda>w. peerIPFromState (gw_conn w))) (\<lambda>ip. rate_call W (\<lambda>now wall. AllowUnknownKeyAttempt now wall ip))
     else ret True)"

definition enrollment_attempt :: "enrollmentSession \<Rightarrow> 'a authm \<Rightarrow> 'a authm" where
  "enrollment_attempt s m =
     bnd (gets (\<lambda>w. int (RenewalAttempts (gw_conn w)))) (\<lambda>n.
     if ec_maxAttempts (es_ec s) \<le> n
     then enrollment_fail (es_ec s) DetailEnrollmentAttemptsExhausted ErrRenewalAttemptsExhausted
     else m)"

definition enrollment_password :: "world \<Rightarrow> enrollmentSession \<Rightarrow> bytes \<Rightarrow> permissions authm" where
  "enrollment_password W s password =
     bnd (PreTokenGate W (es_ec s)) (\<lambda>allowed.
     if \<not> allowed then enrollment_fail (es_ec s) DetailEnrollmentRateLimited ErrRenewalRateLimited
     else
     enrollment_attempt s
       (bnd IncrementRenewalAttempts (\<lambda>_. validateAndLink W (es_ec s) (es_key s) (es_digest s) password)))"

fun enrollment_keyboardInteractive :: "world \<Rightarrow> enrollmentSession \<Rightarrow> string list list \<Rightarrow> permissions authm" where
  "enrollment_keyboardInteractive W s [] = enrollment_attempt s (raise ChallengeAborted)"
| "enrollment_keyboardInteractive W s (answers # rest) =
     enrollment_attempt s
       (if length answers \<noteq> 1 then raise ErrEnrollmentFailed
        else
        bnd IncrementRenewalAttempts (\<lambda>_.
        bnd (attempt (validateAndLink W (es_ec s) (es_key s) (es_digest s) (hd answers))) (\<lambda>r.
        case r of
          Inr perms \<Rightarrow> ret perms
        | Inl e \<Rightarrow>
            if e \<noteq> ErrTokenRejected then raise e
            else
            bnd (PreTokenGate W (es_ec s)) (\<lambda>allowed.
            if \<not> allowed then enrollment_fail (es_ec s) DetailEnrollmentRateLimited ErrRenewalRateLimited
            else enrollment_keyboardInteractive W s rest))))"

section \<open>The continuations a partial success offers\<close>

definition continue_password :: "world \<Rightarrow> next_auth \<Rightarrow> bytes \<Rightarrow> permissions authm" where
  "continue_password W nxt password = (case nxt of
     NextPlaceholder \<Rightarrow> raise RenewalNotImplemented
   | NextRenewal s \<Rightarrow> renewal_password W s password
   | NextEnrollment s \<Rightarrow> enrollment_password W s password)"

definition continue_keyboardInteractive :: "world \<Rightarrow> next_auth \<Rightarrow> string list list \<Rightarrow> permissions authm" where
  "continue_keyboardInteractive W nxt answers = (case nxt of
     NextPlaceholder \<Rightarrow> raise RenewalNotImplemented
   | NextRenewal s \<Rightarrow> renewal_keyboardInteractive W s answers
   | NextEnrollment s \<Rightarrow> enrollment_keyboardInteractive W s answers)"

end
