(* ===== verification/AuthLoops.thy ===== *)
theory AuthLoops
  imports Enrollment
begin

text \<open>
  The token prompts end: the renewal and the enrollment continuation share the contract of a bounded prompt
  loop, stated as a locale and interpreted on both. A connection pays for every verification of a pasted token
  with one of its attempts, and the keyboard-interactive loop stops after at most as many challenges as
  attempts are left.
\<close>

section \<open>What one attempt costs\<close>

abbreviation tries :: "gateway \<Rightarrow> nat" where "tries w \<equiv> cs_renewalTries (gw_conn w)"

text \<open>A computation that asks the control plane at most \<open>v\<close> times, leaves the attempt counter alone and never
  reports an aborted challenge.\<close>

definition costs :: "nat \<Rightarrow> 'a authm \<Rightarrow> bool" where
  "costs v m \<longleftrightarrow> (\<forall>w. gw_verifications w \<le> gw_verifications (snd (m w))
     \<and> gw_verifications (snd (m w)) \<le> gw_verifications w + v \<and> tries (snd (m w)) = tries w
     \<and> fst (m w) \<noteq> Inl ChallengeAborted)"

named_theorems costs_intros

lemma costs_pure [costs_intros]:
  "costs v (ret a)" "costs v (gets f)" "e \<noteq> ChallengeAborted \<Longrightarrow> costs v (raise e)"
  by (simp_all add: costs_def)

lemma costsD:
  assumes "costs v m" "m w = (r, w')"
  shows "gw_verifications w \<le> gw_verifications w'" "gw_verifications w' \<le> gw_verifications w + v" "tries w' = tries w"
    "r \<noteq> Inl ChallengeAborted"
  using assms unfolding costs_def by (metis fst_conv snd_conv)+

lemma costs_bnd_add: "costs u m \<Longrightarrow> (\<And>a. costs v (f a)) \<Longrightarrow> costs (u + v) (bnd m f)"
proof -
  assume m: "costs u m" and f: "\<And>a. costs v (f a)"
  show "costs (u + v) (bnd m f)" unfolding costs_def
  proof
    fix w
    obtain r t where mw: "m w = (r, t)" by fastforce
    note M = costsD [OF m mw]
    show "gw_verifications w \<le> gw_verifications (snd (bnd m f w)) \<and> gw_verifications (snd (bnd m f w)) \<le> gw_verifications w + (u + v)
      \<and> tries (snd (bnd m f w)) = tries w \<and> fst (bnd m f w) \<noteq> Inl ChallengeAborted"
    proof (cases r)
      case (Inr a)
      obtain r' t' where "f a t = (r', t')" by fastforce
      with costsD [OF f this] M mw Inr show ?thesis by simp
    qed (use M mw in simp)
  qed
qed

lemma costs_bnd_last: "costs v m \<Longrightarrow> (\<And>a. costs 0 (f a)) \<Longrightarrow> costs v (bnd m f)"
  using costs_bnd_add [of v m 0 f] by simp

lemma costs_bnd [costs_intros]: "costs 0 m \<Longrightarrow> (\<And>a. costs v (f a)) \<Longrightarrow> costs v (bnd m f)"
  using costs_bnd_add [of 0 m v f] by simp

lemma costs_branch [costs_intros]:
  "(b \<Longrightarrow> costs v m) \<Longrightarrow> (\<not> b \<Longrightarrow> costs v n) \<Longrightarrow> costs v (if b then m else n)"
  "(\<And>e. x = Inl e \<Longrightarrow> costs v (g e)) \<Longrightarrow> (\<And>a. x = Inr a \<Longrightarrow> costs v (f a)) \<Longrightarrow> costs v (case x of Inl e \<Rightarrow> g e | Inr a \<Rightarrow> f a)"
  "(y = None \<Longrightarrow> costs v m) \<Longrightarrow> (\<And>a. y = Some a \<Longrightarrow> costs v (h a)) \<Longrightarrow> costs v (case y of None \<Rightarrow> m | Some a \<Rightarrow> h a)"
  "(\<And>a b. z = (a, b) \<Longrightarrow> costs v (k a b)) \<Longrightarrow> costs v (case z of (a, b) \<Rightarrow> k a b)"
  "(\<And>a. costs v (l a)) \<Longrightarrow> costs v (let a = t in l a)"
  by (auto split: sum.splits option.splits prod.splits)

lemma costs_calls [costs_intros]:
  "costs 0 (store_call W m)" "costs 0 (clock W)" "costs 0 (SendBanner b)" "costs 0 ctx_done"
  "costs 0 (audit_record on dep a k typ res d)" "costs 0 (on_conn (SetMustReconnect r))"
  by (auto simp: costs_def store_call_def clock_def SendBanner_def modify_gw_def ctx_done_def audit_record_def on_conn_def
      split: prod.splits)

lemma costs_rate [costs_intros]: "costs 0 (rate_call W f)"
  unfolding rate_call_def by (intro costs_intros) (auto simp: costs_def split: option.splits)

lemma costs_verify: "costs 1 (verify_call W t)"
  by (simp add: costs_def verify_call_def)

lemma costs_bnd_verify [costs_intros]: "(\<And>a. costs 0 (f a)) \<Longrightarrow> costs 1 (bnd (verify_call W t) f)"
  by (rule costs_bnd_last [OF costs_verify])

lemma costs_replaceCredential: "costs 1 (validateAndStoreReplacement W rc a k g tok)"
  unfolding validateAndStoreReplacement_def
proof (rule costs_bnd_last)
  show "costs 1 (replaceCredential W rc a k g tok)"
    unfolding replaceCredential_def store_replacement_def auditRenewal_def auditWrongUserToken_def
    by (intro costs_intros; simp)
qed (intro costs_intros)

lemma costs_fail [costs_intros]: "e \<noteq> ChallengeAborted \<Longrightarrow> costs v (enrollment_fail ec d e)"
  unfolding enrollment_fail_def auditEnrollment_def by (intro costs_intros)

lemma costs_link: "costs 0 (linkEnrollment W ec tok ident key digest)"
  unfolding linkEnrollment_def link_check_def link_credential_def link_key_def by (intro costs_intros; simp)

lemma costs_complete [costs_intros]: "costs 0 (complete_enrollment W ec key digest tok ident)"
  unfolding complete_enrollment_def auditEnrollment_def by (intro costs_intros costs_link)

lemma costs_validateAndLink: "costs 1 (validateAndLink W ec key digest tok)"
  unfolding validateAndLink_def by (intro costs_intros; simp)

lemma costs_PreTokenGate [costs_intros]: "costs 0 (PreTokenGate W ec)"
  unfolding PreTokenGate_def by (intro costs_intros)

section \<open>The contract of a prompt loop\<close>

text \<open>At most one attempt is spent, and no verification without it.\<close>

definition paid :: "gateway \<Rightarrow> gateway \<Rightarrow> bool" where
  "paid w t \<longleftrightarrow> tries w \<le> tries t \<and> tries t \<le> Suc (tries w) \<and> gw_verifications t + tries w \<le> gw_verifications w + tries t"

text \<open>The calls a client can make of the continuations of one connection.\<close>

datatype prompt_call = TypePassword bytes | AnswerPrompts "string list list"

fun prompt_run :: "(string list list \<Rightarrow> permissions authm) \<Rightarrow> (bytes \<Rightarrow> permissions authm) \<Rightarrow> prompt_call list \<Rightarrow> gateway \<Rightarrow> gateway" where
  "prompt_run ki pw [] w = w"
| "prompt_run ki pw (TypePassword p # cs) w = prompt_run ki pw cs (snd (pw p w))"
| "prompt_run ki pw (AnswerPrompts as # cs) w = prompt_run ki pw cs (snd (ki as w))"

locale prompt_loop =
  fixes maxAttempts :: int
    and keyboardInteractive :: "string list list \<Rightarrow> permissions authm"
    and password :: "bytes \<Rightarrow> permissions authm"
  assumes exhausted: "maxAttempts \<le> int (tries w) \<Longrightarrow>
      \<exists>t. (\<forall>as. keyboardInteractive as w = (Inl ErrRenewalAttemptsExhausted, t)) \<and> tries t = tries w \<and> gw_verifications t = gw_verifications w"
    and unanswered: "int (tries w) < maxAttempts \<Longrightarrow> keyboardInteractive [] w = (Inl ChallengeAborted, w)"
    and answered: "int (tries w) < maxAttempts \<Longrightarrow>
      (\<exists>r t. (\<forall>rest. keyboardInteractive (a # rest) w = (r, t)) \<and> r \<noteq> Inl ChallengeAborted \<and> paid w t)
      \<or> (\<exists>t. (\<forall>rest. keyboardInteractive (a # rest) w = keyboardInteractive rest t) \<and> paid w t \<and> tries t = Suc (tries w))"
    and typed: "password p w = (r, t) \<Longrightarrow> paid w t \<and> (tries t \<noteq> tries w \<longrightarrow> int (tries w) < maxAttempts)"
begin

definition within :: "gateway \<Rightarrow> gateway \<Rightarrow> bool" where
  "within w t \<longleftrightarrow> tries w \<le> tries t \<and> int (tries t) \<le> max (int (tries w)) maxAttempts
     \<and> gw_verifications t + tries w \<le> gw_verifications w + tries t"

lemma within_refl: "within w w"
  by (simp add: within_def)

lemma within_trans: "within u v \<Longrightarrow> within v w \<Longrightarrow> within u w"
  unfolding within_def by linarith

lemma paid_within: "paid w t \<Longrightarrow> int (tries w) < maxAttempts \<or> tries t = tries w \<Longrightarrow> within w t"
  by (auto simp: paid_def within_def)

lemma loop_within: "within w (snd (keyboardInteractive as w))"
proof (induction as arbitrary: w)
  case Nil
  show ?case using exhausted [of w] unanswered [of w] by (cases "maxAttempts \<le> int (tries w)") (auto simp: within_def)
next
  case (Cons a as)
  show ?case
  proof (cases "maxAttempts \<le> int (tries w)")
    case True
    then show ?thesis using exhausted [of w] by (auto simp: within_def)
  next
    case False
    from answered [of w a] False consider
      r t where "keyboardInteractive (a # as) w = (r, t)" "paid w t"
      | t where "keyboardInteractive (a # as) w = keyboardInteractive as t" "paid w t" by (metis linorder_not_le)
    then show ?thesis using False Cons.IH paid_within within_trans by cases (fastforce simp: linorder_not_le)+
  qed
qed

lemma run_within: "within w (prompt_run keyboardInteractive password cs w)"
proof (induction cs arbitrary: w)
  case (Cons c cs)
  have "within w (snd (password p w))" for p using typed [of p w] paid_within by (metis prod.collapse)
  with loop_within Cons.IH show ?case by (cases c) (simp_all, (blast intro: within_trans)+)
qed (simp add: within_refl)

text \<open>As many answers as attempts are left decide the loop.\<close>

lemma loop_decided:
  "maxAttempts \<le> int (tries w + length as) \<Longrightarrow>
   fst (keyboardInteractive as w) \<noteq> Inl ChallengeAborted \<and> keyboardInteractive (as @ others) w = keyboardInteractive as w"
proof (induction as arbitrary: w)
  case Nil
  then show ?case using exhausted [of w] by auto
next
  case (Cons a as)
  show ?case
  proof (cases "maxAttempts \<le> int (tries w)")
    case True
    then show ?thesis using exhausted [of w] by auto
  next
    case False
    then consider r t where "\<forall>rest. keyboardInteractive (a # rest) w = (r, t)" "r \<noteq> Inl ChallengeAborted"
      | t where "\<forall>rest. keyboardInteractive (a # rest) w = keyboardInteractive rest t" "tries t = Suc (tries w)"
      using answered [of w a] by (metis linorder_not_le)
    then show ?thesis
    proof cases
      case 2
      with Cons.IH [of t] Cons.prems show ?thesis by simp
    qed simp
  qed
qed

end

section \<open>Both continuations keep it\<close>

lemma tries_increment [simp]:
  "tries (snd (IncrementRenewalAttempts w)) = Suc (tries w)" "fst (IncrementRenewalAttempts w) = Inr ()"
  "gw_verifications (snd (IncrementRenewalAttempts w)) = gw_verifications w"
  by (simp_all add: IncrementRenewalAttempts_def on_conn_def modify_gw_def)

lemma bnd_increment: "bnd IncrementRenewalAttempts f w = f () (snd (IncrementRenewalAttempts w))"
  by (metis bnd_step(1) prod.collapse tries_increment(2))

lemma bnd_attempt: "bnd (attempt m) f w = f (fst (m w)) (snd (m w))"
  by (simp add: bnd_def)

lemma paid_attempt:
  assumes "costs 1 m" "m (snd (IncrementRenewalAttempts w)) = (r, t)"
  shows "paid w t \<and> tries t = Suc (tries w) \<and> r \<noteq> Inl ChallengeAborted"
  using costsD [OF assms] by (simp add: paid_def)

lemma paid_free: "costs 0 m \<Longrightarrow> m t = (r, t') \<Longrightarrow> paid w t \<Longrightarrow> paid w t' \<and> tries t' = tries t"
  using costsD(1-3) [of 0 m t r t'] by (simp add: paid_def)

lemma renewal_attempt_eq:
  "renewal_attempt s m w = (if rc_maxAttempts (rs_rc s) \<le> int (tries w)
     then bnd (auditRenewal (rs_rc s) (rs_account s) (rs_keyRecord s) False DetailRenewalAttemptsExhausted)
            (\<lambda>_. raise ErrRenewalAttemptsExhausted) w else m w)"
  by (simp add: renewal_attempt_def)

lemma enrollment_attempt_eq:
  "enrollment_attempt s m w = (if ec_maxAttempts (es_ec s) \<le> int (tries w)
     then enrollment_fail (es_ec s) DetailEnrollmentAttemptsExhausted ErrRenewalAttemptsExhausted w else m w)"
  by (simp add: enrollment_attempt_def)

interpretation renewal: prompt_loop "rc_maxAttempts (rs_rc s)" "renewal_keyboardInteractive W s" "renewal_password W s" for W s
proof
  let ?max = "rc_maxAttempts (rs_rc s)"
  fix w a p r t
  show "\<exists>t. (\<forall>as. renewal_keyboardInteractive W s as w = (Inl ErrRenewalAttemptsExhausted, t)) \<and> tries t = tries w
      \<and> gw_verifications t = gw_verifications w" if "?max \<le> int (tries w)"
  proof -
    let ?m = "bnd (auditRenewal (rs_rc s) (rs_account s) (rs_keyRecord s) False DetailRenewalAttemptsExhausted)
            (\<lambda>_. raise ErrRenewalAttemptsExhausted)"
    have e: "renewal_keyboardInteractive W s as w = ?m w" for as
      using that by (cases as) (simp_all add: renewal_attempt_eq)
    show ?thesis unfolding e
      by (simp add: auditRenewal_def audit_record_def modify_gw_def bnd_def)
  qed
  show "renewal_keyboardInteractive W s [] w = (Inl ChallengeAborted, w)" if "int (tries w) < ?max"
    using that by (simp add: renewal_attempt_eq)
  show "(\<exists>r t. (\<forall>rest. renewal_keyboardInteractive W s (a # rest) w = (r, t)) \<and> r \<noteq> Inl ChallengeAborted \<and> paid w t)
      \<or> (\<exists>t. (\<forall>rest. renewal_keyboardInteractive W s (a # rest) w = renewal_keyboardInteractive W s rest t)
            \<and> paid w t \<and> tries t = Suc (tries w))" if "int (tries w) < ?max"
  proof (cases "length a = 1")
    case True
    let ?m = "validateAndStoreReplacement W (rs_rc s) (rs_account s) (rs_keyRecord s) (rs_expectedGeneration s) (hd a)"
    obtain r t where m: "?m (snd (IncrementRenewalAttempts w)) = (r, t)" by fastforce
    note paid_attempt [OF costs_replaceCredential m]
    then show ?thesis using that True m by (cases r) (auto simp: renewal_attempt_eq bnd_increment bnd_attempt)
  qed (use that in \<open>simp add: renewal_attempt_eq paid_def\<close>)
  show "paid w t \<and> (tries t \<noteq> tries w \<longrightarrow> int (tries w) < ?max)" if h: "renewal_password W s p w = (r, t)"
  proof (cases "?max \<le> int (tries w)")
    case True
    then show ?thesis using h
      by (auto simp: renewal_password_def renewal_attempt_eq auditRenewal_def audit_record_def modify_gw_def bnd_def paid_def)
  next
    case False
    then show ?thesis using h paid_attempt [OF costs_replaceCredential]
      by (auto simp: renewal_password_def renewal_attempt_eq bnd_increment)
  qed
qed

lemma enrollment_fail_run:
  "\<exists>t. enrollment_fail ec d e w = (Inl e, t) \<and> tries t = tries w \<and> gw_verifications t = gw_verifications w"
  by (simp add: enrollment_fail_def auditEnrollment_def audit_record_def modify_gw_def bnd_def)

interpretation enrollment: prompt_loop "ec_maxAttempts (es_ec s)" "enrollment_keyboardInteractive W s" "enrollment_password W s" for W s
proof
  let ?max = "ec_maxAttempts (es_ec s)"
  fix w a p r t
  show "\<exists>t. (\<forall>as. enrollment_keyboardInteractive W s as w = (Inl ErrRenewalAttemptsExhausted, t)) \<and> tries t = tries w
      \<and> gw_verifications t = gw_verifications w" if "?max \<le> int (tries w)"
  proof -
    have e: "enrollment_keyboardInteractive W s as w = enrollment_fail (es_ec s) DetailEnrollmentAttemptsExhausted ErrRenewalAttemptsExhausted w" for as
      using that by (cases as) (simp_all add: enrollment_attempt_eq)
    show ?thesis unfolding e using enrollment_fail_run by blast
  qed
  show "enrollment_keyboardInteractive W s [] w = (Inl ChallengeAborted, w)" if "int (tries w) < ?max"
    using that by (simp add: enrollment_attempt_eq)
  show "(\<exists>r t. (\<forall>rest. enrollment_keyboardInteractive W s (a # rest) w = (r, t)) \<and> r \<noteq> Inl ChallengeAborted \<and> paid w t)
      \<or> (\<exists>t. (\<forall>rest. enrollment_keyboardInteractive W s (a # rest) w = enrollment_keyboardInteractive W s rest t)
            \<and> paid w t \<and> tries t = Suc (tries w))" if "int (tries w) < ?max"
  proof (cases "length a = 1")
    case True
    let ?m = "validateAndLink W (es_ec s) (es_key s) (es_digest s) (hd a)"
    obtain r t where m: "?m (snd (IncrementRenewalAttempts w)) = (r, t)" by fastforce
    note p = paid_attempt [OF costs_validateAndLink m]
    have go: "enrollment_keyboardInteractive W s (a # rest) w = (if r = Inl ErrTokenRejected then
        bnd (PreTokenGate W (es_ec s)) (\<lambda>allowed. if \<not> allowed
          then enrollment_fail (es_ec s) DetailEnrollmentRateLimited ErrRenewalRateLimited
          else enrollment_keyboardInteractive W s rest) t else (r, t))" for rest
      using that True m by (cases r) (simp_all add: enrollment_attempt_eq bnd_increment bnd_attempt)
    show ?thesis
    proof (cases "r = Inl ErrTokenRejected")
      case rejected: True
      obtain g u where g: "PreTokenGate W (es_ec s) t = (g, u)" by fastforce
      note pu = paid_free [OF costs_PreTokenGate g] costsD(4) [OF costs_PreTokenGate g]
      obtain v where v: "(enrollment_fail (es_ec s) DetailEnrollmentRateLimited ErrRenewalRateLimited :: permissions authm) u = (Inl ErrRenewalRateLimited, v)"
        using enrollment_fail_run by blast
      note pv = paid_free [OF costs_fail v]
      show ?thesis
      proof (cases "g = Inr True")
        case True
        then have "enrollment_keyboardInteractive W s (a # rest) w = enrollment_keyboardInteractive W s rest u" for rest
          using rejected g unfolding go by simp
        then show ?thesis using p pu(1) by auto
      next
        case False
        then have "enrollment_keyboardInteractive W s (a # rest) w = (case g of Inl e \<Rightarrow> (Inl e, u) | Inr _ \<Rightarrow> (Inl ErrRenewalRateLimited, v))" for rest
          using rejected g v unfolding go by (cases g) auto
        then show ?thesis using p pu pv by (cases g) auto
      qed
    qed (use p in \<open>unfold go, simp\<close>)
  qed (use that in \<open>simp add: enrollment_attempt_eq paid_def\<close>)
  show "paid w t \<and> (tries t \<noteq> tries w \<longrightarrow> int (tries w) < ?max)" if h: "enrollment_password W s p w = (r, t)"
  proof -
    obtain g u where g: "PreTokenGate W (es_ec s) w = (g, u)" by fastforce
    have u: "paid w u" "tries u = tries w" using paid_free [OF costs_PreTokenGate g, of w] by (simp_all add: paid_def)
    have f: "paid w t \<and> tries t = tries w" if "enrollment_fail (es_ec s) d e u = (r, t)" for d e
      using that u enrollment_fail_run [where 'a = permissions, of "es_ec s" d e u] by (auto simp: paid_def)
    have a: "paid w t" if "validateAndLink W (es_ec s) (es_key s) (es_digest s) p (snd (IncrementRenewalAttempts u)) = (r, t)"
      using paid_attempt [OF costs_validateAndLink that] u by (simp add: paid_def)
    show ?thesis using h g u f a
      by (cases g) (auto simp: enrollment_password_def bnd_def enrollment_attempt_eq bnd_increment [unfolded bnd_def] split: if_splits)
  qed
qed

section \<open>A concrete gateway\<close>

text \<open>A control plane that knows one token, and a connection in front of a given store.\<close>

definition demo_world :: world where
  "demo_world = \<lparr>wo_env = demo_env,
     wo_verify = (\<lambda>n tok. if tok = ''tok'' then Inr \<lparr>ident_ID = 7, ident_Username = ''alice'', ident_Status = ''active''\<rparr>
       else Inl (CredErr (credErr CredentialInvalid 401 False AUTH_CREDENTIAL_UNAUTHORIZED))),
     wo_workspaces = (\<lambda>_ _ _. None), wo_now = int, wo_RFC3339 = (\<lambda>_. ''now''), wo_others = (\<lambda>_. [])\<rparr>"

definition demo_conn :: ConnState where
  "demo_conn = SetPreAuthConn (NewConnState ''c1'' ''10.0.0.1:5'' False)"

definition demo_gw :: "store \<Rightarrow> gateway" where
  "demo_gw s = \<lparr>gw_store = s, gw_rate = newRateLimitsWithEviction demo_limits 1 5, gw_cache = NewCachedVerifier 9 0, gw_conn = demo_conn,
     gw_audit = [], gw_banners = [], gw_steps = 0, gw_clock = 0, gw_verifications = 0\<rparr>"

definition demo_auth :: AuthConfig where
  "demo_auth = \<lparr>ac_DeploymentID = 9, ac_RenewalAuthTimeout = 0, ac_Renewal = None, ac_EnrollmentUser = [], ac_Enrollment = None,
     ac_KeyManagementUser = [], ac_KeyManagement = None, ac_Store = True, ac_Verifier = True, ac_Audit = True\<rparr>"

definition demo_key_record :: SSHKeyRecord where
  "demo_key_record = \<lparr>key_ID = 4, key_AccountID = 5, key_Fingerprint = [], key_Algorithm = [], key_Label = [], key_Enabled = True,
     key_CreatedAtMs = 0, key_LastUsedAtMs = None\<rparr>"

definition demo_renewal :: "int64 \<Rightarrow> renewalSession" where
  "demo_renewal g = \<lparr>rs_rc = \<lparr>rc_Rate = False, rc_Audit = True, rc_MaxAttempts = 0, rc_RenewalTimeout = 0, rc_DeploymentID = 9\<rparr>,
     rs_account = demo_account, rs_keyRecord = demo_key_record, rs_expectedGeneration = g\<rparr>"

definition new_key :: pubkey where
  "new_key = \<lparr>pk_Marshal = replicate 32 (CHR ''N''), pk_Type = ''ssh-ed25519'', pk_Fingerprint = ''SHA256:N'', pk_isCert = False\<rparr>"

definition demo_enrollment :: enrollmentSession where
  "demo_enrollment = \<lparr>es_ec = \<lparr>ec_Enabled = True, ec_User = ''login'', ec_Verifier = True, ec_Store = True, ec_Rate = False,
       ec_PreTokenGate = False, ec_Workspaces = False, ec_Audit = True, ec_MaxAttempts = 0, ec_RenewalTimeout = 0, ec_DeploymentID = 9\<rparr>,
     es_key = new_key, es_digest = KeyDigestHex demo_lib new_key\<rparr>"

section \<open>Properties\<close>

text \<open>C30. The token prompts of a connection end. However many answers the client is willing to give, the renewal and
  the enrollment loop return after at most as many answered challenges as attempts are left: from then on the
  result is decided, further answers change neither the result nor the state, and it is not the error of a
  client that gave up.\<close>

theorem token_prompts_end:
  assumes "rc_maxAttempts (rs_rc s) \<le> int (tries w + length as)" "ec_maxAttempts (es_ec e) \<le> int (tries w + length as)"
  shows "renewal_keyboardInteractive W s (as @ later) w = renewal_keyboardInteractive W s as w
    \<and> fst (renewal_keyboardInteractive W s as w) \<noteq> Inl ChallengeAborted
    \<and> enrollment_keyboardInteractive W e (as @ later) w = enrollment_keyboardInteractive W e as w
    \<and> fst (enrollment_keyboardInteractive W e as w) \<noteq> Inl ChallengeAborted"
  using renewal.loop_decided [OF assms(1)] enrollment.loop_decided [OF assms(2)] by blast

theorem token_prompts_end_witness:
  "renewal_keyboardInteractive demo_world (demo_renewal 0) ([[''bad''], [''bad''], [''bad'']] @ [[''tok'']]) (demo_gw demo_store) =
     renewal_keyboardInteractive demo_world (demo_renewal 0) [[''bad''], [''bad''], [''bad'']] (demo_gw demo_store)"
proof -
  have a: "rc_maxAttempts (rs_rc (demo_renewal 0)) \<le> int (tries (demo_gw demo_store) + length [[''bad''], [''bad''], [''bad'']])"
    by (simp add: rc_maxAttempts_def demo_renewal_def DefaultMaxRenewalAttempts_def)
  have b: "ec_maxAttempts (es_ec demo_enrollment) \<le> int (tries (demo_gw demo_store) + length [[''bad''], [''bad''], [''bad'']])"
    by (simp add: ec_maxAttempts_def demo_enrollment_def DefaultMaxRenewalAttempts_def)
  from token_prompts_end [OF a b, of demo_world "[[''tok'']]"] show ?thesis by blast
qed

text \<open>C31. Token guessing is bounded per connection: any sequence of password and keyboard-interactive calls of the
  renewal or of the enrollment continuation asks the control plane about at most as many tokens as attempts were
  left when it began, and the attempt counter never passes the configured maximum (3 unless configured).\<close>

theorem token_attempts_bounded:
  "(let t = prompt_run (renewal_keyboardInteractive W s) (renewal_password W s) calls w in
     gw_verifications t + tries w \<le> gw_verifications w + tries t \<and> int (tries t) \<le> max (int (tries w)) (rc_maxAttempts (rs_rc s)))
   \<and> (let u = prompt_run (enrollment_keyboardInteractive W e) (enrollment_password W e) calls w in
     gw_verifications u + tries w \<le> gw_verifications w + tries u \<and> int (tries u) \<le> max (int (tries w)) (ec_maxAttempts (es_ec e)))
   \<and> rc_maxAttempts (rs_rc s\<lparr>rc_MaxAttempts := 0\<rparr>) = 3 \<and> ec_maxAttempts (es_ec e\<lparr>ec_MaxAttempts := 0\<rparr>) = 3"
  using renewal.run_within [of s w W calls] enrollment.run_within [of e w W calls]
  unfolding renewal.within_def enrollment.within_def
  by (simp add: Let_def rc_maxAttempts_def ec_maxAttempts_def DefaultMaxRenewalAttempts_def)

end
