(* ===== verification/AuthProps.thy ===== *)
theory AuthProps
  imports AuthLoops
begin

text \<open>
  What authentication guarantees: the candidate stage answers uniformly and costs nothing, a login is backed by
  the enrolled key, the stored credential and a verdict of the control plane, a renewal and an enrollment store a
  token only for the identity it verified as, and no enrollment moves a linked key.
\<close>

section \<open>Runs of the small steps\<close>

definition logged :: "bool \<Rightarrow> (gateway \<Rightarrow> auditEvent) \<Rightarrow> gateway \<Rightarrow> gateway" where
  "logged on e w = (if on then w\<lparr>gw_audit := gw_audit w @ [e w]\<rparr> else w)"

lemma logged_sel [simp]:
  "gw_store (logged on e w) = gw_store w" "gw_rate (logged on e w) = gw_rate w" "gw_cache (logged on e w) = gw_cache w"
  "gw_conn (logged on e w) = gw_conn w" "gw_banners (logged on e w) = gw_banners w" "gw_steps (logged on e w) = gw_steps w"
  "gw_clock (logged on e w) = gw_clock w" "gw_verifications (logged on e w) = gw_verifications w"
  "gw_audit (logged on e w) = (if on then gw_audit w @ [e w] else gw_audit w)"
  by (simp_all add: logged_def)

lemma bnd_audit: "bnd (audit_record on dep a k typ res d) f w = f () (logged on (\<lambda>w. \<lparr>ev_ConnectionID = cs_id (gw_conn w),
    ev_DeploymentID = dep, ev_AccountID = a, ev_SSHKeyID = k, ev_EventType = typ, ev_Result = res, ev_PeerAddress = cs_peerAddr (gw_conn w), ev_DetailCode = d\<rparr>) w)"
  by (simp add: audit_record_def modify_gw_def bnd_def logged_def)

text \<open>The event of a rejection.\<close>

definition rejection :: "AuthConfig \<Rightarrow> string \<Rightarrow> uuid \<Rightarrow> uuid \<Rightarrow> gateway \<Rightarrow> auditEvent" where
  "rejection c code a k w = \<lparr>ev_ConnectionID = cs_id (gw_conn w), ev_DeploymentID = ac_DeploymentID c, ev_AccountID = non_nil a,
     ev_SSHKeyID = non_nil k, ev_EventType = EventTypeAuthRejected, ev_Result = False, ev_PeerAddress = cs_peerAddr (gw_conn w), ev_DetailCode = code\<rparr>"

lemma reject_run [simp]: "reject c d a k w = (Inl ErrPublicKeyRejected, logged (ac_Audit c) (rejection c d a k) w)"
  by (simp add: reject_def recordAuthRejected_def bnd_audit rejection_def [abs_def])

lemma bnd_on_conn: "bnd (on_conn g) f w = f () (w\<lparr>gw_conn := g (gw_conn w)\<rparr>)"
  by (simp add: on_conn_def modify_gw_def bnd_def)

lemma bnd_ctx_done: "bnd ctx_done f w = f (cs_ctxDone (gw_conn w)) w"
  by (simp add: ctx_done_def)

lemma bnd_store_call: "bnd (store_call W m) f w = f (fst (m (seen_store W w)))
    (w\<lparr>gw_store := snd (m (seen_store W w)), gw_steps := Suc (gw_steps w)\<rparr>)"
  by (simp add: store_call_def bnd_def split: prod.splits)

lemma candidateFor_Some: "candidateFor s a k = Some x \<Longrightarrow> cs_candidate s = Some x \<and> acct_ID (fst x) = a \<and> key_ID (snd x) = k"
  by (auto simp: candidateFor_def split: option.splits if_splits)

lemma proven_run:
  assumes "proven_identity W c cand sigAlg w = (Inr x, w')"
  shows "cs_candidate (gw_conn w) = Some x \<and> cs_verified (gw_conn w') = Some (fst x, snd x, sigAlg)
    \<and> gw_store w' = gw_store w \<and> gw_steps w' = gw_steps w \<and> gw_verifications w' = gw_verifications w \<and> gw_cache w' = gw_cache w
    \<and> gw_clock w' = gw_clock w \<and> cs_ctxDone (gw_conn w') = cs_ctxDone (gw_conn w)"
  using assms
  by (auto simp: proven_identity_def bnd_on_conn recordVerifiedKey_def bnd_audit
      split: sum.splits option.splits dest!: candidateFor_Some)

section \<open>The candidate stage\<close>

lemma not_final:
  "ParseFinalPermissions L (CandidatePermissions L a k) \<noteq> Inr p" "ParseFinalPermissions L (KeyManagementCandidatePermissions L a k) \<noteq> Inr p"
  "ParseFinalPermissions L (EnrollmentCandidatePermissions d) \<noteq> Inr p"
  by (auto simp: CandidatePermissions_def KeyManagementCandidatePermissions_def EnrollmentCandidatePermissions_def ext_def perm_keys perm_modes
      dest!: ParseFinalD)

text \<open>What the shared lookup does.\<close>

lemma lookup_candidate_run:
  "lookup_candidate W c key perms w =
     (if pk_isCert key then reject c AUTH_UNKNOWN_KEY uuid_Nil uuid_Nil w
      else case LookupByPublicKey (wo_env W) (cs_ctxDone (gw_conn w)) (ac_DeploymentID c) key (seen_store W w) of
        (Inl e, s) \<Rightarrow> reject c (store_CodeOf e) uuid_Nil uuid_Nil (w\<lparr>gw_store := s, gw_steps := Suc (gw_steps w)\<rparr>)
      | (Inr x, s) \<Rightarrow> (Inr (perms (acct_ID (fst x)) (key_ID (snd x))), w\<lparr>gw_store := s, gw_steps := Suc (gw_steps w),
          gw_conn := (gw_conn w)\<lparr>cs_candidate := Some x\<rparr>\<rparr>))"
  by (cases "LookupByPublicKey (wo_env W) (cs_ctxDone (gw_conn w)) (ac_DeploymentID c) key (seen_store W w)")
    (auto simp: lookup_candidate_def bnd_ctx_done bnd_store_call bnd_on_conn split: sum.splits)

section \<open>The verified stage\<close>

lemma startRenewal_Inl: "startRenewal c a k g w \<noteq> (Inr x, w')"
  by (auto simp: startRenewal_def Let_def bnd_on_conn bnd_Inr_iff)

lemma verifiedEnrollment_Inl: "verifiedEnrollment W c key cand w \<noteq> (Inr x, w')"
  unfolding verifiedEnrollment_def
  by (auto simp: Let_def bnd_Inr_iff split: option.splits sum.splits)

text \<open>Evidence that the token of an account and generation belongs to a Coder user: the verifier says so now, or a
  fresh cached verdict for that account and generation does.\<close>

definition attested :: "world \<Rightarrow> gateway \<Rightarrow> uuid \<Rightarrow> int64 \<Rightarrow> bytes \<Rightarrow> uuid \<Rightarrow> bool" where
  "attested W w a g tok u \<longleftrightarrow> (\<exists>ident. wo_verify W (gw_verifications w) tok = Inr ident \<and> ident_ID ident = u)
     \<or> (\<exists>entry. map_of (cv_cache (gw_cache w)) (cv_deploymentID (gw_cache w), a, g) = Some entry \<and> cres_valid entry \<and> cres_coderID entry = u
          \<and> wo_now W (gw_clock w) - cres_cachedAt entry < cv_ttl (gw_cache w))"

lemma VerifyCached_Inr:
  assumes "VerifyCached v now later a g tok cv = (Inr ident, cv')"
  shows "v tok = Inr ident \<or> (\<exists>entry. map_of (cv_cache cv) (cv_deploymentID cv, a, g) = Some entry \<and> cres_valid entry
      \<and> cres_coderID entry = ident_ID ident \<and> now - cres_cachedAt entry < cv_ttl cv)"
  using assms by (auto simp: VerifyCached_def Let_def split: option.splits sum.splits if_splits verify_error.splits)

lemma cached_call_Inr:
  assumes "cached_call W a g tok w = (Inr (Inr ident), w')" shows "attested W w a g tok (ident_ID ident)"
  using assms VerifyCached_Inr
  by (fastforce simp: cached_call_def clock_def bnd_def attested_def split: prod.splits)

lemma judge_Inr:
  assumes "judge_credential W c acct k snap w = (Inr perms, w')"
  shows "snap_State snap \<noteq> CredentialStateMissing \<and> snap_Token snap \<noteq> []
    \<and> (\<exists>u. acct_CoderUserID acct = Some u \<and> attested W w (acct_ID acct) (snap_Generation snap) (snap_Token snap) u)
    \<and> perms = FinalWorkspacePermissions (env_lib (wo_env W)) (acct_ID acct) (ac_DeploymentID c) (key_ID k) (snap_Generation snap)"
proof -
  have ne: "\<not> (snap_State snap = CredentialStateMissing \<or> length (snap_Token snap) = 0)"
    using assms startRenewal_Inl by (auto simp: judge_credential_def)
  then obtain v t where v: "cached_call W (acct_ID acct) (snap_Generation snap) (snap_Token snap) w = (Inr v, t)"
    and r: "(case v of
        Inr identity \<Rightarrow>
          (case acct_CoderUserID acct of
             None \<Rightarrow> reject c AUTH_WRONG_CODER_IDENTITY (acct_ID acct) (key_ID k)
           | Some u \<Rightarrow>
               if ident_ID identity \<noteq> u then reject c AUTH_WRONG_CODER_IDENTITY (acct_ID acct) (key_ID k)
               else ret (FinalWorkspacePermissions (env_lib (wo_env W)) (acct_ID acct) (ac_DeploymentID c) (key_ID k) (snap_Generation snap)))
      | Inl err \<Rightarrow>
          let kind = KindOf err in
          if kind_renewable kind then startRenewal c acct k (snap_Generation snap)
          else bnd (SendBanner (NonRenewable kind)) (\<lambda>_. reject c (detailCodeFor err kind) (acct_ID acct) (key_ID k))) t = (Inr perms, w')"
    using assms unfolding judge_credential_def by (auto simp: bnd_Inr_iff simp del: reject_run)
  show ?thesis
  proof (cases v)
    case (Inl e)
    then show ?thesis using r startRenewal_Inl by (auto simp: Let_def bnd_Inr_iff split: if_splits)
  next
    case (Inr ident)
    with r v cached_call_Inr ne show ?thesis by (fastforce split: option.splits if_splits)
  qed
qed

lemma verified_Inr:
  assumes "verifiedPublicKeyCallback W c key cand sigAlg w = (Inr perms, w')"
  shows "\<exists>m acct k. cand = Some m \<and> auth_validate c = None \<and> cs_candidate (gw_conn w) = Some (acct, k)
    \<and> ext m PermissionMode \<noteq> ModeEnrollment
    \<and> (if ext m PermissionMode = ModeKeyManagement
       then perms = FinalKeyManagementPermissions (env_lib (wo_env W)) (acct_ID acct) (ac_DeploymentID c) (key_ID k)
         \<and> gw_store w' = gw_store w \<and> gw_verifications w' = gw_verifications w
       else \<exists>snap u. fst (LoadCredential (wo_env W) (cs_ctxDone (gw_conn w)) (acct_ID acct) (seen_store W w)) = Inr snap
         \<and> snap_State snap \<noteq> CredentialStateMissing \<and> snap_Token snap \<noteq> [] \<and> acct_CoderUserID acct = Some u
         \<and> attested W w (acct_ID acct) (snap_Generation snap) (snap_Token snap) u
         \<and> perms = FinalWorkspacePermissions (env_lib (wo_env W)) (acct_ID acct) (ac_DeploymentID c) (key_ID k) (snap_Generation snap))"
proof (cases cand)
  case None
  then show ?thesis using assms
    by (auto simp: verifiedPublicKeyCallback_def proven_identity_def ParseCandidatePermissions_def bnd_Inr_iff split: if_splits)
next
  case (Some m)
  have v: "auth_validate c = None" "ext m PermissionMode \<noteq> ModeEnrollment"
    using assms Some verifiedEnrollment_Inl by (auto simp: verifiedPublicKeyCallback_def split: if_splits)
  show ?thesis
  proof (cases "ext m PermissionMode = ModeKeyManagement")
    case True
    with v assms Some show ?thesis
      by (fastforce simp: verifiedPublicKeyCallback_def verifiedKeyManagement_def bnd_Inr_iff dest!: proven_run)
  next
    case False
    with v assms Some obtain acct k t where p: "proven_identity W c cand sigAlg w = (Inr (acct, k), t)"
      and r: "bnd ctx_done (\<lambda>done. bnd (store_call W (LoadCredential (wo_env W) done (acct_ID acct))) (\<lambda>r.
        case r of Inl e \<Rightarrow> reject c (store_CodeOf e) (acct_ID acct) (key_ID k)
        | Inr snap \<Rightarrow> judge_credential W c acct k snap)) t = (Inr perms, w')"
      by (auto simp: verifiedPublicKeyCallback_def bnd_Inr_iff)
    note pr = proven_run [OF p]
    have seen: "seen_store W t = seen_store W w" using pr by (simp add: seen_store_def)
    obtain snap where l: "fst (LoadCredential (wo_env W) (cs_ctxDone (gw_conn w)) (acct_ID acct) (seen_store W w)) = Inr snap"
      and j: "judge_credential W c acct k snap (t\<lparr>gw_store := snd (LoadCredential (wo_env W) (cs_ctxDone (gw_conn w)) (acct_ID acct) (seen_store W w)),
        gw_steps := Suc (gw_steps t)\<rparr>) = (Inr perms, w')"
      using r pr seen by (auto simp: bnd_ctx_done bnd_store_call split: sum.splits)
    show ?thesis using v False Some l pr judge_Inr [OF j] by (fastforce simp: attested_def)
  qed
qed

section \<open>Renewal\<close>

lemma rate_call_run:
  assumes "rate_call W f w = (Inr b, w')"
  shows "gw_store w' = gw_store w \<and> gw_steps w' = gw_steps w \<and> gw_conn w' = gw_conn w \<and> gw_verifications w' = gw_verifications w
    \<and> gw_audit w' = gw_audit w \<and> gw_banners w' = gw_banners w"
  using assms by (auto simp: rate_call_def clock_def bnd_def split: option.splits)

lemma bnd_verify: "bnd (verify_call W tok) f w = f (wo_verify W (gw_verifications w) tok) (w\<lparr>gw_verifications := Suc (gw_verifications w)\<rparr>)"
  by (simp add: verify_call_def bnd_def)

text \<open>The rate gate in front of an attempt.\<close>

lemma gate_run:
  assumes "(if on then rate_call W f else ret True) w = (Inr b, w')"
  shows "gw_store w' = gw_store w \<and> gw_steps w' = gw_steps w \<and> gw_conn w' = gw_conn w \<and> gw_verifications w' = gw_verifications w
    \<and> gw_audit w' = gw_audit w \<and> gw_banners w' = gw_banners w"
  using assms rate_call_run by (auto split: if_splits)

text \<open>How a token came to be stored for an account: it was verified by the \<open>n\<close>-th question to the control plane as
  an identity the account accepts, and the store took it, or reported that another writer was first.\<close>

definition token_taken :: "world \<Rightarrow> Account \<Rightarrow> int64 \<Rightarrow> bytes \<Rightarrow> nat \<Rightarrow> bool \<Rightarrow> int64 \<Rightarrow> gateway \<Rightarrow> bool" where
  "token_taken W acct expected raw n late generation w' \<longleftrightarrow> (\<exists>tok ident st done r st'. SanitizeToken raw = Inr tok
     \<and> wo_verify W n tok = Inr ident
     \<and> (case acct_CoderUserID acct of Some u \<Rightarrow> ident_ID ident = u | None \<Rightarrow> acct_BindOnFirstToken acct)
     \<and> ReplaceCredential (wo_env W) done \<lparr>req_AccountID = acct_ID acct, req_ExpectedGeneration = expected, req_Token = tok,
         req_Identity = ident\<rparr> st = (r, st')
     \<and> (if late then \<exists>e. r = Inl e \<and> errIs e (Sent ErrGenerationConflict)
        else st' = gw_store w' \<and> (\<exists>snap. r = Inr snap \<and> snap_Generation snap = generation)))"

lemma store_replacement_Inr:
  assumes "store_replacement W rc acct k g tok ident w = (Inr (snap, late), w')" "SanitizeToken raw = Inr tok" "wo_verify W n tok = Inr ident"
    "case acct_CoderUserID acct of Some u \<Rightarrow> ident_ID ident = u | None \<Rightarrow> acct_BindOnFirstToken acct"
  shows "token_taken W acct g raw n late (snap_Generation snap) w'"
proof -
  let ?req = "\<lparr>req_AccountID = acct_ID acct, req_ExpectedGeneration = g, req_Token = tok, req_Identity = ident\<rparr>"
  let ?d = "cs_ctxDone (gw_conn w)"
  obtain r st' where R: "ReplaceCredential (wo_env W) ?d ?req (seen_store W w) = (r, st')" by fastforce
  have "if late then \<exists>e. r = Inl e \<and> errIs e (Sent ErrGenerationConflict)
        else st' = gw_store w' \<and> (\<exists>s. r = Inr s \<and> snap_Generation s = snap_Generation snap)"
    using assms(1) R by (cases r)
      (auto simp: store_replacement_def bnd_ctx_done bnd_store_call auditRenewal_def auditWrongUserToken_def bnd_audit split: if_splits sum.splits)
  with R assms(2-4) show ?thesis unfolding token_taken_def by blast
qed

lemma replaceCredential_Inr:
  assumes "replaceCredential W rc acct k g raw w = (Inr (snap, late), w')"
  shows "token_taken W acct g raw (gw_verifications w) late (snap_Generation snap) w'"
proof -
  obtain tok where tok: "SanitizeToken raw = Inr tok"
    using assms by (auto simp: replaceCredential_def auditRenewal_def bnd_audit split: sum.splits)
  then obtain allowed t where g: "(if rc_Rate rc then rate_call W (\<lambda>now wall. AllowRenewalAttempt (env_lib (wo_env W)) now wall (acct_ID acct)) else ret True) w = (Inr allowed, t)"
    and r: "(if \<not> allowed then bnd (auditRenewal rc acct k False DetailRenewalRateLimited) (\<lambda>_. raise ErrRenewalRateLimited)
       else bnd (verify_call W tok) (\<lambda>v. case v of
            Inl err \<Rightarrow>
              let kind = KindOf err; detail = detailCodeFor err kind in
              if kind = Some CredentialInvalid
              then bnd (auditRenewal rc acct k False detail) (\<lambda>_. raise ErrTokenRejected)
              else if kind = Some ControlPlaneUnavailable
              then bnd (auditRenewal rc acct k False AUTH_CODER_UNAVAILABLE) (\<lambda>_. raise ErrCoderUnavailable)
              else bnd (auditRenewal rc acct k False detail) (\<lambda>_. raise ErrRenewalFailed)
          | Inr identity \<Rightarrow>
              if (case acct_CoderUserID acct of Some u \<Rightarrow> ident_ID identity \<noteq> u | None \<Rightarrow> \<not> acct_BindOnFirstToken acct)
              then bnd (auditWrongUserToken rc acct k) (\<lambda>_. raise ErrWrongUserToken)
              else store_replacement W rc acct k g tok identity)) t = (Inr (snap, late), w')"
    using assms unfolding replaceCredential_def by (simp only: bnd_Inr_iff sum.case) blast
  have t: "gw_verifications t = gw_verifications w" using gate_run [OF g] by simp
  obtain ident where id: "wo_verify W (gw_verifications w) tok = Inr ident"
    and b: "case acct_CoderUserID acct of Some u \<Rightarrow> ident_ID ident = u | None \<Rightarrow> acct_BindOnFirstToken acct"
    and s: "store_replacement W rc acct k g tok ident (t\<lparr>gw_verifications := Suc (gw_verifications t)\<rparr>) = (Inr (snap, late), w')"
    using r t by (auto simp: bnd_verify auditRenewal_def auditWrongUserToken_def bnd_audit Let_def split: sum.splits if_splits option.splits)
  show ?thesis by (rule store_replacement_Inr [OF s tok id b])
qed

lemma SendBanner_sel [simp]:
  "gw_store (snd (SendBanner b w)) = gw_store w" "fst (SendBanner b w) = Inr ()" "gw_conn (snd (SendBanner b w)) = gw_conn w"
  by (simp_all add: SendBanner_def modify_gw_def)

lemma bnd_SendBanner: "bnd (SendBanner b) f w = f () (snd (SendBanner b w))"
  by (metis SendBanner_sel(2) bnd_step(1) prod.collapse)

lemma validateAndStore_Inr:
  assumes "validateAndStoreReplacement W rc acct k g raw w = (Inr perms, w')"
  shows "\<exists>late generation. token_taken W acct g raw (gw_verifications w) late generation w'
    \<and> perms = FinalWorkspacePermissions (env_lib (wo_env W)) (acct_ID acct) (rc_DeploymentID rc) (key_ID k) generation"
proof -
  obtain snap late t where r: "replaceCredential W rc acct k g raw w = (Inr (snap, late), t)" and w': "gw_store w' = gw_store t"
    and "perms = FinalWorkspacePermissions (env_lib (wo_env W)) (acct_ID acct) (rc_DeploymentID rc) (key_ID k) (snap_Generation snap)"
    using assms by (auto simp: validateAndStoreReplacement_def bnd_Inr_iff [of "replaceCredential W rc acct k g raw"] bnd_SendBanner)
  moreover have "token_taken W acct g raw (gw_verifications w) late (snap_Generation snap) w'"
    using replaceCredential_Inr [OF r] unfolding token_taken_def w' .
  ultimately show ?thesis by blast
qed

lemma renewal_loop_Inr:
  "renewal_keyboardInteractive W s as w = (Inr perms, w') \<Longrightarrow>
   \<exists>a\<in>set as. \<exists>n late generation. gw_verifications w \<le> n \<and> token_taken W (rs_account s) (rs_expectedGeneration s) (hd a) n late generation w'
    \<and> perms = FinalWorkspacePermissions (env_lib (wo_env W)) (acct_ID (rs_account s)) (rc_DeploymentID (rs_rc s)) (key_ID (rs_keyRecord s)) generation"
proof (induction as arbitrary: w)
  case Nil
  then show ?case by (auto simp: renewal_attempt_eq auditRenewal_def bnd_audit split: if_splits)
next
  case (Cons a as)
  let ?m = "validateAndStoreReplacement W (rs_rc s) (rs_account s) (rs_keyRecord s) (rs_expectedGeneration s) (hd a)"
  obtain r t where m: "?m (snd (IncrementRenewalAttempts w)) = (r, t)" by fastforce
  note c = costsD(1) [OF costs_replaceCredential m]
  from Cons.prems m consider "r = Inr perms" "t = w'" | "renewal_keyboardInteractive W s as t = (Inr perms, w')"
    by (cases r) (auto simp: renewal_attempt_eq auditRenewal_def bnd_audit bnd_increment bnd_attempt split: if_splits)
  then show ?case
  proof cases
    case 1
    with validateAndStore_Inr m show ?thesis by (metis list.set_intros(1) order_refl tries_increment(3))
  next
    case 2
    have "gw_verifications w \<le> gw_verifications t" using c by simp
    with Cons.IH [OF 2] show ?thesis by (meson list.set_intros(2) order_trans)
  qed
qed

definition demo_login :: store where
  "demo_login = store_exec demo_env (DoReplace False demo_req) demo_keyed"

section \<open>Properties\<close>

text \<open>The candidate stage is uniform and cheap: offering a key calls neither the control plane nor the rate
  limiter and sends no banner; every refusal, whatever the reason and the user name, is the same error with one
  anonymous audit event; an acceptance is either the enrollment candidate of exactly this key or the account and
  key the store's lookup returned, stashed on the connection; and what it hands out is never a final permission
  set.\<close>

theorem candidate_stage:
  "case publicKeyCallback W c user key w of (r, w') \<Rightarrow>
     gw_verifications w' = gw_verifications w \<and> gw_rate w' = gw_rate w \<and> gw_cache w' = gw_cache w \<and> gw_banners w' = gw_banners w
     \<and> (case r of
         Inl e \<Rightarrow> e = ErrPublicKeyRejected \<and> gw_conn w' = gw_conn w
           \<and> (\<exists>code. gw_audit w' = (if ac_Audit c then gw_audit w @ [rejection c code uuid_Nil uuid_Nil w] else gw_audit w))
       | Inr perms \<Rightarrow> gw_audit w' = gw_audit w \<and> auth_validate c = None \<and> \<not> pk_isCert key
           \<and> (\<forall>p. ParseFinalPermissions (env_lib (wo_env W)) perms \<noteq> Inr p)
           \<and> (if enrollmentEnabled c \<and> user = enrollmentUser c
              then perms = EnrollmentCandidatePermissions (KeyDigestHex (env_lib (wo_env W)) key) \<and> w' = w
              else \<exists>acct k. fst (LookupByPublicKey (wo_env W) (cs_ctxDone (gw_conn w)) (ac_DeploymentID c) key (seen_store W w)) = Inr (acct, k)
                \<and> gw_conn w' = (gw_conn w)\<lparr>cs_candidate := Some (acct, k)\<rparr>
                \<and> perms = (if keysEnabled c \<and> user = keysUser c then KeyManagementCandidatePermissions (env_lib (wo_env W)) (acct_ID acct) (key_ID k)
                    else CandidatePermissions (env_lib (wo_env W)) (acct_ID acct) (key_ID k))))"
proof -
  let ?L = "env_lib (wo_env W)"
  obtain x s where l: "LookupByPublicKey (wo_env W) (cs_ctxDone (gw_conn w)) (ac_DeploymentID c) key (seen_store W w) = (x, s)" by fastforce
  show ?thesis
    using l by (cases x) (auto simp: publicKeyCallback_def enrollmentCandidate_def keysCandidate_def lookup_candidate_run not_final rejection_def)
qed



text \<open>C2. Renewal admits nobody without a verified token of the right user. If the password or the
  keyboard-interactive continuation of a renewal completes, then one of the answers sanitizes to a token which the
  control plane, asked during this continuation, attributed to the Coder user the account is bound to (or the
  account is unbound and binds on its first token); that token is what the store took for this account at the
  expected generation, or the store reported that another writer had advanced the generation; and the permissions
  are those of this account, key and deployment.\<close>

theorem renewal_sound:
  assumes "renewal_keyboardInteractive W s answers w = (Inr perms, w') \<or> renewal_password W s (hd (hd answers)) w = (Inr perms, w') \<and> answers \<noteq> []"
  shows "\<exists>a\<in>set answers. \<exists>n late generation. gw_verifications w \<le> n
    \<and> token_taken W (rs_account s) (rs_expectedGeneration s) (hd a) n late generation w'
    \<and> perms = FinalWorkspacePermissions (env_lib (wo_env W)) (acct_ID (rs_account s)) (rc_DeploymentID (rs_rc s)) (key_ID (rs_keyRecord s)) generation"
  using assms
proof
  assume p: "renewal_password W s (hd (hd answers)) w = (Inr perms, w') \<and> answers \<noteq> []"
  then have "validateAndStoreReplacement W (rs_rc s) (rs_account s) (rs_keyRecord s) (rs_expectedGeneration s) (hd (hd answers))
      (snd (IncrementRenewalAttempts w)) = (Inr perms, w')"
    by (auto simp: renewal_password_def renewal_attempt_eq auditRenewal_def bnd_audit bnd_increment split: if_splits)
  from validateAndStore_Inr [OF this] p show ?thesis by (metis hd_in_set order_refl tries_increment(3))
qed (rule renewal_loop_Inr)

theorem renewal_sound_witness:
  "\<exists>perms w n late generation. renewal_keyboardInteractive demo_world (demo_renewal 0) [[''bad''], [''tok'']] (demo_gw demo_store) = (Inr perms, w)
     \<and> token_taken demo_world demo_account 0 ''tok'' n late generation w"
proof -
  let ?m = "renewal_keyboardInteractive demo_world (demo_renewal 0) [[''bad''], [''tok'']]"
  have "case fst (?m (demo_gw demo_store)) of Inl _ \<Rightarrow> False | Inr _ \<Rightarrow> True" by code_simp
  from run_Inr [of ?m "demo_gw demo_store", OF this] obtain perms w where r: "?m (demo_gw demo_store) = (Inr perms, w)" by blast
  have "\<not> token_taken demo_world demo_account 0 ''bad'' n late g w" for n late g
  proof -
    have "SanitizeToken ''bad'' = Inr ''bad''" by code_simp
    then show ?thesis by (auto simp: token_taken_def demo_world_def)
  qed
  then show ?thesis using renewal_sound [OF disjI1 [OF r]] r by (auto simp: demo_renewal_def)
qed

text \<open>A renewal can report success although no valid token is stored. The store's generation conflict is taken
  as proof that another writer stored a valid token; but removing the credential advances the generation too. In
  this run an administrator clears the credential while the client is typing: the renewal answers with workspace
  permissions and the banner that the credential is already up to date, and the credential is missing.\<close>

theorem renewal_after_clear:
  "let w = demo_gw demo_loaded; W = demo_world\<lparr>wo_others := (\<lambda>n. if n = 0 then [DoClear False 5 1] else [])\<rparr>;
       (r, w') = renewal_password W (demo_renewal 1) ''tok'' w in
   r = Inr (FinalWorkspacePermissions demo_lib 5 9 4 2) \<and> gw_banners w' = [RenewalAlreadyUpdated]
   \<and> (case fst (LoadCredential demo_env False 5 (gw_store w')) of Inl _ \<Rightarrow> False
      | Inr snap \<Rightarrow> snap_State snap = CredentialStateMissing \<and> snap_Token snap = [] \<and> snap_Generation snap = 2)"
  by code_simp

end
