(* ===== verification/EnrollProps.thy ===== *)
theory EnrollProps
  imports AuthProps
begin

text \<open>
  Enrollment: what a completed enrollment rests on, and that no attempt, completed or not, moves a linked key.
\<close>

section \<open>Linked keys stay\<close>

text \<open>Every key file of \<open>K\<close> is still there with its content.\<close>

definition linked :: "(string \<Rightarrow> keyRecord fnode option) \<Rightarrow> store \<Rightarrow> bool" where
  "linked K s \<longleftrightarrow> dirs_distinct s \<and> K \<subseteq>\<^sub>m view (st_keys s)"

lemma linked_img: "linked K s \<longleftrightarrow> dirs_distinct s \<and> K \<subseteq>\<^sub>m im_key (img_of s)"
  by (simp add: linked_def img_of_def)

lemma keeps_linked:
  assumes "\<And>I. K \<subseteq>\<^sub>m im_key I \<Longrightarrow> triple (disk I) m (\<lambda>_. linked K) (\<lambda>_. linked K)"
  shows "keeps (linked K) m"
  by (rule keepsI) (use assms triple_snd disk_img in \<open>fastforce simp: linked_img\<close>)

lemma keeps_disk_linked: "(\<And>I. keeps (disk I) m) \<Longrightarrow> keeps (linked K) m"
  by (rule keepsI) (use keepsD [of "disk _" m] in \<open>fastforce simp: linked_img disk_iff\<close>)

lemma linked_reads:
  "keeps (linked K) (LookupByPublicKey E c dep k)" "keeps (linked K) (LoadCredential E c i)"
  "keeps (linked K) (KeyDigestExists E d)" "keeps (linked K) (GetAccount E i)"
proof -
  show "keeps (linked K) (LookupByPublicKey E c dep k)" "keeps (linked K) (LoadCredential E c i)"
    by (rule keeps_disk_linked, rule LookupByPublicKey_keeps LoadCredential_keeps)+
  show "keeps (linked K) (KeyDigestExists E d)"
    by (rule keeps_disk_linked) (unfold KeyDigestExists_def, intro keeps_intros; simp)
  show "keeps (linked K) (GetAccount E i)"
    by (rule keeps_disk_linked) (unfold GetAccount_def, intro keeps_intros; simp)
qed

lemma linked_becomes: "becomes X t \<Longrightarrow> (\<And>J. J \<in> X \<Longrightarrow> K \<subseteq>\<^sub>m im_key J) \<Longrightarrow> linked K t"
  by (auto simp: linked_img dest: becomes_disk)

lemma linked_writes:
  "keeps (linked K) (AddKey E a k l)" "keeps (linked K) (LookupOrCreateAccountByCoderID E c dep u n)"
  "uuid_lawful (env_lib E) \<Longrightarrow> keeps (linked K) (ReplaceCredential E c req)"
proof -
  show "keeps (linked K) (AddKey E a k l)"
  proof (rule keeps_linked, rule triple_weaken [OF AddKey_disk])
    fix I :: image and x s assume K: "K \<subseteq>\<^sub>m im_key I"
    have a: "K \<subseteq>\<^sub>m im_key J" if "key_added E a k l r I J" for r J
      using that K by (auto simp: key_added_def Let_def map_le_def dom_def)
    then show "\<exists>r J. disk J s \<and> key_added E a k l r I J \<and> x = key_toCore (env_lib E) r \<Longrightarrow> linked K s"
      by (auto simp: linked_img disk_iff)
    show "disk I s \<or> becomes {J. \<exists>r. key_added E a k l r I J} s \<Longrightarrow> linked K s"
      using a K by (auto simp: linked_img disk_iff dest!: becomes_disk)
  qed
  show "keeps (linked K) (LookupOrCreateAccountByCoderID E c dep u n)"
  proof (rule keeps_linked, rule triple_weaken [OF LookupOrCreate_disk])
    fix I :: image and x s assume K: "K \<subseteq>\<^sub>m im_key I"
    then show "(case x of (a, created) \<Rightarrow> (\<lambda>s. if created then \<exists>J. disk J s \<and> enrolled E I dep u n a J
        else found_account E I (uuid_String (env_lib E) dep) (uuid_String (env_lib E) u) n a s)) s \<Longrightarrow> linked K s"
      by (auto simp: linked_img disk_iff enrolled_def found_account_def refreshed_def split: if_splits)
    show "disk I s \<or> becomes (enroll_images E I dep u n) s \<Longrightarrow> linked K s"
      using K by (auto simp: linked_img disk_iff enrolled_def refreshed_def dest!: becomes_disk)
  qed
  show "keeps (linked K) (ReplaceCredential E c req)" if "uuid_lawful (env_lib E)"
  proof (rule keeps_linked, rule triple_weaken [OF ReplaceCredential_disk [OF that]])
    fix I :: image and s assume K: "K \<subseteq>\<^sub>m im_key I"
    have a: "im_key J = im_key I" if "J \<in> rebound E req I \<or> J \<in> replaced E req I" for J
      using that by (auto simp: rebound_def acct_put_def elim: replacedE)
    show "becomes (replaced E req I) s \<Longrightarrow> linked K s"
      using a K by (auto simp: linked_img dest!: becomes_disk)
    show "disk I s \<or> becomes (rebound E req I) s \<or> becomes (replaced E req I) s \<Longrightarrow> linked K s"
      using a K by (auto simp: linked_img disk_iff dest!: becomes_disk)
  qed
qed

section \<open>No attempt relinks a key\<close>

text \<open>The operations of other connections do not unlink keys.\<close>

definition others_link :: "world \<Rightarrow> bool" where
  "others_link W \<longleftrightarrow> (\<forall>n K s. linked K s \<longrightarrow> linked K (fold (store_exec (wo_env W)) (wo_others W n) s))"

definition safe :: "(string \<Rightarrow> keyRecord fnode option) \<Rightarrow> gateway \<Rightarrow> bool" where
  "safe K w \<longleftrightarrow> linked K (gw_store w)"

lemma safe_store_call: "others_link W \<Longrightarrow> keeps (linked K) m \<Longrightarrow> keeps (safe K) (store_call W m)"
  by (auto simp: keeps_def safe_def store_call_def seen_store_def others_link_def split: prod.splits) (metis snd_conv)

lemma safe_calls [keeps_intros]:
  "keeps (safe K) (clock W)" "keeps (safe K) (SendBanner b)" "keeps (safe K) ctx_done" "keeps (safe K) (on_conn g)"
  "keeps (safe K) (audit_record on dep a k typ res d)" "keeps (safe K) (verify_call W t)"
  by (auto simp: keeps_def safe_def clock_def SendBanner_def modify_gw_def ctx_done_def on_conn_def audit_record_def verify_call_def)

lemma safe_rate [keeps_intros]: "keeps (safe K) (rate_call W f)"
  unfolding rate_call_def by (intro keeps_intros) (auto simp: keeps_def safe_def split: option.splits)

lemma safe_fail [keeps_intros]: "keeps (safe K) (enrollment_fail ec d e)"
  unfolding enrollment_fail_def auditEnrollment_def by (intro keeps_intros)

lemma safe_link:
  assumes "others_link W" "uuid_lawful (env_lib (wo_env W))"
  shows "keeps (safe K) (linkEnrollment W ec tok ident key digest)"
  unfolding linkEnrollment_def link_check_def link_credential_def link_key_def
  by (intro keeps_intros safe_store_call [OF assms(1)] linked_reads linked_writes assms(2))

lemma safe_validateAndLink:
  assumes "others_link W" "uuid_lawful (env_lib (wo_env W))"
  shows "keeps (safe K) (validateAndLink W ec key digest raw)"
  unfolding validateAndLink_def complete_enrollment_def auditEnrollment_def
  by (intro keeps_intros safe_link [OF assms])

lemma safe_PreTokenGate [keeps_intros]: "keeps (safe K) (PreTokenGate W ec)"
  unfolding PreTokenGate_def by (intro keeps_intros)

lemma safe_attempt [keeps_intros]: "keeps (safe K) m \<Longrightarrow> keeps (safe K) (enrollment_attempt s m)"
  unfolding enrollment_attempt_def by (intro keeps_intros)

lemma safe_increment [keeps_intros]: "keeps (safe K) IncrementRenewalAttempts"
  unfolding IncrementRenewalAttempts_def by (intro keeps_intros)

lemma safe_loop:
  assumes "others_link W" "uuid_lawful (env_lib (wo_env W))"
  shows "keeps (safe K) (enrollment_keyboardInteractive W s as)"
proof (induction as)
  case (Cons a as)
  show ?case unfolding enrollment_keyboardInteractive.simps
    by (intro keeps_intros safe_validateAndLink [OF assms] Cons.IH)
qed (simp, intro keeps_intros)

lemma safe_password:
  assumes "others_link W" "uuid_lawful (env_lib (wo_env W))"
  shows "keeps (safe K) (enrollment_password W s p)"
  unfolding enrollment_password_def by (intro keeps_intros safe_validateAndLink [OF assms])

lemma safe_run:
  assumes "others_link W" "uuid_lawful (env_lib (wo_env W))" "safe K w"
  shows "safe K (prompt_run (enrollment_keyboardInteractive W s) (enrollment_password W s) calls w)"
  using assms(3)
proof (induction calls arbitrary: w)
  case (Cons c calls)
  then show ?case using keepsD [OF safe_loop [OF assms(1,2)]] keepsD [OF safe_password [OF assms(1,2)]]
    by (cases c) auto
qed simp

section \<open>What a completed enrollment rests on\<close>

lemma enrollment_fail_Inl [simp]: "enrollment_fail ec d e w = (Inr x, w') \<longleftrightarrow> False"
  by (simp add: enrollment_fail_def auditEnrollment_def bnd_audit)

lemma AddKey_account:
  assumes "uuid_lawful (env_lib E)" "AddKey E a key label s = (Inr k, t)" shows "key_AccountID k = a"
  using assms(2) unfolding AddKey_def Let_def
  by (elim bndE; simp) (use assms(1) in \<open>auto simp: key_toCore_def\<close>)

text \<open>The account of the verified identity, its credential and the key of the session, as one attempt links them.\<close>

definition enrolled_by :: "world \<Rightarrow> EnrollmentConfig \<Rightarrow> pubkey \<Rightarrow> bytes \<Rightarrow> nat \<Rightarrow> permissions \<Rightarrow> gateway \<Rightarrow> bool" where
  "enrolled_by W ec key raw n perms w' \<longleftrightarrow> (\<exists>tok ident acct created krec generation. SanitizeToken raw = Inr tok \<and> wo_verify W n tok = Inr ident
     \<and> (\<exists>done st st'. LookupOrCreateAccountByCoderID (wo_env W) done (ec_DeploymentID ec) (ident_ID ident) (ident_Username ident) st = (Inr (acct, created), st'))
     \<and> (\<exists>done expected st r st'. ReplaceCredential (wo_env W) done \<lparr>req_AccountID = acct_ID acct, req_ExpectedGeneration = expected,
            req_Token = tok, req_Identity = ident\<rparr> st = (r, st')
          \<and> (case r of Inr snap \<Rightarrow> generation = snap_Generation snap | Inl e \<Rightarrow> errIs e (Sent ErrGenerationConflict)))
     \<and> key_AccountID krec = acct_ID acct
     \<and> ((\<exists>label st. AddKey (wo_env W) (acct_ID acct) key label st = (Inr krec, gw_store w'))
        \<or> (\<exists>done st a. fst (LookupByPublicKey (wo_env W) done (ec_DeploymentID ec) key st) = Inr (a, krec)))
     \<and> perms = FinalEnrollmentPermissions (env_lib (wo_env W)) (acct_ID acct) (ec_DeploymentID ec) (key_ID krec) generation
     \<and> cs_reconnect (gw_conn w'))"

lemma link_credential_Inr:
  assumes "link_credential W ec acct created tok ident w = (Inr (generation, late), w')"
  shows "\<exists>done expected st r st'. ReplaceCredential (wo_env W) done \<lparr>req_AccountID = acct_ID acct, req_ExpectedGeneration = expected,
            req_Token = tok, req_Identity = ident\<rparr> st = (r, st')
          \<and> (case r of Inr snap \<Rightarrow> generation = snap_Generation snap | Inl e \<Rightarrow> errIs e (Sent ErrGenerationConflict))"
proof -
  obtain d expected t where r: "bnd (store_call W (ReplaceCredential (wo_env W) d \<lparr>req_AccountID = acct_ID acct,
            req_ExpectedGeneration = expected, req_Token = tok, req_Identity = ident\<rparr>)) (\<lambda>r.
     case r of
       Inr snap \<Rightarrow> ret (snap_Generation snap, False)
     | Inl e \<Rightarrow>
         if errIs e (Sent ErrGenerationConflict)
         then bnd (store_call W (LoadCredential (wo_env W) d (acct_ID acct))) (\<lambda>l.
              ret (case l of Inr current \<Rightarrow> snap_Generation current | Inl _ \<Rightarrow> expected, True))
         else if errIs e (Sent ErrWrongIdentity)
         then enrollment_fail ec AUTH_WRONG_CODER_IDENTITY ErrEnrollmentFailed
         else enrollment_fail ec (store_CodeOf e) ErrEnrollmentFailed) t = (Inr (generation, late), w')"
    using assms unfolding link_credential_def bnd_ctx_done by (subst (asm) bnd_Inr_iff) blast
  obtain q st' where q: "ReplaceCredential (wo_env W) d \<lparr>req_AccountID = acct_ID acct,
            req_ExpectedGeneration = expected, req_Token = tok, req_Identity = ident\<rparr> (seen_store W t) = (q, st')" by fastforce
  with r have "case q of Inr snap \<Rightarrow> generation = snap_Generation snap | Inl e \<Rightarrow> errIs e (Sent ErrGenerationConflict)"
    by (auto simp: bnd_store_call split: sum.splits if_splits)
  with q show ?thesis by blast
qed

lemma link_key_Inr:
  assumes "uuid_lawful (env_lib (wo_env W))" "link_key W ec acct b key w = (Inr krec, w')"
  shows "key_AccountID krec = acct_ID acct \<and> ((\<exists>label st. AddKey (wo_env W) (acct_ID acct) key label st = (Inr krec, gw_store w'))
        \<or> (\<exists>done st a. fst (LookupByPublicKey (wo_env W) done (ec_DeploymentID ec) key st) = Inr (a, krec)))"
proof (cases b)
  case True
  then show ?thesis using assms(2)
    by (fastforce simp: link_key_def bnd_ctx_done bnd_store_call split: sum.splits prod.splits if_splits)
next
  case False
  let ?m = "\<lambda>now. AddKey (wo_env W) (acct_ID acct) key (''enrolled '' @ wo_RFC3339 W now @ '' via login@'')"
  obtain now t where "bnd (store_call W (?m now)) (\<lambda>r. case r of
          Inl e \<Rightarrow> enrollment_fail ec (store_CodeOf e) ErrEnrollmentFailed | Inr keyRecord \<Rightarrow> ret keyRecord) t = (Inr krec, w')"
    using assms(2) False unfolding link_key_def by (auto simp: bnd_Inr_iff [of "clock W"])
  then have "?m now (seen_store W t) = (Inr krec, gw_store w')"
    by (cases "?m now (seen_store W t)") (auto simp: bnd_store_call split: sum.splits)
  then show ?thesis using AddKey_account [OF assms(1)] by blast
qed

lemma linkEnrollment_Inr:
  assumes "uuid_lawful (env_lib (wo_env W))" "linkEnrollment W ec tok ident key digest w = (Inr (acct, krec, generation, details), w')"
  shows "(\<exists>done st st' created. LookupOrCreateAccountByCoderID (wo_env W) done (ec_DeploymentID ec) (ident_ID ident) (ident_Username ident) st = (Inr (acct, created), st'))
     \<and> (\<exists>done expected st r st'. ReplaceCredential (wo_env W) done \<lparr>req_AccountID = acct_ID acct, req_ExpectedGeneration = expected,
            req_Token = tok, req_Identity = ident\<rparr> st = (r, st')
          \<and> (case r of Inr snap \<Rightarrow> generation = snap_Generation snap | Inl e \<Rightarrow> errIs e (Sent ErrGenerationConflict)))
     \<and> key_AccountID krec = acct_ID acct
     \<and> ((\<exists>label st. AddKey (wo_env W) (acct_ID acct) key label st = (Inr krec, gw_store w'))
        \<or> (\<exists>done st a. fst (LookupByPublicKey (wo_env W) done (ec_DeploymentID ec) key st) = Inr (a, krec)))"
proof -
  obtain b t where "bnd ctx_done (\<lambda>done.
     bnd (store_call W (LookupOrCreateAccountByCoderID (wo_env W) done (ec_DeploymentID ec) (ident_ID ident) (ident_Username ident))) (\<lambda>r.
     case r of
       Inl e \<Rightarrow> enrollment_fail ec (store_CodeOf e) ErrEnrollmentFailed
     | Inr (account, created) \<Rightarrow>
         bnd (link_credential W ec account created tok ident) (\<lambda>(generation, alreadyUpdated).
         bnd (link_key W ec account b key) (\<lambda>keyRecord.
         ret (account, keyRecord, generation,
           (if created then [DetailEnrollmentAccountCreated] else []) @
           (if b then [] else [DetailEnrollmentKeyLinked]) @
           (if alreadyUpdated then [DetailRenewalAlreadyUpdated] else [])))))) t = (Inr (acct, krec, generation, details), w')"
    using assms(2) unfolding linkEnrollment_def by (auto simp: bnd_Inr_iff [of "link_check W ec ident digest"])
  then obtain created late u v where
    a: "fst (LookupOrCreateAccountByCoderID (wo_env W) (cs_ctxDone (gw_conn t)) (ec_DeploymentID ec) (ident_ID ident) (ident_Username ident) (seen_store W t)) = Inr (acct, created)"
    and c: "link_credential W ec acct created tok ident u = (Inr (generation, late), v)" and k: "link_key W ec acct b key v = (Inr krec, w')"
    by (auto simp: bnd_ctx_done bnd_store_call bnd_Inr_iff split: sum.splits prod.splits)
  show ?thesis using a link_credential_Inr [OF c] link_key_Inr [OF assms(1) k] by (metis prod.collapse)
qed

lemma complete_Inr:
  assumes "uuid_lawful (env_lib (wo_env W))" "complete_enrollment W ec key digest tok ident w = (Inr perms, w')"
    "SanitizeToken raw = Inr tok" "wo_verify W n tok = Inr ident"
  shows "enrolled_by W ec key raw n perms w'"
proof -
  obtain acct krec generation details t where l: "linkEnrollment W ec tok ident key digest w = (Inr (acct, krec, generation, details), t)"
    and p: "perms = FinalEnrollmentPermissions (env_lib (wo_env W)) (acct_ID acct) (ec_DeploymentID ec) (key_ID krec) generation"
    and w': "gw_store w' = gw_store t" "cs_reconnect (gw_conn w')"
    using assms(2) unfolding complete_enrollment_def auditEnrollment_def
    by (auto simp: bnd_Inr_iff [of "linkEnrollment W ec tok ident key digest"] bnd_Inr_iff [of "if b then c else d" for b c d] bnd_SendBanner bnd_audit bnd_on_conn
        dest!: gate_run simp: on_conn_def modify_gw_def)
  from linkEnrollment_Inr [OF assms(1) l] p w'(2) assms(3,4) show ?thesis unfolding enrolled_by_def w'(1) by blast
qed

lemma validateAndLink_Inr:
  assumes "uuid_lawful (env_lib (wo_env W))" "validateAndLink W ec key digest raw w = (Inr perms, w')"
  shows "enrolled_by W ec key raw (gw_verifications w) perms w'"
proof -
  obtain tok where tok: "SanitizeToken raw = Inr tok" using assms(2) by (auto simp: validateAndLink_def split: sum.splits)
  then obtain allowed t where g: "(if ec_Rate ec then rate_call W (\<lambda>now wall. AllowRenewalAttempt (env_lib (wo_env W)) now wall uuid_Nil) else ret True) w = (Inr allowed, t)"
    and r: "(if \<not> allowed then enrollment_fail ec DetailEnrollmentRateLimited ErrRenewalRateLimited
          else
          bnd (verify_call W tok) (\<lambda>v.
          case v of
            Inl err \<Rightarrow>
              let kind = KindOf err; detail = detailCodeFor err kind in
              if kind = Some CredentialInvalid then enrollment_fail ec detail ErrTokenRejected
              else if kind = Some ControlPlaneUnavailable then enrollment_fail ec AUTH_CODER_UNAVAILABLE ErrCoderUnavailable
              else enrollment_fail ec detail ErrEnrollmentFailed
          | Inr identity \<Rightarrow> complete_enrollment W ec key digest tok identity)) t = (Inr perms, w')"
    using assms(2) unfolding validateAndLink_def by (simp only: bnd_Inr_iff sum.case) blast
  have "gw_verifications t = gw_verifications w" using gate_run [OF g] by simp
  with r tok complete_Inr [OF assms(1)] show ?thesis
    by (fastforce simp: bnd_verify Let_def split: if_splits sum.splits)
qed

lemma enrollment_loop_Inr:
  assumes "uuid_lawful (env_lib (wo_env W))"
  shows "enrollment_keyboardInteractive W s as w = (Inr perms, w') \<Longrightarrow>
   \<exists>a\<in>set as. \<exists>n. gw_verifications w \<le> n \<and> enrolled_by W (es_ec s) (es_key s) (hd a) n perms w'"
proof (induction as arbitrary: w)
  case Nil
  then show ?case by (auto simp: enrollment_attempt_eq split: if_splits)
next
  case (Cons a as)
  let ?m = "validateAndLink W (es_ec s) (es_key s) (es_digest s) (hd a)"
  obtain r t where m: "?m (snd (IncrementRenewalAttempts w)) = (r, t)" by fastforce
  note c = costsD(1) [OF costs_validateAndLink m]
  from Cons.prems m consider "r = Inr perms" "t = w'"
    | g u where "PreTokenGate W (es_ec s) t = (g, u)" "enrollment_keyboardInteractive W s as u = (Inr perms, w')"
    by (cases r) (auto simp: enrollment_attempt_eq bnd_increment bnd_attempt bnd_Inr_iff split: if_splits)
  then show ?case
  proof cases
    case 1
    with validateAndLink_Inr [OF assms] m show ?thesis by (metis list.set_intros(1) order_refl tries_increment(3))
  next
    case 2
    have "gw_verifications w \<le> gw_verifications u" using c costsD(1) [OF costs_PreTokenGate 2(1)] by simp
    with Cons.IH [OF 2(2)] show ?thesis by (meson list.set_intros(2) order_trans)
  qed
qed

section \<open>Properties\<close>



text \<open>C4. A linked key never moves. Whatever tokens a client of the enrollment user offers, by password or
  keyboard-interactively, accepted or refused, and whatever system calls fail: as long as the operations of other
  connections do not unlink keys, every key file that existed before is still there with the same content, so a
  key linked to one account is never re-linked to another.\<close>

theorem enrollment_never_relinks:
  assumes "uuid_lawful (env_lib (wo_env W))" "dirs_distinct (gw_store w)" "others_link W"
  shows "view (st_keys (gw_store w)) \<subseteq>\<^sub>m
    view (st_keys (gw_store (prompt_run (enrollment_keyboardInteractive W s) (enrollment_password W s) calls w)))"
  using safe_run [OF assms(3,1), of "view (st_keys (gw_store w))" w s calls] assms(2) by (simp add: safe_def linked_def)

theorem enrollment_never_relinks_witness:
  "view (st_keys demo_store) \<subseteq>\<^sub>m view (st_keys (gw_store (prompt_run (enrollment_keyboardInteractive demo_world demo_enrollment)
     (enrollment_password demo_world demo_enrollment) [TypePassword ''bad'', AnswerPrompts [[''tok'']]] (demo_gw demo_store))))"
proof -
  have "others_link demo_world" by (simp add: others_link_def demo_world_def)
  moreover have "uuid_lawful (env_lib (wo_env demo_world))" by (simp add: demo_world_def)
  moreover have st: "gw_store (demo_gw demo_store) = demo_store" by (simp add: demo_gw_def)
  ultimately show ?thesis
    using enrollment_never_relinks [of demo_world "demo_gw demo_store" demo_enrollment] demo_distinct(1) unfolding st by blast
qed

end
