(* ===== verification/KeyMgmt.thy ===== *)
theory KeyMgmt
  imports SshAuth
begin

text \<open>
  \<open>internal/keymgmt\<close>: the line-based console in which the owner of an account lists and removes keys or deletes the
  account. The console is written over the \<open>Store\<close> interface of \<open>service.go\<close>; the bytes the client will send are
  part of its state, and everything it writes is its output.
\<close>

section \<open>Labels (sanitize.go)\<close>

definition sanitizeLabel :: "string \<Rightarrow> string" where
  "sanitizeLabel label = filter (\<lambda>b. \<not> ((of_char b :: nat) < 0x20 \<or> b = CHR 0x7F)) label"

section \<open>Input lines (reader.go)\<close>

definition maxLineBytes :: nat where "maxLineBytes = 256"

datatype read_line = Line string | Overlong | ReadEOF | ReadError

text \<open>\<open>fails\<close>: the input ends with an error other than the end of file. The last component of the result is the
  echo.\<close>

fun readLine_loop :: "bool \<Rightarrow> bool \<Rightarrow> bytes \<Rightarrow> bool \<Rightarrow> bytes \<Rightarrow> bool \<Rightarrow> bytes \<Rightarrow> read_line \<times> bytes \<times> bool \<times> bytes" where
  "readLine_loop pty fails [] pendingLF buf overlong echo =
     (if fails then ReadError else if overlong then Overlong else if length buf > 0 then Line buf else ReadEOF, [], pendingLF, echo)"
| "readLine_loop pty fails (b # bs) pendingLF buf overlong echo =
     (if pendingLF \<and> b = CHR 0x0A then readLine_loop pty fails bs False buf overlong echo
      else if b = CHR 0x0A \<or> b = CHR 0x0D then (if overlong then Overlong else Line buf, bs, b = CHR 0x0D, echo)
      else if overlong then readLine_loop pty fails bs False buf overlong echo
      else if pty \<and> (b = CHR 0x7F \<or> b = CHR 0x08)
      then (if length buf > 0 then readLine_loop pty fails bs False (butlast buf) overlong (echo @ [CHR 0x08, CHR '' '', CHR 0x08])
            else readLine_loop pty fails bs False buf overlong echo)
      else if maxLineBytes \<le> length buf then readLine_loop pty fails bs False buf True echo
      else readLine_loop pty fails bs False (buf @ [b]) overlong
             (if pty \<and> 0x20 \<le> (of_char b :: nat) \<and> (of_char b :: nat) \<le> 0x7E then echo @ [b] else echo))"

section \<open>Texts (ui.go)\<close>

definition headerPrefix :: string where "headerPrefix = ''Coder SSH Gateway -- key management for ''"
definition msgMenu :: string where "msgMenu = ''Enter a key number to remove it, d to delete your account, r to refresh, q to quit:''"
definition msgBye :: string where "msgBye = ''Bye.''"
definition msgCancelled :: string where "msgCancelled = ''Cancelled.''"
definition msgInvalidInput :: string where "msgInvalidInput = ''Invalid input.''"
definition msgSessionKeyGuard :: string where "msgSessionKeyGuard = ''This key authenticates your current session and cannot be removed.''"
definition msgRemovalFailed :: string where "msgRemovalFailed = ''Removal failed. The key was not changed; try again or contact your administrator.''"
definition msgAccountDeletionFailed :: string where "msgAccountDeletionFailed = ''Account deletion failed. Your account was not changed; try again or contact your administrator.''"
definition msgListFailed :: string where "msgListFailed = ''Failed to load keys. Try again or contact your administrator.''"
definition msgNoKeys :: string where "msgNoKeys = ''No keys enrolled.''"
definition msgDeletePrompt :: string where "msgDeletePrompt = ''Type DELETE to permanently delete your account, anything else to cancel:''"

definition crlf :: string where "crlf = [CHR 0x0D, CHR 0x0A]"
definition quoted :: "string \<Rightarrow> string" where "quoted s = CHR 0x22 # s @ [CHR 0x22]"

text \<open>Decimal output of at least a given width, and the calendar date of a count of milliseconds since 1970, in the
  proleptic Gregorian calendar of Go's \<open>time\<close> package.\<close>

definition pad_int :: "nat \<Rightarrow> int \<Rightarrow> string" where
  "pad_int n i = (let ds = FormatInt (abs i) in (if i < 0 then ''-'' else []) @ replicate (n - length ds) (CHR ''0'') @ ds)"

definition civil_from_days :: "int \<Rightarrow> int \<times> int \<times> int" where
  "civil_from_days days =
     (let z = days + 719468; era = z div 146097; doe = z mod 146097;
          yoe = (doe - doe div 1460 + doe div 36524 - doe div 146096) div 365;
          doy = doe - (365 * yoe + yoe div 4 - yoe div 100);
          mp = (5 * doy + 2) div 153; m = (if mp < 10 then mp + 3 else mp - 9) in
      (yoe + era * 400 + (if m \<le> 2 then 1 else 0), m, doy - (153 * mp + 2) div 5 + 1))"

definition addedDate :: "SSHKeyRecord \<Rightarrow> string" where
  "addedDate k = (case civil_from_days (key_CreatedAtMs k div 86400000) of (y, m, d) \<Rightarrow>
     pad_int 4 y @ ''-'' @ pad_int 2 m @ ''-'' @ pad_int 2 d)"

definition headerLine :: "string \<Rightarrow> string" where
  "headerLine name = headerPrefix @ name"

definition keyLine :: "nat \<Rightarrow> SSHKeyRecord \<Rightarrow> string" where
  "keyLine n k = show_nat n @ '' '' @ key_Fingerprint k @ '' '' @ key_Algorithm k
     @ (if key_Enabled k then [] else '' [disabled]'')
     @ '' '' @ quoted (sanitizeLabel (key_Label k)) @ '' added '' @ addedDate k"

section \<open>The console (service.go, audit.go)\<close>

record 's keyStore =
  ks_ListKeysForAccount :: "uuid \<Rightarrow> ('s, serror, SSHKeyRecord list) sr"
  ks_DeleteKey :: "uuid \<Rightarrow> uuid \<Rightarrow> ('s, serror, unit) sr"
  ks_DeleteAccount :: "uuid \<Rightarrow> ('s, serror, unit) sr"

record 's Service =
  sv_Store :: "'s keyStore"
  sv_Audit :: bool
  sv_lib :: golib
  sv_SessionKeyID :: uuid
  sv_Account :: Account
  sv_EnrollmentUser :: string
  sv_PeerAddress :: string
  sv_ConnectionID :: string
  sv_pty :: bool
  sv_readFails :: bool

record 's console =
  co_store :: 's
  co_keys :: "SSHKeyRecord list"
  co_input :: bytes
  co_pendingLF :: bool
  co_out :: bytes
  co_audit :: "auditEvent list"

definition EventTypeSSHKeyRemoved :: string where "EventTypeSSHKeyRemoved = ''ssh_key_removed''"
definition EventTypeAccountDeleted :: string where "EventTypeAccountDeleted = ''account_deleted''"
definition detailCurrentSessionKey :: string where "detailCurrentSessionKey = ''current_session_key''"
definition detailStoreError :: string where "detailStoreError = ''store_error''"

definition WithPty :: "bool \<Rightarrow> 's Service \<Rightarrow> 's Service" where
  "WithPty enabled v = v\<lparr>sv_pty := enabled\<rparr>"

definition screen_line :: "string \<Rightarrow> 's console \<Rightarrow> 's console" where
  "screen_line t c = c\<lparr>co_out := co_out c @ t @ crlf\<rparr>"

definition screen_blank :: "'s console \<Rightarrow> 's console" where
  "screen_blank c = c\<lparr>co_out := co_out c @ crlf\<rparr>"

definition readLine :: "'s Service \<Rightarrow> 's console \<Rightarrow> read_line \<times> 's console" where
  "readLine v c = (case readLine_loop (sv_pty v) (sv_readFails v) (co_input c) (co_pendingLF c) [] False [] of
     (r, rest, lf, echo) \<Rightarrow> (r, c\<lparr>co_input := rest, co_pendingLF := lf, co_out := co_out c @ echo\<rparr>))"

definition recordEvent :: "'s Service \<Rightarrow> string \<Rightarrow> bool \<Rightarrow> string \<Rightarrow> uuid \<Rightarrow> 's console \<Rightarrow> 's console" where
  "recordEvent v typ result detail keyID c = (if sv_Audit v then c\<lparr>co_audit := co_audit c @
     [\<lparr>ev_ConnectionID = sv_ConnectionID v, ev_DeploymentID = acct_DeploymentID (sv_Account v), ev_AccountID = Some (acct_ID (sv_Account v)),
       ev_SSHKeyID = non_nil keyID, ev_EventType = typ, ev_Result = result, ev_PeerAddress = sv_PeerAddress v, ev_DetailCode = detail\<rparr>]\<rparr> else c)"

definition displayName :: "'s Service \<Rightarrow> string" where
  "displayName v = (if acct_CachedUsername (sv_Account v) \<noteq> [] then acct_CachedUsername (sv_Account v)
     else if acct_Label (sv_Account v) \<noteq> [] then acct_Label (sv_Account v)
     else uuid_String (sv_lib v) (acct_ID (sv_Account v)))"

definition sv_enrollmentUser :: "'s Service \<Rightarrow> string" where
  "sv_enrollmentUser v = (if sv_EnrollmentUser v \<noteq> [] then sv_EnrollmentUser v else ''login'')"

definition store_list :: "'s Service \<Rightarrow> 's console \<Rightarrow> (serror + SSHKeyRecord list) \<times> 's console" where
  "store_list v c = (case ks_ListKeysForAccount (sv_Store v) (acct_ID (sv_Account v)) (co_store c) of (r, s) \<Rightarrow> (r, c\<lparr>co_store := s\<rparr>))"

definition renderListing :: "'s Service \<Rightarrow> 's console \<Rightarrow> 's console" where
  "renderListing v c =
     (case store_list v (screen_blank c) of
        (Inl _, c) \<Rightarrow> screen_line msgMenu (screen_blank (screen_line msgListFailed c))
      | (Inr keys, c) \<Rightarrow>
          let c = c\<lparr>co_keys := keys\<rparr>;
              c = (if length keys = 0 then screen_line msgNoKeys c else c);
              c = fold (\<lambda>(i, k). screen_line (keyLine (i + 1) k)) (enumerate 0 keys) c in
          screen_line msgMenu (screen_blank c))"

definition removal_confirmed :: "'s Service \<Rightarrow> nat \<Rightarrow> SSHKeyRecord \<Rightarrow> 's console \<Rightarrow> 's console" where
  "removal_confirmed v n key c =
     (case ks_DeleteKey (sv_Store v) (acct_ID (sv_Account v)) (key_ID key) (co_store c) of
        (Inl _, s) \<Rightarrow>
          renderListing v (screen_line msgRemovalFailed (recordEvent v EventTypeSSHKeyRemoved False detailStoreError (key_ID key) (c\<lparr>co_store := s\<rparr>)))
      | (Inr _, s) \<Rightarrow>
          renderListing v (screen_line (''Key '' @ show_nat n @ '' removed.'') (recordEvent v EventTypeSSHKeyRemoved True [] (key_ID key) (c\<lparr>co_store := s\<rparr>))))"

definition runKeyRemoval :: "'s Service \<Rightarrow> string \<Rightarrow> 's console \<Rightarrow> bool \<times> 's console" where
  "runKeyRemoval v line c =
     (case ParseInt line of
        None \<Rightarrow> (False, renderListing v (screen_line msgInvalidInput c))
      | Some i \<Rightarrow>
          if i < 1 \<or> int (length (co_keys c)) < i then (False, renderListing v (screen_line msgInvalidInput c))
          else
          let n = nat i; key = co_keys c ! (n - 1) in
          if key_ID key = sv_SessionKeyID v
          then (False, renderListing v (recordEvent v EventTypeSSHKeyRemoved False detailCurrentSessionKey (key_ID key) (screen_line msgSessionKeyGuard c)))
          else
          let c = screen_line (''You selected key '' @ show_nat n @ '': '' @ key_Fingerprint key @ '' '' @ key_Algorithm key @ '' '' @ quoted (sanitizeLabel (key_Label key))) c;
              c = screen_line (''Type '' @ show_nat n @ '' again to permanently remove it, anything else to cancel:'') c in
          case readLine v c of
            (r, c) \<Rightarrow>
              if r = ReadEOF \<or> r = ReadError then (True, screen_line msgBye c)
              else if r \<noteq> Line (show_nat n) then (False, renderListing v (screen_line msgCancelled c))
              else (False, removal_confirmed v n key c))"

definition deletion_confirmed :: "'s Service \<Rightarrow> SSHKeyRecord list \<Rightarrow> 's console \<Rightarrow> 's console" where
  "deletion_confirmed v keys c =
     (case ks_DeleteAccount (sv_Store v) (acct_ID (sv_Account v)) (co_store c) of
        (Inl _, s) \<Rightarrow> screen_line msgAccountDeletionFailed (recordEvent v EventTypeAccountDeleted False detailStoreError uuid_Nil (c\<lparr>co_store := s\<rparr>))
      | (Inr _, s) \<Rightarrow>
          let c = recordEvent v EventTypeAccountDeleted True [] uuid_Nil (c\<lparr>co_store := s\<rparr>);
              c = fold (\<lambda>k. recordEvent v EventTypeSSHKeyRemoved True [] (key_ID k)) keys c in
          screen_line msgBye (screen_line (''Account deleted. Reconnect with '' @ sv_enrollmentUser v @ ''@ to enroll again.'') c))"

definition runAccountDeletion :: "'s Service \<Rightarrow> 's console \<Rightarrow> bool \<times> 's console" where
  "runAccountDeletion v c =
     (case store_list v c of
        (Inl _, c) \<Rightarrow> (False, renderListing v (screen_line msgListFailed c))
      | (Inr keys, c) \<Rightarrow>
          let c = screen_line (''This will permanently delete your account: '' @ show_nat (length keys)
                @ '' key(s) and your stored Coder token will be removed. You can re-enroll any time with '' @ sv_enrollmentUser v
                @ ''@ and a fresh Coder token.'') (c\<lparr>co_keys := keys\<rparr>);
              c = screen_line msgDeletePrompt c in
          case readLine v c of
            (r, c) \<Rightarrow>
              if r = ReadEOF \<or> r = ReadError then (True, screen_line msgBye c)
              else if r \<noteq> Line ''DELETE'' then (False, renderListing v (screen_line msgCancelled c))
              else (True, deletion_confirmed v keys c))"

section \<open>The loop ends\<close>

text \<open>A byte ends the line or is consumed; only a terminal gets an echo, of printable bytes and erasures.\<close>

definition echo_step :: "bool \<Rightarrow> char \<Rightarrow> bytes \<Rightarrow> bytes \<Rightarrow> bool" where
  "echo_step pty b echo echo' \<longleftrightarrow> echo' = echo \<or> pty \<and> (echo' = echo @ [CHR 0x08, CHR '' '', CHR 0x08]
     \<or> echo' = echo @ [b] \<and> 0x20 \<le> (of_char b :: nat) \<and> (of_char b :: nat) \<le> 0x7E)"

lemma readLine_step:
  obtains (stop) r lf' where "readLine_loop pty fails (b # bs) lf buf ov echo = (r, bs, lf', echo)" "r = Overlong \<or> r = Line buf"
    | (more) lf' buf' ov' echo' where "readLine_loop pty fails (b # bs) lf buf ov echo = readLine_loop pty fails bs lf' buf' ov' echo'"
        "echo_step pty b echo echo'"
proof (cases "\<not> (lf \<and> b = CHR 0x0A) \<and> (b = CHR 0x0A \<or> b = CHR 0x0D)")
  case True
  then have "readLine_loop pty fails (b # bs) lf buf ov echo = (if ov then Overlong else Line buf, bs, b = CHR 0x0D, echo)" by auto
  then show ?thesis using stop [of "if ov then Overlong else Line buf"] by simp
next
  case False
  define P where "P x \<longleftrightarrow> (\<exists>lf' buf' ov' echo'. x = readLine_loop pty fails bs lf' buf' ov' echo' \<and> echo_step pty b echo echo')" for x
  have step: "P (readLine_loop pty fails bs lf' buf' ov' echo')" if "echo_step pty b echo echo'" for lf' buf' ov' echo'
    using that unfolding P_def by blast
  have branch: "(c \<Longrightarrow> P x) \<Longrightarrow> (\<not> c \<Longrightarrow> P y) \<Longrightarrow> P (if c then x else y)" for c x y by simp
  have "P (readLine_loop pty fails (b # bs) lf buf ov echo)"
    unfolding readLine_loop.simps
    by (intro branch step) (use False in \<open>auto simp: echo_step_def\<close>)
  then show ?thesis using more unfolding P_def by blast
qed

lemma readLine_loop_le: "readLine_loop pty fails bs lf buf ov echo = (r, rest, lf', echo') \<Longrightarrow> length rest \<le> length bs"
proof (induction bs arbitrary: lf buf ov echo)
  case (Cons b bs)
  show ?case
  proof (cases rule: readLine_step [of pty fails b bs lf buf ov echo])
    case stop
    with Cons.prems show ?thesis by simp
  next
    case more
    with Cons.prems Cons.IH show ?thesis by (metis le_SucI length_Cons)
  qed
qed simp

lemma readLine_loop_shorter:
  assumes "readLine_loop pty fails bs lf [] False echo = (r, rest, lf', echo')" "r \<noteq> ReadEOF" "r \<noteq> ReadError"
  shows "length rest < length bs"
proof (cases bs)
  case Nil
  with assms show ?thesis by (simp split: if_splits)
next
  case (Cons b bs')
  show ?thesis
  proof (cases rule: readLine_step [of pty fails b bs' lf "[]" False echo])
    case stop
    with assms Cons show ?thesis by simp
  next
    case more
    with assms Cons readLine_loop_le show ?thesis by (metis le_imp_less_Suc length_Cons)
  qed
qed

lemma readLine_shorter:
  "readLine v c = (r, d) \<Longrightarrow> r \<noteq> ReadEOF \<Longrightarrow> r \<noteq> ReadError \<Longrightarrow> length (co_input d) < length (co_input c)"
  by (auto simp: readLine_def dest: readLine_loop_shorter split: prod.splits)

lemma readLine_le: "readLine v c = (r, d) \<Longrightarrow> length (co_input d) \<le> length (co_input c)"
  by (auto simp: readLine_def dest: readLine_loop_le split: prod.splits)

lemma input_simps [simp]:
  "co_input (screen_line t c) = co_input c" "co_input (screen_blank c) = co_input c" "co_input (recordEvent v e b d k c) = co_input c"
  by (simp_all add: screen_line_def screen_blank_def recordEvent_def)

lemma fold_lines_input [simp]: "co_input (fold (\<lambda>(i, k). screen_line (f i k)) xs c) = co_input c"
  by (induction xs arbitrary: c) auto

lemma fold_events_input [simp]: "co_input (fold (\<lambda>k. recordEvent v e b d (g k)) ys c) = co_input c"
  by (induction ys arbitrary: c) auto

lemma store_list_input: "store_list v c = (r, d) \<Longrightarrow> co_input d = co_input c"
  by (auto simp: store_list_def split: prod.splits)

lemma renderListing_input [simp]: "co_input (renderListing v c) = co_input c"
  by (auto simp: renderListing_def Let_def split: prod.splits sum.splits dest: store_list_input)

lemma confirmed_input [simp]: "co_input (removal_confirmed v n k c) = co_input c" "co_input (deletion_confirmed v ks c) = co_input c"
  by (auto simp: removal_confirmed_def deletion_confirmed_def Let_def split: prod.splits sum.splits)

lemma runKeyRemoval_input: "runKeyRemoval v l c = (b, d) \<Longrightarrow> length (co_input d) \<le> length (co_input c)"
  by (auto simp: runKeyRemoval_def Let_def split: option.splits prod.splits if_splits dest!: readLine_le)

lemma runAccountDeletion_input: "runAccountDeletion v c = (b, d) \<Longrightarrow> length (co_input d) \<le> length (co_input c)"
  by (auto simp: runAccountDeletion_def Let_def split: sum.splits prod.splits if_splits dest!: readLine_le store_list_input)

text \<open>Every turn of the loop consumes a byte, so the console ends for every client that stops sending.\<close>

function console_loop :: "'s Service \<Rightarrow> 's console \<Rightarrow> 's console" where
  "console_loop v c =
     (case readLine v c of
        (Overlong, c) \<Rightarrow> console_loop v (renderListing v (screen_line msgInvalidInput c))
      | (ReadEOF, c) \<Rightarrow> screen_line msgBye c
      | (ReadError, c) \<Rightarrow> screen_line msgBye c
      | (Line line, c) \<Rightarrow>
          if line = ''q'' then screen_line msgBye c
          else if line = ''r'' then console_loop v (renderListing v c)
          else if line = ''d'' then
            (case runAccountDeletion v c of (stop, c) \<Rightarrow> if stop then c else console_loop v c)
          else
            (case runKeyRemoval v line c of (stop, c) \<Rightarrow> if stop then c else console_loop v c))"
  by pat_completeness auto
termination
proof (relation "measure (\<lambda>(v, c). length (co_input c))", goal_cases)
  case 1
  show ?case by simp
qed (auto dest!: readLine_shorter [OF sym] dest: runAccountDeletion_input [OF sym] runKeyRemoval_input [OF sym] intro: le_less_trans)

declare console_loop.simps [simp del]

definition Run :: "'s Service \<Rightarrow> 's console \<Rightarrow> 's console" where
  "Run v c = console_loop v (renderListing v (screen_line (headerLine (displayName v)) c))"

end
