(* ===== verification/StoreLife.thy ===== *)
theory StoreLife
  imports KeyProps
begin

text \<open>
  The life of an open store: opening takes the lock, checks the version and removes stray temporary files, closing
  releases the lock; both leave every record as it was. With them, the outcome of a lookup under failing system calls.
\<close>

section \<open>Stray temporary files\<close>

lemma Remove_tmp_keeps: "is_tmp n \<Longrightarrow> keeps (unwritten d) (os_Remove E n)"
  unfolding keeps_def os_Remove_def bnd_def fs_syscall_def fs_modify_def by (auto split: if_splits)

lemma cleanEntries_keeps: "keeps (unwritten d) (cleanEntries E es)"
proof (induction E es rule: cleanEntries.induct)
  case (3 E n c t es)
  have "keeps (unwritten d) (fs_syscall E)" by (auto simp: keeps_def fs_syscall_def)
  moreover have "HasSuffix n ''.tmp'' \<Longrightarrow> keeps (unwritten d) (os_Remove E n)" using Remove_tmp_keeps by (simp add: is_tmp_def)
  ultimately show ?case using 3 unfolding cleanEntries.simps by (intro keeps_intros) auto
qed (auto simp: keeps_def)

lemma cleanDir_keeps: "keeps (unwritten d) (cleanDir E)"
proof -
  have "keeps (unwritten d) (os_ReadDir E)" by (auto simp: keeps_def os_ReadDir_def bnd_def fs_syscall_def)
  then show ?thesis unfolding cleanDir_def by (intro keeps_intros cleanEntries_keeps)
qed

context viewed_slot
begin

lemma on_keeps:
  assumes "\<And>d. keeps (unwritten d) m" shows "keeps (disk I) (on_dir get upd m)"
proof (rule keepsI)
  fix s assume s: "disk I s"
  let ?f = "\<lparr>fs_tick = st_tick s, fs_dir = get s\<rparr>"
  have "unwritten (get s) (snd (m ?f))" using keepsD [OF assms [of "get s"], of ?f] disk_get [OF s] by simp
  then show "disk I (snd (on_dir get upd m s))" using disk_same [OF s] by (auto simp: on_dir_def split: prod.split)
qed

end

lemma on_root_keeps: "keeps (disk I) (on_root m)"
  by (auto simp: keeps_def on_dir_def disk_def img_of_def dirs_distinct_def split: prod.split)

lemma syscall_keeps [keeps_intros]: "keeps (disk I) (syscall E)"
  by (auto simp: keeps_def syscall_def)

lemma or_unavailable_keeps [keeps_intros]: "keeps P m \<Longrightarrow> keeps P (or_unavailable m)"
  unfolding or_unavailable_def by (intro keeps_intros)

section \<open>Opening and closing\<close>

lemma triple_prefix: "keeps P m \<Longrightarrow> (\<And>a. triple P (f a) Q (\<lambda>_. P)) \<Longrightarrow> triple P (bnd m f) Q (\<lambda>_. P)"
  by (rule triple_bnd [OF triple_keeps])

lemma ensureVersion_keeps: "keeps (disk I) (ensureVersion E)"
  unfolding ensureVersion_def by (intro keeps_intros on_root_keeps)

lemma cleanStrayTemps_keeps: "keeps (disk I) (cleanStrayTemps E)"
  unfolding cleanStrayTemps_def
  by (intro keeps_intros on_root_keeps deps.on_keeps accts.on_keeps keys.on_keeps creds.on_keeps cleanDir_keeps)

lemma ensureDirs_keeps: "keeps (disk I) (ensureDirs E)"
  unfolding ensureDirs_def Let_def by (intro keeps_intros)

lemma store_Open_disk:
  "triple (disk I) (store_Open E dir present) (\<lambda>_. disk (I\<lparr>im_closed := False, im_kp := None\<rparr>)) (\<lambda>_. disk I)"
proof -
  have m: "triple (disk I) (modify_store (\<lambda>s. s\<lparr>st_closed := False, st_kp := None\<rparr>)) (\<lambda>_. disk (I\<lparr>im_closed := False, im_kp := None\<rparr>)) (\<lambda>_. disk I)"
    by (auto simp: triple_def modify_store_def disk_def img_of_def dirs_distinct_def)
  show ?thesis unfolding store_Open_def
    by (intro triple_prefix m keeps_intros ensureVersion_keeps ensureDirs_keeps cleanStrayTemps_keeps)
qed

lemma store_Close_disk:
  "triple (disk I) (store_Close E) (\<lambda>_. disk (I\<lparr>im_closed := True\<rparr>)) (\<lambda>_. disk (I\<lparr>im_closed := True\<rparr>))"
  by (auto simp: triple_def store_Close_def bnd_def modify_store_def syscall_def disk_def img_of_def dirs_distinct_def split: if_splits)

lemma SetKeyProvider_disk: "triple (disk I) (SetKeyProvider kp) (\<lambda>_. disk (I\<lparr>im_kp := kp\<rparr>)) R"
  by (auto simp: triple_def SetKeyProvider_def modify_store_def disk_def img_of_def dirs_distinct_def)

lemma triple_case_option:
  "(x = None \<Longrightarrow> triple P m Q R) \<Longrightarrow> (\<And>a. x = Some a \<Longrightarrow> triple P (f a) Q R) \<Longrightarrow> triple P (case x of None \<Rightarrow> m | Some a \<Rightarrow> f a) Q R"
  by (cases x) auto

section \<open>A lookup under failing system calls\<close>

lemma LookupByPublicKey_disk:
  "triple (disk I) (LookupByPublicKey E c dep key)
     (\<lambda>(acct, k) s. disk I s \<and> acct_Enabled acct \<and> \<not> im_closed I \<and> acct_DeploymentID acct = dep
        \<and> (\<exists>i r. im_acc I (acct_name E i) = Some (NFile (Some r)) \<and> account_toCore (env_lib E) r = Inr acct))
     (\<lambda>_. disk I)"
proof -
  let ?Q = "\<lambda>(acct, k) s. disk I s \<and> acct_Enabled acct \<and> \<not> im_closed I \<and> acct_DeploymentID acct = dep
        \<and> (\<exists>i r. im_acc I (acct_name E i) = Some (NFile (Some r)) \<and> account_toCore (env_lib E) r = Inr acct)"
  have get: "triple (disk I) (attempt (getAccountLocked E i))
      (\<lambda>r s. disk I s \<and> (\<forall>a. r = Inr a \<longrightarrow> (\<exists>i r. im_acc I (acct_name E i) = Some (NFile (Some r)) \<and> account_toCore (env_lib E) r = Inr a))) (\<lambda>_. disk I)" for i
    by (rule triple_attempt, rule triple_weaken [OF getAccountLocked_disk]) auto
  have rest: "triple (disk I) (bnd (attempt (getAccountLocked E i)) (\<lambda>r.
         bnd (case r of Inr a \<Rightarrow> ret a | Inl e \<Rightarrow> raise (if errIs e (Sent ErrAccountNotFound) then storeUnavailable (Sent ErrStoreCorrupt) else e)) (\<lambda>acct.
         bnd (guard (acct_DeploymentID acct = dep) (unknownKeyErr (Sent ErrUnknownKey))) (\<lambda>_.
         bnd (guard (acct_Enabled acct) (StoreError AUTH_ACCOUNT_DISABLED (Sent ErrAccountDisabled))) (\<lambda>_.
         ret (acct, key_toCore (env_lib E) rec)))))) ?Q (\<lambda>_. disk I)" if "\<not> im_closed I" for i rec
    by (rule triple_bnd [OF get]) (use that in \<open>auto simp: triple_def bnd_def split: sum.split\<close>)
  show ?thesis unfolding LookupByPublicKey_def
  proof (rule triple_guard, simp, rule triple_guard, simp, rule triple_seq [OF checkOpen_disk], simp, rule triple_fact)
    fix u assume o: "\<not> im_closed I"
    show "triple (disk I) (bnd (attempt (on_keys (readRecord E (keyFileName (env_lib E) (pk_Marshal key))))) (\<lambda>r.
     bnd (case r of Inr rec \<Rightarrow> ret rec | Inl e \<Rightarrow> raise (if errIs e FsNotExist then unknownKeyErr (Sent ErrUnknownKey) else e)) (\<lambda>rec.
     bnd (guard (kr_Enabled rec) (unknownKeyErr (Sent ErrUnknownKey))) (\<lambda>_.
     case uuid_Parse (env_lib E) (kr_AccountID rec) of
       None \<Rightarrow> raise (storeUnavailable (Sent ErrStoreCorrupt))
     | Some acctID \<Rightarrow> bnd (attempt (getAccountLocked E acctID)) (\<lambda>r.
         bnd (case r of Inr a \<Rightarrow> ret a | Inl e \<Rightarrow> raise (if errIs e (Sent ErrAccountNotFound) then storeUnavailable (Sent ErrStoreCorrupt) else e)) (\<lambda>acct.
         bnd (guard (acct_DeploymentID acct = dep) (unknownKeyErr (Sent ErrUnknownKey))) (\<lambda>_.
         bnd (guard (acct_Enabled acct) (StoreError AUTH_ACCOUNT_DISABLED (Sent ErrAccountDisabled))) (\<lambda>_.
         ret (acct, key_toCore (env_lib E) rec))))))))) ?Q (\<lambda>_. disk I)"
      by (intro triple_prefix keeps_intros triple_case_option triple_pure(2) rest o) auto
  qed
qed

section \<open>Listings\<close>

lemma listKeysLoop_keeps: "\<forall>n\<in>set ns. \<not> is_tmp n \<Longrightarrow> keeps (disk I) (listKeysLoop E a ns)"
proof (induction ns)
  case (Cons n ns)
  then have "\<not> is_tmp n" "keeps (disk I) (listKeysLoop E a ns)" by simp_all
  then show ?case unfolding listKeysLoop.simps by (intro keeps_intros)
qed (unfold listKeysLoop.simps, intro keeps_intros)

lemma ListKeys_keeps: "keeps (disk I) (ListKeysForAccount E a)"
proof (rule keeps_of_triple)
  show "triple (disk I) (ListKeysForAccount E a) (\<lambda>_. disk I) (\<lambda>_. disk I)"
    unfolding ListKeysForAccount_def
  proof (rule triple_seq [OF checkOpen_disk], simp, rule triple_fact, rule triple_seq [OF keys.scan_disk], simp, rule triple_fact)
    fix es assume "set (jsonNames es) = {n. HasSuffix n ''.json'' \<and> (\<exists>c. im_key I n = Some (NFile c))}"
    then have "\<forall>n\<in>set (jsonNames es). \<not> is_tmp n" by (auto dest: HasSuffix_json_not_tmp)
    then show "triple (disk I) (bnd (listKeysLoop E a (jsonNames es)) (\<lambda>out. ret (sort_key (\<lambda>k. uuid_String (env_lib E) (key_ID k)) out)))
        (\<lambda>_. disk I) (\<lambda>_. disk I)"
      by (intro triple_keeps keeps_intros listKeysLoop_keeps)
  qed
qed auto

lemma listAccountsLoop_keeps: "\<forall>n\<in>set ns. \<not> is_tmp n \<Longrightarrow> keeps (disk I) (listAccountsLoop E ns)"
proof (induction ns)
  case (Cons n ns)
  then have "keeps (disk I) (on_accounts (readRecord E n))" "keeps (disk I) (listAccountsLoop E ns)"
    by (auto intro: keeps_of_triple [OF accts.read_disk])
  then show ?case unfolding listAccountsLoop.simps by (intro keeps_intros)
qed (unfold listAccountsLoop.simps, intro keeps_intros)

lemma ListAccounts_keeps: "keeps (disk I) (ListAccounts E)"
proof (rule keeps_of_triple)
  show "triple (disk I) (ListAccounts E) (\<lambda>_. disk I) (\<lambda>_. disk I)"
    unfolding ListAccounts_def
  proof (rule triple_seq [OF checkOpen_disk], simp, rule triple_fact, rule triple_seq [OF accts.scan_disk], simp, rule triple_fact)
    fix es assume "set (jsonNames es) = {n. HasSuffix n ''.json'' \<and> (\<exists>c. im_acc I n = Some (NFile c))}"
    then have "\<forall>n\<in>set (jsonNames es). \<not> is_tmp n" by (auto dest: HasSuffix_json_not_tmp)
    then show "triple (disk I) (bnd (listAccountsLoop E (jsonNames es)) (\<lambda>out. ret (sort_key (\<lambda>a. uuid_String (env_lib E) (acct_ID a)) out)))
        (\<lambda>_. disk I) (\<lambda>_. disk I)"
      by (intro triple_keeps keeps_intros listAccountsLoop_keeps)
  qed
qed auto

end
