(* ===== verification/KeyMgmtProps.thy ===== *)
theory KeyMgmtProps
  imports KeyMgmt StoreLife
begin

text \<open>
  What the key-management console guarantees: it acts on the session's own account only and never removes the key
  of the session, it ends with a farewell for every client that stops sending, and its transcript is free of
  control characters. What it needs of the store is the locale \<open>console_store\<close>, interpreted on the flat-file store.
\<close>

section \<open>The contract of the store\<close>

text \<open>\<open>foreign a\<close>: only the account \<open>a\<close> was touched. \<open>spared a k\<close>: only keys of the account \<open>a\<close> other than \<open>k\<close> were.\<close>

locale console_store =
  fixes S :: "'s keyStore" and ok :: "'s \<Rightarrow> bool" and foreign :: "uuid \<Rightarrow> 's \<Rightarrow> 's \<Rightarrow> bool"
    and spared :: "uuid \<Rightarrow> uuid \<Rightarrow> 's \<Rightarrow> 's \<Rightarrow> bool"
  assumes spared_refl: "spared a k s s"
    and spared_trans: "spared a k s t \<Longrightarrow> spared a k t u \<Longrightarrow> spared a k s u"
    and foreign_trans: "foreign a s t \<Longrightarrow> foreign a t u \<Longrightarrow> foreign a s u"
    and spared_foreign: "spared a k s t \<Longrightarrow> foreign a s t"
    and list: "ok s \<Longrightarrow> ks_ListKeysForAccount S a s = (r, t) \<Longrightarrow> ok t \<and> spared a k s t"
    and delete_key: "ok s \<Longrightarrow> kid \<noteq> k \<Longrightarrow> ks_DeleteKey S a kid s = (q, t) \<Longrightarrow> ok t \<and> spared a k s t"
    and delete_account: "ok s \<Longrightarrow> ks_DeleteAccount S a s = (q, t) \<Longrightarrow> ok t \<and> foreign a s t"
begin

definition deletion_logged :: "'s console \<Rightarrow> bool" where
  "deletion_logged c \<longleftrightarrow> (\<exists>ev\<in>set (co_audit c). ev_EventType ev = EventTypeAccountDeleted)"

text \<open>The effect of a part of the console on the store.\<close>

definition acts :: "'s Service \<Rightarrow> 's console \<Rightarrow> 's console \<Rightarrow> bool" where
  "acts v c d \<longleftrightarrow> (ok (co_store c) \<longrightarrow> ok (co_store d) \<and> foreign (acct_ID (sv_Account v)) (co_store c) (co_store d)
       \<and> (spared (acct_ID (sv_Account v)) (sv_SessionKeyID v) (co_store c) (co_store d) \<or> deletion_logged d))
     \<and> set (co_audit c) \<subseteq> set (co_audit d)"

lemma acts_trans: "acts v c d \<Longrightarrow> acts v d e \<Longrightarrow> acts v c e"
  unfolding acts_def deletion_logged_def using spared_trans foreign_trans by blast

lemma acts_same: "co_store d = co_store c \<Longrightarrow> set (co_audit c) \<subseteq> set (co_audit d) \<Longrightarrow> acts v c d"
  by (simp add: acts_def spared_refl spared_foreign)

lemma acts_refl: "acts v c c"
  by (simp add: acts_same)

lemma acts_step:
  "acts v c d \<Longrightarrow> acts v c (screen_line t d)" "acts v c d \<Longrightarrow> acts v c (screen_blank d)" "acts v c d \<Longrightarrow> acts v c (d\<lparr>co_keys := ks\<rparr>)"
  "acts v c d \<Longrightarrow> acts v c (recordEvent v e b det k d)" "acts v c d \<Longrightarrow> acts v c (snd (readLine v d))"
  by (erule acts_trans, rule acts_same,
      auto simp: screen_line_def screen_blank_def recordEvent_def readLine_def split: prod.splits)+

lemma acts_fold: "(\<And>x d. acts v c d \<Longrightarrow> acts v c (f x d)) \<Longrightarrow> acts v c d \<Longrightarrow> acts v c (fold f xs d)"
  by (induction xs arbitrary: d) auto

lemma acts_list:
  assumes "sv_Store v = S" "acts v c d" shows "acts v c (snd (store_list v d))"
proof -
  obtain r t where t: "ks_ListKeysForAccount S (acct_ID (sv_Account v)) (co_store d) = (r, t)" by fastforce
  then have "acts v d (snd (store_list v d))"
    using list [OF _ t] spared_foreign assms(1) by (auto simp: acts_def store_list_def)
  with assms(2) show ?thesis by (rule acts_trans)
qed

lemma acts_listing: "sv_Store v = S \<Longrightarrow> acts v c d \<Longrightarrow> acts v c (renderListing v d)"
  unfolding renderListing_def case_prod_beta Let_def
  by (auto intro!: acts_step acts_list acts_fold split: sum.split)

lemma acts_removal:
  assumes S: "sv_Store v = S" and k: "key_ID key \<noteq> sv_SessionKeyID v" and c: "acts v c d"
  shows "acts v c (removal_confirmed v n key d)"
proof -
  obtain r t where d: "ks_DeleteKey S (acct_ID (sv_Account v)) (key_ID key) (co_store d) = (r, t)" by fastforce
  have "acts v d (d\<lparr>co_store := t\<rparr>)" using delete_key [OF _ k d] spared_foreign by (auto simp: acts_def)
  with c have "acts v c (d\<lparr>co_store := t\<rparr>)" by (rule acts_trans)
  then show ?thesis by (cases r) (auto simp: removal_confirmed_def S d intro!: acts_listing acts_step)
qed

lemma acts_deletion:
  assumes S: "sv_Store v = S" and a: "sv_Audit v" and c: "acts v c d"
  shows "acts v c (deletion_confirmed v ks d)"
proof -
  obtain r t where d: "ks_DeleteAccount S (acct_ID (sv_Account v)) (co_store d) = (r, t)" by fastforce
  have "acts v d (recordEvent v EventTypeAccountDeleted b det uuid_Nil (d\<lparr>co_store := t\<rparr>))" for b det
    using delete_account [OF _ d] a by (auto simp: acts_def recordEvent_def deletion_logged_def)
  with c have log: "acts v c (recordEvent v EventTypeAccountDeleted b det uuid_Nil (d\<lparr>co_store := t\<rparr>))" for b det by (rule acts_trans)
  show ?thesis unfolding deletion_confirmed_def S d Let_def
    by (cases r; simp; intro acts_step(1) acts_fold; (rule log | erule acts_step(4)))
qed

lemma acts_runKeyRemoval: "sv_Store v = S \<Longrightarrow> acts v c d \<Longrightarrow> acts v c (snd (runKeyRemoval v l d))"
  unfolding runKeyRemoval_def case_prod_beta Let_def
  by (auto intro!: acts_step acts_listing acts_removal split: option.split)

lemma acts_runAccountDeletion: "sv_Store v = S \<Longrightarrow> sv_Audit v \<Longrightarrow> acts v c d \<Longrightarrow> acts v c (snd (runAccountDeletion v d))"
  unfolding runAccountDeletion_def case_prod_beta Let_def
  by (auto intro!: acts_step acts_listing acts_deletion acts_list split: sum.split)

lemma acts_loop: "sv_Store v = S \<Longrightarrow> sv_Audit v \<Longrightarrow> acts v c d \<Longrightarrow> acts v c (console_loop v d)"
proof (induction v d rule: console_loop.induct)
  case (1 v d)
  obtain r e where r: "readLine v d = (r, e)" by fastforce
  have e: "acts v c e" using acts_step(5) [OF "1.prems"(3)] r by simp
  show ?case
  proof (cases r)
    case (Line l)
    note IH = "1.IH" [OF r [symmetric]]
    obtain b f where f: "(if l = ''d'' then runAccountDeletion v e else runKeyRemoval v l e) = (b, f)" by fastforce
    have af: "acts v c f"
      using f acts_runAccountDeletion [OF "1.prems"(1,2) e] acts_runKeyRemoval [OF "1.prems"(1) e, of l] by (metis snd_conv)
    show ?thesis using Line r f af e 1 acts_listing [OF "1.prems"(1) e]
      by (auto simp: console_loop.simps [of v d] intro: acts_step(1) split: if_splits)
  next
    case Overlong
    then show ?thesis using 1 r acts_listing [OF "1.prems"(1) acts_step(1) [OF e]] by (auto simp: console_loop.simps [of v d])
  qed (use r e in \<open>auto simp: console_loop.simps [of v d] intro: acts_step(1)\<close>)
qed

lemma acts_Run: "sv_Store v = S \<Longrightarrow> sv_Audit v \<Longrightarrow> acts v c (Run v c)"
  unfolding Run_def by (intro acts_loop acts_listing acts_step(1) acts_refl)

end

section \<open>The flat-file store keeps the contract\<close>

definition flat_store :: "env \<Rightarrow> store keyStore" where
  "flat_store E = \<lparr>ks_ListKeysForAccount = ListKeysForAccount E, ks_DeleteKey = DeleteKey E, ks_DeleteAccount = DeleteAccount E\<rparr>"

definition foreign_kept :: "env \<Rightarrow> uuid \<Rightarrow> image \<Rightarrow> image \<Rightarrow> bool" where
  "foreign_kept E a I J \<longleftrightarrow> cut_from E a (im_key I) (im_key J)
     \<and> (\<forall>n. n \<noteq> acct_name E a \<longrightarrow> im_acc J n = im_acc I n \<and> im_cred J n = im_cred I n)"

definition key_spared :: "env \<Rightarrow> uuid \<Rightarrow> uuid \<Rightarrow> image \<Rightarrow> image \<Rightarrow> bool" where
  "key_spared E a k I J \<longleftrightarrow> im_acc J = im_acc I \<and> im_cred J = im_cred I
     \<and> (\<forall>n. im_key J n = im_key I n \<or> im_key J n = None \<and> (\<exists>r. im_key I n = Some (NFile (Some r))
          \<and> kr_AccountID r = uuid_String (env_lib E) a \<and> kr_ID r \<noteq> uuid_String (env_lib E) k))"

lemma cut_from_trans: "cut_from E a V K \<Longrightarrow> cut_from E a K L \<Longrightarrow> cut_from E a V L"
  unfolding cut_from_def by metis

interpretation flat: console_store "flat_store E" "\<lambda>s. dirs_distinct s \<and> uuid_lawful (env_lib E)"
  "\<lambda>a s t. foreign_kept E a (img_of s) (img_of t)" "\<lambda>a k s t. key_spared E a k (img_of s) (img_of t)" for E
proof
  fix a k kid and s t u :: store and r :: "serror + SSHKeyRecord list" and q :: "serror + unit"
  show "key_spared E a k (img_of s) (img_of s)" by (simp add: key_spared_def)
  show "key_spared E a k (img_of s) (img_of t) \<Longrightarrow> key_spared E a k (img_of t) (img_of u) \<Longrightarrow> key_spared E a k (img_of s) (img_of u)"
    unfolding key_spared_def by metis
  show "foreign_kept E a (img_of s) (img_of t) \<Longrightarrow> foreign_kept E a (img_of t) (img_of u) \<Longrightarrow> foreign_kept E a (img_of s) (img_of u)"
    unfolding foreign_kept_def using cut_from_trans by metis
  show "key_spared E a k (img_of s) (img_of t) \<Longrightarrow> foreign_kept E a (img_of s) (img_of t)"
    unfolding foreign_kept_def key_spared_def cut_from_def owned_def by metis
  assume ok: "dirs_distinct s \<and> uuid_lawful (env_lib E)"
  then have d: "disk (img_of s) s" by (simp add: disk_img)
  show "(dirs_distinct t \<and> uuid_lawful (env_lib E)) \<and> key_spared E a k (img_of s) (img_of t)"
    if "ks_ListKeysForAccount (flat_store E) a s = (r, t)"
  proof -
    have "disk (img_of s) t" using keepsD [OF ListKeys_keeps d, of E a] that by (simp add: flat_store_def)
    then show ?thesis using ok by (simp add: disk_iff key_spared_def)
  qed
  show "(dirs_distinct t \<and> uuid_lawful (env_lib E)) \<and> key_spared E a k (img_of s) (img_of t)"
    if "kid \<noteq> k" "ks_DeleteKey (flat_store E) a kid s = (q, t)"
  proof -
    have "dirs_distinct t \<and> (img_of t = img_of s \<or> img_of t \<in> key_dropped E a kid (img_of s))"
      using tripleD [OF DeleteKey_disk d, of E a kid] that(2) becomes_disk by (cases q) (auto simp: flat_store_def disk_iff)
    moreover have "uuid_String (env_lib E) kid \<noteq> uuid_String (env_lib E) k" using that(1) ok by (metis option.inject uuid_lawful_def)
    ultimately show ?thesis using ok by (auto simp: key_dropped_def key_spared_def split: if_splits)
  qed
  show "(dirs_distinct t \<and> uuid_lawful (env_lib E)) \<and> foreign_kept E a (img_of s) (img_of t)"
    if "ks_DeleteAccount (flat_store E) a s = (q, t)"
  proof -
    have "dirs_distinct t \<and> img_of t \<in> deleting E a (img_of s)"
      using tripleD [OF DeleteAccount_disk d, of E a] that becomes_disk by (cases q) (auto simp: flat_store_def deleted_def)
    then show ?thesis using ok by (auto simp: deleting_def foreign_kept_def)
  qed
qed

section \<open>Farewell\<close>

definition ends_with :: "string \<Rightarrow> string \<Rightarrow> bool" where
  "ends_with t out \<longleftrightarrow> (\<exists>p. out = p @ t @ crlf)"

lemma ends_line [simp]: "ends_with t (co_out (screen_line t c))"
  by (simp add: ends_with_def screen_line_def)

definition farewell :: "bytes \<Rightarrow> bool" where
  "farewell out \<longleftrightarrow> ends_with msgBye out \<or> ends_with msgAccountDeletionFailed out"

lemma farewell_line [simp]: "farewell (co_out (screen_line msgBye c))" "farewell (co_out (screen_line msgAccountDeletionFailed c))"
  by (simp_all add: farewell_def)

lemma farewell_flows:
  "fst (runKeyRemoval v l c) \<Longrightarrow> farewell (co_out (snd (runKeyRemoval v l c)))"
  "fst (runAccountDeletion v c) \<Longrightarrow> farewell (co_out (snd (runAccountDeletion v c)))"
  by (auto simp: runKeyRemoval_def runAccountDeletion_def deletion_confirmed_def Let_def split: option.splits sum.splits prod.splits if_splits)

lemma farewell_loop: "farewell (co_out (console_loop v c))"
proof (induction v c rule: console_loop.induct)
  case (1 v c)
  obtain r d where r: "readLine v c = (r, d)" by fastforce
  show ?case
  proof (cases r)
    case (Line l)
    obtain b f where f: "(if l = ''d'' then runAccountDeletion v d else runKeyRemoval v l d) = (b, f)" by fastforce
    have "b \<Longrightarrow> farewell (co_out f)" using f farewell_flows by (metis fst_conv snd_conv)
    then show ?thesis using Line r f 1 by (auto simp: console_loop.simps [of v c] split: if_splits)
  qed (use 1 r in \<open>auto simp: console_loop.simps [of v c]\<close>)
qed

section \<open>Clean output\<close>

text \<open>A byte that no terminal takes as a command.\<close>

definition printable :: "char \<Rightarrow> bool" where
  "printable b \<longleftrightarrow> \<not> ((of_char b :: nat) < 0x20 \<or> b = CHR 0x7F)"

definition clean :: "string \<Rightarrow> bool" where "clean t \<longleftrightarrow> list_all printable t"

lemma clean_simps [simp]: "clean []" "clean (b # t) \<longleftrightarrow> printable b \<and> clean t" "clean (t @ u) \<longleftrightarrow> clean t \<and> clean u"
  "clean (replicate n b) \<longleftrightarrow> n = 0 \<or> printable b"
  by (auto simp: clean_def list_all_iff)

lemma clean_sanitized [simp]: "clean (sanitizeLabel l)"
  by (simp add: sanitizeLabel_def printable_def clean_def list_all_iff)

lemma printable_Char [simp]:
  "printable (Char b0 b1 b2 b3 b4 b5 b6 b7) \<longleftrightarrow> (b5 \<or> b6 \<or> b7) \<and> \<not> (b0 \<and> b1 \<and> b2 \<and> b3 \<and> b4 \<and> b5 \<and> b6 \<and> \<not> b7)"
  by (cases b0; cases b1; cases b2; cases b3; cases b4; cases b5; cases b6; cases b7) (simp_all add: printable_def)

lemma clean_literals [simp]:
  "clean headerPrefix" "clean msgMenu" "clean msgBye" "clean msgCancelled" "clean msgInvalidInput" "clean msgSessionKeyGuard"
  "clean msgRemovalFailed" "clean msgAccountDeletionFailed" "clean msgListFailed" "clean msgNoKeys" "clean msgDeletePrompt"
  by (simp_all add: headerPrefix_def msgMenu_def msgBye_def msgCancelled_def msgInvalidInput_def msgSessionKeyGuard_def
      msgRemovalFailed_def msgAccountDeletionFailed_def msgListFailed_def msgNoKeys_def msgDeletePrompt_def)

lemma digit_printable: "d < 10 \<Longrightarrow> printable (digit_char d)"
proof -
  assume "d < 10"
  then have "d \<in> {0, 1, 2, 3, 4, 5, 6, 7, 8, 9}" by auto
  moreover have "\<forall>d\<in>{0, 1, 2, 3, 4, 5, 6, 7, 8, 9}. printable (digit_char d)" by code_simp
  ultimately show ?thesis by blast
qed

lemma clean_nat [simp]: "clean (show_nat n)"
  using show_nat_digits digit_printable by (fastforce simp: clean_def list_all_iff)

lemma clean_FormatInt [simp]: "clean (FormatInt i)"
  by (simp add: FormatInt_def)

lemma clean_pad [simp]: "clean (pad_int n i)"
  by (simp add: pad_int_def Let_def)

lemma clean_date [simp]: "clean (addedDate k)"
  by (simp add: addedDate_def split: prod.splits)

text \<open>The bytes the console may write.\<close>

definition allowed :: "bool \<Rightarrow> char set" where
  "allowed pty = {b. printable b} \<union> {CHR 0x0D, CHR 0x0A} \<union> (if pty then {CHR 0x08} else {})"

definition tidy_key :: "SSHKeyRecord \<Rightarrow> bool" where
  "tidy_key k \<longleftrightarrow> clean (key_Fingerprint k) \<and> clean (key_Algorithm k)"

definition tidy :: "bool \<Rightarrow> 's console \<Rightarrow> bool" where
  "tidy pty c \<longleftrightarrow> set (co_out c) \<subseteq> allowed pty \<and> (\<forall>k\<in>set (co_keys c). tidy_key k)"

definition tidy_service :: "'s Service \<Rightarrow> bool" where
  "tidy_service v \<longleftrightarrow> clean (displayName v) \<and> clean (sv_enrollmentUser v)
     \<and> (\<forall>s ks t. ks_ListKeysForAccount (sv_Store v) (acct_ID (sv_Account v)) s = (Inr ks, t) \<longrightarrow> (\<forall>k\<in>set ks. tidy_key k))"

lemma tidy_step:
  "clean t \<Longrightarrow> tidy p c \<Longrightarrow> tidy p (screen_line t c)" "tidy p c \<Longrightarrow> tidy p (screen_blank c)"
  "tidy p c \<Longrightarrow> tidy p (recordEvent v e b d k c)" "tidy p c \<Longrightarrow> tidy p (c\<lparr>co_store := s\<rparr>)"
  "(\<forall>k\<in>set ks. tidy_key k) \<Longrightarrow> tidy p c \<Longrightarrow> tidy p (c\<lparr>co_keys := ks\<rparr>)"
  by (auto simp: tidy_def screen_line_def screen_blank_def recordEvent_def crlf_def allowed_def clean_def list_all_iff)

lemma tidy_fold: "(\<And>x d. x \<in> set xs \<Longrightarrow> tidy p d \<Longrightarrow> tidy p (f x d)) \<Longrightarrow> tidy p d \<Longrightarrow> tidy p (fold f xs d)"
  by (induction xs arbitrary: d) auto

lemma echo_allowed: "echo_step pty b echo echo' \<Longrightarrow> set echo \<subseteq> allowed pty \<Longrightarrow> set echo' \<subseteq> allowed pty"
  by (auto simp: echo_step_def allowed_def printable_def)

lemma readLine_loop_echo:
  "readLine_loop pty fails bs lf buf ov echo = (r, rest, lf', echo') \<Longrightarrow> set echo \<subseteq> allowed pty \<Longrightarrow> set echo' \<subseteq> allowed pty"
proof (induction bs arbitrary: lf buf ov echo)
  case (Cons b bs)
  show ?case
  proof (cases rule: readLine_step [of pty fails b bs lf buf ov echo])
    case stop
    with Cons.prems show ?thesis by simp
  next
    case more
    with Cons.prems Cons.IH echo_allowed show ?thesis by metis
  qed
qed simp

lemma tidy_read: "tidy (sv_pty v) c \<Longrightarrow> tidy (sv_pty v) (snd (readLine v c))"
  using readLine_loop_echo [of "sv_pty v" "sv_readFails v" "co_input c" "co_pendingLF c" "[]" False "[]"]
  by (auto simp: readLine_def tidy_def split: prod.splits)

lemma tidy_list:
  assumes "tidy p c" "tidy_service v"
  shows "tidy p (snd (store_list v c))" "fst (store_list v c) = Inr ks \<Longrightarrow> \<forall>k\<in>set ks. tidy_key k"
  using assms by (auto simp: store_list_def tidy_service_def intro: tidy_step(4) split: prod.splits)

lemma clean_keyLine: "tidy_key k \<Longrightarrow> clean (keyLine n k)"
  by (simp add: keyLine_def quoted_def tidy_key_def)

lemma tidy_listing:
  assumes "tidy p c" "tidy_service v" shows "tidy p (renderListing v c)"
proof -
  have s: "tidy p (screen_blank c)" using assms(1) by (rule tidy_step)
  note l = tidy_list [OF s assms(2)]
  show ?thesis unfolding renderListing_def case_prod_beta Let_def
    using l by (auto intro!: tidy_step tidy_fold clean_keyLine simp: in_set_enumerate_eq split: sum.split)
qed

lemma tidy_removal:
  "tidy p c \<Longrightarrow> tidy_service v \<Longrightarrow> tidy p (removal_confirmed v n k c)"
  by (auto simp: removal_confirmed_def intro!: tidy_listing tidy_step split: prod.splits sum.splits)

lemma tidy_deletion:
  "tidy p c \<Longrightarrow> tidy_service v \<Longrightarrow> tidy p (deletion_confirmed v ks c)"
  by (auto simp: deletion_confirmed_def Let_def tidy_service_def intro!: tidy_fold tidy_step split: prod.splits sum.splits)

lemma tidy_runKeyRemoval:
  assumes "tidy (sv_pty v) c" "tidy_service v" shows "tidy (sv_pty v) (snd (runKeyRemoval v l c))"
proof -
  have k: "tidy_key (co_keys c ! (nat i - 1))" if "\<not> i < 1" "\<not> int (length (co_keys c)) < i" for i
    using assms(1) that by (auto simp: tidy_def)
  show ?thesis unfolding runKeyRemoval_def case_prod_beta Let_def
    using assms k
    by (auto simp: quoted_def tidy_key_def intro!: tidy_step tidy_listing tidy_removal tidy_read split: option.split)
qed

lemma tidy_runAccountDeletion:
  assumes "tidy (sv_pty v) c" "tidy_service v" shows "tidy (sv_pty v) (snd (runAccountDeletion v c))"
proof -
  have u: "clean (sv_enrollmentUser v)" using assms(2) by (simp add: tidy_service_def)
  show ?thesis unfolding runAccountDeletion_def case_prod_beta Let_def
    using tidy_list [OF assms] assms u
    by (auto intro!: tidy_step tidy_listing tidy_deletion tidy_read split: sum.split)
qed

lemma tidy_loop: "tidy_service v \<Longrightarrow> tidy (sv_pty v) c \<Longrightarrow> tidy (sv_pty v) (console_loop v c)"
proof (induction v c rule: console_loop.induct)
  case (1 v c)
  obtain r d where r: "readLine v c = (r, d)" by fastforce
  have d: "tidy (sv_pty v) d" using tidy_read [OF "1.prems"(2)] r by simp
  show ?case
  proof (cases r)
    case (Line l)
    obtain b f where f: "(if l = ''d'' then runAccountDeletion v d else runKeyRemoval v l d) = (b, f)" by fastforce
    have "tidy (sv_pty v) f" using f tidy_runAccountDeletion [OF d "1.prems"(1)] tidy_runKeyRemoval [OF d "1.prems"(1), of l] by (metis snd_conv)
    then show ?thesis using Line r f d 1 tidy_listing [OF d "1.prems"(1)]
      by (auto simp: console_loop.simps [of v c] intro: tidy_step(1) split: if_splits)
  next
    case Overlong
    have "tidy (sv_pty v) (renderListing v (screen_line msgInvalidInput d))"
      by (intro tidy_listing tidy_step(1) d "1.prems"(1)) simp
    then show ?thesis using 1 r Overlong by (auto simp: console_loop.simps [of v c])
  qed (use r d in \<open>auto simp: console_loop.simps [of v c] intro: tidy_step(1)\<close>)
qed

section \<open>A concrete session\<close>

text \<open>An account with two keys; the session was opened with the first.\<close>

definition demo_two :: store where
  "demo_two = store_exec demo_env (DoAddKey 5 (demo_key\<lparr>pk_Marshal := ''C'', pk_Fingerprint := ''SHA256:C''\<rparr>) ''old phone'') demo_keyed"

definition demo_service :: "store Service" where
  "demo_service = \<lparr>sv_Store = flat_store demo_env, sv_Audit = True, sv_lib = demo_lib,
     sv_SessionKeyID = (case fst (LookupByPublicKey demo_env False 9 demo_key demo_two) of Inl _ \<Rightarrow> uuid_Nil | Inr (_, k) \<Rightarrow> key_ID k),
     sv_Account = demo_account, sv_EnrollmentUser = [], sv_PeerAddress = ''10.0.0.1:5'', sv_ConnectionID = ''c1'', sv_pty = False, sv_readFails = False\<rparr>"

definition demo_console :: "bytes \<Rightarrow> store console" where
  "demo_console input = \<lparr>co_store = demo_two, co_keys = [], co_input = input, co_pendingLF = False, co_out = [], co_audit = []\<rparr>"

lemma demo_two_distinct: "dirs_distinct demo_two"
proof -
  have "store_reach demo_env demo_two" unfolding demo_two_def by (rule store_reach.step [OF demo_keyed_reach]) simp
  then show ?thesis using store_reach_wf by (fastforce simp: store_wf_def)
qed

text \<open>A client that sends nothing gets the listing and the farewell; no event is recorded.\<close>

lemma listing_audit [simp]: "co_audit (renderListing v c) = co_audit c"
proof -
  have f: "co_audit (fold (\<lambda>(i, k). screen_line (g i k)) xs c) = co_audit c" for g and xs :: "(nat \<times> SSHKeyRecord) list" and c :: "'a console"
    by (induction xs arbitrary: c) (auto simp: screen_line_def)
  show ?thesis
    by (auto simp: renderListing_def store_list_def Let_def f screen_line_def screen_blank_def split: prod.splits sum.splits)
qed

lemma Run_at_eof: "co_input c = [] \<Longrightarrow> \<not> sv_readFails v \<Longrightarrow> co_audit (Run v c) = co_audit c"
  by (simp add: Run_def console_loop.simps readLine_def screen_line_def split: prod.splits)

text \<open>A store whose only key carries a label with an escape sequence.\<close>

definition hostile_service :: "unit Service" where
  "hostile_service = \<lparr>sv_Store = \<lparr>ks_ListKeysForAccount = \<lambda>a s. (Inr [\<lparr>key_ID = 7, key_AccountID = a,
       key_Fingerprint = ''SHA256:B'', key_Algorithm = ''ssh-ed25519'', key_Label = CHR 0x1B # ''[2J'', key_Enabled = True,
       key_CreatedAtMs = 0, key_LastUsedAtMs = None\<rparr>], s), ks_DeleteKey = \<lambda>_ _ s. (Inr (), s), ks_DeleteAccount = \<lambda>_ s. (Inr (), s)\<rparr>,
     sv_Audit = True, sv_lib = demo_lib, sv_SessionKeyID = 6, sv_Account = demo_account, sv_EnrollmentUser = [],
     sv_PeerAddress = ''10.0.0.1:5'', sv_ConnectionID = ''c1'', sv_pty = True, sv_readFails = False\<rparr>"

definition hostile_console :: "unit console" where
  "hostile_console = \<lparr>co_store = (), co_keys = [], co_input = CHR 0x1B # ''1'', co_pendingLF = False, co_out = [], co_audit = []\<rparr>"

section \<open>Properties\<close>

text \<open>C32. The console acts on the owner's account only. Whatever bytes the client sends and whatever system calls
  fail, every other account, credential and key is unchanged; and unless a deletion of the account has been
  logged, the account and its credential are unchanged too and the only key files that can have gone are those of
  this account with an identifier other than that of the session key.\<close>

theorem console_scoped:
  assumes "uuid_lawful (env_lib E)" "dirs_distinct (co_store c)" "sv_Store v = flat_store E" "sv_Audit v"
  shows "foreign_kept E (acct_ID (sv_Account v)) (img_of (co_store c)) (img_of (co_store (Run v c)))
    \<and> (key_spared E (acct_ID (sv_Account v)) (sv_SessionKeyID v) (img_of (co_store c)) (img_of (co_store (Run v c)))
       \<or> (\<exists>ev\<in>set (co_audit (Run v c)). ev_EventType ev = EventTypeAccountDeleted))"
  using flat.acts_Run [OF assms(3,4), of c] assms(1,2) unfolding flat.acts_def flat.deletion_logged_def by blast

theorem console_scoped_witness:
  "key_spared demo_env 5 (sv_SessionKeyID demo_service) (img_of demo_two)
     (img_of (co_store (Run demo_service (demo_console []))))"
  using console_scoped [of demo_env "demo_console []" demo_service] demo_two_distinct
    Run_at_eof [of "demo_console []" demo_service]
  by (simp add: demo_service_def demo_console_def demo_account_def)

text \<open>The console always ends, and says so: for every input, terminated or not, it returns, and the last line of
  its output is the farewell or the message that the deletion of the account failed.\<close>

theorem console_says_goodbye:
  "farewell (co_out (Run v c))"
  unfolding Run_def by (rule farewell_loop)

text \<open>The transcript cannot be used to attack a terminal: provided fingerprints, algorithm names, the displayed
  name and the enrollment user name are clean, everything the console writes consists of bytes that are not control
  characters, line ends, and, on a terminal only, the backspaces of the line editor; whatever the labels of
  the keys contain and whatever the client types.\<close>

theorem console_output_clean:
  assumes "tidy_service v" "co_out c = []" "co_keys c = []"
  shows "set (co_out (Run v c)) \<subseteq> {b. printable b} \<union> {CHR 0x0D, CHR 0x0A} \<union> (if sv_pty v then {CHR 0x08} else {})"
proof -
  have c: "tidy (sv_pty v) c" using assms(2,3) by (simp add: tidy_def)
  have "tidy (sv_pty v) (Run v c)" unfolding Run_def headerLine_def
    using assms(1) by (intro tidy_loop tidy_listing tidy_step(1) c) (auto simp: tidy_service_def)
  then show ?thesis by (simp add: tidy_def allowed_def)
qed

theorem console_output_clean_witness:
  "CHR 0x1B \<notin> set (co_out (Run hostile_service hostile_console)) \<and> length (co_keys (Run hostile_service hostile_console)) = 1"
proof
  have "tidy_service hostile_service"
    by (simp add: tidy_service_def hostile_service_def displayName_def sv_enrollmentUser_def tidy_key_def demo_account_def)
  then have "set (co_out (Run hostile_service hostile_console))
      \<subseteq> {b. printable b} \<union> {CHR 0x0D, CHR 0x0A} \<union> (if sv_pty hostile_service then {CHR 0x08} else {})"
    by (rule console_output_clean) (simp_all add: hostile_console_def)
  then show "CHR 0x1B \<notin> set (co_out (Run hostile_service hostile_console))" by (auto split: if_splits)
  show "length (co_keys (Run hostile_service hostile_console)) = 1" by code_simp
qed

end
