(* ===== verification/Limits.thy ===== *)
theory Limits
  imports Config
begin

text \<open>
  \<open>internal/limits/limits.go\<close>: the admission semaphores. A semaphore in a keyed map is created on first
  use and deleted when its count returns to zero; the release closures hold the semaphore by reference
  and run at most once (\<open>sync.Once\<close>). The model keeps the references explicit: a heap of semaphores, a map
  from keys to addresses, and one record per closure. Each method runs under its mutex, so a run is a
  sequence of whole method calls. The locale \<open>counted_limit\<close> states the contract both kinds of
  semaphore share; both are interpretations of it.
\<close>

section \<open>The contract of a counted limit\<close>

datatype 'k limit_op = OpAcquire 'k | OpRelease nat

text \<open>A run is a sequence of method calls; a call of a closure that was never handed out is possible in
  the model and does nothing.\<close>

definition limit_step ::
    "('k \<Rightarrow> 's \<Rightarrow> nat option \<times> 's) \<Rightarrow> (nat \<Rightarrow> 's \<Rightarrow> 's) \<Rightarrow> 'k limit_op \<Rightarrow> 's \<Rightarrow> 's" where
  "limit_step acq rel p s = (case p of OpAcquire k \<Rightarrow> snd (acq k s) | OpRelease t \<Rightarrow> rel t s)"

definition limit_run ::
    "('k \<Rightarrow> 's \<Rightarrow> nat option \<times> 's) \<Rightarrow> (nat \<Rightarrow> 's \<Rightarrow> 's) \<Rightarrow> 'k limit_op list \<Rightarrow> 's \<Rightarrow> 's" where
  "limit_run acq rel ps s = fold (limit_step acq rel) ps s"

locale counted_limit =
  fixes acquire :: "'k \<Rightarrow> 's \<Rightarrow> nat option \<times> 's"
    and release :: "nat \<Rightarrow> 's \<Rightarrow> 's"
    and owner :: "'s \<Rightarrow> nat \<Rightarrow> 'k option"
    and held :: "'s \<Rightarrow> 'k \<Rightarrow> nat"
    and invar :: "'s \<Rightarrow> bool"
    and limit :: nat
  assumes acquire_some: "invar s \<Longrightarrow> acquire k s = (Some t, s') \<Longrightarrow>
      held s k < limit \<and> owner s t = None \<and> owner s' = (owner s)(t \<mapsto> k)
      \<and> held s' = (held s)(k := Suc (held s k)) \<and> invar s'"
    and acquire_none: "invar s \<Longrightarrow> acquire k s = (None, s') \<Longrightarrow> limit \<le> held s k \<and> s' = s"
    and release_owned: "invar s \<Longrightarrow> owner s t = Some k \<Longrightarrow>
      0 < held s k \<and> owner (release t s) = (owner s)(t := None)
      \<and> held (release t s) = (held s)(k := held s k - 1) \<and> invar (release t s)"
    and release_unowned: "invar s \<Longrightarrow> owner s t = None \<Longrightarrow> release t s = s"
    and held_within: "invar s \<Longrightarrow> held s k \<le> limit"
begin

lemma step_invar:
  assumes "invar s" shows "invar (limit_step acquire release p s)"
proof (cases p)
  case (OpAcquire k)
  obtain r s' where r: "acquire k s = (r, s')" by fastforce
  with assms OpAcquire show ?thesis
    by (cases r) (auto simp: limit_step_def dest: acquire_some acquire_none)
next
  case (OpRelease t)
  with assms show ?thesis
    by (cases "owner s t") (auto simp: limit_step_def release_unowned dest: release_owned)
qed

lemma run_invar: "invar s \<Longrightarrow> invar (limit_run acquire release ps s)"
  unfolding limit_run_def by (induction ps arbitrary: s) (auto intro: step_invar)

lemma run_within: "invar s \<Longrightarrow> held (limit_run acquire release ps s) k \<le> limit"
  by (rule held_within) (rule run_invar)

lemma acquire_iff: "invar s \<Longrightarrow> fst (acquire k s) \<noteq> None \<longleftrightarrow> held s k < limit"
  by (cases "acquire k s"; cases "fst (acquire k s)") (auto dest: acquire_some acquire_none)

lemma release_twice: "invar s \<Longrightarrow> release t (release t s) = release t s"
  by (metis fun_upd_same option.exhaust release_owned release_unowned)

end

section \<open>One semaphore\<close>

text \<open>\<open>sem_onces\<close> has one entry per release closure handed out: true once its \<open>sync.Once\<close> has fired.\<close>

record semaphore =
  sem_count :: int
  sem_max :: int

record plain_sem = semaphore +
  sem_onces :: "bool list"

definition sem_Acquire :: "plain_sem \<Rightarrow> nat option \<times> plain_sem" where
  "sem_Acquire s = (if sem_max s \<le> sem_count s then (None, s)
     else (Some (length (sem_onces s)),
           s\<lparr>sem_count := sem_count s + 1, sem_onces := sem_onces s @ [False]\<rparr>))"

definition sem_release :: "nat \<Rightarrow> plain_sem \<Rightarrow> plain_sem" where
  "sem_release t s = (if t < length (sem_onces s) \<and> \<not> sem_onces s ! t
     then s\<lparr>sem_count := sem_count s - 1, sem_onces := (sem_onces s)[t := True]\<rparr> else s)"

definition new_sem :: "int \<Rightarrow> plain_sem" where
  "new_sem m = \<lparr>sem_count = 0, sem_max = m, sem_onces = []\<rparr>"

section \<open>Keyed semaphores\<close>

record 'k closure =
  cl_key :: 'k
  cl_sem :: nat
  cl_done :: bool

record 'k mapped =
  mp_entries :: "'k \<Rightarrow> nat option"
  mp_heap :: "semaphore list"
  mp_onces :: "'k closure list"

definition empty_mapped :: "'k mapped" where
  "empty_mapped = \<lparr>mp_entries = (\<lambda>_. None), mp_heap = [], mp_onces = []\<rparr>"

text \<open>The part of \<open>acquireMapped\<close> after the entry is found or created.\<close>

definition acquire_at :: "'k \<Rightarrow> nat \<Rightarrow> 'k mapped \<Rightarrow> nat option \<times> 'k mapped" where
  "acquire_at key a s = (let m = mp_heap s ! a in
     if sem_max m \<le> sem_count m then (None, s)
     else (Some (length (mp_onces s)),
           s\<lparr>mp_heap := (mp_heap s)[a := m\<lparr>sem_count := sem_count m + 1\<rparr>],
             mp_onces := mp_onces s @ [\<lparr>cl_key = key, cl_sem = a, cl_done = False\<rparr>]\<rparr>))"

definition acquireMapped :: "int \<Rightarrow> 'k \<Rightarrow> 'k mapped \<Rightarrow> nat option \<times> 'k mapped" where
  "acquireMapped limit key s =
     (case mp_entries s key of
        Some a \<Rightarrow> acquire_at key a s
      | None \<Rightarrow> if limit \<le> 0 then (None, s)
          else acquire_at key (length (mp_heap s))
            (s\<lparr>mp_heap := mp_heap s @ [\<lparr>sem_count = 0, sem_max = limit\<rparr>],
               mp_entries := (mp_entries s)(key \<mapsto> length (mp_heap s))\<rparr>))"

text \<open>The closure returned by \<open>acquireMapped\<close>; the argument is its index.\<close>

definition releaseMapped :: "nat \<Rightarrow> 'k mapped \<Rightarrow> 'k mapped" where
  "releaseMapped t s =
     (if t < length (mp_onces s) \<and> \<not> cl_done (mp_onces s ! t) then
        (let c = mp_onces s ! t; a = cl_sem c; m = mp_heap s ! a; n = sem_count m - 1;
             s' = s\<lparr>mp_heap := (mp_heap s)[a := m\<lparr>sem_count := n\<rparr>],
                    mp_onces := (mp_onces s)[t := c\<lparr>cl_done := True\<rparr>]\<rparr>
         in if n = 0 \<and> mp_entries s (cl_key c) = Some a
            then s'\<lparr>mp_entries := (mp_entries s)(cl_key c := None)\<rparr> else s')
      else s)"

section \<open>The gateway's counters\<close>

record Counters =
  globalConn :: plain_sem
  handshake :: plain_sem
  ipConns :: "string mapped"
  maxIPConns :: int
  keyConns :: "uuid mapped"
  maxKeyConns :: int
  accountConns :: "uuid mapped"
  maxAccountConns :: int
  channels :: "string mapped"
  maxChannels :: int
  channelAccounts :: "uuid mapped"
  maxChannelAccts :: int
  coderProcess :: plain_sem
  coderAPI :: plain_sem

definition NewCounters :: "ConfigLimits \<Rightarrow> Counters" where
  "NewCounters cfg =
     \<lparr>globalConn = new_sem (UnauthenticatedConnections cfg),
      handshake = new_sem (Handshakes cfg),
      ipConns = empty_mapped, maxIPConns = ConnectionsPerIP cfg,
      keyConns = empty_mapped, maxKeyConns = ConnectionsPerKey cfg,
      accountConns = empty_mapped, maxAccountConns = ConnectionsPerAccount cfg,
      channels = empty_mapped, maxChannels = ChannelsPerConnection cfg,
      channelAccounts = empty_mapped, maxChannelAccts = ChannelsPerAccount cfg,
      coderProcess = new_sem (CoderProcesses cfg),
      coderAPI = new_sem (CoderAPIRequests cfg)\<rparr>"

definition AcquireGlobal :: "Counters \<Rightarrow> nat option \<times> Counters" where
  "AcquireGlobal c = (case sem_Acquire (globalConn c) of (r, s) \<Rightarrow> (r, c\<lparr>globalConn := s\<rparr>))"

definition AcquireHandshake :: "Counters \<Rightarrow> nat option \<times> Counters" where
  "AcquireHandshake c = (case sem_Acquire (handshake c) of (r, s) \<Rightarrow> (r, c\<lparr>handshake := s\<rparr>))"

definition AcquireIP :: "string \<Rightarrow> Counters \<Rightarrow> nat option \<times> Counters" where
  "AcquireIP ip c = (case acquireMapped (maxIPConns c) ip (ipConns c) of (r, s) \<Rightarrow> (r, c\<lparr>ipConns := s\<rparr>))"

definition AcquireKey :: "uuid \<Rightarrow> Counters \<Rightarrow> nat option \<times> Counters" where
  "AcquireKey k c = (case acquireMapped (maxKeyConns c) k (keyConns c) of (r, s) \<Rightarrow> (r, c\<lparr>keyConns := s\<rparr>))"

definition AcquireAccount :: "uuid \<Rightarrow> Counters \<Rightarrow> nat option \<times> Counters" where
  "AcquireAccount a c =
     (case acquireMapped (maxAccountConns c) a (accountConns c) of (r, s) \<Rightarrow> (r, c\<lparr>accountConns := s\<rparr>))"

definition AcquireChannel :: "string \<Rightarrow> Counters \<Rightarrow> nat option \<times> Counters" where
  "AcquireChannel i c = (case acquireMapped (maxChannels c) i (channels c) of (r, s) \<Rightarrow> (r, c\<lparr>channels := s\<rparr>))"

definition AcquireChannelAccount :: "uuid \<Rightarrow> Counters \<Rightarrow> nat option \<times> Counters" where
  "AcquireChannelAccount a c =
     (case acquireMapped (maxChannelAccts c) a (channelAccounts c) of (r, s) \<Rightarrow> (r, c\<lparr>channelAccounts := s\<rparr>))"

definition AcquireCoderProcess :: "Counters \<Rightarrow> nat option \<times> Counters" where
  "AcquireCoderProcess c = (case sem_Acquire (coderProcess c) of (r, s) \<Rightarrow> (r, c\<lparr>coderProcess := s\<rparr>))"

definition AcquireCoderAPI :: "Counters \<Rightarrow> nat option \<times> Counters" where
  "AcquireCoderAPI c = (case sem_Acquire (coderAPI c) of (r, s) \<Rightarrow> (r, c\<lparr>coderAPI := s\<rparr>))"

text \<open>The release closures the methods return, by their index in the semaphore they belong to.\<close>

definition releaseGlobal :: "nat \<Rightarrow> Counters \<Rightarrow> Counters" where "releaseGlobal t c = c\<lparr>globalConn := sem_release t (globalConn c)\<rparr>"
definition releaseHandshake :: "nat \<Rightarrow> Counters \<Rightarrow> Counters" where "releaseHandshake t c = c\<lparr>handshake := sem_release t (handshake c)\<rparr>"
definition releaseIP :: "nat \<Rightarrow> Counters \<Rightarrow> Counters" where "releaseIP t c = c\<lparr>ipConns := releaseMapped t (ipConns c)\<rparr>"
definition releaseKey :: "nat \<Rightarrow> Counters \<Rightarrow> Counters" where "releaseKey t c = c\<lparr>keyConns := releaseMapped t (keyConns c)\<rparr>"
definition releaseAccount :: "nat \<Rightarrow> Counters \<Rightarrow> Counters" where "releaseAccount t c = c\<lparr>accountConns := releaseMapped t (accountConns c)\<rparr>"
definition releaseChannel :: "nat \<Rightarrow> Counters \<Rightarrow> Counters" where "releaseChannel t c = c\<lparr>channels := releaseMapped t (channels c)\<rparr>"
definition releaseChannelAccount :: "nat \<Rightarrow> Counters \<Rightarrow> Counters" where "releaseChannelAccount t c = c\<lparr>channelAccounts := releaseMapped t (channelAccounts c)\<rparr>"
definition releaseCoderProcess :: "nat \<Rightarrow> Counters \<Rightarrow> Counters" where "releaseCoderProcess t c = c\<lparr>coderProcess := sem_release t (coderProcess c)\<rparr>"
definition releaseCoderAPI :: "nat \<Rightarrow> Counters \<Rightarrow> Counters" where "releaseCoderAPI t c = c\<lparr>coderAPI := sem_release t (coderAPI c)\<rparr>"

record LimitsUsage =
  GlobalConns :: int
  lu_Handshakes :: int
  IPs :: "string \<rightharpoonup> int"
  Keys :: "uuid \<rightharpoonup> int"
  Accounts :: "uuid \<rightharpoonup> int"
  Channels :: "string \<rightharpoonup> int"
  ChannelAccounts :: "uuid \<rightharpoonup> int"
  lu_CoderProcesses :: int
  lu_CoderAPIRequests :: int

definition mapped_usage :: "'k mapped \<Rightarrow> 'k \<rightharpoonup> int" where
  "mapped_usage m = (\<lambda>k. map_option (\<lambda>a. sem_count (mp_heap m ! a)) (mp_entries m k))"

definition Usage :: "Counters \<Rightarrow> LimitsUsage" where
  "Usage c =
     \<lparr>GlobalConns = sem_count (globalConn c), lu_Handshakes = sem_count (handshake c),
      IPs = mapped_usage (ipConns c), Keys = mapped_usage (keyConns c),
      Accounts = mapped_usage (accountConns c), Channels = mapped_usage (channels c),
      ChannelAccounts = mapped_usage (channelAccounts c),
      lu_CoderProcesses = sem_count (coderProcess c), lu_CoderAPIRequests = sem_count (coderAPI c)\<rparr>"

section \<open>The semaphores meet the contract\<close>

subsection \<open>Plain semaphores\<close>

definition sem_live :: "plain_sem \<Rightarrow> nat" where
  "sem_live s = length (filter Not (sem_onces s))"

definition sem_owner :: "plain_sem \<Rightarrow> nat \<Rightarrow> unit option" where
  "sem_owner s t = (if t < length (sem_onces s) \<and> \<not> sem_onces s ! t then Some () else None)"

definition sem_inv :: "int \<Rightarrow> plain_sem \<Rightarrow> bool" where
  "sem_inv m s \<longleftrightarrow> sem_max s = m \<and> sem_count s = int (sem_live s) \<and> sem_live s \<le> nat m"

lemma sem_live_release:
  "t < length (sem_onces s) \<Longrightarrow> \<not> sem_onces s ! t \<Longrightarrow>
   Suc (length (filter Not ((sem_onces s)[t := True]))) = sem_live s"
  using length_filter_update [of t "sem_onces s" Not True] by (simp add: sem_live_def)

interpretation plain: counted_limit "\<lambda>_::unit. sem_Acquire" sem_release sem_owner "\<lambda>s _. sem_live s"
    "sem_inv m" "nat m" for m
proof (unfold_locales, goal_cases)
  case (1 s k t s')
  then show ?case
    by (auto simp: sem_Acquire_def sem_inv_def sem_owner_def sem_live_def fun_eq_iff nth_append
        split: if_splits)
next
  case (2 s k s')
  then show ?case by (auto simp: sem_Acquire_def sem_inv_def split: if_splits)
next
  case (3 s t k)
  then show ?case
    using sem_live_release [of t s]
    by (auto simp: sem_release_def sem_inv_def sem_owner_def fun_eq_iff nth_list_update
        sem_live_def split: if_splits)
next
  case (4 s t)
  then show ?case by (auto simp: sem_release_def sem_owner_def split: if_splits)
next
  case (5 s k)
  then show ?case by (simp add: sem_inv_def)
qed

lemma sem_inv_new [simp]: "sem_inv m (new_sem m)"
  by (simp add: sem_inv_def new_sem_def sem_live_def)

subsection \<open>Keyed semaphores\<close>

definition live_at :: "'k mapped \<Rightarrow> nat \<Rightarrow> nat" where
  "live_at s a = length (filter (\<lambda>c. cl_sem c = a \<and> \<not> cl_done c) (mp_onces s))"

definition mp_held :: "'k mapped \<Rightarrow> 'k \<Rightarrow> nat" where
  "mp_held s k = length (filter (\<lambda>c. cl_key c = k \<and> \<not> cl_done c) (mp_onces s))"

definition mp_owner :: "'k mapped \<Rightarrow> nat \<Rightarrow> 'k option" where
  "mp_owner s t = (if t < length (mp_onces s) \<and> \<not> cl_done (mp_onces s ! t)
     then Some (cl_key (mp_onces s ! t)) else None)"

text \<open>A live closure's semaphore is the entry of its key; an entry counts its live closures, and there is
  at least one; no two keys share a semaphore.\<close>

definition mapped_inv :: "int \<Rightarrow> 'k mapped \<Rightarrow> bool" where
  "mapped_inv m s \<longleftrightarrow>
     (\<forall>c\<in>set (mp_onces s). cl_sem c < length (mp_heap s) \<and> (\<not> cl_done c \<longrightarrow> mp_entries s (cl_key c) = Some (cl_sem c)))
     \<and> (\<forall>k a. mp_entries s k = Some a \<longrightarrow> a < length (mp_heap s) \<and> sem_max (mp_heap s ! a) = m
          \<and> sem_count (mp_heap s ! a) = int (mp_held s k) \<and> 0 < mp_held s k \<and> int (mp_held s k) \<le> m)
     \<and> (\<forall>k k' a. mp_entries s k = Some a \<longrightarrow> mp_entries s k' = Some a \<longrightarrow> k = k')"

lemma mapped_inv_empty [simp]: "mapped_inv m empty_mapped"
  by (simp add: mapped_inv_def empty_mapped_def)

lemma mapped_invD:
  assumes "mapped_inv m s"
  shows "c \<in> set (mp_onces s) \<Longrightarrow> cl_sem c < length (mp_heap s)"
    "c \<in> set (mp_onces s) \<Longrightarrow> \<not> cl_done c \<Longrightarrow> mp_entries s (cl_key c) = Some (cl_sem c)"
    "mp_entries s k = Some a \<Longrightarrow> a < length (mp_heap s)"
    "mp_entries s k = Some a \<Longrightarrow> sem_max (mp_heap s ! a) = m"
    "mp_entries s k = Some a \<Longrightarrow> sem_count (mp_heap s ! a) = int (mp_held s k)"
    "mp_entries s k = Some a \<Longrightarrow> 0 < mp_held s k" "mp_entries s k = Some a \<Longrightarrow> int (mp_held s k) \<le> m"
    "mp_entries s k = Some a \<Longrightarrow> mp_entries s k' = Some a \<Longrightarrow> k = k'"
  using assms unfolding mapped_inv_def by blast+

lemma mapped_entry_iff:
  assumes "mapped_inv m s"
  shows "mp_entries s k = None \<longleftrightarrow> mp_held s k = 0"
proof
  assume "mp_entries s k = None"
  with mapped_invD(2) [OF assms] show "mp_held s k = 0"
    unfolding mp_held_def by (metis (mono_tags, lifting) filter_False list.size(3) option.distinct(1))
next
  assume "mp_held s k = 0"
  with mapped_invD(6) [OF assms] show "mp_entries s k = None"
    by (metis less_irrefl not_None_eq)
qed

lemma mp_held_le:
  assumes "mapped_inv m s" shows "mp_held s k \<le> nat m"
proof (cases "mp_entries s k")
  case None
  then show ?thesis using mapped_entry_iff [OF assms] by simp
next
  case (Some a)
  then show ?thesis using mapped_invD(7) [OF assms Some] by (simp add: le_nat_iff)
qed

text \<open>The state after a successful acquisition at the address \<open>a\<close>, and after a release.\<close>

lemma acquire_at_inv:
  assumes inv: "mapped_inv m s" and e: "mp_entries s k = Some a" and lt: "int (mp_held s k) < m"
    and r: "acquire_at k a s = (Some t, s')"
  shows "mp_owner s t = None \<and> mp_owner s' = (mp_owner s)(t \<mapsto> k)
    \<and> mp_held s' = (mp_held s)(k := Suc (mp_held s k)) \<and> mapped_inv m s'"
proof -
  note D = mapped_invD [OF inv]
  have s': "t = length (mp_onces s)"
    "s' = s\<lparr>mp_heap := (mp_heap s)[a := (mp_heap s ! a)\<lparr>sem_count := sem_count (mp_heap s ! a) + 1\<rparr>],
        mp_onces := mp_onces s @ [\<lparr>cl_key = k, cl_sem = a, cl_done = False\<rparr>]\<rparr>"
    using r by (auto simp: acquire_at_def Let_def split: if_splits)
  have h: "mp_held s' = (mp_held s)(k := Suc (mp_held s k))"
    by (auto simp: s' mp_held_def fun_eq_iff)
  have o: "mp_owner s t = None" "mp_owner s' = (mp_owner s)(t \<mapsto> k)"
    by (auto simp: s' mp_owner_def fun_eq_iff nth_append)
  have a: "a < length (mp_heap s)" using D(3) e .
  have ks: "mp_entries s' = mp_entries s" by (simp add: s')
  have "mapped_inv m s'"
    unfolding mapped_inv_def ks h
  proof (intro conjI allI ballI impI)
    fix c assume "c \<in> set (mp_onces s')"
    then show "cl_sem c < length (mp_heap s')" using D(1) a by (auto simp: s')
  next
    fix c assume "c \<in> set (mp_onces s')" "\<not> cl_done c"
    then show "mp_entries s (cl_key c) = Some (cl_sem c)" using D(2) e by (auto simp: s')
  next
    fix k' b assume b: "mp_entries s k' = Some b"
    show "b < length (mp_heap s')" "sem_max (mp_heap s' ! b) = m"
      using D(3,4) [OF b] a by (auto simp: s' nth_list_update)
    show "sem_count (mp_heap s' ! b) = int (((mp_held s)(k := Suc (mp_held s k))) k')"
    proof (cases "b = a")
      case True
      with D(8) [OF b, of k] e have "k' = k" by simp
      with True D(5) [OF e] a show ?thesis by (simp add: s')
    next
      case False
      with b e have "k' \<noteq> k" by auto
      with False D(5) [OF b] show ?thesis by (simp add: s')
    qed
    show "0 < ((mp_held s)(k := Suc (mp_held s k))) k'"
      "int (((mp_held s)(k := Suc (mp_held s k))) k') \<le> m"
      using D(6,7) [OF b] lt by auto
  next
    fix k1 k2 b assume "mp_entries s k1 = Some b" "mp_entries s k2 = Some b"
    then show "k1 = k2" by (rule D(8))
  qed
  with h o show ?thesis by simp
qed

lemma release_inv:
  assumes inv: "mapped_inv m s" and o: "mp_owner s t = Some k"
  shows "0 < mp_held s k \<and> mp_owner (releaseMapped t s) = (mp_owner s)(t := None)
    \<and> mp_held (releaseMapped t s) = (mp_held s)(k := mp_held s k - 1) \<and> mapped_inv m (releaseMapped t s)"
proof -
  note D = mapped_invD [OF inv]
  define c a where "c = mp_onces s ! t" and "a = cl_sem c"
  have t: "t < length (mp_onces s)" "\<not> cl_done c" "cl_key c = k"
    using o by (auto simp: mp_owner_def c_def split: if_splits)
  have cs: "c \<in> set (mp_onces s)" using t(1) by (simp add: c_def)
  have e: "mp_entries s k = Some a" using D(2) [OF cs t(2)] t(3) by (simp add: a_def)
  define n where "n = mp_held s k"
  have n: "0 < n" "sem_count (mp_heap s ! a) = int n" "a < length (mp_heap s)"
    using D(6,5,3) [OF e] by (simp_all add: n_def)
  define s' where "s' = releaseMapped t s"
  have heap: "mp_heap s' = (mp_heap s)[a := (mp_heap s ! a)\<lparr>sem_count := int n - 1\<rparr>]"
    and onces: "mp_onces s' = (mp_onces s)[t := c\<lparr>cl_done := True\<rparr>]"
    and ents: "mp_entries s' = (if n = 1 then (mp_entries s)(k := None) else mp_entries s)"
    using t n e unfolding s'_def releaseMapped_def Let_def c_def [symmetric] a_def [symmetric] by simp_all
  have h: "mp_held s' = (mp_held s)(k := n - 1)"
  proof
    fix j
    have "cl_key (c\<lparr>cl_done := True\<rparr>) = j \<and> \<not> cl_done (c\<lparr>cl_done := True\<rparr>) \<longleftrightarrow> False" by simp
    with length_filter_update [OF t(1), of "\<lambda>c. cl_key c = j \<and> \<not> cl_done c" "c\<lparr>cl_done := True\<rparr>"] t
    show "mp_held s' j = ((mp_held s)(k := n - 1)) j"
      by (auto simp: mp_held_def onces n_def c_def [symmetric] split: if_splits)
  qed
  have ow: "mp_owner s' = (mp_owner s)(t := None)"
    using t by (auto simp: mp_owner_def onces fun_eq_iff nth_list_update)
  have "mapped_inv m s'"
    unfolding mapped_inv_def h
  proof (intro conjI allI ballI impI)
    fix d assume "d \<in> set (mp_onces s')"
    then have "d \<in> set (mp_onces s) \<or> d = c\<lparr>cl_done := True\<rparr>"
      by (metis insert_iff onces set_update_subset_insert subsetD)
    then show "cl_sem d < length (mp_heap s')" using D(1) n(3) a_def by (auto simp: heap)
  next
    fix d assume d: "d \<in> set (mp_onces s')" "\<not> cl_done d"
    then have "d \<in> set (mp_onces s) \<or> d = c\<lparr>cl_done := True\<rparr>"
      by (metis insert_iff onces set_update_subset_insert subsetD)
    with d(2) have ds: "d \<in> set (mp_onces s)" by auto
    have "0 < mp_held s' (cl_key d)"
      using d by (auto simp: mp_held_def filter_empty_conv)
    with D(2) [OF ds d(2)] h show "mp_entries s' (cl_key d) = Some (cl_sem d)"
      by (auto simp: ents split: if_splits)
  next
    fix j b assume b': "mp_entries s' j = Some b"
    then have b: "mp_entries s j = Some b" and jn: "j = k \<Longrightarrow> n \<noteq> 1"
      by (auto simp: ents split: if_splits)
    show "b < length (mp_heap s')" "sem_max (mp_heap s' ! b) = m"
      using D(3,4) [OF b] n(3) by (auto simp: heap nth_list_update)
    show "0 < ((mp_held s)(k := n - 1)) j" "int (((mp_held s)(k := n - 1)) j) \<le> m"
      using D(6,7) [OF b] jn n(1) by (auto simp: n_def)
    show "sem_count (mp_heap s' ! b) = int (((mp_held s)(k := n - 1)) j)"
    proof (cases "b = a")
      case True
      with D(8) [OF b, of k] e have "j = k" by simp
      with True n show ?thesis by (simp add: heap)
    next
      case False
      with b e have "j \<noteq> k" by auto
      with False D(5) [OF b] show ?thesis by (simp add: heap)
    qed
  next
    fix k1 k2 b assume "mp_entries s' k1 = Some b" "mp_entries s' k2 = Some b"
    then have "mp_entries s k1 = Some b" "mp_entries s k2 = Some b" by (auto simp: ents split: if_splits)
    then show "k1 = k2" by (rule D(8))
  qed
  with n(1) h ow show ?thesis by (simp add: s'_def n_def)
qed

text \<open>A key without entry gets a fresh semaphore before the count is raised.\<close>

lemma acquire_fresh_inv:
  assumes inv: "mapped_inv m s" and e: "mp_entries s k = None" and pos: "0 < m"
    and r: "acquireMapped m k s = (Some t, s')"
  shows "mp_owner s t = None \<and> mp_owner s' = (mp_owner s)(t \<mapsto> k)
    \<and> mp_held s' = (mp_held s)(k := Suc (mp_held s k)) \<and> mapped_inv m s'"
proof -
  note D = mapped_invD [OF inv]
  define a where "a = length (mp_heap s)"
  have s': "t = length (mp_onces s)"
    "mp_onces s' = mp_onces s @ [\<lparr>cl_key = k, cl_sem = a, cl_done = False\<rparr>]"
    "mp_heap s' = mp_heap s @ [\<lparr>sem_count = 1, sem_max = m\<rparr>]"
    "mp_entries s' = (mp_entries s)(k \<mapsto> a)"
    using r e pos by (auto simp: acquireMapped_def acquire_at_def Let_def a_def)
  have z: "mp_held s k = 0" using mapped_entry_iff [OF inv] e by simp
  have h: "mp_held s' = (mp_held s)(k := Suc (mp_held s k))"
    by (auto simp: s' mp_held_def fun_eq_iff)
  have o: "mp_owner s t = None" "mp_owner s' = (mp_owner s)(t \<mapsto> k)"
    by (auto simp: s' mp_owner_def fun_eq_iff nth_append)
  have "mapped_inv m s'"
    unfolding mapped_inv_def h
  proof (intro conjI allI ballI impI)
    fix c assume "c \<in> set (mp_onces s')"
    then show "cl_sem c < length (mp_heap s')" using D(1) by (fastforce simp: s' a_def)
  next
    fix c assume "c \<in> set (mp_onces s')" "\<not> cl_done c"
    then show "mp_entries s' (cl_key c) = Some (cl_sem c)" using D(2) e by (fastforce simp: s')
  next
    fix j b assume b: "mp_entries s' j = Some b"
    show "b < length (mp_heap s')" "sem_max (mp_heap s' ! b) = m"
      "sem_count (mp_heap s' ! b) = int (((mp_held s)(k := Suc (mp_held s k))) j)"
      "0 < ((mp_held s)(k := Suc (mp_held s k))) j" "int (((mp_held s)(k := Suc (mp_held s k))) j) \<le> m"
      using b D(3-7) [of j b] z pos by (auto simp: s' a_def nth_append split: if_splits)
  next
    fix k1 k2 b assume "mp_entries s' k1 = Some b" "mp_entries s' k2 = Some b"
    then have "k1 = k \<and> k2 = k \<or> mp_entries s k1 = Some b \<and> mp_entries s k2 = Some b"
      using D(3) [of k1 b] D(3) [of k2 b] by (auto simp: s' a_def split: if_splits)
    then show "k1 = k2" using D(8) by metis
  qed
  with h o show ?thesis by simp
qed

interpretation keyed: counted_limit "acquireMapped m" releaseMapped mp_owner mp_held "mapped_inv m" "nat m" for m
proof (unfold_locales, goal_cases)
  case (1 s k t s')
  show ?case
  proof (cases "mp_entries s k")
    case None
    with 1 have "0 < m" by (auto simp: acquireMapped_def split: if_splits)
    with acquire_fresh_inv [OF 1(1) None _ 1(2)] mapped_entry_iff [OF 1(1)] None show ?thesis by simp
  next
    case (Some a)
    then have r: "acquire_at k a s = (Some t, s')" using 1(2) by (simp add: acquireMapped_def)
    then have "int (mp_held s k) < m"
      using mapped_invD(4,5) [OF 1(1) Some] by (auto simp: acquire_at_def Let_def split: if_splits)
    with acquire_at_inv [OF 1(1) Some _ r] show ?thesis by (simp add: zless_nat_conj)
  qed
next
  case (2 s k s')
  show ?case
  proof (cases "mp_entries s k")
    case None
    with 2 show ?thesis by (auto simp: acquireMapped_def acquire_at_def Let_def split: if_splits)
  next
    case (Some a)
    with 2 mapped_invD(4,5) [OF 2(1) Some] show ?thesis
      by (auto simp: acquireMapped_def acquire_at_def Let_def split: if_splits)
  qed
next
  case (3 s t k)
  then show ?case by (rule release_inv)
next
  case (4 s t)
  then show ?case by (auto simp: releaseMapped_def mp_owner_def split: if_splits)
next
  case (5 s k)
  then show ?case by (rule mp_held_le)
qed


section \<open>Runs of the gateway's counters\<close>

text \<open>A call on the counters; a release names the closure by its index.\<close>

datatype counters_op =
    OpGlobal | OpHandshake | OpIP string | OpKey uuid | OpAccount uuid | OpChannel string
  | OpChannelAccount uuid | OpCoderProcess | OpCoderAPI
  | RelGlobal nat | RelHandshake nat | RelIP nat | RelKey nat | RelAccount nat | RelChannel nat
  | RelChannelAccount nat | RelCoderProcess nat | RelCoderAPI nat

fun counters_step :: "counters_op \<Rightarrow> Counters \<Rightarrow> Counters" where
  "counters_step OpGlobal c = snd (AcquireGlobal c)"
| "counters_step OpHandshake c = snd (AcquireHandshake c)"
| "counters_step (OpIP ip) c = snd (AcquireIP ip c)"
| "counters_step (OpKey k) c = snd (AcquireKey k c)"
| "counters_step (OpAccount a) c = snd (AcquireAccount a c)"
| "counters_step (OpChannel i) c = snd (AcquireChannel i c)"
| "counters_step (OpChannelAccount a) c = snd (AcquireChannelAccount a c)"
| "counters_step OpCoderProcess c = snd (AcquireCoderProcess c)"
| "counters_step OpCoderAPI c = snd (AcquireCoderAPI c)"
| "counters_step (RelGlobal t) c = releaseGlobal t c"
| "counters_step (RelHandshake t) c = releaseHandshake t c"
| "counters_step (RelIP t) c = releaseIP t c"
| "counters_step (RelKey t) c = releaseKey t c"
| "counters_step (RelAccount t) c = releaseAccount t c"
| "counters_step (RelChannel t) c = releaseChannel t c"
| "counters_step (RelChannelAccount t) c = releaseChannelAccount t c"
| "counters_step (RelCoderProcess t) c = releaseCoderProcess t c"
| "counters_step (RelCoderAPI t) c = releaseCoderAPI t c"

definition counters_inv :: "ConfigLimits \<Rightarrow> Counters \<Rightarrow> bool" where
  "counters_inv cfg c \<longleftrightarrow>
     sem_inv (UnauthenticatedConnections cfg) (globalConn c) \<and> sem_inv (Handshakes cfg) (handshake c)
     \<and> sem_inv (CoderProcesses cfg) (coderProcess c) \<and> sem_inv (CoderAPIRequests cfg) (coderAPI c)
     \<and> (maxIPConns c = ConnectionsPerIP cfg \<and> mapped_inv (ConnectionsPerIP cfg) (ipConns c))
     \<and> (maxKeyConns c = ConnectionsPerKey cfg \<and> mapped_inv (ConnectionsPerKey cfg) (keyConns c))
     \<and> (maxAccountConns c = ConnectionsPerAccount cfg \<and> mapped_inv (ConnectionsPerAccount cfg) (accountConns c))
     \<and> (maxChannels c = ChannelsPerConnection cfg \<and> mapped_inv (ChannelsPerConnection cfg) (channels c))
     \<and> (maxChannelAccts c = ChannelsPerAccount cfg \<and> mapped_inv (ChannelsPerAccount cfg) (channelAccounts c))"

text \<open>The step rule of the contract, read once for each of the four kinds of call.\<close>

lemma sem_calls_inv:
  "sem_inv m s \<Longrightarrow> sem_inv m (snd (sem_Acquire s))" "sem_inv m s \<Longrightarrow> sem_inv m (sem_release t s)"
  using plain.step_invar [of m s "OpAcquire ()"] plain.step_invar [of m s "OpRelease t"]
  by (simp_all add: limit_step_def)

lemma mapped_calls_inv:
  "mapped_inv m s \<Longrightarrow> mapped_inv m (snd (acquireMapped m k s))"
  "mapped_inv m s \<Longrightarrow> mapped_inv m (releaseMapped t s)"
  using keyed.step_invar [of m s "OpAcquire k"] keyed.step_invar [of m s "OpRelease t"]
  by (simp_all add: limit_step_def)

lemmas Acquire_defs = AcquireGlobal_def AcquireHandshake_def AcquireIP_def AcquireKey_def AcquireAccount_def
  AcquireChannel_def AcquireChannelAccount_def AcquireCoderProcess_def AcquireCoderAPI_def

lemmas release_defs = releaseGlobal_def releaseHandshake_def releaseIP_def releaseKey_def releaseAccount_def
  releaseChannel_def releaseChannelAccount_def releaseCoderProcess_def releaseCoderAPI_def

lemma counters_step_inv: "counters_inv cfg c \<Longrightarrow> counters_inv cfg (counters_step p c)"
  by (cases p) (simp_all add: counters_inv_def Acquire_defs release_defs sem_calls_inv mapped_calls_inv split_beta)

lemma counters_run_inv: "counters_inv cfg c \<Longrightarrow> counters_inv cfg (fold counters_step ps c)"
  by (induction ps arbitrary: c) (auto intro: counters_step_inv)

lemma NewCounters_inv: "counters_inv cfg (NewCounters cfg)"
  by (simp add: counters_inv_def NewCounters_def)

lemma sem_inv_count: "sem_inv m s \<Longrightarrow> sem_count s \<in> {0..max 0 m}"
  by (auto simp: sem_inv_def)

lemma mapped_usage_ran:
  assumes "mapped_inv m s" shows "ran (mapped_usage s) \<subseteq> {1..m}"
proof
  fix n assume "n \<in> ran (mapped_usage s)"
  then obtain k a where a: "mp_entries s k = Some a" "n = sem_count (mp_heap s ! a)"
    by (auto simp: mapped_usage_def ran_def)
  with mapped_invD(5,6,7) [OF assms a(1)] show "n \<in> {1..m}" by simp
qed

lemma mapped_usage_held:
  assumes "mapped_inv m s"
  shows "mapped_usage s k = (if mp_held s k = 0 then None else Some (int (mp_held s k)))"
  using mapped_invD(5,6) [OF assms, of k] mapped_entry_iff [OF assms, of k]
  by (cases "mp_entries s k") (auto simp: mapped_usage_def)

section \<open>Properties\<close>

text \<open>C33. Admission never exceeds a limit: after any sequence of acquisitions and releases (of any
  closure, in any order, any number of times) on fresh counters, the usage report shows every plain
  semaphore between zero and its configured maximum, and lists for a keyed semaphore only keys with at
  least one and at most the configured number of holders, so an idle key leaves no entry behind.\<close>

theorem counters_within_limits:
  fixes cfg :: ConfigLimits and ps :: "counters_op list"
  defines "u \<equiv> Usage (fold counters_step ps (NewCounters cfg))"
  shows "GlobalConns u \<in> {0..max 0 (UnauthenticatedConnections cfg)}
    \<and> lu_Handshakes u \<in> {0..max 0 (Handshakes cfg)}
    \<and> lu_CoderProcesses u \<in> {0..max 0 (CoderProcesses cfg)}
    \<and> lu_CoderAPIRequests u \<in> {0..max 0 (CoderAPIRequests cfg)}
    \<and> ran (IPs u) \<subseteq> {1..ConnectionsPerIP cfg} \<and> ran (Keys u) \<subseteq> {1..ConnectionsPerKey cfg}
    \<and> ran (Accounts u) \<subseteq> {1..ConnectionsPerAccount cfg}
    \<and> ran (Channels u) \<subseteq> {1..ChannelsPerConnection cfg}
    \<and> ran (ChannelAccounts u) \<subseteq> {1..ChannelsPerAccount cfg}"
proof -
  have "counters_inv cfg (fold counters_step ps (NewCounters cfg))"
    by (intro counters_run_inv NewCounters_inv)
  then show ?thesis
    unfolding counters_inv_def u_def Usage_def by (simp add: sem_inv_count mapped_usage_ran del: atLeastAtMost_iff)
qed

text \<open>Exact admission on a keyed semaphore: in every state reachable from the empty map, an
  acquisition for a key succeeds exactly when the key holds fewer slots than the limit, and the entry
  of the key counts exactly the closures that were handed out and have not run.\<close>

theorem keyed_admission_exact:
  fixes m :: int and ps :: "'k limit_op list"
  defines "s \<equiv> limit_run (acquireMapped m) releaseMapped ps empty_mapped"
  shows "(fst (acquireMapped m k s) \<noteq> None \<longleftrightarrow> mp_held s k < nat m)
    \<and> mapped_usage s k = (if mp_held s k = 0 then None else Some (int (mp_held s k)))"
proof -
  have inv: "mapped_inv m s" unfolding s_def by (intro keyed.run_invar mapped_inv_empty)
  show ?thesis using keyed.acquire_iff [OF inv] mapped_usage_held [OF inv] by blast
qed

text \<open>A release gives back exactly one slot and only once: in every reachable state, running a live
  closure frees one slot of its own key and of no other key, and running it again changes nothing.\<close>

theorem release_exactly_once:
  fixes m :: int and ps :: "'k limit_op list"
  defines "s \<equiv> limit_run (acquireMapped m) releaseMapped ps empty_mapped"
  assumes live: "mp_owner s t = Some k"
  shows "mp_held (releaseMapped t s) = (mp_held s)(k := mp_held s k - 1) \<and> 0 < mp_held s k
    \<and> fst (acquireMapped m k (releaseMapped t s)) \<noteq> None
    \<and> releaseMapped t (releaseMapped t s) = releaseMapped t s"
proof -
  have inv: "mapped_inv m s" unfolding s_def by (intro keyed.run_invar mapped_inv_empty)
  note r = keyed.release_owned [OF inv live]
  have "mp_held (releaseMapped t s) k < nat m"
    using r keyed.held_within [OF inv, of k] by auto
  with r keyed.acquire_iff [of m "releaseMapped t s" k] keyed.release_twice [OF inv] show ?thesis by blast
qed

theorem release_exactly_once_witness:
  "mp_owner (limit_run (acquireMapped 1) releaseMapped [OpAcquire ''a''] empty_mapped) 0 = Some ''a''
   \<and> releaseMapped 0 (releaseMapped 0 (limit_run (acquireMapped 1) releaseMapped [OpAcquire ''a''] empty_mapped))
     = releaseMapped 0 (limit_run (acquireMapped 1) releaseMapped [OpAcquire ''a''] empty_mapped)"
proof -
  have l: "mp_owner (limit_run (acquireMapped 1) releaseMapped [OpAcquire ''a''] empty_mapped) 0 = Some ''a''"
    by (simp add: limit_run_def limit_step_def acquireMapped_def acquire_at_def empty_mapped_def mp_owner_def)
  then show ?thesis using release_exactly_once [where t = 0 and k = "''a''" and m = 1] by blast
qed

end
