(* ===== verification/Route.thy ===== *)
theory Route
  imports Core
begin

text \<open>
  \<open>internal/route\<close>: the strict grammar of workspace targets. A target is 1 to 3 DNS labels joined by dots
  or 2 to 3 labels joined by slashes; everything else is rejected with a stable code. The lemmas
  characterise exactly what is accepted, independently of the scanning code.
\<close>

section \<open>Model\<close>

record route_error =
  rerr_Code :: string
  rerr_Msg :: string

definition newError :: "string \<Rightarrow> string \<Rightarrow> route_error" where
  "newError code msg = \<lparr>rerr_Code = code, rerr_Msg = msg\<rparr>"

definition maxHostnameBytes :: nat where "maxHostnameBytes = 253"
definition maxLabelBytes :: nat where "maxLabelBytes = 63"
definition maxRouteLabels :: nat where "maxRouteLabels = 3"

definition normalizeHostname :: "golib \<Rightarrow> string \<Rightarrow> route_error + string" where
  "normalizeHostname L host =
     (if host = [] then Inl (newError ROUTE_INVALID_PAYLOAD ''empty host'')
      else let h = TrimSuffix host ''.'' in
        if h = [] then Inl (newError ROUTE_INVALID_PAYLOAD ''empty host after root-dot normalization'')
        else if \<exists>c\<in>set h. 0x7F < (of_char c :: nat)
          then Inl (newError ROUTE_NAME_INVALID ''non-ASCII byte in hostname'')
        else Inr (ToLower L h))"

definition label_byte :: "char \<Rightarrow> bool" where
  "label_byte b \<longleftrightarrow> (CHR ''a'' \<le> b \<and> b \<le> CHR ''z'') \<or> (CHR ''0'' \<le> b \<and> b \<le> CHR ''9'') \<or> b = CHR ''-''"

definition validLabel :: "string \<Rightarrow> bool" where
  "validLabel label =
     (if length label = 0 \<or> maxLabelBytes < length label then False
      else if HasPrefix label ''xn--'' then False
      else if hd label = CHR ''-'' \<or> last label = CHR ''-'' then False
      else list_all label_byte label)"

definition accepted_route :: "string \<Rightarrow> string \<Rightarrow> Route" where
  "accepted_route target h = \<lparr>RequestedHost = target, RequestedPort = 0, WorkspaceHost = h, DisplayTarget = h\<rparr>"

definition ParseBareTarget :: "golib \<Rightarrow> string \<Rightarrow> route_error + Route" where
  "ParseBareTarget L target =
     (case normalizeHostname L target of
        Inl e \<Rightarrow> Inl e
      | Inr h \<Rightarrow>
          if maxHostnameBytes < length h then Inl (newError ROUTE_NAME_INVALID ''target exceeds 253 bytes'')
          else if CHR ''/'' \<in> set h then
            (let parts = Split (CHR ''/'') h in
             if length parts < 2 \<or> 3 < length parts
             then Inl (newError ROUTE_NAME_INVALID ''owner/workspace target requires 2-3 slash-separated labels'')
             else if \<not> list_all validLabel parts then Inl (newError ROUTE_NAME_INVALID ''invalid label in target'')
             else Inr (accepted_route target h))
          else
            (let labels = Split (CHR ''.'') h in
             if maxRouteLabels < length labels then Inl (newError ROUTE_NAME_INVALID ''target requires 1-3 labels'')
             else if \<not> list_all validLabel labels then Inl (newError ROUTE_NAME_INVALID ''invalid label in target'')
             else Inr (accepted_route target h)))"

definition ParseDirectTCPIP :: "golib \<Rightarrow> string \<Rightarrow> uint32 \<Rightarrow> route_error + Route" where
  "ParseDirectTCPIP L host port =
     (if port \<noteq> 22 then Inl (newError ROUTE_PORT_DENIED ''target port must be 22'')
      else case ParseBareTarget L host of
        Inl e \<Rightarrow> Inl e
      | Inr route \<Rightarrow> Inr (route\<lparr>RequestedPort := port\<rparr>))"

section \<open>The grammar, stated on its own\<close>

text \<open>A dotted target joins 1 to 3 labels with dots, a slashed one joins 2 or 3 with slashes.\<close>

definition dotted :: "string \<Rightarrow> bool" where
  "dotted h \<longleftrightarrow> (\<exists>ls. 1 \<le> length ls \<and> length ls \<le> 3 \<and> list_all validLabel ls \<and> h = Join ''.'' ls)"

definition slashed :: "string \<Rightarrow> bool" where
  "slashed h \<longleftrightarrow> (\<exists>ls. 2 \<le> length ls \<and> length ls \<le> 3 \<and> list_all validLabel ls \<and> h = Join ''/'' ls)"

lemma label_byte_props:
  "label_byte c \<Longrightarrow> c \<noteq> CHR ''.''" "label_byte c \<Longrightarrow> c \<noteq> CHR ''/''"
  "label_byte c \<Longrightarrow> of_char c < (128::nat)" "label_byte c \<Longrightarrow> lower_ascii c = c"
  by (auto simp: label_byte_def less_eq_char_def lower_ascii_def)

lemma validLabel_bytes: "validLabel l \<Longrightarrow> c \<in> set l \<Longrightarrow> label_byte c"
  by (auto simp: validLabel_def list_all_iff split: if_splits)

lemma validLabel_ne: "validLabel l \<Longrightarrow> l \<noteq> []"
  by (auto simp: validLabel_def)

lemma validLabel_no_sep: "validLabel l \<Longrightarrow> CHR ''.'' \<notin> set l \<and> CHR ''/'' \<notin> set l"
  using validLabel_bytes label_byte_props by blast

lemma Join_two: "2 \<le> length ls \<Longrightarrow> c \<in> set (Join [c] ls)"
  by (cases ls; cases "tl ls") auto

lemma Join_dot_no_slash: "list_all validLabel ls \<Longrightarrow> CHR ''/'' \<notin> set (Join ''.'' ls)"
  using set_Join [of "''.''" ls] validLabel_no_sep by (fastforce simp: list_all_iff)

lemma hd_Join: "ls \<noteq> [] \<Longrightarrow> hd ls \<noteq> [] \<Longrightarrow> hd (Join sep ls) = hd (hd ls)"
  by (cases ls; cases "tl ls") auto

lemma last_Join: "ls \<noteq> [] \<Longrightarrow> last ls \<noteq> [] \<Longrightarrow> last (Join sep ls) = last (last ls) \<and> Join sep ls \<noteq> []"
  by (induction sep ls rule: Join.induct) auto

text \<open>The scanner's two branches are the two grammars.\<close>

lemma slashed_Split:
  "slashed h \<longleftrightarrow> CHR ''/'' \<in> set h \<and> 2 \<le> length (Split (CHR ''/'') h) \<and> length (Split (CHR ''/'') h) \<le> 3
     \<and> list_all validLabel (Split (CHR ''/'') h)" (is "_ \<longleftrightarrow> ?R")
proof
  assume "slashed h"
  then obtain ls where ls: "2 \<le> length ls" "length ls \<le> 3" "list_all validLabel ls" "h = Join ''/'' ls"
    by (auto simp: slashed_def)
  then have "Split (CHR ''/'') h = ls"
    using Split_Join [of ls "CHR ''/''"] validLabel_no_sep by (fastforce simp: list_all_iff)
  with ls Join_two show ?R by auto
next
  assume ?R then show "slashed h" unfolding slashed_def by (metis Join_Split)
qed

lemma dotted_Split:
  "dotted h \<longleftrightarrow> CHR ''/'' \<notin> set h \<and> length (Split (CHR ''.'') h) \<le> 3 \<and> list_all validLabel (Split (CHR ''.'') h)"
  (is "_ \<longleftrightarrow> ?R")
proof
  assume "dotted h"
  then obtain ls where ls: "1 \<le> length ls" "length ls \<le> 3" "list_all validLabel ls" "h = Join ''.'' ls"
    by (auto simp: dotted_def)
  then have "Split (CHR ''.'') h = ls"
    using Split_Join [of ls "CHR ''.''"] validLabel_no_sep by (fastforce simp: list_all_iff)
  with ls Join_dot_no_slash show ?R by auto
next
  assume R: ?R
  then have "1 \<le> length (Split (CHR ''.'') h)" by (simp add: Suc_le_eq)
  with R show "dotted h" unfolding dotted_def by (metis Join_Split)
qed

lemma normalizeHostname_Inr:
  "normalizeHostname L t = Inr h \<longleftrightarrow>
     TrimSuffix t ''.'' \<noteq> [] \<and> ascii (TrimSuffix t ''.'') \<and> h = map lower_ascii (TrimSuffix t ''.'')"
proof -
  have a: "ascii s \<longleftrightarrow> \<not> (\<exists>c\<in>set s. 0x7F < (of_char c :: nat))" for s
    by (auto simp: ascii_def not_less)
  have "TrimSuffix [] ''.'' = []" by (simp add: TrimSuffix_def HasSuffix_def)
  then show ?thesis
    unfolding normalizeHostname_def Let_def ToLower_def using a by auto
qed

lemma ParseBareTarget_Inr:
  "ParseBareTarget L t = Inr r \<longleftrightarrow>
     (\<exists>h. normalizeHostname L t = Inr h \<and> length h \<le> 253 \<and> (dotted h \<or> slashed h) \<and> r = accepted_route t h)"
  unfolding ParseBareTarget_def slashed_Split dotted_Split
  by (auto simp: Let_def maxHostnameBytes_def maxRouteLabels_def split: sum.splits)

text \<open>Every byte of an accepted host, and its first and last byte.\<close>

lemma accepted_host_bytes:
  assumes "dotted h \<or> slashed h" "c \<in> set h"
  shows "label_byte c \<or> c = CHR ''.'' \<or> c = CHR ''/''"
proof -
  obtain ls sep where ls: "list_all validLabel ls" "h = Join sep ls" "sep = ''.'' \<or> sep = ''/''"
    using assms(1) by (auto simp: dotted_def slashed_def)
  then have "c \<in> (\<Union>l\<in>set ls. set l) \<or> c \<in> set sep"
    using set_Join [of sep ls] assms(2) by blast
  with ls show ?thesis
    using validLabel_bytes by (auto simp: list_all_iff)
qed

lemma accepted_host_ends:
  assumes "dotted h \<or> slashed h"
  shows "h \<noteq> []" "hd h \<noteq> CHR ''-''" "last h \<noteq> CHR ''.''"
proof -
  obtain ls sep where ls: "ls \<noteq> []" "list_all validLabel ls" "h = Join sep ls"
    using assms unfolding dotted_def slashed_def by (metis list.size(3) not_one_le_zero not_numeral_le_zero)
  then have v: "validLabel (hd ls)" "validLabel (last ls)"
    by (auto simp: list_all_iff)
  then have ne: "hd ls \<noteq> []" "last ls \<noteq> []" by (auto dest: validLabel_ne)
  from ne(2) ls(1,3) show "h \<noteq> []" using last_Join by simp
  from v(1) ne(1) ls(1,3) show "hd h \<noteq> CHR ''-''"
    using hd_Join by (auto simp: validLabel_def split: if_splits)
  from validLabel_bytes [OF v(2)] ne(2) ls(1,3) show "last h \<noteq> CHR ''.''"
    using last_Join label_byte_props(1) by (metis last_in_set)
qed

lemma normalize_accepted:
  assumes "dotted h \<or> slashed h"
  shows "normalizeHostname L h = Inr h"
proof -
  have "\<not> HasSuffix h ''.''"
    using accepted_host_ends(3) [OF assms] by (auto simp: HasSuffix_iff)
  moreover have "ascii h"
    using accepted_host_bytes [OF assms] label_byte_props(3) by (fastforce simp: ascii_def)
  moreover have "map lower_ascii h = h"
    using accepted_host_bytes [OF assms] label_byte_props(4)
    by (intro map_idI) (fastforce simp: lower_ascii_def less_eq_char_def)
  ultimately show ?thesis
    using accepted_host_ends(1) [OF assms] by (simp add: normalizeHostname_Inr TrimSuffix_id)
qed

lemma validLabel_length: "validLabel l \<Longrightarrow> length l \<le> 63"
  by (auto simp: validLabel_def maxLabelBytes_def split: if_splits)


lemma ParseDirectTCPIP_Inr:
  "ParseDirectTCPIP L t p = Inr r \<longleftrightarrow> p = 22 \<and> (\<exists>q. ParseBareTarget L t = Inr q \<and> r = q\<lparr>RequestedPort := p\<rparr>)"
  unfolding ParseDirectTCPIP_def by (auto split: sum.splits)

section \<open>Properties\<close>


text \<open>An accepted workspace host is canonical and safe to hand to a command line: it is not empty, does
  not begin with a dash, has only lower-case letters, digits, dashes, dots and slashes, and parsing it again
  gives the same workspace host, so the normal form is reached in one step.\<close>

theorem accepted_host_canonical:
  assumes "ParseDirectTCPIP L host port = Inr r"
  shows "WorkspaceHost r \<noteq> [] \<and> hd (WorkspaceHost r) \<noteq> CHR ''-''
    \<and> (\<forall>c\<in>set (WorkspaceHost r). label_byte c \<or> c = CHR ''.'' \<or> c = CHR ''/'')
    \<and> ParseDirectTCPIP L (WorkspaceHost r) 22 = Inr (r\<lparr>RequestedHost := WorkspaceHost r\<rparr>)"
proof -
  obtain h where h: "length h \<le> 253" "dotted h \<or> slashed h" and port: "port = 22"
    and r: "r = (accepted_route host h)\<lparr>RequestedPort := 22\<rparr>"
    using assms unfolding ParseDirectTCPIP_Inr ParseBareTarget_Inr by auto
  have w: "WorkspaceHost r = h" by (simp add: r accepted_route_def)
  have "ParseBareTarget L h = Inr (accepted_route h h)"
    using h normalize_accepted by (auto simp: ParseBareTarget_Inr)
  then have "ParseDirectTCPIP L h 22 = Inr (r\<lparr>RequestedHost := h\<rparr>)"
    by (simp add: ParseDirectTCPIP_def r accepted_route_def)
  with accepted_host_ends [OF h(2)] accepted_host_bytes [OF h(2)] show ?thesis unfolding w by blast
qed

theorem accepted_host_canonical_witness:
  "ParseDirectTCPIP demo_lib ''Alice/Dev.'' 22 =
     Inr \<lparr>RequestedHost = ''Alice/Dev.'', RequestedPort = 22, WorkspaceHost = ''alice/dev'', DisplayTarget = ''alice/dev''\<rparr>
   \<and> ParseDirectTCPIP demo_lib ''alice/dev'' 22 =
     Inr \<lparr>RequestedHost = ''alice/dev'', RequestedPort = 22, WorkspaceHost = ''alice/dev'', DisplayTarget = ''alice/dev''\<rparr>"
proof -
  have p: "ParseDirectTCPIP demo_lib ''Alice/Dev.'' 22 =
     Inr \<lparr>RequestedHost = ''Alice/Dev.'', RequestedPort = 22, WorkspaceHost = ''alice/dev'', DisplayTarget = ''alice/dev''\<rparr>"
    by code_simp
  show ?thesis using accepted_host_canonical [OF p] p by simp
qed

text \<open>Every rejection carries one of the three route codes, and the code tells the reason: a port other
  than 22 is denied before the name is looked at, an empty name is an invalid payload, and any other
  rejected name is an invalid name.\<close>

theorem rejection_codes:
  "(\<exists>e. ParseDirectTCPIP L host port = Inl e \<and> rerr_Code e =
      (if port \<noteq> 22 then ROUTE_PORT_DENIED
       else if TrimSuffix host ''.'' = [] then ROUTE_INVALID_PAYLOAD else ROUTE_NAME_INVALID))
   \<or> (\<exists>r. ParseDirectTCPIP L host port = Inr r)"
proof -
  have "TrimSuffix [] ''.'' = []" by (simp add: TrimSuffix_def HasSuffix_def)
  then show ?thesis
    unfolding ParseDirectTCPIP_def ParseBareTarget_def normalizeHostname_def
    by (auto simp: Let_def newError_def)
qed

end
