(* ===== verification/Channels.thy ===== *)
theory Channels
  imports SshAuth Limits Route
begin

text \<open>
  \<open>internal/server/channels.go\<close> and \<open>global_requests.go\<close>: the admission of channels on an authenticated workspace
  connection. A handler is a computation on the server as it sees it: the gateway of \<open>SshAuth\<close>, the admission
  counters, the transport of the connection and the trace of its effects in their order. Handlers of other channels
  and connections run concurrently: before every call on the counters an arbitrary sequence of counter calls of
  others takes place, as before every call of the store. The transport is read once by a handler, under its lock, so
  the value at that moment is the one the handler starts with. Logging and the wiping of token buffers are left out. The process behind a
  transport or a tunnel is a parameter, and so is the decoding of an SSH payload.
\<close>

section \<open>State\<close>

datatype reject_reason = Prohibited | ConnectionFailed | UnknownChannelType | ResourceShortage

record channelEvent =
  ce_ConnectionID :: string
  ce_DeploymentID :: "uuid option"
  ce_AccountID :: uuid
  ce_SSHKeyID :: uuid
  ce_Result :: bool
  ce_PeerAddress :: string
  ce_Target :: string
  ce_CredentialGeneration :: int64
  ce_EventDetail :: string

text \<open>\<open>startErrorCode\<close> reads the code of a \<open>StartError\<close>.\<close>

datatype start_error = StartError string | OtherStartError

definition startErrorCode :: "start_error \<Rightarrow> string" where
  "startErrorCode err = (case err of StartError code \<Rightarrow> code | OtherStartError \<Rightarrow> TUNNEL_PROCESS_START_FAILED)"

text \<open>The two error types a transport can fail with, with their detail codes.\<close>

datatype transport_failure = TransportError string | CredentialValidationError string

datatype effect =
    Reject reject_reason string | Accept | CloseChannel | ExitStatus string nat | CloseConn
  | ChannelRejected | ChannelAccepted | ChannelClosed | LimitRejection string | Audited channelEvent
  | SpawnTransport string CredentialSnapshot | CloseTransport | StartTunnel Route CredentialSnapshot
  | BridgeSession "transport_failure option" | RelayChannel | Reply bool | RelayRequest string
  | ConnectionOpened | ConnectionClosed string | CloseRaw | AuthDuration bool | CloseServerConn | Console bytes

datatype slot = SlotChannel string | SlotAccount uuid | SlotProcess
  | SlotGlobal | SlotIP string | SlotHandshake | SlotKeyConn uuid | SlotAccountConn uuid

record server =
  sx_gw :: gateway
  sx_counters :: Counters
  sx_calls :: nat
  sx_slots :: "(slot \<times> nat) list"
  sx_transport :: "nat option"
  sx_active :: int
  sx_conns :: "string list"
  sx_trace :: "effect list"

text \<open>\<open>sx_slots\<close> lists the release closures the handlers were given; \<open>sx_transport\<close> is the transport of the connection,
  represented by the closure that frees its process slot; \<open>sx_conns\<close> lists the identifiers of the tracked connections. The
  slots and effects of a whole connection are used in \<open>Server\<close>.\<close>

record directTCPIPRequest =
  DestinationAddress :: string
  DestinationPort :: uint32
  OriginatorAddress :: string
  OriginatorPort :: uint32

record surroundings =
  su_world :: world
  su_Unmarshal :: "bytes \<Rightarrow> directTCPIPRequest option"
  su_NewTransport :: "nat \<Rightarrow> string \<Rightarrow> CredentialSnapshot \<Rightarrow> start_error + unit"
  su_Start :: "Route \<Rightarrow> CredentialSnapshot \<Rightarrow> bool"
  su_Bridge :: "nat \<Rightarrow> bool"
  su_counters :: "nat \<Rightarrow> counters_op list"

record srvConfig =
  sc_Audit :: bool
  sc_WorkspaceTransports :: bool
  sc_CacheTTL :: int
  sc_draining :: bool

record newChannel =
  nc_type :: string
  nc_extra :: bytes
  nc_acceptErr :: bool

record workspaceContext =
  wc_perms :: FinalPerms
  wc_target :: string

type_synonym 'a srvm = "(server, auth_error, 'a) sr"

section \<open>Small steps\<close>

definition emit :: "effect \<Rightarrow> unit srvm" where
  "emit e = (\<lambda>s. (Inr (), s\<lparr>sx_trace := sx_trace s @ [e]\<rparr>))"

definition on_gateway :: "'a authm \<Rightarrow> 'a srvm" where
  "on_gateway m = (\<lambda>s. case m (sx_gw s) of (r, g) \<Rightarrow> (r, s\<lparr>sx_gw := g\<rparr>))"

text \<open>A statement deferred before the rest of a handler runs after it, however the rest ends.\<close>

definition deferred :: "unit srvm \<Rightarrow> 'a srvm \<Rightarrow> 'a srvm" where
  "deferred d m = (\<lambda>s. case m s of (r, t) \<Rightarrow> (r, snd (d t)))"

definition counter_call :: "surroundings \<Rightarrow> (Counters \<Rightarrow> 'a \<times> Counters) \<Rightarrow> 'a srvm" where
  "counter_call X f = (\<lambda>s. case f (fold counters_step (su_counters X (sx_calls s)) (sx_counters s)) of
     (r, c) \<Rightarrow> (Inr r, s\<lparr>sx_counters := c, sx_calls := Suc (sx_calls s)\<rparr>))"

fun slot_acquire :: "slot \<Rightarrow> Counters \<Rightarrow> nat option \<times> Counters" where
  "slot_acquire (SlotChannel i) c = AcquireChannel i c"
| "slot_acquire (SlotAccount a) c = AcquireChannelAccount a c"
| "slot_acquire SlotProcess c = AcquireCoderProcess c"
| "slot_acquire SlotGlobal c = AcquireGlobal c"
| "slot_acquire (SlotIP ip) c = AcquireIP ip c"
| "slot_acquire SlotHandshake c = AcquireHandshake c"
| "slot_acquire (SlotKeyConn k) c = AcquireKey k c"
| "slot_acquire (SlotAccountConn a) c = AcquireAccount a c"

fun slot_release :: "slot \<Rightarrow> nat \<Rightarrow> Counters \<Rightarrow> Counters" where
  "slot_release (SlotChannel i) t c = releaseChannel t c"
| "slot_release (SlotAccount a) t c = releaseChannelAccount t c"
| "slot_release SlotProcess t c = releaseCoderProcess t c"
| "slot_release SlotGlobal t c = releaseGlobal t c"
| "slot_release (SlotIP ip) t c = releaseIP t c"
| "slot_release SlotHandshake t c = releaseHandshake t c"
| "slot_release (SlotKeyConn k) t c = releaseKey t c"
| "slot_release (SlotAccountConn a) t c = releaseAccount t c"

definition acquire :: "surroundings \<Rightarrow> slot \<Rightarrow> nat option srvm" where
  "acquire X sl = bnd (counter_call X (slot_acquire sl)) (\<lambda>r. case r of
     None \<Rightarrow> ret None
   | Some t \<Rightarrow> (\<lambda>s. (Inr (Some t), s\<lparr>sx_slots := sx_slots s @ [(sl, t)]\<rparr>)))"

definition release :: "surroundings \<Rightarrow> slot \<Rightarrow> nat \<Rightarrow> unit srvm" where
  "release X sl t = counter_call X (\<lambda>c. ((), slot_release sl t c))"

definition ReasonChannelConn :: string where "ReasonChannelConn = ''channel_conn''"
definition ReasonChannelAccount :: string where "ReasonChannelAccount = ''channel_account''"
definition ReasonCoderProcess :: string where "ReasonCoderProcess = ''coder_process''"

definition connID :: "string srvm" where
  "connID = gets (\<lambda>s. cs_id (gw_conn (sx_gw s)))"

definition add_active :: "int \<Rightarrow> unit srvm" where
  "add_active d = (\<lambda>s. (Inr (), s\<lparr>sx_active := sx_active s + d\<rparr>))"

definition state_Close :: "unit srvm" where
  "state_Close = bnd (on_gateway (on_conn ConnState_Close)) (\<lambda>_. emit CloseConn)"

definition reject_open :: "reject_reason \<Rightarrow> string \<Rightarrow> unit srvm" where
  "reject_open reason msg = bnd (emit ChannelRejected) (\<lambda>_. emit (Reject reason msg))"

definition auditChannelOpen :: "srvConfig \<Rightarrow> FinalPerms \<Rightarrow> string \<Rightarrow> bool \<Rightarrow> string \<Rightarrow> unit srvm" where
  "auditChannelOpen C perms target success detail =
     (if \<not> sc_Audit C then ret ()
      else bnd (gets (\<lambda>s. gw_conn (sx_gw s))) (\<lambda>st. emit (Audited
        \<lparr>ce_ConnectionID = cs_id st, ce_DeploymentID = non_nil (fp_DeploymentID perms), ce_AccountID = fp_AccountID perms,
         ce_SSHKeyID = fp_SSHKeyID perms, ce_Result = success, ce_PeerAddress = cs_peerAddr st, ce_Target = target,
         ce_CredentialGeneration = fp_CredentialGeneration perms, ce_EventDetail = detail\<rparr>)))"

definition rejectChannelLimit :: "srvConfig \<Rightarrow> FinalPerms \<Rightarrow> unit srvm" where
  "rejectChannelLimit C perms =
     bnd (emit ChannelRejected) (\<lambda>_.
     bnd (auditChannelOpen C perms [] False TUNNEL_LIMIT_REACHED) (\<lambda>_.
     emit (Reject ResourceShortage ''channel limit reached'')))"

definition limit_rejected :: "srvConfig \<Rightarrow> FinalPerms \<Rightarrow> string \<Rightarrow> unit srvm" where
  "limit_rejected C perms reason = bnd (emit (LimitRejection reason)) (\<lambda>_. rejectChannelLimit C perms)"

definition rejectUnsupportedChannel :: "unit srvm" where
  "rejectUnsupportedChannel = reject_open UnknownChannelType ''unsupported channel type''"

section \<open>Credentials at channel open\<close>

text \<open>\<open>time.Since\<close> saturates at the ends of \<open>time.Duration\<close>; a snapshot that was never validated carries the zero
  time. The clock is in nanoseconds since 1970, the snapshot in milliseconds.\<close>

definition maxDuration :: int where "maxDuration = 2 ^ 63 - 1"

definition validation_stale :: "int \<Rightarrow> int \<Rightarrow> CredentialSnapshot \<Rightarrow> bool" where
  "validation_stale ttl now snap = (case snap_LastValidatedAt snap of
     None \<Rightarrow> ttl < maxDuration
   | Some ms \<Rightarrow> ttl < max (- maxDuration - 1) (min maxDuration (now - ms * 1000000)))"

definition load_credential :: "surroundings \<Rightarrow> FinalPerms \<Rightarrow> (serror + CredentialSnapshot) srvm" where
  "load_credential X perms = on_gateway (bnd ctx_done (\<lambda>done.
     store_call (su_world X) (LoadCredential (wo_env (su_world X)) done (fp_AccountID perms))))"

text \<open>The revalidation of a snapshot whose validation is older than the lifetime of the cache.\<close>

definition revalidate :: "surroundings \<Rightarrow> srvConfig \<Rightarrow> FinalPerms \<Rightarrow> CredentialSnapshot \<Rightarrow> (verify_error + CredentialSnapshot) srvm" where
  "revalidate X C perms snap =
     bnd (on_gateway (clock (su_world X))) (\<lambda>now.
     if validation_stale (sc_CacheTTL C) now snap then
       bnd (on_gateway (cached_call (su_world X) (fp_AccountID perms) (snap_Generation snap) (snap_Token snap))) (\<lambda>v.
       case v of
         Inl err \<Rightarrow> ret (Inl err)
       | Inr _ \<Rightarrow> bnd (on_gateway (clock (su_world X))) (\<lambda>now. ret (Inr (snap\<lparr>snap_LastValidatedAt := Some (now div 1000000)\<rparr>))))
     else ret (Inr snap))"

definition snapshot_unusable :: "CredentialSnapshot \<Rightarrow> bool" where
  "snapshot_unusable snap \<longleftrightarrow> snap_State snap = CredentialStateInvalid \<or> snap_State snap = CredentialStateMissing"

definition unusable_detail :: "CredentialSnapshot \<Rightarrow> string" where
  "unusable_detail snap = (if snap_State snap = CredentialStateMissing then AUTH_CREDENTIAL_MISSING else AUTH_CREDENTIAL_UNAUTHORIZED)"

definition revalidation_detail :: "verify_error \<Rightarrow> string" where
  "revalidation_detail err = (case err of
     CredErr ce \<Rightarrow> if ce_DetailCode ce \<noteq> [] then ce_DetailCode ce else AUTH_CREDENTIAL_UNAUTHORIZED
   | OtherErr _ \<Rightarrow> AUTH_CREDENTIAL_UNAUTHORIZED)"

definition rejectOnRevalidationFailure :: "srvConfig \<Rightarrow> FinalPerms \<Rightarrow> Route \<Rightarrow> verify_error \<Rightarrow> unit srvm" where
  "rejectOnRevalidationFailure C perms rt err =
     (if KindOf err = Some ControlPlaneUnavailable then
        bnd (emit ChannelRejected) (\<lambda>_.
        bnd (auditChannelOpen C perms (DisplayTarget rt) False AUTH_CODER_UNAVAILABLE) (\<lambda>_.
        emit (Reject ConnectionFailed ''coder control plane unavailable'')))
      else
        bnd (emit ChannelRejected) (\<lambda>_.
        bnd (auditChannelOpen C perms (DisplayTarget rt) False (revalidation_detail err)) (\<lambda>_.
        bnd (emit (Reject Prohibited ''credential no longer valid; reconnect'')) (\<lambda>_.
        state_Close))))"

text \<open>\<open>loadValidatedCredential\<close> (global\_requests.go).\<close>

definition loadValidatedCredential :: "surroundings \<Rightarrow> srvConfig \<Rightarrow> FinalPerms \<Rightarrow> (transport_failure + CredentialSnapshot) srvm" where
  "loadValidatedCredential X C perms =
     bnd (load_credential X perms) (\<lambda>r.
     case r of
       Inl _ \<Rightarrow> ret (Inl (CredentialValidationError STORE_UNAVAILABLE))
     | Inr snap \<Rightarrow>
         if snapshot_unusable snap \<or> length (snap_Token snap) = 0
         then ret (Inl (CredentialValidationError (unusable_detail snap)))
         else
         bnd (revalidate X C perms snap) (\<lambda>v.
         case v of
           Inl err \<Rightarrow> ret (Inl (CredentialValidationError
             (if KindOf err = Some ControlPlaneUnavailable then AUTH_CODER_UNAVAILABLE else revalidation_detail err)))
         | Inr snap \<Rightarrow> ret (Inr snap)))"

section \<open>The transport of a connection\<close>

definition createLocked :: "surroundings \<Rightarrow> workspaceContext \<Rightarrow> CredentialSnapshot \<Rightarrow> (transport_failure + unit) srvm" where
  "createLocked X wc snap =
     bnd (acquire X SlotProcess) (\<lambda>r.
     case r of
       None \<Rightarrow> bnd (emit (LimitRejection ReasonCoderProcess)) (\<lambda>_. ret (Inl (TransportError TUNNEL_LIMIT_REACHED)))
     | Some t \<Rightarrow>
         bnd (emit (SpawnTransport (wc_target wc) snap)) (\<lambda>_.
         bnd (gets sx_calls) (\<lambda>n.
         case su_NewTransport X n (wc_target wc) snap of
           Inl err \<Rightarrow> bnd (release X SlotProcess t) (\<lambda>_. ret (Inl (TransportError (startErrorCode err))))
         | Inr _ \<Rightarrow> (\<lambda>s. (Inr (Inr ()), s\<lparr>sx_transport := Some t\<rparr>)))))"

definition bindTransport :: "surroundings \<Rightarrow> workspaceContext \<Rightarrow> CredentialSnapshot \<Rightarrow> (transport_failure + unit) srvm" where
  "bindTransport X wc snap =
     bnd (gets sx_transport) (\<lambda>tr. if tr \<noteq> None then ret (Inr ()) else createLocked X wc snap)"

definition transport :: "surroundings \<Rightarrow> srvConfig \<Rightarrow> workspaceContext \<Rightarrow> (transport_failure + unit) srvm" where
  "transport X C wc =
     bnd (gets sx_transport) (\<lambda>tr.
     if tr \<noteq> None then ret (Inr ())
     else
     bnd (loadValidatedCredential X C (wc_perms wc)) (\<lambda>v.
     case v of Inl verr \<Rightarrow> ret (Inl verr) | Inr snap \<Rightarrow> createLocked X wc snap))"

definition wc_close :: "surroundings \<Rightarrow> unit srvm" where
  "wc_close X =
     bnd (gets sx_transport) (\<lambda>tr.
     case tr of
       None \<Rightarrow> ret ()
     | Some t \<Rightarrow>
         bnd (\<lambda>s. (Inr (), s\<lparr>sx_transport := None\<rparr>)) (\<lambda>_.
         bnd (emit CloseTransport) (\<lambda>_. release X SlotProcess t)))"

definition rejectTransportFailure :: "srvConfig \<Rightarrow> FinalPerms \<Rightarrow> transport_failure \<Rightarrow> unit srvm" where
  "rejectTransportFailure C perms err =
     (case err of
        CredentialValidationError _ \<Rightarrow> reject_open ConnectionFailed ''workspace is unavailable''
      | TransportError detail \<Rightarrow>
          if detail = STORE_UNAVAILABLE then
            bnd (emit ChannelRejected) (\<lambda>_.
            bnd (auditChannelOpen C perms [] False STORE_UNAVAILABLE) (\<lambda>_.
            emit (Reject ConnectionFailed ''credential store unavailable'')))
          else if detail = AUTH_CODER_UNAVAILABLE then
            bnd (emit ChannelRejected) (\<lambda>_.
            bnd (auditChannelOpen C perms [] False AUTH_CODER_UNAVAILABLE) (\<lambda>_.
            emit (Reject ConnectionFailed ''coder control plane unavailable'')))
          else
            bnd (emit ChannelRejected) (\<lambda>_.
            bnd (auditChannelOpen C perms [] False detail) (\<lambda>_.
            bnd (emit (Reject Prohibited ''credential no longer valid; reconnect'')) (\<lambda>_.
            state_Close))))"

section \<open>Admission\<close>

text \<open>An accepted channel counts as active until its handler returns.\<close>

definition while_active :: "unit srvm \<Rightarrow> unit srvm" where
  "while_active m =
     bnd (emit ChannelAccepted) (\<lambda>_.
     bnd (add_active 1) (\<lambda>_.
     deferred (add_active (- 1)) (deferred (emit ChannelClosed) m)))"

text \<open>The channel and account slots, held until the handler returns (session and relay).\<close>

definition with_channel_slots :: "surroundings \<Rightarrow> srvConfig \<Rightarrow> FinalPerms \<Rightarrow> unit srvm \<Rightarrow> unit srvm" where
  "with_channel_slots X C perms m =
     bnd connID (\<lambda>i.
     bnd (acquire X (SlotChannel i)) (\<lambda>r.
     case r of
       None \<Rightarrow> limit_rejected C perms ReasonChannelConn
     | Some t \<Rightarrow> deferred (release X (SlotChannel i) t) (
         bnd (acquire X (SlotAccount (fp_AccountID perms))) (\<lambda>r.
         case r of
           None \<Rightarrow> limit_rejected C perms ReasonChannelAccount
         | Some u \<Rightarrow> deferred (release X (SlotAccount (fp_AccountID perms)) u) m))))"

definition store_rejected :: "srvConfig \<Rightarrow> FinalPerms \<Rightarrow> Route \<Rightarrow> unit srvm" where
  "store_rejected C perms rt =
     bnd (emit ChannelRejected) (\<lambda>_.
     bnd (auditChannelOpen C perms (DisplayTarget rt) False STORE_UNAVAILABLE) (\<lambda>_.
     emit (Reject ConnectionFailed ''credential store unavailable'')))"

text \<open>The session once its slots are held. The transport start runs beside the early requests of the client; here it
  comes first.\<close>

definition bridge_session :: "surroundings \<Rightarrow> workspaceContext \<Rightarrow> CredentialSnapshot \<Rightarrow> unit srvm" where
  "bridge_session X wc snap =
     bnd (bindTransport X wc snap) (\<lambda>tr.
     case tr of
       Inl err \<Rightarrow> bnd (emit (BridgeSession (Some err))) (\<lambda>_. emit CloseChannel)
     | Inr _ \<Rightarrow> bnd (emit (BridgeSession None)) (\<lambda>_. bnd (gets sx_calls) (\<lambda>n. if su_Bridge X n then ret () else emit CloseChannel)))"

definition session_with_slots :: "surroundings \<Rightarrow> srvConfig \<Rightarrow> workspaceContext \<Rightarrow> newChannel \<Rightarrow> Route \<Rightarrow> unit srvm" where
  "session_with_slots X C wc newCh rt =
     (let perms = wc_perms wc in
      bnd (load_credential X perms) (\<lambda>r.
      case r of
        Inl _ \<Rightarrow> store_rejected C perms rt
      | Inr snap \<Rightarrow>
          if snapshot_unusable snap \<or> length (snap_Token snap) = 0 then
            bnd state_Close (\<lambda>_.
            bnd (emit ChannelRejected) (\<lambda>_.
            bnd (auditChannelOpen C perms (DisplayTarget rt) False (unusable_detail snap)) (\<lambda>_.
            emit (Reject Prohibited ''credential no longer valid; reconnect''))))
          else
          bnd (revalidate X C perms snap) (\<lambda>v.
          case v of
            Inl err \<Rightarrow> rejectOnRevalidationFailure C perms rt err
          | Inr snap \<Rightarrow>
              if nc_acceptErr newCh then ret ()
              else
              bnd (emit Accept) (\<lambda>_.
              while_active (
                bnd (auditChannelOpen C perms (DisplayTarget rt) True []) (\<lambda>_. bridge_session X wc snap))))))"

definition admitWorkspaceSession :: "surroundings \<Rightarrow> srvConfig \<Rightarrow> workspaceContext \<Rightarrow> newChannel \<Rightarrow> unit srvm" where
  "admitWorkspaceSession X C wc newCh =
     (let perms = wc_perms wc in
      if fp_MustReconnect perms then reject_open Prohibited ''reconnect required''
      else
      case ParseBareTarget (env_lib (wo_env (su_world X))) (wc_target wc) of
        Inl err \<Rightarrow>
          bnd (if nc_acceptErr newCh then ret ()
               else bnd (emit Accept) (\<lambda>_.
               bnd (emit (ExitStatus (''workspace target is invalid or unavailable'' @ [CHR 0x0D, CHR 0x0A]) 255)) (\<lambda>_.
               emit CloseChannel))) (\<lambda>_.
          bnd (emit ChannelRejected) (\<lambda>_.
          auditChannelOpen C perms [] False (rerr_Code err)))
      | Inr rt \<Rightarrow> with_channel_slots X C perms (session_with_slots X C wc newCh rt))"

definition jump_with_slots :: "surroundings \<Rightarrow> srvConfig \<Rightarrow> workspaceContext \<Rightarrow> newChannel \<Rightarrow> Route \<Rightarrow> unit srvm" where
  "jump_with_slots X C wc newCh rt =
     (let perms = wc_perms wc in
      bnd (load_credential X perms) (\<lambda>r.
      case r of
        Inl _ \<Rightarrow> store_rejected C perms rt
      | Inr snap \<Rightarrow>
          if snapshot_unusable snap then
            bnd (emit ChannelRejected) (\<lambda>_.
            bnd (auditChannelOpen C perms (DisplayTarget rt) False (unusable_detail snap)) (\<lambda>_.
            bnd (emit (Reject Prohibited ''credential no longer valid; reconnect'')) (\<lambda>_.
            state_Close)))
          else
          bnd (revalidate X C perms snap) (\<lambda>v.
          case v of
            Inl err \<Rightarrow> rejectOnRevalidationFailure C perms rt err
          | Inr snap \<Rightarrow>
              if nc_acceptErr newCh then ret ()
              else
              bnd (emit Accept) (\<lambda>_.
              while_active (
                bnd (auditChannelOpen C perms (DisplayTarget rt) True []) (\<lambda>_.
                bnd (emit (StartTunnel rt snap)) (\<lambda>_.
                if su_Start X rt snap then ret () else emit CloseChannel)))))))"

definition startJumpTunnel :: "surroundings \<Rightarrow> srvConfig \<Rightarrow> workspaceContext \<Rightarrow> newChannel \<Rightarrow> Route \<Rightarrow> unit srvm" where
  "startJumpTunnel X C wc newCh rt =
     (let perms = wc_perms wc; a = fp_AccountID perms in
      bnd connID (\<lambda>i.
      bnd (acquire X (SlotChannel i)) (\<lambda>r.
      case r of
        None \<Rightarrow> limit_rejected C perms ReasonChannelConn
      | Some t \<Rightarrow>
          bnd (acquire X (SlotAccount a)) (\<lambda>r.
          case r of
            None \<Rightarrow>
              bnd (emit (LimitRejection ReasonChannelAccount)) (\<lambda>_.
              bnd (release X (SlotChannel i) t) (\<lambda>_.
              rejectChannelLimit C perms))
          | Some u \<Rightarrow>
              bnd (acquire X SlotProcess) (\<lambda>r.
              case r of
                None \<Rightarrow>
                  bnd (emit (LimitRejection ReasonCoderProcess)) (\<lambda>_.
                  bnd (release X (SlotAccount a) u) (\<lambda>_.
                  bnd (release X (SlotChannel i) t) (\<lambda>_.
                  rejectChannelLimit C perms)))
              | Some p \<Rightarrow>
                  deferred (release X SlotProcess p) (
                  deferred (release X (SlotAccount a) u) (
                  deferred (release X (SlotChannel i) t) (
                  jump_with_slots X C wc newCh rt))))))))"

definition relayDirectTCPIP :: "surroundings \<Rightarrow> srvConfig \<Rightarrow> workspaceContext \<Rightarrow> unit srvm" where
  "relayDirectTCPIP X C wc =
     (let perms = wc_perms wc in
      if \<not> sc_WorkspaceTransports C then
        bnd (emit ChannelRejected) (\<lambda>_.
        bnd (auditChannelOpen C perms [] False TUNNEL_PROCESS_START_FAILED) (\<lambda>_.
        emit (Reject Prohibited ''port forwarding unavailable'')))
      else
      with_channel_slots X C perms (
        bnd (transport X C wc) (\<lambda>tr.
        case tr of
          Inl err \<Rightarrow> rejectTransportFailure C perms err
        | Inr _ \<Rightarrow>
            while_active (
              bnd (auditChannelOpen C perms [] True []) (\<lambda>_. emit RelayChannel)))))"

definition admitDirectTCPIP :: "surroundings \<Rightarrow> srvConfig \<Rightarrow> workspaceContext \<Rightarrow> newChannel \<Rightarrow> unit srvm" where
  "admitDirectTCPIP X C wc newCh =
     (let perms = wc_perms wc in
      if sc_draining C then reject_open Prohibited ''server is shutting down''
      else if fp_MustReconnect perms then reject_open Prohibited ''reconnect required''
      else
      case su_Unmarshal X (nc_extra newCh) of
        None \<Rightarrow>
          bnd (emit ChannelRejected) (\<lambda>_.
          bnd (auditChannelOpen C perms [] False ROUTE_INVALID_PAYLOAD) (\<lambda>_.
          emit (Reject Prohibited ''invalid direct-tcpip payload'')))
      | Some req \<Rightarrow>
          (case ParseDirectTCPIP (env_lib (wo_env (su_world X))) (DestinationAddress req) (DestinationPort req) of
             Inr rt \<Rightarrow> startJumpTunnel X C wc newCh rt
           | Inl _ \<Rightarrow> relayDirectTCPIP X C wc))"

definition handle_channel :: "surroundings \<Rightarrow> srvConfig \<Rightarrow> workspaceContext \<Rightarrow> newChannel \<Rightarrow> unit srvm" where
  "handle_channel X C wc newCh =
     (if nc_type newCh = ''session'' then
        (if \<not> sc_WorkspaceTransports C then reject_open Prohibited ''no workspace transport available''
         else if sc_draining C then reject_open Prohibited ''server is shutting down''
         else admitWorkspaceSession X C wc newCh)
      else if nc_type newCh = ''direct-tcpip'' then admitDirectTCPIP X C wc newCh
      else rejectUnsupportedChannel)"

text \<open>The handlers of the dispatch loop are goroutines; what their siblings do is part of what others do.\<close>

primrec handle_channels :: "surroundings \<Rightarrow> srvConfig \<Rightarrow> workspaceContext \<Rightarrow> newChannel list \<Rightarrow> unit srvm" where
  "handle_channels X C wc [] = ret ()"
| "handle_channels X C wc (newCh # chs) = bnd (handle_channel X C wc newCh) (\<lambda>_. handle_channels X C wc chs)"

definition dispatchWorkspaceChannels :: "surroundings \<Rightarrow> srvConfig \<Rightarrow> workspaceContext \<Rightarrow> newChannel list \<Rightarrow> unit srvm" where
  "dispatchWorkspaceChannels X C wc chs = deferred (wc_close X) (handle_channels X C wc chs)"

section \<open>Global requests (global\_requests.go)\<close>

record request =
  rq_Type :: string
  rq_WantReply :: bool
  rq_Payload :: bytes

definition reply :: "request \<Rightarrow> bool \<Rightarrow> unit srvm" where
  "reply req ok = (if rq_WantReply req then emit (Reply ok) else ret ())"

text \<open>\<open>answer\<close> is what the workspace replies to the relayed request.\<close>

definition relayForwardRequest :: "surroundings \<Rightarrow> srvConfig \<Rightarrow> workspaceContext \<Rightarrow> (request \<Rightarrow> bool) \<Rightarrow> request \<Rightarrow> unit srvm" where
  "relayForwardRequest X C wc answer req =
     (if \<not> sc_WorkspaceTransports C then reply req False
      else if sc_draining C \<or> fp_MustReconnect (wc_perms wc) then reply req False
      else
      bnd (gets sx_transport) (\<lambda>tr.
      if tr = None \<and> rq_Type req = ''tcpip-forward'' then
        bnd (transport X C wc) (\<lambda>r.
        case r of
          Inl _ \<Rightarrow> reply req False
        | Inr _ \<Rightarrow> bnd (emit (RelayRequest (rq_Type req))) (\<lambda>_. reply req (answer req)))
      else if tr = None then reply req True
      else bnd (emit (RelayRequest (rq_Type req))) (\<lambda>_. reply req (answer req))))"

definition handleGlobalRequest :: "surroundings \<Rightarrow> srvConfig \<Rightarrow> workspaceContext \<Rightarrow> (request \<Rightarrow> bool) \<Rightarrow> request \<Rightarrow> unit srvm" where
  "handleGlobalRequest X C wc answer req =
     (if rq_Type req = ''keepalive@openssh.com'' then reply req True
      else if rq_Type req = ''tcpip-forward'' \<or> rq_Type req = ''cancel-tcpip-forward'' then relayForwardRequest X C wc answer req
      else reply req False)"

end
