(* ===== verification/ChannelProps.thy ===== *)
theory ChannelProps
  imports Channels AuthProps
begin

text \<open>
  What the admission of channels guarantees: every slot a handler takes is given back on every path, whatever other
  handlers do to the counters meanwhile, and a token reaches a process only after it was loaded for the account of
  the connection and found usable and validated.
\<close>

section \<open>Slots\<close>

text \<open>A closure was handed out; it has run.\<close>

fun issued :: "slot \<times> nat \<Rightarrow> Counters \<Rightarrow> bool" where
  "issued (SlotChannel _, t) c \<longleftrightarrow> t < length (mp_onces (channels c))"
| "issued (SlotAccount _, t) c \<longleftrightarrow> t < length (mp_onces (channelAccounts c))"
| "issued (SlotProcess, t) c \<longleftrightarrow> t < length (sem_onces (coderProcess c))"
| "issued (SlotGlobal, t) c \<longleftrightarrow> t < length (sem_onces (globalConn c))"
| "issued (SlotIP _, t) c \<longleftrightarrow> t < length (mp_onces (ipConns c))"
| "issued (SlotHandshake, t) c \<longleftrightarrow> t < length (sem_onces (handshake c))"
| "issued (SlotKeyConn _, t) c \<longleftrightarrow> t < length (mp_onces (keyConns c))"
| "issued (SlotAccountConn _, t) c \<longleftrightarrow> t < length (mp_onces (accountConns c))"

fun spent :: "slot \<times> nat \<Rightarrow> Counters \<Rightarrow> bool" where
  "spent (SlotChannel _, t) c \<longleftrightarrow> t < length (mp_onces (channels c)) \<and> cl_done (mp_onces (channels c) ! t)"
| "spent (SlotAccount _, t) c \<longleftrightarrow> t < length (mp_onces (channelAccounts c)) \<and> cl_done (mp_onces (channelAccounts c) ! t)"
| "spent (SlotProcess, t) c \<longleftrightarrow> t < length (sem_onces (coderProcess c)) \<and> sem_onces (coderProcess c) ! t"
| "spent (SlotGlobal, t) c \<longleftrightarrow> t < length (sem_onces (globalConn c)) \<and> sem_onces (globalConn c) ! t"
| "spent (SlotIP _, t) c \<longleftrightarrow> t < length (mp_onces (ipConns c)) \<and> cl_done (mp_onces (ipConns c) ! t)"
| "spent (SlotHandshake, t) c \<longleftrightarrow> t < length (sem_onces (handshake c)) \<and> sem_onces (handshake c) ! t"
| "spent (SlotKeyConn _, t) c \<longleftrightarrow> t < length (mp_onces (keyConns c)) \<and> cl_done (mp_onces (keyConns c) ! t)"
| "spent (SlotAccountConn _, t) c \<longleftrightarrow> t < length (mp_onces (accountConns c)) \<and> cl_done (mp_onces (accountConns c) ! t)"

text \<open>The closures of a semaphore only grow, and a closure that has run stays so.\<close>

definition grows :: "('a \<Rightarrow> bool) \<Rightarrow> 'a list \<Rightarrow> 'a list \<Rightarrow> bool" where
  "grows P xs ys \<longleftrightarrow> length xs \<le> length ys \<and> (\<forall>i<length xs. P (xs ! i) \<longrightarrow> P (ys ! i))"

lemma grows_refl [simp]: "grows P xs xs"
  by (simp add: grows_def)

lemma grows_trans: "grows P xs ys \<Longrightarrow> grows P ys zs \<Longrightarrow> grows P xs zs"
  unfolding grows_def by (meson le_trans less_le_trans)

lemma grows_calls [simp]:
  "grows cl_done (mp_onces m) (mp_onces (snd (acquireMapped l k m)))" "grows cl_done (mp_onces m) (mp_onces (releaseMapped t m))"
  "grows (\<lambda>b. b) (sem_onces p) (sem_onces (snd (sem_Acquire p)))" "grows (\<lambda>b. b) (sem_onces p) (sem_onces (sem_release t p))"
  by (auto simp: grows_def acquireMapped_def acquire_at_def releaseMapped_def sem_Acquire_def sem_release_def Let_def nth_append nth_list_update
      split: option.splits)

definition counters_grow :: "Counters \<Rightarrow> Counters \<Rightarrow> bool" where
  "counters_grow c d \<longleftrightarrow> grows cl_done (mp_onces (channels c)) (mp_onces (channels d))
     \<and> grows cl_done (mp_onces (channelAccounts c)) (mp_onces (channelAccounts d))
     \<and> grows (\<lambda>b. b) (sem_onces (coderProcess c)) (sem_onces (coderProcess d))
     \<and> grows (\<lambda>b. b) (sem_onces (globalConn c)) (sem_onces (globalConn d))
     \<and> grows cl_done (mp_onces (ipConns c)) (mp_onces (ipConns d))
     \<and> grows (\<lambda>b. b) (sem_onces (handshake c)) (sem_onces (handshake d))
     \<and> grows cl_done (mp_onces (keyConns c)) (mp_onces (keyConns d))
     \<and> grows cl_done (mp_onces (accountConns c)) (mp_onces (accountConns d))"

lemma counters_grow_trans: "counters_grow c d \<Longrightarrow> counters_grow d e \<Longrightarrow> counters_grow c e"
  unfolding counters_grow_def by (elim conjE, intro conjI; erule (1) grows_trans)

lemma counters_step_grow: "counters_grow c (counters_step p c)"
  by (cases p; simp add: counters_grow_def Acquire_defs release_defs case_prod_beta)

lemma counters_run_grow: "counters_grow c (fold counters_step ps c)"
proof (induction ps arbitrary: c)
  case (Cons p ps)
  show ?case using counters_grow_trans [OF counters_step_grow [of c p] Cons.IH] by simp
qed (simp add: counters_grow_def)

lemma slot_calls_grow: "counters_grow c (snd (slot_acquire sl c))" "counters_grow c (slot_release sl t c)"
  by (cases sl; simp add: counters_grow_def Acquire_defs release_defs case_prod_beta)+

lemma grow_keeps:
  assumes "counters_grow c d"
  shows "issued x c \<Longrightarrow> issued x d" "spent x c \<Longrightarrow> spent x d"
  using assms by (cases x; cases "fst x"; auto simp: counters_grow_def grows_def)+

lemma acquired_issued: "slot_acquire sl c = (Some t, d) \<Longrightarrow> issued (sl, t) d"
  by (cases sl) (auto simp: Acquire_defs acquireMapped_def acquire_at_def sem_Acquire_def Let_def split: option.splits prod.splits if_splits)

lemma released_spent: "issued (sl, t) c \<Longrightarrow> spent (sl, t) (slot_release sl t c)"
  by (cases sl) (auto simp: release_defs releaseMapped_def sem_release_def Let_def)

lemma grow_others: "counters_grow (sx_counters s) (fold counters_step (su_counters X n) (sx_counters s))"
  by (rule counters_run_grow)

section \<open>Handlers pay for what they take\<close>

definition lease :: "server \<Rightarrow> (slot \<times> nat) set" where
  "lease s = (case sx_transport s of None \<Rightarrow> {} | Some t \<Rightarrow> {(SlotProcess, t)})"

definition owed :: "server \<Rightarrow> (slot \<times> nat) set" where
  "owed s = {x \<in> set (sx_slots s). \<not> spent x (sx_counters s)}"

definition slots_ok :: "server \<Rightarrow> bool" where
  "slots_ok s \<longleftrightarrow> lease s \<subseteq> set (sx_slots s) \<and> (\<forall>x\<in>set (sx_slots s). issued x (sx_counters s))"

text \<open>From a state in which the slots \<open>A\<close> are held, the computation returns, gives back \<open>A\<close> and owes nothing new but
  the slot of the transport; \<open>P\<close> is what it needs of the transport.\<close>

definition pays_from :: "(nat option \<Rightarrow> bool) \<Rightarrow> (slot \<times> nat) set \<Rightarrow> 'a srvm \<Rightarrow> bool" where
  "pays_from P A m \<longleftrightarrow> (\<forall>s. slots_ok s \<longrightarrow> A \<subseteq> set (sx_slots s) \<longrightarrow> P (sx_transport s) \<longrightarrow>
     (\<exists>a t. m s = (Inr a, t) \<and> slots_ok t \<and> set (sx_slots s) \<subseteq> set (sx_slots t) \<and> owed t \<subseteq> (owed s - A) \<union> lease t
        \<and> (sx_transport s \<noteq> None \<longrightarrow> sx_transport t = sx_transport s) \<and> sx_active t = sx_active s))"

abbreviation pays :: "(slot \<times> nat) set \<Rightarrow> 'a srvm \<Rightarrow> bool" where
  "pays \<equiv> pays_from (\<lambda>_. True)"

lemma pays_fromI:
  assumes "\<And>s. slots_ok s \<Longrightarrow> A \<subseteq> set (sx_slots s) \<Longrightarrow> P (sx_transport s) \<Longrightarrow>
    \<exists>a t. m s = (Inr a, t) \<and> slots_ok t \<and> set (sx_slots s) \<subseteq> set (sx_slots t) \<and> owed t \<subseteq> (owed s - A) \<union> lease t
      \<and> (sx_transport s \<noteq> None \<longrightarrow> sx_transport t = sx_transport s) \<and> sx_active t = sx_active s"
  shows "pays_from P A m"
  using assms unfolding pays_from_def by blast

lemma pays_fromE:
  assumes "pays_from P A m" "slots_ok s" "A \<subseteq> set (sx_slots s)" "P (sx_transport s)"
  obtains a t where "m s = (Inr a, t)" "slots_ok t" "set (sx_slots s) \<subseteq> set (sx_slots t)" "owed t \<subseteq> (owed s - A) \<union> lease t"
    "sx_transport s \<noteq> None \<longrightarrow> sx_transport t = sx_transport s" "sx_active t = sx_active s"
  using assms unfolding pays_from_def by blast

lemma paysE:
  assumes "pays A m" "slots_ok s" "A \<subseteq> set (sx_slots s)"
  obtains a t where "m s = (Inr a, t)" "slots_ok t" "set (sx_slots s) \<subseteq> set (sx_slots t)" "owed t \<subseteq> (owed s - A) \<union> lease t"
    "sx_transport s \<noteq> None \<longrightarrow> sx_transport t = sx_transport s" "sx_active t = sx_active s"
  by (rule pays_fromE [OF assms]) simp_all

text \<open>Steps that touch neither slots nor transport.\<close>

definition aside :: "'a srvm \<Rightarrow> bool" where
  "aside m \<longleftrightarrow> (\<forall>s. \<exists>a t. m s = (Inr a, t) \<and> sx_slots t = sx_slots s \<and> sx_counters t = sx_counters s
     \<and> sx_transport t = sx_transport s \<and> sx_active t = sx_active s)"

named_theorems aside_intros "steps that touch neither slots nor transport"
named_theorems pays_intros "rules that a handler gives back the slots it takes"

lemma pays_aside: "aside m \<Longrightarrow> pays {} m"
  by (rule pays_fromI) (fastforce simp: aside_def slots_ok_def owed_def lease_def)

lemma aside_bnd [aside_intros]:
  assumes "aside m" "\<And>a. aside (f a)" shows "aside (bnd m f)"
proof -
  have "\<exists>b u. bnd m f s = (Inr b, u) \<and> sx_slots u = sx_slots s \<and> sx_counters u = sx_counters s
      \<and> sx_transport u = sx_transport s \<and> sx_active u = sx_active s" for s
  proof -
    obtain a t where t: "m s = (Inr a, t)" "sx_slots t = sx_slots s" "sx_counters t = sx_counters s"
      "sx_transport t = sx_transport s" "sx_active t = sx_active s" using assms(1) unfolding aside_def by blast
    moreover obtain b u where "f a t = (Inr b, u)" "sx_slots u = sx_slots t" "sx_counters u = sx_counters t"
      "sx_transport u = sx_transport t" "sx_active u = sx_active t" using assms(2) [of a] unfolding aside_def by blast
    ultimately show ?thesis by (simp add: bnd_def)
  qed
  then show ?thesis unfolding aside_def by blast
qed

lemma aside_steps [aside_intros]:
  "aside (ret a)" "aside (gets g)" "aside (emit e)" "aside connID"
  by (simp_all add: aside_def emit_def connID_def)

lemma aside_gateway [aside_intros]: "(\<And>w. \<exists>a v. m w = (Inr a, v)) \<Longrightarrow> aside (on_gateway m)"
  unfolding aside_def on_gateway_def by (metis (no_types, lifting) case_prod_conv server.ext_inject server.surjective server.update_convs(1))

lemma aside_if [aside_intros]: "(b \<Longrightarrow> aside m) \<Longrightarrow> (\<not> b \<Longrightarrow> aside n) \<Longrightarrow> aside (if b then m else n)"
  by simp

lemma aside_case [aside_intros]:
  "(\<And>e. aside (g e)) \<Longrightarrow> (\<And>a. aside (f a)) \<Longrightarrow> aside (case x of Inl e \<Rightarrow> g e | Inr a \<Rightarrow> f a)"
  by (simp split: sum.split)

lemma gateway_returns:
  "\<exists>a v. on_conn h w = (Inr a, v)" "\<exists>a v. clock W w = (Inr a, v)" "\<exists>a v. cached_call W i g tok w = (Inr a, v)"
  "\<exists>a v. bnd ctx_done (\<lambda>d. store_call W (q d)) w = (Inr a, v)"
  by (auto simp: on_conn_def modify_gw_def clock_def cached_call_def bnd_def ctx_done_def store_call_def split: prod.splits)

lemma aside_rejections [aside_intros]:
  "aside state_Close" "aside (reject_open r msg)" "aside (auditChannelOpen C p tg b d)" "aside (rejectChannelLimit C p)"
  "aside (limit_rejected C p reason)" "aside rejectUnsupportedChannel" "aside (rejectOnRevalidationFailure C p rt err)"
  "aside (store_rejected C p rt)" "aside (load_credential X p)" "aside (revalidate X C p snap)" "aside (reply req b)"
  unfolding state_Close_def reject_open_def auditChannelOpen_def rejectChannelLimit_def limit_rejected_def
    rejectUnsupportedChannel_def rejectOnRevalidationFailure_def store_rejected_def load_credential_def revalidate_def reply_def
  by (intro aside_intros gateway_returns)+

lemma aside_credential [aside_intros]: "aside (loadValidatedCredential X C p)"
  unfolding loadValidatedCredential_def by (intro aside_intros)

lemma aside_transport_failure [aside_intros]: "aside (rejectTransportFailure C p err)"
  unfolding rejectTransportFailure_def by (cases err; simp; intro impI conjI aside_intros)

lemma pays_pure [pays_intros]: "aside m \<Longrightarrow> pays {} m"
  by (rule pays_aside)

lemma pays_weaken: "pays A m \<Longrightarrow> pays_from P A m"
  by (simp add: pays_from_def)

lemma pays_bnd:
  assumes "pays {} m" "\<And>a. pays A (f a)" shows "pays A (bnd m f)"
proof (rule pays_fromI)
  fix s assume s: "slots_ok s" "A \<subseteq> set (sx_slots s)"
  obtain a t where t: "m s = (Inr a, t)" "slots_ok t" "set (sx_slots s) \<subseteq> set (sx_slots t)" "owed t \<subseteq> owed s \<union> lease t"
    "sx_transport s \<noteq> None \<longrightarrow> sx_transport t = sx_transport s" "sx_active t = sx_active s"
    by (rule paysE [OF assms(1) s(1)]) simp_all
  obtain b u where u: "f a t = (Inr b, u)" "slots_ok u" "set (sx_slots t) \<subseteq> set (sx_slots u)" "owed u \<subseteq> (owed t - A) \<union> lease u"
    "sx_transport t \<noteq> None \<longrightarrow> sx_transport u = sx_transport t" "sx_active u = sx_active t"
    by (rule paysE [OF assms(2) t(2) subset_trans [OF s(2) t(3)]])
  have "lease t \<subseteq> lease u" using u(5) by (cases "sx_transport t") (auto simp: lease_def)
  with t u show "\<exists>b u. bnd m f s = (Inr b, u) \<and> slots_ok u \<and> set (sx_slots s) \<subseteq> set (sx_slots u) \<and> owed u \<subseteq> (owed s - A) \<union> lease u
      \<and> (sx_transport s \<noteq> None \<longrightarrow> sx_transport u = sx_transport s) \<and> sx_active u = sx_active s"
    by (intro exI [of _ b] exI [of _ u]) (auto simp: bnd_def)
qed

text \<open>A call on the counters, and what it leaves of the debts.\<close>

lemma counter_call_run:
  "\<exists>c. counters_grow (sx_counters s) c \<and> counter_call X f s = (Inr (fst (f c)), s\<lparr>sx_counters := snd (f c), sx_calls := Suc (sx_calls s)\<rparr>)"
  unfolding counter_call_def
  by (intro exI [of _ "fold counters_step (su_counters X (sx_calls s)) (sx_counters s)"] conjI grow_others) (simp split: prod.split)

lemma grow_ok:
  assumes "slots_ok s" "counters_grow (sx_counters s) c"
  shows "\<forall>x\<in>set (sx_slots s). issued x c" "{x \<in> set (sx_slots s). \<not> spent x c} \<subseteq> owed s"
  using assms grow_keeps [OF assms(2)] by (auto simp: slots_ok_def owed_def)

lemma release_run:
  assumes "slots_ok s" "(sl, k) \<in> set (sx_slots s)"
  obtains t where "release X sl k s = (Inr (), t)" "slots_ok t" "sx_slots t = sx_slots s" "owed t \<subseteq> owed s - {(sl, k)}"
    "sx_transport t = sx_transport s" "sx_active t = sx_active s"
proof -
  obtain c where c: "counters_grow (sx_counters s) c"
    and r: "release X sl k s = (Inr (), s\<lparr>sx_counters := slot_release sl k c, sx_calls := Suc (sx_calls s)\<rparr>)"
    using counter_call_run [of s X "\<lambda>c. ((), slot_release sl k c)"] unfolding release_def by auto
  have g: "counters_grow (sx_counters s) (slot_release sl k c)" by (rule counters_grow_trans [OF c slot_calls_grow(2)])
  have "spent (sl, k) (slot_release sl k c)" using grow_ok(1) [OF assms(1) c] assms(2) by (intro released_spent) blast
  with r grow_ok [OF assms(1) g] assms(1) show ?thesis by (intro that [OF r]) (auto simp: slots_ok_def owed_def lease_def)
qed

lemma acquire_run:
  assumes "slots_ok s"
  obtains r t where "acquire X sl s = (Inr r, t)" "slots_ok t" "sx_slots t = sx_slots s @ (case r of None \<Rightarrow> [] | Some k \<Rightarrow> [(sl, k)])"
    "owed t \<subseteq> owed s \<union> (case r of None \<Rightarrow> {} | Some k \<Rightarrow> {(sl, k)})" "sx_transport t = sx_transport s" "sx_active t = sx_active s"
proof -
  obtain c where c: "counters_grow (sx_counters s) c"
    and r: "counter_call X (slot_acquire sl) s = (Inr (fst (slot_acquire sl c)), s\<lparr>sx_counters := snd (slot_acquire sl c), sx_calls := Suc (sx_calls s)\<rparr>)"
    using counter_call_run [of s X "slot_acquire sl"] by auto
  have g: "counters_grow (sx_counters s) (snd (slot_acquire sl c))" by (rule counters_grow_trans [OF c slot_calls_grow(1)])
  have i: "fst (slot_acquire sl c) = Some k \<Longrightarrow> issued (sl, k) (snd (slot_acquire sl c))" for k
    by (rule acquired_issued [of sl c]) (simp add: prod_eq_iff)
  define t where "t = s\<lparr>sx_counters := snd (slot_acquire sl c), sx_calls := Suc (sx_calls s),
     sx_slots := sx_slots s @ (case fst (slot_acquire sl c) of None \<Rightarrow> [] | Some k \<Rightarrow> [(sl, k)])\<rparr>"
  have "acquire X sl s = (Inr (fst (slot_acquire sl c)), t)"
    using r by (cases "fst (slot_acquire sl c)") (auto simp: acquire_def bnd_def t_def)
  then show ?thesis
    by (rule that) (use grow_ok [OF assms g] assms i in \<open>auto simp: t_def slots_ok_def owed_def lease_def split: option.splits\<close>)
qed

lemma pays_release:
  assumes "(sl, k) \<in> A" "pays (A - {(sl, k)}) (f ())" shows "pays A (bnd (release X sl k) f)"
proof (rule pays_fromI)
  fix s assume s: "slots_ok s" "A \<subseteq> set (sx_slots s)"
  have k: "(sl, k) \<in> set (sx_slots s)" using s(2) assms(1) by blast
  obtain t where t: "release X sl k s = (Inr (), t)" "slots_ok t" "sx_slots t = sx_slots s" "owed t \<subseteq> owed s - {(sl, k)}"
    "sx_transport t = sx_transport s" "sx_active t = sx_active s"
    by (rule release_run [OF s(1) k])
  have A: "A - {(sl, k)} \<subseteq> set (sx_slots t)" unfolding t(3) by (rule subset_trans [OF Diff_subset s(2)])
  obtain b u where u: "f () t = (Inr b, u)" "slots_ok u" "set (sx_slots t) \<subseteq> set (sx_slots u)" "owed u \<subseteq> (owed t - (A - {(sl, k)})) \<union> lease u"
    "sx_transport t \<noteq> None \<longrightarrow> sx_transport u = sx_transport t" "sx_active u = sx_active t"
    by (rule paysE [OF assms(2) t(2) A])
  with t show "\<exists>b u. bnd (release X sl k) f s = (Inr b, u) \<and> slots_ok u \<and> set (sx_slots s) \<subseteq> set (sx_slots u) \<and> owed u \<subseteq> (owed s - A) \<union> lease u
      \<and> (sx_transport s \<noteq> None \<longrightarrow> sx_transport u = sx_transport s) \<and> sx_active u = sx_active s"
    by (intro exI [of _ b] exI [of _ u]) (auto simp: bnd_def)
qed

lemma pays_deferred:
  assumes "(sl, k) \<in> A" "pays (A - {(sl, k)}) m" shows "pays A (deferred (release X sl k) m)"
proof (rule pays_fromI)
  fix s assume s: "slots_ok s" "A \<subseteq> set (sx_slots s)"
  have A: "A - {(sl, k)} \<subseteq> set (sx_slots s)" using s(2) by blast
  obtain a t where t: "m s = (Inr a, t)" "slots_ok t" "set (sx_slots s) \<subseteq> set (sx_slots t)" "owed t \<subseteq> (owed s - (A - {(sl, k)})) \<union> lease t"
    "sx_transport s \<noteq> None \<longrightarrow> sx_transport t = sx_transport s" "sx_active t = sx_active s"
    by (rule paysE [OF assms(2) s(1) A])
  have k: "(sl, k) \<in> set (sx_slots t)" using s(2) t(3) assms(1) by blast
  obtain u where u: "release X sl k t = (Inr (), u)" "slots_ok u" "sx_slots u = sx_slots t" "owed u \<subseteq> owed t - {(sl, k)}"
    "sx_transport u = sx_transport t" "sx_active u = sx_active t"
    by (rule release_run [OF t(2) k])
  have "lease u = lease t" using u(5) by (simp add: lease_def)
  with t u show "\<exists>a u. deferred (release X sl k) m s = (Inr a, u) \<and> slots_ok u \<and> set (sx_slots s) \<subseteq> set (sx_slots u) \<and> owed u \<subseteq> (owed s - A) \<union> lease u
      \<and> (sx_transport s \<noteq> None \<longrightarrow> sx_transport u = sx_transport s) \<and> sx_active u = sx_active s"
    by (intro exI [of _ a] exI [of _ u]) (auto simp: deferred_def)
qed

lemma pays_acquire:
  assumes "pays A (f None)" "\<And>k. pays (insert (sl, k) A) (f (Some k))" shows "pays A (bnd (acquire X sl) f)"
proof (rule pays_fromI)
  fix s assume s: "slots_ok s" "A \<subseteq> set (sx_slots s)"
  obtain r t where t: "acquire X sl s = (Inr r, t)" "slots_ok t" "sx_slots t = sx_slots s @ (case r of None \<Rightarrow> [] | Some k \<Rightarrow> [(sl, k)])"
    "owed t \<subseteq> owed s \<union> (case r of None \<Rightarrow> {} | Some k \<Rightarrow> {(sl, k)})" "sx_transport t = sx_transport s" "sx_active t = sx_active s"
    by (rule acquire_run [OF s(1)])
  define B where "B = (case r of None \<Rightarrow> A | Some k \<Rightarrow> insert (sl, k) A)"
  have B: "pays B (f r)" "B \<subseteq> set (sx_slots t)" using assms s(2) t(3) by (auto simp: B_def split: option.splits)
  obtain b u where u: "f r t = (Inr b, u)" "slots_ok u" "set (sx_slots t) \<subseteq> set (sx_slots u)" "owed u \<subseteq> (owed t - B) \<union> lease u"
    "sx_transport t \<noteq> None \<longrightarrow> sx_transport u = sx_transport t" "sx_active u = sx_active t"
    by (rule paysE [OF B(1) t(2) B(2)])
  with t show "\<exists>b u. bnd (acquire X sl) f s = (Inr b, u) \<and> slots_ok u \<and> set (sx_slots s) \<subseteq> set (sx_slots u) \<and> owed u \<subseteq> (owed s - A) \<union> lease u
      \<and> (sx_transport s \<noteq> None \<longrightarrow> sx_transport u = sx_transport s) \<and> sx_active u = sx_active s"
    by (intro exI [of _ b] exI [of _ u]) (auto simp: bnd_def B_def split: option.splits)
qed

lemma pays_case_sum [pays_intros]:
  "(\<And>e. pays A (g e)) \<Longrightarrow> (\<And>a. pays A (f a)) \<Longrightarrow> pays A (case x of Inl e \<Rightarrow> g e | Inr a \<Rightarrow> f a)"
  by (simp split: sum.split)

lemma pays_if [pays_intros]: "(b \<Longrightarrow> pays A m) \<Longrightarrow> (\<not> b \<Longrightarrow> pays A n) \<Longrightarrow> pays A (if b then m else n)"
  by simp

lemma pays_then [pays_intros]: "aside m \<Longrightarrow> (\<And>a. pays A (f a)) \<Longrightarrow> pays A (bnd m f)"
  by (rule pays_bnd [OF pays_aside])

lemma pays_while_active [pays_intros]:
  assumes "pays {} m" shows "pays {} (while_active m)"
proof (rule pays_fromI)
  fix s assume s: "slots_ok s"
  define s1 where "s1 = s\<lparr>sx_trace := sx_trace s @ [ChannelAccepted], sx_active := sx_active s + 1\<rparr>"
  have ok: "slots_ok s1" using s by (simp add: s1_def slots_ok_def lease_def)
  obtain a t where t: "m s1 = (Inr a, t)" "slots_ok t" "set (sx_slots s1) \<subseteq> set (sx_slots t)" "owed t \<subseteq> (owed s1 - {}) \<union> lease t"
    "sx_transport s1 \<noteq> None \<longrightarrow> sx_transport t = sx_transport s1" "sx_active t = sx_active s1"
    by (rule paysE [OF assms ok empty_subsetI])
  define u where "u = t\<lparr>sx_trace := sx_trace t @ [ChannelClosed], sx_active := sx_active t - 1\<rparr>"
  have "while_active m s = (Inr a, u)"
    using t(1) by (simp add: while_active_def emit_def add_active_def deferred_def bnd_def s1_def u_def)
  then show "\<exists>a u. while_active m s = (Inr a, u) \<and> slots_ok u \<and> set (sx_slots s) \<subseteq> set (sx_slots u) \<and> owed u \<subseteq> (owed s - {}) \<union> lease u
      \<and> (sx_transport s \<noteq> None \<longrightarrow> sx_transport u = sx_transport s) \<and> sx_active u = sx_active s"
    using t(2-6) by (intro exI [of _ a] exI [of _ u]) (auto simp: s1_def u_def slots_ok_def owed_def lease_def)
qed

text \<open>The transport takes a process slot and keeps it.\<close>

lemma createLocked_pays: "pays_from (\<lambda>tr. tr = None) {} (createLocked X wc snap)"
proof (rule pays_fromI)
  fix s assume s: "slots_ok s" "sx_transport s = None"
  obtain r t where t: "acquire X SlotProcess s = (Inr r, t)" "slots_ok t" "sx_slots t = sx_slots s @ (case r of None \<Rightarrow> [] | Some k \<Rightarrow> [(SlotProcess, k)])"
    "owed t \<subseteq> owed s \<union> (case r of None \<Rightarrow> {} | Some k \<Rightarrow> {(SlotProcess, k)})" "sx_transport t = sx_transport s" "sx_active t = sx_active s"
    by (rule acquire_run [OF s(1)])
  show "\<exists>a u. createLocked X wc snap s = (Inr a, u) \<and> slots_ok u \<and> set (sx_slots s) \<subseteq> set (sx_slots u) \<and> owed u \<subseteq> (owed s - {}) \<union> lease u
      \<and> (sx_transport s \<noteq> None \<longrightarrow> sx_transport u = sx_transport s) \<and> sx_active u = sx_active s"
  proof (cases r)
    case None
    with t s show ?thesis
      by (auto simp: createLocked_def bnd_def emit_def slots_ok_def owed_def lease_def)
  next
    case (Some k)
    define v where "v = t\<lparr>sx_trace := sx_trace t @ [SpawnTransport (wc_target wc) snap]\<rparr>"
    have v: "slots_ok v" "(SlotProcess, k) \<in> set (sx_slots v)" using t(2,3) Some by (auto simp: v_def slots_ok_def lease_def)
    obtain u where u: "release X SlotProcess k v = (Inr (), u)" "slots_ok u" "sx_slots u = sx_slots v" "owed u \<subseteq> owed v - {(SlotProcess, k)}"
      "sx_transport u = sx_transport v" "sx_active u = sx_active v"
      by (rule release_run [OF v])
    have run: "createLocked X wc snap s = (case su_NewTransport X (sx_calls v) (wc_target wc) snap of
        Inl err \<Rightarrow> (Inr (Inl (TransportError (startErrorCode err))), u) | Inr _ \<Rightarrow> (Inr (Inr ()), v\<lparr>sx_transport := Some k\<rparr>))"
      using t(1) Some u(1) by (simp add: createLocked_def bnd_def emit_def v_def split: sum.split)
    have ow: "owed v = owed t" by (simp add: v_def owed_def)
    show ?thesis
    proof (cases "su_NewTransport X (sx_calls v) (wc_target wc) snap")
      case (Inl err)
      with run u t(3-6) s(2) Some ow show ?thesis by (auto simp: v_def)
    next
      case (Inr x)
      with run v t(2-6) s(2) Some ow show ?thesis by (auto simp: v_def slots_ok_def owed_def lease_def)
    qed
  qed
qed

lemma pays_gets_transport: "pays_from (\<lambda>tr. tr = None) {} m \<Longrightarrow> pays {} (n :: 'a srvm) \<Longrightarrow>
    pays {} (bnd (gets sx_transport) (\<lambda>tr. if tr \<noteq> None then n else m))"
  unfolding pays_from_def bnd_def by auto

lemma bindTransport_pays [pays_intros]: "pays {} (bindTransport X wc snap)"
  unfolding bindTransport_def by (intro pays_gets_transport createLocked_pays pays_intros aside_intros)

lemma pays_from_then:
  assumes "aside m" "\<And>a. pays_from P {} (f a)" shows "pays_from P {} (bnd m f)"
proof (rule pays_fromI)
  fix s assume s: "slots_ok s" "P (sx_transport s)"
  obtain a t where t: "m s = (Inr a, t)" "sx_slots t = sx_slots s" "sx_counters t = sx_counters s"
      "sx_transport t = sx_transport s" "sx_active t = sx_active s" using assms(1) unfolding aside_def by blast
  have ok: "slots_ok t" "P (sx_transport t)" "owed t = owed s" using s t by (simp_all add: slots_ok_def owed_def lease_def)
  obtain b u where u: "f a t = (Inr b, u)" "slots_ok u" "set (sx_slots t) \<subseteq> set (sx_slots u)" "owed u \<subseteq> (owed t - {}) \<union> lease u"
    "sx_transport t \<noteq> None \<longrightarrow> sx_transport u = sx_transport t" "sx_active u = sx_active t"
    by (rule pays_fromE [OF assms(2) ok(1) empty_subsetI ok(2)])
  then show "\<exists>b u. bnd m f s = (Inr b, u) \<and> slots_ok u \<and> set (sx_slots s) \<subseteq> set (sx_slots u) \<and> owed u \<subseteq> (owed s - {}) \<union> lease u
      \<and> (sx_transport s \<noteq> None \<longrightarrow> sx_transport u = sx_transport s) \<and> sx_active u = sx_active s"
    using t ok(3) by (intro exI [of _ b] exI [of _ u]) (simp add: bnd_def)
qed

lemma transport_pays [pays_intros]: "pays {} (transport X C wc)"
  unfolding transport_def
proof (rule pays_gets_transport, rule pays_from_then [OF aside_credential])
  show "pays_from (\<lambda>tr. tr = None) {} (case v of Inl verr \<Rightarrow> ret (Inl verr) | Inr snap \<Rightarrow> createLocked X wc snap)" for v
    by (cases v) (simp_all add: createLocked_pays pays_weaken [OF pays_aside] aside_steps)
qed (intro pays_intros aside_intros)

section \<open>The handlers\<close>

lemma pays_acquire_case:
  "pays A m \<Longrightarrow> (\<And>k. pays (insert (sl, k) A) (g k)) \<Longrightarrow> pays A (bnd (acquire X sl) (case_option m g))"
  by (rule pays_acquire) simp_all

lemma pays_deferred_one: "pays {} m \<Longrightarrow> pays {(sl, k)} (deferred (release X sl k) m)"
  by (rule pays_deferred) simp_all

lemma slots_pay [pays_intros]:
  assumes "pays {} m" shows "pays {} (with_channel_slots X C p m)"
  unfolding with_channel_slots_def
  by (intro pays_then [OF aside_steps(4)] pays_acquire_case pays_deferred_one assms pays_aside aside_rejections)

lemma session_pays [pays_intros]: "pays {} (session_with_slots X C wc ch rt)"
  unfolding session_with_slots_def bridge_session_def Let_def
  by (intro pays_intros aside_intros pays_bnd [OF bindTransport_pays])

lemma jump_slots_pay [pays_intros]: "pays {} (jump_with_slots X C wc ch rt)"
  unfolding jump_with_slots_def Let_def by (intro pays_intros aside_intros)

lemma jump_pays [pays_intros]: "pays {} (startJumpTunnel X C wc ch rt)"
proof -
  let ?p = "wc_perms wc"
  let ?A = "SlotAccount (fp_AccountID ?p)"
  have acct: "pays {(SlotChannel i, t)} (bnd (emit e) (\<lambda>_. bnd (release X (SlotChannel i) t) (\<lambda>_. rejectChannelLimit C ?p)))" for i t e
    by (intro pays_then [OF aside_steps(3)] pays_release) (simp_all add: pays_aside aside_rejections)
  have proc: "pays {(?A, u), (SlotChannel i, t)} (bnd (emit e) (\<lambda>_. bnd (release X ?A u) (\<lambda>_.
      bnd (release X (SlotChannel i) t) (\<lambda>_. rejectChannelLimit C ?p))))" for i t u e
    by (intro pays_then [OF aside_steps(3)] pays_release) (simp_all add: pays_aside aside_rejections)
  have run: "pays {(SlotProcess, q), (?A, u), (SlotChannel i, t)} (deferred (release X SlotProcess q) (deferred (release X ?A u) (
      deferred (release X (SlotChannel i) t) (jump_with_slots X C wc ch rt))))" for i t u q
    by (intro pays_deferred) (simp_all add: jump_slots_pay)
  show ?thesis unfolding startJumpTunnel_def Let_def
    by (intro pays_then [OF aside_steps(4)] pays_acquire_case acct proc run pays_aside aside_rejections)
qed

lemma relay_pays [pays_intros]: "pays {} (relayDirectTCPIP X C wc)"
  unfolding relayDirectTCPIP_def Let_def
  by (intro pays_if slots_pay pays_bnd [OF transport_pays] pays_case_sum pays_while_active pays_aside aside_intros)

lemma channel_pays: "pays {} (handle_channel X C wc ch)"
proof -
  have s: "pays {} (admitWorkspaceSession X C wc ch)" unfolding admitWorkspaceSession_def Let_def
    by (intro pays_if pays_case_sum slots_pay session_pays pays_aside aside_intros)
  have d: "pays {} (admitDirectTCPIP X C wc ch)"
  proof (cases "su_Unmarshal X (nc_extra ch)")
    case None
    then show ?thesis unfolding admitDirectTCPIP_def Let_def by (simp; intro conjI impI pays_aside aside_intros)
  next
    case (Some req)
    then show ?thesis unfolding admitDirectTCPIP_def Let_def
      by (simp; intro conjI impI pays_case_sum jump_pays relay_pays pays_aside aside_intros)
  qed
  show ?thesis unfolding handle_channel_def by (intro pays_if s d pays_aside aside_intros)
qed

lemma channels_pay: "pays {} (handle_channels X C wc chs)"
proof (induction chs)
  case Nil
  show ?case unfolding handle_channels.simps by (intro pays_aside aside_steps(1))
next
  case (Cons ch chs)
  show ?case unfolding handle_channels.simps by (rule pays_bnd [OF channel_pays Cons.IH])
qed

text \<open>Closing the connection gives back the slot of the transport.\<close>

lemma dispatch_settles:
  assumes "sx_slots s = []" "sx_transport s = None"
  obtains t where "dispatchWorkspaceChannels X C wc chs s = (Inr (), t)" "sx_transport t = None" "sx_active t = sx_active s"
    "\<forall>x\<in>set (sx_slots t). spent x (sx_counters t)"
proof -
  have s: "slots_ok s" "owed s = {}" using assms by (simp_all add: slots_ok_def lease_def owed_def)
  obtain a t where t: "handle_channels X C wc chs s = (Inr a, t)" "slots_ok t" "set (sx_slots s) \<subseteq> set (sx_slots t)"
    "owed t \<subseteq> (owed s - {}) \<union> lease t" "sx_transport s \<noteq> None \<longrightarrow> sx_transport t = sx_transport s" "sx_active t = sx_active s"
    by (rule paysE [OF channels_pay s(1) empty_subsetI])
  show ?thesis
  proof (cases "sx_transport t")
    case None
    then have "owed t = {}" using t(4) s(2) by (simp add: lease_def)
    then show ?thesis using t None
      by (intro that [of t]) (auto simp: dispatchWorkspaceChannels_def deferred_def wc_close_def owed_def)
  next
    case (Some k)
    define v where "v = t\<lparr>sx_transport := None, sx_trace := sx_trace t @ [CloseTransport]\<rparr>"
    have v: "slots_ok v" "(SlotProcess, k) \<in> set (sx_slots v)" "owed v \<subseteq> {(SlotProcess, k)}"
      using t(2,4) s(2) Some by (auto simp: v_def slots_ok_def lease_def owed_def)
    obtain u where u: "release X SlotProcess k v = (Inr (), u)" "slots_ok u" "sx_slots u = sx_slots v" "owed u \<subseteq> owed v - {(SlotProcess, k)}"
      "sx_transport u = sx_transport v" "sx_active u = sx_active v"
      by (rule release_run [OF v(1,2)])
    have "owed u = {}" using u(4) v(3) by blast
    then show ?thesis using u t(1,6) Some
      by (intro that [of u]) (auto simp: dispatchWorkspaceChannels_def deferred_def wc_close_def bnd_def emit_def v_def owed_def)
  qed
qed

section \<open>Tokens are vetted before a process gets them\<close>

text \<open>The effects that hand a token to a process.\<close>

fun hands :: "effect \<Rightarrow> bool" where
  "hands (SpawnTransport _ _) = True"
| "hands (StartTunnel _ _) = True"
| "hands _ = False"

text \<open>The snapshot is the one the store holds for the account as the handler finds it, its state is usable, and its
  validation is recent enough or the verifier attests the token for this account and generation.\<close>

definition vetted :: "surroundings \<Rightarrow> srvConfig \<Rightarrow> FinalPerms \<Rightarrow> gateway \<Rightarrow> CredentialSnapshot \<Rightarrow> bool" where
  "vetted X C perms g snap \<longleftrightarrow> (\<exists>stored :: CredentialSnapshot.
     fst (LoadCredential (wo_env (su_world X)) (cs_ctxDone (gw_conn g)) (fp_AccountID perms) (seen_store (su_world X) g)) = Inr stored
     \<and> \<not> snapshot_unusable stored \<and> snap_Token snap = snap_Token stored \<and> snap_Generation snap = snap_Generation stored
     \<and> (\<not> validation_stale (sc_CacheTTL C) (wo_now (su_world X) (gw_clock g)) stored
        \<or> (\<exists>u. attested (su_world X) (g\<lparr>gw_clock := Suc (gw_clock g)\<rparr>) (fp_AccountID perms) (snap_Generation stored) (snap_Token stored) u)))"

definition justified :: "surroundings \<Rightarrow> srvConfig \<Rightarrow> workspaceContext \<Rightarrow> newChannel \<Rightarrow> gateway \<Rightarrow> effect \<Rightarrow> bool" where
  "justified X C wc ch g e \<longleftrightarrow> hands e \<longrightarrow> \<not> sc_draining C \<and> \<not> fp_MustReconnect (wc_perms wc) \<and> (case e of
     StartTunnel rt snap \<Rightarrow> vetted X C (wc_perms wc) g snap \<and> nc_type ch = ''direct-tcpip''
       \<and> (\<exists>req. su_Unmarshal X (nc_extra ch) = Some req
            \<and> ParseDirectTCPIP (env_lib (wo_env (su_world X))) (DestinationAddress req) (DestinationPort req) = Inr rt)
   | SpawnTransport target snap \<Rightarrow> vetted X C (wc_perms wc) g snap \<and> snap_Token snap \<noteq> [] \<and> target = wc_target wc \<and> sc_WorkspaceTransports C
   | _ \<Rightarrow> True)"

lemma justified_quiet [simp]: "\<not> hands e \<Longrightarrow> justified X C wc ch g e"
  by (simp add: justified_def)

text \<open>From a gateway with \<open>P\<close> a computation adds only effects with \<open>Q\<close> to the trace.\<close>

definition says :: "(gateway \<Rightarrow> bool) \<Rightarrow> (effect \<Rightarrow> bool) \<Rightarrow> 'a srvm \<Rightarrow> bool" where
  "says P Q m \<longleftrightarrow> (\<forall>s. P (sx_gw s) \<longrightarrow> (\<exists>es. sx_trace (snd (m s)) = sx_trace s @ es \<and> (\<forall>e\<in>set es. Q e)))"

abbreviation always :: "(effect \<Rightarrow> bool) \<Rightarrow> 'a srvm \<Rightarrow> bool" where
  "always \<equiv> says (\<lambda>_. True)"

definition keeps_gw :: "'a srvm \<Rightarrow> bool" where
  "keeps_gw m \<longleftrightarrow> (\<forall>s. sx_gw (snd (m s)) = sx_gw s)"

named_theorems says_intros "rules on the effects of a handler"

lemma says_weaken: "always Q m \<Longrightarrow> says P Q m"
  by (simp add: says_def)

lemma says_seq:
  assumes m: "says P Q m" "\<And>s :: server. P (sx_gw s) \<Longrightarrow> R (sx_gw (snd (m s)))" and f: "\<And>a. says R Q (f a)"
  shows "says P Q (bnd m f)"
  unfolding says_def
proof (intro allI impI)
  fix s :: server assume P: "P (sx_gw s)"
  obtain es where es: "sx_trace (snd (m s)) = sx_trace s @ es" "\<forall>e\<in>set es. Q e" using m(1) P unfolding says_def by blast
  obtain r t where r: "m s = (r, t)" by fastforce
  show "\<exists>es. sx_trace (snd (bnd m f s)) = sx_trace s @ es \<and> (\<forall>e\<in>set es. Q e)"
  proof (cases r)
    case (Inl e)
    with es r show ?thesis by (simp add: bnd_def)
  next
    case (Inr a)
    obtain fs where "sx_trace (snd (f a t)) = sx_trace t @ fs" "\<forall>e\<in>set fs. Q e"
      using f [of a] m(2) [OF P] r unfolding says_def by auto
    with es r Inr show ?thesis by (intro exI [of _ "es @ fs"]) (auto simp: bnd_def)
  qed
qed

lemma says_bnd: "says P Q m \<Longrightarrow> keeps_gw m \<Longrightarrow> (\<And>a. says P Q (f a)) \<Longrightarrow> says P Q (bnd m f)"
  by (rule says_seq [where R = P]) (simp_all add: keeps_gw_def)

lemma always_bnd [says_intros]: "always Q m \<Longrightarrow> (\<And>a. always Q (f a)) \<Longrightarrow> always Q (bnd m f)"
  by (rule says_seq) simp_all

lemma says_cases [says_intros]:
  "(b \<Longrightarrow> says P Q m) \<Longrightarrow> (\<not> b \<Longrightarrow> says P Q n) \<Longrightarrow> says P Q (if b then m else n)"
  "(\<And>e. says P Q (g e)) \<Longrightarrow> (\<And>a. says P Q (f a)) \<Longrightarrow> says P Q (case x of Inl e \<Rightarrow> g e | Inr a \<Rightarrow> f a)"
  "says P Q n \<Longrightarrow> (\<And>a. says P Q (h a)) \<Longrightarrow> says P Q (case y of None \<Rightarrow> n | Some a \<Rightarrow> h a)"
  by (simp_all split: sum.split option.split)

lemma says_silent [says_intros]:
  "says P Q (ret a)" "says P Q (gets g)" "says P Q (on_gateway k)" "says P Q connID" "says P Q (add_active d)"
  "says P Q (acquire X sl)" "says P Q (release X sl t)"
  by (auto simp: says_def on_gateway_def connID_def add_active_def acquire_def release_def counter_call_def bnd_def
      split: prod.splits option.splits)

lemma says_emit [says_intros]: "Q e \<Longrightarrow> says P Q (emit e)"
  by (simp add: says_def emit_def)

lemma says_credential [says_intros]: "says P Q (load_credential X p)" "says P Q (revalidate X C p snap)"
  unfolding load_credential_def revalidate_def by (rule says_weaken, intro says_intros)+

lemma says_deferred [says_intros]:
  assumes "says P Q m" "always Q d" shows "says P Q (deferred d m)"
  unfolding says_def
proof (intro allI impI)
  fix s :: server assume P: "P (sx_gw s)"
  obtain es where es: "sx_trace (snd (m s)) = sx_trace s @ es" "\<forall>e\<in>set es. Q e" using assms(1) P unfolding says_def by blast
  obtain fs where "sx_trace (snd (d (snd (m s)))) = sx_trace (snd (m s)) @ fs" "\<forall>e\<in>set fs. Q e" using assms(2) unfolding says_def by blast
  with es show "\<exists>es. sx_trace (snd (deferred d m s)) = sx_trace s @ es \<and> (\<forall>e\<in>set es. Q e)"
    by (intro exI [of _ "es @ fs"]) (auto simp: deferred_def split: prod.splits)
qed

lemma keeps_gw_steps: "keeps_gw connID" "keeps_gw (acquire X sl)" "keeps_gw (emit e)" "keeps_gw (release X sl t)" "keeps_gw (gets g)"
  by (auto simp: keeps_gw_def connID_def acquire_def release_def counter_call_def bnd_def emit_def split: prod.splits option.splits)

lemma says_slots:
  assumes "says P Q m" "\<And>reason. always Q (limit_rejected C p reason)" shows "says P Q (with_channel_slots X C p m)"
  unfolding with_channel_slots_def by (intro says_bnd keeps_gw_steps says_intros says_weaken [OF assms(2)] assms(1))

text \<open>Every rejection, and what runs around an accepted channel, hands out nothing.\<close>

locale quiet_effects =
  fixes Q :: "effect \<Rightarrow> bool"
  assumes quiet: "\<not> hands e \<Longrightarrow> Q e"
begin

lemma rejections:
  "always Q state_Close" "always Q (reject_open r msg)" "always Q (auditChannelOpen C p tg b d)" "always Q (rejectChannelLimit C p)"
  "always Q (limit_rejected C p reason)" "always Q rejectUnsupportedChannel" "always Q (rejectOnRevalidationFailure C p rt err)"
  "always Q (store_rejected C p rt)" "always Q (reply req b)"
  unfolding state_Close_def reject_open_def auditChannelOpen_def rejectChannelLimit_def limit_rejected_def
    rejectUnsupportedChannel_def rejectOnRevalidationFailure_def store_rejected_def reply_def
  by (intro says_intros quiet; simp)+

lemma transport_failure: "always Q (rejectTransportFailure C p err)"
  unfolding rejectTransportFailure_def
  by (cases err; simp; intro conjI impI says_intros rejections quiet; simp)

lemma active: "always Q m \<Longrightarrow> always Q (while_active m)"
  unfolding while_active_def by (intro says_intros quiet; simp)

lemma slots: "says P Q m \<Longrightarrow> says P Q (with_channel_slots X C p m)"
  by (rule says_slots [OF _ rejections(5)])

lemma create: "Q (SpawnTransport (wc_target wc) snap) \<Longrightarrow> always Q (createLocked X wc snap)"
proof -
  assume q: "Q (SpawnTransport (wc_target wc) snap)"
  have t: "always Q (\<lambda>s. (Inr (Inr ()), s\<lparr>sx_transport := Some t\<rparr>))" for t by (simp add: says_def)
  show ?thesis unfolding createLocked_def by (intro says_intros t q quiet) simp
qed

end

interpretation just: quiet_effects "justified X C wc ch g" for X C wc ch g
  by unfold_locales simp

text \<open>Loading and revalidating vet the snapshot.\<close>

abbreviation loaded_from :: "gateway \<Rightarrow> gateway \<Rightarrow> bool" where
  "loaded_from g h \<equiv> \<exists>st n. h = g\<lparr>gw_store := st, gw_steps := n\<rparr>"

lemma says_load:
  assumes "\<And>e. says (loaded_from g) Q (f (Inl e))"
    "\<And>stored :: CredentialSnapshot. fst (LoadCredential (wo_env (su_world X)) (cs_ctxDone (gw_conn g)) (fp_AccountID p) (seen_store (su_world X) g)) = Inr stored
       \<Longrightarrow> says (loaded_from g) Q (f (Inr stored))"
  shows "says (\<lambda>h. h = g) Q (bnd (load_credential X p) f)"
  unfolding says_def
proof (intro allI impI)
  fix s :: server assume g: "sx_gw s = g"
  obtain r st where r: "LoadCredential (wo_env (su_world X)) (cs_ctxDone (gw_conn g)) (fp_AccountID p) (seen_store (su_world X) g) = (r, st)" by fastforce
  define t where "t = s\<lparr>sx_gw := g\<lparr>gw_store := st, gw_steps := Suc (gw_steps g)\<rparr>\<rparr>"
  have run: "load_credential X p s = (Inr r, t)"
    using g r by (simp add: load_credential_def on_gateway_def bnd_def ctx_done_def store_call_def t_def)
  have "says (loaded_from g) Q (f r)" using assms r by (cases r) auto
  moreover have "loaded_from g (sx_gw t)" by (auto simp: t_def)
  ultimately obtain es where "sx_trace (snd (f r t)) = sx_trace t @ es" "\<forall>e\<in>set es. Q e" unfolding says_def by blast
  then show "\<exists>es. sx_trace (snd (bnd (load_credential X p) f s)) = sx_trace s @ es \<and> (\<forall>e\<in>set es. Q e)"
    using run by (auto simp: bnd_def t_def)
qed

lemma revalidate_vets:
  assumes l: "fst (LoadCredential (wo_env (su_world X)) (cs_ctxDone (gw_conn g)) (fp_AccountID p) (seen_store (su_world X) g)) = Inr stored"
    "\<not> snapshot_unusable stored" and s: "loaded_from g (sx_gw s)"
    and r: "revalidate X C p stored s = (Inr (Inr snap), t)"
  shows "vetted X C p g snap \<and> snap_Token snap = snap_Token stored"
proof -
  obtain st n where g: "sx_gw s = g\<lparr>gw_store := st, gw_steps := n\<rparr>" using s by blast
  let ?now = "wo_now (su_world X) (gw_clock g)"
  show ?thesis
  proof (cases "validation_stale (sc_CacheTTL C) ?now stored")
    case False
    then have "snap = stored" using r g by (simp add: revalidate_def on_gateway_def clock_def bnd_def)
    with False l show ?thesis unfolding vetted_def by blast
  next
    case True
    define h where "h = g\<lparr>gw_store := st, gw_steps := n, gw_clock := Suc (gw_clock g)\<rparr>"
    obtain v h' where v: "cached_call (su_world X) (fp_AccountID p) (snap_Generation stored) (snap_Token stored) h = (v, h')" by fastforce
    obtain w where w: "v = Inr w" using gateway_returns(3) [of "su_world X" "fp_AccountID p"] v by (metis prod.inject)
    have c: "revalidate X C p stored s = (case w of Inl err \<Rightarrow> (Inr (Inl err), s\<lparr>sx_gw := h'\<rparr>)
        | Inr _ \<Rightarrow> (Inr (Inr (stored\<lparr>snap_LastValidatedAt := Some (wo_now (su_world X) (gw_clock h') div 1000000)\<rparr>)),
            s\<lparr>sx_gw := h'\<lparr>gw_clock := Suc (gw_clock h')\<rparr>\<rparr>))"
      using True v w g by (simp add: revalidate_def on_gateway_def clock_def bnd_def h_def split: sum.split)
    obtain ident where i: "w = Inr ident" using r c by (cases w) auto
    have "attested (su_world X) h (fp_AccountID p) (snap_Generation stored) (snap_Token stored) (ident_ID ident)"
      by (rule cached_call_Inr) (use v w i in simp)
    then have "attested (su_world X) (g\<lparr>gw_clock := Suc (gw_clock g)\<rparr>) (fp_AccountID p) (snap_Generation stored) (snap_Token stored) (ident_ID ident)"
      by (simp add: attested_def h_def)
    moreover have "snap_Token snap = snap_Token stored" "snap_Generation snap = snap_Generation stored" using r c i by auto
    ultimately show ?thesis using l unfolding vetted_def by metis
  qed
qed

lemma says_revalidate:
  assumes l: "fst (LoadCredential (wo_env (su_world X)) (cs_ctxDone (gw_conn g)) (fp_AccountID p) (seen_store (su_world X) g)) = Inr (stored :: CredentialSnapshot)"
    "\<not> snapshot_unusable stored"
    and f: "\<And>e. always Q (f (Inl e))" "\<And>snap. vetted X C p g snap \<Longrightarrow> snap_Token snap = snap_Token stored \<Longrightarrow> always Q (f (Inr snap))"
  shows "says (loaded_from g) Q (bnd (revalidate X C p stored) f)"
  unfolding says_def
proof (intro allI impI)
  fix s :: server assume s: "loaded_from g (sx_gw s)"
  obtain r t where r: "revalidate X C p stored s = (Inr r, t)" using aside_rejections(10) [of X C p stored] unfolding aside_def by blast
  obtain es where es: "sx_trace t = sx_trace s @ es" "\<forall>e\<in>set es. Q e" using says_credential(2) [of "\<lambda>_. True" Q X C p stored] r unfolding says_def by (metis snd_conv)
  have "always Q (f r)" using f revalidate_vets [OF l s, of C _ t] r by (cases r) auto
  then obtain fs where "sx_trace (snd (f r t)) = sx_trace t @ fs" "\<forall>e\<in>set fs. Q e" unfolding says_def by blast
  with es r show "\<exists>es. sx_trace (snd (bnd (revalidate X C p stored) f s)) = sx_trace s @ es \<and> (\<forall>e\<in>set es. Q e)"
    by (intro exI [of _ "es @ fs"]) (auto simp: bnd_def)
qed

text \<open>The handlers, from the gateway \<open>g\<close> they start with.\<close>

lemma bnd_assoc: "bnd (bnd m f) g = bnd m (\<lambda>a. bnd (f a) g)"
  by (rule ext) (simp add: bnd_def split: prod.split sum.split)

lemma bnd_ret [simp]: "bnd (ret a) f = f a"
  by (rule ext) simp

lemma says_loadValidated:
  assumes f: "\<And>d. always Q (f (Inl (CredentialValidationError d)))"
    "\<And>snap. vetted X C p g snap \<Longrightarrow> snap_Token snap \<noteq> [] \<Longrightarrow> always Q (f (Inr snap))"
  shows "says (\<lambda>h. h = g) Q (bnd (loadValidatedCredential X C p) f)"
  unfolding loadValidatedCredential_def bnd_assoc
proof (rule says_load, goal_cases)
  case (1 e)
  show ?case by (simp add: says_weaken f)
next
  case (2 stored)
  show ?case
  proof (cases "snapshot_unusable stored \<or> length (snap_Token stored) = 0")
    case True
    then show ?thesis by (auto simp: says_weaken f)
  next
    case False
    then have u: "\<not> snapshot_unusable stored" "snap_Token stored \<noteq> []" by auto
    have "says (loaded_from g) Q (bnd (revalidate X C p stored) (\<lambda>v. bnd (case v of
           Inl err \<Rightarrow> ret (Inl (CredentialValidationError (if KindOf err = Some ControlPlaneUnavailable then AUTH_CODER_UNAVAILABLE else revalidation_detail err)))
         | Inr snap \<Rightarrow> ret (Inr snap)) f))"
      by (rule says_revalidate [OF 2 u(1)]) (simp_all add: f u(2))
    then show ?thesis using False by (simp add: bnd_assoc)
  qed
qed

lemma transport_says:
  assumes "\<not> sc_draining C" "\<not> fp_MustReconnect (wc_perms wc)" "sc_WorkspaceTransports C"
  shows "says (\<lambda>h. h = g) (justified X C wc ch g) (transport X C wc)"
  unfolding transport_def
proof (rule says_bnd [OF says_silent(2) keeps_gw_steps(5)], rule says_cases(1) [OF says_silent(1)], rule says_loadValidated, goal_cases)
  case (2 tr snap)
  then show ?case unfolding sum.case using assms by (intro just.create) (simp add: justified_def)
qed (simp add: says_intros)

text \<open>Session and jump share the shape: load, refuse an unusable snapshot, revalidate, run.\<close>

lemma says_admission:
  assumes "\<And>e. always (justified X C wc ch g) (r1 e)" "\<And>snap. always (justified X C wc ch g) (r2 snap)" "\<And>e. always (justified X C wc ch g) (r3 e)"
    "\<And>snap. snapshot_unusable snap \<Longrightarrow> bad snap"
    "\<And>snap stored. vetted X C p g snap \<Longrightarrow> \<not> bad stored \<Longrightarrow> snap_Token snap = snap_Token stored \<Longrightarrow> always (justified X C wc ch g) (body snap)"
  shows "says (\<lambda>h. h = g) (justified X C wc ch g) (bnd (load_credential X p) (\<lambda>r. case r of Inl e \<Rightarrow> r1 e
     | Inr snap \<Rightarrow> if bad snap then r2 snap else bnd (revalidate X C p snap) (\<lambda>v. case v of Inl err \<Rightarrow> r3 err | Inr snap \<Rightarrow> body snap)))"
proof (rule says_load, goal_cases)
  case (1 e)
  show ?case by (simp add: says_weaken assms(1))
next
  case (2 stored)
  show ?case
  proof (cases "bad stored")
    case True
    then show ?thesis by (simp add: says_weaken assms(2))
  next
    case False
    have "says (loaded_from g) (justified X C wc ch g) (bnd (revalidate X C p stored) (\<lambda>v. case v of Inl err \<Rightarrow> r3 err | Inr snap \<Rightarrow> body snap))"
      by (rule says_revalidate [OF 2]) (use False assms(3-5) in auto)
    with False show ?thesis by simp
  qed
qed

lemma session_says:
  assumes "\<not> sc_draining C" "\<not> fp_MustReconnect (wc_perms wc)" "sc_WorkspaceTransports C"
  shows "says (\<lambda>h. h = g) (justified X C wc ch g) (session_with_slots X C wc ch rt)"
  unfolding session_with_slots_def Let_def
proof (rule says_admission, goal_cases)
  case (5 snap stored)
  have "always (justified X C wc ch g) (createLocked X wc snap)"
    using 5 assms by (intro just.create) (auto simp: justified_def)
  then show ?case unfolding bridge_session_def bindTransport_def
    by (intro says_intros just.active just.rejections just.quiet; simp)
qed (auto intro!: says_intros just.rejections)

lemma jump_says:
  assumes "\<not> sc_draining C" "\<not> fp_MustReconnect (wc_perms wc)" "nc_type ch = ''direct-tcpip''" "su_Unmarshal X (nc_extra ch) = Some req"
    "ParseDirectTCPIP (env_lib (wo_env (su_world X))) (DestinationAddress req) (DestinationPort req) = Inr rt"
  shows "says (\<lambda>h. h = g) (justified X C wc ch g) (jump_with_slots X C wc ch rt)"
  unfolding jump_with_slots_def Let_def
proof (rule says_admission, goal_cases)
  case (5 snap stored)
  have "justified X C wc ch g (StartTunnel rt snap)" using 5 assms by (auto simp: justified_def)
  then show ?case by (intro says_intros just.active just.rejections) simp_all
qed (auto intro!: says_intros just.rejections)

lemma startJump_says:
  assumes "says (\<lambda>h. h = g) (justified X C wc ch g) (jump_with_slots X C wc ch rt)"
  shows "says (\<lambda>h. h = g) (justified X C wc ch g) (startJumpTunnel X C wc ch rt)"
  unfolding startJumpTunnel_def Let_def
  by (intro says_bnd keeps_gw_steps says_intros assms says_weaken [OF just.rejections(4)] says_weaken [OF just.rejections(5)]; simp)

lemma relay_says:
  assumes "\<not> sc_draining C" "\<not> fp_MustReconnect (wc_perms wc)"
  shows "says (\<lambda>h. h = g) (justified X C wc ch g) (relayDirectTCPIP X C wc)"
proof (cases "sc_WorkspaceTransports C")
  case True
  have "says (\<lambda>h. h = g) (justified X C wc ch g) (bnd (transport X C wc) (\<lambda>tr. case tr of
      Inl err \<Rightarrow> rejectTransportFailure C (wc_perms wc) err
    | Inr _ \<Rightarrow> while_active (bnd (auditChannelOpen C (wc_perms wc) [] True []) (\<lambda>_. emit RelayChannel))))"
    by (rule says_seq [where R = "\<lambda>_. True"])
      (use True assms in \<open>auto intro!: transport_says says_intros just.transport_failure just.active just.rejections\<close>)
  then show ?thesis unfolding relayDirectTCPIP_def Let_def using True by (simp add: just.slots)
next
  case False
  then show ?thesis unfolding relayDirectTCPIP_def Let_def
    by simp (intro says_weaken [OF always_bnd] says_intros just.rejections; simp)
qed

lemma channel_says: "says (\<lambda>h. h = g) (justified X C wc ch g) (handle_channel X C wc ch)"
proof -
  note quiet = says_weaken [OF just.rejections(2)] says_weaken [OF just.rejections(6)] says_weaken [OF always_bnd] just.rejections says_intros
  have session: "says (\<lambda>h. h = g) (justified X C wc ch g) (admitWorkspaceSession X C wc ch)" if "\<not> sc_draining C" "sc_WorkspaceTransports C"
    unfolding admitWorkspaceSession_def Let_def using that
    by (cases "fp_MustReconnect (wc_perms wc)"; cases "ParseBareTarget (env_lib (wo_env (su_world X))) (wc_target wc)")
      (auto intro!: quiet just.slots session_says)
  have direct: "says (\<lambda>h. h = g) (justified X C wc ch g) (admitDirectTCPIP X C wc ch)" if "nc_type ch = ''direct-tcpip''"
    unfolding admitDirectTCPIP_def Let_def using that
    by (auto intro!: quiet startJump_says jump_says relay_says split: option.split sum.split)
  show ?thesis unfolding handle_channel_def using session direct by (auto intro!: quiet)
qed

interpretation lax: quiet_effects "\<lambda>_. True"
  by unfold_locales simp

lemma says_mono: "says P Q m \<Longrightarrow> (\<And>e. Q e \<Longrightarrow> Q' e) \<Longrightarrow> says P Q' m"
  unfolding says_def by blast

text \<open>Which failures of the relay close the connection: none that concerns the credential.\<close>

lemma relay_close_says:
  "says (\<lambda>h. h = g) (\<lambda>e. e = CloseConn \<longrightarrow> (\<exists>snap. vetted X C (wc_perms wc) g snap \<and> snap_Token snap \<noteq> [])) (relayDirectTCPIP X C wc)"
proof -
  let ?v = "\<exists>snap. vetted X C (wc_perms wc) g snap \<and> snap_Token snap \<noteq> []"
  let ?Q = "\<lambda>e. e = CloseConn \<longrightarrow> ?v"
  let ?f = "\<lambda>tr. case tr of Inl err \<Rightarrow> rejectTransportFailure C (wc_perms wc) err
    | Inr _ \<Rightarrow> while_active (bnd (auditChannelOpen C (wc_perms wc) [] True []) (\<lambda>_. emit RelayChannel))"
  have small: "always ?Q (auditChannelOpen C p tg b d)" "always ?Q (limit_rejected C p reason)" for p tg b d reason
    unfolding auditChannelOpen_def limit_rejected_def rejectChannelLimit_def by (intro says_intros; simp)+
  have relay: "always ?Q (?f (Inr ()))" unfolding while_active_def sum.case by (intro says_intros small) simp_all
  have cred: "always ?Q (?f (Inl (CredentialValidationError d)))" for d
    unfolding rejectTransportFailure_def reject_open_def sum.case transport_failure.case by (intro says_intros) simp_all
  have ok: "always ?Q (bnd (createLocked X wc snap) ?f)" if v: "vetted X C (wc_perms wc) g snap" "snap_Token snap \<noteq> []" for snap
  proof (rule says_mono)
    show "always (\<lambda>_. True) (bnd (createLocked X wc snap) ?f)"
      by (intro says_intros lax.create lax.transport_failure lax.active lax.rejections) simp_all
  qed (use v in blast)
  have "says (\<lambda>h. h = g) ?Q (bnd (transport X C wc) ?f)" unfolding transport_def bnd_assoc
  proof (rule says_bnd [OF says_silent(2) keeps_gw_steps(5)])
    fix tr show "says (\<lambda>h. h = g) ?Q (bnd (if tr \<noteq> None then ret (Inr ()) else bnd (loadValidatedCredential X C (wc_perms wc)) (\<lambda>v.
        case v of Inl verr \<Rightarrow> ret (Inl verr) | Inr snap \<Rightarrow> createLocked X wc snap)) ?f)"
    proof (cases "tr = None")
      case True
      have "says (\<lambda>h. h = g) ?Q (bnd (loadValidatedCredential X C (wc_perms wc)) (\<lambda>v.
          bnd (case v of Inl verr \<Rightarrow> ret (Inl verr) | Inr snap \<Rightarrow> createLocked X wc snap) ?f))"
      proof (rule says_loadValidated, goal_cases)
        case (1 d)
        show ?case using cred [of d] by simp
      next
        case (2 snap)
        then show ?case using ok [of snap] by simp
      qed
      with True show ?thesis by (simp add: bnd_assoc)
    next
      case False
      then show ?thesis using says_weaken [OF relay] by simp
    qed
  qed
  then have run: "says (\<lambda>h. h = g) ?Q (with_channel_slots X C (wc_perms wc) (bnd (transport X C wc) ?f))"
    by (rule says_slots [OF _ small(2)])
  show ?thesis unfolding relayDirectTCPIP_def Let_def
    by (rule says_cases(1) [OF says_weaken run], intro says_intros small) simp_all
qed

section \<open>A concrete connection\<close>

text \<open>An account with a stored token; a client that asks for the SSH port of a workspace; processes that start.\<close>

definition demo_surroundings :: surroundings where
  "demo_surroundings = \<lparr>su_world = demo_world,
     su_Unmarshal = (\<lambda>b. if b = [] then None else Some \<lparr>DestinationAddress = b, DestinationPort = 22, OriginatorAddress = [], OriginatorPort = 0\<rparr>),
     su_NewTransport = (\<lambda>_ _ _. Inr ()), su_Start = (\<lambda>_ _. True), su_Bridge = (\<lambda>_. True), su_counters = (\<lambda>_. [])\<rparr>"

definition demo_srvConfig :: srvConfig where
  "demo_srvConfig = \<lparr>sc_Audit = True, sc_WorkspaceTransports = True, sc_CacheTTL = 15000000000, sc_draining = False\<rparr>"

definition demo_wc :: workspaceContext where
  "demo_wc = \<lparr>wc_perms = \<lparr>fp_Mode = ModeWorkspace, fp_AccountID = 5, fp_DeploymentID = 9, fp_SSHKeyID = 1, fp_CredentialGeneration = 1, fp_MustReconnect = False\<rparr>,
     wc_target = ''ws''\<rparr>"

definition demo_limits_config :: ConfigLimits where
  "demo_limits_config = \<lparr>UnauthenticatedConnections = 1, Handshakes = 1, ConnectionsPerIP = 1, ConnectionsPerKey = 1, ConnectionsPerAccount = 1,
     ChannelsPerConnection = 1, ChannelsPerAccount = 1, CoderProcesses = 1, CoderAPIRequests = 1, RenewalAttemptsPerConnection = 1,
     RenewalAttemptsPerAccountPerMinute = 1, ProcessShutdownGrace = 1, StderrBufferBytes = 1\<rparr>"

definition demo_server :: server where
  "demo_server = \<lparr>sx_gw = demo_gw demo_login, sx_counters = NewCounters demo_limits_config, sx_calls = 0, sx_slots = [], sx_transport = None,
     sx_active = 0, sx_conns = [], sx_trace = []\<rparr>"

definition demo_jump :: newChannel where
  "demo_jump = \<lparr>nc_type = ''direct-tcpip'', nc_extra = ''ws'', nc_acceptErr = False\<rparr>"

lemma demo_jump_starts: "list_ex hands (sx_trace (snd (handle_channel demo_surroundings demo_srvConfig demo_wc demo_jump demo_server)))"
  by code_simp

text \<open>A forward request handled after the dispatch loop has closed the transport, and before the context of the
  connection is cancelled, starts a transport whose process slot nothing gives back.\<close>

definition demo_forward :: request where
  "demo_forward = \<lparr>rq_Type = ''tcpip-forward'', rq_WantReply = True, rq_Payload = []\<rparr>"

lemma forward_after_close:
  "case handleGlobalRequest demo_surroundings demo_srvConfig demo_wc (\<lambda>_. True) demo_forward
      (snd (dispatchWorkspaceChannels demo_surroundings demo_srvConfig demo_wc [] demo_server)) of
     (_, t) \<Rightarrow> sx_transport t \<noteq> None \<and> sx_slots t \<noteq> [] \<and> list_all (\<lambda>x. \<not> spent x (sx_counters t)) (sx_slots t)"
  by code_simp

section \<open>Properties\<close>

text \<open>No slot is leaked. On a connection that starts with no slots, after any list of channel opens of any kind and the
  closing of the transport, every slot taken for a channel, an account or a process has been given back, the number
  of active channels is what it was and there is no transport: whatever is refused or fails, and whatever calls other
  connections make on the counters in between.\<close>

theorem channel_slots_returned:
  assumes "sx_slots s = []" "sx_transport s = None"
  shows "\<exists>t. dispatchWorkspaceChannels X C wc chs s = (Inr (), t) \<and> sx_transport t = None \<and> sx_active t = sx_active s
    \<and> (\<forall>x\<in>set (sx_slots t). spent x (sx_counters t))"
  using dispatch_settles [OF assms] by blast

theorem channel_slots_returned_witness:
  "\<exists>t x xs. dispatchWorkspaceChannels demo_surroundings demo_srvConfig demo_wc [demo_jump] demo_server = (Inr (), t)
     \<and> sx_slots t = x # xs \<and> spent x (sx_counters t)"
proof -
  let ?d = "dispatchWorkspaceChannels demo_surroundings demo_srvConfig demo_wc [demo_jump] demo_server"
  have taken: "case sx_slots (snd ?d) of [] \<Rightarrow> False | _ \<Rightarrow> True" by code_simp
  have "sx_slots demo_server = []" "sx_transport demo_server = None" by (simp_all add: demo_server_def)
  from channel_slots_returned [OF this, of demo_surroundings demo_srvConfig demo_wc "[demo_jump]"] obtain t
    where t: "?d = (Inr (), t)" "\<forall>x\<in>set (sx_slots t). spent x (sx_counters t)" by blast
  with taken obtain x xs where "sx_slots t = x # xs" by (auto split: list.splits)
  with t show ?thesis by (metis list.set_intros(1))
qed

text \<open>C18. A token reaches a process only through admission. Whatever channel is opened, if its handler starts a transport
  or a tunnel, then the server is not draining, the connection need not reconnect, and the token is the one the
  store holds for the account of the connection, neither invalid nor missing, and validated recently or attested by
  the verifier now; a tunnel is started only for a payload whose destination passes the strict target grammar, a
  transport only for the target of the connection and with a token.\<close>

theorem channel_tokens_vetted:
  assumes "handle_channel X C wc ch s = (r, t)"
  shows "\<exists>es. sx_trace t = sx_trace s @ es
    \<and> (\<forall>rt snap. StartTunnel rt snap \<in> set es \<longrightarrow> \<not> sc_draining C \<and> \<not> fp_MustReconnect (wc_perms wc) \<and> vetted X C (wc_perms wc) (sx_gw s) snap
        \<and> (\<exists>req. su_Unmarshal X (nc_extra ch) = Some req
             \<and> ParseDirectTCPIP (env_lib (wo_env (su_world X))) (DestinationAddress req) (DestinationPort req) = Inr rt))
    \<and> (\<forall>target snap. SpawnTransport target snap \<in> set es \<longrightarrow> \<not> sc_draining C \<and> \<not> fp_MustReconnect (wc_perms wc)
        \<and> vetted X C (wc_perms wc) (sx_gw s) snap \<and> snap_Token snap \<noteq> [] \<and> target = wc_target wc)"
proof -
  obtain es where es: "sx_trace t = sx_trace s @ es" "\<forall>e\<in>set es. justified X C wc ch (sx_gw s) e"
    using channel_says [of "sx_gw s" X C wc ch] assms unfolding says_def by (metis snd_conv)
  then show ?thesis by (intro exI [of _ es] conjI allI impI) (force simp: justified_def)+
qed

theorem channel_tokens_vetted_witness:
  "\<exists>snap. vetted demo_surroundings demo_srvConfig (wc_perms demo_wc) (demo_gw demo_login) snap"
proof -
  let ?h = "handle_channel demo_surroundings demo_srvConfig demo_wc demo_jump demo_server"
  obtain r t where t: "?h = (r, t)" by fastforce
  then have "list_ex hands (sx_trace t)" using demo_jump_starts by simp
  then obtain e where e: "e \<in> set (sx_trace t)" "hands e" by (auto simp: list_ex_iff)
  from channel_tokens_vetted [OF t] e show ?thesis by (cases e; auto simp: demo_server_def; blast)
qed

text \<open>The relay blames the credential for what is not its fault. When the handler of a relayed channel closes the
  connection, telling the client that its credential is no longer valid, the credential was loaded, usable and
  validated: the connection is closed only because no process slot was free or the transport did not start. A
  credential that fails to load or to validate is reported as an unavailable workspace, and the connection stays.\<close>

theorem relay_closes_only_valid:
  assumes "relayDirectTCPIP X C wc s = (r, t)" "sx_trace s = []" "CloseConn \<in> set (sx_trace t)"
  shows "\<exists>snap. vetted X C (wc_perms wc) (sx_gw s) snap \<and> snap_Token snap \<noteq> []"
  using relay_close_says [of "sx_gw s" X C wc] assms unfolding says_def by (metis append_Nil snd_conv)

fun closes :: "effect \<Rightarrow> bool" where
  "closes CloseConn = True"
| "closes _ = False"

lemma closes_iff: "closes e \<longleftrightarrow> e = CloseConn"
  by (cases e) simp_all

definition demo_exhausted :: server where
  "demo_exhausted = demo_server\<lparr>sx_counters := NewCounters (demo_limits_config\<lparr>CoderProcesses := 0\<rparr>)\<rparr>"

theorem relay_closes_only_valid_witness:
  "CloseConn \<in> set (sx_trace (snd (relayDirectTCPIP demo_surroundings demo_srvConfig demo_wc demo_exhausted)))
   \<and> (\<exists>snap. vetted demo_surroundings demo_srvConfig (wc_perms demo_wc) (demo_gw demo_login) snap \<and> snap_Token snap \<noteq> [])"
proof
  let ?r = "relayDirectTCPIP demo_surroundings demo_srvConfig demo_wc demo_exhausted"
  have "list_ex closes (sx_trace (snd ?r))" by code_simp
  then show c: "CloseConn \<in> set (sx_trace (snd ?r))" by (auto simp: list_ex_iff closes_iff)
  show "\<exists>snap. vetted demo_surroundings demo_srvConfig (wc_perms demo_wc) (demo_gw demo_login) snap \<and> snap_Token snap \<noteq> []"
    using relay_closes_only_valid [of demo_surroundings demo_srvConfig demo_wc demo_exhausted "fst ?r" "snd ?r"] c
    by (simp add: demo_exhausted_def demo_server_def)
qed

end
