(* ===== verification/ConfigCheck.thy ===== *)
theory ConfigCheck
  imports SshAuth Limits Route
begin

unbundle bit_operations_syntax

text \<open>
  \<open>internal/config\<close>: the configuration with its defaults (\<open>config.go\<close>), the environment overrides (\<open>env.go\<close>) and the
  startup validation (\<open>validate.go\<close>), and the part of \<open>internal/app/serve.go\<close> that builds the authentication
  configuration from it. The YAML decoder, \<open>net/url\<close> and the file system are parameters. A violation is represented by
  the field it names; where the code iterates over a map, the order here is that of the source text. What a
  configuration that passes validation guarantees to the components built from it is proved at the end.
\<close>

section \<open>The configuration (config.go)\<close>

record cfgListen =
  li_Address :: string
  li_HandshakeTimeout :: int
  li_RenewalAuthTimeout :: int
  li_TCPKeepalive :: int
  li_ProxyProtocol :: bool

record cfgSSH =
  ss_ServerVersion :: string
  ss_HostKeys :: "string list"
  ss_AllowSSHCertificates :: bool

record cfgState =
  sd_Dir :: string
  sd_AuditRetentionDays :: int

record cfgEncryption =
  en_Provider :: string
  en_ActiveKeyID :: string
  en_Keys :: "(string \<times> string) list"

record cfgTLS =
  tl_CAFile :: string
  tl_ClientCertFile :: string
  tl_ClientKeyFile :: string

record cfgNetwork =
  nw_DisableCoderTelemetry :: bool
  nw_HTTPSProxy :: string
  nw_NoProxy :: string

record cfgDeployment =
  dp_ID :: string
  dp_CoderURL :: string
  dp_CoderBinary :: string
  dp_CoderGlobalConfig :: string
  dp_WorkingDirectory :: string
  dp_Autostart :: bool
  dp_Wait :: string
  dp_WorkspaceConnectTimeout :: int
  dp_TokenValidationTimeout :: int
  dp_TokenValidationCache :: int
  dp_TLS :: cfgTLS
  dp_Network :: cfgNetwork

record cfgEnrollment =
  er_Enabled :: bool
  er_User :: string
  er_MaxAttempts :: int
  er_Timeout :: int

record cfgKeyManagement =
  km_Enabled :: bool
  km_User :: string

record cfgObservability =
  ob_LogFormat :: string
  ob_LogLevel :: string
  ob_MetricsAddress :: string
  ob_HealthAddress :: string

record Config =
  cfg_Version :: int
  cfg_Listen :: cfgListen
  cfg_SSH :: cfgSSH
  cfg_State :: cfgState
  cfg_Encryption :: cfgEncryption
  cfg_Deployment :: cfgDeployment
  cfg_Limits :: ConfigLimits
  cfg_Enrollment :: cfgEnrollment
  cfg_KeyManagement :: cfgKeyManagement
  cfg_Observability :: cfgObservability

definition Second :: int where "Second = 1000000000"
definition Minute :: int where "Minute = 60 * Second"

definition Default :: Config where
  "Default = \<lparr>cfg_Version = 1,
     cfg_Listen = \<lparr>li_Address = '':22'', li_HandshakeTimeout = 30 * Second, li_RenewalAuthTimeout = 5 * Minute,
       li_TCPKeepalive = 30 * Second, li_ProxyProtocol = False\<rparr>,
     cfg_SSH = \<lparr>ss_ServerVersion = [], ss_HostKeys = [], ss_AllowSSHCertificates = False\<rparr>,
     cfg_State = \<lparr>sd_Dir = [], sd_AuditRetentionDays = 90\<rparr>,
     cfg_Encryption = \<lparr>en_Provider = ''file'', en_ActiveKeyID = [], en_Keys = []\<rparr>,
     cfg_Deployment = \<lparr>dp_ID = ''primary'', dp_CoderURL = [], dp_CoderBinary = ''/usr/local/bin/coder'',
       dp_CoderGlobalConfig = ''/var/lib/coder-ssh-gateway/coder-config'', dp_WorkingDirectory = ''/var/empty/coder-ssh-gateway'',
       dp_Autostart = True, dp_Wait = ''auto'', dp_WorkspaceConnectTimeout = 5 * Minute, dp_TokenValidationTimeout = 10 * Second,
       dp_TokenValidationCache = 15 * Second, dp_TLS = \<lparr>tl_CAFile = [], tl_ClientCertFile = [], tl_ClientKeyFile = []\<rparr>,
       dp_Network = \<lparr>nw_DisableCoderTelemetry = True, nw_HTTPSProxy = [], nw_NoProxy = []\<rparr>\<rparr>,
     cfg_Limits = \<lparr>UnauthenticatedConnections = 128, Handshakes = 64, ConnectionsPerIP = 16, ConnectionsPerKey = 8,
       ConnectionsPerAccount = 8, ChannelsPerConnection = 4, ChannelsPerAccount = 8, CoderProcesses = 128, CoderAPIRequests = 32,
       RenewalAttemptsPerConnection = 3, RenewalAttemptsPerAccountPerMinute = 5, ProcessShutdownGrace = 5 * Second,
       StderrBufferBytes = 65536\<rparr>,
     cfg_Enrollment = \<lparr>er_Enabled = True, er_User = ''login'', er_MaxAttempts = 3, er_Timeout = 5 * Minute\<rparr>,
     cfg_KeyManagement = \<lparr>km_Enabled = True, km_User = ''login-admin''\<rparr>,
     cfg_Observability = \<lparr>ob_LogFormat = ''json'', ob_LogLevel = ''info'', ob_MetricsAddress = ''127.0.0.1:9090'',
       ob_HealthAddress = ''127.0.0.1:9091''\<rparr>\<rparr>"

section \<open>Paths\<close>

text \<open>\<open>filepath.IsAbs\<close>, \<open>filepath.Clean\<close> and \<open>filepath.Join\<close> on Unix. \<open>clean_step\<close> keeps the components met so far in
  reverse.\<close>

definition filepath_IsAbs :: "string \<Rightarrow> bool" where
  "filepath_IsAbs p = HasPrefix p ''/''"

definition clean_step :: "bool \<Rightarrow> string \<Rightarrow> string list \<Rightarrow> string list" where
  "clean_step rooted c stack =
     (if c = [] \<or> c = ''.'' then stack
      else if c = ''..'' then
        (case stack of [] \<Rightarrow> if rooted then [] else [c] | d # ds \<Rightarrow> if d = ''..'' then c # stack else ds)
      else c # stack)"

definition filepath_Clean :: "string \<Rightarrow> string" where
  "filepath_Clean p =
     (let rooted = filepath_IsAbs p; out = Join ''/'' (rev (fold (clean_step rooted) (Split (CHR ''/'') p) [])) in
      if rooted then CHR ''/'' # out else if out = [] then ''.'' else out)"

definition filepath_Join :: "string \<Rightarrow> string \<Rightarrow> string" where
  "filepath_Join a b = (if a = [] \<and> b = [] then [] else if a = [] then filepath_Clean b else if b = [] then filepath_Clean a
     else filepath_Clean (a @ ''/'' @ b))"

definition DefaultConfigPath :: "string \<Rightarrow> string" where
  "DefaultConfigPath stateDir = filepath_Join stateDir ''config.yaml''"

definition DefaultHostKeyPath :: "string \<Rightarrow> string" where
  "DefaultHostKeyPath stateDir = filepath_Join stateDir ''secrets/ssh_host_ed25519_key''"

definition DefaultEncryptionKeyPath :: "string \<Rightarrow> string" where
  "DefaultEncryptionKeyPath stateDir = filepath_Join stateDir ''secrets/credential-key-v1''"

definition ApplyStateDir :: "string \<Rightarrow> Config \<Rightarrow> Config" where
  "ApplyStateDir stateDir cfg =
     (let cfg = (if stateDir \<noteq> [] then cfg\<lparr>cfg_State := (cfg_State cfg)\<lparr>sd_Dir := stateDir\<rparr>\<rparr> else cfg);
          dir = sd_Dir (cfg_State cfg);
          cfg = (if ss_HostKeys (cfg_SSH cfg) = [] \<and> dir \<noteq> []
            then cfg\<lparr>cfg_SSH := (cfg_SSH cfg)\<lparr>ss_HostKeys := [DefaultHostKeyPath dir]\<rparr>\<rparr> else cfg) in
      if en_Keys (cfg_Encryption cfg) = [] \<and> dir \<noteq> []
      then cfg\<lparr>cfg_Encryption := (cfg_Encryption cfg)\<lparr>en_Keys := [(''v1'', DefaultEncryptionKeyPath dir)],
             en_ActiveKeyID := (if en_ActiveKeyID (cfg_Encryption cfg) = [] then ''v1'' else en_ActiveKeyID (cfg_Encryption cfg))\<rparr>\<rparr>
      else cfg)"

definition resolve :: "string \<Rightarrow> string \<Rightarrow> string" where
  "resolve base p = (if p = [] \<or> filepath_IsAbs p then p else filepath_Join base p)"

definition resolveRelativePaths :: "string \<Rightarrow> Config \<Rightarrow> Config" where
  "resolveRelativePaths base cfg = cfg\<lparr>
     cfg_SSH := (cfg_SSH cfg)\<lparr>ss_HostKeys := map (resolve base) (ss_HostKeys (cfg_SSH cfg))\<rparr>,
     cfg_Encryption := (cfg_Encryption cfg)\<lparr>en_Keys := map (\<lambda>(i, k). (i, if HasPrefix k ''env:'' then k else resolve base k)) (en_Keys (cfg_Encryption cfg))\<rparr>,
     cfg_State := (cfg_State cfg)\<lparr>sd_Dir := resolve base (sd_Dir (cfg_State cfg))\<rparr>,
     cfg_Deployment := (cfg_Deployment cfg)\<lparr>
       dp_CoderBinary := resolve base (dp_CoderBinary (cfg_Deployment cfg)),
       dp_CoderGlobalConfig := resolve base (dp_CoderGlobalConfig (cfg_Deployment cfg)),
       dp_WorkingDirectory := resolve base (dp_WorkingDirectory (cfg_Deployment cfg)),
       dp_TLS := (let t = dp_TLS (cfg_Deployment cfg) in
         \<lparr>tl_CAFile = resolve base (tl_CAFile t), tl_ClientCertFile = resolve base (tl_ClientCertFile t), tl_ClientKeyFile = resolve base (tl_ClientKeyFile t)\<rparr>)\<rparr>\<rparr>"

text \<open>\<open>Parse\<close> after the decoder; \<open>base\<close> is the absolute directory of the configuration file.\<close>

definition Parse :: "(bytes \<Rightarrow> Config \<Rightarrow> Config option) \<Rightarrow> string \<Rightarrow> bytes option \<Rightarrow> Config option" where
  "Parse yaml base raw =
     (case raw of
        None \<Rightarrow> None
      | Some b \<Rightarrow>
          (case yaml b Default of
             None \<Rightarrow> None
           | Some cfg \<Rightarrow>
               let cfg = resolveRelativePaths base cfg in
               Some (if sd_Dir (cfg_State cfg) = [] then cfg\<lparr>cfg_State := (cfg_State cfg)\<lparr>sd_Dir := base\<rparr>\<rparr> else cfg)))"

section \<open>Overrides (env.go)\<close>

datatype address_error = AddressForm | PortNotNumeric | PortRange

definition checkListenAddress :: "string \<Rightarrow> address_error option" where
  "checkListenAddress addr =
     (case net_SplitHostPort addr of
        None \<Rightarrow> Some AddressForm
      | Some (_, port) \<Rightarrow>
          (case ParseInt port of
             None \<Rightarrow> Some PortNotNumeric
           | Some n \<Rightarrow> if n < 0 \<or> 65535 < n then Some PortRange else None))"

definition EnvListenAddress :: string where "EnvListenAddress = ''CSGW_LISTEN_ADDRESS''"
definition EnvMetricsAddress :: string where "EnvMetricsAddress = ''CSGW_METRICS_ADDRESS''"
definition EnvHealthAddress :: string where "EnvHealthAddress = ''CSGW_HEALTH_ADDRESS''"
definition EnvEnrollmentUser :: string where "EnvEnrollmentUser = ''CSGW_ENROLLMENT_USER''"
definition EnvKeyManagementUser :: string where "EnvKeyManagementUser = ''CSGW_KEY_MANAGEMENT_USER''"

text \<open>One row per override: the variable, how its value is stored, whether the value is checked.\<close>

definition overrides :: "(string \<times> (string \<Rightarrow> Config \<Rightarrow> Config) \<times> bool) list" where
  "overrides =
     [(EnvListenAddress, \<lambda>v c. c\<lparr>cfg_Listen := (cfg_Listen c)\<lparr>li_Address := v\<rparr>\<rparr>, True),
      (EnvMetricsAddress, \<lambda>v c. c\<lparr>cfg_Observability := (cfg_Observability c)\<lparr>ob_MetricsAddress := v\<rparr>\<rparr>, True),
      (EnvHealthAddress, \<lambda>v c. c\<lparr>cfg_Observability := (cfg_Observability c)\<lparr>ob_HealthAddress := v\<rparr>\<rparr>, True),
      (EnvEnrollmentUser, \<lambda>v c. c\<lparr>cfg_Enrollment := (cfg_Enrollment c)\<lparr>er_User := v\<rparr>\<rparr>, False),
      (EnvKeyManagementUser, \<lambda>v c. c\<lparr>cfg_KeyManagement := (cfg_KeyManagement c)\<lparr>km_User := v\<rparr>\<rparr>, False)]"

fun pending_overrides :: "(string \<Rightarrow> string option) \<Rightarrow> (string \<times> 'd \<times> bool) list \<Rightarrow> (string \<times> address_error) + (string \<times> 'd \<times> string) list" where
  "pending_overrides env [] = Inr []"
| "pending_overrides env ((name, dest, checked) # os) =
     (case env name of
        None \<Rightarrow> pending_overrides env os
      | Some v \<Rightarrow>
          if v = [] then pending_overrides env os
          else if checked \<and> checkListenAddress v \<noteq> None then Inl (name, the (checkListenAddress v))
          else (case pending_overrides env os of Inl e \<Rightarrow> Inl e | Inr ps \<Rightarrow> Inr ((name, dest, v) # ps)))"

definition ApplyEnvOverrides :: "(string \<Rightarrow> string option) \<Rightarrow> Config \<Rightarrow> (string \<times> address_error) + (string list \<times> Config)" where
  "ApplyEnvOverrides env cfg =
     (case pending_overrides env overrides of
        Inl e \<Rightarrow> Inl e
      | Inr ps \<Rightarrow> Inr (map fst ps, fold (\<lambda>(_, dest, v). dest v) ps cfg))"

section \<open>Validation (validate.go)\<close>

text \<open>What validation asks of its surroundings: the mode of a file (directory, regular, permission bits), whether a file
  can be created in a directory, and the scheme and host of a URL.\<close>

record fileInfo =
  fi_IsDir :: bool
  fi_IsRegular :: bool
  fi_Perm :: "32 word"

record probes =
  os_Stat :: "string \<Rightarrow> fileInfo option"
  os_CreateTemp :: "string \<Rightarrow> bool"
  url_Parse :: "string \<Rightarrow> (string \<times> string) option"

text \<open>The violations a check appends are its result; a violation names the field.\<close>

definition complain :: "bool \<Rightarrow> string \<Rightarrow> string list" where
  "complain bad field = (if bad then [field] else [])"

definition checkReadableFile :: "probes \<Rightarrow> string \<Rightarrow> string \<Rightarrow> string list \<times> fileInfo option" where
  "checkReadableFile F field path =
     (case os_Stat F path of
        None \<Rightarrow> ([field], None)
      | Some fi \<Rightarrow> if \<not> fi_IsRegular fi then ([field], None) else ([], Some fi))"

definition checkSecretFile :: "probes \<Rightarrow> string \<Rightarrow> string \<Rightarrow> string list" where
  "checkSecretFile F field path =
     (case checkReadableFile F field path of
        (errs, None) \<Rightarrow> errs
      | (errs, Some fi) \<Rightarrow> errs @ complain ((fi_Perm fi AND 0x12) \<noteq> 0) field)"

definition validateBindAddresses :: "Config \<Rightarrow> string list" where
  "validateBindAddresses c =
     complain (checkListenAddress (li_Address (cfg_Listen c)) \<noteq> None) ''listen.address''
     @ complain (ob_MetricsAddress (cfg_Observability c) \<noteq> [] \<and> checkListenAddress (ob_MetricsAddress (cfg_Observability c)) \<noteq> None) ''observability.metrics_address''
     @ complain (ob_HealthAddress (cfg_Observability c) \<noteq> [] \<and> checkListenAddress (ob_HealthAddress (cfg_Observability c)) \<noteq> None) ''observability.health_address''"

definition validateSSH :: "probes \<Rightarrow> Config \<Rightarrow> string list" where
  "validateSSH F c =
     complain (ss_AllowSSHCertificates (cfg_SSH c)) ''ssh.allow_ssh_certificates''
     @ complain (ss_HostKeys (cfg_SSH c) = []) ''ssh.host_keys''
     @ concat (map (checkSecretFile F ''ssh.host_keys'') (ss_HostKeys (cfg_SSH c)))"

definition validateState :: "probes \<Rightarrow> Config \<Rightarrow> string list" where
  "validateState F c =
     (let dir = sd_Dir (cfg_State c) in
      (if dir = [] then [''state.dir'']
       else case os_Stat F dir of
         None \<Rightarrow> [''state.dir'']
       | Some fi \<Rightarrow> complain (\<not> fi_IsDir fi \<or> \<not> os_CreateTemp F dir) ''state.dir'')
      @ complain (sd_AuditRetentionDays (cfg_State c) \<le> 0) ''state.audit_retention_days'')"

definition validateEncryption :: "probes \<Rightarrow> Config \<Rightarrow> string list" where
  "validateEncryption F c =
     (let e = cfg_Encryption c in
      complain (en_Provider e \<noteq> ''file'') ''encryption.provider''
      @ complain (en_Keys e = []) ''encryption.keys''
      @ (if en_ActiveKeyID e = [] then [''encryption.active_key_id'']
         else complain (map_of (en_Keys e) (en_ActiveKeyID e) = None \<and> en_Keys e \<noteq> []) ''encryption.active_key_id'')
      @ concat (map (\<lambda>(i, path). if HasPrefix path ''env:'' then [] else checkSecretFile F (''encryption.keys.'' @ i) path) (en_Keys e)))"

definition validateDeployment :: "probes \<Rightarrow> Config \<Rightarrow> string list" where
  "validateDeployment F c =
     (let d = cfg_Deployment c; tls = dp_TLS d in
      (case url_Parse F (dp_CoderURL d) of
         None \<Rightarrow> [''deployment.coder_url'']
       | Some (scheme, host) \<Rightarrow> complain (dp_CoderURL d = [] \<or> host = [] \<or> scheme \<noteq> ''https'') ''deployment.coder_url'')
      @ complain (dp_Wait d \<notin> {''yes'', ''no'', ''auto''}) ''deployment.wait''
      @ (if dp_CoderBinary d = [] then [''deployment.coder_binary'']
         else case os_Stat F (dp_CoderBinary d) of
           None \<Rightarrow> [''deployment.coder_binary'']
         | Some fi \<Rightarrow> complain (fi_IsDir fi \<or> (fi_Perm fi AND 0x49) = 0) ''deployment.coder_binary'')
      @ complain (dp_WorkspaceConnectTimeout d \<le> 0) ''deployment.workspace_connect_timeout''
      @ complain (dp_TokenValidationTimeout d \<le> 0) ''deployment.token_validation_timeout''
      @ complain (dp_TokenValidationCache d \<le> 0) ''deployment.token_validation_cache''
      @ (if tl_CAFile tls \<noteq> [] then fst (checkReadableFile F ''deployment.tls.ca_file'' (tl_CAFile tls)) else [])
      @ complain (tl_ClientKeyFile tls \<noteq> [] \<and> tl_ClientCertFile tls = []) ''deployment.tls''
      @ (if tl_ClientCertFile tls \<noteq> [] then fst (checkReadableFile F ''deployment.tls.client_cert_file'' (tl_ClientCertFile tls)) else [])
      @ (if tl_ClientKeyFile tls \<noteq> [] then checkSecretFile F ''deployment.tls.client_key_file'' (tl_ClientKeyFile tls) else []))"

definition validateLimits :: "Config \<Rightarrow> string list" where
  "validateLimits c =
     (let l = cfg_Limits c in
      concat (map (\<lambda>(field, v). complain (v \<le> 0) field)
        [(''limits.unauthenticated_connections'', UnauthenticatedConnections l), (''limits.handshakes'', Handshakes l),
         (''limits.connections_per_ip'', ConnectionsPerIP l), (''limits.connections_per_key'', ConnectionsPerKey l),
         (''limits.connections_per_account'', ConnectionsPerAccount l), (''limits.channels_per_connection'', ChannelsPerConnection l),
         (''limits.channels_per_account'', ChannelsPerAccount l), (''limits.coder_processes'', CoderProcesses l),
         (''limits.coder_api_requests'', CoderAPIRequests l), (''limits.renewal_attempts_per_connection'', RenewalAttemptsPerConnection l),
         (''limits.renewal_attempts_per_account_per_minute'', RenewalAttemptsPerAccountPerMinute l),
         (''limits.stderr_buffer_bytes'', StderrBufferBytes l), (''limits.process_shutdown_grace'', ProcessShutdownGrace l),
         (''listen.handshake_timeout'', li_HandshakeTimeout (cfg_Listen c)),
         (''listen.renewal_auth_timeout'', li_RenewalAuthTimeout (cfg_Listen c)), (''listen.tcp_keepalive'', li_TCPKeepalive (cfg_Listen c))]))"

definition validateEnrollment :: "Config \<Rightarrow> string list" where
  "validateEnrollment c =
     (if \<not> er_Enabled (cfg_Enrollment c) then []
      else complain (er_User (cfg_Enrollment c) = []) ''enrollment.user''
        @ complain (er_MaxAttempts (cfg_Enrollment c) \<le> 0) ''enrollment.max_attempts''
        @ complain (er_Timeout (cfg_Enrollment c) \<le> 0) ''enrollment.timeout'')"

text \<open>The pattern \<^verbatim>\<open>^[a-z0-9]([a-z0-9-]{0,61}[a-z0-9])?$\<close>: the first character, then nothing, or up to 61 characters and
  a last one.\<close>

definition alnum :: "char \<Rightarrow> bool" where
  "alnum b \<longleftrightarrow> CHR ''a'' \<le> b \<and> b \<le> CHR ''z'' \<or> CHR ''0'' \<le> b \<and> b \<le> CHR ''9''"

definition usernamePattern :: "string \<Rightarrow> bool" where
  "usernamePattern u =
     (case u of
        [] \<Rightarrow> False
      | b # rest \<Rightarrow> alnum b \<and> (rest = [] \<or> length (butlast rest) \<le> 61 \<and> list_all (\<lambda>x. alnum x \<or> x = CHR ''-'') (butlast rest) \<and> alnum (last rest)))"

definition validateUsernames :: "Config \<Rightarrow> string list" where
  "validateUsernames c =
     (let e = cfg_Enrollment c; k = cfg_KeyManagement c in
      complain (km_Enabled k \<and> km_User k = []) ''key_management.user''
      @ complain (er_User e \<noteq> [] \<and> \<not> usernamePattern (er_User e)) ''enrollment.user''
      @ complain (km_User k \<noteq> [] \<and> \<not> usernamePattern (km_User k)) ''key_management.user''
      @ complain (er_Enabled e \<and> km_Enabled k \<and> er_User e \<noteq> [] \<and> km_User k \<noteq> [] \<and> er_User e = km_User k) ''enrollment.user and key_management.user'')"

definition Validate :: "probes \<Rightarrow> Config \<Rightarrow> string list" where
  "Validate F c = validateBindAddresses c @ validateSSH F c @ validateState F c @ validateEncryption F c @ validateDeployment F c
     @ validateLimits c @ validateEnrollment c @ validateUsernames c"

text \<open>The authentication configuration of the running gateway (\<open>Build\<close> in serve.go); \<open>dep\<close> is the derived identifier of
  the deployment.\<close>

definition auth_config :: "Config \<Rightarrow> uuid \<Rightarrow> AuthConfig" where
  "auth_config cfg dep = \<lparr>ac_DeploymentID = dep, ac_RenewalAuthTimeout = li_RenewalAuthTimeout (cfg_Listen cfg),
     ac_Renewal = Some \<lparr>rc_Rate = True, rc_Audit = True, rc_MaxAttempts = RenewalAttemptsPerConnection (cfg_Limits cfg),
       rc_RenewalTimeout = li_RenewalAuthTimeout (cfg_Listen cfg), rc_DeploymentID = dep\<rparr>,
     ac_EnrollmentUser = er_User (cfg_Enrollment cfg),
     ac_Enrollment = (if er_Enabled (cfg_Enrollment cfg) then Some \<lparr>ec_Enabled = True, ec_User = er_User (cfg_Enrollment cfg), ec_Verifier = True,
       ec_Store = True, ec_Rate = True, ec_PreTokenGate = True, ec_Workspaces = True, ec_Audit = True, ec_MaxAttempts = er_MaxAttempts (cfg_Enrollment cfg),
       ec_RenewalTimeout = er_Timeout (cfg_Enrollment cfg), ec_DeploymentID = dep\<rparr> else None),
     ac_KeyManagementUser = km_User (cfg_KeyManagement cfg),
     ac_KeyManagement = (if km_Enabled (cfg_KeyManagement cfg) then Some True else None),
     ac_Store = True, ac_Verifier = True, ac_Audit = True\<rparr>"

section \<open>User names and targets\<close>

text \<open>The user names are labels of the target grammar, up to the internationalized ones.\<close>

lemma label_byte_alnum: "label_byte b \<longleftrightarrow> alnum b \<or> b = CHR ''-''"
  by (auto simp: label_byte_def alnum_def)

lemma not_dash [simp]: "\<not> alnum CHR ''-''"
  by (simp add: alnum_def less_eq_char_def)

lemma validLabel_username: "validLabel u \<longleftrightarrow> usernamePattern u \<and> \<not> HasPrefix u ''xn--''"
proof (cases u)
  case (Cons b rest)
  show ?thesis
  proof (cases "rest = []")
    case True
    then show ?thesis using Cons by (auto simp: validLabel_def usernamePattern_def maxLabelBytes_def label_byte_alnum HasPrefix_def)
  next
    case False
    then have "list_all label_byte rest \<longleftrightarrow> list_all label_byte (butlast rest) \<and> label_byte (last rest)"
      using list_all_append [of label_byte "butlast rest" "[last rest]"] by simp
    moreover have "length (butlast rest) \<le> 61 \<longleftrightarrow> length u \<le> 63" using Cons False by (cases rest) auto
    ultimately show ?thesis using Cons False
      by (auto simp: validLabel_def usernamePattern_def maxLabelBytes_def label_byte_alnum [abs_def] list_all_iff)
  qed
qed (simp add: validLabel_def usernamePattern_def)

lemma username_is_target:
  assumes "usernamePattern u" "\<not> HasPrefix u ''xn--''" shows "ParseBareTarget L u = Inr (accepted_route u u)"
proof -
  have v: "validLabel u" using assms by (simp add: validLabel_username)
  have d: "dotted u" unfolding dotted_def by (intro exI [of _ "[u]"]) (simp add: v)
  then show ?thesis using normalize_accepted [of u L] validLabel_length [OF v] by (auto simp: ParseBareTarget_Inr)
qed

section \<open>Overrides\<close>

lemma Validate_Nil: "Validate F c = [] \<longleftrightarrow> validateBindAddresses c = [] \<and> validateSSH F c = [] \<and> validateState F c = []
    \<and> validateEncryption F c = [] \<and> validateDeployment F c = [] \<and> validateLimits c = [] \<and> validateEnrollment c = [] \<and> validateUsernames c = []"
  by (simp add: Validate_def)

lemma complain_Nil [simp]: "complain b f = [] \<longleftrightarrow> \<not> b"
  by (simp add: complain_def)

lemma pending_checked:
  "pending_overrides env os = Inr ps \<Longrightarrow> (n, d, True) \<in> set os \<Longrightarrow> env n = Some v \<Longrightarrow> v \<noteq> [] \<Longrightarrow> checkListenAddress v = None"
proof (induction os arbitrary: ps)
  case (Cons r os)
  obtain m e b where r: "r = (m, e, b)" by (cases r) auto
  from Cons.prems(1) consider "env m = None \<or> env m = Some []" "pending_overrides env os = Inr ps"
    | w qs where "env m = Some w" "\<not> (b \<and> checkListenAddress w \<noteq> None)" "pending_overrides env os = Inr qs"
    by (auto simp: r split: option.splits if_splits sum.splits)
  then show ?case
  proof cases
    case 1
    then show ?thesis using Cons r by auto
  next
    case 2
    then show ?thesis using Cons r by auto
  qed
qed simp

text \<open>Overridden addresses pass the address check, so an override never makes validation fail on them.\<close>

lemma overridden_addresses:
  assumes "ApplyEnvOverrides env c = Inr (applied, c')"
  shows "env EnvListenAddress = Some v \<Longrightarrow> v \<noteq> [] \<Longrightarrow> checkListenAddress v = None"
    "env EnvMetricsAddress = Some v \<Longrightarrow> v \<noteq> [] \<Longrightarrow> checkListenAddress v = None"
    "env EnvHealthAddress = Some v \<Longrightarrow> v \<noteq> [] \<Longrightarrow> checkListenAddress v = None"
proof -
  obtain ps where ps: "pending_overrides env overrides = Inr ps" using assms by (auto simp: ApplyEnvOverrides_def split: sum.splits)
  note c = pending_checked [OF ps, unfolded overrides_def]
  show "env EnvListenAddress = Some v \<Longrightarrow> v \<noteq> [] \<Longrightarrow> checkListenAddress v = None"
    "env EnvMetricsAddress = Some v \<Longrightarrow> v \<noteq> [] \<Longrightarrow> checkListenAddress v = None"
    "env EnvHealthAddress = Some v \<Longrightarrow> v \<noteq> [] \<Longrightarrow> checkListenAddress v = None"
    by (rule c; auto)+
qed

section \<open>Paths\<close>

lemma Clean_abs: "filepath_IsAbs p \<Longrightarrow> filepath_IsAbs (filepath_Clean p)"
  by (simp add: filepath_Clean_def Let_def filepath_IsAbs_def HasPrefix_def)

lemma resolve_abs:
  assumes "filepath_IsAbs base" shows "resolve base p = [] \<or> filepath_IsAbs (resolve base p)"
proof -
  have "base \<noteq> []" "filepath_IsAbs (base @ q)" for q using assms by (cases base; auto simp: filepath_IsAbs_def HasPrefix_def)+
  then show ?thesis using Clean_abs by (auto simp: resolve_def filepath_Join_def)
qed

lemma resolve_twice: "filepath_IsAbs base \<Longrightarrow> resolve b' (resolve base p) = resolve base p"
  using resolve_abs [of base p] by (auto simp: resolve_def [of b'])

text \<open>Resolved paths do not depend on the working directory.\<close>

lemma resolveRelativePaths_twice:
  assumes "filepath_IsAbs base" shows "resolveRelativePaths b' (resolveRelativePaths base c) = resolveRelativePaths base c"
  using resolve_twice [OF assms, of b']
  by (auto simp: resolveRelativePaths_def Let_def comp_def case_prod_beta)

section \<open>What validation guarantees\<close>

lemma validated_limits:
  assumes "validateLimits c = []"
  shows "0 < UnauthenticatedConnections (cfg_Limits c)" "0 < Handshakes (cfg_Limits c)" "0 < ConnectionsPerIP (cfg_Limits c)"
    "0 < ConnectionsPerKey (cfg_Limits c)" "0 < ConnectionsPerAccount (cfg_Limits c)" "0 < ChannelsPerConnection (cfg_Limits c)"
    "0 < ChannelsPerAccount (cfg_Limits c)" "0 < CoderProcesses (cfg_Limits c)" "0 < CoderAPIRequests (cfg_Limits c)"
    "0 < RenewalAttemptsPerConnection (cfg_Limits c)"
  using assms by (simp_all add: validateLimits_def Let_def not_le)

lemma first_slot:
  "0 < m \<Longrightarrow> fst (sem_Acquire (new_sem m)) \<noteq> None" "0 < m \<Longrightarrow> fst (acquireMapped m k empty_mapped) \<noteq> None"
  by (simp_all add: sem_Acquire_def new_sem_def acquireMapped_def empty_mapped_def acquire_at_def Let_def)

lemma secret_file:
  "checkSecretFile F field path = [] \<Longrightarrow> \<exists>fi. os_Stat F path = Some fi \<and> fi_IsRegular fi \<and> (fi_Perm fi AND 0x12) = 0"
  by (auto simp: checkSecretFile_def checkReadableFile_def split: option.splits if_splits)

text \<open>C35. A configuration that passes validation starts a working gateway: the authentication configuration built from it
  is accepted and keeps the configured attempt bounds, the enrollment and key-management users cannot be confused,
  the control plane is reached over HTTPS, the active encryption key has a source and every key file is a regular
  file nobody else can write, and with these limits a fresh set of counters admits the first connection, handshake,
  channel, process and control-plane call of every kind.\<close>

theorem config_starts:
  assumes "Validate F c = []" "dep \<noteq> uuid_Nil"
  shows "auth_validate (auth_config c dep) = None
    \<and> (\<forall>rc. ac_Renewal (auth_config c dep) = Some rc \<longrightarrow> rc_maxAttempts rc = RenewalAttemptsPerConnection (cfg_Limits c))
    \<and> (\<forall>ec. ac_Enrollment (auth_config c dep) = Some ec \<longrightarrow> ec_maxAttempts ec = er_MaxAttempts (cfg_Enrollment c))
    \<and> \<not> (enrollmentEnabled (auth_config c dep) \<and> keysEnabled (auth_config c dep)
         \<and> enrollmentUser (auth_config c dep) = keysUser (auth_config c dep))
    \<and> (\<exists>host. url_Parse F (dp_CoderURL (cfg_Deployment c)) = Some (''https'', host) \<and> host \<noteq> [])
    \<and> map_of (en_Keys (cfg_Encryption c)) (en_ActiveKeyID (cfg_Encryption c)) \<noteq> None
    \<and> (\<forall>i path. (i, path) \<in> set (en_Keys (cfg_Encryption c)) \<longrightarrow> HasPrefix path ''env:''
         \<or> (\<exists>fi. os_Stat F path = Some fi \<and> fi_IsRegular fi \<and> (fi_Perm fi AND 0x12) = 0))
    \<and> (let k = NewCounters (cfg_Limits c) in fst (AcquireGlobal k) \<noteq> None \<and> fst (AcquireHandshake k) \<noteq> None \<and> fst (AcquireIP ip k) \<noteq> None
         \<and> fst (AcquireKey i k) \<noteq> None \<and> fst (AcquireAccount i k) \<noteq> None \<and> fst (AcquireChannel ip k) \<noteq> None
         \<and> fst (AcquireChannelAccount i k) \<noteq> None \<and> fst (AcquireCoderProcess k) \<noteq> None \<and> fst (AcquireCoderAPI k) \<noteq> None)"
proof (intro conjI)
  note V = assms(1) [unfolded Validate_Nil]
  note L = validated_limits [of c]
  have users: "km_Enabled (cfg_KeyManagement c) \<Longrightarrow> km_User (cfg_KeyManagement c) \<noteq> []"
    "er_Enabled (cfg_Enrollment c) \<Longrightarrow> er_User (cfg_Enrollment c) \<noteq> []" "er_Enabled (cfg_Enrollment c) \<Longrightarrow> 0 < er_MaxAttempts (cfg_Enrollment c)"
    "er_Enabled (cfg_Enrollment c) \<Longrightarrow> km_Enabled (cfg_KeyManagement c) \<Longrightarrow> er_User (cfg_Enrollment c) \<noteq> km_User (cfg_KeyManagement c)"
    using V by (auto simp: validateUsernames_def validateEnrollment_def Let_def)
  show "auth_validate (auth_config c dep) = None"
    using users assms(2) by (auto simp: auth_validate_def auth_config_def enrollmentUser_def enrollmentEnabled_def keysUser_def)
  show "\<forall>rc. ac_Renewal (auth_config c dep) = Some rc \<longrightarrow> rc_maxAttempts rc = RenewalAttemptsPerConnection (cfg_Limits c)"
    using V L(10) by (auto simp: auth_config_def rc_maxAttempts_def)
  show "\<forall>ec. ac_Enrollment (auth_config c dep) = Some ec \<longrightarrow> ec_maxAttempts ec = er_MaxAttempts (cfg_Enrollment c)"
    using users by (auto simp: auth_config_def ec_maxAttempts_def split: if_splits)
  show "\<not> (enrollmentEnabled (auth_config c dep) \<and> keysEnabled (auth_config c dep) \<and> enrollmentUser (auth_config c dep) = keysUser (auth_config c dep))"
    using users by (auto simp: auth_config_def enrollmentEnabled_def keysEnabled_def enrollmentUser_def keysUser_def split: if_splits)
  show "\<exists>host. url_Parse F (dp_CoderURL (cfg_Deployment c)) = Some (''https'', host) \<and> host \<noteq> []"
    using V by (auto simp: validateDeployment_def Let_def split: option.splits prod.splits)
  show "map_of (en_Keys (cfg_Encryption c)) (en_ActiveKeyID (cfg_Encryption c)) \<noteq> None"
    using V by (auto simp: validateEncryption_def Let_def split: if_splits)
  show "\<forall>i path. (i, path) \<in> set (en_Keys (cfg_Encryption c)) \<longrightarrow> HasPrefix path ''env:''
      \<or> (\<exists>fi. os_Stat F path = Some fi \<and> fi_IsRegular fi \<and> (fi_Perm fi AND 0x12) = 0)"
    using V secret_file by (fastforce simp: validateEncryption_def Let_def)
  show "let k = NewCounters (cfg_Limits c) in fst (AcquireGlobal k) \<noteq> None \<and> fst (AcquireHandshake k) \<noteq> None \<and> fst (AcquireIP ip k) \<noteq> None
      \<and> fst (AcquireKey i k) \<noteq> None \<and> fst (AcquireAccount i k) \<noteq> None \<and> fst (AcquireChannel ip k) \<noteq> None
      \<and> fst (AcquireChannelAccount i k) \<noteq> None \<and> fst (AcquireCoderProcess k) \<noteq> None \<and> fst (AcquireCoderAPI k) \<noteq> None"
    using V L by (simp add: Acquire_defs NewCounters_def case_prod_beta first_slot del: not_None_eq)
qed

text \<open>The default configuration with its secrets in a state directory and an address for the control plane.\<close>

definition demo_probes :: probes where
  "demo_probes = \<lparr>os_Stat = (\<lambda>p. if p = ''/state'' then Some \<lparr>fi_IsDir = True, fi_IsRegular = False, fi_Perm = 0x1C0\<rparr>
       else Some \<lparr>fi_IsDir = False, fi_IsRegular = True, fi_Perm = 0x1C0\<rparr>),
     os_CreateTemp = (\<lambda>_. True), url_Parse = (\<lambda>u. Some (''https'', drop 8 u))\<rparr>"

definition demo_config :: Config where
  "demo_config = ApplyStateDir ''/state'' (Default\<lparr>cfg_Deployment := (cfg_Deployment Default)\<lparr>dp_CoderURL := ''https://c''\<rparr>\<rparr>)"

lemma demo_addresses:
  "checkListenAddress '':22'' = None" "checkListenAddress ''127.0.0.1:9090'' = None" "checkListenAddress ''127.0.0.1:9091'' = None"
  by (simp_all add: checkListenAddress_def net_SplitHostPort_def ParseInt_def digit_of_def less_eq_char_def)

theorem config_starts_witness:
  "Validate demo_probes demo_config = [] \<and> auth_validate (auth_config demo_config 9) = None"
proof
  have "validateBindAddresses demo_config = []"
    by (simp add: validateBindAddresses_def demo_config_def ApplyStateDir_def Default_def demo_addresses Let_def)
  moreover have "validateSSH demo_probes demo_config = []" by code_simp
  moreover have "validateState demo_probes demo_config = []" by code_simp
  moreover have "validateEncryption demo_probes demo_config = []" by code_simp
  moreover have "validateDeployment demo_probes demo_config = []" by code_simp
  moreover have "validateLimits demo_config = []" by code_simp
  moreover have "validateEnrollment demo_config = []" by code_simp
  moreover have "validateUsernames demo_config = []" by code_simp
  ultimately show v: "Validate demo_probes demo_config = []" by (simp add: Validate_Nil)
  from config_starts [OF v, of 9] show "auth_validate (auth_config demo_config 9) = None" by simp
qed

end
