(* ===== verification/Sessions.thy ===== *)
theory Sessions
  imports Core
begin

text \<open>
  \<open>internal/tunnel/workspace_session.go\<close>, \<open>workspace_session_deferred.go\<close> and \<open>BridgeSession\<close> of
  \<open>workspace_transport.go\<close>: the requests of an outer session channel and the calls they cause on the inner session of
  the workspace. The inner session is the \<open>ssh.Session\<close> of \<open>golang.org/x/crypto/ssh\<close>: a parameter that answers every
  call after the calls before it, and so is \<open>ssh.Unmarshal\<close> for each payload. What a \<open>select\<close> takes next is an event,
  and a run is a list of events; the loop still waits when they are used up. Logging is left out. The copies between
  the pipes and the channel are not modelled, so an end of the session reported by \<open>Wait\<close> stands for the
  moment after both outputs are drained.
\<close>

section \<open>Requests\<close>

record envRequest =
  env_Name :: string
  env_Value :: string

record PtyRequest =
  pty_Term :: string
  pty_Columns :: uint32
  pty_Rows :: uint32
  pty_Width :: uint32
  pty_Height :: uint32
  pty_Modes :: bytes

record windowChangeRequest =
  win_Columns :: uint32
  win_Rows :: uint32
  win_Width :: uint32
  win_Height :: uint32

record decoders =
  Unmarshal_env :: "bytes \<Rightarrow> envRequest option"
  Unmarshal_pty :: "bytes \<Rightarrow> PtyRequest option"
  Unmarshal_window :: "bytes \<Rightarrow> windowChangeRequest option"
  Unmarshal_exec :: "bytes \<Rightarrow> string option"
  Unmarshal_signal :: "bytes \<Rightarrow> string option"
  Unmarshal_subsystem :: "bytes \<Rightarrow> string option"

definition validSessionString :: "string \<Rightarrow> nat \<Rightarrow> bool" where
  "validSessionString value n \<longleftrightarrow> value \<noteq> [] \<and> length value \<le> n \<and> CHR 0x00 \<notin> set value"

definition session_signals :: "string list" where
  "session_signals = [''ABRT'', ''ALRM'', ''FPE'', ''HUP'', ''ILL'', ''INT'', ''KILL'', ''PIPE'', ''QUIT'', ''SEGV'', ''TERM'',
     ''USR1'', ''USR2'']"

definition validSignal :: "string \<Rightarrow> bool" where
  "validSignal signal \<longleftrightarrow> signal \<in> set session_signals"

definition validDimensions :: "uint32 list \<Rightarrow> bool" where
  "validDimensions values \<longleftrightarrow> (\<forall>v \<in> set values. \<not> v > 0x7FFFFFFF)"

section \<open>Terminal modes\<close>

type_synonym TerminalModes = "(char, uint32) gomap"

definition BigEndian_Uint32 :: "char \<Rightarrow> char \<Rightarrow> char \<Rightarrow> char \<Rightarrow> uint32" where
  "BigEndian_Uint32 a b c d = word_of_nat (((of_char a * 256 + of_char b) * 256 + of_char c) * 256 + of_char d)"

definition errModesTrailing :: string where "errModesTrailing = ''terminal modes contain trailing bytes''"
definition errModesTruncated :: string where "errModesTruncated = ''terminal modes truncated''"
definition errModesTerminator :: string where "errModesTerminator = ''terminal modes missing terminator''"

fun terminal_modes_loop :: "bytes \<Rightarrow> TerminalModes \<Rightarrow> string + TerminalModes" where
  "terminal_modes_loop [] modes = Inl errModesTerminator"
| "terminal_modes_loop (opc # raw) modes =
     (if opc = CHR 0x00 then (if raw \<noteq> [] then Inl errModesTrailing else Inr modes)
      else (case raw of a # b # c # d # rest \<Rightarrow> terminal_modes_loop rest (gm_put opc (BigEndian_Uint32 a b c d) modes)
            | _ \<Rightarrow> Inl errModesTruncated))"

definition parseTerminalModes :: "bytes \<Rightarrow> string + TerminalModes" where
  "parseTerminalModes raw = terminal_modes_loop raw []"

definition ParsePtyRequest :: "decoders \<Rightarrow> bytes \<Rightarrow> string + PtyRequest \<times> TerminalModes" where
  "ParsePtyRequest D payload = (case Unmarshal_pty D payload of None \<Rightarrow> Inl ''malformed pty-req payload''
   | Some r \<Rightarrow>
     if length (pty_Term r) > 256 \<or> CHR 0x00 \<in> set (pty_Term r) then Inl ''invalid terminal name''
     else if \<not> validDimensions [pty_Columns r, pty_Rows r, pty_Width r, pty_Height r] then Inl ''invalid pty dimensions''
     else (case parseTerminalModes (pty_Modes r) of
         Inr modes \<Rightarrow> Inr (r, modes)
       | Inl err \<Rightarrow> if length (pty_Modes r) = 0 then Inr (r, []) else Inl err))"

section \<open>The live bridge\<close>

datatype inner_call =
    Setenv string string | AgentRequest bytes | Subsystem string
  | RequestPty string nat nat TerminalModes | WindowChange nat nat
  | Shell | Start string | Signal string | CloseSession

text \<open>The answer of the inner session to a call, given the calls before it: \<open>None\<close> when it succeeds, otherwise its
  error. For a request sent with \<open>SendRequest\<close> a negative reply counts as an error.\<close>

type_synonym inner = "inner_call list \<Rightarrow> inner_call \<Rightarrow> string option"

datatype wait_fn = WaitDrained | WaitPipes

text \<open>What \<open>Wait\<close> reports: success, an exit status, or another error.\<close>

datatype wait_result = WaitNil | WaitExit int | WaitErr

datatype outer_effect = ReqReply bool | StderrLine string | SendExitStatus uint32 | CloseWriteOuter | CloseOuter

record bridge =
  br_calls :: "inner_call list"
  br_started :: bool
  br_wait :: "wait_fn option"
  br_out :: "outer_effect list"

datatype apply_result = Applied "wait_fn option" | Refused string | StartFailed string

definition call_inner :: "inner \<Rightarrow> inner_call \<Rightarrow> bridge \<Rightarrow> string option \<times> bridge" where
  "call_inner I c b = (I (br_calls b) c, b\<lparr>br_calls := br_calls b @ [c]\<rparr>)"

text \<open>A call whose failure refuses the request, and a call that starts the session.\<close>

definition apply_call :: "inner \<Rightarrow> inner_call \<Rightarrow> (string \<Rightarrow> string) \<Rightarrow> bridge \<Rightarrow> apply_result \<times> bridge" where
  "apply_call I c reason b = (case call_inner I c b of
     (None, b') \<Rightarrow> (Applied None, b') | (Some e, b') \<Rightarrow> (Refused (reason e), b'))"

definition start_call :: "inner \<Rightarrow> inner_call \<Rightarrow> wait_fn \<Rightarrow> string \<Rightarrow> bridge \<Rightarrow> apply_result \<times> bridge" where
  "start_call I c w reason b = (case call_inner I c b of
     (None, b') \<Rightarrow> (Applied (Some w), b'\<lparr>br_started := True\<rparr>) | (Some e, b') \<Rightarrow> (StartFailed reason, b'))"

definition apply_window_change :: "decoders \<Rightarrow> inner \<Rightarrow> bytes \<Rightarrow> bridge \<Rightarrow> apply_result \<times> bridge" where
  "apply_window_change D I payload b = (case Unmarshal_window D payload of None \<Rightarrow> (Refused ''malformed window-change'', b)
   | Some r \<Rightarrow> if \<not> validDimensions [win_Columns r, win_Rows r, win_Width r, win_Height r] then (Refused ''malformed window-change'', b)
     else apply_call I (WindowChange (unat (win_Rows r)) (unat (win_Columns r))) (\<lambda>_. []) b)"

definition applySessionRequest :: "decoders \<Rightarrow> inner \<Rightarrow> string \<Rightarrow> bytes \<Rightarrow> bridge \<Rightarrow> apply_result \<times> bridge" where
  "applySessionRequest D I typ payload b =
    (if br_started b then
       (if typ = ''window-change'' then apply_window_change D I payload b
        else if typ = ''signal'' then (case Unmarshal_signal D payload of
            None \<Rightarrow> (Refused ''malformed or unsupported signal'', b)
          | Some sig \<Rightarrow> if \<not> validSignal sig then (Refused ''malformed or unsupported signal'', b)
                        else apply_call I (Signal sig) (\<lambda>_. []) b)
        else (Refused ''request not applicable after session start'', b))
     else if typ = ''env'' then (case Unmarshal_env D payload of
         None \<Rightarrow> (Refused ''malformed or invalid env request'', b)
       | Some r \<Rightarrow> if \<not> validSessionString (env_Name r) 256 \<or> \<not> validSessionString (env_Value r) (32 * 1024)
                    then (Refused ''malformed or invalid env request'', b)
                    else apply_call I (Setenv (env_Name r) (env_Value r)) (\<lambda>_. ''inner refused env'') b)
     else if typ = ''auth-agent-req@openssh.com'' then apply_call I (AgentRequest payload) (\<lambda>_. ''inner refused agent forwarding'') b
     else if typ = ''subsystem'' then (case Unmarshal_subsystem D payload of
         None \<Rightarrow> (Refused ''malformed or invalid subsystem request'', b)
       | Some name \<Rightarrow> if \<not> validSessionString name 64 then (Refused ''malformed or invalid subsystem request'', b)
                       else start_call I (Subsystem name) WaitPipes ''inner refused subsystem'' b)
     else if typ = ''pty-req'' then (case ParsePtyRequest D payload of
         Inl err \<Rightarrow> (Refused (''invalid pty-req: '' @ err), b)
       | Inr (r, modes) \<Rightarrow> apply_call I (RequestPty (pty_Term r) (unat (pty_Rows r)) (unat (pty_Columns r)) modes)
                             (\<lambda>e. ''inner refused pty: '' @ e) b)
     else if typ = ''window-change'' then apply_window_change D I payload b
     else if typ = ''shell'' then
       (if length payload \<noteq> 0 then (Refused ''shell request carries unexpected payload'', b)
        else start_call I Shell WaitDrained ''inner refused shell'' b)
     else if typ = ''exec'' then (case Unmarshal_exec D payload of
         None \<Rightarrow> (Refused ''malformed or invalid exec request'', b)
       | Some cmd \<Rightarrow> if \<not> validSessionString cmd 4096 then (Refused ''malformed or invalid exec request'', b)
                      else start_call I (Start cmd) WaitDrained ''inner refused exec'' b)
     else (Refused ''unsupported request type'', b))"

text \<open>How a bridged session ends.\<close>

datatype session_end =
    EndWait wait_result | EndCtx | EndReplay string | EndBeforeStart | EndOuterClosed | EndStartFailed

datatype session_event =
    EvCtxDone | EvTransport bool | EvWait wait_result | EvClosed | EvNil | EvRequest string bytes bool

definition out :: "outer_effect \<Rightarrow> bridge \<Rightarrow> bridge" where
  "out e b = b\<lparr>br_out := br_out b @ [e]\<rparr>"

definition set_wait :: "wait_fn option \<Rightarrow> bridge \<Rightarrow> bridge" where
  "set_wait w b = (if w \<noteq> None \<and> br_wait b = None then b\<lparr>br_wait := w\<rparr> else b)"

definition finishSession :: "wait_result \<Rightarrow> bridge \<Rightarrow> session_end \<times> bridge" where
  "finishSession err b =
     (let status = (case err of WaitNil \<Rightarrow> 0 | WaitExit n \<Rightarrow> word_of_int n | WaitErr \<Rightarrow> 255)
      in (EndWait err, out CloseWriteOuter (out (SendExitStatus status) b)))"

text \<open>The wait function of a subsystem returns without an error once both outputs are drained and closes the inner
  session.\<close>

definition waited :: "inner \<Rightarrow> wait_fn \<Rightarrow> wait_result \<Rightarrow> bridge \<Rightarrow> wait_result \<times> bridge" where
  "waited I w r b = (case w of WaitDrained \<Rightarrow> (r, b) | WaitPipes \<Rightarrow> (WaitNil, snd (call_inner I CloseSession b)))"

definition abortSession :: "inner \<Rightarrow> session_end \<Rightarrow> bridge \<Rightarrow> session_end \<times> bridge" where
  "abortSession I cause b = (case br_wait b of None \<Rightarrow> (cause, b)
     | Some w \<Rightarrow> (cause, snd (waited I w WaitNil (snd (call_inner I CloseSession b)))))"

fun session_loop :: "decoders \<Rightarrow> inner \<Rightarrow> session_event list \<Rightarrow> bridge \<Rightarrow> session_end option \<times> bridge" where
  "session_loop D I [] b = (None, b)"
| "session_loop D I (EvCtxDone # es) b = (case abortSession I EndCtx b of (e, b') \<Rightarrow> (Some e, b'))"
| "session_loop D I (EvWait r # es) b = (case br_wait b of None \<Rightarrow> session_loop D I es b
     | Some w \<Rightarrow> (case waited I w r b of (r', b1) \<Rightarrow> (case finishSession r' b1 of (e, b') \<Rightarrow> (Some e, b'))))"
| "session_loop D I (EvClosed # es) b =
     (if \<not> br_started b then (Some EndBeforeStart, b)
      else (case abortSession I EndOuterClosed b of (e, b') \<Rightarrow> (Some e, b')))"
| "session_loop D I (EvNil # es) b = session_loop D I es b"
| "session_loop D I (EvTransport t # es) b = session_loop D I es b"
| "session_loop D I (EvRequest typ payload wantReply # es) b =
     (case applySessionRequest D I typ payload b of (r, b1) \<Rightarrow>
        (let ok = (case r of Applied _ \<Rightarrow> True | _ \<Rightarrow> False); b2 = (if wantReply then out (ReqReply ok) b1 else b1) in
         case r of StartFailed _ \<Rightarrow> (Some EndStartFailed, b2)
         | Refused _ \<Rightarrow> session_loop D I es b2
         | Applied w \<Rightarrow> session_loop D I es (set_wait w b2)))"

type_synonym QueuedSessionRequest = "string \<times> bytes"

fun replay :: "decoders \<Rightarrow> inner \<Rightarrow> QueuedSessionRequest list \<Rightarrow> bridge \<Rightarrow> string option \<times> bridge" where
  "replay D I [] b = (None, b)"
| "replay D I ((typ, payload) # qs) b = (case applySessionRequest D I typ payload b of
     (Applied w, b1) \<Rightarrow> replay D I qs (set_wait w b1) | (_, b1) \<Rightarrow> (Some typ, b1))"

definition forwardSessionRequests ::
    "decoders \<Rightarrow> inner \<Rightarrow> QueuedSessionRequest list \<Rightarrow> session_event list \<Rightarrow> bridge \<Rightarrow> session_end option \<times> bridge" where
  "forwardSessionRequests D I queued es b = (case replay D I queued (b\<lparr>br_started := False, br_wait := None\<rparr>) of
     (Some typ, b1) \<Rightarrow> (Some (EndReplay typ), b1) | (None, b1) \<Rightarrow> session_loop D I es b1)"

section \<open>The bridge of a transport\<close>

text \<open>Whether a new inner session and its three pipes can be had.\<close>

record session_setup =
  ss_NewSession :: bool
  ss_StdinPipe :: bool
  ss_StdoutPipe :: bool
  ss_StderrPipe :: bool

definition session_fail :: "string \<Rightarrow> bridge \<Rightarrow> bridge" where
  "session_fail message b = out CloseWriteOuter (out (SendExitStatus 255) (out (StderrLine message) b))"

text \<open>The result is \<open>None\<close> while the session runs; otherwise the code of the error returned, if any.\<close>

definition BridgeSession ::
    "decoders \<Rightarrow> inner \<Rightarrow> session_setup \<Rightarrow> QueuedSessionRequest list \<Rightarrow> session_event list \<Rightarrow> bridge \<Rightarrow> string option option \<times> bridge" where
  "BridgeSession D I S queued es b =
    (if \<not> ss_NewSession S then (Some (Some TUNNEL_CODER_EXITED), session_fail ''workspace target is invalid or unavailable'' b)
     else if \<not> ss_StdinPipe S \<or> \<not> ss_StdoutPipe S \<or> \<not> ss_StderrPipe S
     then (Some (Some TUNNEL_STREAM_FAILED), session_fail ''workspace session failed'' (snd (call_inner I CloseSession b)))
     else (case forwardSessionRequests D I queued es b of
         (None, b1) \<Rightarrow> (None, b1)
       | (Some e, b1) \<Rightarrow>
         (let failed = (case e of EndWait WaitNil \<Rightarrow> False | EndWait (WaitExit _) \<Rightarrow> False | _ \<Rightarrow> True);
              b2 = (if failed then session_fail ''workspace session failed'' b1 else b1);
              b3 = snd (call_inner I CloseSession (out CloseOuter b2)) in
          (Some (if failed then Some TUNNEL_STREAM_FAILED else None), b3))))"

section \<open>Before the transport exists\<close>

text \<open>The decision on a request before the transport exists: whether it is valid and queued, or the reason it is
  refused. No request is valid and not queued.\<close>

definition queueDecision :: "decoders \<Rightarrow> string \<Rightarrow> bytes \<Rightarrow> string option" where
  "queueDecision D typ payload =
    (if typ = ''env'' then (case Unmarshal_env D payload of
         None \<Rightarrow> Some ''malformed or invalid env request''
       | Some r \<Rightarrow> if \<not> validSessionString (env_Name r) 256 \<or> \<not> validSessionString (env_Value r) (32 * 1024)
                    then Some ''malformed or invalid env request'' else None)
     else if typ = ''auth-agent-req@openssh.com'' then None
     else if typ = ''pty-req'' then (case ParsePtyRequest D payload of Inl err \<Rightarrow> Some (''invalid pty-req: '' @ err) | Inr _ \<Rightarrow> None)
     else if typ = ''shell'' then (if length payload \<noteq> 0 then Some ''shell request carries unexpected payload'' else None)
     else if typ = ''exec'' then (case Unmarshal_exec D payload of
         None \<Rightarrow> Some ''malformed or invalid exec request''
       | Some cmd \<Rightarrow> if \<not> validSessionString cmd 4096 then Some ''malformed or invalid exec request'' else None)
     else if typ = ''subsystem'' then (case Unmarshal_subsystem D payload of
         None \<Rightarrow> Some ''malformed or invalid subsystem request''
       | Some name \<Rightarrow> if \<not> validSessionString name 64 then Some ''malformed or invalid subsystem request'' else None)
     else Some ''unsupported request type'')"

definition finishChannelStatus :: "uint32 \<Rightarrow> bridge \<Rightarrow> bridge" where
  "finishChannelStatus status b = out CloseWriteOuter (out (SendExitStatus status) b)"

text \<open>The result of the pending bridge: cancelled, no transport, closed by the client, or that of the bridge of the
  transport.\<close>

datatype pending_end = PendingCancelled | PendingUnavailable | PendingClosed | Bridged "string option"

fun BridgePendingSession ::
    "decoders \<Rightarrow> inner \<Rightarrow> session_setup \<Rightarrow> QueuedSessionRequest list \<Rightarrow> session_event list \<Rightarrow> bridge \<Rightarrow> pending_end option \<times> bridge" where
  "BridgePendingSession D I S queued [] b = (None, b)"
| "BridgePendingSession D I S queued (EvCtxDone # es) b =
     (Some PendingCancelled, out CloseOuter (finishChannelStatus 255 (out (StderrLine ''workspace session canceled'') b)))"
| "BridgePendingSession D I S queued (EvTransport up # es) b =
     (if \<not> up then (Some PendingUnavailable, out CloseOuter (finishChannelStatus 255 (out (StderrLine ''workspace is unavailable'') b)))
      else (case BridgeSession D I S queued es b of (r, b') \<Rightarrow> (map_option Bridged r, b')))"
| "BridgePendingSession D I S queued (EvClosed # es) b = (Some PendingClosed, b)"
| "BridgePendingSession D I S queued (EvNil # es) b = BridgePendingSession D I S queued es b"
| "BridgePendingSession D I S queued (EvWait r # es) b = BridgePendingSession D I S queued es b"
| "BridgePendingSession D I S queued (EvRequest typ payload wantReply # es) b =
     (let valid = (queueDecision D typ payload = None); b1 = (if wantReply then out (ReqReply valid) b else b) in
      if valid then BridgePendingSession D I S (queued @ [(typ, payload)]) es b1
      else BridgePendingSession D I S queued es b1)"

end
