(* ===== verification/SessionProps.thy ===== *)
theory SessionProps
  imports Sessions
begin

text \<open>
  What the bridge of a session guarantees: the calls that reach the inner session are well formed and come in the
  order an SSH session allows, the optimistic answers given before the transport exists agree with the live bridge as
  long as nothing follows the request that starts the session, and the exit status the client sees is the one the
  workspace reported.
\<close>

section \<open>Well-formed calls\<close>

definition accepted_string :: "nat \<Rightarrow> string \<Rightarrow> bool" where
  "accepted_string n v \<longleftrightarrow> 0 < length v \<and> length v \<le> n \<and> CHR 0x00 \<notin> set v"

fun call_ok :: "inner_call \<Rightarrow> bool" where
  "call_ok (Setenv n v) = (accepted_string 256 n \<and> accepted_string 32768 v)"
| "call_ok (AgentRequest p) = True"
| "call_ok (Subsystem n) = accepted_string 64 n"
| "call_ok (RequestPty t rows cols modes) = (length t \<le> 256 \<and> CHR 0x00 \<notin> set t \<and> rows < 2 ^ 31 \<and> cols < 2 ^ 31
     \<and> distinct (map fst modes) \<and> CHR 0x00 \<notin> fst ` set modes)"
| "call_ok (WindowChange rows cols) = (rows < 2 ^ 31 \<and> cols < 2 ^ 31)"
| "call_ok Shell = True"
| "call_ok (Start c) = accepted_string 4096 c"
| "call_ok (Signal sig) = (sig \<in> set session_signals)"
| "call_ok CloseSession = True"

text \<open>The order of the calls: preparation, at most one start, then only window changes and signals, and closing.\<close>

datatype phase = Preparing | Running | Over

fun advance :: "phase \<Rightarrow> inner_call \<Rightarrow> bool \<Rightarrow> phase option" where
  "advance p CloseSession ok = Some Over"
| "advance Preparing (Setenv n v) ok = Some Preparing"
| "advance Preparing (AgentRequest x) ok = Some Preparing"
| "advance Preparing (RequestPty t r c m) ok = Some Preparing"
| "advance Preparing (WindowChange r c) ok = Some Preparing"
| "advance Preparing Shell ok = Some (if ok then Running else Over)"
| "advance Preparing (Start c) ok = Some (if ok then Running else Over)"
| "advance Preparing (Subsystem n) ok = Some (if ok then Running else Over)"
| "advance Running (WindowChange r c) ok = Some Running"
| "advance Running (Signal sig) ok = Some Running"
| "advance _ _ ok = None"

definition walk :: "inner \<Rightarrow> inner_call list \<Rightarrow> inner_call list \<times> phase option" where
  "walk I = foldl (\<lambda>(past, p) c. (past @ [c], Option.bind p (\<lambda>q. advance q c (I past c = None)))) ([], Some Preparing)"

lemma fst_walk [simp]: "fst (walk I cs) = cs"
  by (induction cs rule: rev_induct) (auto simp: walk_def split: prod.splits)

lemma walk_snoc [simp]: "snd (walk I (cs @ [c])) = Option.bind (snd (walk I cs)) (\<lambda>q. advance q c (I cs c = None))"
  using fst_walk [of I cs] by (simp add: walk_def case_prod_beta)

lemma walk_Nil [simp]: "snd (walk I []) = Some Preparing"
  by (simp add: walk_def)

lemma validDimensions_less: "validDimensions vs \<Longrightarrow> v \<in> set vs \<Longrightarrow> unat v < 2 ^ 31"
proof -
  assume "validDimensions vs" "v \<in> set vs"
  then have "v \<le> 0x7FFFFFFF" by (auto simp: validDimensions_def)
  then have "unat v \<le> unat (0x7FFFFFFF :: uint32)" by (simp add: word_le_nat_alt)
  then show ?thesis by simp
qed

lemma accepted_valid: "validSessionString v n \<longleftrightarrow> accepted_string n v"
  by (auto simp: validSessionString_def accepted_string_def)

section \<open>Terminal modes\<close>

definition encode_mode :: "char \<times> uint32 \<Rightarrow> bytes" where
  "encode_mode m = (case m of (opc, v) \<Rightarrow> opc # map (\<lambda>k. char_of (unat v div 256 ^ k)) [3, 2, 1, 0])"

definition encode_modes :: "(char \<times> uint32) list \<Rightarrow> bytes" where
  "encode_modes ms = concat (map encode_mode ms) @ [CHR 0x00]"

definition modes_map :: "(char \<times> uint32) list \<Rightarrow> TerminalModes" where
  "modes_map ms = foldl (\<lambda>m (opc, v). gm_put opc v m) [] ms"

lemma byte_sum:
  fixes n :: nat
  assumes "n < 4294967296"
  shows "((n div 16777216 mod 256 * 256 + n div 65536 mod 256) * 256 + n div 256 mod 256) * 256 + n mod 256 = n"
proof -
  have d: "m div 256 * 256 + m mod 256 = m" for m :: nat by simp
  have "n div 16777216 < 256" using assms by (simp add: less_mult_imp_div_less)
  moreover have "n div 65536 = n div 256 div 256" "n div 16777216 = n div 256 div 256 div 256" by (simp_all flip: div_mult2_eq)
  ultimately show ?thesis using d [of "n div 256 div 256"] d [of "n div 256"] d [of n] by simp
qed

lemma byte_sum_less:
  fixes a b c d :: nat
  assumes "a < 256" "b < 256" "c < 256" "d < 256"
  shows "((a * 256 + b) * 256 + c) * 256 + d < 4294967296"
  using assms by (simp add: algebra_simps)

lemma BigEndian_encode [simp]:
  "BigEndian_Uint32 (char_of (unat v div 16777216)) (char_of (unat v div 65536)) (char_of (unat v div 256)) (char_of (unat v)) = v"
proof -
  have b: "unat v < 4294967296" using unsigned_less [of v] by simp
  then show ?thesis using byte_sum [OF b] by (simp add: BigEndian_Uint32_def)
qed

lemma char_of_sum: "char_of (q * 256 + of_char c) = c"
  by (simp add: char_of_eq_iff take_bit_eq_mod)

lemma encode_BigEndian:
  "encode_mode (opc, BigEndian_Uint32 a b c d) = [opc, a, b, c, d]"
proof -
  let ?n = "((of_char a * 256 + of_char b) * 256 + of_char c) * 256 + of_char d :: nat"
  have le: "of_char x < (256::nat)" for x using of_char_mod_256 [of x, where 'a = nat] by (metis mod_less_divisor zero_less_numeral)
  have "?n < 4294967296" using byte_sum_less [OF le [of a] le [of b] le [of c] le [of d]] .
  then have u: "unat (BigEndian_Uint32 a b c d) = ?n"
    unfolding BigEndian_Uint32_def by (simp only: unsigned_of_nat take_bit_nat_eq_self) (simp add: take_bit_nat_eq_self)
  have q: "(q * 256 + of_char x) div 256 = q" for q :: nat and x using le [of x] by simp
  have "?n div 65536 = ?n div 256 div 256" "?n div 16777216 = ?n div 256 div 256 div 256" by (simp_all only: flip: div_mult2_eq) simp_all
  then have "?n div 256 = (of_char a * 256 + of_char b) * 256 + of_char c"
    "?n div 65536 = of_char a * 256 + of_char b" "?n div 16777216 = of_char a" by (simp_all only: q)
  then show ?thesis by (simp add: encode_mode_def u char_of_sum del: distrib_left_numeral distrib_right_numeral)
qed

lemma keys_gm_put [simp]: "fst ` set (gm_put k e m) = insert k (fst ` set m)"
  by (auto simp: gm_put_def image_iff split: if_splits; force)

lemma modes_loop_encode:
  "\<forall>m \<in> set ms. fst m \<noteq> CHR 0x00 \<Longrightarrow> terminal_modes_loop (encode_modes ms) acc = Inr (foldl (\<lambda>m (opc, v). gm_put opc v m) acc ms)"
  by (induction ms arbitrary: acc) (auto simp: encode_modes_def encode_mode_def)

lemma modes_loop_decodes:
  "terminal_modes_loop raw acc = Inr m \<Longrightarrow> \<exists>ms. (\<forall>q \<in> set ms. fst q \<noteq> CHR 0x00) \<and> raw = encode_modes ms"
proof (induction raw acc rule: terminal_modes_loop.induct)
  case (2 opc raw modes)
  show ?case
  proof (cases "opc = CHR 0x00")
    case True
    with 2(2) show ?thesis by (auto simp: encode_modes_def split: if_splits intro: exI [of _ "[]"])
  next
    case False
    with 2(2) obtain a b c d rest where r: "raw = a # b # c # d # rest"
      "terminal_modes_loop rest (gm_put opc (BigEndian_Uint32 a b c d) modes) = Inr m" by (auto split: list.splits)
    with 2(1) False obtain ms where "\<forall>q \<in> set ms. fst q \<noteq> CHR 0x00" "rest = encode_modes ms" by blast
    with r(1) False show ?thesis
      by (intro exI [of _ "(opc, BigEndian_Uint32 a b c d) # ms"]) (auto simp: encode_modes_def encode_BigEndian)
  qed
qed simp

lemma modes_loop_wf:
  "terminal_modes_loop raw acc = Inr m \<Longrightarrow> distinct (map fst acc) \<Longrightarrow> CHR 0x00 \<notin> fst ` set acc \<Longrightarrow>
   distinct (map fst m) \<and> CHR 0x00 \<notin> fst ` set m"
proof (induction raw acc rule: terminal_modes_loop.induct)
  case (2 opc raw modes)
  show ?case
  proof (cases "opc = CHR 0x00")
    case False
    with 2(2) obtain a b c d rest where "raw = a # b # c # d # rest"
      "terminal_modes_loop rest (gm_put opc (BigEndian_Uint32 a b c d) modes) = Inr m" by (auto split: list.splits)
    with 2(1) [OF False] 2(3,4) False show ?thesis by simp
  qed (use 2 in \<open>auto split: if_splits\<close>)
qed simp


section \<open>Every request keeps the order\<close>

definition bridge_inv :: "inner \<Rightarrow> bridge \<Rightarrow> bool" where
  "bridge_inv I b \<longleftrightarrow> snd (walk I (br_calls b)) = Some (if br_started b then Running else Preparing)
     \<and> (\<forall>c \<in> set (br_calls b). call_ok c)"

definition bridge_over :: "inner \<Rightarrow> bridge \<Rightarrow> bool" where
  "bridge_over I b \<longleftrightarrow> snd (walk I (br_calls b)) \<noteq> None \<and> (\<forall>c \<in> set (br_calls b). call_ok c)"

lemma bridge_inv_over: "bridge_inv I b \<Longrightarrow> bridge_over I b"
  by (simp add: bridge_inv_def bridge_over_def)

lemma bridge_simps [simp]:
  "br_calls (out e b) = br_calls b" "br_started (out e b) = br_started b" "br_wait (out e b) = br_wait b"
  "br_calls (set_wait w b) = br_calls b" "br_started (set_wait w b) = br_started b"
  "br_out (set_wait w b) = br_out b" "br_out (out e b) = br_out b @ [e]"
  "br_calls (session_fail m b) = br_calls b" "br_calls (finishChannelStatus n b) = br_calls b"
  by (simp_all add: out_def set_wait_def session_fail_def finishChannelStatus_def)

lemma bridge_inv_cong [simp]:
  "bridge_inv I (out e b) = bridge_inv I b" "bridge_inv I (set_wait w b) = bridge_inv I b"
  "bridge_over I (out e b) = bridge_over I b" "bridge_over I (session_fail m b) = bridge_over I b"
  by (simp_all add: bridge_inv_def bridge_over_def)

text \<open>What one request leaves behind.\<close>

definition step_ok :: "inner \<Rightarrow> apply_result \<times> bridge \<Rightarrow> bool" where
  "step_ok I x = (case x of (StartFailed e, b) \<Rightarrow> bridge_over I b | (_, b) \<Rightarrow> bridge_inv I b)"

lemma step_ok_refused: "bridge_inv I b \<Longrightarrow> step_ok I (Refused r, b)"
  by (simp add: step_ok_def)

lemma step_ok_cases:
  "(c \<Longrightarrow> step_ok I x) \<Longrightarrow> (\<not> c \<Longrightarrow> step_ok I y) \<Longrightarrow> step_ok I (if c then x else y)"
  "(v = None \<Longrightarrow> step_ok I x) \<Longrightarrow> (\<And>a. v = Some a \<Longrightarrow> step_ok I (f a)) \<Longrightarrow> step_ok I (case v of None \<Rightarrow> x | Some a \<Rightarrow> f a)"
  "(\<And>e. u = Inl e \<Longrightarrow> step_ok I (g e)) \<Longrightarrow> (\<And>a b. u = Inr (a, b) \<Longrightarrow> step_ok I (h a b)) \<Longrightarrow>
   step_ok I (case u of Inl e \<Rightarrow> g e | Inr (a, b) \<Rightarrow> h a b)"
  by (auto split: option.splits sum.splits)

lemma step_ok_call:
  assumes "bridge_inv I b" "call_ok c" "\<And>p. p \<noteq> Over \<Longrightarrow> p = (if br_started b then Running else Preparing) \<Longrightarrow> advance p c = (\<lambda>_. Some p)"
  shows "step_ok I (apply_call I c f b)"
  using assms by (auto simp: step_ok_def apply_call_def call_inner_def bridge_inv_def split: option.splits)

lemma step_ok_start:
  assumes "bridge_inv I b" "\<not> br_started b" "call_ok c" "advance Preparing c = (\<lambda>ok. Some (if ok then Running else Over))"
  shows "step_ok I (start_call I c w reason b)"
  using assms by (auto simp: step_ok_def start_call_def call_inner_def bridge_inv_def bridge_over_def split: option.splits)

lemma step_ok_window:
  assumes "bridge_inv I b" shows "step_ok I (apply_window_change D I p b)"
proof -
  have "step_ok I (apply_call I (WindowChange (unat (win_Rows r)) (unat (win_Columns r))) f b)"
    if "validDimensions [win_Columns r, win_Rows r, win_Width r, win_Height r]" for r f
    by (rule step_ok_call [OF assms]) (use validDimensions_less [OF that] in \<open>auto simp: fun_eq_iff split: if_splits\<close>)
  then show ?thesis using step_ok_refused [OF assms] by (auto simp: apply_window_change_def split: option.splits)
qed

lemma ParsePty_ok:
  assumes "ParsePtyRequest D p = Inr (r, modes)"
  shows "call_ok (RequestPty (pty_Term r) (unat (pty_Rows r)) (unat (pty_Columns r)) modes)"
proof -
  let ?dims = "[pty_Columns r, pty_Rows r, pty_Width r, pty_Height r]"
  have dims: "validDimensions ?dims" and t: "length (pty_Term r) \<le> 256" "CHR 0x00 \<notin> set (pty_Term r)"
    and m: "modes = [] \<or> parseTerminalModes (pty_Modes r) = Inr modes"
    using assms by (auto simp: ParsePtyRequest_def split: option.splits if_splits sum.splits)
  have "unat (pty_Rows r) < 2 ^ 31" "unat (pty_Columns r) < 2 ^ 31" using validDimensions_less [OF dims] by simp_all
  moreover have "distinct (map fst modes) \<and> CHR 0x00 \<notin> fst ` set modes"
    using m modes_loop_wf [of "pty_Modes r" "[]" modes] by (auto simp: parseTerminalModes_def)
  ultimately show ?thesis using t by simp
qed

lemma step_ok_request:
  assumes "bridge_inv I b" shows "step_ok I (applySessionRequest D I typ p b)"
proof (cases "br_started b")
  case True
  have "step_ok I (apply_call I (Signal sig) f b)" if "validSignal sig" for sig f
    by (rule step_ok_call [OF assms]) (use True that in \<open>auto simp: validSignal_def fun_eq_iff\<close>)
  with True show ?thesis using step_ok_refused [OF assms] step_ok_window [OF assms]
    by (simp add: applySessionRequest_def split: option.splits)
next
  case False
  note start = step_ok_start [OF assms False]
  have "step_ok I (apply_call I (Setenv n v) f b)" if "validSessionString n 256" "validSessionString v (32 * 1024)" for n v f
    by (rule step_ok_call [OF assms]) (use False that in \<open>auto simp: accepted_valid fun_eq_iff\<close>)
  moreover have "step_ok I (apply_call I (AgentRequest q) f b)" for q f
    by (rule step_ok_call [OF assms]) (use False in \<open>auto simp: fun_eq_iff\<close>)
  moreover have "step_ok I (apply_call I (RequestPty (pty_Term r) (unat (pty_Rows r)) (unat (pty_Columns r)) m) f b)"
    if "ParsePtyRequest D p = Inr (r, m)" for r m f
    by (rule step_ok_call [OF assms ParsePty_ok [OF that]]) (use False in \<open>auto simp: fun_eq_iff\<close>)
  moreover have "step_ok I (start_call I Shell w t b)" for w t by (rule start) (auto simp: fun_eq_iff)
  moreover have "step_ok I (start_call I (Subsystem n) w t b)" if "validSessionString n 64" for n w t
    by (rule start) (use that in \<open>auto simp: accepted_valid fun_eq_iff\<close>)
  moreover have "step_ok I (start_call I (Start n) w t b)" if "validSessionString n 4096" for n w t
    by (rule start) (use that in \<open>auto simp: accepted_valid fun_eq_iff\<close>)
  ultimately show ?thesis using False step_ok_refused [OF assms] step_ok_window [OF assms]
    unfolding applySessionRequest_def by (simp only: if_False) (intro step_ok_cases; simp)
qed

section \<open>Every run keeps the order\<close>

lemma close_over: "bridge_over I b \<Longrightarrow> bridge_over I (snd (call_inner I CloseSession b))"
  by (auto simp: bridge_over_def call_inner_def)

lemma waited_over: "bridge_over I b \<Longrightarrow> bridge_over I (snd (waited I w r b))"
  by (auto simp: waited_def close_over split: wait_fn.splits)

lemma abort_over: "bridge_over I b \<Longrightarrow> bridge_over I (snd (abortSession I e b))"
  by (simp add: abortSession_def close_over waited_over split: option.splits)

lemma loop_over: "bridge_inv I b \<Longrightarrow> bridge_over I (snd (session_loop D I es b))"
proof (induction es arbitrary: b)
  case (Cons e es)
  note ov = bridge_inv_over [OF Cons.prems]
  show ?case
  proof (cases e)
    case (EvRequest tp p w)
    show ?thesis using step_ok_request [OF Cons.prems, of D tp p] Cons.IH EvRequest
      by (auto simp: step_ok_def Let_def bridge_inv_over split: prod.splits apply_result.splits)
  qed (use Cons.IH [OF Cons.prems] ov abort_over [OF ov] waited_over [OF ov] in
    \<open>auto simp: case_prod_beta finishSession_def Let_def split: option.splits\<close>)
qed (simp add: bridge_inv_over)

lemma replay_over:
  assumes "bridge_inv I b" "replay D I qs b = (r, b')" shows "if r = None then bridge_inv I b' else bridge_over I b'"
  using assms
proof (induction qs arbitrary: b)
  case (Cons q qs)
  obtain tp p where q: "q = (tp, p)" by (cases q)
  show ?case using step_ok_request [OF Cons.prems(1), of D tp p] Cons.IH [of "set_wait w b1" for w b1] Cons.prems(2) q
    by (auto simp: step_ok_def bridge_inv_over split: prod.splits apply_result.splits)
qed simp

definition fresh_bridge :: bridge where
  "fresh_bridge = \<lparr>br_calls = [], br_started = False, br_wait = None, br_out = []\<rparr>"

lemma bridge_session_over:
  assumes "br_calls b = []" shows "bridge_over I (snd (BridgeSession D I S qs es b))"
proof -
  have i: "bridge_inv I (b\<lparr>br_started := False, br_wait := None\<rparr>)" and ov: "bridge_over I b"
    using assms by (simp_all add: bridge_inv_def bridge_over_def)
  have "bridge_over I (snd (forwardSessionRequests D I qs es b))"
    using replay_over [OF i] loop_over by (auto simp: forwardSessionRequests_def split: prod.splits option.splits)
  with ov show ?thesis by (auto simp: BridgeSession_def Let_def close_over split: prod.splits option.splits)
qed

lemma pending_over: "br_calls b = [] \<Longrightarrow> bridge_over I (snd (BridgePendingSession D I S qs es b))"
proof (induction D I S qs es b rule: BridgePendingSession.induct)
  case (3 D I S queued up es b)
  then show ?case using bridge_session_over [OF 3, of I D S queued es]
    by (auto simp: bridge_over_def split: prod.splits)
next
  case (7 D I S queued tp p wantReply es b)
  let ?b = "if wantReply then out (ReqReply (queueDecision D tp p = None)) b else b"
  have "br_calls ?b = []" using 7(3) by simp
  then show ?case using 7(1) [OF refl refl, of] 7(2) [OF refl refl, of] by (simp add: Let_def)
qed (auto simp: bridge_over_def)

section \<open>Queued and live requests\<close>

definition starts_session :: "string \<Rightarrow> bool" where
  "starts_session tp \<longleftrightarrow> tp \<in> {''shell'', ''exec'', ''subsystem''}"

definition accepting :: "inner \<Rightarrow> bool" where
  "accepting I \<longleftrightarrow> (\<forall>past c. I past c = None)"

lemma accepting_calls:
  "accepting I \<Longrightarrow> call_inner I c b = (None, b\<lparr>br_calls := br_calls b @ [c]\<rparr>)"
  by (simp add: call_inner_def accepting_def)

lemmas request_defs = applySessionRequest_def apply_window_change_def apply_call_def start_call_def

lemma request_kinds [case_names env agent pty window shell exec subsystem signal other]:
  obtains "tp = ''env''" | "tp = ''auth-agent-req@openssh.com''" | "tp = ''pty-req''" | "tp = ''window-change''"
    | "tp = ''shell''" | "tp = ''exec''" | "tp = ''subsystem''" | "tp = ''signal''"
    | "tp \<notin> {''env'', ''auth-agent-req@openssh.com'', ''pty-req'', ''window-change'', ''shell'', ''exec'', ''subsystem'', ''signal''}"
  by atomize_elim (simp only: insert_iff empty_iff, argo)

lemma queued_applies:
  assumes "accepting I" "\<not> br_started b" "queueDecision D tp p = None"
  shows "\<exists>w b'. applySessionRequest D I tp p b = (Applied w, b') \<and> br_started b' = starts_session tp"
  using assms
  by (cases tp rule: request_kinds)
    (auto simp: queueDecision_def request_defs accepting_calls starts_session_def split: if_splits option.splits sum.splits)

lemma refused_either_way:
  assumes "queueDecision D tp p = Some r" "tp \<noteq> ''window-change''" "br_started b \<longrightarrow> tp \<noteq> ''signal''"
  shows "\<exists>r'. applySessionRequest D I tp p b = (Refused r', b)"
  using assms
  by (cases tp rule: request_kinds)
    (auto simp: queueDecision_def applySessionRequest_def split: if_splits option.splits sum.splits)

lemma started_refuses:
  assumes "queueDecision D tp p = None" "br_started b"
  shows "applySessionRequest D I tp p b = (Refused ''request not applicable after session start'', b)"
  using assms by (auto simp: queueDecision_def applySessionRequest_def split: if_splits)

lemma apply_started:
  assumes "\<not> br_started b" "queueDecision D tp p = None" "starts_session tp" "applySessionRequest D I tp p b = (Applied w, b')"
  shows "br_started b'"
  using assms
  by (auto simp: queueDecision_def request_defs call_inner_def starts_session_def split: if_splits option.splits)

text \<open>The outer side of the bridge is not read by a request.\<close>

lemma call_inner_out: "call_inner I c (b\<lparr>br_out := x\<rparr>) = map_prod id (\<lambda>b'. b'\<lparr>br_out := x\<rparr>) (call_inner I c b)"
  by (simp add: call_inner_def)

lemma apply_out:
  "applySessionRequest D I tp p (b\<lparr>br_out := x\<rparr>) = map_prod id (\<lambda>b'. b'\<lparr>br_out := x\<rparr>) (applySessionRequest D I tp p b)"
  by (cases tp rule: request_kinds) (auto simp: request_defs call_inner_def split: option.splits sum.splits)

lemma apply_keeps: 
  assumes "applySessionRequest D I tp p b = (r, b')"
  shows "br_out b' = br_out b" "br_wait b' = br_wait b" "set (br_calls b) \<subseteq> set (br_calls b')"
    "r = Applied (Some WaitPipes) \<Longrightarrow> \<exists>n. Subsystem n \<in> set (br_calls b')"
  using assms by (auto simp: request_defs call_inner_def split: if_splits option.splits sum.splits)

lemma replay_out:
  "replay D I qs (b\<lparr>br_out := x\<rparr>) = map_prod id (\<lambda>b'. b'\<lparr>br_out := x\<rparr>) (replay D I qs b)"
proof (induction qs arbitrary: b)
  case (Cons q qs)
  have "set_wait w (b\<lparr>br_out := x\<rparr>) = (set_wait w b)\<lparr>br_out := x\<rparr>" for w and b :: bridge by (simp add: set_wait_def)
  with Cons show ?case by (cases q) (simp add: apply_out split: prod.splits apply_result.splits)
qed simp

text \<open>What the pending bridge queues and answers.\<close>

fun queue_of :: "decoders \<Rightarrow> session_event list \<Rightarrow> QueuedSessionRequest list" where
  "queue_of D (EvRequest tp p w # es) = (if queueDecision D tp p = None then [(tp, p)] else []) @ queue_of D es"
| "queue_of D (e # es) = queue_of D es"
| "queue_of D [] = []"

fun answers :: "decoders \<Rightarrow> session_event list \<Rightarrow> outer_effect list" where
  "answers D (EvRequest tp p w # es) = (if w then [ReqReply (queueDecision D tp p = None)] else []) @ answers D es"
| "answers D (e # es) = answers D es"
| "answers D [] = []"

fun orderly :: "decoders \<Rightarrow> bool \<Rightarrow> session_event list \<Rightarrow> bool" where
  "orderly D st [] = True"
| "orderly D st (EvRequest tp p w # es) =
     (if queueDecision D tp p = None then \<not> st \<and> orderly D (starts_session tp) es
      else tp \<noteq> ''window-change'' \<and> (st \<longrightarrow> tp \<noteq> ''signal'') \<and> orderly D st es)"
| "orderly D st (EvNil # es) = orderly D st es"
| "orderly D st (e # es) = False"

definition only_requests :: "session_event list \<Rightarrow> bool" where
  "only_requests es \<longleftrightarrow> (\<forall>e \<in> set es. e = EvNil \<or> (\<exists>tp p w. e = EvRequest tp p w))"

lemma orderly_requests: "orderly D st es \<Longrightarrow> only_requests es"
  by (induction D st es rule: orderly.induct) (auto simp: only_requests_def split: if_splits)

lemma out_append: "out e b = b\<lparr>br_out := br_out b @ [e]\<rparr>"
  by (simp add: out_def)

lemma pending_queue:
  "only_requests es \<Longrightarrow> BridgePendingSession D I S q (es @ fs) b
     = BridgePendingSession D I S (q @ queue_of D es) fs (b\<lparr>br_out := br_out b @ answers D es\<rparr>)"
proof (induction es arbitrary: q b)
  case (Cons e es)
  then have "only_requests es" by (simp add: only_requests_def)
  note ih = Cons.IH [OF this]
  from Cons.prems consider "e = EvNil" | tp p w where "e = EvRequest tp p w" by (auto simp: only_requests_def)
  then show ?case by cases (simp_all add: ih Let_def out_append)
qed simp

lemma live_replay:
  assumes "accepting I"
  shows "orderly D (br_started b) es \<Longrightarrow> \<exists>b'. replay D I (queue_of D es) b = (None, b')
     \<and> session_loop D I (es @ fs) b = session_loop D I fs (b'\<lparr>br_out := br_out b @ answers D es\<rparr>)"
proof (induction es arbitrary: b)
  case (Cons e es)
  from Cons.prems consider "e = EvNil" | tp p w where "e = EvRequest tp p w" by (cases e) auto
  then show ?case
  proof cases
    case (2 tp p w)
    let ?r = "if w then [ReqReply (queueDecision D tp p = None)] else []"
    show ?thesis
    proof (cases "queueDecision D tp p")
      case None
      with Cons.prems 2 have st: "\<not> br_started b" "orderly D (starts_session tp) es" by simp_all
      from queued_applies [OF assms st(1) None] obtain v b1
        where b1: "applySessionRequest D I tp p b = (Applied v, b1)" "br_started b1 = starts_session tp" by blast
      let ?b1 = "set_wait v b1" let ?b2 = "?b1\<lparr>br_out := br_out b @ ?r\<rparr>"
      have o1: "br_out b1 = br_out b" using apply_keeps [OF b1(1)] by simp
      have b2: "set_wait v (if w then out (ReqReply True) b1 else b1) = ?b2"
        using None o1 by (cases "br_wait b1") (auto simp: set_wait_def out_def)
      from Cons.IH [of ?b2] st b1(2) obtain b3 where b3: "replay D I (queue_of D es) ?b2 = (None, b3)"
        "session_loop D I (es @ fs) ?b2 = session_loop D I fs (b3\<lparr>br_out := br_out ?b2 @ answers D es\<rparr>)" by auto
      from b3(1) obtain b4 where b4: "replay D I (queue_of D es) ?b1 = (None, b4)" "b3 = b4\<lparr>br_out := br_out b @ ?r\<rparr>"
        unfolding replay_out by (cases "replay D I (queue_of D es) ?b1") auto
      moreover have "?b1\<lparr>br_out := br_out b\<rparr> = ?b1" using o1 by (cases b1) (auto simp: set_wait_def)
      ultimately show ?thesis using 2 None b1(1) b2 [symmetric] b3(2) o1 by (cases w; simp add: Let_def)
    next
      case (Some x)
      with Cons.prems 2 have "tp \<noteq> ''window-change''" "br_started b \<longrightarrow> tp \<noteq> ''signal''" "orderly D (br_started b) es" by simp_all
      moreover from refused_either_way [OF Some this(1,2)] obtain y where y: "applySessionRequest D I tp p b = (Refused y, b)" by blast
      let ?b2 = "b\<lparr>br_out := br_out b @ ?r\<rparr>"
      have b2: "(if w then out (ReqReply False) b else b) = ?b2" using Some by (simp add: out_def)
      from Cons.IH [of ?b2] calculation(3) obtain b3 where b3: "replay D I (queue_of D es) ?b2 = (None, b3)"
        "session_loop D I (es @ fs) ?b2 = session_loop D I fs (b3\<lparr>br_out := br_out ?b2 @ answers D es\<rparr>)" by auto
      from b3(1) obtain b4 where b4: "replay D I (queue_of D es) b = (None, b4)" "b3 = b4\<lparr>br_out := br_out b @ ?r\<rparr>"
        unfolding replay_out by (cases "replay D I (queue_of D es) b") auto
      show ?thesis using 2 Some y b2 [symmetric] b3(2) b4 by (cases w; simp add: Let_def out_def)
    qed
  qed (use Cons in simp)
qed (auto intro!: exI)

text \<open>A request replayed after the one that started the session fails.\<close>

lemma replay_after_start:
  assumes "\<forall>(tp, p) \<in> set (q1 @ (t, p0) # q2). queueDecision D tp p = None" "starts_session t" "q2 \<noteq> []"
  shows "\<exists>r b'. replay D I (q1 @ (t, p0) # q2) b = (Some r, b') \<and> br_out b' = br_out b"
proof -
  have started: "\<exists>r b'. replay D I qs b = (Some r, b') \<and> br_out b' = br_out b"
    if "br_started b" "qs \<noteq> []" "\<forall>(tp, p) \<in> set qs. queueDecision D tp p = None" for qs b
    using that by (cases qs) (auto simp: started_refuses)
  have kept: "br_out (set_wait w b1) = br_out b1" for w b1 by (simp add: set_wait_def)
  show ?thesis using assms(1)
  proof (induction q1 arbitrary: b)
    case Nil
    show ?case
    proof (cases "br_started b")
      case False
      show ?thesis
      proof (cases "applySessionRequest D I t p0 b")
        case (Pair r b1)
        have "\<exists>r b'. replay D I q2 (set_wait w b1) = (Some r, b') \<and> br_out b' = br_out (set_wait w b1)" if "r = Applied w" for w
          using apply_started [OF False _ assms(2)] Pair that Nil by (intro started) (auto simp: assms(3))
        with Pair show ?thesis using apply_keeps [OF Pair] by (cases r) (auto simp: kept)
      qed
    qed (use started [of b "(t, p0) # q2"] Nil in simp)
  next
    case (Cons q q1)
    obtain tp p where q: "q = (tp, p)" by (cases q)
    show ?case
    proof (cases "applySessionRequest D I tp p b")
      case (Pair r b1)
      have "\<exists>r b'. replay D I (q1 @ (t, p0) # q2) (set_wait w b1) = (Some r, b') \<and> br_out b' = br_out (set_wait w b1)" for w
        using Cons.IH [of "set_wait w b1"] Cons.prems by auto
      with Pair q show ?thesis using apply_keeps [OF Pair] by (cases r) (auto simp: kept)
    qed
  qed
qed

section \<open>Exit status\<close>

definition statuses :: "bridge \<Rightarrow> uint32 list" where
  "statuses b = concat (map (\<lambda>e. case e of SendExitStatus n \<Rightarrow> [n] | _ \<Rightarrow> []) (br_out b))"

definition status_of :: "wait_result \<Rightarrow> uint32" where
  "status_of r = (case r of WaitNil \<Rightarrow> 0 | WaitExit n \<Rightarrow> word_of_int n | WaitErr \<Rightarrow> 255)"

lemma statuses_simps [simp]:
  "statuses (out (SendExitStatus n) b) = statuses b @ [n]" "statuses (out (ReqReply ok) b) = statuses b"
  "statuses (out (StderrLine t) b) = statuses b" "statuses (out CloseWriteOuter b) = statuses b" "statuses (out CloseOuter b) = statuses b"
  "statuses (set_wait w b) = statuses b" "statuses (snd (call_inner I c b)) = statuses b" "statuses (snd (waited I f r b)) = statuses b"
  "statuses (b\<lparr>br_started := x, br_wait := y\<rparr>) = statuses b"
  by (simp_all add: statuses_def out_def set_wait_def call_inner_def waited_def split: wait_fn.splits)

lemma statuses_kept: "br_out b' = br_out b \<Longrightarrow> statuses b' = statuses b"
  by (simp add: statuses_def)

text \<open>A wait for the pipes alone belongs to a subsystem.\<close>

definition pipes_inv :: "bridge \<Rightarrow> bool" where
  "pipes_inv b \<longleftrightarrow> (br_wait b = Some WaitPipes \<longrightarrow> (\<exists>n. Subsystem n \<in> set (br_calls b)))"

lemma apply_pipes:
  assumes "pipes_inv b" "applySessionRequest D I tp p b = (r, b')"
  shows "pipes_inv b'" "r = Applied w \<Longrightarrow> pipes_inv (set_wait w b')"
  using assms(1) apply_keeps [OF assms(2)] by (auto simp: pipes_inv_def set_wait_def)

definition backed :: "session_event list \<Rightarrow> bridge \<Rightarrow> wait_result \<Rightarrow> bool" where
  "backed es b r \<longleftrightarrow> EvWait r \<in> set es \<or> r = WaitNil \<and> (\<exists>n. Subsystem n \<in> set (br_calls b))"

lemma pipes_out [simp]: "pipes_inv (out e b) = pipes_inv b" "pipes_inv (set_wait w (out e b)) = pipes_inv (set_wait w b)"
  by (simp_all add: pipes_inv_def out_def set_wait_def)

lemma loop_status:
  "pipes_inv b \<Longrightarrow> session_loop D I es b = (r, b') \<Longrightarrow>
   (case r of Some (EndWait v) \<Rightarrow> statuses b' = statuses b @ [status_of v] \<and> backed es b' v | _ \<Rightarrow> statuses b' = statuses b)"
proof (induction es arbitrary: b)
  case (Cons e es)
  have more: "backed es x v \<Longrightarrow> backed (e # es) x v" for x v by (auto simp: backed_def)
  show ?case
  proof (cases e)
    case (EvRequest tp p w)
    obtain v b1 where v: "applySessionRequest D I tp p b = (v, b1)" by (cases "applySessionRequest D I tp p b")
    note ap = apply_pipes [OF Cons.prems(1) v] and st = statuses_kept [OF apply_keeps(1) [OF v]]
    show ?thesis using Cons.prems(2) Cons.IH [of "out (ReqReply False) b1"] Cons.IH [of b1] ap st EvRequest v more
        Cons.IH [of "set_wait u (out (ReqReply True) b1)" for u] Cons.IH [of "set_wait u b1" for u]
      by (cases v; cases w) (auto simp: Let_def split: option.splits session_end.splits)
  next
    case (EvWait v)
    show ?thesis
    proof (cases "br_wait b")
      case (Some f)
      with Cons.prems EvWait show ?thesis
        by (cases f) (auto simp: waited_def finishSession_def status_of_def Let_def backed_def pipes_inv_def call_inner_def statuses_def out_def)
    qed (use Cons.IH [OF Cons.prems(1)] Cons.prems(2) EvWait more in \<open>auto split: option.splits session_end.splits\<close>)
  next
    case EvCtxDone
    with Cons.prems show ?thesis by (auto simp: abortSession_def split: option.splits)
  next
    case EvClosed
    with Cons.prems show ?thesis by (auto simp: abortSession_def split: option.splits if_splits)
  qed (use Cons.IH [OF Cons.prems(1)] Cons.prems(2) more in \<open>auto split: option.splits session_end.splits\<close>)
qed simp

lemma replay_status:
  "pipes_inv b \<Longrightarrow> replay D I qs b = (r, b') \<Longrightarrow> pipes_inv b' \<and> statuses b' = statuses b"
proof (induction qs arbitrary: b)
  case (Cons q qs)
  obtain tp p where q: "q = (tp, p)" by (cases q)
  obtain v b1 where v: "applySessionRequest D I tp p b = (v, b1)" by (cases "applySessionRequest D I tp p b")
  note ap = apply_pipes [OF Cons.prems(1) v] and st = statuses_kept [OF apply_keeps(1) [OF v]]
  show ?case using Cons.prems(2) Cons.IH [of "set_wait u b1" for u] ap st q v by (cases v) auto
qed simp

lemma bridge_status:
  assumes "BridgeSession D I S qs es b = (Some r, b')" "statuses b = []"
  shows "case r of None \<Rightarrow> \<exists>v. v \<noteq> WaitErr \<and> statuses b' = [status_of v] \<and> backed es b' v
    | Some code \<Rightarrow> set (statuses b') = {255}"
proof (cases "ss_NewSession S \<and> ss_StdinPipe S \<and> ss_StdoutPipe S \<and> ss_StderrPipe S")
  case True
  obtain r1 b1 where r1: "replay D I qs (b\<lparr>br_started := False, br_wait := None\<rparr>) = (r1, b1)" by fastforce
  have "pipes_inv (b\<lparr>br_started := False, br_wait := None\<rparr>)" by (simp add: pipes_inv_def)
  from replay_status [OF this r1] assms(2) have b1: "pipes_inv b1" "statuses b1 = []" by simp_all
  obtain r2 b2 where r2: "session_loop D I es b1 = (r2, b2)" by fastforce
  note lp = loop_status [OF b1(1) r2] b1(2)
  have [simp]: "backed es (snd (call_inner I CloseSession (out CloseOuter x))) v = backed es x v" for x v
    by (auto simp: backed_def call_inner_def)
  show ?thesis using assms True r1 r2 lp
    by (auto simp: BridgeSession_def forwardSessionRequests_def Let_def session_fail_def status_of_def
        split: option.splits session_end.splits wait_result.splits)
qed (use assms in \<open>auto simp: BridgeSession_def session_fail_def Let_def split: if_splits\<close>)

definition status_ok :: "session_event list \<Rightarrow> pending_end \<Rightarrow> bridge \<Rightarrow> bool" where
  "status_ok es e b = (case e of PendingClosed \<Rightarrow> statuses b = []
     | Bridged None \<Rightarrow> \<exists>v. v \<noteq> WaitErr \<and> statuses b = [status_of v] \<and> backed es b v
     | _ \<Rightarrow> set (statuses b) = {255})"

lemma status_ok_Cons: "status_ok es e b \<Longrightarrow> status_ok (x # es) e b"
  by (auto simp: status_ok_def backed_def split: pending_end.splits option.splits)

lemma pending_status:
  "BridgePendingSession D I S qs es b = (Some e, b') \<Longrightarrow> statuses b = [] \<Longrightarrow> status_ok es e b'"
proof (induction D I S qs es b rule: BridgePendingSession.induct)
  case (3 D I S queued up es b)
  show ?case
  proof (cases up)
    case True
    with 3 obtain r where r: "BridgeSession D I S queued es b = (Some r, b')" "e = Bridged r" by (auto split: prod.splits)
    then have "status_ok es e b'" using bridge_status [OF r(1) 3(2)] by (auto simp: status_ok_def split: option.splits)
    then show ?thesis by (rule status_ok_Cons)
  qed (use 3 in \<open>auto simp: status_ok_def finishChannelStatus_def\<close>)
next
  case (7 D I S queued tp p w es b)
  then show ?case by (auto simp: Let_def intro!: status_ok_Cons split: if_splits)
next
  case (5 D I S queued es b)
  then show ?case by (simp add: status_ok_Cons)
next
  case (6 D I S queued r es b)
  then show ?case by (simp add: status_ok_Cons)
qed (auto simp: status_ok_def finishChannelStatus_def)

section \<open>Properties\<close>

text \<open>The decoder of the SSH wire format for one string, for the witnesses.\<close>

definition wire_string :: "bytes \<Rightarrow> (string \<times> bytes) option" where
  "wire_string p = (case p of a # b # c # d # rest \<Rightarrow>
      (let n = unat (BigEndian_Uint32 a b c d) in if n \<le> length rest then Some (take n rest, drop n rest) else None)
    | _ \<Rightarrow> None)"

definition one_string :: "bytes \<Rightarrow> string option" where
  "one_string p = (case wire_string p of Some (s, []) \<Rightarrow> Some s | _ \<Rightarrow> None)"

definition demo_decoders :: decoders where
  "demo_decoders = \<lparr>Unmarshal_env = (\<lambda>p. case wire_string p of
       Some (n, q) \<Rightarrow> map_option (\<lambda>v. \<lparr>env_Name = n, env_Value = v\<rparr>) (one_string q) | None \<Rightarrow> None),
     Unmarshal_pty = (\<lambda>p. None), Unmarshal_window = (\<lambda>p. None), Unmarshal_exec = one_string, Unmarshal_signal = one_string,
     Unmarshal_subsystem = one_string\<rparr>"

definition demo_setup :: session_setup where
  "demo_setup = \<lparr>ss_NewSession = True, ss_StdinPipe = True, ss_StdoutPipe = True, ss_StderrPipe = True\<rparr>"

text \<open>C21. Whatever the client sends and however the inner session answers, the calls that reach the inner session
  are well formed (bounded strings without NUL, a known signal, dimensions that fit an \<open>int\<close>, terminal modes without
  duplicates or an end marker) and follow the protocol of a session: preparation, at most one accepted start, then only
  window changes and signals until it is closed.\<close>

theorem inner_session_typed:
  "(\<forall>c \<in> set (br_calls (snd (BridgePendingSession D I S [] es fresh_bridge))). call_ok c)
   \<and> snd (walk I (br_calls (snd (BridgePendingSession D I S [] es fresh_bridge)))) \<noteq> None"
  using pending_over [of fresh_bridge I D S "[]" es] by (simp add: bridge_over_def fresh_bridge_def)

theorem inner_session_typed_witness:
  "let run = BridgePendingSession demo_decoders (\<lambda>_ _. None) demo_setup []
       [EvRequest ''exec'' (map char_of [0::nat, 0, 0, 2, 108, 115]) True, EvTransport True,
        EvRequest ''signal'' (map char_of [0::nat, 0, 0, 3, 73, 78, 84]) True, EvWait (WaitExit 2)] fresh_bridge in
   br_calls (snd run) = [Start ''ls'', Signal ''INT'', CloseSession] \<and> (\<forall>c \<in> set (br_calls (snd run)). call_ok c)"
proof -
  have "br_calls (snd (BridgePendingSession demo_decoders (\<lambda>_ _. None) demo_setup []
       [EvRequest ''exec'' (map char_of [0::nat, 0, 0, 2, 108, 115]) True, EvTransport True,
        EvRequest ''signal'' (map char_of [0::nat, 0, 0, 3, 73, 78, 84]) True, EvWait (WaitExit 2)] fresh_bridge))
     = [Start ''ls'', Signal ''INT'', CloseSession]" by code_simp
  with inner_session_typed [of demo_decoders "\<lambda>_ _. None" demo_setup
      "[EvRequest ''exec'' (map char_of [0::nat, 0, 0, 2, 108, 115]) True, EvTransport True,
        EvRequest ''signal'' (map char_of [0::nat, 0, 0, 3, 73, 78, 84]) True, EvWait (WaitExit 2)]"]
  show ?thesis unfolding Let_def by (elim conjE) (intro conjI)
qed



text \<open>A client that sends anything valid after the request that starts the session, while the transport is still
  starting, has every request acknowledged and then loses the session when the transport arrives.\<close>

theorem acknowledged_then_lost:
  assumes "\<forall>(tp, p) \<in> set (q1 @ (t, p0) # q2). queueDecision D tp p = None" "starts_session t" "q2 \<noteq> []"
    "ss_NewSession S" "ss_StdinPipe S" "ss_StdoutPipe S" "ss_StderrPipe S"
  shows "\<exists>b. BridgePendingSession D I S [] (map (\<lambda>(tp, p). EvRequest tp p True) (q1 @ (t, p0) # q2) @ EvTransport True # fs) fresh_bridge
      = (Some (Bridged (Some TUNNEL_STREAM_FAILED)), b)
    \<and> br_out b = replicate (length q1 + 1 + length q2) (ReqReply True)
        @ [StderrLine ''workspace session failed'', SendExitStatus 255, CloseWriteOuter, CloseOuter]"
proof -
  let ?qs = "q1 @ (t, p0) # q2"
  let ?es = "map (\<lambda>(tp, p). EvRequest tp p True) ?qs"
  have qa: "queue_of D (map (\<lambda>(tp, p). EvRequest tp p True) qs) = qs \<and> answers D (map (\<lambda>(tp, p). EvRequest tp p True) qs) = replicate (length qs) (ReqReply True)"
    if "\<forall>(tp, p) \<in> set qs. queueDecision D tp p = None" for qs using that by (induction qs) auto
  have rq: "only_requests ?es" by (auto simp: only_requests_def)
  let ?b = "fresh_bridge\<lparr>br_out := replicate (length ?qs) (ReqReply True)\<rparr>"
  from replay_after_start [OF assms(1-3), of I "?b\<lparr>br_started := False, br_wait := None\<rparr>"] obtain r b'
    where "replay D I ?qs (?b\<lparr>br_started := False, br_wait := None\<rparr>) = (Some r, b')" "br_out b' = replicate (length ?qs) (ReqReply True)"
    by auto
  then have "BridgeSession D I S ?qs fs ?b = (Some (Some TUNNEL_STREAM_FAILED), snd (call_inner I CloseSession (out CloseOuter (session_fail ''workspace session failed'' b'))))"
    using assms by (simp add: BridgeSession_def forwardSessionRequests_def Let_def)
  moreover have "BridgePendingSession D I S [] (?es @ EvTransport True # fs) fresh_bridge = BridgePendingSession D I S ?qs (EvTransport True # fs) ?b"
    using qa [OF assms(1)] by (simp only: pending_queue [OF rq]) (simp add: fresh_bridge_def)
  ultimately show ?thesis using \<open>br_out b' = _\<close>
    by (simp add: call_inner_def session_fail_def out_def)
qed

theorem acknowledged_then_lost_witness:
  "\<exists>b. BridgePendingSession demo_decoders (\<lambda>_ _. None) demo_setup [] (map (\<lambda>(tp, p). EvRequest tp p True) ([] @ (''shell'', []) # [(''shell'', [])])
      @ EvTransport True # []) fresh_bridge = (Some (Bridged (Some TUNNEL_STREAM_FAILED)), b)"
  using acknowledged_then_lost [of "[]" "''shell''" "[]" "[(''shell'', [])]" demo_decoders demo_setup "\<lambda>_ _. None" "[]"]
  by (auto simp: queueDecision_def starts_session_def demo_setup_def)

text \<open>C23. A session that has ended told the client how: the exit status is the one the workspace reported (zero for a
  drained subsystem) exactly when the bridge returned without an error, and 255 otherwise; only a client that closed the
  session itself before the transport was there is told nothing.\<close>

theorem exit_status_honest:
  assumes "BridgePendingSession D I S [] es fresh_bridge = (Some e, b)"
  shows "case e of PendingClosed \<Rightarrow> statuses b = []
    | Bridged None \<Rightarrow> \<exists>v. v \<noteq> WaitErr \<and> statuses b = [status_of v] \<and> (EvWait v \<in> set es \<or> v = WaitNil \<and> (\<exists>n. Subsystem n \<in> set (br_calls b)))
    | _ \<Rightarrow> set (statuses b) = {255}"
proof -
  have "statuses fresh_bridge = []" by (simp add: statuses_def fresh_bridge_def)
  from pending_status [OF assms this] show ?thesis unfolding status_ok_def backed_def .
qed

theorem exit_status_honest_witness:
  "let run = BridgePendingSession demo_decoders (\<lambda>_ _. None) demo_setup []
       [EvRequest ''shell'' [] True, EvTransport True, EvWait (WaitExit 7)] fresh_bridge in
   fst run = Some (Bridged None) \<and> statuses (snd run) = [7]"
proof -
  let ?run = "BridgePendingSession demo_decoders (\<lambda>_ _. None) demo_setup []
       [EvRequest ''shell'' [] True, EvTransport True, EvWait (WaitExit 7)] fresh_bridge"
  have r: "?run = (Some (Bridged None), snd ?run)" by code_simp
  have "\<not> (\<exists>n. Subsystem n \<in> set (br_calls (snd ?run)))" by (simp add: BridgeSession_def forwardSessionRequests_def request_defs
      call_inner_def Let_def queueDecision_def demo_setup_def fresh_bridge_def waited_def finishSession_def out_def set_wait_def)
  with exit_status_honest [OF r] have "statuses (snd ?run) = [7]" by (auto simp: status_of_def)
  with r show ?thesis unfolding Let_def by (metis fst_conv)
qed

text \<open>The terminal modes of a pty request are decoded exactly: the parser accepts a byte string if and only if it
  is the RFC 4254 encoding of a list of opcode and argument pairs with non-zero opcodes, closed by a zero, and returns the
  map in which the last argument of an opcode wins.\<close>

theorem terminal_modes_exact:
  "(parseTerminalModes raw = Inr m) = (\<exists>ms. raw = encode_modes ms \<and> (\<forall>q \<in> set ms. fst q \<noteq> CHR 0x00) \<and> m = modes_map ms)"
proof
  assume l: "parseTerminalModes raw = Inr m"
  then obtain ms where ms: "\<forall>q \<in> set ms. fst q \<noteq> CHR 0x00" "raw = encode_modes ms"
    using modes_loop_decodes [of raw "[]" m] by (auto simp: parseTerminalModes_def)
  then show "\<exists>ms. raw = encode_modes ms \<and> (\<forall>q \<in> set ms. fst q \<noteq> CHR 0x00) \<and> m = modes_map ms"
    using l modes_loop_encode [OF ms(1), of "[]"] by (auto simp: parseTerminalModes_def modes_map_def)
qed (auto simp: parseTerminalModes_def modes_map_def modes_loop_encode)

theorem terminal_modes_exact_witness:
  "parseTerminalModes (encode_modes [(CHR 0x35, 1), (CHR 0x81, 38400)]) = Inr (modes_map [(CHR 0x35, 1), (CHR 0x81, 38400)])"
  using terminal_modes_exact [of "encode_modes [(CHR 0x35, 1), (CHR 0x81, 38400)]" "modes_map [(CHR 0x35, 1), (CHR 0x81, 38400)]"]
  by (auto intro!: exI [of _ "[(CHR 0x35, 1), (CHR 0x81, 38400)]"])

end
