(* ===== verification/Tunnels.thy ===== *)
theory Tunnels
  imports SshAuth Route
begin

text \<open>
  \<open>internal/tunnel\<close>: the \<open>coder ssh\<close> process behind a tunnel. \<open>argv.go\<close>, \<open>env.go\<close>, \<open>globalconfig.go\<close> and \<open>starter.go\<close>
  (what is started), \<open>registry.go\<close>, \<open>stderr_ring.go\<close>, \<open>proxy.go\<close>, \<open>supervisor.go\<close>, \<open>recheck.go\<close>, and their composition in
  \<open>tunnel_starter.go\<close> and \<open>SessionTransport\<close> of \<open>workspace_transport.go\<close>. The operating system is a parameter: whether a
  directory, a pipe or a process can be had. What a \<open>select\<close> takes next is an event, and a run is a list of events.
  Logging is left out.
\<close>

section \<open>Command line and environment (argv.go, env.go)\<close>

definition grammar_byte :: "char \<Rightarrow> bool" where
  "grammar_byte c \<longleftrightarrow> (CHR ''a'' \<le> c \<and> c \<le> CHR ''z'') \<or> (CHR ''0'' \<le> c \<and> c \<le> CHR ''9'') \<or> c = CHR ''.'' \<or> c = CHR ''-''"

definition targetGrammar :: "string \<Rightarrow> bool" where
  "targetGrammar s \<longleftrightarrow> s \<noteq> [] \<and> list_all grammar_byte s"

definition BuildArgv :: "Deployment \<Rightarrow> Route \<Rightarrow> string list option" where
  "BuildArgv dep route =
     (if \<not> targetGrammar (WorkspaceHost route) then None
      else Some ([''--global-config'', dep_GlobalConfig dep, ''ssh'', ''--stdio'', ''--wait='' @ dep_WaitMode dep]
        @ (if \<not> dep_Autostart dep then [''--disable-autostart=true''] else [])
        @ [WorkspaceHost route]))"

definition boolString :: "bool \<Rightarrow> string" where
  "boolString b = (if b then ''true'' else ''false'')"

text \<open>\<open>None\<close> is the panic of \<open>String\<close> on a nil URL.\<close>

definition BuildEnv :: "string \<Rightarrow> Deployment \<Rightarrow> bytes \<Rightarrow> string list option" where
  "BuildEnv tempDir dep token = map_option (\<lambda>url.
     [''PATH=/usr/local/bin:/usr/bin:/bin'', ''HOME='' @ dep_WorkingDir dep, ''TMPDIR='' @ tempDir, ''CODER_URL='' @ url,
      ''CODER_SESSION_TOKEN='' @ token, ''CODER_NO_VERSION_WARNING=true'', ''CODER_NO_FEATURE_WARNING=true'',
      ''CODER_DISABLE_NETWORK_TELEMETRY='' @ boolString (net_DisableNetworkTelemetry (dep_Network dep))]
     @ (if tls_CAFile (dep_TLS dep) \<noteq> [] then [''CODER_CLIENT_TLS_CA_FILE='' @ tls_CAFile (dep_TLS dep)] else [])
     @ (if tls_CertFile (dep_TLS dep) \<noteq> [] then [''CODER_CLIENT_TLS_CERT_FILE='' @ tls_CertFile (dep_TLS dep)] else [])
     @ (if tls_KeyFile (dep_TLS dep) \<noteq> [] then [''CODER_CLIENT_TLS_KEY_FILE='' @ tls_KeyFile (dep_TLS dep)] else [])
     @ (if net_Proxy (dep_Network dep) \<noteq> [] then [''HTTPS_PROXY='' @ net_Proxy (dep_Network dep)] else [])
     @ (if net_NoProxy (dep_Network dep) \<noteq> [] then [''NO_PROXY='' @ net_NoProxy (dep_Network dep)] else []))
     (dep_CoderURL dep)"

section \<open>Starting the process (globalconfig.go, starter.go)\<close>

record command =
  cmd_Path :: string
  cmd_Args :: "string list"
  cmd_Env :: "string list"
  cmd_Dir :: string
  cmd_Setpgid :: bool

text \<open>The operating system: which directories can be made and restricted, the directory for temporary files, whether
  the pipes can be made, and whether a command starts.\<close>

record system =
  os_MkdirAll :: "string \<Rightarrow> bool"
  os_Chmod :: "string \<Rightarrow> bool"
  os_TempDir :: string
  os_Pipes :: bool
  os_Start :: "command \<Rightarrow> bool"

definition Contains :: "string \<Rightarrow> string \<Rightarrow> bool" where
  "Contains s sub \<longleftrightarrow> (\<exists>i \<in> set [0..<Suc (length s)]. HasPrefix (drop i s) sub)"

definition EnsureGlobalConfigDir :: "system \<Rightarrow> string \<Rightarrow> bool" where
  "EnsureGlobalConfigDir Y path \<longleftrightarrow> \<not> Contains path ''/.config/'' \<and> os_MkdirAll Y path \<and> os_Chmod Y path"

datatype launched = LaunchFailed | LaunchPanic | Launched command

text \<open>The result and what is left in the token buffer, which is shared with the caller.\<close>

definition Launch :: "system \<Rightarrow> Deployment \<Rightarrow> Route \<Rightarrow> bytes \<Rightarrow> launched \<times> bytes" where
  "Launch Y dep route token = (case BuildArgv dep route of None \<Rightarrow> (LaunchFailed, token)
   | Some argv \<Rightarrow> (case BuildEnv (os_TempDir Y) dep token of None \<Rightarrow> (LaunchPanic, token)
     | Some environ \<Rightarrow>
       (let cmd = \<lparr>cmd_Path = dep_CoderBinary dep, cmd_Args = argv, cmd_Env = environ, cmd_Dir = dep_WorkingDir dep, cmd_Setpgid = True\<rparr> in
        (if \<not> os_Pipes Y \<or> \<not> os_Start Y cmd then LaunchFailed else Launched cmd, replicate (length token) (CHR 0x00)))))"

section \<open>Registry (registry.go)\<close>

definition registryMaxSize :: nat where "registryMaxSize = 10000"

record TunnelInfo =
  ti_ID :: uuid
  ti_AccountID :: uuid
  ti_DeploymentID :: uuid
  ti_Generation :: int64
  ti_Route :: Route
  ti_StartedAt :: int
  ti_ConnectionID :: string

record Registry =
  rg_tunnels :: "(uuid, TunnelInfo) gomap"
  rg_order :: "uuid list"

definition NewRegistry :: Registry where
  "NewRegistry = \<lparr>rg_tunnels = [], rg_order = []\<rparr>"

definition evictOldestLocked :: "Registry \<Rightarrow> Registry" where
  "evictOldestLocked r = (case rg_order r of [] \<Rightarrow> r
     | oldest # rest \<Rightarrow> r\<lparr>rg_tunnels := gm_delete oldest (rg_tunnels r), rg_order := rest\<rparr>)"

definition Registry_Add :: "TunnelInfo \<Rightarrow> Registry \<Rightarrow> Registry" where
  "Registry_Add info r =
     (let r1 = (if length (rg_tunnels r) \<ge> registryMaxSize then evictOldestLocked r else r) in
      r1\<lparr>rg_tunnels := gm_put (ti_ID info) info (rg_tunnels r1), rg_order := rg_order r1 @ [ti_ID info]\<rparr>)"

definition Registry_Remove :: "uuid \<Rightarrow> Registry \<Rightarrow> Registry" where
  "Registry_Remove i r = r\<lparr>rg_tunnels := gm_delete i (rg_tunnels r)\<rparr>"

definition Registry_List :: "Registry \<Rightarrow> TunnelInfo list" where
  "Registry_List r = map snd (rg_tunnels r)"

definition CountForAccount :: "uuid \<Rightarrow> Registry \<Rightarrow> nat" where
  "CountForAccount a r = length (filter (\<lambda>p. ti_AccountID (snd p) = a) (rg_tunnels r))"

section \<open>Diagnostics (stderr\_ring.go)\<close>

definition DefaultStderrRingBytes :: nat where "DefaultStderrRingBytes = 64 * 1024"

definition token_byte :: "char \<Rightarrow> bool" where
  "token_byte c \<longleftrightarrow> (CHR ''A'' \<le> c \<and> c \<le> CHR ''Z'') \<or> (CHR ''a'' \<le> c \<and> c \<le> CHR ''z'') \<or> (CHR ''0'' \<le> c \<and> c \<le> CHR ''9'')
     \<or> c = CHR ''_'' \<or> c = CHR ''-''"

definition sep_byte :: "char \<Rightarrow> bool" where
  "sep_byte c \<longleftrightarrow> c = CHR ''_'' \<or> c = CHR ''-''"

text \<open>Both alternatives of the expression match within a run of token bytes, extend to its end, and match from the
  beginning of the run if they match anywhere in it: a maximal run is replaced as a whole when one of its separators has
  twenty token bytes before or after it in the run.\<close>

definition tokenLike :: "bytes \<Rightarrow> bool" where
  "tokenLike run \<longleftrightarrow> (\<exists>i \<in> set [0..<length run]. sep_byte (run ! i) \<and> (20 \<le> i \<or> 20 \<le> length run - Suc i))"

definition redactedToken :: string where "redactedToken = ''[REDACTED]''"

definition redact_run :: "bytes \<Rightarrow> bytes" where
  "redact_run run = (if tokenLike run then redactedToken else run)"

function ReplaceAll :: "bytes \<Rightarrow> bytes" where
  "ReplaceAll [] = []"
| "ReplaceAll (c # b) = (if token_byte c
     then redact_run (takeWhile token_byte (c # b)) @ ReplaceAll (dropWhile token_byte (c # b))
     else c # ReplaceAll b)"
  by pat_completeness auto
termination
proof (relation "measure length")
  fix c :: char and b assume "token_byte c"
  then show "(dropWhile token_byte (c # b), c # b) \<in> measure length" by (simp add: less_Suc_eq_le length_dropWhile_le)
qed simp_all

record StderrRing =
  ring_buf :: bytes
  ring_max :: nat

definition NewStderrRing :: "int \<Rightarrow> StderrRing" where
  "NewStderrRing maxBytes = \<lparr>ring_buf = [], ring_max = (if maxBytes \<le> 0 then DefaultStderrRingBytes else nat maxBytes)\<rparr>"

definition ring_Write :: "bytes \<Rightarrow> StderrRing \<Rightarrow> StderrRing" where
  "ring_Write p r =
     (let buf = ReplaceAll (ring_buf r @ p) in
      r\<lparr>ring_buf := (if length buf > ring_max r then drop (length buf - ring_max r) buf else buf)\<rparr>)"

definition ring_Tail :: "StderrRing \<Rightarrow> bytes" where
  "ring_Tail r = ring_buf r"

section \<open>Streams (proxy.go)\<close>

datatype stream_err = EOF | ErrClosedPipe | OsErrClosed | EPIPE | ECONNRESET | ErrOther string

definition normalizeStreamErr :: "stream_err option \<Rightarrow> stream_err option" where
  "normalizeStreamErr err = (case err of
     Some (ErrOther msg) \<Rightarrow> if Contains msg ''use of closed network connection'' then None else err
   | _ \<Rightarrow> None)"

text \<open>\<open>errors.Join\<close>: the errors that are not nil.\<close>

definition errors_Join :: "stream_err option list \<Rightarrow> stream_err list" where
  "errors_Join es = concat (map (\<lambda>e. case e of None \<Rightarrow> [] | Some x \<Rightarrow> [x]) es)"

text \<open>A read with its data and error, and the error of writing the data on. The result is the error that is
  reported, a list that is empty for nil, and \<open>None\<close> while the loop waits.\<close>

type_synonym read_event = "bytes \<times> stream_err option \<times> stream_err option"

fun proxy_up :: "read_event list \<Rightarrow> stream_err option \<Rightarrow> bytes \<Rightarrow> stream_err list option \<times> bytes" where
  "proxy_up [] closeErr sent = (None, sent)"
| "proxy_up ((data, err, werr) # rs) closeErr sent =
     (if data \<noteq> [] \<and> werr \<noteq> None then (Some (errors_Join [err]), sent)
      else if err \<noteq> None then (Some (errors_Join [normalizeStreamErr err, normalizeStreamErr closeErr]), sent @ data)
      else proxy_up rs closeErr (sent @ data))"

fun proxy_down_rest :: "read_event list \<Rightarrow> bytes \<Rightarrow> stream_err option \<times> bytes" where
  "proxy_down_rest [] sent = (None, sent)"
| "proxy_down_rest ((data, err, werr) # rs) sent =
     (if data \<noteq> [] \<and> werr \<noteq> None then (werr, sent)
      else if err \<noteq> None then (err, sent @ data)
      else proxy_down_rest rs (sent @ data))"

definition proxy_down :: "read_event list \<Rightarrow> stream_err option \<Rightarrow> (bool \<times> stream_err list \<times> bytes) option" where
  "proxy_down reads closeErr = (case reads of [] \<Rightarrow> None
   | (data, rerr, werr0) # rs \<Rightarrow>
     (let firstByte = (data \<noteq> []); werr = (if firstByte then werr0 else None);
          sent = (if firstByte \<and> werr = None then data else []) in
      if rerr = None \<and> werr = None
      then (case proxy_down_rest rs sent of (None, _) \<Rightarrow> None
            | (copyErr, w) \<Rightarrow> Some (firstByte, errors_Join [normalizeStreamErr copyErr, normalizeStreamErr closeErr], w))
      else Some (firstByte, errors_Join [normalizeStreamErr rerr, normalizeStreamErr werr, normalizeStreamErr closeErr], sent)))"

section \<open>Supervision (supervisor.go)\<close>

definition DefaultStartupTimeout :: int where "DefaultStartupTimeout = 5 * 60 * 1000000000"
definition DefaultShutdownGrace :: int where "DefaultShutdownGrace = 5 * 1000000000"

datatype cancelTrigger = triggerNone | triggerStartupTimeout | triggerPolicyTimeout | triggerContext
  | triggerChannelClosed | triggerStream

record SuperviseOpts =
  so_StartupTimeout :: int
  so_PolicyTimeout :: int
  so_Grace :: int

datatype sv_event = SvExit "string option" | SvFirstByte | SvStartup | SvPolicy | SvCtx
  | SvUp "stream_err list" | SvDown "stream_err list" | SvLinger

datatype killsig = SIGTERM | SIGKILL

datatype sv_effect = ProcessStarted | NewTimer int | CloseStdin | KillGroup killsig | CloseChannelSv | ProcessExited string | ActiveGauge int

record supervisor =
  sv_waiting :: bool
  sv_waitErr :: "string option"
  sv_firstByteC :: bool
  sv_firstByte :: bool
  sv_startupC :: bool
  sv_policyC :: bool
  sv_lingerC :: bool
  sv_upRes :: bool
  sv_downRes :: bool
  sv_upErr :: "stream_err list"
  sv_downErr :: "stream_err list"
  sv_trigger :: cancelTrigger

text \<open>An event from a channel that is nil, or that was already received, cannot be taken.\<close>

fun sv_step :: "sv_event \<Rightarrow> supervisor \<Rightarrow> supervisor" where
  "sv_step (SvExit err) v = v\<lparr>sv_waitErr := err, sv_waiting := False\<rparr>"
| "sv_step SvFirstByte v = (if sv_firstByteC v then v\<lparr>sv_firstByteC := False, sv_firstByte := True, sv_startupC := False\<rparr> else v)"
| "sv_step SvStartup v = (if sv_startupC v then v\<lparr>sv_trigger := triggerStartupTimeout, sv_startupC := False\<rparr> else v)"
| "sv_step SvPolicy v = (if sv_policyC v then v\<lparr>sv_trigger := triggerPolicyTimeout, sv_policyC := False\<rparr> else v)"
| "sv_step SvCtx v = v\<lparr>sv_trigger := triggerContext\<rparr>"
| "sv_step (SvUp err) v = (if sv_upRes v
     then (if err \<noteq> [] then v\<lparr>sv_upRes := False, sv_upErr := err, sv_trigger := triggerStream\<rparr>
           else v\<lparr>sv_upRes := False, sv_upErr := err, sv_lingerC := True\<rparr>) else v)"
| "sv_step (SvDown err) v = (if sv_downRes v
     then (if err \<noteq> [] then v\<lparr>sv_downRes := False, sv_downErr := err, sv_trigger := triggerStream\<rparr>
           else v\<lparr>sv_downRes := False, sv_downErr := err\<rparr>) else v)"
| "sv_step SvLinger v = (if sv_lingerC v then v\<lparr>sv_trigger := triggerChannelClosed, sv_lingerC := False\<rparr> else v)"

definition sv_stopped :: "supervisor \<Rightarrow> bool" where
  "sv_stopped v \<longleftrightarrow> \<not> sv_waiting v \<or> sv_trigger v \<noteq> triggerNone"

fun sv_loop :: "sv_event list \<Rightarrow> supervisor \<Rightarrow> supervisor option" where
  "sv_loop [] v = (if sv_stopped v then Some v else None)"
| "sv_loop (e # es) v = (if sv_stopped v then Some v else sv_loop es (sv_step e v))"

text \<open>What the child and the copy loops do once the loop is left: whether the child exits within the grace period and
  with which error, the results of the copies not received before, the tail of the diagnostics and the elapsed time.\<close>

record shutdown =
  sd_inGrace :: bool
  sd_waitErr :: "string option"
  sd_up :: "stream_err list"
  sd_down :: "stream_err list"
  sd_tail :: bytes
  sd_duration :: int

definition cancelChild :: "int \<Rightarrow> shutdown \<Rightarrow> sv_effect list" where
  "cancelChild grace z = [CloseStdin, KillGroup SIGTERM, CloseChannelSv, NewTimer grace] @ (if sd_inGrace z then [] else [KillGroup SIGKILL])"

record SupervisionResult =
  res_Code :: string
  res_WaitErr :: "string option"
  res_FirstByte :: bool
  res_StderrTail :: bytes
  res_Duration :: int

definition supervision_code :: "supervisor \<Rightarrow> stream_err list \<Rightarrow> stream_err list \<Rightarrow> string" where
  "supervision_code v upErr downErr = (case sv_trigger v of
     triggerNone \<Rightarrow> if \<not> sv_firstByte v then TUNNEL_CODER_EXITED else if upErr \<noteq> [] \<or> downErr \<noteq> [] then TUNNEL_STREAM_FAILED else []
   | triggerStartupTimeout \<Rightarrow> TUNNEL_START_TIMEOUT
   | triggerStream \<Rightarrow> TUNNEL_STREAM_FAILED
   | _ \<Rightarrow> TUNNEL_CANCELLED)"

definition supervision_result :: "supervisor \<Rightarrow> shutdown \<Rightarrow> SupervisionResult" where
  "supervision_result v z =
    (let upErr = (if sv_upRes v then sd_up z else sv_upErr v); downErr = (if sv_downRes v then sd_down z else sv_downErr v) in
     \<lparr>res_Code = supervision_code v upErr downErr, res_WaitErr = (if sv_trigger v \<noteq> triggerNone then sd_waitErr z else sv_waitErr v),
      res_FirstByte = sv_firstByte v, res_StderrTail = sd_tail z, res_Duration = sd_duration z\<rparr>)"

definition supervision_effects :: "SuperviseOpts \<Rightarrow> supervisor \<Rightarrow> shutdown \<Rightarrow> sv_effect list" where
  "supervision_effects opts v z =
    (let grace = (if so_Grace opts \<le> 0 then DefaultShutdownGrace else so_Grace opts);
         startupTimeout = (if so_StartupTimeout opts \<le> 0 then DefaultStartupTimeout else so_StartupTimeout opts) in
     [ProcessStarted, NewTimer startupTimeout] @ (if so_PolicyTimeout opts > 0 then [NewTimer (so_PolicyTimeout opts)] else [])
     @ (if sv_upRes v \<or> sv_upErr v \<noteq> [] then [] else [NewTimer grace])
     @ (if sv_trigger v \<noteq> triggerNone then cancelChild grace z else [])
     @ [CloseChannelSv, CloseStdin, ProcessExited (res_Code (supervision_result v z)), ActiveGauge 0])"

definition sv_init :: "SuperviseOpts \<Rightarrow> supervisor" where
  "sv_init opts = \<lparr>sv_waiting = True, sv_waitErr = None, sv_firstByteC = True, sv_firstByte = False, sv_startupC = True,
     sv_policyC = so_PolicyTimeout opts > 0, sv_lingerC = False, sv_upRes = True, sv_downRes = True, sv_upErr = [], sv_downErr = [],
     sv_trigger = triggerNone\<rparr>"

definition Supervise :: "SuperviseOpts \<Rightarrow> sv_event list \<Rightarrow> shutdown \<Rightarrow> (SupervisionResult \<times> sv_effect list) option" where
  "Supervise opts es z = map_option (\<lambda>v. (supervision_result v z, supervision_effects opts v z)) (sv_loop es (sv_init opts))"

section \<open>Rechecking a credential (recheck.go)\<close>

definition RecheckAfterFailure :: "world \<Rightarrow> uuid \<Rightarrow> int64 \<Rightarrow> unit authm" where
  "RecheckAfterFailure W accountID generation =
     bnd ctx_done (\<lambda>done.
     bnd (store_call W (LoadCredential (wo_env W) done accountID)) (\<lambda>r.
     case r of Inl _ \<Rightarrow> ret ()
     | Inr snap \<Rightarrow>
         if snap_Generation snap \<noteq> generation then ret ()
         else if snap_State snap = CredentialStateMissing \<or> length (snap_Token snap) = 0 then ret ()
         else
         bnd (verify_call W (snap_Token snap)) (\<lambda>v.
         case v of Inr _ \<Rightarrow> ret ()
         | Inl err \<Rightarrow>
             if KindOf err = Some CredentialInvalid
             then bnd ctx_done (\<lambda>done.
                  bnd (store_call W (MarkCredentialInvalid (wo_env W) done accountID generation AUTH_CREDENTIAL_UNAUTHORIZED)) (\<lambda>_. ret ()))
             else ret ())))"

section \<open>Tunnels (tunnel\_starter.go)\<close>

definition EventTypeTunnelStart :: string where "EventTypeTunnelStart = ''tunnel_start''"

record tunnelEvent =
  te_DeploymentID :: uuid
  te_AccountID :: uuid
  te_Target :: string
  te_Generation :: int64
  te_DetailCode :: string
  te_DurationMs :: "int option"

record TunnelStarter =
  ts_Launcher :: "Deployment option"
  ts_Opts :: SuperviseOpts
  ts_Audit :: bool
  ts_Rechecker :: bool
  ts_Registry :: bool

datatype tunnel_effect = TxSupervise sv_effect | TxCloseChannel | TxCloseInner | TxAudit tunnelEvent

text \<open>The state a tunnel works on: the gateway, the registry, the token buffer it was given and its effects.\<close>

record tunnels =
  tx_gw :: gateway
  tx_registry :: Registry
  tx_token :: bytes
  tx_trace :: "tunnel_effect list"

type_synonym 'a tunm = "(tunnels, auth_error, 'a) sr"

definition tx_emit :: "tunnel_effect list \<Rightarrow> unit tunm" where
  "tx_emit es = (\<lambda>s. (Inr (), s\<lparr>tx_trace := tx_trace s @ es\<rparr>))"

definition on_registry :: "(Registry \<Rightarrow> Registry) \<Rightarrow> unit tunm" where
  "on_registry f = (\<lambda>s. (Inr (), s\<lparr>tx_registry := f (tx_registry s)\<rparr>))"

definition tx_gateway :: "'a authm \<Rightarrow> 'a tunm" where
  "tx_gateway m = (\<lambda>s. case m (tx_gw s) of (r, g) \<Rightarrow> (r, s\<lparr>tx_gw := g\<rparr>))"

definition tx_launch :: "system \<Rightarrow> Deployment \<Rightarrow> Route \<Rightarrow> launched tunm" where
  "tx_launch Y dep route = (\<lambda>s. case Launch Y dep route (tx_token s) of (l, token) \<Rightarrow> (Inr l, s\<lparr>tx_token := token\<rparr>))"

definition auditFailure :: "TunnelStarter \<Rightarrow> Deployment \<Rightarrow> Route \<Rightarrow> CredentialSnapshot \<Rightarrow> string \<Rightarrow> int \<Rightarrow> unit tunm" where
  "auditFailure ts dep route cred code dur = (if \<not> ts_Audit ts then ret () else tx_emit [TxAudit
     \<lparr>te_DeploymentID = dep_ID dep, te_AccountID = snap_AccountID cred, te_Target = DisplayTarget route, te_Generation = snap_Generation cred,
      te_DetailCode = code, te_DurationMs = (if dur > 0 then Some (dur div 1000000) else None)\<rparr>])"

definition tunnel_info :: "golib \<Rightarrow> uuid \<Rightarrow> int \<Rightarrow> Deployment \<Rightarrow> Route \<Rightarrow> CredentialSnapshot \<Rightarrow> TunnelInfo" where
  "tunnel_info L i now dep route cred = \<lparr>ti_ID = i, ti_AccountID = snap_AccountID cred, ti_DeploymentID = dep_ID dep,
     ti_Generation = snap_Generation cred, ti_Route = route, ti_StartedAt = now, ti_ConnectionID = uuid_String L (snap_AccountID cred)\<rparr>"

definition register :: "world \<Rightarrow> TunnelStarter \<Rightarrow> uuid \<Rightarrow> Deployment \<Rightarrow> Route \<Rightarrow> CredentialSnapshot \<Rightarrow> unit tunm" where
  "register W ts i dep route cred = (if \<not> ts_Registry ts then ret ()
     else bnd (tx_gateway (clock W)) (\<lambda>now. on_registry (Registry_Add (tunnel_info (env_lib (wo_env W)) i now dep route cred))))"

datatype tunnel_result = TunnelDone | TunnelError string | TunnelPanic | TunnelRunning

definition recheckAfterFailure :: "world \<Rightarrow> TunnelStarter \<Rightarrow> CredentialSnapshot \<Rightarrow> string \<Rightarrow> unit tunm" where
  "recheckAfterFailure W ts cred code =
     (if ts_Rechecker ts \<and> (code = TUNNEL_CODER_EXITED \<or> code = TUNNEL_START_TIMEOUT)
      then tx_gateway (RecheckAfterFailure W (snap_AccountID cred) (snap_Generation cred)) else ret ())"

text \<open>The call while the process runs is cut off where supervision still waits (\<open>TunnelRunning\<close>). \<open>i\<close> is the random
  identifier of the tunnel.\<close>

definition tunnel_Start :: "world \<Rightarrow> system \<Rightarrow> TunnelStarter \<Rightarrow> uuid \<Rightarrow> Route \<Rightarrow> CredentialSnapshot \<Rightarrow> sv_event list \<Rightarrow> shutdown \<Rightarrow> tunnel_result tunm" where
  "tunnel_Start W Y ts i route cred es z = (case ts_Launcher ts of
     None \<Rightarrow> bnd (tx_emit [TxCloseChannel]) (\<lambda>_. ret (TunnelError TUNNEL_PROCESS_START_FAILED))
   | Some dep \<Rightarrow>
     if \<not> EnsureGlobalConfigDir Y (dep_GlobalConfig dep)
     then bnd (tx_emit [TxCloseChannel]) (\<lambda>_.
          bnd (auditFailure ts dep route cred TUNNEL_PROCESS_START_FAILED 0) (\<lambda>_. ret (TunnelError TUNNEL_PROCESS_START_FAILED)))
     else
     bnd (tx_launch Y dep route) (\<lambda>l.
     case l of LaunchPanic \<Rightarrow> ret TunnelPanic
     | LaunchFailed \<Rightarrow> bnd (tx_emit [TxCloseChannel]) (\<lambda>_.
          bnd (auditFailure ts dep route cred TUNNEL_PROCESS_START_FAILED 0) (\<lambda>_. ret (TunnelError TUNNEL_PROCESS_START_FAILED)))
     | Launched cmd \<Rightarrow>
         bnd (register W ts i dep route cred) (\<lambda>_.
         case Supervise (ts_Opts ts) es z of None \<Rightarrow> ret TunnelRunning
         | Some (res, eff) \<Rightarrow>
             bnd (tx_emit (map TxSupervise eff)) (\<lambda>_.
             bnd (if ts_Registry ts \<and> i \<noteq> uuid_Nil then on_registry (Registry_Remove i) else ret ()) (\<lambda>_.
             if res_Code res = [] then ret TunnelDone
             else
             bnd (recheckAfterFailure W ts cred (res_Code res)) (\<lambda>_.
             bnd (tx_emit [TxCloseChannel]) (\<lambda>_.
             bnd (auditFailure ts dep route cred (res_Code res) (res_Duration res)) (\<lambda>_.
             ret (TunnelError (res_Code res))))))))))"

section \<open>Transports (workspace\_transport.go)\<close>

text \<open>Starting the inner client of a transport. The handshake succeeds, fails, or is cut off by the startup timer or the context.\<close>

datatype handshake = HandshakeOk | HandshakeFailed | HandshakeTimedOut | HandshakeCancelled

definition requestProcessTermination :: "tunnel_effect list" where
  "requestProcessTermination = map TxSupervise [CloseStdin, KillGroup SIGTERM]"

text \<open>Whether the process ends within the grace period is a parameter.\<close>

definition terminateProcess :: "int \<Rightarrow> bool \<Rightarrow> tunnel_effect list" where
  "terminateProcess grace inGrace = requestProcessTermination
     @ [TxSupervise (NewTimer (if grace \<le> 0 then DefaultShutdownGrace else grace))]
     @ (if inGrace then [] else [TxSupervise (KillGroup SIGKILL)])"

definition transport_Close :: "TunnelStarter \<Rightarrow> uuid \<Rightarrow> bool \<Rightarrow> unit tunm" where
  "transport_Close ts i inGrace =
     bnd (tx_emit ([TxCloseInner] @ terminateProcess (so_Grace (ts_Opts ts)) inGrace)) (\<lambda>_.
     bnd (\<lambda>s. (Inr (), s\<lparr>tx_token := replicate (length (tx_token s)) (CHR 0x00)\<rparr>)) (\<lambda>_.
     if ts_Registry ts \<and> i \<noteq> uuid_Nil then on_registry (Registry_Remove i) else ret ()))"

text \<open>On a timeout or a cancelled context the watchdog closes the inner connection and asks the process to end.\<close>

definition watchdog :: "handshake \<Rightarrow> tunnel_effect list" where
  "watchdog h = (if h = HandshakeTimedOut \<or> h = HandshakeCancelled then TxCloseInner # requestProcessTermination else [])"

definition transport_start :: "world \<Rightarrow> system \<Rightarrow> TunnelStarter \<Rightarrow> uuid \<Rightarrow> string \<Rightarrow> CredentialSnapshot \<Rightarrow> handshake \<Rightarrow> bool \<Rightarrow> tunnel_result tunm" where
  "transport_start W Y ts i target cred h inGrace =
    (let route = \<lparr>RequestedHost = [], RequestedPort = 0, WorkspaceHost = target, DisplayTarget = target\<rparr> in
     case ts_Launcher ts of None \<Rightarrow> ret (TunnelError TUNNEL_PROCESS_START_FAILED)
     | Some dep \<Rightarrow>
       if \<not> EnsureGlobalConfigDir Y (dep_GlobalConfig dep) then ret (TunnelError TUNNEL_PROCESS_START_FAILED)
       else
       bnd (tx_launch Y dep route) (\<lambda>l.
       case l of LaunchPanic \<Rightarrow> ret TunnelPanic | LaunchFailed \<Rightarrow> ret (TunnelError TUNNEL_PROCESS_START_FAILED)
       | Launched cmd \<Rightarrow>
           bnd (register W ts i dep route cred) (\<lambda>_.
           if h = HandshakeOk then ret TunnelDone
           else (let code = (if h = HandshakeTimedOut then TUNNEL_START_TIMEOUT else TUNNEL_CODER_EXITED) in
             bnd (tx_emit (watchdog h)) (\<lambda>_.
             bnd (recheckAfterFailure W ts cred code) (\<lambda>_.
             bnd (transport_Close ts i inGrace) (\<lambda>_.
             ret (TunnelError code))))))))"

definition sanitizeConnectError :: "string \<Rightarrow> string" where
  "sanitizeConnectError err =
     (let msg = take 200 (map (\<lambda>c. if c = CHR 0x0A \<or> c = CHR 0x0D then CHR '' '' else c) err) in
      if msg = [] then ''connect failed'' else ''connect failed: '' @ msg)"

end
