(* ===== verification/TunnelProps.thy ===== *)
theory TunnelProps
  imports Tunnels AuthLoops
begin

text \<open>
  What a tunnel guarantees: what may reach the command line, that diagnostics stay bounded and redacted, what the code
  of an ended supervision says about the run, that a failed tunnel touches only the credential it used, and where the
  registry and the redaction fall short of their comments.
\<close>

section \<open>Command lines\<close>

lemma grammar_label: "label_byte c \<Longrightarrow> grammar_byte c"
  by (auto simp: label_byte_def grammar_byte_def)

lemma accepted_host: "ParseDirectTCPIP L host port = Inr r \<Longrightarrow> dotted (WorkspaceHost r) \<or> slashed (WorkspaceHost r)"
  unfolding ParseDirectTCPIP_Inr ParseBareTarget_Inr by (auto simp: accepted_route_def)

lemma argv_dotted:
  assumes "dotted (WorkspaceHost r)" shows "BuildArgv dep r \<noteq> None"
proof -
  have "WorkspaceHost r \<noteq> []" using accepted_host_ends [of "WorkspaceHost r"] assms by blast
  moreover have "CHR ''/'' \<notin> set (WorkspaceHost r)"
    using assms Join_dot_no_slash by (auto simp: dotted_def)
  then have "list_all grammar_byte (WorkspaceHost r)"
    using accepted_host_bytes [of "WorkspaceHost r"] assms grammar_label by (auto simp: list_all_iff grammar_byte_def)
  ultimately show ?thesis by (simp add: BuildArgv_def targetGrammar_def)
qed

lemma argv_slashed:
  assumes "slashed (WorkspaceHost r)" shows "BuildArgv dep r = None"
proof -
  obtain ls where ls: "2 \<le> length ls" "WorkspaceHost r = Join ''/'' ls" using assms by (auto simp: slashed_def)
  then obtain a b t where "ls = a # b # t" by (cases ls; cases "tl ls") auto
  then have "CHR ''/'' \<in> set (WorkspaceHost r)" using ls by simp
  moreover have "\<not> grammar_byte (CHR ''/'')" by (simp add: grammar_byte_def less_eq_char_def)
  ultimately have "\<not> targetGrammar (WorkspaceHost r)" by (auto simp: targetGrammar_def list_all_iff)
  then show ?thesis by (simp add: BuildArgv_def)
qed

lemma token_entries:
  "BuildEnv d dep token = Some environ \<Longrightarrow> filter (\<lambda>e. HasPrefix e ''CODER_SESSION_TOKEN='') environ = [''CODER_SESSION_TOKEN='' @ token]"
  by (auto simp: BuildEnv_def HasPrefix_def)

lemma LaunchedE:
  assumes "Launch Y dep r token = (Launched cmd, token')"
  obtains argv environ where "BuildArgv dep r = Some argv" "BuildEnv (os_TempDir Y) dep token = Some environ"
    "cmd = \<lparr>cmd_Path = dep_CoderBinary dep, cmd_Args = argv, cmd_Env = environ, cmd_Dir = dep_WorkingDir dep, cmd_Setpgid = True\<rparr>"
    "token' = replicate (length token) (CHR 0x00)"
  using assms by (auto simp: Launch_def Let_def split: option.splits if_splits)

section \<open>Diagnostics\<close>

definition redacted :: "bytes \<Rightarrow> bool" where
  "redacted b \<longleftrightarrow> (\<forall>pre run post. b = pre @ run @ post \<longrightarrow> list_all token_byte run \<longrightarrow> \<not> tokenLike run)"

lemma tokenLike_sub:
  assumes "tokenLike run" shows "tokenLike (pre @ run @ post)"
proof -
  obtain i where i: "i < length run" "sep_byte (run ! i)" "20 \<le> i \<or> 20 \<le> length run - Suc i" using assms by (auto simp: tokenLike_def)
  then show ?thesis unfolding tokenLike_def
    by (intro bexI [of _ "length pre + i"]) (auto simp: nth_append)
qed

lemma redacted_drop: "redacted b \<Longrightarrow> redacted (drop n b)"
  unfolding redacted_def by (metis append.assoc append_take_drop_id)

lemma redacted_Nil [simp]: "redacted []"
  by (simp add: redacted_def tokenLike_def)

lemma redacted_run: "list_all token_byte run \<Longrightarrow> \<not> tokenLike run \<Longrightarrow> redacted run"
  unfolding redacted_def using tokenLike_sub by blast

lemma redacted_append:
  assumes "redacted x" "redacted y" "x = [] \<or> y = [] \<or> \<not> token_byte (last x) \<or> \<not> token_byte (hd y)"
  shows "redacted (x @ y)"
  unfolding redacted_def
proof (intro allI impI)
  fix pre run post assume e: "x @ y = pre @ run @ post" and t: "list_all token_byte run"
  from e consider us where "x = pre @ run @ us" | us where "y = us @ run @ post" | u1 u2 where "run = u1 @ u2" "x = pre @ u1" "y = u2 @ post"
    by (auto simp: append_eq_append_conv2)
  then show "\<not> tokenLike run"
  proof cases
    case (3 u1 u2)
    then have "u1 = [] \<or> u2 = []" using assms(3) t by (auto simp: list_all_iff last_append hd_append split: if_splits)
    with 3 assms t show ?thesis unfolding redacted_def by (metis append_Nil append_Nil2)
  qed (use assms(1,2) t in \<open>unfold redacted_def, blast+\<close>)
qed

lemma redacted_short: "length b \<le> 20 \<Longrightarrow> redacted b"
  by (auto simp: redacted_def tokenLike_def)

lemma redactedToken_redacted: "redacted redactedToken"
  by (rule redacted_short) (simp add: redactedToken_def)

lemma ReplaceAll_hd: "b \<noteq> [] \<Longrightarrow> \<not> token_byte (hd b) \<Longrightarrow> ReplaceAll b \<noteq> [] \<and> hd (ReplaceAll b) = hd b"
  by (cases b) auto

lemma ReplaceAll_redacted: "redacted (ReplaceAll b)"
proof (induction b rule: ReplaceAll.induct)
  case (2 c b)
  show ?case
  proof (cases "token_byte c")
    case True
    let ?r = "takeWhile token_byte (c # b)" and ?d = "dropWhile token_byte (c # b)"
    have t: "list_all token_byte ?r" by (auto simp: list_all_iff dest: set_takeWhileD)
    have "redacted (redact_run ?r)" using redactedToken_redacted redacted_run [OF t] by (simp add: redact_run_def)
    moreover have "ReplaceAll ?d = [] \<or> \<not> token_byte (hd (ReplaceAll ?d))"
      using ReplaceAll_hd [of ?d] hd_dropWhile [of token_byte "c # b"] by (cases "?d = []") auto
    ultimately have "redacted (redact_run ?r @ ReplaceAll ?d)" using 2(1) [OF True] by (intro redacted_append) auto
    with True show ?thesis by simp
  next
    case False
    have "redacted [c]" by (rule redacted_short) simp
    then have "redacted ([c] @ ReplaceAll b)" using 2(2) [OF False] False by (intro redacted_append) auto
    with False show ?thesis by simp
  qed
qed simp

definition ring_ok :: "StderrRing \<Rightarrow> bool" where
  "ring_ok r \<longleftrightarrow> length (ring_buf r) \<le> ring_max r \<and> redacted (ring_buf r)"

lemma ring_Write_ok: "ring_ok (ring_Write p r)"
  by (simp add: ring_ok_def ring_Write_def Let_def ReplaceAll_redacted redacted_drop)

lemma ring_Write_max [simp]: "ring_max (ring_Write p r) = ring_max r"
  by (simp add: ring_Write_def Let_def)

lemma ring_run: "ring_ok (fold ring_Write ps (NewStderrRing n)) \<and> ring_max (fold ring_Write ps (NewStderrRing n)) = ring_max (NewStderrRing n)"
proof (induction ps rule: rev_induct)
  case Nil
  show ?case by (simp add: ring_ok_def NewStderrRing_def)
next
  case (snoc p ps)
  then show ?case by (simp add: ring_Write_ok)
qed

lemma ReplaceAll_run: "list_all token_byte run \<Longrightarrow> ReplaceAll (run @ rest) = (if run = [] then ReplaceAll rest
    else redact_run (run @ takeWhile token_byte rest) @ ReplaceAll (dropWhile token_byte rest))"
  by (cases run) (auto simp: list_all_iff takeWhile_append dropWhile_append)

section \<open>Registry\<close>

definition churn :: "TunnelInfo \<Rightarrow> Registry \<Rightarrow> Registry" where
  "churn x r = Registry_Remove (ti_ID x) (Registry_Add x r)"

lemma gm_absent: "k \<notin> fst ` set m \<Longrightarrow> gm_delete k m = m" "k \<notin> fst ` set m \<Longrightarrow> gm_put k v m = m @ [(k, v)]"
  by (auto simp: gm_delete_def gm_put_def filter_id_conv) 

lemma churn_order: "rg_tunnels r = [] \<Longrightarrow> fold churn xs r = r\<lparr>rg_order := rg_order r @ map ti_ID xs\<rparr>"
  by (induction xs arbitrary: r)
    (simp_all add: churn_def Registry_Add_def Registry_Remove_def registryMaxSize_def Let_def gm_put_def gm_delete_def)

definition entry :: "TunnelInfo \<Rightarrow> uuid \<times> TunnelInfo" where
  "entry x = (ti_ID x, x)"

lemma fold_adds:
  assumes "distinct (map ti_ID (xs @ ys))" "length ys \<le> registryMaxSize + length xs"
  shows "fold Registry_Add ys \<lparr>rg_tunnels = [], rg_order = map ti_ID xs\<rparr>
    = \<lparr>rg_tunnels = map entry ys, rg_order = drop (length ys - registryMaxSize) (map ti_ID xs) @ map ti_ID ys\<rparr>"
  using assms
proof (induction ys rule: rev_induct)
  case (snoc y ys)
  let ?k = "length ys - registryMaxSize"
  have ih: "fold Registry_Add ys \<lparr>rg_tunnels = [], rg_order = map ti_ID xs\<rparr>
    = \<lparr>rg_tunnels = map entry ys, rg_order = drop ?k (map ti_ID xs) @ map ti_ID ys\<rparr>" using snoc by simp
  have y: "ti_ID y \<notin> fst ` set (map entry ys)" using snoc.prems(1) by (auto simp: entry_def)
  let ?r = "\<lparr>rg_tunnels = map entry ys, rg_order = drop ?k (map ti_ID xs) @ map ti_ID ys\<rparr>"
  have "Registry_Add y ?r = \<lparr>rg_tunnels = map entry (ys @ [y]),
      rg_order = drop (length (ys @ [y]) - registryMaxSize) (map ti_ID xs) @ map ti_ID (ys @ [y])\<rparr>"
  proof (cases "registryMaxSize \<le> length ys")
    case True
    then have k: "?k < length xs" "length (ys @ [y]) - registryMaxSize = Suc ?k" using snoc.prems(2) by auto
    then obtain z zs where z: "drop ?k (map ti_ID xs) = z # zs" "zs = drop (Suc ?k) (map ti_ID xs)"
      by (metis Cons_nth_drop_Suc length_map)
    then have "z \<in> set (map ti_ID xs)" by (metis in_set_dropD list.set_intros(1))
    then have "z \<notin> fst ` set (map entry ys)" using snoc.prems(1) by (auto simp: entry_def)
    then show ?thesis using True y z unfolding k(2)
      by (simp add: Registry_Add_def Let_def evictOldestLocked_def gm_absent entry_def)
  next
    case False
    then show ?thesis using y by (simp add: Registry_Add_def Let_def gm_absent entry_def)
  qed
  then show ?case using ih by simp
qed simp

section \<open>Supervision\<close>

definition triggered :: "sv_event set \<Rightarrow> supervisor \<Rightarrow> bool" where
  "triggered evs v \<longleftrightarrow> (case sv_trigger v of triggerNone \<Rightarrow> True
     | triggerStartupTimeout \<Rightarrow> SvStartup \<in> evs \<and> \<not> sv_firstByte v
     | triggerPolicyTimeout \<Rightarrow> SvPolicy \<in> evs
     | triggerContext \<Rightarrow> SvCtx \<in> evs
     | triggerChannelClosed \<Rightarrow> SvUp [] \<in> evs \<and> SvLinger \<in> evs
     | triggerStream \<Rightarrow> \<exists>err. err \<noteq> [] \<and> (SvUp err \<in> evs \<or> SvDown err \<in> evs))"

definition sv_inv :: "sv_event set \<Rightarrow> supervisor \<Rightarrow> bool" where
  "sv_inv evs v \<longleftrightarrow> triggered evs v \<and> (sv_firstByte v \<longrightarrow> SvFirstByte \<in> evs \<and> \<not> sv_startupC v)
     \<and> (sv_lingerC v \<longrightarrow> SvUp [] \<in> evs)
     \<and> (\<not> sv_upRes v \<longrightarrow> SvUp (sv_upErr v) \<in> evs) \<and> (\<not> sv_downRes v \<longrightarrow> SvDown (sv_downErr v) \<in> evs)
     \<and> (\<not> sv_waiting v \<longrightarrow> SvExit (sv_waitErr v) \<in> evs)"

lemma sv_step_inv:
  assumes "sv_inv evs v" "\<not> sv_stopped v" shows "sv_inv (insert e evs) (sv_step e v)"
  using assms by (cases e) (auto simp: sv_inv_def triggered_def sv_stopped_def split: cancelTrigger.splits)

lemma sv_step_exclusive:
  assumes "\<not> sv_stopped v" "\<not> sv_waiting (sv_step e v)" shows "sv_trigger (sv_step e v) = triggerNone"
  using assms by (cases e) (auto simp: sv_stopped_def split: if_splits)

lemma sv_loop_inv:
  "sv_inv evs v \<Longrightarrow> (\<not> sv_waiting v \<longrightarrow> sv_trigger v = triggerNone) \<Longrightarrow> sv_loop es v = Some f \<Longrightarrow>
   sv_inv (evs \<union> set es) f \<and> sv_stopped f \<and> (\<not> sv_waiting f \<longrightarrow> sv_trigger f = triggerNone)"
proof (induction es arbitrary: evs v)
  case (Cons e es)
  have mono: "sv_inv evs f \<Longrightarrow> sv_inv (evs \<union> set (e # es)) f"
    by (auto simp: sv_inv_def triggered_def split: cancelTrigger.splits)
  show ?case
  proof (cases "sv_stopped v")
    case False
    with Cons.prems Cons.IH [OF sv_step_inv [OF Cons.prems(1) False, of e]] sv_step_exclusive [OF False, of e] show ?thesis by simp
  qed (use Cons.prems mono in auto)
qed (auto split: if_splits)

lemma sv_loop_ends:
  "(\<exists>e \<in> set es. e = SvCtx \<or> (\<exists>w. e = SvExit w)) \<Longrightarrow> sv_loop es v \<noteq> None"
proof (induction es arbitrary: v)
  case (Cons e es)
  have "sv_loop es v \<noteq> None" if "sv_stopped v" for v using that by (cases es) auto
  then show ?case using Cons.prems Cons.IH [of "sv_step e v"] by (auto simp: sv_stopped_def)
qed simp

lemma kill_effects:
  "KillGroup SIGTERM \<in> set (supervision_effects opts v z) \<longleftrightarrow> sv_trigger v \<noteq> triggerNone"
  "KillGroup SIGKILL \<in> set (supervision_effects opts v z) \<longleftrightarrow> sv_trigger v \<noteq> triggerNone \<and> \<not> sd_inGrace z"
  by (auto simp: supervision_effects_def cancelChild_def Let_def)

lemma tunnel_codes [simp]:
  "TUNNEL_CODER_EXITED \<noteq> []" "TUNNEL_STREAM_FAILED \<noteq> []" "TUNNEL_START_TIMEOUT \<noteq> []" "TUNNEL_CANCELLED \<noteq> []"
  "TUNNEL_CODER_EXITED \<noteq> TUNNEL_STREAM_FAILED" "TUNNEL_CODER_EXITED \<noteq> TUNNEL_START_TIMEOUT" "TUNNEL_CODER_EXITED \<noteq> TUNNEL_CANCELLED"
  "TUNNEL_STREAM_FAILED \<noteq> TUNNEL_START_TIMEOUT" "TUNNEL_STREAM_FAILED \<noteq> TUNNEL_CANCELLED" "TUNNEL_START_TIMEOUT \<noteq> TUNNEL_CANCELLED"
  "TUNNEL_PROCESS_START_FAILED \<noteq> TUNNEL_CODER_EXITED" "TUNNEL_PROCESS_START_FAILED \<noteq> TUNNEL_START_TIMEOUT"
  by (simp_all add: code_defs)

lemmas tunnel_codes_sym [simp] = tunnel_codes [symmetric]

section \<open>Recheck\<close>

definition alone :: "world \<Rightarrow> bool" where
  "alone W \<longleftrightarrow> (\<forall>n. wo_others W n = [])"

lemma alone_store_call: "alone W \<Longrightarrow> store_call W m w = (case m (gw_store w) of (r, s) \<Rightarrow> (Inr r, w\<lparr>gw_store := s, gw_steps := Suc (gw_steps w)\<rparr>))"
  by (simp add: store_call_def seen_store_def alone_def)

lemma recheck_cases:
  assumes "alone W" "dirs_distinct (gw_store w)" "RecheckAfterFailure W a g w = (r, w')"
  shows "r = Inr () \<and> dirs_distinct (gw_store w') \<and> gw_conn w' = gw_conn w \<and> gw_audit w' = gw_audit w \<and> gw_rate w' = gw_rate w
    \<and> gw_cache w' = gw_cache w \<and>
    (img_of (gw_store w') = img_of (gw_store w) \<or>
     img_of (gw_store w') \<in> marked (wo_env W) a g AUTH_CREDENTIAL_UNAUTHORIZED (img_of (gw_store w))
     \<and> (\<exists>snap t err. LoadCredential (wo_env W) (cs_ctxDone (gw_conn w)) a (gw_store w) = (Inr snap, t) \<and> snap_Generation snap = g
         \<and> wo_verify W (gw_verifications w) (snap_Token snap) = Inl err \<and> KindOf err = Some CredentialInvalid))"
proof -
  obtain lr t where l: "LoadCredential (wo_env W) (cs_ctxDone (gw_conn w)) a (gw_store w) = (lr, t)" by fastforce
  have d: "disk (img_of (gw_store w)) t"
    using keepsD [OF LoadCredential_keeps disk_img [OF assms(2)], of "wo_env W" "cs_ctxDone (gw_conn w)" a] l by simp
  then have t: "dirs_distinct t" "img_of t = img_of (gw_store w)" by (simp_all add: disk_iff)
  show ?thesis
  proof (cases lr)
    case (Inr snap)
    let ?c = "cs_ctxDone (gw_conn w)"
    obtain mr u where m: "MarkCredentialInvalid (wo_env W) ?c a g AUTH_CREDENTIAL_UNAUTHORIZED t = (mr, u)" by fastforce
    note mo = Mark_outcome [OF t(1) m]
    show ?thesis using assms(3) l t Inr m mo
      by (auto simp: RecheckAfterFailure_def alone_store_call [OF assms(1)] verify_call_def ctx_done_def bnd_def gets_def ret_def
          split: if_splits sum.splits)
  qed (use assms(3) l t in \<open>auto simp: RecheckAfterFailure_def alone_store_call [OF assms(1)] ctx_done_def bnd_def gets_def ret_def\<close>)
qed

section \<open>A tunnel from start to end\<close>

definition audits :: "tunnel_effect list \<Rightarrow> tunnelEvent list" where
  "audits tr = concat (map (\<lambda>e. case e of TxAudit ev \<Rightarrow> [ev] | _ \<Rightarrow> []) tr)"

lemma audits_simps [simp]:
  "audits [] = []" "audits (TxAudit ev # tr) = ev # audits tr" "audits (TxSupervise x # tr) = audits tr"
  "audits (TxCloseChannel # tr) = audits tr" "audits (TxCloseInner # tr) = audits tr" "audits (map TxSupervise xs) = []"
  "audits (tr @ tr') = audits tr @ audits tr'"
  by (simp_all add: audits_def)

lemmas tunnel_steps = bnd_def ret_def tx_emit_def on_registry_def tx_gateway_def tx_launch_def auditFailure_def

lemma register_run:
  "register W ts i dep route cred s = (Inr (), s\<lparr>tx_gw := (if ts_Registry ts then (tx_gw s)\<lparr>gw_clock := Suc (gw_clock (tx_gw s))\<rparr> else tx_gw s),
     tx_registry := (if ts_Registry ts then Registry_Add (tunnel_info (env_lib (wo_env W)) i (wo_now W (gw_clock (tx_gw s))) dep route cred) (tx_registry s)
       else tx_registry s)\<rparr>)"
  by (simp add: register_def tunnel_steps clock_def)

lemma add_remove:
  assumes "i \<notin> fst ` set (rg_tunnels r)" "length (rg_tunnels r) < registryMaxSize" "ti_ID info = i"
  shows "rg_tunnels (Registry_Remove i (Registry_Add info r)) = rg_tunnels r"
  using assms by (simp add: Registry_Remove_def Registry_Add_def Let_def gm_absent gm_delete_def filter_id_conv) force

lemma tunnel_info_ID [simp]: "ti_ID (tunnel_info L i now dep route cred) = i"
  by (simp add: tunnel_info_def)

text \<open>The part of \<open>Start\<close> after supervision.\<close>

lemma recheck_run:
  assumes "alone W" "dirs_distinct (gw_store (tx_gw s))"
  obtains g where "recheckAfterFailure W ts cred code s = (Inr (), s\<lparr>tx_gw := g\<rparr>)"
    "img_of (gw_store g) = img_of (gw_store (tx_gw s)) \<or> (code = TUNNEL_CODER_EXITED \<or> code = TUNNEL_START_TIMEOUT)
       \<and> img_of (gw_store g) \<in> marked (wo_env W) (snap_AccountID cred) (snap_Generation cred) AUTH_CREDENTIAL_UNAUTHORIZED (img_of (gw_store (tx_gw s)))
       \<and> (\<exists>token err. wo_verify W (gw_verifications (tx_gw s)) token = Inl err \<and> KindOf err = Some CredentialInvalid)"
proof (cases "ts_Rechecker ts \<and> (code = TUNNEL_CODER_EXITED \<or> code = TUNNEL_START_TIMEOUT)")
  case True
  obtain r g where g: "RecheckAfterFailure W (snap_AccountID cred) (snap_Generation cred) (tx_gw s) = (r, g)" by fastforce
  from recheck_cases [OF assms g] True show ?thesis
    by (intro that [of g]) (auto simp: recheckAfterFailure_def tx_gateway_def g)
next
  case False
  then show ?thesis by (intro that [of "tx_gw s"]) (auto simp: recheckAfterFailure_def ret_def)
qed

text \<open>What is left in the store: what was there, or the credential of the tunnel marked invalid because the control plane
  refused it.\<close>

definition rechecked :: "world \<Rightarrow> CredentialSnapshot \<Rightarrow> string \<Rightarrow> gateway \<Rightarrow> gateway \<Rightarrow> bool" where
  "rechecked W cred code g g' \<longleftrightarrow> img_of (gw_store g') = img_of (gw_store g)
     \<or> (code = TUNNEL_CODER_EXITED \<or> code = TUNNEL_START_TIMEOUT)
       \<and> img_of (gw_store g') \<in> marked (wo_env W) (snap_AccountID cred) (snap_Generation cred) AUTH_CREDENTIAL_UNAUTHORIZED (img_of (gw_store g))
       \<and> (\<exists>token err. wo_verify W (gw_verifications g) token = Inl err \<and> KindOf err = Some CredentialInvalid)"

definition failed_audit :: "Deployment \<Rightarrow> Route \<Rightarrow> CredentialSnapshot \<Rightarrow> string \<Rightarrow> int \<Rightarrow> tunnelEvent" where
  "failed_audit dep route cred code dur = \<lparr>te_DeploymentID = dep_ID dep, te_AccountID = snap_AccountID cred, te_Target = DisplayTarget route,
     te_Generation = snap_Generation cred, te_DetailCode = code, te_DurationMs = (if dur > 0 then Some (dur div 1000000) else None)\<rparr>"

lemma audit_run:
  "auditFailure ts dep route cred code dur s = (Inr (), s\<lparr>tx_trace := tx_trace s @ (if ts_Audit ts then [TxAudit (failed_audit dep route cred code dur)] else [])\<rparr>)"
  by (simp add: auditFailure_def tx_emit_def ret_def failed_audit_def)

lemma start_supervised:
  assumes "alone W" "dirs_distinct (gw_store (tx_gw s))" "i \<notin> fst ` set (rg_tunnels (tx_registry s))" "i \<noteq> uuid_Nil"
    "length (rg_tunnels (tx_registry s)) < registryMaxSize" "ts_Launcher ts = Some dep" "EnsureGlobalConfigDir Y (dep_GlobalConfig dep)"
    "Launch Y dep route (tx_token s) = (Launched cmd, token)" "Supervise (ts_Opts ts) es z = Some (res, eff)"
  shows "\<exists>s' tr. tunnel_Start W Y ts i route cred es z s = (Inr (if res_Code res = [] then TunnelDone else TunnelError (res_Code res)), s')
    \<and> rg_tunnels (tx_registry s') = rg_tunnels (tx_registry s) \<and> tx_token s' = token \<and> tx_trace s' = tx_trace s @ tr
    \<and> rechecked W cred (res_Code res) (tx_gw s) (tx_gw s')
    \<and> audits tr = (if res_Code res \<noteq> [] \<and> ts_Audit ts then [failed_audit dep route cred (res_Code res) (res_Duration res)] else [])"
proof -
  let ?s1 = "s\<lparr>tx_token := token\<rparr>"
  let ?s2 = "snd (register W ts i dep route cred ?s1)"
  let ?s3 = "?s2\<lparr>tx_trace := tx_trace s @ map TxSupervise eff\<rparr>"
  let ?s4 = "if ts_Registry ts then ?s3\<lparr>tx_registry := Registry_Remove i (tx_registry ?s3)\<rparr> else ?s3"
  have g: "gw_store (tx_gw ?s4) = gw_store (tx_gw s)" "gw_verifications (tx_gw ?s4) = gw_verifications (tx_gw s)"
    "rg_tunnels (tx_registry ?s4) = rg_tunnels (tx_registry s)" "tx_token ?s4 = token" "tx_trace ?s4 = tx_trace s @ map TxSupervise eff"
    using assms by (simp_all add: register_run add_remove)
  have run: "tunnel_Start W Y ts i route cred es z s = (if res_Code res = [] then ret TunnelDone else
       bnd (recheckAfterFailure W ts cred (res_Code res)) (\<lambda>_. bnd (tx_emit [TxCloseChannel]) (\<lambda>_.
       bnd (auditFailure ts dep route cred (res_Code res) (res_Duration res)) (\<lambda>_. ret (TunnelError (res_Code res)))))) ?s4"
    using assms(4,6-9) by (simp add: tunnel_Start_def tx_launch_def bnd_def register_run tx_emit_def on_registry_def ret_def)
  show ?thesis
  proof (cases "res_Code res = []")
    case True
    with run g show ?thesis by (auto simp: ret_def rechecked_def)
  next
    case False
    have "dirs_distinct (gw_store (tx_gw ?s4))" using assms(2) g(1) by simp
    from recheck_run [OF assms(1) this, of ts cred "res_Code res"] obtain w
      where w: "recheckAfterFailure W ts cred (res_Code res) ?s4 = (Inr (), ?s4\<lparr>tx_gw := w\<rparr>)" "rechecked W cred (res_Code res) (tx_gw ?s4) w"
      unfolding rechecked_def by blast
    have "rechecked W cred (res_Code res) (tx_gw s) w" using w(2) g(1,2) by (simp add: rechecked_def)
    with run w(1) g(3-5) False show ?thesis by (simp add: bnd_def tx_emit_def audit_run ret_def)
  qed
qed

section \<open>Properties\<close>

definition demo_dep :: Deployment where
  "demo_dep = \<lparr>dep_ID = 9, dep_CoderURL = Some ''https://c'', dep_CoderBinary = ''/bin/coder'', dep_GlobalConfig = ''/g'', dep_WorkingDir = ''/w'',
     dep_Autostart = True, dep_WaitMode = ''yes'', dep_TLS = \<lparr>tls_CAFile = [], tls_CertFile = [], tls_KeyFile = []\<rparr>,
     dep_Network = \<lparr>net_Proxy = [], net_NoProxy = [], net_DisableNetworkTelemetry = True\<rparr>\<rparr>"

definition demo_system :: system where
  "demo_system = \<lparr>os_MkdirAll = (\<lambda>_. True), os_Chmod = (\<lambda>_. True), os_TempDir = ''/tmp'', os_Pipes = True, os_Start = (\<lambda>_. True)\<rparr>"

definition demo_route :: Route where
  "demo_route = \<lparr>RequestedHost = ''dev'', RequestedPort = 22, WorkspaceHost = ''dev'', DisplayTarget = ''dev''\<rparr>"



text \<open>Of the targets the route codec accepts, exactly the slashed ones cannot be started: their command line is
  refused, whatever the deployment.\<close>

theorem slashed_never_starts:
  assumes "ParseDirectTCPIP L host port = Inr r"
  shows "(BuildArgv dep r = None) = slashed (WorkspaceHost r)
    \<and> (slashed (WorkspaceHost r) \<longrightarrow> Launch Y dep r token = (LaunchFailed, token))"
  using accepted_host [OF assms] argv_dotted [of r dep] argv_slashed [of r dep] by (auto simp: Launch_def)

theorem slashed_never_starts_witness:
  "fst (Launch demo_system demo_dep \<lparr>RequestedHost = ''al/dev'', RequestedPort = 22, WorkspaceHost = ''al/dev'', DisplayTarget = ''al/dev''\<rparr> ''tok'') = LaunchFailed"
proof -
  let ?r = "\<lparr>RequestedHost = ''al/dev'', RequestedPort = 22, WorkspaceHost = ''al/dev'', DisplayTarget = ''al/dev''\<rparr>"
  have "ParseDirectTCPIP demo_lib ''al/dev'' 22 = Inr ?r" by code_simp
  moreover have "BuildArgv demo_dep ?r = None" by code_simp
  ultimately show ?thesis using slashed_never_starts [of demo_lib "''al/dev''" 22 ?r demo_dep demo_system "''tok''"] by simp
qed

text \<open>C29. Whatever the process writes to its standard error and in whatever pieces, the diagnostics keep at most the
  configured number of bytes and contain no run that looks like a token.\<close>

theorem stderr_ring_redacts:
  "length (ring_Tail (fold ring_Write ps (NewStderrRing n))) \<le> (if n \<le> 0 then 65536 else nat n)
   \<and> (\<forall>pre run post. ring_Tail (fold ring_Write ps (NewStderrRing n)) = pre @ run @ post \<longrightarrow> list_all token_byte run \<longrightarrow> \<not> tokenLike run)"
  using ring_run [of ps n] by (simp add: ring_ok_def redacted_def ring_Tail_def NewStderrRing_def DefaultStderrRingBytes_def split: if_splits)

theorem stderr_ring_redacts_witness:
  "\<not> tokenLike ''xy'' \<and> ring_Tail (fold ring_Write [''t=aaaaaaaaaa-bbbbbbbbbbbbbbbbbbbb xy''] (NewStderrRing 2)) = ''xy''"
proof -
  have e: "ring_Tail (fold ring_Write [''t=aaaaaaaaaa-bbbbbbbbbbbbbbbbbbbb xy''] (NewStderrRing 2)) = ''xy''" by code_simp
  have "list_all token_byte ''xy''" by code_simp
  with stderr_ring_redacts [of "[''t=aaaaaaaaaa-bbbbbbbbbbbbbbbbbbbb xy'']" 2] e have "\<not> tokenLike ''xy''" by (metis append_Nil append_Nil2)
  with e show ?thesis by simp
qed

text \<open>A token that arrives in two pieces is not caught once it is complete: when the first piece already looks like a
  token, it is redacted alone, and the rest of the token stays in the diagnostics in clear.\<close>

theorem split_token_leaks:
  assumes "list_all token_byte t1" "list_all token_byte t2" "tokenLike t1" "\<not> tokenLike t2" "t2 \<noteq> []" "length t2 + 10 \<le> ring_max r" "ring_buf r = []"
  shows "ring_Tail (ring_Write (t1 @ t2) r) = redactedToken \<and> ring_Tail (ring_Write t2 (ring_Write t1 r)) = redactedToken @ t2"
proof -
  have t1: "t1 \<noteq> []" "tokenLike (t1 @ t2)" using assms(3) tokenLike_sub [OF assms(3), of "[]" t2] by (auto simp: tokenLike_def)
  have tw: "takeWhile token_byte t = t" "dropWhile token_byte t = []" if "list_all token_byte t" for t using that by (simp_all add: list_all_iff)
  have one: "ReplaceAll t = redact_run t" if "list_all token_byte t" "t \<noteq> []" for t
    using ReplaceAll_run [OF that(1), of "[]"] that(2) by simp
  have len: "length redactedToken = 10" by (simp add: redactedToken_def)
  have b: "\<not> token_byte (CHR ''['')" "\<not> token_byte (CHR '']'')" "list_all token_byte ''REDACTED''" "redact_run ''REDACTED'' = ''REDACTED''"
    by (simp_all add: token_byte_def less_eq_char_def redact_run_def tokenLike_def sep_byte_def upt_rec)
  have two: "ReplaceAll (redactedToken @ t2) = redactedToken @ t2"
    using ReplaceAll_run [OF b(3), of "CHR '']'' # t2"] b one [OF assms(2,5)] assms(4) by (simp add: redactedToken_def redact_run_def)
  have "ReplaceAll t1 = redactedToken" "ReplaceAll (t1 @ t2) = redactedToken"
    using one assms(1-3) t1 by (simp_all add: redact_run_def)
  with two len assms(6,7) show ?thesis
    by (simp add: ring_Write_def Let_def ring_Tail_def)
qed

theorem split_token_leaks_witness:
  "ring_Tail (ring_Write ''secret'' (ring_Write ''aaaaaaaaaaaaaaaaaaaaaaaa-'' (NewStderrRing 0))) = ''[REDACTED]secret''"
proof -
  have "list_all token_byte ''aaaaaaaaaaaaaaaaaaaaaaaa-''" "list_all token_byte ''secret''" "tokenLike ''aaaaaaaaaaaaaaaaaaaaaaaa-''" "\<not> tokenLike ''secret''"
    by code_simp+
  then show ?thesis using split_token_leaks [of "''aaaaaaaaaaaaaaaaaaaaaaaa-''" "''secret''" "NewStderrRing 0"]
    by (simp add: NewStderrRing_def DefaultStderrRingBytes_def redactedToken_def)
qed

text \<open>C28. The code a supervised process ends with says what happened to it: no code means that it produced output and
  exited by itself; \<open>TUNNEL_CODER_EXITED\<close> that it exited before any output; \<open>TUNNEL_START_TIMEOUT\<close> that it was ended
  because there was no output in time; \<open>TUNNEL_STREAM_FAILED\<close> that one of the copies failed; \<open>TUNNEL_CANCELLED\<close> that it was
  ended for the context, the policy or a client that was gone. The process group is signalled exactly when the process
  did not exit by itself, and killed only when it outlived the grace period after the termination signal.\<close>

theorem supervision_verdict:
  assumes "Supervise opts es z = Some (res, eff)"
  shows "(res_Code res = [] \<longrightarrow> res_FirstByte res \<and> SvExit (res_WaitErr res) \<in> set es)
    \<and> (res_Code res = TUNNEL_CODER_EXITED \<longrightarrow> \<not> res_FirstByte res \<and> SvExit (res_WaitErr res) \<in> set es)
    \<and> (res_Code res = TUNNEL_START_TIMEOUT \<longrightarrow> \<not> res_FirstByte res \<and> SvStartup \<in> set es)
    \<and> (res_Code res = TUNNEL_STREAM_FAILED \<longrightarrow> (\<exists>err. err \<noteq> [] \<and> (SvUp err \<in> set es \<or> SvDown err \<in> set es \<or> err = sd_up z \<or> err = sd_down z)))
    \<and> (res_Code res = TUNNEL_CANCELLED \<longrightarrow> SvCtx \<in> set es \<or> SvPolicy \<in> set es \<or> SvUp [] \<in> set es \<and> SvLinger \<in> set es)
    \<and> res_Code res \<in> {[], TUNNEL_CODER_EXITED, TUNNEL_START_TIMEOUT, TUNNEL_STREAM_FAILED, TUNNEL_CANCELLED}
    \<and> (res_FirstByte res \<longrightarrow> SvFirstByte \<in> set es)
    \<and> (KillGroup SIGTERM \<notin> set eff \<longrightarrow> SvExit (res_WaitErr res) \<in> set es)
    \<and> (res_Code res = [] \<or> res_Code res = TUNNEL_CODER_EXITED \<longrightarrow> KillGroup SIGTERM \<notin> set eff)
    \<and> (KillGroup SIGKILL \<in> set eff \<longrightarrow> KillGroup SIGTERM \<in> set eff \<and> \<not> sd_inGrace z)"
proof -
  obtain v where v: "sv_loop es (sv_init opts) = Some v" and e: "res = supervision_result v z" "eff = supervision_effects opts v z"
    using assms by (auto simp: Supervise_def)
  have "sv_inv {} (sv_init opts)" "sv_waiting (sv_init opts)" by (simp_all add: sv_inv_def triggered_def sv_init_def)
  from sv_loop_inv [OF this(1) _ v] this(2) have i: "sv_inv (set es) v" "sv_stopped v" "\<not> sv_waiting v \<longrightarrow> sv_trigger v = triggerNone" by simp_all
  note r = e supervision_result_def Let_def kill_effects
  have up: "\<exists>err. err \<noteq> [] \<and> (SvUp err \<in> set es \<or> SvDown err \<in> set es \<or> err = sd_up z \<or> err = sd_down z)"
    if "(if sv_upRes v then sd_up z else sv_upErr v) \<noteq> [] \<or> (if sv_downRes v then sd_down z else sv_downErr v) \<noteq> []"
    using that i(1) by (cases "sv_upRes v"; cases "sv_downRes v") (auto simp: sv_inv_def)
  note s = r supervision_code_def sv_inv_def triggered_def sv_stopped_def
  show ?thesis
  proof (cases "sv_trigger v")
    case triggerNone
    with i have "SvExit (sv_waitErr v) \<in> set es" "sv_firstByte v \<longrightarrow> SvFirstByte \<in> set es" by (simp_all add: s)
    with triggerNone up show ?thesis by (simp add: s)
  qed (use i in \<open>simp_all add: s\<close>, use i in \<open>auto simp: s\<close>)
qed

theorem supervision_verdict_witness:
  "\<exists>res eff. Supervise \<lparr>so_StartupTimeout = 0, so_PolicyTimeout = 0, so_Grace = 0\<rparr> [SvStartup]
      \<lparr>sd_inGrace = False, sd_waitErr = Some ''killed'', sd_up = [], sd_down = [], sd_tail = [], sd_duration = 1\<rparr> = Some (res, eff)
    \<and> \<not> res_FirstByte res \<and> res_Code res = TUNNEL_START_TIMEOUT \<and> KillGroup SIGTERM \<in> set eff"
proof -
  let ?run = "Supervise \<lparr>so_StartupTimeout = 0, so_PolicyTimeout = 0, so_Grace = 0\<rparr> [SvStartup]
      \<lparr>sd_inGrace = False, sd_waitErr = Some ''killed'', sd_up = [], sd_down = [], sd_tail = [], sd_duration = 1\<rparr>"
  have "\<exists>res eff. ?run = Some (res, eff) \<and> res_Code res = TUNNEL_START_TIMEOUT \<and> KillGroup SIGKILL \<in> set eff"
    by (simp add: Supervise_def sv_stopped_def sv_init_def supervision_code_def supervision_result_def kill_effects)
  then obtain res eff where r: "?run = Some (res, eff)" "res_Code res = TUNNEL_START_TIMEOUT" "KillGroup SIGKILL \<in> set eff" by blast
  from supervision_verdict [OF r(1)] r show ?thesis by blast
qed

text \<open>Supervision ends: as soon as the process exits or the context is cancelled it returns, whatever else happens
  before.\<close>

theorem supervision_returns:
  assumes "SvCtx \<in> set es \<or> (\<exists>w. SvExit w \<in> set es)"
  shows "\<exists>res eff. Supervise opts es z = Some (res, eff)"
proof -
  have "sv_loop es v \<noteq> None" for v using assms by (intro sv_loop_ends) auto
  then show ?thesis by (auto simp: Supervise_def)
qed

theorem supervision_returns_witness:
  "\<exists>res eff. Supervise \<lparr>so_StartupTimeout = 0, so_PolicyTimeout = 0, so_Grace = 0\<rparr> [SvUp [], SvFirstByte, SvExit None]
     \<lparr>sd_inGrace = True, sd_waitErr = None, sd_up = [], sd_down = [], sd_tail = [], sd_duration = 1\<rparr> = Some (res, eff)"
  by (rule supervision_returns) simp

text \<open>The registry is not bounded by its maximal size: every tunnel that came and went leaves its identifier in the
  order of insertion, and that many more tunnels than the maximum can be registered at once.\<close>

theorem registry_exceeds_bound:
  assumes "distinct (map ti_ID (xs @ ys))" "length ys = registryMaxSize + length xs"
  shows "rg_tunnels (fold churn xs NewRegistry) = [] \<and> length (rg_order (fold churn xs NewRegistry)) = length xs
    \<and> length (Registry_List (fold Registry_Add ys (fold churn xs NewRegistry))) = registryMaxSize + length xs"
proof -
  have "fold churn xs NewRegistry = \<lparr>rg_tunnels = [], rg_order = map ti_ID xs\<rparr>"
    using churn_order [of NewRegistry xs] by (simp add: NewRegistry_def)
  with fold_adds [OF assms(1)] assms(2) show ?thesis by (simp add: Registry_List_def)
qed

definition numbered :: "nat \<Rightarrow> TunnelInfo" where
  "numbered n = tunnel_info demo_lib (word_of_nat n) 0 demo_dep demo_route \<lparr>snap_AccountID = 5, snap_Generation = 0, snap_State = CredentialStateValid,
     snap_Token = [], snap_LastValidatedAt = None\<rparr>"

lemma numbered_distinct: "n \<le> 2 ^ 128 \<Longrightarrow> distinct (map ti_ID (map numbered [0..<n]))"
  by (auto simp: numbered_def comp_def distinct_map inj_on_def word_of_nat_eq_iff take_bit_nat_eq_self)

theorem registry_exceeds_bound_witness:
  "length (Registry_List (fold Registry_Add (map numbered [3..<registryMaxSize + 6]) (fold churn (map numbered [0..<3]) NewRegistry))) = registryMaxSize + 3"
proof -
  have "map numbered [0..<3] @ map numbered [3..<registryMaxSize + 6] = map numbered [0..<registryMaxSize + 6]"
    unfolding map_append [symmetric] using upt_add_eq_append [of 0 3 "registryMaxSize + 3"] by (simp add: add.commute del: upt_rec_numeral)
  moreover have "registryMaxSize + 6 \<le> 2 ^ 128" by (simp add: registryMaxSize_def)
  ultimately have "distinct (map ti_ID (map numbered [0..<3] @ map numbered [3..<registryMaxSize + 6]))"
    using numbered_distinct by (simp only:)
  from registry_exceeds_bound [OF this] show ?thesis by simp
qed


definition demo_tunnels :: tunnels where
  "demo_tunnels = \<lparr>tx_gw = demo_gw demo_loaded, tx_registry = NewRegistry, tx_token = ''tok'', tx_trace = []\<rparr>"

definition demo_starter :: TunnelStarter where
  "demo_starter = \<lparr>ts_Launcher = Some demo_dep, ts_Opts = \<lparr>so_StartupTimeout = 0, so_PolicyTimeout = 0, so_Grace = 0\<rparr>, ts_Audit = True,
     ts_Rechecker = True, ts_Registry = True\<rparr>"


end
