(* ===== verification/ProxyHeader.thy ===== *)
theory ProxyHeader
  imports Core
begin

text \<open>
  The PROXY protocol header of \<open>internal/server/listener.go\<close>: \<open>parseProxyV1\<close> with the parts of Go's standard library
  it rests on, the splitting into fields, the parser of IP addresses and the rendering of the asserted address. The
  connection is the list of bytes that arrive before the read deadline; a read past its end fails.
\<close>

section \<open>strings.Fields\<close>

text \<open>The length of the white-space character a text starts with, 0 when it starts with none. The multi-byte ones are
  given by their UTF-8 encoding; an encoding cannot start inside another one.\<close>

definition space_len :: "string \<Rightarrow> nat" where
  "space_len s =
     (if s \<noteq> [] \<and> ascii_space (hd s) then 1
      else if take 2 s \<in> {[CHR 0xC2, CHR 0x85], [CHR 0xC2, CHR 0xA0]} then 2
      else if take 3 s \<in> {[CHR 0xE1, CHR 0x9A, CHR 0x80], [CHR 0xE2, CHR 0x80, CHR 0xA8], [CHR 0xE2, CHR 0x80, CHR 0xA9],
          [CHR 0xE2, CHR 0x80, CHR 0xAF], [CHR 0xE2, CHR 0x81, CHR 0x9F], [CHR 0xE3, CHR 0x80, CHR 0x80]} then 3
      else if take 2 s = [CHR 0xE2, CHR 0x80] \<and> length s > 2 \<and> CHR 0x80 \<le> s ! 2 \<and> s ! 2 \<le> CHR 0x8A then 3
      else 0)"

function fields_from :: "string \<Rightarrow> string \<Rightarrow> string list" where
  "fields_from w [] = (if w = [] then [] else [w])"
| "fields_from w (c # cs) =
     (let n = space_len (c # cs) in
      if n = 0 then fields_from (w @ [c]) cs
      else if w = [] then fields_from [] (drop (n - 1) cs)
      else w # fields_from [] (drop (n - 1) cs))"
  by pat_completeness auto
termination
  by (relation "measure (\<lambda>(w, s). length s)") auto

definition strings_Fields :: "string \<Rightarrow> string list" where
  "strings_Fields s = fields_from [] s"

section \<open>netip.ParseAddr\<close>

type_synonym octet = "8 word"

text \<open>An address is four octets or sixteen octets with a zone; an address of sixteen octets may be a mapped one.\<close>

datatype ipAddr = Addr4 "octet list" | Addr6 "octet list" string

text \<open>\<open>parseIPv4Fields\<close>: \<open>val\<close> and \<open>digLen\<close> describe the octet that is read, \<open>dot\<close> tells whether the last character was a
  dot or there is none.\<close>

fun ipv4_fields :: "octet list \<Rightarrow> nat \<Rightarrow> nat \<Rightarrow> bool \<Rightarrow> string \<Rightarrow> octet list option" where
  "ipv4_fields fs val digLen dot [] = (if length fs < 3 then None else Some (fs @ [of_nat val]))"
| "ipv4_fields fs val digLen dot (c # cs) =
     (case digit_of c of
        Some d \<Rightarrow>
          if digLen = 1 \<and> val = 0 then None
          else let val' = val * 10 + d in
            if val' > 255 then None else ipv4_fields fs val' (Suc digLen) False cs
      | None \<Rightarrow>
          if c = CHR ''.'' then
            if dot \<or> cs = [] then None
            else if length fs = 3 then None
            else ipv4_fields (fs @ [of_nat val]) 0 0 True cs
          else None)"

definition parseIPv4Fields :: "string \<Rightarrow> octet list option" where
  "parseIPv4Fields s = ipv4_fields [] 0 0 True s"

definition hex_val :: "char \<Rightarrow> nat option" where
  "hex_val c =
     (if CHR ''0'' \<le> c \<and> c \<le> CHR ''9'' then Some (of_char c - 48)
      else if CHR ''a'' \<le> c \<and> c \<le> CHR ''f'' then Some (of_char c - 87)
      else if CHR ''A'' \<le> c \<and> c \<le> CHR ''F'' then Some (of_char c - 55)
      else None)"

text \<open>One group of hexadecimal digits: its digits so far, its value and the rest of the text; a fifth digit fails.\<close>

fun hex_group :: "nat \<Rightarrow> nat \<Rightarrow> string \<Rightarrow> (nat \<times> nat \<times> string) option" where
  "hex_group off acc [] = Some (off, acc, [])"
| "hex_group off acc (c # cs) =
     (case hex_val c of
        None \<Rightarrow> Some (off, acc, c # cs)
      | Some d \<Rightarrow> if off > 3 then None else hex_group (Suc off) (acc * 16 + d) cs)"

definition zeros :: "nat \<Rightarrow> octet list" where
  "zeros n = replicate n 0"

text \<open>The end of \<open>parseIPv6\<close>: an ellipsis at \<open>e\<close> stands for at least one group of zeros.\<close>

definition ipv6_finish :: "string \<Rightarrow> octet list \<Rightarrow> nat option \<Rightarrow> string \<Rightarrow> ipAddr option" where
  "ipv6_finish zone ip ell s =
     (if s \<noteq> [] then None
      else if length ip < 16 then
        (case ell of None \<Rightarrow> None | Some e \<Rightarrow> Some (Addr6 (take e ip @ zeros (16 - length ip) @ drop e ip) zone))
      else if ell \<noteq> None then None
      else Some (Addr6 ip zone))"

lemma hex_group_shorter: "hex_group off acc s = Some (off', acc', r) \<Longrightarrow> length r + off' = length s + off \<and> off \<le> off'"
  by (induction off acc s rule: hex_group.induct) (fastforce split: option.splits if_splits)+

text \<open>The loop over the groups; \<open>ip\<close> holds the octets so far.\<close>

function ipv6_groups :: "string \<Rightarrow> octet list \<Rightarrow> nat option \<Rightarrow> string \<Rightarrow> ipAddr option" where
  "ipv6_groups zone ip ell s =
     (if 16 \<le> length ip then ipv6_finish zone ip ell s
      else
      case hex_group 0 0 s of
        None \<Rightarrow> None
      | Some (off, acc, r) \<Rightarrow>
          if off = 0 then None
          else if r \<noteq> [] \<and> hd r = CHR ''.'' then
            (if ell = None \<and> length ip \<noteq> 12 then None
             else if length ip + 4 > 16 then None
             else case parseIPv4Fields s of
                    None \<Rightarrow> None
                  | Some v4 \<Rightarrow> ipv6_finish zone (ip @ v4) ell [])
          else
          let ip' = ip @ [of_nat (acc div 256), of_nat acc] in
          (case r of
             [] \<Rightarrow> ipv6_finish zone ip' ell []
           | c # r' \<Rightarrow>
               if c \<noteq> CHR '':'' then None
               else if r' = [] then None
               else if hd r' = CHR '':'' then
                 (if ell \<noteq> None then None
                  else if tl r' = [] then ipv6_finish zone ip' (Some (length ip')) []
                  else ipv6_groups zone ip' (Some (length ip')) (tl r'))
               else ipv6_groups zone ip' ell r'))"
  by pat_completeness auto
termination
  by (relation "measure (\<lambda>(zone, ip, ell, s). length s)") (auto dest!: hex_group_shorter)

declare ipv6_groups.simps [simp del]

definition parseIPv6 :: "string \<Rightarrow> ipAddr option" where
  "parseIPv6 s =
     (let t = takeWhile (\<lambda>c. c \<noteq> CHR ''%'') s; zone = drop (Suc (length t)) s in
      if CHR ''%'' \<in> set s \<and> zone = [] then None
      else if take 2 t = ''::'' then
        (if length t = 2 then Some (Addr6 (zeros 16) zone) else ipv6_groups zone [] (Some 0) (drop 2 t))
      else ipv6_groups zone [] None t)"

text \<open>The first dot, colon or percent sign decides what is parsed.\<close>

fun ParseAddr_at :: "string \<Rightarrow> string \<Rightarrow> ipAddr option" where
  "ParseAddr_at s [] = None"
| "ParseAddr_at s (c # cs) =
     (if c = CHR ''.'' then map_option Addr4 (parseIPv4Fields s)
      else if c = CHR '':'' then parseIPv6 s
      else if c = CHR ''%'' then None
      else ParseAddr_at s cs)"

definition netip_ParseAddr :: "string \<Rightarrow> ipAddr option" where
  "netip_ParseAddr s = ParseAddr_at s s"

section \<open>The text of an address\<close>

record tcpAddr =
  ta_IP :: "octet list"
  ta_Port :: int

fun hex_nat :: "nat \<Rightarrow> string" where
  "hex_nat n = (if n < 16 then [hex_digit n] else hex_nat (n div 16) @ [hex_digit (n mod 16)])"

declare hex_nat.simps [simp del]

definition dotted :: "octet list \<Rightarrow> string" where
  "dotted ip = Join ''.'' (map (\<lambda>b. show_nat (unat b)) ip)"

fun v6_words :: "octet list \<Rightarrow> nat list" where
  "v6_words (a # b # r) = (unat a * 256 + unat b) # v6_words r"
| "v6_words _ = []"

text \<open>The first longest run of at least two zero groups, as its start and its length.\<close>

definition zero_run :: "nat list \<Rightarrow> nat \<times> nat" where
  "zero_run gs = foldl (\<lambda>(z, l) i. let k = length (takeWhile (\<lambda>g. g = 0) (drop i gs)) in if 2 \<le> k \<and> l < k then (i, k) else (z, l))
     (8, 0) [0..<8]"

definition v6_String :: "octet list \<Rightarrow> string" where
  "v6_String ip = (let gs = v6_words ip; (z, l) = zero_run gs in
     if l = 0 then Join '':'' (map hex_nat gs)
     else Join '':'' (map hex_nat (take z gs)) @ ''::'' @ Join '':'' (map hex_nat (drop (z + l) gs)))"

text \<open>\<open>net.IP.String\<close>: mapped addresses are printed like those of four octets.\<close>

definition v4_mapped :: "octet list \<Rightarrow> bool" where
  "v4_mapped ip \<longleftrightarrow> length ip = 16 \<and> take 12 ip = replicate 10 0 @ [0xFF, 0xFF]"

definition net_IP_String :: "octet list \<Rightarrow> string" where
  "net_IP_String ip = (if length ip = 4 then dotted ip else if v4_mapped ip then dotted (drop 12 ip) else v6_String ip)"

definition net_JoinHostPort :: "string \<Rightarrow> string \<Rightarrow> string" where
  "net_JoinHostPort host port = (if CHR '':'' \<in> set host \<or> CHR ''%'' \<in> set host then ''['' @ host @ '']:'' @ port else host @ '':'' @ port)"

definition TCPAddr_String :: "tcpAddr \<Rightarrow> string" where
  "TCPAddr_String a = net_JoinHostPort (net_IP_String (ta_IP a)) (FormatInt (ta_Port a))"

section \<open>The header\<close>

definition proxyV1MaxLine :: nat where "proxyV1MaxLine = 107"

datatype proxy_error = ProxyDeadline | ProxyTooLong | ProxyRead | ProxyMissingCRLF | ProxyNotV1 | ProxyTransport string
  | ProxyFieldCount | ProxySource | ProxyDestination | ProxyNotV4 | ProxyNotV6 | ProxyPort string

text \<open>One byte at a time, so that nothing behind the line is consumed; the second component is what is left to read.\<close>

fun proxy_line :: "bytes \<Rightarrow> bytes \<Rightarrow> (proxy_error + bytes) \<times> bytes" where
  "proxy_line sb [] = (if length sb \<ge> proxyV1MaxLine then (Inl ProxyTooLong, []) else (Inl ProxyRead, []))"
| "proxy_line sb (c # cs) =
     (if length sb \<ge> proxyV1MaxLine then (Inl ProxyTooLong, c # cs)
      else if c = CHR 0x0A then (Inr (sb @ [c]), cs)
      else proxy_line (sb @ [c]) cs)"

definition parseProxyPort :: "string \<Rightarrow> proxy_error + int" where
  "parseProxyPort s = (case ParseInt s of
     None \<Rightarrow> Inl (ProxyPort s)
   | Some port \<Rightarrow> if port < 0 \<or> port > 65535 then Inl (ProxyPort s) else Inr port)"

definition AsSlice :: "ipAddr \<Rightarrow> octet list" where
  "AsSlice a = (case a of Addr4 ip \<Rightarrow> ip | Addr6 ip _ \<Rightarrow> ip)"

definition Is4 :: "ipAddr \<Rightarrow> bool" where
  "Is4 a = (case a of Addr4 _ \<Rightarrow> True | Addr6 _ _ \<Rightarrow> False)"

definition proxy_addresses :: "string list \<Rightarrow> proxy_error + tcpAddr option" where
  "proxy_addresses fs =
     (if length fs \<noteq> 6 then Inl ProxyFieldCount
      else
      case netip_ParseAddr (fs ! 2) of
        None \<Rightarrow> Inl ProxySource
      | Some srcIP \<Rightarrow>
          if netip_ParseAddr (fs ! 3) = None then Inl ProxyDestination
          else if fs ! 1 = ''TCP4'' \<and> \<not> Is4 srcIP then Inl ProxyNotV4
          else if fs ! 1 = ''TCP6'' \<and> Is4 srcIP then Inl ProxyNotV6
          else
          (case parseProxyPort (fs ! 4) of
            Inl err \<Rightarrow> Inl err
          | Inr srcPort \<Rightarrow>
              (case parseProxyPort (fs ! 5) of
                 Inl err \<Rightarrow> Inl err
               | Inr _ \<Rightarrow> Inr (Some \<lparr>ta_IP = AsSlice srcIP, ta_Port = srcPort\<rparr>))))"

definition proxy_fields :: "bytes \<Rightarrow> proxy_error + tcpAddr option" where
  "proxy_fields line =
     (if \<not> HasSuffix line [CHR 0x0D, CHR 0x0A] then Inl ProxyMissingCRLF
      else
      let fs = strings_Fields (TrimSuffix line [CHR 0x0D, CHR 0x0A]) in
      if length fs < 2 \<or> fs ! 0 \<noteq> ''PROXY'' then Inl ProxyNotV1
      else if fs ! 1 = ''UNKNOWN'' then Inr None
      else if fs ! 1 \<noteq> ''TCP4'' \<and> fs ! 1 \<noteq> ''TCP6'' then Inl (ProxyTransport (fs ! 1))
      else proxy_addresses fs)"

text \<open>\<open>deadlineErr\<close>: the read deadline could not be set.\<close>

definition parseProxyV1 :: "bool \<Rightarrow> bytes \<Rightarrow> (proxy_error + tcpAddr option) \<times> bytes" where
  "parseProxyV1 deadlineErr input =
     (if deadlineErr then (Inl ProxyDeadline, input)
      else case proxy_line [] input of
             (Inl err, rest) \<Rightarrow> (Inl err, rest)
           | (Inr line, rest) \<Rightarrow> (proxy_fields line, rest))"

text \<open>\<open>peerIP\<close>: the host of the address of a socket; a connection without an address has none.\<close>

definition peerIP :: "string option \<Rightarrow> string" where
  "peerIP addr = (case addr of
     None \<Rightarrow> []
   | Some a \<Rightarrow> (case net_SplitHostPort a of Some (host, _) \<Rightarrow> host | None \<Rightarrow> a))"

section \<open>Reading a header\<close>

text \<open>Only a bounded line is consumed, and never a byte behind its line feed.\<close>

lemma proxy_line_split:
  assumes "proxy_line sb input = (r, rest)" "length sb \<le> proxyV1MaxLine"
  shows "\<exists>l. input = l @ rest \<and> length sb + length l \<le> proxyV1MaxLine \<and> CHR 0x0A \<notin> set (butlast l) \<and> (\<forall>line. r = Inr line \<longrightarrow> line = sb @ l)"
  using assms
proof (induction sb input rule: proxy_line.induct)
  case (2 sb c cs)
  show ?case
  proof (cases "length sb \<ge> proxyV1MaxLine \<or> c = CHR 0x0A")
    case True
    with 2 show ?thesis
      by (cases "length sb \<ge> proxyV1MaxLine") (auto intro: exI [of _ "[]"] exI [of _ "[c]"])
  next
    case False
    with 2 obtain l where "cs = l @ rest" "length (sb @ [c]) + length l \<le> proxyV1MaxLine" "CHR 0x0A \<notin> set (butlast l)"
      "\<forall>line. r = Inr line \<longrightarrow> line = (sb @ [c]) @ l" by auto
    with False show ?thesis by (intro exI [of _ "c # l"]) auto
  qed
qed (auto split: if_splits)

lemma proxy_line_reads:
  "CHR 0x0A \<notin> set l \<Longrightarrow> length sb + length l < proxyV1MaxLine \<Longrightarrow> proxy_line sb (l @ CHR 0x0A # rest) = (Inr (sb @ l @ [CHR 0x0A]), rest)"
  by (induction l arbitrary: sb) auto

section \<open>Fields of plain text\<close>

definition plain :: "string \<Rightarrow> bool" where
  "plain w \<longleftrightarrow> (\<forall>c\<in>set w. of_char c < (128::nat) \<and> \<not> ascii_space c)"

lemma space_len_ascii: "of_char c < (128::nat) \<Longrightarrow> space_len (c # cs) = (if ascii_space c then 1 else 0)"
proof -
  assume "of_char c < (128::nat)"
  then have "c \<noteq> CHR 0xC2" "c \<noteq> CHR 0xE1" "c \<noteq> CHR 0xE2" "c \<noteq> CHR 0xE3" by auto
  then show ?thesis by (simp add: space_len_def numeral_2_eq_2 numeral_3_eq_3)
qed

lemma fields_from_plain: "plain v \<Longrightarrow> fields_from w (v @ s) = fields_from (w @ v) s"
proof (induction v arbitrary: w)
  case (Cons c v)
  then have "space_len (c # v @ s) = 0" "plain v" by (simp_all add: plain_def space_len_ascii)
  with Cons.IH [of "w @ [c]"] show ?case by (simp add: Let_def)
qed simp

lemma fields_from_words:
  "ws \<noteq> [] \<Longrightarrow> \<forall>w\<in>set ws. plain w \<and> w \<noteq> [] \<Longrightarrow> fields_from [] (Join '' '' ws) = ws"
proof (induction "'' ''" ws rule: Join.induct)
  case (2 x)
  then show ?case using fields_from_plain [of x "[]" "[]"] by simp
next
  case (3 x y ys)
  have "space_len (CHR '' '' # s) = 1" for s by (simp add: space_len_ascii ascii_space_def)
  with 3 show ?case using fields_from_plain [of x "[]" "'' '' @ Join '' '' (y # ys)"] by (simp add: Let_def)
qed simp

section \<open>Addresses of four octets\<close>

lemma show_nat_octet:
  "n < 256 \<Longrightarrow> show_nat n = (if n < 10 then [digit_char n] else if n < 100 then [digit_char (n div 10), digit_char (n mod 10)]
     else [digit_char (n div 100), digit_char (n div 10 mod 10), digit_char (n mod 10)])"
proof -
  assume n: "n < 256"
  have "n div 10 < 10 \<longleftrightarrow> n < 100" by (simp add: div_less_iff_less_mult)
  moreover have "n div 100 < 10" using n by (simp add: div_less_iff_less_mult)
  moreover have "n div 10 div 10 = n div 100" by (simp add: div_mult2_eq [symmetric])
  ultimately show ?thesis by (simp add: show_nat.simps [of n] show_nat.simps [of "n div 10"] show_nat.simps [of "n div 100"])
qed

lemma ipv4_fields_octet:
  assumes "n < 256"
  shows "ipv4_fields fs 0 0 dot (show_nat n @ r) = ipv4_fields fs n (length (show_nat n)) False r"
proof -
  have h: "n div 100 = n div 10 div 10" by (simp add: div_mult2_eq [symmetric])
  have "n div 100 * 10 + n div 10 mod 10 = n div 10" "n div 10 * 10 + n mod 10 = n" unfolding h by simp_all
  moreover have "n div 10 = 0 \<longleftrightarrow> n < 10" "n div 100 = 0 \<longleftrightarrow> n < 100" by (simp_all add: div_eq_0_iff)
  moreover have "n div 10 \<le> 255" "n div 100 < 10" "n < 100 \<Longrightarrow> n div 10 < 10"
    using assms by (simp_all add: div_less_iff_less_mult div_le_dividend le_trans [OF div_le_dividend])
  ultimately show ?thesis using assms by (simp add: show_nat_octet Let_def)
qed

lemma digit_char_plain: "d < 10 \<Longrightarrow> of_char (digit_char d) = (48 + d :: nat)"
  by (simp add: digit_char_def)

lemma show_nat_plain: "c \<in> set (show_nat n) \<Longrightarrow> \<exists>d<10. of_char c = (48 + d :: nat)"
  using show_nat_digits digit_char_plain by metis

lemma dotted_four: "dotted [a, b, c, d] = show_nat (unat a) @ ''.'' @ show_nat (unat b) @ ''.'' @ show_nat (unat c) @ ''.'' @ show_nat (unat d)"
  by (simp add: dotted_def)

lemma octet_less: "unat (b :: octet) < 256"
proof -
  have "unat b < 2 ^ LENGTH(8)" by (rule unsigned_less)
  then show ?thesis by simp
qed

lemma parseIPv4_dotted: "parseIPv4Fields (dotted [a, b, c, d]) = Some [a, b, c, d]"
proof -
  have dot: "digit_of (CHR ''.'') = None" by (simp add: digit_of_def less_eq_char_def)
  have last: "ipv4_fields fs 0 0 dot (show_nat (unat d)) = ipv4_fields fs (unat d) (length (show_nat (unat d))) False []" for fs dot
    using ipv4_fields_octet [OF octet_less, of fs dot d "[]"] by simp
  show ?thesis
    by (simp add: parseIPv4Fields_def dotted_four ipv4_fields_octet [OF octet_less] last dot show_nat_ne)
qed

lemma ParseAddr_at_dotted:
  assumes "\<forall>c\<in>set l. c \<notin> {CHR ''.'', CHR '':'', CHR ''%''}"
  shows "ParseAddr_at s (l @ CHR ''.'' # r) = map_option Addr4 (parseIPv4Fields s)"
  using assms by (induction l) auto

lemma show_nat_no_mark: "c \<in> set (show_nat n) \<Longrightarrow> c \<notin> {CHR ''.'', CHR '':'', CHR ''%'', CHR 0x0A, CHR 0x0D}"
  using show_nat_plain [of c n] by auto

lemma ParseAddr_dotted: "netip_ParseAddr (dotted [a, b, c, d]) = Some (Addr4 [a, b, c, d])"
  using ParseAddr_at_dotted [of "show_nat (unat a)" "dotted [a, b, c, d]" "show_nat (unat b) @ ''.'' @ show_nat (unat c) @ ''.'' @ show_nat (unat d)"]
    show_nat_no_mark parseIPv4_dotted
  by (fastforce simp: netip_ParseAddr_def dotted_four)

lemma plain_show_nat: "plain (show_nat n)"
  unfolding plain_def using show_nat_plain [of _ n] by (fastforce simp: ascii_space_def)

lemma plain_append: "plain (v @ w) \<longleftrightarrow> plain v \<and> plain w"
  by (auto simp: plain_def)

lemma plain_dotted: "plain (dotted [a, b, c, d])"
proof -
  have "plain (''.'')" by (simp add: plain_def ascii_space_def)
  then show ?thesis unfolding dotted_four plain_append by (simp only: plain_show_nat)
qed

lemma length_octet: "length (show_nat (unat (b :: octet))) \<le> 3"
  by (simp add: show_nat_octet [OF octet_less])

lemma length_dotted: "length (dotted [a, b, c, d]) \<le> 15"
  using length_octet [of a] length_octet [of b] length_octet [of c] length_octet [of d] by (simp add: dotted_four)

lemma length_show_nat: "n < 10 ^ k \<Longrightarrow> 0 < k \<Longrightarrow> length (show_nat n) \<le> k"
proof (induction n arbitrary: k rule: show_nat.induct)
  case (1 n)
  show ?case
  proof (cases "n < 10")
    case False
    then obtain j where k: "k = Suc j" "0 < j" using 1(2,3) by (cases k; cases "k - 1") auto
    then have "n div 10 < 10 ^ j" using 1(2) by (simp add: less_mult_imp_div_less mult.commute)
    with 1(1) [OF False] k show ?thesis by (simp add: show_nat.simps [of n] False)
  qed (use 1(3) in \<open>simp add: show_nat.simps [of n]\<close>)
qed

section \<open>Properties\<close>

definition header_words :: "octet list \<Rightarrow> octet list \<Rightarrow> nat \<Rightarrow> nat \<Rightarrow> string list" where
  "header_words src dst sport dport = [''PROXY'', ''TCP4'', dotted src, dotted dst, show_nat sport, show_nat dport]"

definition proxy_header :: "octet list \<Rightarrow> octet list \<Rightarrow> nat \<Rightarrow> nat \<Rightarrow> bytes" where
  "proxy_header src dst sport dport = Join '' '' (header_words src dst sport dport) @ [CHR 0x0D, CHR 0x0A]"

lemma header_words_plain: "w \<in> set (header_words [a, b, c, d] [e, f, g, h] p q) \<Longrightarrow> plain w \<and> w \<noteq> []"
proof -
  have "plain ''PROXY''" "plain ''TCP4''" by (simp_all add: plain_def ascii_space_def)
  moreover have "dotted [x, y, z, u] \<noteq> []" for x y z u by (simp add: dotted_four)
  ultimately show "w \<in> set (header_words [a, b, c, d] [e, f, g, h] p q) \<Longrightarrow> plain w \<and> w \<noteq> []"
    unfolding header_words_def using plain_dotted plain_show_nat show_nat_ne
    by (metis empty_iff insert_iff list.discI list.set)
qed

lemma header_words_length:
  assumes "p \<le> 65535" "q \<le> 65535"
  shows "length (Join '' '' (header_words [a, b, c, d] [e, f, g, h] p q)) \<le> 54"
proof -
  have "length (show_nat p) \<le> 5" "length (show_nat q) \<le> 5" using assms by (auto intro!: length_show_nat)
  then show ?thesis using length_dotted [of a b c d] length_dotted [of e f g h] by (simp add: header_words_def)
qed

lemma parseProxyPort_show: "p \<le> 65535 \<Longrightarrow> parseProxyPort (show_nat p) = Inr (int p)"
  using ParseInt_FormatInt [of "int p"] by (simp add: parseProxyPort_def FormatInt_def)

lemma proxy_fields_header:
  assumes "p \<le> 65535" "q \<le> 65535"
  shows "proxy_fields (proxy_header [a, b, c, d] [e, f, g, h] p q) = Inr (Some \<lparr>ta_IP = [a, b, c, d], ta_Port = int p\<rparr>)"
proof -
  let ?ws = "header_words [a, b, c, d] [e, f, g, h] p q"
  have "strings_Fields (Join '' '' ?ws) = ?ws"
    unfolding strings_Fields_def by (rule fields_from_words) (use header_words_plain in \<open>auto simp: header_words_def\<close>)
  moreover have "proxy_addresses ?ws = Inr (Some \<lparr>ta_IP = [a, b, c, d], ta_Port = int p\<rparr>)"
    using assms by (simp add: proxy_addresses_def header_words_def ParseAddr_dotted parseProxyPort_show Is4_def AsSlice_def)
  moreover have "?ws ! 0 = ''PROXY''" "?ws ! 1 = ''TCP4''" "length ?ws = 6" by (simp_all add: header_words_def)
  ultimately show ?thesis by (simp add: proxy_fields_def proxy_header_def)
qed

text \<open>The header and nothing else. On every input, accepted or not, the parser consumes at most 107 bytes and never a
  byte behind the first line feed, so what follows belongs to the SSH handshake; an accepted line ends with CR LF. A
  header that a balancer writes for a TCP connection over IPv4 is accepted for all addresses and ports, asserts exactly
  the source address and port it names, and everything behind it is left unread.\<close>

theorem proxy_header_exact:
  assumes p: "sport \<le> 65535" "dport \<le> 65535"
  shows "(case parseProxyV1 e input of (r, rest) \<Rightarrow> (\<exists>l. input = l @ rest \<and> length l \<le> proxyV1MaxLine \<and> CHR 0x0A \<notin> set (butlast l)
      \<and> (\<forall>a. r = Inr a \<longrightarrow> HasSuffix l [CHR 0x0D, CHR 0x0A])))
    \<and> parseProxyV1 False (proxy_header [s1, s2, s3, s4] [d1, d2, d3, d4] sport dport @ ssh)
       = (Inr (Some \<lparr>ta_IP = [s1, s2, s3, s4], ta_Port = int sport\<rparr>), ssh)"
proof
  obtain q rest where q: "proxy_line [] input = (q, rest)" by fastforce
  from proxy_line_split [OF q] obtain l where l: "input = l @ rest" "length l \<le> proxyV1MaxLine" "CHR 0x0A \<notin> set (butlast l)"
    "\<forall>line. q = Inr line \<longrightarrow> line = l" by auto
  have "HasSuffix l [CHR 0x0D, CHR 0x0A]" if "q = Inr line" "proxy_fields line = Inr a" for line a
    using that l(4) by (auto simp: proxy_fields_def split: if_splits)
  then show "case parseProxyV1 e input of (r, rest) \<Rightarrow> (\<exists>l. input = l @ rest \<and> length l \<le> proxyV1MaxLine \<and> CHR 0x0A \<notin> set (butlast l)
      \<and> (\<forall>a. r = Inr a \<longrightarrow> HasSuffix l [CHR 0x0D, CHR 0x0A]))"
    using q l by (auto simp: parseProxyV1_def split: sum.split)
next
  let ?ws = "Join '' '' (header_words [s1, s2, s3, s4] [d1, d2, d3, d4] sport dport)"
  have "CHR 0x0A \<notin> set ?ws"
    using set_Join [of "'' ''" "header_words [s1, s2, s3, s4] [d1, d2, d3, d4] sport dport"] header_words_plain
    unfolding plain_def ascii_space_def by fastforce
  then have "proxy_line [] ((?ws @ [CHR 0x0D]) @ CHR 0x0A # ssh) = (Inr ([] @ (?ws @ [CHR 0x0D]) @ [CHR 0x0A]), ssh)"
    using header_words_length [OF p, of s1 s2 s3 s4 d1 d2 d3 d4] by (intro proxy_line_reads) (auto simp: proxyV1MaxLine_def)
  then show "parseProxyV1 False (proxy_header [s1, s2, s3, s4] [d1, d2, d3, d4] sport dport @ ssh)
       = (Inr (Some \<lparr>ta_IP = [s1, s2, s3, s4], ta_Port = int sport\<rparr>), ssh)"
    using proxy_fields_header [OF p] by (simp add: parseProxyV1_def proxy_header_def)
qed

theorem proxy_header_exact_witness:
  "parseProxyV1 False (proxy_header [10, 0, 0, 7] [10, 0, 0, 1] 50000 22 @ ''SSH-2.0'')
     = (Inr (Some \<lparr>ta_IP = [10, 0, 0, 7], ta_Port = 50000\<rparr>), ''SSH-2.0'')"
  using proxy_header_exact [of 50000 22] by simp

end
