(* ===== verification/Server.thy ===== *)
theory Server
  imports Channels Sessions KeyMgmt ProxyHeader
begin

text \<open>
  \<open>internal/server/listener.go\<close>, \<open>connection.go\<close>, \<open>keymanagement.go\<close> and \<open>hostkey.go\<close>: the configuration of the SSH
  server, the life of one accepted connection from the rate gate to the last deferred statement, the restricted
  dispatch of key-management connections, and the accept loop with its shutdown. The handshake of the SSH library is a
  parameter: a computation on the gateway, since it calls the authentication callbacks. What the client does after it
  is a list of events; the handlers of a connection run as goroutines, here one after another in the order of the
  events. A panic is modelled where the code can raise it, in the rate gate.
\<close>

section \<open>Configuration (listener.go, hostkey.go)\<close>

datatype server_error = ErrNoHostKeys | ErrNilCounters | ErrNilRouteCodec | ErrNilTunnelStarter

record ServerConfig =
  cfg_HostSigners :: "string list"
  cfg_Auth :: AuthConfig
  cfg_Counters :: bool
  cfg_PreAuthGate :: bool
  cfg_HandshakeTimeout :: int
  cfg_ServerVersion :: string
  cfg_ProxyProtocol :: bool
  cfg_ProxyHeaderTimeout :: int
  cfg_RouteCodec :: bool
  cfg_TunnelStarter :: bool
  cfg_WorkspaceTransports :: bool
  cfg_CacheTTL :: int
  cfg_DrainPeriod :: int
  cfg_EnrollmentUser :: string
  cfg_Audit :: bool

definition second :: int where "second = 1000000000"

definition defaultHandshakeTimeout :: int where "defaultHandshakeTimeout = 30 * second"
definition defaultProxyHeaderTimeout :: int where "defaultProxyHeaderTimeout = 5 * second"
definition defaultCacheTTL :: int where "defaultCacheTTL = 15 * second"

definition version_char :: "char \<Rightarrow> bool" where
  "version_char c \<longleftrightarrow> (CHR ''a'' \<le> c \<and> c \<le> CHR ''z'') \<or> (CHR ''A'' \<le> c \<and> c \<le> CHR ''Z'') \<or> (CHR ''0'' \<le> c \<and> c \<le> CHR ''9'')
     \<or> c = CHR ''.'' \<or> c = CHR ''+''"

definition defaultServerVersion :: "string \<Rightarrow> string" where
  "defaultServerVersion version = (let v = filter version_char version in
     ''SSH-2.0-CoderSSHGW_'' @ (if v = [] then ''unknown'' else v))"

definition server_New :: "string \<Rightarrow> ServerConfig \<Rightarrow> server_error + ServerConfig" where
  "server_New version cfg =
     (if cfg_HostSigners cfg = [] then Inl ErrNoHostKeys
      else if \<not> cfg_Counters cfg then Inl ErrNilCounters
      else if \<not> cfg_RouteCodec cfg then Inl ErrNilRouteCodec
      else if \<not> cfg_TunnelStarter cfg then Inl ErrNilTunnelStarter
      else
      let ttl = (if cfg_CacheTTL cfg \<le> 0 then defaultCacheTTL else cfg_CacheTTL cfg);
          hs = (if cfg_HandshakeTimeout cfg \<le> 0 then defaultHandshakeTimeout else cfg_HandshakeTimeout cfg);
          sv = (if cfg_ServerVersion cfg = [] then defaultServerVersion version else cfg_ServerVersion cfg);
          px = (if cfg_ProxyHeaderTimeout cfg \<le> 0 then (if defaultProxyHeaderTimeout > hs then hs else defaultProxyHeaderTimeout)
                else cfg_ProxyHeaderTimeout cfg) in
      Inr (cfg\<lparr>cfg_CacheTTL := ttl, cfg_HandshakeTimeout := hs, cfg_ServerVersion := sv, cfg_ProxyHeaderTimeout := px\<rparr>))"

text \<open>\<open>readFile\<close> and \<open>parse\<close> stand for the file system and for the parser of private keys; a signer is represented by its
  fingerprint. One bad key fails the whole load.\<close>

datatype hostkey_error = NoHostKeys | HostKeyError string

primrec load_signers :: "(string \<Rightarrow> bytes option) \<Rightarrow> (bytes \<Rightarrow> string option) \<Rightarrow> string list \<Rightarrow> string list \<Rightarrow> hostkey_error + string list" where
  "load_signers readFile parse [] signers = Inr signers"
| "load_signers readFile parse (path # paths) signers =
     (case readFile path of
        None \<Rightarrow> Inl (HostKeyError path)
      | Some pem \<Rightarrow> (case parse pem of
            None \<Rightarrow> Inl (HostKeyError path)
          | Some signer \<Rightarrow> load_signers readFile parse paths (signers @ [signer])))"

definition LoadHostSigners :: "(string \<Rightarrow> bytes option) \<Rightarrow> (bytes \<Rightarrow> string option) \<Rightarrow> string list \<Rightarrow> hostkey_error + string list" where
  "LoadHostSigners readFile parse paths = (if paths = [] then Inl NoHostKeys else load_signers readFile parse paths [])"

section \<open>A connection and what its client does\<close>

text \<open>The accepted socket: its peer, the bytes it delivers in time, and which of the three calls that set a deadline fail.\<close>

record rawConn =
  raw_RemoteAddr :: "string option"
  raw_input :: bytes
  raw_readDeadlineErr :: bool
  raw_setDeadlineErr :: bool
  raw_clearDeadlineErr :: bool

datatype conn_event = OpenChannel newChannel | GlobalRequest Channels.request

text \<open>\<open>cl_handshake\<close> is what \<open>ssh.NewServerConn\<close> makes of the bytes behind the header: the permissions and the user name,
  or an error. \<open>cl_late\<close> are the global requests handled after the channel loop has ended. \<open>cl_session\<close>, \<open>cl_console\<close> and
  \<open>cl_readFails\<close> are the requests and the input of the key-management session.\<close>

record client =
  cl_id :: string
  cl_handshake :: "bytes \<Rightarrow> (permissions \<times> string) authm"
  cl_events :: "conn_event list"
  cl_late :: "Channels.request list"
  cl_answer :: "Channels.request \<Rightarrow> bool"
  cl_session :: "Channels.request list"
  cl_console :: bytes
  cl_readFails :: bool

record connEnv =
  ce_X :: surroundings
  ce_cfg :: ServerConfig
  ce_draining :: bool
  ce_decoders :: decoders
  ce_client :: client

definition ce_srv :: "connEnv \<Rightarrow> srvConfig" where
  "ce_srv K = \<lparr>sc_Audit = cfg_Audit (ce_cfg K), sc_WorkspaceTransports = cfg_WorkspaceTransports (ce_cfg K),
     sc_CacheTTL = cfg_CacheTTL (ce_cfg K), sc_draining = ce_draining K\<rparr>"

section \<open>Key-management connections (keymanagement.go)\<close>

definition keyMgmtChannelReason :: string where "keyMgmtChannelReason = ''key management connections cannot open workspace channels''"
definition keyMgmtExecMessage :: string where "keyMgmtExecMessage = ''exec is not available on key management connections'' @ crlf"

text \<open>The store of the console: every call finds the store as others have left it.\<close>

definition ui_call :: "world \<Rightarrow> 'a stm \<Rightarrow> (gateway, serror, 'a) sr" where
  "ui_call W m = (\<lambda>w. case m (seen_store W w) of (r, s) \<Rightarrow> (r, w\<lparr>gw_store := s, gw_steps := Suc (gw_steps w)\<rparr>))"

definition ui_store :: "world \<Rightarrow> gateway keyStore" where
  "ui_store W = \<lparr>ks_ListKeysForAccount = (\<lambda>a. ui_call W (ListKeysForAccount (wo_env W) a)),
     ks_DeleteKey = (\<lambda>a k. ui_call W (DeleteKey (wo_env W) a k)), ks_DeleteAccount = (\<lambda>a. ui_call W (DeleteAccount (wo_env W) a))\<rparr>"

definition ui_service :: "connEnv \<Rightarrow> FinalPerms \<Rightarrow> ConnState \<Rightarrow> Account \<Rightarrow> gateway Service" where
  "ui_service K perms state account = \<lparr>sv_Store = ui_store (su_world (ce_X K)), sv_Audit = cfg_Audit (ce_cfg K),
     sv_lib = env_lib (wo_env (su_world (ce_X K))), sv_SessionKeyID = fp_SSHKeyID perms, sv_Account = account,
     sv_EnrollmentUser = cfg_EnrollmentUser (ce_cfg K), sv_PeerAddress = cs_peerAddr state, sv_ConnectionID = cs_id state,
     sv_pty = False, sv_readFails = cl_readFails (ce_client K)\<rparr>"

definition ui_console :: "connEnv \<Rightarrow> gateway \<Rightarrow> gateway console" where
  "ui_console K w = \<lparr>co_store = w, co_keys = [], co_input = cl_console (ce_client K), co_pendingLF = False, co_out = [], co_audit = []\<rparr>"

definition run_console :: "connEnv \<Rightarrow> FinalPerms \<Rightarrow> bool \<Rightarrow> Account \<Rightarrow> bytes srvm" where
  "run_console K perms pty account = (\<lambda>s.
     let c = Run (WithPty pty (ui_service K perms (gw_conn (sx_gw s)) account)) (ui_console K (sx_gw s)) in
     (Inr (co_out c), s\<lparr>sx_gw := (co_store c)\<lparr>gw_audit := gw_audit (co_store c) @ co_audit c\<rparr>\<rparr>))"

definition runKeyManagementUI :: "connEnv \<Rightarrow> FinalPerms \<Rightarrow> bool \<Rightarrow> unit srvm" where
  "runKeyManagementUI K perms pty =
     bnd (gets (\<lambda>s. VerifiedIdentity (gw_conn (sx_gw s)))) (\<lambda>v.
     case v of
       None \<Rightarrow> bnd (emit (ExitStatus (''key management is unavailable'' @ crlf) 255)) (\<lambda>_. emit CloseChannel)
     | Some (account, _, _) \<Rightarrow>
         bnd (run_console K perms pty account) (\<lambda>out.
         bnd (emit (Console out)) (\<lambda>_.
         bnd (emit (ExitStatus [] 0)) (\<lambda>_. emit CloseChannel))))"

fun key_session :: "connEnv \<Rightarrow> FinalPerms \<Rightarrow> bool \<Rightarrow> bool \<Rightarrow> Channels.request list \<Rightarrow> unit srvm" where
  "key_session K perms ptySeen started [] = ret ()"
| "key_session K perms ptySeen started (req # reqs) =
     (if rq_Type req = ''pty-req'' then
        (case ParsePtyRequest (ce_decoders K) (rq_Payload req) of
           Inl _ \<Rightarrow> bnd (Channels.reply req False) (\<lambda>_. key_session K perms ptySeen started reqs)
         | Inr _ \<Rightarrow> bnd (Channels.reply req True) (\<lambda>_. key_session K perms True started reqs))
      else if rq_Type req = ''env'' \<or> rq_Type req = ''window-change'' \<or> rq_Type req = ''signal'' then
        bnd (Channels.reply req True) (\<lambda>_. key_session K perms ptySeen started reqs)
      else if rq_Type req = ''shell'' then
        (if started then bnd (Channels.reply req False) (\<lambda>_. key_session K perms ptySeen started reqs)
         else bnd (Channels.reply req True) (\<lambda>_.
              bnd (runKeyManagementUI K perms ptySeen) (\<lambda>_. key_session K perms ptySeen True reqs)))
      else if rq_Type req = ''exec'' then
        (if started then bnd (Channels.reply req False) (\<lambda>_. key_session K perms ptySeen started reqs)
         else bnd (Channels.reply req False) (\<lambda>_.
              bnd (emit (ExitStatus keyMgmtExecMessage 1)) (\<lambda>_. emit CloseChannel)))
      else bnd (Channels.reply req False) (\<lambda>_. key_session K perms ptySeen started reqs))"

definition serveKeyManagementSession :: "connEnv \<Rightarrow> FinalPerms \<Rightarrow> newChannel \<Rightarrow> unit srvm" where
  "serveKeyManagementSession K perms newCh =
     (if nc_acceptErr newCh then ret ()
      else bnd (emit Accept) (\<lambda>_.
           while_active (deferred (emit CloseChannel) (key_session K perms False False (cl_session (ce_client K))))))"

definition rejectKeyManagementChannel :: "unit srvm" where
  "rejectKeyManagementChannel = reject_open Prohibited keyMgmtChannelReason"

definition handleKeyManagementGlobalRequest :: "Channels.request \<Rightarrow> unit srvm" where
  "handleKeyManagementGlobalRequest req = Channels.reply req (rq_Type req = ''keepalive@openssh.com'')"

text \<open>The loop over the opens and the loop over the global requests, in the order of the events; \<open>served\<close>: a session was
  served.\<close>

fun key_events :: "connEnv \<Rightarrow> FinalPerms \<Rightarrow> bool \<Rightarrow> conn_event list \<Rightarrow> unit srvm" where
  "key_events K perms served [] = ret ()"
| "key_events K perms served (GlobalRequest req # evs) =
     bnd (handleKeyManagementGlobalRequest req) (\<lambda>_. key_events K perms served evs)"
| "key_events K perms served (OpenChannel newCh # evs) =
     (if nc_type newCh = ''session'' then
        (if served then bnd rejectKeyManagementChannel (\<lambda>_. key_events K perms served evs)
         else if ce_draining K then bnd (reject_open Prohibited ''server is shutting down'') (\<lambda>_. key_events K perms served evs)
         else bnd (serveKeyManagementSession K perms newCh) (\<lambda>_. key_events K perms True evs))
      else if nc_type newCh = ''direct-tcpip'' \<or> nc_type newCh = ''forwarded-tcpip'' \<or> nc_type newCh = ''x11'' then
        bnd rejectKeyManagementChannel (\<lambda>_. key_events K perms served evs)
      else bnd rejectUnsupportedChannel (\<lambda>_. key_events K perms served evs))"

definition dispatchKeyManagement :: "connEnv \<Rightarrow> FinalPerms \<Rightarrow> unit srvm" where
  "dispatchKeyManagement K perms =
     bnd (key_events K perms False (cl_events (ce_client K))) (\<lambda>_. key_events K perms True (map GlobalRequest (cl_late (ce_client K))))"

section \<open>The life of a connection (connection.go)\<close>

definition EventTypeHandshakeFailed :: string where "EventTypeHandshakeFailed = ''ssh_handshake_failed''"
definition DetailHandshakeFailed :: string where "DetailHandshakeFailed = ''SSH_HANDSHAKE_FAILED''"
definition ResultSuccess :: string where "ResultSuccess = ''success''"
definition ResultFailure :: string where "ResultFailure = ''failure''"
definition ResultRejected :: string where "ResultRejected = ''rejected''"
definition ReasonGlobalConn :: string where "ReasonGlobalConn = ''global_conn''"
definition ReasonHandshake :: string where "ReasonHandshake = ''handshake''"
definition ReasonIPConn :: string where "ReasonIPConn = ''ip_conn''"
definition ReasonKeyConn :: string where "ReasonKeyConn = ''key_conn''"
definition ReasonAccountConn :: string where "ReasonAccountConn = ''account_conn''"
definition ReasonPreAuthIP :: string where "ReasonPreAuthIP = ''pre_auth_ip''"

definition track :: "string \<Rightarrow> unit srvm" where
  "track i = (\<lambda>s. (Inr (), s\<lparr>sx_conns := List.insert i (sx_conns s)\<rparr>))"

definition untrack :: "string \<Rightarrow> unit srvm" where
  "untrack i = (\<lambda>s. (Inr (), s\<lparr>sx_conns := removeAll i (sx_conns s)\<rparr>))"

definition goodbye :: string where
  "goodbye = ''Device enrolled.'' @ crlf @ ''This connection cannot open workspaces.'' @ crlf
     @ ''Reconnect with your workspace connection (<workspace>@<this-host>).'' @ crlf"

text \<open>The opens that arrive before the deadline of three seconds; when they end, the stream was closed or the deadline
  has passed.\<close>

primrec enrollmentGoodbye :: "newChannel list \<Rightarrow> unit srvm" where
  "enrollmentGoodbye [] = ret ()"
| "enrollmentGoodbye (newCh # chs) =
     (if nc_type newCh \<noteq> ''session'' then
        bnd (emit (Reject Prohibited ''enrollment connections cannot open channels'')) (\<lambda>_. enrollmentGoodbye chs)
      else if nc_acceptErr newCh then ret ()
      else bnd (emit Accept) (\<lambda>_. bnd (emit (ExitStatus goodbye 0)) (\<lambda>_. emit CloseChannel)))"

primrec rejectChannelAll :: "newChannel list \<Rightarrow> unit srvm" where
  "rejectChannelAll [] = ret ()"
| "rejectChannelAll (newCh # chs) = bnd (emit (Reject Prohibited ''channel type not permitted'')) (\<lambda>_. rejectChannelAll chs)"

primrec opens :: "conn_event list \<Rightarrow> newChannel list" where
  "opens [] = []"
| "opens (ev # evs) = (case ev of OpenChannel ch \<Rightarrow> ch # opens evs | GlobalRequest _ \<Rightarrow> opens evs)"

definition auditHandshakeFailure :: "connEnv \<Rightarrow> unit srvm" where
  "auditHandshakeFailure K = on_gateway (audit_record (cfg_Audit (ce_cfg K)) (ac_DeploymentID (cfg_Auth (ce_cfg K))) None None
     EventTypeHandshakeFailed False DetailHandshakeFailed)"

text \<open>The channel loop of a workspace connection and the loop over its global requests share the transport; the closing of
  the transport is deferred to the end of the channel loop.\<close>

primrec workspace_events :: "connEnv \<Rightarrow> workspaceContext \<Rightarrow> conn_event list \<Rightarrow> unit srvm" where
  "workspace_events K wc [] = ret ()"
| "workspace_events K wc (ev # evs) =
     bnd (case ev of
            OpenChannel newCh \<Rightarrow> handle_channel (ce_X K) (ce_srv K) wc newCh
          | GlobalRequest req \<Rightarrow> handleGlobalRequest (ce_X K) (ce_srv K) wc (cl_answer (ce_client K)) req)
       (\<lambda>_. workspace_events K wc evs)"

definition serve_workspace :: "connEnv \<Rightarrow> workspaceContext \<Rightarrow> unit srvm" where
  "serve_workspace K wc =
     bnd (deferred (wc_close (ce_X K)) (workspace_events K wc (cl_events (ce_client K)))) (\<lambda>_.
     workspace_events K wc (map GlobalRequest (cl_late (ce_client K))))"

definition dispatch_mode :: "connEnv \<Rightarrow> FinalPerms \<Rightarrow> string \<Rightarrow> unit srvm" where
  "dispatch_mode K perms user =
     (if fp_MustReconnect perms then enrollmentGoodbye (opens (cl_events (ce_client K)))
      else if fp_Mode perms = ModeWorkspace then serve_workspace K \<lparr>wc_perms = perms, wc_target = user\<rparr>
      else if fp_Mode perms = ModeKeyManagement then dispatchKeyManagement K perms
      else rejectChannelAll (opens (cl_events (ce_client K))))"

text \<open>From the parsed permissions on: the slots of the key and of the account are held until the dispatch returns. The
  value is the result recorded when the connection closes.\<close>

definition serve_authenticated :: "connEnv \<Rightarrow> permissions \<Rightarrow> string \<Rightarrow> string srvm" where
  "serve_authenticated K granted user =
     (case ParseFinalPermissions (env_lib (wo_env (su_world (ce_X K)))) granted of
        Inl _ \<Rightarrow> ret ResultFailure
      | Inr perms \<Rightarrow>
          bnd (acquire (ce_X K) (SlotKeyConn (fp_SSHKeyID perms))) (\<lambda>r.
          case r of
            None \<Rightarrow> bnd (emit (LimitRejection ReasonKeyConn)) (\<lambda>_. ret ResultRejected)
          | Some k \<Rightarrow> deferred (release (ce_X K) (SlotKeyConn (fp_SSHKeyID perms)) k) (
              bnd (acquire (ce_X K) (SlotAccountConn (fp_AccountID perms))) (\<lambda>r.
              case r of
                None \<Rightarrow> bnd (emit (LimitRejection ReasonAccountConn)) (\<lambda>_. ret ResultRejected)
              | Some a \<Rightarrow> deferred (release (ce_X K) (SlotAccountConn (fp_AccountID perms)) a) (
                  bnd (dispatch_mode K perms user) (\<lambda>_. ret ResultSuccess))))))"

text \<open>The handshake as the server sees it: its error is only recorded.\<close>

definition NewServerConn :: "connEnv \<Rightarrow> bytes \<Rightarrow> (auth_error + permissions \<times> string) srvm" where
  "NewServerConn K input = on_gateway (attempt (cl_handshake (ce_client K) input))"

text \<open>The value: the recorded result, and whether the global and the handshake slot are still held.\<close>

definition after_handshake :: "connEnv \<Rightarrow> rawConn \<Rightarrow> nat \<Rightarrow> nat \<Rightarrow> permissions \<Rightarrow> string \<Rightarrow> (string \<times> bool \<times> bool) srvm" where
  "after_handshake K raw g h granted user =
     deferred (emit CloseServerConn) (
       if raw_clearDeadlineErr raw then ret (ResultFailure, True, True)
       else
       bnd (release (ce_X K) SlotHandshake h) (\<lambda>_.
       bnd (release (ce_X K) SlotGlobal g) (\<lambda>_.
       bnd (serve_authenticated K granted user) (\<lambda>res. ret (res, False, False)))))"

definition handshake_phase :: "connEnv \<Rightarrow> rawConn \<Rightarrow> nat \<Rightarrow> nat \<Rightarrow> bytes \<Rightarrow> (string \<times> bool \<times> bool) srvm" where
  "handshake_phase K raw g h input =
     (if raw_setDeadlineErr raw then ret (ResultFailure, True, True)
      else
      bnd (NewServerConn K input) (\<lambda>r.
      case r of
        Inl _ \<Rightarrow>
          bnd (emit (AuthDuration False)) (\<lambda>_.
          bnd (auditHandshakeFailure K) (\<lambda>_. ret (ResultFailure, True, True)))
      | Inr (granted, user) \<Rightarrow>
          bnd (emit (AuthDuration True)) (\<lambda>_. after_handshake K raw g h granted user)))"

definition connected :: "connEnv \<Rightarrow> rawConn \<Rightarrow> nat \<Rightarrow> nat \<Rightarrow> string \<Rightarrow> bytes \<Rightarrow> (string \<times> bool \<times> bool) srvm" where
  "connected K raw g h peer input =
     (let i = cl_id (ce_client K) in
      bnd (on_gateway (on_conn (\<lambda>_. NewConnState i peer (raw_setDeadlineErr raw)))) (\<lambda>_.
      bnd (track i) (\<lambda>_.
      deferred (untrack i) (deferred state_Close (handshake_phase K raw g h input)))))"

definition read_header :: "connEnv \<Rightarrow> rawConn \<Rightarrow> (proxy_error + tcpAddr option) \<times> bytes" where
  "read_header K raw = (if cfg_ProxyProtocol (ce_cfg K) then parseProxyV1 (raw_readDeadlineErr raw) (raw_input raw)
     else (Inr None, raw_input raw))"

definition socket_peer :: "rawConn \<Rightarrow> string" where
  "socket_peer raw = (case raw_RemoteAddr raw of None \<Rightarrow> [] | Some a \<Rightarrow> a)"

definition after_slots :: "connEnv \<Rightarrow> rawConn \<Rightarrow> nat \<Rightarrow> nat \<Rightarrow> (string \<times> bool \<times> bool) srvm" where
  "after_slots K raw g h =
     (case read_header K raw of
        (Inl _, _) \<Rightarrow> bnd (emit CloseRaw) (\<lambda>_. ret (ResultFailure, True, True))
      | (Inr asserted, input) \<Rightarrow>
          connected K raw g h (case asserted of None \<Rightarrow> socket_peer raw | Some a \<Rightarrow> TCPAddr_String a) input)"

definition limit_closed :: "string \<Rightarrow> unit srvm" where
  "limit_closed reason = bnd (emit (LimitRejection reason)) (\<lambda>_. emit CloseRaw)"

definition with_handshake_slot :: "connEnv \<Rightarrow> rawConn \<Rightarrow> nat \<Rightarrow> (string \<times> bool) srvm" where
  "with_handshake_slot K raw g =
     bnd (acquire (ce_X K) SlotHandshake) (\<lambda>r.
     case r of
       None \<Rightarrow> bnd (limit_closed ReasonHandshake) (\<lambda>_. ret (ResultRejected, True))
     | Some h \<Rightarrow>
         bnd (after_slots K raw g h) (\<lambda>(res, globalHeld, handshakeHeld).
         bnd (if handshakeHeld then release (ce_X K) SlotHandshake h else ret ()) (\<lambda>_. ret (res, globalHeld))))"

definition with_ip_slot :: "connEnv \<Rightarrow> rawConn \<Rightarrow> string \<Rightarrow> nat \<Rightarrow> (string \<times> bool) srvm" where
  "with_ip_slot K raw ip g =
     bnd (acquire (ce_X K) (SlotIP ip)) (\<lambda>r.
     case r of
       None \<Rightarrow> bnd (limit_closed ReasonIPConn) (\<lambda>_. ret (ResultRejected, True))
     | Some i \<Rightarrow> deferred (release (ce_X K) (SlotIP ip) i) (with_handshake_slot K raw g))"

definition with_global_slot :: "connEnv \<Rightarrow> rawConn \<Rightarrow> string \<Rightarrow> string srvm" where
  "with_global_slot K raw ip =
     bnd (acquire (ce_X K) SlotGlobal) (\<lambda>r.
     case r of
       None \<Rightarrow> bnd (limit_closed ReasonGlobalConn) (\<lambda>_. ret ResultRejected)
     | Some g \<Rightarrow>
         bnd (with_ip_slot K raw ip g) (\<lambda>(res, globalHeld).
         bnd (if globalHeld then release (ce_X K) SlotGlobal g else ret ()) (\<lambda>_. ret res)))"

text \<open>The rate gate; \<open>None\<close> is a panic, which the handler recovers from.\<close>

definition pre_auth_gate :: "connEnv \<Rightarrow> string \<Rightarrow> bool option srvm" where
  "pre_auth_gate K ip =
     (if \<not> cfg_PreAuthGate (ce_cfg K) then ret (Some True)
      else bnd (on_gateway (attempt (rate_call (su_world (ce_X K)) (\<lambda>now wall. AllowPreAuthIP now wall ip)))) (\<lambda>r.
           ret (case r of Inl _ \<Rightarrow> None | Inr allowed \<Rightarrow> Some allowed)))"

definition handleConn :: "connEnv \<Rightarrow> rawConn \<Rightarrow> unit srvm" where
  "handleConn K raw =
     (let ip = peerIP (raw_RemoteAddr raw) in
      bnd (pre_auth_gate K ip) (\<lambda>allowed.
      case allowed of
        None \<Rightarrow> emit CloseRaw
      | Some False \<Rightarrow>
          bnd (emit (LimitRejection ReasonPreAuthIP)) (\<lambda>_.
          bnd (emit ConnectionOpened) (\<lambda>_.
          bnd (emit (ConnectionClosed ResultRejected)) (\<lambda>_. emit CloseRaw)))
      | Some True \<Rightarrow>
          bnd (emit ConnectionOpened) (\<lambda>_.
          bnd (with_global_slot K raw ip) (\<lambda>res. emit (ConnectionClosed res)))))"

section \<open>Accepting and shutting down (listener.go)\<close>

text \<open>\<open>waitDrain\<close>: \<open>active n\<close> and \<open>now n\<close> are the number of active channels and the clock at the n-th poll.\<close>

partial_function (option) drain_loop :: "(nat \<Rightarrow> int) \<Rightarrow> (nat \<Rightarrow> int) \<Rightarrow> int \<Rightarrow> nat \<Rightarrow> nat option" where
  "drain_loop active now deadline n =
     (if active n > 0 \<and> now n < deadline then drain_loop active now deadline (Suc n) else Some n)"

definition waitDrain :: "int \<Rightarrow> int \<Rightarrow> (nat \<Rightarrow> int) \<Rightarrow> (nat \<Rightarrow> int) \<Rightarrow> nat option" where
  "waitDrain period start active now = (if period \<le> 0 then Some 0 else drain_loop active now (start + period) 0)"

text \<open>The accept loop, the shutdown goroutine and the connection handlers: \<open>ss_handlers\<close> are the running handlers,
  \<open>ss_tracked\<close> the registry of live connections, \<open>ss_cancelled\<close> the connections that the shutdown has closed.\<close>

datatype shutdown_phase = NotStopped | DrainWait | ConnsClosed

record serveState =
  ss_listening :: bool
  ss_phase :: shutdown_phase
  ss_handlers :: "string set"
  ss_tracked :: "string set"
  ss_cancelled :: "string set"
  ss_returned :: "bool option"

definition serve_init :: serveState where
  "serve_init = \<lparr>ss_listening = True, ss_phase = NotStopped, ss_handlers = {}, ss_tracked = {}, ss_cancelled = {}, ss_returned = None\<rparr>"

definition Draining :: "serveState \<Rightarrow> bool" where
  "Draining s \<longleftrightarrow> ss_phase s \<noteq> NotStopped"

definition closeAllConns :: "serveState \<Rightarrow> serveState" where
  "closeAllConns s = s\<lparr>ss_cancelled := ss_cancelled s \<union> ss_tracked s\<rparr>"

text \<open>A return value of \<open>Some True\<close> is \<open>nil\<close>, \<open>Some False\<close> an error of \<open>Accept\<close>.\<close>

inductive serve_step :: "serveState \<Rightarrow> serveState \<Rightarrow> bool" where
  accept: "ss_returned s = None \<Longrightarrow> ss_listening s \<Longrightarrow> i \<notin> ss_handlers s \<union> ss_tracked s \<union> ss_cancelled s \<Longrightarrow>
    serve_step s (s\<lparr>ss_handlers := insert i (ss_handlers s)\<rparr>)"
| accept_error: "ss_returned s = None \<Longrightarrow> ss_listening s \<Longrightarrow> serve_step s (s\<lparr>ss_returned := Some False\<rparr>)"
| conn_track: "i \<in> ss_handlers s \<Longrightarrow> serve_step s (s\<lparr>ss_tracked := insert i (ss_tracked s)\<rparr>)"
| conn_done: "i \<in> ss_handlers s \<Longrightarrow> serve_step s (s\<lparr>ss_handlers := ss_handlers s - {i}, ss_tracked := ss_tracked s - {i}\<rparr>)"
| stop: "ss_returned s = None \<Longrightarrow> ss_phase s = NotStopped \<Longrightarrow> serve_step s (s\<lparr>ss_listening := False, ss_phase := DrainWait\<rparr>)"
| drained: "ss_phase s = DrainWait \<Longrightarrow> serve_step s ((closeAllConns s)\<lparr>ss_phase := ConnsClosed\<rparr>)"
| serve_return: "ss_returned s = None \<Longrightarrow> \<not> ss_listening s \<Longrightarrow> ss_handlers s = {} \<Longrightarrow> serve_step s (s\<lparr>ss_returned := Some True\<rparr>)"

end
