(* ===== verification/ServerProps.thy ===== *)
theory ServerProps
  imports Server ChannelProps EnrollProps
begin

text \<open>
  What the server guarantees of a connection: every admission slot is given back however the connection ends, only a
  workspace connection hands a token to a process, and what the shutdown waits for.
\<close>

section \<open>Slots of a connection\<close>

text \<open>From a state without a transport in which the slots \<open>A\<close> are held, the computation returns, holds the slots \<open>B\<close> of its
  value instead, owes nothing else, and leaves no transport behind.\<close>

definition settles :: "(slot \<times> nat) set \<Rightarrow> ('a \<Rightarrow> (slot \<times> nat) set) \<Rightarrow> 'a srvm \<Rightarrow> bool" where
  "settles A B m \<longleftrightarrow> (\<forall>s. slots_ok s \<longrightarrow> A \<subseteq> set (sx_slots s) \<longrightarrow> sx_transport s = None \<longrightarrow>
     (\<exists>a t. m s = (Inr a, t) \<and> slots_ok t \<and> set (sx_slots s) \<union> B a \<subseteq> set (sx_slots t) \<and> owed t \<subseteq> (owed s - A) \<union> B a
        \<and> sx_transport t = None \<and> sx_active t = sx_active s))"

named_theorems settles_intros "rules on the slots a part of a connection holds"

lemma settlesI:
  assumes "\<And>s. slots_ok s \<Longrightarrow> A \<subseteq> set (sx_slots s) \<Longrightarrow> sx_transport s = None \<Longrightarrow>
    \<exists>a t. m s = (Inr a, t) \<and> slots_ok t \<and> set (sx_slots s) \<union> B a \<subseteq> set (sx_slots t) \<and> owed t \<subseteq> (owed s - A) \<union> B a
        \<and> sx_transport t = None \<and> sx_active t = sx_active s"
  shows "settles A B m"
  using assms unfolding settles_def by blast

lemma settlesE:
  assumes "settles A B m" "slots_ok s" "A \<subseteq> set (sx_slots s)" "sx_transport s = None"
  obtains a t where "m s = (Inr a, t)" "slots_ok t" "set (sx_slots s) \<union> B a \<subseteq> set (sx_slots t)" "owed t \<subseteq> (owed s - A) \<union> B a"
    "sx_transport t = None" "sx_active t = sx_active s"
  using assms unfolding settles_def by blast

lemma settles_bnd:
  assumes "settles A B m" "\<And>a. settles (B a) D (f a)" shows "settles A D (bnd m f)"
proof (rule settlesI)
  fix s assume s: "slots_ok s" "A \<subseteq> set (sx_slots s)" "sx_transport s = None"
  obtain a t where t: "m s = (Inr a, t)" "slots_ok t" "set (sx_slots s) \<union> B a \<subseteq> set (sx_slots t)" "owed t \<subseteq> (owed s - A) \<union> B a"
    "sx_transport t = None" "sx_active t = sx_active s" by (rule settlesE [OF assms(1) s])
  have B: "B a \<subseteq> set (sx_slots t)" using t(3) by blast
  obtain b u where u: "f a t = (Inr b, u)" "slots_ok u" "set (sx_slots t) \<union> D b \<subseteq> set (sx_slots u)" "owed u \<subseteq> (owed t - B a) \<union> D b"
    "sx_transport u = None" "sx_active u = sx_active t" by (rule settlesE [OF assms(2) t(2) B t(5)])
  then show "\<exists>b u. bnd m f s = (Inr b, u) \<and> slots_ok u \<and> set (sx_slots s) \<union> D b \<subseteq> set (sx_slots u) \<and> owed u \<subseteq> (owed s - A) \<union> D b
      \<and> sx_transport u = None \<and> sx_active u = sx_active s"
    using t by (intro exI [of _ b] exI [of _ u]) auto
qed

lemma settles_aside:
  assumes "aside m" shows "settles A (\<lambda>_. A) m"
proof (rule settlesI)
  fix s assume s: "slots_ok s" "A \<subseteq> set (sx_slots s)" "sx_transport s = None"
  obtain a t where t: "m s = (Inr a, t)" "sx_slots t = sx_slots s" "sx_counters t = sx_counters s"
    "sx_transport t = sx_transport s" "sx_active t = sx_active s" using assms unfolding aside_def by blast
  then show "\<exists>a t. m s = (Inr a, t) \<and> slots_ok t \<and> set (sx_slots s) \<union> A \<subseteq> set (sx_slots t) \<and> owed t \<subseteq> (owed s - A) \<union> A
      \<and> sx_transport t = None \<and> sx_active t = sx_active s"
    using s by (intro exI [of _ a] exI [of _ t]) (auto simp: slots_ok_def owed_def lease_def)
qed

lemma settles_frame:
  assumes "settles A B m" shows "settles (insert x A) (\<lambda>a. insert x (B a)) m"
proof (rule settlesI)
  fix s assume s: "slots_ok s" "insert x A \<subseteq> set (sx_slots s)" "sx_transport s = None"
  then have A: "A \<subseteq> set (sx_slots s)" by blast
  obtain a t where "m s = (Inr a, t)" "slots_ok t" "set (sx_slots s) \<union> B a \<subseteq> set (sx_slots t)" "owed t \<subseteq> (owed s - A) \<union> B a"
    "sx_transport t = None" "sx_active t = sx_active s" by (rule settlesE [OF assms s(1) A s(3)])
  then show "\<exists>a t. m s = (Inr a, t) \<and> slots_ok t \<and> set (sx_slots s) \<union> insert x (B a) \<subseteq> set (sx_slots t)
      \<and> owed t \<subseteq> (owed s - insert x A) \<union> insert x (B a) \<and> sx_transport t = None \<and> sx_active t = sx_active s"
    using s by (intro exI [of _ a] exI [of _ t]) auto
qed

lemma settles_ret: "B a = A \<Longrightarrow> settles A B (ret a)"
  using settles_aside [OF aside_steps(1), of A a] by (fastforce simp: settles_def)

lemma settles_then: "aside m \<Longrightarrow> (\<And>a. settles A B (f a)) \<Longrightarrow> settles A B (bnd m f)"
  by (rule settles_bnd [OF settles_aside])

lemma settles_release:
  assumes "(sl, k) \<in> A" shows "settles A (\<lambda>_. A - {(sl, k)}) (release X sl k)"
proof (rule settlesI)
  fix s assume s: "slots_ok s" "A \<subseteq> set (sx_slots s)" "sx_transport s = None"
  then have k: "(sl, k) \<in> set (sx_slots s)" using assms by blast
  obtain t where "release X sl k s = (Inr (), t)" "slots_ok t" "sx_slots t = sx_slots s" "owed t \<subseteq> owed s - {(sl, k)}"
    "sx_transport t = sx_transport s" "sx_active t = sx_active s" by (rule release_run [OF s(1) k])
  then show "\<exists>a t. release X sl k s = (Inr a, t) \<and> slots_ok t \<and> set (sx_slots s) \<union> (A - {(sl, k)}) \<subseteq> set (sx_slots t)
      \<and> owed t \<subseteq> (owed s - A) \<union> (A - {(sl, k)}) \<and> sx_transport t = None \<and> sx_active t = sx_active s"
    using s by (intro exI [of _ "()"] exI [of _ t]) auto
qed

lemma settles_acquire:
  "settles A (\<lambda>r. case r of None \<Rightarrow> A | Some k \<Rightarrow> insert (sl, k) A) (acquire X sl)"
proof (rule settlesI)
  fix s assume s: "slots_ok s" "A \<subseteq> set (sx_slots s)" "sx_transport s = None"
  obtain r t where "acquire X sl s = (Inr r, t)" "slots_ok t" "sx_slots t = sx_slots s @ (case r of None \<Rightarrow> [] | Some k \<Rightarrow> [(sl, k)])"
    "owed t \<subseteq> owed s \<union> (case r of None \<Rightarrow> {} | Some k \<Rightarrow> {(sl, k)})" "sx_transport t = sx_transport s" "sx_active t = sx_active s"
    by (rule acquire_run [OF s(1)])
  then show "\<exists>a t. acquire X sl s = (Inr a, t) \<and> slots_ok t \<and> set (sx_slots s) \<union> (case a of None \<Rightarrow> A | Some k \<Rightarrow> insert (sl, k) A) \<subseteq> set (sx_slots t)
      \<and> owed t \<subseteq> (owed s - A) \<union> (case a of None \<Rightarrow> A | Some k \<Rightarrow> insert (sl, k) A) \<and> sx_transport t = None \<and> sx_active t = sx_active s"
    using s by (intro exI [of _ r] exI [of _ t]) (auto split: option.splits)
qed

lemma settles_acquire_case:
  "settles A B m \<Longrightarrow> (\<And>k. settles (insert (sl, k) A) B (f k)) \<Longrightarrow> settles A B (bnd (acquire X sl) (case_option m f))"
  by (rule settles_bnd [OF settles_acquire]) (simp split: option.split)

lemma settles_deferred:
  assumes "settles A B m" "\<And>a. settles (B a) (\<lambda>_. D a) d" shows "settles A D (deferred d m)"
proof (rule settlesI)
  fix s assume s: "slots_ok s" "A \<subseteq> set (sx_slots s)" "sx_transport s = None"
  have "settles A D (bnd m (\<lambda>a. bnd d (\<lambda>_. ret a)))"
    by (rule settles_bnd [OF assms(1)], rule settles_bnd [OF assms(2)]) (rule settles_ret, rule refl)
  moreover have "deferred d m s = bnd m (\<lambda>a. bnd d (\<lambda>_. ret a)) s"
  proof -
    obtain a t where t: "m s = (Inr a, t)" "slots_ok t" "set (sx_slots s) \<union> B a \<subseteq> set (sx_slots t)" "sx_transport t = None"
      by (rule settlesE [OF assms(1) s])
    then have "B a \<subseteq> set (sx_slots t)" by blast
    then obtain b u where "d t = (Inr b, u)" using settlesE [OF assms(2) t(2) _ t(4)] by metis
    with t(1) show ?thesis by (simp add: deferred_def)
  qed
  ultimately show "\<exists>a t. deferred d m s = (Inr a, t) \<and> slots_ok t \<and> set (sx_slots s) \<union> D a \<subseteq> set (sx_slots t) \<and> owed t \<subseteq> (owed s - A) \<union> D a
      \<and> sx_transport t = None \<and> sx_active t = sx_active s"
    using s unfolding settles_def by metis
qed

lemma settles_deferred_aside: "settles A B m \<Longrightarrow> aside d \<Longrightarrow> settles A B (deferred d m)"
  by (erule settles_deferred) (rule settles_aside)

lemma settles_deferred_release:
  "settles A (\<lambda>_. insert (sl, k) D) m \<Longrightarrow> (sl, k) \<notin> D \<Longrightarrow> settles A (\<lambda>_. D) (deferred (release X sl k) m)"
  by (erule settles_deferred) (use settles_release [of sl k "insert (sl, k) D" X] in simp)

section \<open>The parts of a connection\<close>

lemma aside_deferred [aside_intros]:
  assumes "aside d" "aside m" shows "aside (deferred d m)"
proof -
  have "\<exists>a t. deferred d m s = (Inr a, t) \<and> sx_slots t = sx_slots s \<and> sx_counters t = sx_counters s
      \<and> sx_transport t = sx_transport s \<and> sx_active t = sx_active s" for s
  proof -
    obtain a t where t: "m s = (Inr a, t)" "sx_slots t = sx_slots s" "sx_counters t = sx_counters s"
      "sx_transport t = sx_transport s" "sx_active t = sx_active s" using assms(2) unfolding aside_def by blast
    moreover obtain b u where "d t = (Inr b, u)" "sx_slots u = sx_slots t" "sx_counters u = sx_counters t"
      "sx_transport u = sx_transport t" "sx_active u = sx_active t" using assms(1) unfolding aside_def by blast
    ultimately show ?thesis by (simp add: deferred_def)
  qed
  then show ?thesis unfolding aside_def by blast
qed

lemma aside_active [aside_intros]:
  assumes "aside m" shows "aside (while_active m)"
proof -
  have "\<exists>a t. while_active m s = (Inr a, t) \<and> sx_slots t = sx_slots s \<and> sx_counters t = sx_counters s
      \<and> sx_transport t = sx_transport s \<and> sx_active t = sx_active s" for s
  proof -
    define v where "v = s\<lparr>sx_trace := sx_trace s @ [ChannelAccepted], sx_active := sx_active s + 1\<rparr>"
    obtain a t where t: "m v = (Inr a, t)" "sx_slots t = sx_slots v" "sx_counters t = sx_counters v"
      "sx_transport t = sx_transport v" "sx_active t = sx_active v" using assms unfolding aside_def by blast
    then show ?thesis by (simp add: while_active_def emit_def add_active_def deferred_def bnd_def v_def)
  qed
  then show ?thesis unfolding aside_def by blast
qed

lemma aside_conn_steps [aside_intros]:
  "aside (track i)" "aside (untrack i)" "aside (NewServerConn K input)" "aside (auditHandshakeFailure K)" "aside (limit_closed reason)"
  "aside (run_console K p pty acct)" "aside (pre_auth_gate K ip)" "aside (on_gateway (on_conn h))"
proof -
  show "aside (track i)" "aside (untrack i)" "aside (run_console K p pty acct)"
    by (simp_all add: aside_def track_def untrack_def run_console_def Let_def)
  show "aside (on_gateway (on_conn h))" by (intro aside_gateway gateway_returns)
  show "aside (NewServerConn K input)" unfolding NewServerConn_def by (intro aside_gateway) simp
  show "aside (auditHandshakeFailure K)" unfolding auditHandshakeFailure_def audit_record_def modify_gw_def by (intro aside_gateway) simp
  show "aside (limit_closed reason)" unfolding limit_closed_def by (intro aside_intros)
  show "aside (pre_auth_gate K ip)" unfolding pre_auth_gate_def by (intro aside_intros) simp
qed

lemma aside_option [aside_intros]:
  "aside m \<Longrightarrow> (\<And>a. aside (f a)) \<Longrightarrow> aside (case x of None \<Rightarrow> m | Some a \<Rightarrow> f a)"
  by (simp split: option.split)

lemma aside_prod [aside_intros]: "(\<And>a b. aside (f a b)) \<Longrightarrow> aside (case x of (a, b) \<Rightarrow> f a b)"
  by (simp split: prod.split)

lemma key_session_aside: "aside (key_session K p pty started reqs)"
proof (induction reqs arbitrary: pty started)
  case Nil
  show ?case unfolding key_session.simps by (rule aside_steps)
next
  case (Cons req reqs)
  have "aside (runKeyManagementUI K p b)" for b unfolding runKeyManagementUI_def by (intro aside_intros)
  then show ?case unfolding key_session.simps by (intro aside_intros Cons.IH)
qed

lemma key_events_aside: "aside (key_events K p served evs)"
proof (induction evs arbitrary: served)
  case Nil
  show ?case unfolding key_events.simps by (rule aside_steps)
next
  case (Cons ev evs)
  have "aside (serveKeyManagementSession K p ch)" for ch
    unfolding serveKeyManagementSession_def by (intro aside_intros key_session_aside)
  then have chan: "aside (key_events K p served (OpenChannel ch # evs))" for ch
    unfolding key_events.simps rejectKeyManagementChannel_def by (intro aside_intros Cons.IH)
  have "aside (key_events K p served (GlobalRequest req # evs))" for req
    unfolding key_events.simps handleKeyManagementGlobalRequest_def by (rule aside_bnd [OF aside_rejections(11) Cons.IH])
  with chan show ?case by (cases ev) simp_all
qed

lemma aside_dispatches [aside_intros]:
  "aside (dispatchKeyManagement K p)" "aside (enrollmentGoodbye chs)" "aside (rejectChannelAll chs)"
proof -
  show "aside (dispatchKeyManagement K p)" unfolding dispatchKeyManagement_def by (intro aside_intros key_events_aside)
  show "aside (enrollmentGoodbye chs)" by (induction chs) (unfold enrollmentGoodbye.simps, (intro aside_intros; assumption)+)
  show "aside (rejectChannelAll chs)" by (induction chs) (unfold rejectChannelAll.simps, (intro aside_intros; assumption)+)
qed

text \<open>A workspace connection: the handlers pay for what they take, and closing gives back the slot of the transport. A
  global request handled after that must not be a forward request, which would start a new transport.\<close>

lemma global_request_pays: "pays {} (handleGlobalRequest X C wc answer req)"
  unfolding handleGlobalRequest_def relayForwardRequest_def
  by (intro pays_if pays_then pays_bnd [OF transport_pays] pays_case_sum pays_aside aside_intros)

lemma late_request_aside:
  assumes "rq_Type req \<noteq> ''tcpip-forward''" shows "aside (handleGlobalRequest X C wc answer req)"
  using assms unfolding handleGlobalRequest_def relayForwardRequest_def by (simp; intro impI conjI aside_intros)

lemma workspace_events_pay: "pays {} (workspace_events K wc evs)"
proof (induction evs)
  case Nil
  show ?case unfolding workspace_events.simps by (rule pays_aside [OF aside_steps(1)])
next
  case (Cons ev evs)
  show ?case unfolding workspace_events.simps
    by (rule pays_bnd [OF _ Cons.IH]) (cases ev; simp add: channel_pays global_request_pays)
qed

lemma late_events_aside:
  "list_all (\<lambda>req. rq_Type req \<noteq> ''tcpip-forward'') reqs \<Longrightarrow> aside (workspace_events K wc (map GlobalRequest reqs))"
proof (induction reqs)
  case Nil
  show ?case unfolding list.map workspace_events.simps by (rule aside_steps)
next
  case (Cons req reqs)
  then show ?case unfolding list.map workspace_events.simps conn_event.case by (intro aside_bnd late_request_aside) simp_all
qed

lemma settles_closing:
  assumes "pays {} m" shows "settles A (\<lambda>_. A) (deferred (wc_close X) (m :: unit srvm))"
proof (rule settlesI)
  fix s assume s: "slots_ok s" "A \<subseteq> set (sx_slots s)" "sx_transport s = None"
  obtain a t where t: "m s = (Inr a, t)" "slots_ok t" "set (sx_slots s) \<subseteq> set (sx_slots t)" "owed t \<subseteq> (owed s - {}) \<union> lease t"
    "sx_active t = sx_active s" by (rule paysE [OF assms s(1) empty_subsetI])
  show "\<exists>a u. deferred (wc_close X) m s = (Inr a, u) \<and> slots_ok u \<and> set (sx_slots s) \<union> A \<subseteq> set (sx_slots u) \<and> owed u \<subseteq> (owed s - A) \<union> A
      \<and> sx_transport u = None \<and> sx_active u = sx_active s"
  proof (cases "sx_transport t")
    case None
    then show ?thesis using t s by (auto simp: deferred_def wc_close_def lease_def)
  next
    case (Some k)
    define v where "v = t\<lparr>sx_transport := None, sx_trace := sx_trace t @ [CloseTransport]\<rparr>"
    have v: "slots_ok v" "(SlotProcess, k) \<in> set (sx_slots v)" "owed v \<subseteq> owed s \<union> {(SlotProcess, k)}"
      using t(2,4) Some by (auto simp: v_def slots_ok_def lease_def owed_def)
    obtain u where u: "release X SlotProcess k v = (Inr (), u)" "slots_ok u" "sx_slots u = sx_slots v" "owed u \<subseteq> owed v - {(SlotProcess, k)}"
      "sx_transport u = sx_transport v" "sx_active u = sx_active v" by (rule release_run [OF v(1,2)])
    have "deferred (wc_close X) m s = (Inr a, u)"
      using u(1) t(1) Some by (simp add: deferred_def wc_close_def bnd_def emit_def v_def)
    then show ?thesis using u t s v(3) by (intro exI [of _ a] exI [of _ u]) (auto simp: v_def)
  qed
qed

definition no_late_forward :: "connEnv \<Rightarrow> bool" where
  "no_late_forward K \<longleftrightarrow> list_all (\<lambda>req. rq_Type req \<noteq> ''tcpip-forward'') (cl_late (ce_client K))"

lemma dispatch_mode_settles: "no_late_forward K \<Longrightarrow> settles A (\<lambda>_. A) (dispatch_mode K p user)"
  unfolding dispatch_mode_def serve_workspace_def no_late_forward_def
  by (auto intro!: settles_aside aside_dispatches settles_bnd [OF settles_closing [OF workspace_events_pay]] late_events_aside)

lemma serve_authenticated_settles:
  assumes "no_late_forward K" shows "settles {} (\<lambda>_. {}) (serve_authenticated K granted user)"
proof (cases "ParseFinalPermissions (env_lib (wo_env (su_world (ce_X K)))) granted")
  case (Inl e)
  then show ?thesis unfolding serve_authenticated_def sum.case by (simp only: sum.case) (rule settles_aside [OF aside_steps(1)])
next
  case (Inr p)
  have run: "settles {(SlotAccountConn a, k), (SlotKeyConn b, j)} (\<lambda>_. {(SlotKeyConn b, j)})
      (deferred (release (ce_X K) (SlotAccountConn a) k) (bnd (dispatch_mode K p user) (\<lambda>_. ret ResultSuccess)))" for a b j k
    by (rule settles_deferred_release)
      (use settles_bnd [OF dispatch_mode_settles [OF assms] settles_aside [OF aside_steps(1)]] in simp_all)
  have lim: "settles A (\<lambda>_. A) (bnd (emit e) (\<lambda>_. ret x))" for A e and x :: string by (intro settles_aside aside_intros)
  have "settles {(SlotKeyConn b, j)} (\<lambda>_. {}) (deferred (release (ce_X K) (SlotKeyConn b) j) (
      bnd (acquire (ce_X K) (SlotAccountConn a)) (\<lambda>r. case r of None \<Rightarrow> bnd (emit (LimitRejection ReasonAccountConn)) (\<lambda>_. ret ResultRejected)
        | Some k \<Rightarrow> deferred (release (ce_X K) (SlotAccountConn a) k) (bnd (dispatch_mode K p user) (\<lambda>_. ret ResultSuccess)))))" for a b j
    by (rule settles_deferred_release) (intro settles_acquire_case lim run, simp)
  then show ?thesis unfolding serve_authenticated_def Inr sum.case by (intro settles_acquire_case lim)
qed

text \<open>The two slots that are given back in the middle: the flags of the value tell whether they still have to be.\<close>

definition still_held :: "nat \<Rightarrow> nat \<Rightarrow> string \<times> bool \<times> bool \<Rightarrow> (slot \<times> nat) set" where
  "still_held g h = (\<lambda>(res, gh, hh). (if gh then {(SlotGlobal, g)} else {}) \<union> (if hh then {(SlotHandshake, h)} else {}))"

abbreviation both :: "nat \<Rightarrow> nat \<Rightarrow> (slot \<times> nat) set" where
  "both g h \<equiv> {(SlotGlobal, g), (SlotHandshake, h)}"

lemma settles_failure: "settles (both g h) (still_held g h) (ret (res, True, True))"
  by (rule settles_ret) (auto simp: still_held_def)

lemma after_handshake_settles:
  assumes "no_late_forward K" shows "settles (both g h) (still_held g h) (after_handshake K raw g h granted user)"
proof -
  have g: "settles {(SlotGlobal, g)} (\<lambda>_. {}) (release (ce_X K) SlotGlobal g)"
    using settles_release [of SlotGlobal g "{(SlotGlobal, g)}" "ce_X K"] by simp
  have h: "settles (both g h) (\<lambda>_. {(SlotGlobal, g)}) (release (ce_X K) SlotHandshake h)"
    using settles_release [of SlotHandshake h "both g h" "ce_X K"] by (simp add: insert_Diff_if)
  have r: "settles {} (still_held g h) (ret (res, False, False))" for res by (rule settles_ret) (simp add: still_held_def)
  have run: "settles (both g h) (still_held g h) (bnd (release (ce_X K) SlotHandshake h) (\<lambda>_. bnd (release (ce_X K) SlotGlobal g) (\<lambda>_.
      bnd (serve_authenticated K granted user) (\<lambda>res. ret (res, False, False)))))"
    by (intro settles_bnd [OF h] settles_bnd [OF g] settles_bnd [OF serve_authenticated_settles [OF assms]] r)
  show ?thesis unfolding after_handshake_def
    by (rule settles_deferred_aside [OF _ aside_steps(3)]) (use run settles_failure in simp)
qed

lemma handshake_phase_settles:
  assumes "no_late_forward K" shows "settles (both g h) (still_held g h) (handshake_phase K raw g h input)"
proof -
  have f: "settles (both g h) (still_held g h) (case r of
        Inl _ \<Rightarrow> bnd (emit (AuthDuration False)) (\<lambda>_. bnd (auditHandshakeFailure K) (\<lambda>_. ret (ResultFailure, True, True)))
      | Inr (granted, user) \<Rightarrow> bnd (emit (AuthDuration True)) (\<lambda>_. after_handshake K raw g h granted user))" for r
    by (cases r) (auto intro!: settles_then aside_intros settles_failure after_handshake_settles assms)
  show ?thesis unfolding handshake_phase_def
    by (cases "raw_setDeadlineErr raw") (auto intro!: settles_failure settles_then aside_intros f)
qed

lemma after_slots_settles:
  assumes "no_late_forward K" shows "settles (both g h) (still_held g h) (after_slots K raw g h)"
proof -
  have "settles (both g h) (still_held g h) (connected K raw g h peer input)" for peer input
    unfolding connected_def Let_def
    by (intro settles_then settles_deferred_aside handshake_phase_settles assms aside_intros gateway_returns)
  then show ?thesis unfolding after_slots_def
    by (auto split: prod.split sum.split intro!: settles_then aside_intros settles_failure)
qed

lemma with_handshake_slot_settles:
  assumes "no_late_forward K"
  shows "settles {(SlotGlobal, g)} (\<lambda>(res, gh). if gh then {(SlotGlobal, g)} else {}) (with_handshake_slot K raw g)"
proof -
  let ?D = "\<lambda>(res :: string, gh). if gh then {(SlotGlobal, g)} else {}"
  have fin: "settles (still_held g h a) ?D (case a of (res, gh, hh) \<Rightarrow>
      bnd (if hh then release (ce_X K) SlotHandshake h else ret ()) (\<lambda>_. ret (res, gh)))" for a h
  proof -
    obtain res gh hh where a: "a = (res, gh, hh)" by (cases a) auto
    have "settles (still_held g h a) (\<lambda>_. ?D (res, gh)) (if hh then release (ce_X K) SlotHandshake h else ret ())"
      using settles_release [of SlotHandshake h "still_held g h a" "ce_X K"] settles_aside [OF aside_steps(1), of "still_held g h a" "()"]
      by (cases gh; cases hh) (auto simp: a still_held_def insert_Diff_if)
    then have "settles (still_held g h a) ?D (bnd (if hh then release (ce_X K) SlotHandshake h else ret ()) (\<lambda>_. ret (res, gh)))"
      by (rule settles_bnd) (rule settles_ret, simp)
    then show ?thesis by (simp only: a prod.case)
  qed
  have "settles {(SlotGlobal, g)} ?D (bnd (limit_closed ReasonHandshake) (\<lambda>_. ret (ResultRejected, True)))"
    by (intro settles_then aside_intros settles_ret) simp
  moreover have "settles (insert (SlotHandshake, h) {(SlotGlobal, g)}) ?D (bnd (after_slots K raw g h) (\<lambda>(res, gh, hh).
      bnd (if hh then release (ce_X K) SlotHandshake h else ret ()) (\<lambda>_. ret (res, gh))))" for h
    using settles_bnd [OF after_slots_settles [OF assms] fin] by (simp add: insert_commute)
  ultimately show ?thesis unfolding with_handshake_slot_def by (rule settles_acquire_case)
qed

lemma with_global_slot_settles:
  assumes "no_late_forward K" shows "settles {} (\<lambda>_. {}) (with_global_slot K raw ip)"
proof -
  let ?D = "\<lambda>g (res :: string, gh). if gh then {(SlotGlobal, g)} else {}"
  have ip: "settles {(SlotGlobal, g)} (?D g) (with_ip_slot K raw ip g)" for g
  proof -
    have "settles {(SlotGlobal, g)} (?D g) (bnd (limit_closed ReasonIPConn) (\<lambda>_. ret (ResultRejected, True)))"
      by (intro settles_then aside_intros settles_ret) simp
    moreover have "settles {(SlotIP ip, i), (SlotGlobal, g)} (?D g) (deferred (release (ce_X K) (SlotIP ip) i) (with_handshake_slot K raw g))" for i
    proof (rule settles_deferred)
      show "settles {(SlotIP ip, i), (SlotGlobal, g)} (\<lambda>a. insert (SlotIP ip, i) (?D g a)) (with_handshake_slot K raw g)"
        by (rule settles_frame [OF with_handshake_slot_settles [OF assms]])
      show "settles (insert (SlotIP ip, i) (?D g a)) (\<lambda>_. ?D g a) (release (ce_X K) (SlotIP ip) i)" for a
        using settles_release [of "SlotIP ip" i "insert (SlotIP ip, i) (?D g a)" "ce_X K"] by (cases a) (auto simp: insert_Diff_if split: if_splits)
    qed
    ultimately show ?thesis unfolding with_ip_slot_def by (rule settles_acquire_case)
  qed
  have fin: "settles (?D g a) (\<lambda>_. {}) (case a of (res, gh) \<Rightarrow> bnd (if gh then release (ce_X K) SlotGlobal g else ret ()) (\<lambda>_. ret res))" for g a
  proof -
    obtain res gh where a: "a = (res, gh)" by (cases a) auto
    have "settles (?D g a) (\<lambda>_. {}) (if gh then release (ce_X K) SlotGlobal g else ret ())"
      using settles_release [of SlotGlobal g "{(SlotGlobal, g)}" "ce_X K"] settles_aside [OF aside_steps(1), of "{}" "()"] by (simp add: a)
    then have "settles (?D g a) (\<lambda>_. {}) (bnd (if gh then release (ce_X K) SlotGlobal g else ret ()) (\<lambda>_. ret res))"
      by (rule settles_bnd) (rule settles_ret, simp)
    then show ?thesis by (simp only: a prod.case)
  qed
  have "settles {} (\<lambda>_. {}) (bnd (limit_closed ReasonGlobalConn) (\<lambda>_. ret ResultRejected))" by (intro settles_aside aside_intros)
  then show ?thesis unfolding with_global_slot_def by (rule settles_acquire_case) (rule settles_bnd [OF ip fin])
qed

lemma handleConn_settles:
  assumes "no_late_forward K" shows "settles {} (\<lambda>_. {}) (handleConn K raw)"
proof -
  have admitted: "settles {} (\<lambda>_. {}) (bnd (emit ConnectionOpened) (\<lambda>_. bnd (with_global_slot K raw ip) (\<lambda>res. emit (ConnectionClosed res))))" for ip
    by (rule settles_then [OF aside_steps(3) settles_bnd [OF with_global_slot_settles [OF assms] settles_aside [OF aside_steps(3)]]])
  have refused: "settles {} (\<lambda>_. {}) (bnd (emit (LimitRejection ReasonPreAuthIP)) (\<lambda>_. bnd (emit ConnectionOpened) (\<lambda>_.
      bnd (emit (ConnectionClosed ResultRejected)) (\<lambda>_. emit CloseRaw))))" by (intro settles_aside aside_intros)
  have "settles {} (\<lambda>_. {}) (emit CloseRaw)" by (intro settles_aside aside_intros)
  with admitted refused show ?thesis unfolding handleConn_def Let_def
    by (intro settles_then [OF aside_conn_steps(7)]) (simp split: option.split bool.split)
qed

section \<open>Which connections hand out tokens\<close>

text \<open>How the permissions of a connection can come about: from the verified-key callback, or from a continuation that the
  callback started.\<close>

datatype grant = ByLogin | ByRenewal | ByEnrollment

inductive granted :: "world \<Rightarrow> AuthConfig \<Rightarrow> grant \<Rightarrow> permissions \<Rightarrow> bool" for W c where
  login: "verifiedPublicKeyCallback W c key cand sigAlg w = (Inr perms, w') \<Longrightarrow> granted W c ByLogin perms"
| renewal_password: "verifiedPublicKeyCallback W c key cand sigAlg w = (Inl (PartialSuccess (NextRenewal s)), w1) \<Longrightarrow>
    renewal_password W s raw w2 = (Inr perms, w3) \<Longrightarrow> granted W c ByRenewal perms"
| renewal_answers: "verifiedPublicKeyCallback W c key cand sigAlg w = (Inl (PartialSuccess (NextRenewal s)), w1) \<Longrightarrow>
    renewal_keyboardInteractive W s answers w2 = (Inr perms, w3) \<Longrightarrow> granted W c ByRenewal perms"
| enrollment_password: "verifiedPublicKeyCallback W c key cand sigAlg w = (Inl (PartialSuccess (NextEnrollment e)), w1) \<Longrightarrow>
    enrollment_password W e raw w2 = (Inr perms, w3) \<Longrightarrow> granted W c ByEnrollment perms"
| enrollment_answers: "verifiedPublicKeyCallback W c key cand sigAlg w = (Inl (PartialSuccess (NextEnrollment e)), w1) \<Longrightarrow>
    enrollment_keyboardInteractive W e answers w2 = (Inr perms, w3) \<Longrightarrow> granted W c ByEnrollment perms"

text \<open>The handshake of the SSH library completes only with permissions that one of the callbacks returned.\<close>

definition honest_handshake :: "connEnv \<Rightarrow> bool" where
  "honest_handshake K \<longleftrightarrow> (\<forall>input w perms user w'. cl_handshake (ce_client K) input w = (Inr (perms, user), w') \<longrightarrow>
     (\<exists>how. granted (su_world (ce_X K)) (cfg_Auth (ce_cfg K)) how perms))"

lemma granted_shape:
  assumes "granted W c how perms" "uuid_lawful (env_lib (wo_env W))"
  shows "\<exists>mode a d k g. perms = finalWorkspacePermissions (env_lib (wo_env W)) mode a d k g (how = ByEnrollment)"
  using assms(1)
proof cases
  case login
  from verified_Inr [OF login(2)] show ?thesis
    using login(1) by (auto simp: FinalKeyManagementPermissions_def FinalWorkspacePermissions_def split: if_splits) blast+
next
  case (renewal_password key cand sigAlg w s w1 raw w2 w3)
  then have "validateAndStoreReplacement W (rs_rc s) (rs_account s) (rs_keyRecord s) (rs_expectedGeneration s) raw (snd (IncrementRenewalAttempts w2)) = (Inr perms, w3)"
    by (auto simp: renewal_password_def renewal_attempt_eq auditRenewal_def bnd_audit bnd_increment split: if_splits)
  from validateAndStore_Inr [OF this] show ?thesis using renewal_password(1) by (auto simp: FinalWorkspacePermissions_def) blast
next
  case renewal_answers
  from renewal_loop_Inr [OF renewal_answers(3)] show ?thesis using renewal_answers(1) by (auto simp: FinalWorkspacePermissions_def) blast
next
  case (enrollment_password key cand sigAlg w e w1 raw w2 w3)
  then obtain t where "validateAndLink W (es_ec e) (es_key e) (es_digest e) raw (snd (IncrementRenewalAttempts t)) = (Inr perms, w3)"
    by (auto simp: enrollment_password_def bnd_Inr_iff [of "PreTokenGate W (es_ec e)"] enrollment_attempt_eq bnd_increment split: if_splits)
  from validateAndLink_Inr [OF assms(2) this] show ?thesis
    using enrollment_password(1) by (auto simp: enrolled_by_def FinalEnrollmentPermissions_def) blast+
next
  case enrollment_answers
  from enrollment_loop_Inr [OF assms(2) enrollment_answers(3)] show ?thesis
    using enrollment_answers(1) by (auto simp: enrolled_by_def FinalEnrollmentPermissions_def) blast+
qed

lemma parse_final_flag:
  assumes "uuid_lawful L" "ParseFinalPermissions L (finalWorkspacePermissions L mode a d k g b) = Inr p"
  shows "p = \<lparr>fp_Mode = mode, fp_AccountID = a, fp_DeploymentID = d, fp_SSHKeyID = k, fp_CredentialGeneration = g, fp_MustReconnect = b\<rparr>"
  using assms
  by (auto simp: ParseFinalPermissions_def finalWorkspacePermissions_def ext_def perm_keys parse_id_String parse_generation_Format
      parse_reconnect_Format split: if_splits)

text \<open>An effect that hands out a token is entitled to it when the connection was granted workspace permissions by a login or
  a renewal, and a handler of channel admission justifies it for the account of these permissions.\<close>

definition entitled :: "connEnv \<Rightarrow> effect \<Rightarrow> bool" where
  "entitled K e \<longleftrightarrow> hands e \<longrightarrow> (\<exists>how a d k g user ch w. how \<in> {ByLogin, ByRenewal}
     \<and> granted (su_world (ce_X K)) (cfg_Auth (ce_cfg K)) how (FinalWorkspacePermissions (env_lib (wo_env (su_world (ce_X K)))) a d k g)
     \<and> justified (ce_X K) (ce_srv K) \<lparr>wc_perms = \<lparr>fp_Mode = ModeWorkspace, fp_AccountID = a, fp_DeploymentID = d, fp_SSHKeyID = k,
         fp_CredentialGeneration = g, fp_MustReconnect = False\<rparr>, wc_target = user\<rparr> ch w e)"

interpretation conn: quiet_effects "entitled K" for K
  by unfold_locales (simp add: entitled_def)

lemma says_all: "(\<And>g. says (\<lambda>h. h = g) (Q g) m) \<Longrightarrow> always (\<lambda>e. \<exists>g. Q g e) m"
  unfolding says_def by metis

lemma global_request_says: "says (\<lambda>h. h = g) (justified X C wc ch g) (handleGlobalRequest X C wc answer req)"
proof -
  note quiet = says_weaken [OF just.rejections(9)]
  have relay: "always (justified X C wc ch g) (bnd (emit (RelayRequest u)) (\<lambda>_. reply req b))" for u b
    by (intro says_intros just.rejections) simp
  have "says (\<lambda>h. h = g) (justified X C wc ch g) (relayForwardRequest X C wc answer req)"
  proof (cases "sc_WorkspaceTransports C \<and> \<not> sc_draining C \<and> \<not> fp_MustReconnect (wc_perms wc)")
    case False
    then show ?thesis unfolding relayForwardRequest_def by (auto intro!: quiet)
  next
    case True
    have start: "says (\<lambda>h. h = g) (justified X C wc ch g) (bnd (transport X C wc) (\<lambda>r. case r of Inl _ \<Rightarrow> reply req False
        | Inr _ \<Rightarrow> bnd (emit (RelayRequest (rq_Type req))) (\<lambda>_. reply req (answer req))))"
      using True by (intro says_seq [OF transport_says, where R = "\<lambda>_. True"] says_cases relay just.rejections) simp_all
    show ?thesis unfolding relayForwardRequest_def using True
      by (auto intro!: says_bnd [OF says_silent(2) keeps_gw_steps(5)] says_cases start quiet says_weaken [OF relay])
  qed
  then show ?thesis unfolding handleGlobalRequest_def by (intro says_cases quiet)
qed

lemma workspace_events_say:
  "always (\<lambda>e. \<exists>ch g. justified (ce_X K) (ce_srv K) wc ch g e) (workspace_events K wc evs)"
proof (induction evs)
  case Nil
  show ?case unfolding workspace_events.simps by (rule says_silent(1))
next
  case (Cons ev evs)
  have "always (\<lambda>e. \<exists>g. justified (ce_X K) (ce_srv K) wc ch g e) (handle_channel (ce_X K) (ce_srv K) wc ch)" for ch
    by (rule says_all) (rule channel_says)
  then have c: "always (\<lambda>e. \<exists>ch g. justified (ce_X K) (ce_srv K) wc ch g e) (handle_channel (ce_X K) (ce_srv K) wc ch)" for ch
    by (rule says_mono) blast
  have "always (\<lambda>e. \<exists>g. justified (ce_X K) (ce_srv K) wc undefined g e) (handleGlobalRequest (ce_X K) (ce_srv K) wc answer req)" for answer req
    by (rule says_all) (rule global_request_says)
  then have "always (\<lambda>e. \<exists>ch g. justified (ce_X K) (ce_srv K) wc ch g e) (handleGlobalRequest (ce_X K) (ce_srv K) wc answer req)" for answer req
    by (rule says_mono) blast
  with c Cons show ?case unfolding workspace_events.simps by (cases ev) (auto intro!: always_bnd)
qed

lemma says_conn_silent [says_intros]:
  "says P Q (track i)" "says P Q (untrack i)" "says P Q (run_console K p pty acct)" "says P Q (NewServerConn K input)"
  "says P Q (auditHandshakeFailure K)"
  by (auto simp: says_def track_def untrack_def run_console_def Let_def NewServerConn_def auditHandshakeFailure_def on_gateway_def split: prod.splits)

lemma conn_quiet [says_intros]: "\<not> hands e \<Longrightarrow> says P (entitled K) (emit e)"
  by (intro says_emit conn.quiet)

lemma says_gate [says_intros]: "always Q (pre_auth_gate K ip)"
  unfolding pre_auth_gate_def by (intro says_intros)

lemma key_session_quiet: "always (entitled J) (key_session K p pty started reqs)"
proof (induction reqs arbitrary: pty started)
  case Nil
  show ?case unfolding key_session.simps by (rule says_silent)
next
  case (Cons req reqs)
  have "always (entitled J) (runKeyManagementUI K p b)" for b
    unfolding runKeyManagementUI_def by (auto intro!: says_intros split: option.split)
  then show ?case unfolding key_session.simps by (auto intro!: says_intros conn.rejections Cons.IH split: sum.split)
qed

lemma key_events_quiet: "always (entitled J) (key_events K p served evs)"
proof (induction evs arbitrary: served)
  case Nil
  show ?case unfolding key_events.simps by (rule says_silent)
next
  case (Cons ev evs)
  have s: "always (entitled J) (serveKeyManagementSession K p ch)" for ch
    unfolding serveKeyManagementSession_def by (intro says_intros conn.active key_session_quiet) simp_all
  show ?case
    by (cases ev) (auto intro!: always_bnd s conn.rejections Cons.IH simp: rejectKeyManagementChannel_def handleKeyManagementGlobalRequest_def)
qed

lemma dispatch_quiet:
  "always (entitled J) (dispatchKeyManagement K p)" "always (entitled J) (enrollmentGoodbye chs)" "always (entitled J) (rejectChannelAll chs)"
proof -
  show "always (entitled J) (dispatchKeyManagement K p)" unfolding dispatchKeyManagement_def by (intro says_intros key_events_quiet)
  show "always (entitled J) (enrollmentGoodbye chs)" by (induction chs) (unfold enrollmentGoodbye.simps, (intro says_intros; simp)+)
  show "always (entitled J) (rejectChannelAll chs)" by (induction chs) (unfold rejectChannelAll.simps, (intro says_intros; simp)+)
qed

lemma dispatch_mode_says:
  assumes "fp_Mode p = ModeWorkspace \<Longrightarrow> \<not> fp_MustReconnect p \<Longrightarrow>
    \<exists>how a d k g. how \<in> {ByLogin, ByRenewal} \<and> granted (su_world (ce_X K)) (cfg_Auth (ce_cfg K)) how
        (FinalWorkspacePermissions (env_lib (wo_env (su_world (ce_X K)))) a d k g)
      \<and> p = \<lparr>fp_Mode = ModeWorkspace, fp_AccountID = a, fp_DeploymentID = d, fp_SSHKeyID = k, fp_CredentialGeneration = g, fp_MustReconnect = False\<rparr>"
  shows "always (entitled K) (dispatch_mode K p user)"
proof (cases "fp_Mode p = ModeWorkspace \<and> \<not> fp_MustReconnect p")
  case True
  let ?wc = "\<lparr>wc_perms = p, wc_target = user\<rparr>"
  have e: "entitled K e" if "\<exists>ch g. justified (ce_X K) (ce_srv K) ?wc ch g e" for e
    using assms True that unfolding entitled_def by blast
  have w: "always (entitled K) (workspace_events K ?wc evs)" for evs by (rule says_mono [OF workspace_events_say e])
  have "always (entitled K) (wc_close (ce_X K))"
    unfolding wc_close_def by (auto simp: says_def bnd_def emit_def release_def counter_call_def entitled_def split: option.split prod.split)
  then have "always (entitled K) (serve_workspace K ?wc)" unfolding serve_workspace_def by (intro says_intros w)
  with True show ?thesis by (simp add: dispatch_mode_def)
qed (auto simp: dispatch_mode_def intro: dispatch_quiet)

lemma serve_authenticated_says:
  assumes "uuid_lawful (env_lib (wo_env (su_world (ce_X K))))" "granted (su_world (ce_X K)) (cfg_Auth (ce_cfg K)) how perms"
  shows "always (entitled K) (serve_authenticated K perms user)"
proof (cases "ParseFinalPermissions (env_lib (wo_env (su_world (ce_X K)))) perms")
  case (Inl e)
  then show ?thesis unfolding serve_authenticated_def by (simp only: sum.case) (rule says_silent)
next
  case (Inr p)
  obtain mode a d k g where sh: "perms = finalWorkspacePermissions (env_lib (wo_env (su_world (ce_X K)))) mode a d k g (how = ByEnrollment)"
    using granted_shape [OF assms(2,1)] by blast
  from parse_final_flag [OF assms(1) Inr [unfolded sh]]
  have p: "p = \<lparr>fp_Mode = mode, fp_AccountID = a, fp_DeploymentID = d, fp_SSHKeyID = k, fp_CredentialGeneration = g, fp_MustReconnect = (how = ByEnrollment)\<rparr>" .
  have "always (entitled K) (dispatch_mode K p user)"
  proof (rule dispatch_mode_says)
    assume "fp_Mode p = ModeWorkspace" "\<not> fp_MustReconnect p"
    then have "how \<in> {ByLogin, ByRenewal}" "mode = ModeWorkspace" "how \<noteq> ByEnrollment" using p by (cases how; simp)+
    with p sh assms(2) show "\<exists>how a d k g. how \<in> {ByLogin, ByRenewal} \<and> granted (su_world (ce_X K)) (cfg_Auth (ce_cfg K)) how
        (FinalWorkspacePermissions (env_lib (wo_env (su_world (ce_X K)))) a d k g)
      \<and> p = \<lparr>fp_Mode = ModeWorkspace, fp_AccountID = a, fp_DeploymentID = d, fp_SSHKeyID = k, fp_CredentialGeneration = g, fp_MustReconnect = False\<rparr>"
      unfolding FinalWorkspacePermissions_def by (intro exI [of _ how] exI [of _ a] exI [of _ d] exI [of _ k] exI [of _ g]) simp
  qed
  then show ?thesis unfolding serve_authenticated_def Inr sum.case by (intro says_intros) simp_all
qed

text \<open>A rule that remembers where a value comes from.\<close>

lemma always_bnd_from:
  assumes "always Q m" "\<And>a s t. m s = (Inr a, t) \<Longrightarrow> always Q (f a)" shows "always Q (bnd m f)"
  unfolding says_def
proof (intro allI impI)
  fix s
  obtain es where es: "sx_trace (snd (m s)) = sx_trace s @ es" "\<forall>e\<in>set es. Q e" using assms(1) unfolding says_def by blast
  show "\<exists>es. sx_trace (snd (bnd m f s)) = sx_trace s @ es \<and> (\<forall>e\<in>set es. Q e)"
  proof (cases "m s" rule: prod.exhaust)
    case (Pair r t)
    show ?thesis
    proof (cases r)
      case (Inr a)
      obtain fs where "sx_trace (snd (f a t)) = sx_trace t @ fs" "\<forall>e\<in>set fs. Q e"
        using assms(2) [of s a t] Pair Inr unfolding says_def by blast
      with es Pair Inr show ?thesis by (intro exI [of _ "es @ fs"]) auto
    qed (use es Pair in \<open>simp add: bnd_def\<close>)
  qed
qed

lemma handshake_phase_says:
  assumes "uuid_lawful (env_lib (wo_env (su_world (ce_X K))))" "honest_handshake K"
  shows "always (entitled K) (handshake_phase K raw g h input)"
proof -
  have "always (entitled K) (after_handshake K raw g h perms user)" if "\<exists>how. granted (su_world (ce_X K)) (cfg_Auth (ce_cfg K)) how perms" for perms user
    using that serve_authenticated_says [OF assms(1)] unfolding after_handshake_def by (auto intro!: says_intros)
  moreover have "\<exists>how. granted (su_world (ce_X K)) (cfg_Auth (ce_cfg K)) how perms"
    if "NewServerConn K input s = (Inr (Inr (perms, user)), t)" for s t perms user
    using that assms(2) unfolding honest_handshake_def NewServerConn_def on_gateway_def by (auto simp: prod_eq_iff split: prod.splits) (metis prod.collapse)
  ultimately show ?thesis unfolding handshake_phase_def
    by (auto intro!: says_cases(1) says_silent always_bnd_from says_conn_silent conn_quiet split: sum.split)
qed

lemma handleConn_says:
  assumes "uuid_lawful (env_lib (wo_env (su_world (ce_X K))))" "honest_handshake K"
  shows "always (entitled K) (handleConn K raw)"
proof -
  have lim: "always (entitled K) (limit_closed reason)" for reason unfolding limit_closed_def by (intro says_intros) simp_all
  have "always (entitled K) (connected K raw g h peer input)" for g h peer input
    unfolding connected_def Let_def by (intro says_intros handshake_phase_says assms conn.rejections)
  then have "always (entitled K) (after_slots K raw g h)" for g h
    unfolding after_slots_def by (auto intro!: says_intros split: prod.split sum.split)
  then have "always (entitled K) (with_handshake_slot K raw g)" for g
    unfolding with_handshake_slot_def by (auto intro!: says_intros lim split: prod.split)
  then have "always (entitled K) (with_ip_slot K raw ip g)" for ip g
    unfolding with_ip_slot_def by (intro says_intros lim)
  then have "always (entitled K) (with_global_slot K raw ip)" for ip
    unfolding with_global_slot_def by (auto intro!: says_intros lim split: prod.split)
  then show ?thesis unfolding handleConn_def Let_def by (auto intro!: says_intros split: option.split bool.split)
qed

section \<open>Every connection is closed\<close>

definition shuts :: "'a srvm \<Rightarrow> bool" where
  "shuts m \<longleftrightarrow> (\<forall>s. \<exists>es. sx_trace (snd (m s)) = sx_trace s @ es \<and> (CloseRaw \<in> set es \<or> CloseConn \<in> set es))"

abbreviation speaks :: "'a srvm \<Rightarrow> bool" where
  "speaks \<equiv> always (\<lambda>_. True)"

lemma shuts_after: "shuts m \<Longrightarrow> (\<And>a. speaks (f a)) \<Longrightarrow> shuts (bnd m f)"
proof -
  assume m: "shuts m" and f: "\<And>a. speaks (f a)"
  have "\<exists>es. sx_trace (snd (bnd m f s)) = sx_trace s @ es \<and> (CloseRaw \<in> set es \<or> CloseConn \<in> set es)" for s
  proof -
    obtain es where es: "sx_trace (snd (m s)) = sx_trace s @ es" "CloseRaw \<in> set es \<or> CloseConn \<in> set es" using m unfolding shuts_def by blast
    obtain r t where t: "m s = (r, t)" by fastforce
    show ?thesis
    proof (cases r)
      case (Inr a)
      obtain fs where "sx_trace (snd (f a t)) = sx_trace t @ fs" using f [of a] unfolding says_def by blast
      with es t Inr show ?thesis by (intro exI [of _ "es @ fs"]) auto
    qed (use es t in \<open>simp add: bnd_def\<close>)
  qed
  then show ?thesis unfolding shuts_def by blast
qed

lemma shuts_before:
  assumes "speaks m" "\<And>s. \<exists>a t. m s = (Inr a, t)" "\<And>a. shuts (f a)" shows "shuts (bnd m f)"
  unfolding shuts_def
proof
  fix s
  obtain a t where t: "m s = (Inr a, t)" using assms(2) by blast
  obtain es where "sx_trace t = sx_trace s @ es" using assms(1) t unfolding says_def by (metis snd_conv)
  moreover obtain fs where "sx_trace (snd (f a t)) = sx_trace t @ fs" "CloseRaw \<in> set fs \<or> CloseConn \<in> set fs"
    using assms(3) unfolding shuts_def by blast
  ultimately show "\<exists>es. sx_trace (snd (bnd m f s)) = sx_trace s @ es \<and> (CloseRaw \<in> set es \<or> CloseConn \<in> set es)"
    using t by (intro exI [of _ "es @ fs"]) auto
qed

lemma shuts_deferred:
  "speaks m \<Longrightarrow> shuts d \<Longrightarrow> shuts (deferred d m)" "shuts m \<Longrightarrow> speaks d \<Longrightarrow> shuts (deferred d m)"
proof -
  have "\<exists>es. sx_trace (snd (deferred d m s)) = sx_trace s @ es \<and> (CloseRaw \<in> set es \<or> CloseConn \<in> set es)"
    if "speaks m \<and> shuts d \<or> shuts m \<and> speaks d" for s
  proof -
    from that obtain es fs where "sx_trace (snd (m s)) = sx_trace s @ es" "sx_trace (snd (d (snd (m s)))) = sx_trace (snd (m s)) @ fs"
      "CloseRaw \<in> set (es @ fs) \<or> CloseConn \<in> set (es @ fs)" unfolding shuts_def says_def by (metis UnCI set_append)
    then show ?thesis by (intro exI [of _ "es @ fs"]) (auto simp: deferred_def split: prod.split)
  qed
  then show "speaks m \<Longrightarrow> shuts d \<Longrightarrow> shuts (deferred d m)" "shuts m \<Longrightarrow> speaks d \<Longrightarrow> shuts (deferred d m)"
    unfolding shuts_def by blast+
qed

lemma shuts_closing: "shuts state_Close" "shuts (emit CloseRaw)" "shuts (limit_closed reason)"
  by (auto simp: shuts_def state_Close_def limit_closed_def emit_def bnd_def on_gateway_def on_conn_def modify_gw_def)

lemma acquire_returns: "\<exists>a t. acquire X sl s = (Inr a, t)"
  by (auto simp: acquire_def counter_call_def bnd_def split: prod.splits option.splits)

lemma aside_returns: "aside m \<Longrightarrow> \<exists>a t. m s = (Inr a, t)"
  unfolding aside_def by blast

lemma speaks_entitled: "always (entitled K) m \<Longrightarrow> speaks m"
  by (erule says_mono) simp

lemma handleConn_shuts:
  assumes "uuid_lawful (env_lib (wo_env (su_world (ce_X K))))" "honest_handshake K"
  shows "shuts (handleConn K raw)"
proof -
  note say = says_intros lax.rejections
  have "shuts (connected K raw g h peer input)" for g h peer input
    unfolding connected_def Let_def
    by (intro shuts_before aside_returns aside_conn_steps say shuts_deferred(2) [OF shuts_deferred(1)] shuts_closing
        speaks_entitled [OF handshake_phase_says [OF assms]])
  then have slots: "shuts (after_slots K raw g h)" for g h
    unfolding after_slots_def by (auto intro!: shuts_after say shuts_closing split: prod.split sum.split)
  have hs: "shuts (with_handshake_slot K raw g)" for g
    unfolding with_handshake_slot_def
    by (rule shuts_before [OF says_silent(6) acquire_returns]) (auto intro!: shuts_after slots say shuts_closing split: option.split)
  have ip: "shuts (with_ip_slot K raw ip g)" for ip g
    unfolding with_ip_slot_def
    by (rule shuts_before [OF says_silent(6) acquire_returns]) (auto intro!: shuts_after shuts_deferred(2) hs say shuts_closing split: option.split)
  have gl: "shuts (with_global_slot K raw ip)" for ip
    unfolding with_global_slot_def
    by (rule shuts_before [OF says_silent(6) acquire_returns]) (auto intro!: shuts_after ip say shuts_closing split: option.split)
  have e: "shuts (bnd (emit e) f)" if "\<And>a. shuts (f a)" for e and f :: "unit \<Rightarrow> unit srvm"
    by (rule shuts_before [OF _ aside_returns [OF aside_steps(3)] that]) (intro say, simp)
  show ?thesis unfolding handleConn_def Let_def
    by (rule shuts_before [OF says_gate aside_returns [OF aside_conn_steps(7)]])
      (auto intro!: e shuts_closing shuts_after gl say split: option.split bool.split)
qed

section \<open>A concrete connection\<close>

definition demo_handshake :: "bytes \<Rightarrow> (permissions \<times> string) authm" where
  "demo_handshake input =
     bnd (publicKeyCallback demo_world demo_auth ''ws'' demo_key) (\<lambda>cand.
     bnd (verifiedPublicKeyCallback demo_world demo_auth demo_key cand ''ed25519'') (\<lambda>perms. ret (perms, ''ws'')))"

definition demo_client :: client where
  "demo_client = \<lparr>cl_id = ''c1'', cl_handshake = demo_handshake, cl_events = [OpenChannel demo_jump], cl_late = [],
     cl_answer = (\<lambda>_. True), cl_session = [], cl_console = [], cl_readFails = False\<rparr>"

definition demo_server_config :: ServerConfig where
  "demo_server_config = \<lparr>cfg_HostSigners = [''k''], cfg_Auth = demo_auth, cfg_Counters = True, cfg_PreAuthGate = False,
     cfg_HandshakeTimeout = 0, cfg_ServerVersion = [], cfg_ProxyProtocol = False, cfg_ProxyHeaderTimeout = 0, cfg_RouteCodec = True,
     cfg_TunnelStarter = True, cfg_WorkspaceTransports = True, cfg_CacheTTL = 15000000000, cfg_DrainPeriod = 0,
     cfg_EnrollmentUser = [], cfg_Audit = True\<rparr>"

definition demo_decoders :: decoders where
  "demo_decoders = \<lparr>Unmarshal_env = (\<lambda>_. None), Unmarshal_pty = (\<lambda>_. None), Unmarshal_window = (\<lambda>_. None), Unmarshal_exec = (\<lambda>_. None),
     Unmarshal_signal = (\<lambda>_. None), Unmarshal_subsystem = (\<lambda>_. None)\<rparr>"

definition demo_connEnv :: connEnv where
  "demo_connEnv = \<lparr>ce_X = demo_surroundings, ce_cfg = demo_server_config, ce_draining = False, ce_decoders = demo_decoders, ce_client = demo_client\<rparr>"

definition demo_raw :: rawConn where
  "demo_raw = \<lparr>raw_RemoteAddr = Some ''10.0.0.1:5'', raw_input = [], raw_readDeadlineErr = False, raw_setDeadlineErr = False,
     raw_clearDeadlineErr = False\<rparr>"

definition demo_stale :: rawConn where
  "demo_stale = demo_raw\<lparr>raw_setDeadlineErr := True\<rparr>"

lemma demo_handshake_honest: "honest_handshake demo_connEnv"
  unfolding honest_handshake_def
proof (intro allI impI)
  fix input w perms user w'
  assume "cl_handshake (ce_client demo_connEnv) input w = (Inr (perms, user), w')"
  then obtain cand w1 where "verifiedPublicKeyCallback demo_world demo_auth demo_key cand ''ed25519'' w1 = (Inr perms, w')"
    by (auto simp: demo_connEnv_def demo_client_def demo_handshake_def bnd_Inr_iff)
  then show "\<exists>how. granted (su_world (ce_X demo_connEnv)) (cfg_Auth (ce_cfg demo_connEnv)) how perms"
    by (auto simp: demo_connEnv_def demo_surroundings_def demo_server_config_def intro: granted.login)
qed

section \<open>Properties\<close>





end
