(* ===== verification/ShutdownProps.thy ===== *)
theory ShutdownProps
  imports Server
begin

text \<open>
  The accept loop and its shutdown: the server returns only when every handler has returned, the drain period is
  bounded, and a connection that registers itself after the registry was closed is never cancelled.
\<close>

section \<open>Draining\<close>

definition poll_interval :: int where "poll_interval = 20000000"

lemma drain_loop_stop: "\<not> (active n > 0 \<and> now n < deadline) \<Longrightarrow> drain_loop active now deadline n = Some n"
  by (simp only: drain_loop.simps [of active now deadline n] if_False)

lemma drain_loop_go: "active n > 0 \<Longrightarrow> now n < deadline \<Longrightarrow> drain_loop active now deadline n = drain_loop active now deadline (Suc n)"
  by (simp add: drain_loop.simps [of active now deadline n])

lemma drain_loop_from:
  "\<forall>j<n. active j > 0 \<and> now j < deadline \<Longrightarrow> drain_loop active now deadline 0 = drain_loop active now deadline n"
  by (induction n) (simp_all add: drain_loop_go)

lemma clock_advances:
  fixes now :: "nat \<Rightarrow> int"
  assumes "\<forall>n. now n + poll_interval \<le> now (Suc n)" shows "now 0 + poll_interval * int n \<le> now n"
proof (induction n)
  case (Suc n)
  then show ?case using assms [rule_format, of n] by (simp add: algebra_simps)
qed simp

section \<open>Reachable states\<close>

abbreviation serve_reach :: "serveState \<Rightarrow> serveState \<Rightarrow> bool" where
  "serve_reach \<equiv> serve_step\<^sup>*\<^sup>*"

inductive_cases serve_stepE: "serve_step s t"

definition serve_inv :: "serveState \<Rightarrow> bool" where
  "serve_inv s \<longleftrightarrow> ss_tracked s \<subseteq> ss_handlers s \<and> (ss_listening s \<longleftrightarrow> ss_phase s = NotStopped)
     \<and> (ss_returned s = Some True \<longrightarrow> ss_handlers s = {} \<and> \<not> ss_listening s)"

lemma serve_inv_init: "serve_inv serve_init"
  by (simp add: serve_inv_def serve_init_def)

lemma serve_inv_step: "serve_step s t \<Longrightarrow> serve_inv s \<Longrightarrow> serve_inv t"
  by (erule serve_stepE) (auto simp: serve_inv_def closeAllConns_def)

lemma serve_inv_reach: "serve_reach s t \<Longrightarrow> serve_inv s \<Longrightarrow> serve_inv t"
  by (induction rule: rtranclp_induct) (auto intro: serve_inv_step)

text \<open>The registry is closed at most once.\<close>

lemma missed_step: "serve_step s t \<Longrightarrow> ss_phase s = ConnsClosed \<Longrightarrow> ss_phase t = ConnsClosed \<and> ss_cancelled t = ss_cancelled s"
  by (erule serve_stepE) auto

lemma missed_reach: "serve_reach s t \<Longrightarrow> ss_phase s = ConnsClosed \<Longrightarrow> ss_phase t = ConnsClosed \<and> ss_cancelled t = ss_cancelled s"
  by (induction rule: rtranclp_induct) (auto dest: missed_step)

section \<open>Properties\<close>

text \<open>The drain period is bounded. When every sleep lasts at least its twenty milliseconds, the wait for active channels
  returns, after no more polls than fit into the drain period and one: at the first poll that finds no active channel
  or the period elapsed.\<close>

theorem drain_bounded:
  assumes "\<forall>n. now n + poll_interval \<le> now (Suc n)" "start \<le> now 0" "0 < period"
  shows "\<exists>n. waitDrain period start active now = Some n \<and> poll_interval * int n < period + poll_interval
    \<and> (active n \<le> 0 \<or> start + period \<le> now n) \<and> (\<forall>j<n. active j > 0 \<and> now j < start + period)"
proof -
  let ?P = "\<lambda>n. \<not> (active n > 0 \<and> now n < start + period)"
  have late: "?P n" if "period \<le> poll_interval * int n" for n using clock_advances [OF assms(1), of n] assms(2) that by linarith
  have "period \<le> poll_interval * int (nat period)" using assms(3) by (simp add: poll_interval_def)
  then have ex: "?P (nat period)" by (rule late)
  define n where "n = (LEAST n. ?P n)"
  have P: "?P n" unfolding n_def by (rule LeastI [of ?P, OF ex])
  have before: "\<forall>j<n. active j > 0 \<and> now j < start + period" using not_less_Least [of _ ?P] unfolding n_def by blast
  have "poll_interval * int n < period + poll_interval"
  proof (rule ccontr)
    assume "\<not> ?thesis"
    then have "0 < n" "period \<le> poll_interval * int (n - 1)" using assms(3) by (auto simp: poll_interval_def)
    then show False using late [of "n - 1"] before by fastforce
  qed
  moreover have "waitDrain period start active now = Some n"
    using assms(3) drain_loop_from [OF before] drain_loop_stop [of active n now "start + period"] P by (simp add: waitDrain_def)
  ultimately show ?thesis using P before by (intro exI [of _ n]) auto
qed

theorem drain_bounded_witness:
  "\<exists>n. waitDrain 50000000 0 (\<lambda>_. 1) (\<lambda>n. poll_interval * int n) = Some n \<and> n \<le> 3"
proof -
  have "\<forall>n. poll_interval * int n + poll_interval \<le> poll_interval * int (Suc n)" by (simp add: algebra_simps)
  from drain_bounded [OF this, of 0 50000000 "\<lambda>_. 1"] show ?thesis by (auto simp: poll_interval_def)
qed

text \<open>The server returns without an error only when it is draining and no handler is running or registered.\<close>

theorem serve_returns_idle:
  assumes "serve_reach serve_init s" "ss_returned s = Some True"
  shows "ss_handlers s = {} \<and> ss_tracked s = {} \<and> Draining s"
  using serve_inv_reach [OF assms(1) serve_inv_init] assms(2) by (auto simp: serve_inv_def Draining_def)

text \<open>A connection can slip through the shutdown. A connection that was accepted before the stop but registers itself only
  after the registry was closed, as one does that is still in its limits or its header, is served and registered and
  is never cancelled by the shutdown, while the server does not return until this connection ends by itself.\<close>

theorem late_connection_survives:
  "\<exists>s. serve_reach serve_init s \<and> ss_phase s = ConnsClosed \<and> i \<in> ss_tracked s
     \<and> (\<forall>t. serve_reach s t \<longrightarrow> i \<notin> ss_cancelled t \<and> (ss_returned t = Some True \<longrightarrow> i \<notin> ss_handlers t))"
proof -
  define a where "a = serve_init\<lparr>ss_handlers := {i}\<rparr>"
  define b where "b = a\<lparr>ss_listening := False, ss_phase := DrainWait\<rparr>"
  define c where "c = (closeAllConns b)\<lparr>ss_phase := ConnsClosed\<rparr>"
  define d where "d = c\<lparr>ss_tracked := {i}\<rparr>"
  have "serve_step serve_init a" using serve_step.accept [of serve_init i] by (simp add: a_def serve_init_def)
  moreover have "serve_step a b" unfolding b_def by (rule serve_step.stop) (simp_all add: a_def serve_init_def)
  moreover have "serve_step b c" unfolding c_def by (rule serve_step.drained) (simp add: b_def)
  moreover have "serve_step c d" using serve_step.conn_track [of i c] by (simp add: d_def c_def closeAllConns_def b_def a_def serve_init_def)
  ultimately have r: "serve_reach serve_init d" by (meson converse_rtranclp_into_rtranclp rtranclp.rtrancl_refl)
  have d: "ss_phase d = ConnsClosed" "i \<in> ss_tracked d" "i \<notin> ss_cancelled d"
    by (simp_all add: d_def c_def closeAllConns_def b_def a_def serve_init_def)
  have "i \<notin> ss_cancelled t \<and> (ss_returned t = Some True \<longrightarrow> i \<notin> ss_handlers t)" if "serve_reach d t" for t
    using missed_reach [OF that d(1)] d(3) serve_inv_reach [OF rtranclp_trans [OF r that] serve_inv_init] by (auto simp: serve_inv_def)
  with r d show ?thesis by blast
qed

end
