(* ===== verification/AuditLog.thy ===== *)
theory AuditLog
  imports KeyMgmt
begin

text \<open>
  \<open>internal/audit\<close>: the audit event with its redaction and its JSON text, the log of one file per day, and the
  structured logger's configuration; with the retention job of \<open>internal/app/retention.go\<close> that deletes old files. A
  file is its bytes, a directory a map from names to files; the outcomes of the system calls are arguments. The parts of
  \<open>encoding/json\<close>, \<open>unicode/utf8\<close> and \<open>time\<close> that the code uses are modelled.
\<close>

section \<open>Events and their redaction (audit.go)\<close>

definition token_char :: "char \<Rightarrow> bool" where
  "token_char c \<longleftrightarrow> (CHR ''A'' \<le> c \<and> c \<le> CHR ''Z'') \<or> (CHR ''a'' \<le> c \<and> c \<le> CHR ''z'') \<or> (CHR ''0'' \<le> c \<and> c \<le> CHR ''9'')
     \<or> c = CHR ''_'' \<or> c = CHR ''-''"

definition token_sep :: "char \<Rightarrow> bool" where
  "token_sep c \<longleftrightarrow> c = CHR ''_'' \<or> c = CHR ''-''"

text \<open>The two alternatives of the regular expression: at least 20 token characters, then separators, then token
  characters; or token characters, then separators, then at least 20 token characters. \<open>i\<close> and \<open>j\<close> delimit the separators.\<close>

definition tokenPattern :: "string \<Rightarrow> bool" where
  "tokenPattern s \<longleftrightarrow>
     (\<exists>i\<in>{20..length s}. \<exists>j\<in>{Suc i..length s}. list_all token_char (take i s) \<and> list_all token_sep (take (j - i) (drop i s))
        \<and> list_all token_char (drop j s))
     \<or> (\<exists>i\<in>{0..length s}. \<exists>j\<in>{Suc i..length s}. list_all token_char (take i s) \<and> list_all token_sep (take (j - i) (drop i s))
        \<and> list_all token_char (drop j s) \<and> 20 \<le> length (drop j s))"

definition redactString :: "string \<Rightarrow> string" where
  "redactString s = (if 20 \<le> length s \<and> tokenPattern s then ''[REDACTED]'' else s)"

text \<open>The optional numbers are pointers in the source.\<close>

record Event =
  au_ID :: string
  au_OccurredAtMs :: int64
  au_ConnectionID :: string
  au_DeploymentID :: string
  au_AccountID :: string
  au_SSHKeyID :: string
  au_EventType :: string
  au_Result :: string
  au_PeerAddress :: string
  au_Target :: string
  au_CredentialGeneration :: "int64 option"
  au_DurationMs :: "int64 option"
  au_BytesUp :: "int64 option"
  au_BytesDown :: "int64 option"
  au_DetailCode :: string

section \<open>JSON text\<close>

text \<open>The length of the UTF-8 sequence a text starts with; \<open>None\<close> when it starts with an invalid byte.\<close>

definition cont :: "char \<Rightarrow> bool" where
  "cont c \<longleftrightarrow> CHR 0x80 \<le> c \<and> c \<le> CHR 0xBF"

fun utf8_len :: "bytes \<Rightarrow> nat option" where
  "utf8_len [] = None"
| "utf8_len (a # r) =
     (if a < CHR 0x80 then Some 1
      else case r of
        [] \<Rightarrow> None
      | b # r' \<Rightarrow>
          if CHR 0xC2 \<le> a \<and> a \<le> CHR 0xDF then (if cont b then Some 2 else None)
          else
          (case r' of
             [] \<Rightarrow> None
           | c # r'' \<Rightarrow>
               if CHR 0xE0 \<le> a \<and> a \<le> CHR 0xEF then
                 (if cont b \<and> cont c \<and> (a = CHR 0xE0 \<longrightarrow> CHR 0xA0 \<le> b) \<and> (a = CHR 0xED \<longrightarrow> b \<le> CHR 0x9F) then Some 3 else None)
               else
               (case r'' of
                  [] \<Rightarrow> None
                | d # _ \<Rightarrow>
                    if CHR 0xF0 \<le> a \<and> a \<le> CHR 0xF4 \<and> cont b \<and> cont c \<and> cont d
                       \<and> (a = CHR 0xF0 \<longrightarrow> CHR 0x90 \<le> b) \<and> (a = CHR 0xF4 \<longrightarrow> b \<le> CHR 0x8F)
                    then Some 4 else None)))"

text \<open>The escapes of \<open>json.Marshal\<close> for one ASCII byte.\<close>

definition json_ascii :: "char \<Rightarrow> string" where
  "json_ascii c =
     (if c = CHR 0x22 \<or> c = CHR 0x5C then [CHR 0x5C, c]
      else if c = CHR 0x08 then [CHR 0x5C, CHR ''b'']
      else if c = CHR 0x0C then [CHR 0x5C, CHR ''f'']
      else if c = CHR 0x0A then [CHR 0x5C, CHR ''n'']
      else if c = CHR 0x0D then [CHR 0x5C, CHR ''r'']
      else if c = CHR 0x09 then [CHR 0x5C, CHR ''t'']
      else if c < CHR 0x20 \<or> c = CHR ''<'' \<or> c = CHR ''>'' \<or> c = CHR ''&''
      then CHR 0x5C # ''u00'' @ [hex_digit (of_char c div 16), hex_digit (of_char c mod 16)]
      else [c])"

function json_chars :: "bytes \<Rightarrow> string" where
  "json_chars [] = []"
| "json_chars (c # cs) =
     (if c < CHR 0x80 then json_ascii c @ json_chars cs
      else case utf8_len (c # cs) of
        None \<Rightarrow> CHR 0x5C # ''ufffd'' @ json_chars cs
      | Some n \<Rightarrow>
          (if take 3 (c # cs) = [CHR 0xE2, CHR 0x80, CHR 0xA8] then CHR 0x5C # ''u2028''
           else if take 3 (c # cs) = [CHR 0xE2, CHR 0x80, CHR 0xA9] then CHR 0x5C # ''u2029''
           else take n (c # cs)) @ json_chars (drop (n - 1) cs))"
  by pat_completeness auto
termination
  by (relation "measure length") auto

definition json_string :: "string \<Rightarrow> string" where
  "json_string s = CHR 0x22 # json_chars s @ [CHR 0x22]"

definition json_int :: "int64 \<Rightarrow> string" where
  "json_int i = FormatInt (sint i)"

text \<open>\<open>MarshalJSON\<close>: the embedded event without the two fields that are redefined, then these two. \<open>omitempty\<close> drops empty
  strings and nil pointers.\<close>

definition text_field :: "string \<Rightarrow> string \<Rightarrow> (string \<times> string) list" where
  "text_field k v = [(k, json_string v)]"

definition text_omitempty :: "string \<Rightarrow> string \<Rightarrow> (string \<times> string) list" where
  "text_omitempty k v = (if v = [] then [] else text_field k v)"

definition int_omitempty :: "string \<Rightarrow> int64 option \<Rightarrow> (string \<times> string) list" where
  "int_omitempty k v = (case v of None \<Rightarrow> [] | Some i \<Rightarrow> [(k, json_int i)])"

definition event_fields :: "Event \<Rightarrow> (string \<times> string) list" where
  "event_fields e = text_field ''id'' (au_ID e) @ [(''occurred_at_ms'', json_int (au_OccurredAtMs e))]
     @ text_omitempty ''connection_id'' (au_ConnectionID e) @ text_omitempty ''deployment_id'' (au_DeploymentID e)
     @ text_omitempty ''account_id'' (au_AccountID e) @ text_omitempty ''ssh_key_id'' (au_SSHKeyID e)
     @ text_field ''event_type'' (au_EventType e) @ text_field ''result'' (au_Result e)
     @ text_omitempty ''peer_address'' (au_PeerAddress e)
     @ int_omitempty ''credential_generation'' (au_CredentialGeneration e) @ int_omitempty ''duration_ms'' (au_DurationMs e)
     @ int_omitempty ''bytes_up'' (au_BytesUp e) @ int_omitempty ''bytes_down'' (au_BytesDown e)
     @ text_omitempty ''detail_code'' (redactString (au_DetailCode e)) @ text_omitempty ''target'' (redactString (au_Target e))"

definition Event_MarshalJSON :: "Event \<Rightarrow> bytes" where
  "Event_MarshalJSON e = ''{'' @ Join '','' (map (\<lambda>(k, v). json_string k @ '':'' @ v) (event_fields e)) @ ''}''"

section \<open>The log files\<close>

text \<open>\<open>sanitizeInstance\<close> works on characters: a multi-byte character, and an invalid byte, becomes one dash.\<close>

definition instance_char :: "char \<Rightarrow> bool" where
  "instance_char c \<longleftrightarrow> (CHR ''a'' \<le> c \<and> c \<le> CHR ''z'') \<or> (CHR ''A'' \<le> c \<and> c \<le> CHR ''Z'') \<or> (CHR ''0'' \<le> c \<and> c \<le> CHR ''9'')
     \<or> c = CHR ''-'' \<or> c = CHR ''_''"

function instance_chars :: "string \<Rightarrow> string" where
  "instance_chars [] = []"
| "instance_chars (c # cs) = (if instance_char c then c else CHR ''-'') #
     instance_chars (case utf8_len (c # cs) of None \<Rightarrow> cs | Some n \<Rightarrow> drop (n - 1) cs)"
  by pat_completeness auto
termination
  by (relation "measure length") (auto split: option.split)

definition sanitizeInstance :: "string \<Rightarrow> string" where
  "sanitizeInstance v = take 64 (instance_chars v)"

text \<open>The two environment variables, empty when they are not set.\<close>

definition instanceSuffix :: "string \<Rightarrow> string \<Rightarrow> string" where
  "instanceSuffix instance_var hostname = (if instance_var \<noteq> [] then sanitizeInstance instance_var
     else if hostname \<noteq> [] then sanitizeInstance hostname else [])"

definition auditFileName :: "string \<Rightarrow> string \<Rightarrow> string" where
  "auditFileName suffix date = ''audit-'' @ date @ (if suffix \<noteq> [] then ''.'' @ suffix else []) @ ''.jsonl''"

text \<open>The logger: the files of its directory, the name of the file it has open, and whether that handle was closed; a
  handle is closed by \<open>Close\<close> even when \<open>Close\<close> reports an error.\<close>

record JSONLFileLogger =
  lg_files :: "(string, bytes) gomap"
  lg_open :: string
  lg_closed :: bool
  lg_fsync :: bool
  lg_dateStr :: string

datatype audit_error = MkdirErr | OpenErr | CloseErr | WriteErr | SyncErr

text \<open>What the file system does during one call: whether opening, closing and syncing fail, and after how many bytes a
  write fails.\<close>

record audit_io =
  io_openErr :: bool
  io_closeErr :: bool
  io_writeErr :: "nat option"
  io_syncErr :: bool

definition open_append :: "string \<Rightarrow> (string, bytes) gomap \<Rightarrow> (string, bytes) gomap" where
  "open_append name files = (if name \<in> fst ` set files then files else gm_put name [] files)"

definition NewJSONLFileLogger :: "string \<Rightarrow> string \<Rightarrow> bool \<Rightarrow> bool \<Rightarrow> bool \<Rightarrow> (string, bytes) gomap \<Rightarrow> audit_error + JSONLFileLogger" where
  "NewJSONLFileLogger suffix today mkdirErr openErr fsync files =
     (if mkdirErr then Inl MkdirErr
      else if openErr then Inl OpenErr
      else Inr \<lparr>lg_files = open_append (auditFileName suffix today) files, lg_open = auditFileName suffix today, lg_closed = False,
                 lg_fsync = fsync, lg_dateStr = today\<rparr>)"

definition rollIfDayChangedLocked :: "string \<Rightarrow> audit_io \<Rightarrow> string \<Rightarrow> JSONLFileLogger \<Rightarrow> audit_error option \<times> JSONLFileLogger" where
  "rollIfDayChangedLocked suffix io today l =
     (if today = lg_dateStr l then (None, l)
      else if io_openErr io then (Some OpenErr, l)
      else
      let l1 = l\<lparr>lg_files := open_append (auditFileName suffix today) (lg_files l)\<rparr> in
      if lg_closed l \<or> io_closeErr io then (Some CloseErr, l1\<lparr>lg_closed := True\<rparr>)
      else (None, l1\<lparr>lg_open := auditFileName suffix today, lg_dateStr := today\<rparr>))"

definition append_file :: "string \<Rightarrow> bytes \<Rightarrow> (string, bytes) gomap \<Rightarrow> (string, bytes) gomap" where
  "append_file name data files = gm_put name ((case map_of files name of None \<Rightarrow> [] | Some old \<Rightarrow> old) @ data) files"

definition audit_line :: "Event \<Rightarrow> bytes" where
  "audit_line e = Event_MarshalJSON e @ [CHR 0x0A]"

definition audit_Record :: "string \<Rightarrow> audit_io \<Rightarrow> string \<Rightarrow> Event \<Rightarrow> JSONLFileLogger \<Rightarrow> audit_error option \<times> JSONLFileLogger" where
  "audit_Record suffix io today e l =
     (case rollIfDayChangedLocked suffix io today l of
        (Some err, l) \<Rightarrow> (Some err, l)
      | (None, l) \<Rightarrow>
          if lg_closed l then (Some WriteErr, l)
          else
          (case io_writeErr io of
             Some n \<Rightarrow> (Some WriteErr, l\<lparr>lg_files := append_file (lg_open l) (take n (audit_line e)) (lg_files l)\<rparr>)
           | None \<Rightarrow>
               let l1 = l\<lparr>lg_files := append_file (lg_open l) (audit_line e) (lg_files l)\<rparr> in
               (if lg_fsync l \<and> io_syncErr io then Some SyncErr else None, l1)))"

definition audit_Close :: "audit_io \<Rightarrow> JSONLFileLogger \<Rightarrow> audit_error option \<times> JSONLFileLogger" where
  "audit_Close io l = (if lg_closed l \<or> io_closeErr io then (Some CloseErr, l\<lparr>lg_closed := True\<rparr>) else (None, l\<lparr>lg_closed := True\<rparr>))"

text \<open>\<open>InMemoryLogger\<close>.\<close>

type_synonym InMemoryLogger = "Event list"

definition InMemory_Record :: "Event \<Rightarrow> InMemoryLogger \<Rightarrow> InMemoryLogger" where
  "InMemory_Record e l = l @ [e]"

section \<open>The structured logger (logging.go)\<close>

datatype log_level = LevelDebug | LevelInfo | LevelWarn | LevelError
datatype log_format = FormatJSON | FormatText
datatype logger_error = ErrInvalidLogLevel | ErrInvalidLogFormat

definition audit_NewLogger :: "string \<Rightarrow> string \<Rightarrow> logger_error + log_format \<times> log_level" where
  "audit_NewLogger format level =
     (case (if level = ''debug'' then Some LevelDebug else if level = ''info'' then Some LevelInfo
            else if level = ''warn'' then Some LevelWarn else if level = ''error'' then Some LevelError else None) of
        None \<Rightarrow> Inl ErrInvalidLogLevel
      | Some lv \<Rightarrow>
          if format = ''json'' then Inr (FormatJSON, lv)
          else if format = ''text'' then Inr (FormatText, lv)
          else Inl ErrInvalidLogFormat)"

section \<open>Retention (app/retention.go)\<close>

text \<open>\<open>time.Parse\<close> with the layout of a date: four digits, two digits, two digits, and a day that the month has. A day is
  the number of days since 1970.\<close>

definition leap :: "int \<Rightarrow> bool" where
  "leap y \<longleftrightarrow> 4 dvd y \<and> (\<not> 100 dvd y \<or> 400 dvd y)"

definition daysIn :: "int \<Rightarrow> int \<Rightarrow> int" where
  "daysIn y m = (if m = 2 then (if leap y then 29 else 28) else if m \<in> {4, 6, 9, 11} then 30 else 31)"

definition days_from_civil :: "int \<Rightarrow> int \<Rightarrow> int \<Rightarrow> int" where
  "days_from_civil y m d =
     (let y' = (if m \<le> 2 then y - 1 else y); era = y' div 400; yoe = y' - era * 400;
          doy = (153 * (if m > 2 then m - 3 else m + 9) + 2) div 5 + d - 1; doe = yoe * 365 + yoe div 4 - yoe div 100 + doy
      in era * 146097 + doe - 719468)"

definition digits :: "string \<Rightarrow> int option" where
  "digits s = map_option int (digits_val 0 s)"

definition parse_date :: "string \<Rightarrow> int option" where
  "parse_date s =
     (if length s \<noteq> 10 \<or> s ! 4 \<noteq> CHR ''-'' \<or> s ! 7 \<noteq> CHR ''-'' then None
      else
      case (digits (take 4 s), digits (take 2 (drop 5 s)), digits (drop 8 s)) of
        (Some y, Some m, Some d) \<Rightarrow>
          if m < 1 \<or> 12 < m \<or> d < 1 \<or> daysIn y m < d then None else Some (days_from_civil y m d)
      | _ \<Rightarrow> None)"

definition auditFilePrefix :: string where "auditFilePrefix = ''audit-''"
definition auditFileExt :: string where "auditFileExt = ''.jsonl''"

text \<open>The date in the name of an audit file: what is between the prefix and the first dot.\<close>

definition file_date :: "string \<Rightarrow> int option" where
  "file_date name =
     (if \<not> HasPrefix name auditFilePrefix \<or> \<not> HasSuffix name auditFileExt then None
      else parse_date (takeWhile (\<lambda>c. c \<noteq> CHR ''.'') (TrimSuffix (drop (length auditFilePrefix) name) auditFileExt)))"

text \<open>The entries of the directory with their kind; \<open>removeErr\<close> names the files that cannot be deleted. The result lists
  the deleted names.\<close>

primrec prune_entries :: "int \<Rightarrow> (string \<Rightarrow> bool) \<Rightarrow> (string \<times> bool) list \<Rightarrow> (string, bytes) gomap \<Rightarrow> string list \<times> (string, bytes) gomap" where
  "prune_entries cutoff removeErr [] files = ([], files)"
| "prune_entries cutoff removeErr (e # es) files =
     (case e of (name, isDir) \<Rightarrow>
        if isDir then prune_entries cutoff removeErr es files
        else
        case file_date name of
          None \<Rightarrow> prune_entries cutoff removeErr es files
        | Some day \<Rightarrow>
            if \<not> day < cutoff then prune_entries cutoff removeErr es files
            else if removeErr name then prune_entries cutoff removeErr es files
            else (case prune_entries cutoff removeErr es (gm_delete name files) of (gone, files) \<Rightarrow> (name # gone, files)))"

text \<open>\<open>None\<close>: the directory could not be read. \<open>today\<close> is the current day in UTC.\<close>

definition PruneAuditFiles :: "bool \<Rightarrow> (string \<Rightarrow> bool) \<Rightarrow> int \<Rightarrow> int \<Rightarrow> (string \<times> bool) list \<Rightarrow> (string, bytes) gomap
    \<Rightarrow> (string list \<times> (string, bytes) gomap) option" where
  "PruneAuditFiles readErr removeErr retentionDays today entries files =
     (if readErr then None else Some (prune_entries (today - retentionDays) removeErr entries files))"

text \<open>\<open>runAuditRetention\<close>: one sweep at the start and one per tick, none when retention is switched off.\<close>

primrec retention_sweeps :: "int \<Rightarrow> (int \<times> bool \<times> (string \<Rightarrow> bool) \<times> (string \<times> bool) list) list \<Rightarrow> (string, bytes) gomap \<Rightarrow> (string, bytes) gomap" where
  "retention_sweeps retentionDays [] files = files"
| "retention_sweeps retentionDays (tick # ticks) files =
     (case tick of (today, readErr, removeErr, entries) \<Rightarrow>
        retention_sweeps retentionDays ticks
          (case PruneAuditFiles readErr removeErr retentionDays today entries files of None \<Rightarrow> files | Some (_, files) \<Rightarrow> files))"

definition runAuditRetention :: "int \<Rightarrow> (int \<times> bool \<times> (string \<Rightarrow> bool) \<times> (string \<times> bool) list) list \<Rightarrow> (string, bytes) gomap \<Rightarrow> (string, bytes) gomap" where
  "runAuditRetention retentionDays ticks files = (if retentionDays \<le> 0 then files else retention_sweeps retentionDays ticks files)"

end
