(* ===== verification/AuditProps.thy ===== *)
theory AuditProps
  imports AuditLog
begin

text \<open>
  What the audit log guarantees: a file is the sequence of its events, one line each; exactly which texts are
  redacted, among them some of the gateway's own detail codes; which files the retention job deletes; and what a
  failed close does to the log.
\<close>

section \<open>Lines\<close>

lemma hex_digit_no_lf: "d < 16 \<Longrightarrow> hex_digit d \<noteq> CHR 0x0A"
proof -
  assume d: "d < 16"
  have "(of_char (hex_digit d) :: nat) \<noteq> of_char (CHR 0x0A)" using d by (simp add: hex_digit_def)
  then show ?thesis by metis
qed

lemma of_char_16: "of_char (c :: char) div 16 < (16 :: nat)" "of_char c mod 16 < (16 :: nat)"
  using nat_of_char_less_256 [of c] by (simp_all add: less_mult_imp_div_less)

lemma json_ascii_no_lf: "CHR 0x0A \<notin> set (json_ascii c)"
proof -
  have "CHR 0x0A \<noteq> hex_digit (of_char c div 16)" "CHR 0x0A \<noteq> hex_digit (of_char c mod 16)"
    using hex_digit_no_lf of_char_16 [of c] by metis+
  then show ?thesis by (simp add: json_ascii_def)
qed

lemma utf8_no_lf: "utf8_len (c # cs) = Some n \<Longrightarrow> \<not> c < CHR 0x80 \<Longrightarrow> CHR 0x0A \<notin> set (take n (c # cs))"
  by (auto simp: cont_def less_eq_char_def less_char_def numeral_2_eq_2 numeral_3_eq_3 eval_nat_numeral(2,3) split: list.splits if_splits)

lemma json_chars_no_lf: "CHR 0x0A \<notin> set (json_chars s)"
proof (induction s rule: json_chars.induct)
  case (2 c cs)
  then show ?case using json_ascii_no_lf utf8_no_lf [of c cs] by (auto split: option.splits)
qed simp

lemma json_string_no_lf: "CHR 0x0A \<notin> set (json_string s)"
  by (simp add: json_string_def json_chars_no_lf)

lemma field_no_lf:
  "(k, v) \<in> set (text_field x t) \<Longrightarrow> CHR 0x0A \<notin> set v" "(k, v) \<in> set (text_omitempty x t) \<Longrightarrow> CHR 0x0A \<notin> set v"
  "(k, v) \<in> set (int_omitempty x i) \<Longrightarrow> CHR 0x0A \<notin> set v" "CHR 0x0A \<notin> set (json_int j)"
  by (auto simp: text_field_def text_omitempty_def int_omitempty_def json_int_def json_string_no_lf FormatInt_no_newline
      split: if_splits option.splits)

lemma fields_no_lf:
  assumes "(k, v) \<in> set (event_fields e)" shows "CHR 0x0A \<notin> set v"
  using assms unfolding event_fields_def set_append Un_iff
  by (elim disjE) (erule field_no_lf | simp add: field_no_lf)+

lemma event_no_lf: "CHR 0x0A \<notin> set (Event_MarshalJSON e)"
  using set_Join [of "'',''" "map (\<lambda>(k, v). json_string k @ '':'' @ v) (event_fields e)"] fields_no_lf [of _ _ e] json_string_no_lf
  by (fastforce simp: Event_MarshalJSON_def)

lemma Split_lines: "Split (CHR 0x0A) (concat (map audit_line es)) = map Event_MarshalJSON es @ [[]]"
  by (induction es) (simp_all add: audit_line_def Split_append event_no_lf)

section \<open>Runs of the logger\<close>

definition calm_io :: audit_io where
  "calm_io = \<lparr>io_openErr = False, io_closeErr = False, io_writeErr = None, io_syncErr = False\<rparr>"

fun audit_run :: "string \<Rightarrow> (audit_io \<times> string \<times> Event) list \<Rightarrow> JSONLFileLogger \<Rightarrow> audit_error option list \<times> JSONLFileLogger" where
  "audit_run sfx [] l = ([], l)"
| "audit_run sfx ((io, day, e) # rs) l = (case audit_Record sfx io day e l of (r, l) \<Rightarrow> (case audit_run sfx rs l of (qs, l) \<Rightarrow> (r # qs, l)))"

definition content :: "JSONLFileLogger \<Rightarrow> string \<Rightarrow> bytes" where
  "content l name = (case map_of (lg_files l) name of None \<Rightarrow> [] | Some data \<Rightarrow> data)"

definition logger_ok :: "string \<Rightarrow> JSONLFileLogger \<Rightarrow> bool" where
  "logger_ok sfx l \<longleftrightarrow> \<not> lg_closed l \<and> lg_open l = auditFileName sfx (lg_dateStr l)"

lemma New_ok: "NewJSONLFileLogger sfx today m oe fs files = Inr l \<Longrightarrow> logger_ok sfx l"
  by (auto simp: NewJSONLFileLogger_def logger_ok_def split: if_splits)

lemma content_open: "(case map_of (open_append n fs) name of None \<Rightarrow> [] | Some data \<Rightarrow> data) = (case map_of fs name of None \<Rightarrow> [] | Some data \<Rightarrow> data)"
  by (auto simp: open_append_def split: option.split dest: map_of_SomeD intro: rev_image_eqI)

lemma Record_calm:
  assumes "logger_ok sfx l"
  obtains l' where "audit_Record sfx calm_io day e l = (None, l')" "logger_ok sfx l'"
    "\<And>name. content l' name = content l name @ (if auditFileName sfx day = name then audit_line e else [])"
proof
  show "audit_Record sfx calm_io day e l = (None, snd (audit_Record sfx calm_io day e l))" "logger_ok sfx (snd (audit_Record sfx calm_io day e l))"
    using assms by (auto simp: audit_Record_def rollIfDayChangedLocked_def calm_io_def logger_ok_def Let_def)
  show "content (snd (audit_Record sfx calm_io day e l)) name = content l name @ (if auditFileName sfx day = name then audit_line e else [])" for name
    using assms content_open [of "auditFileName sfx day" "lg_files l" name]
    by (auto simp: audit_Record_def rollIfDayChangedLocked_def calm_io_def logger_ok_def Let_def content_def append_file_def)
qed

lemma run_calm:
  assumes "logger_ok sfx l"
  shows "fst (audit_run sfx (map (Pair calm_io) rs) l) = replicate (length rs) None
    \<and> content (snd (audit_run sfx (map (Pair calm_io) rs) l)) name
       = content l name @ concat (map audit_line (map snd (filter (\<lambda>(day, e). auditFileName sfx day = name) rs)))"
  using assms
proof (induction rs arbitrary: l)
  case (Cons r rs)
  obtain day e where r: "r = (day, e)" by fastforce
  obtain l' where l': "audit_Record sfx calm_io day e l = (None, l')" "logger_ok sfx l'"
    "content l' name = content l name @ (if auditFileName sfx day = name then audit_line e else [])"
    using Record_calm [OF Cons.prems] by metis
  from Cons.IH [OF l'(2)] l'(1,3) r show ?case by (auto split: prod.split)
qed simp

section \<open>A closed handle\<close>

lemma Record_closed:
  assumes "lg_closed l"
  shows "fst (audit_Record sfx io day e l) \<noteq> None \<and> lg_closed (snd (audit_Record sfx io day e l))
    \<and> content (snd (audit_Record sfx io day e l)) name = content l name"
  using assms content_open [of "auditFileName sfx day" "lg_files l" name]
  by (auto simp: audit_Record_def rollIfDayChangedLocked_def Let_def content_def)

lemma run_closed:
  "lg_closed l \<Longrightarrow> None \<notin> set (fst (audit_run sfx rs l)) \<and> content (snd (audit_run sfx rs l)) name = content l name"
proof (induction rs arbitrary: l)
  case (Cons r rs)
  obtain io day e where r: "r = (io, day, e)" by (cases r)
  have "fst (audit_Record sfx io day e l) \<noteq> None" "lg_closed (snd (audit_Record sfx io day e l))"
    "content (snd (audit_Record sfx io day e l)) name = content l name" using Record_closed [OF Cons.prems] by blast+
  with Cons.IH [of "snd (audit_Record sfx io day e l)"] r show ?case by (auto split: prod.split)
qed simp

section \<open>Redaction\<close>

lemma tokenPattern_iff:
  "tokenPattern s \<longleftrightarrow> list_all token_char s \<and> (\<exists>i<length s. token_sep (s ! i) \<and> (20 \<le> i \<or> 20 \<le> length s - Suc i))"
proof
  have sep: "token_sep c \<Longrightarrow> token_char c" for c by (simp add: token_sep_def token_char_def)
  have whole: "list_all token_char s"
    if "list_all token_char (take i s)" "list_all token_sep (take (j - i) (drop i s))" "list_all token_char (drop j s)" "i < j" for i j
  proof -
    have "s = take i s @ take (j - i) (drop i s) @ drop j s" using that(4) by (metis append_take_drop_id drop_drop le_add_diff_inverse2 less_imp_le_nat add.commute)
    then show ?thesis using that(1-3) sep by (metis (mono_tags, lifting) list_all_append list_all_iff)
  qed
  have at: "token_sep (s ! i)" if "list_all token_sep (take (j - i) (drop i s))" "i < j" "j \<le> length s" for i j
    using that by (auto simp: list_all_length dest: spec [of _ 0])
  assume "tokenPattern s"
  then show "list_all token_char s \<and> (\<exists>i<length s. token_sep (s ! i) \<and> (20 \<le> i \<or> 20 \<le> length s - Suc i))"
    unfolding tokenPattern_def
  proof (elim disjE bexE conjE)
    fix i j assume h: "i \<in> {20..length s}" "j \<in> {Suc i..length s}" "list_all token_char (take i s)"
      "list_all token_sep (take (j - i) (drop i s))" "list_all token_char (drop j s)"
    then show ?thesis using whole [of i j] at [of j i] by (auto intro!: exI [of _ i])
  next
    fix i j assume h: "i \<in> {0..length s}" "j \<in> {Suc i..length s}" "list_all token_char (take i s)"
      "list_all token_sep (take (j - i) (drop i s))" "list_all token_char (drop j s)" "20 \<le> length (drop j s)"
    then show ?thesis using whole [of i j] at [of j i] by (auto intro!: exI [of _ i])
  qed
next
  assume "list_all token_char s \<and> (\<exists>i<length s. token_sep (s ! i) \<and> (20 \<le> i \<or> 20 \<le> length s - Suc i))"
  then obtain i where s: "list_all token_char s" "i < length s" "token_sep (s ! i)" "20 \<le> i \<or> 20 \<le> length s - Suc i" by blast
  have "list_all token_char (take i s)" "list_all token_char (drop (Suc i) s)" using s(1) by (auto simp: list_all_iff dest: in_set_takeD in_set_dropD)
  moreover have "list_all token_sep (take (Suc i - i) (drop i s))" using s(2,3) by (simp add: take_Suc_conv_app_nth hd_drop_conv_nth)
  ultimately have parts: "list_all token_char (take i s) \<and> list_all token_sep (take (Suc i - i) (drop i s)) \<and> list_all token_char (drop (Suc i) s)" by blast
  show "tokenPattern s"
  proof (cases "20 \<le> i")
    case True
    with s(2) parts show ?thesis unfolding tokenPattern_def by (intro disjI1 bexI [of _ i] bexI [of _ "Suc i"]) auto
  next
    case False
    with s(2,4) parts show ?thesis unfolding tokenPattern_def by (intro disjI2 bexI [of _ i] bexI [of _ "Suc i"]) auto
  qed
qed

definition token_like :: "string \<Rightarrow> bool" where
  "token_like s \<longleftrightarrow> list_all token_char s \<and> list_ex (\<lambda>i. token_sep (s ! i) \<and> (20 \<le> i \<or> 20 \<le> length s - Suc i)) [0..<length s]"

lemma redact_token_like: "redactString s = (if token_like s then ''[REDACTED]'' else s)"
  by (auto simp: redactString_def token_like_def tokenPattern_iff list_ex_iff)

lemma codes_token_like:
  "list_all token_like [AUTH_CREDENTIAL_UNAUTHORIZED, AUTH_CREDENTIAL_FORBIDDEN, AUTH_WRONG_CODER_IDENTITY, TUNNEL_PROCESS_START_FAILED]"
  by code_simp

lemma codes_kept:
  "list_all (\<lambda>code. \<not> token_like code) [AUTH_UNKNOWN_KEY, AUTH_ACCOUNT_DISABLED, AUTH_CREDENTIAL_MISSING, AUTH_CODER_UNAVAILABLE, AUTH_CODER_INCOMPATIBLE]"
  "list_all (\<lambda>code. \<not> token_like code) [ROUTE_INVALID_PAYLOAD, ROUTE_PORT_DENIED, ROUTE_NAME_INVALID, TUNNEL_LIMIT_REACHED, TUNNEL_START_TIMEOUT, TUNNEL_CODER_EXITED]"
  "list_all (\<lambda>code. \<not> token_like code) [TUNNEL_STREAM_FAILED, TUNNEL_CANCELLED, STORE_UNAVAILABLE, STORE_GENERATION_CONFLICT, CRYPTO_KEY_UNAVAILABLE, CRYPTO_DECRYPT_FAILED]"
  by code_simp+

section \<open>Names and dates\<close>

lemma file_date_name:
  assumes "CHR ''.'' \<notin> set date" shows "file_date (auditFileName sfx date) = parse_date date"
proof -
  let ?mid = "date @ (if sfx \<noteq> [] then ''.'' @ sfx else [])"
  have n: "auditFileName sfx date = auditFilePrefix @ ?mid @ auditFileExt" by (simp add: auditFileName_def auditFilePrefix_def auditFileExt_def)
  have "TrimSuffix (drop (length auditFilePrefix) (auditFileName sfx date)) auditFileExt = ?mid"
    using TrimSuffix_append [of ?mid auditFileExt] unfolding n by simp
  moreover have "HasPrefix (auditFileName sfx date) auditFilePrefix" "HasSuffix (auditFileName sfx date) auditFileExt"
    using HasSuffix_append [of "auditFilePrefix @ ?mid" auditFileExt] unfolding n HasPrefix_iff by auto
  moreover have "takeWhile (\<lambda>c. c \<noteq> CHR ''.'') ?mid = date" using assms by (auto simp: takeWhile_append)
  ultimately show ?thesis by (simp add: file_date_def)
qed

definition expired :: "int \<Rightarrow> (string \<Rightarrow> bool) \<Rightarrow> (string \<times> bool) list \<Rightarrow> string list" where
  "expired cutoff re es = map fst (filter (\<lambda>(name, isDir). \<not> isDir \<and> (\<exists>day. file_date name = Some day \<and> day < cutoff) \<and> \<not> re name) es)"

lemma prune_spec: "prune_entries cutoff re es files = (expired cutoff re es, fold gm_delete (expired cutoff re es) files)"
  by (induction es arbitrary: files) (auto simp: expired_def split: prod.split option.split)

section \<open>Properties\<close>

text \<open>C37. The file of a day is the list of its events. When no system call fails, every call of \<open>Record\<close> succeeds, whatever the
  fields of the events contain and however the days follow each other, and a file that was empty splits at its line
  feeds into exactly the JSON texts of the events recorded under its name, in the order of the calls.\<close>

theorem audit_file_refines_events:
  assumes "logger_ok sfx l" "content l name = []"
  shows "case audit_run sfx (map (Pair calm_io) rs) l of (qs, l') \<Rightarrow> set qs \<subseteq> {None}
    \<and> Split (CHR 0x0A) (content l' name) = map Event_MarshalJSON (map snd (filter (\<lambda>(day, e). auditFileName sfx day = name) rs)) @ [[]]"
proof -
  let ?es = "map snd (filter (\<lambda>(day, e). auditFileName sfx day = name) rs)"
  obtain qs l' where r: "audit_run sfx (map (Pair calm_io) rs) l = (qs, l')" by fastforce
  have "qs = replicate (length rs) None" "content l' name = concat (map audit_line ?es)"
    using run_calm [OF assms(1), of rs name] assms(2) unfolding r by auto
  moreover from this(2) have "Split (CHR 0x0A) (content l' name) = map Event_MarshalJSON ?es @ [[]]" using Split_lines by metis
  ultimately show ?thesis unfolding r by auto
qed

definition demo_event :: Event where
  "demo_event = \<lparr>au_ID = ''1'', au_OccurredAtMs = 5, au_ConnectionID = [CHR 0x0A, CHR 0x22], au_DeploymentID = [], au_AccountID = [], au_SSHKeyID = [],
     au_EventType = ''e'', au_Result = ''success'', au_PeerAddress = [], au_Target = [], au_CredentialGeneration = None, au_DurationMs = None,
     au_BytesUp = None, au_BytesDown = None, au_DetailCode = []\<rparr>"

definition demo_log :: JSONLFileLogger where
  "demo_log = \<lparr>lg_files = [], lg_open = auditFileName [] ''2026-01-01'', lg_closed = False, lg_fsync = True, lg_dateStr = ''2026-01-01''\<rparr>"

theorem audit_file_refines_events_witness:
  "length (Split (CHR 0x0A) (content (snd (audit_run [] (map (Pair calm_io) [(''2026-01-02'', demo_event), (''2026-01-02'', demo_event)]) demo_log))
     (auditFileName [] ''2026-01-02''))) = 3"
proof -
  have "logger_ok [] demo_log" "content demo_log (auditFileName [] ''2026-01-02'') = []"
    by (simp_all add: logger_ok_def content_def demo_log_def)
  from audit_file_refines_events [OF this, of "[(''2026-01-02'', demo_event), (''2026-01-02'', demo_event)]"]
  show ?thesis by (auto split: prod.splits)
qed

text \<open>C40. The log names no reason for four kinds of failure. Redaction replaces exactly the texts of token characters with a
  separator that has at least twenty characters before or after it. Four of the gateway's own detail codes are such
  texts, so their events are written without the reason; the others are written as they are.\<close>

theorem detail_codes_redacted:
  "redactString s = (if list_all token_char s \<and> (\<exists>i<length s. token_sep (s ! i) \<and> (20 \<le> i \<or> 20 \<le> length s - Suc i)) then ''[REDACTED]'' else s)
   \<and> (\<forall>code\<in>{AUTH_CREDENTIAL_UNAUTHORIZED, AUTH_CREDENTIAL_FORBIDDEN, AUTH_WRONG_CODER_IDENTITY, TUNNEL_PROCESS_START_FAILED}.
        redactString code = ''[REDACTED]'')
   \<and> (\<forall>code\<in>{AUTH_UNKNOWN_KEY, AUTH_ACCOUNT_DISABLED, AUTH_CREDENTIAL_MISSING, AUTH_CODER_UNAVAILABLE, AUTH_CODER_INCOMPATIBLE,
        ROUTE_INVALID_PAYLOAD, ROUTE_PORT_DENIED, ROUTE_NAME_INVALID, TUNNEL_LIMIT_REACHED, TUNNEL_START_TIMEOUT, TUNNEL_CODER_EXITED,
        TUNNEL_STREAM_FAILED, TUNNEL_CANCELLED, STORE_UNAVAILABLE, STORE_GENERATION_CONFLICT, CRYPTO_KEY_UNAVAILABLE, CRYPTO_DECRYPT_FAILED}.
        redactString code = code)"
proof (intro conjI)
  show "redactString s = (if list_all token_char s \<and> (\<exists>i<length s. token_sep (s ! i) \<and> (20 \<le> i \<or> 20 \<le> length s - Suc i)) then ''[REDACTED]'' else s)"
    by (auto simp: redactString_def tokenPattern_iff)
  show "\<forall>code\<in>{AUTH_CREDENTIAL_UNAUTHORIZED, AUTH_CREDENTIAL_FORBIDDEN, AUTH_WRONG_CODER_IDENTITY, TUNNEL_PROCESS_START_FAILED}.
      redactString code = ''[REDACTED]''" using codes_token_like by (simp add: redact_token_like)
  show "\<forall>code\<in>{AUTH_UNKNOWN_KEY, AUTH_ACCOUNT_DISABLED, AUTH_CREDENTIAL_MISSING, AUTH_CODER_UNAVAILABLE, AUTH_CODER_INCOMPATIBLE,
        ROUTE_INVALID_PAYLOAD, ROUTE_PORT_DENIED, ROUTE_NAME_INVALID, TUNNEL_LIMIT_REACHED, TUNNEL_START_TIMEOUT, TUNNEL_CODER_EXITED,
        TUNNEL_STREAM_FAILED, TUNNEL_CANCELLED, STORE_UNAVAILABLE, STORE_GENERATION_CONFLICT, CRYPTO_KEY_UNAVAILABLE, CRYPTO_DECRYPT_FAILED}.
        redactString code = code" using codes_kept by (simp add: redact_token_like)
qed

theorem detail_codes_redacted_witness: "redactString AUTH_CREDENTIAL_FORBIDDEN \<noteq> redactString AUTH_UNKNOWN_KEY"
proof -
  have "redactString AUTH_CREDENTIAL_FORBIDDEN = ''[REDACTED]''" "redactString AUTH_UNKNOWN_KEY = AUTH_UNKNOWN_KEY" using detail_codes_redacted by blast+
  then show ?thesis by (simp add: AUTH_UNKNOWN_KEY_def)
qed

text \<open>Retention deletes exactly the expired files. A sweep that can read the directory deletes the files whose name carries
  a date before the cutoff and that can be deleted, and nothing else; the file the logger writes for a day is recognised
  under every instance suffix, so it is never deleted within the retention period, and is deleted when it is listed,
  older and deletable.\<close>

theorem retention_exact:
  assumes "PruneAuditFiles False re retentionDays today entries files = Some (gone, files')" "CHR ''.'' \<notin> set date" "parse_date date = Some day"
  shows "map_of files' name = (if name \<in> set gone then None else map_of files name)
    \<and> (auditFileName sfx date \<in> set gone \<longleftrightarrow>
        day < today - retentionDays \<and> (auditFileName sfx date, False) \<in> set entries \<and> \<not> re (auditFileName sfx date))
    \<and> (name \<in> set gone \<longrightarrow> (\<exists>d. file_date name = Some d \<and> d < today - retentionDays))"
proof -
  have g: "gone = expired (today - retentionDays) re entries" "files' = filter (\<lambda>p. fst p \<notin> set gone) files"
    using assms(1) by (auto simp: PruneAuditFiles_def prune_spec fold_gm_delete)
  have "map_of files' name = (if name \<in> set gone then None else map_of files name)"
    unfolding g(2) using map_of_filter_keep [of name "set gone" files] by (auto simp: map_of_eq_None_iff)
  moreover have "auditFileName sfx date \<in> set gone \<longleftrightarrow> day < today - retentionDays \<and> (auditFileName sfx date, False) \<in> set entries \<and> \<not> re (auditFileName sfx date)"
    unfolding g(1) expired_def using file_date_name [OF assms(2), of sfx] assms(3) by force
  ultimately show ?thesis unfolding g(1) expired_def by force
qed

theorem retention_exact_witness:
  "''audit-2026-01-01.pod.jsonl'' \<notin> set (fst (the (PruneAuditFiles False (\<lambda>_. False) 30 20454 [(''audit-2026-01-01.pod.jsonl'', False)] [])))"
proof -
  have "parse_date ''2026-01-01'' = Some 20454" by code_simp
  from retention_exact [of "\<lambda>_. False" 30 20454 "[(''audit-2026-01-01.pod.jsonl'', False)]" "[]" _ _ "''2026-01-01''", OF _ _ this, of _ _ "[]" "''pod''"]
  show ?thesis by (auto simp: PruneAuditFiles_def auditFileName_def prune_spec)
qed

text \<open>One failed close silences the log. When the file of the old day reports an error while it is closed at midnight, the
  comment promises that it stays open and the next call retries; the handle is closed all the same, so every later
  call fails, on any day and with a file system that works again, and no event is written any more.\<close>

theorem failed_close_silences_log:
  assumes "today \<noteq> lg_dateStr l" "\<not> io_openErr io" "io_closeErr io"
  shows "fst (audit_Record sfx io today e l) = Some CloseErr
    \<and> (\<forall>rs. None \<notin> set (fst (audit_run sfx rs (snd (audit_Record sfx io today e l))))
        \<and> content (snd (audit_run sfx rs (snd (audit_Record sfx io today e l)))) name = content l name)"
proof -
  have c: "fst (audit_Record sfx io today e l) = Some CloseErr" "lg_closed (snd (audit_Record sfx io today e l))"
    "content (snd (audit_Record sfx io today e l)) name = content l name"
    using assms content_open [of "auditFileName sfx today" "lg_files l" name]
    by (auto simp: audit_Record_def rollIfDayChangedLocked_def Let_def content_def)
  then show ?thesis using run_closed [OF c(2)] by simp
qed

theorem failed_close_silences_log_witness:
  "fst (audit_run [] [(calm_io, ''2026-01-02'', demo_event)] (snd (audit_Record [] (calm_io\<lparr>io_closeErr := True\<rparr>) ''2026-01-02'' demo_event demo_log)))
     \<noteq> [None]"
  using failed_close_silences_log [of "''2026-01-02''" demo_log "calm_io\<lparr>io_closeErr := True\<rparr>" "[]" demo_event "[]"]
  by (auto simp: demo_log_def calm_io_def dest: spec [of _ "[(calm_io, ''2026-01-02'', demo_event)]"])

end
