(* ===== verification/Cli.thy ===== *)
theory Cli
  imports ConfigCheck
begin

text \<open>
  The command line (\<open>internal/app\<close>): global flags and the dispatch of commands (\<open>app.go\<close>), the reading of secrets and
  confirmations (\<open>prompt.go\<close>), what connects the configuration to the components (\<open>config_glue.go\<close>), and the
  administration of accounts, keys and credentials (\<open>admin.go\<close>, \<open>credential.go\<close>). A command is a computation on the state
  directory, the input of the user and the lines it printed; an early return with an exit code is its error. The parts
  of the \<open>flag\<close> package that the code uses are modelled. The decoder of the configuration, the URL parser, the parser of
  public keys and certificates, and the derivation of a UUID from a name are parameters. A line of output is named, with
  the values it shows.
\<close>

section \<open>Command lines (package flag)\<close>

text \<open>A flag set: the name of every flag and whether it is a boolean flag. The value of a flag that was not given is
  empty, respectively false.\<close>

type_synonym flagSet = "(string \<times> bool) list"
type_synonym flagValues = "(string \<times> string) list"

definition strconv_ParseBool :: "string \<Rightarrow> bool option" where
  "strconv_ParseBool s =
     (if s \<in> set [''1'', ''t'', ''T'', ''TRUE'', ''true'', ''True''] then Some True
      else if s \<in> set [''0'', ''f'', ''F'', ''FALSE'', ''false'', ''False''] then Some False
      else None)"

text \<open>\<open>name\<close> up to the first equals sign, which cannot be its first character, and the value behind it.\<close>

definition cut_value :: "string \<Rightarrow> string \<times> string option" where
  "cut_value name = (case name of
     [] \<Rightarrow> ([], None)
   | c # cs \<Rightarrow> (case dropWhile (\<lambda>d. d \<noteq> CHR ''='') cs of
        [] \<Rightarrow> (name, None)
      | _ # value \<Rightarrow> (c # takeWhile (\<lambda>d. d \<noteq> CHR ''='') cs, Some value)))"

text \<open>\<open>FlagSet.Parse\<close>: the values set so far, the last one of a flag first, and the arguments that are left. An error is a
  usage error of the command, the request for help too.\<close>

fun flag_Parse :: "flagSet \<Rightarrow> flagValues \<Rightarrow> string list \<Rightarrow> (flagValues \<times> string list) option" where
  "flag_Parse fs vals [] = Some (vals, [])"
| "flag_Parse fs vals (s # args) =
     (if length s < 2 \<or> s ! 0 \<noteq> CHR ''-'' then Some (vals, s # args)
      else if s = ''--'' then Some (vals, args)
      else
      let name = (if s ! 1 = CHR ''-'' then drop 2 s else drop 1 s) in
      if name = [] \<or> name ! 0 = CHR ''-'' \<or> name ! 0 = CHR ''='' then None
      else case cut_value name of
        (name, value) \<Rightarrow>
          (case map_of fs name of
             None \<Rightarrow> None
           | Some True \<Rightarrow>
               (case strconv_ParseBool (case value of None \<Rightarrow> ''true'' | Some v \<Rightarrow> v) of
                  None \<Rightarrow> None
                | Some b \<Rightarrow> flag_Parse fs ((name, if b then ''true'' else []) # vals) args)
           | Some False \<Rightarrow>
               (case value of
                  Some v \<Rightarrow> flag_Parse fs ((name, v) # vals) args
                | None \<Rightarrow> (case args of
                      [] \<Rightarrow> None
                    | v # rest \<Rightarrow> flag_Parse fs ((name, v) # vals) rest))))"

definition flag_String :: "flagValues \<Rightarrow> string \<Rightarrow> string" where
  "flag_String vals name = (case map_of vals name of None \<Rightarrow> [] | Some v \<Rightarrow> v)"

definition flag_Bool :: "flagValues \<Rightarrow> string \<Rightarrow> bool" where
  "flag_Bool vals name \<longleftrightarrow> flag_String vals name \<noteq> []"

section \<open>Global flags (app.go)\<close>

definition exitOK :: int where "exitOK = (0 :: int)"
definition exitError :: int where "exitError = (1 :: int)"
definition exitUsage :: int where "exitUsage = (2 :: int)"

text \<open>The global part of \<open>cli\<close>; an address is \<open>None\<close> when its flag was omitted.\<close>

record globals =
  gl_stateDir :: string
  gl_configPath :: string
  gl_listenAddress :: "string option"
  gl_metricsAddress :: "string option"
  gl_healthAddress :: "string option"

definition isGlobalValueFlag :: "string \<Rightarrow> bool" where
  "isGlobalValueFlag arg \<longleftrightarrow> arg = ''--state-dir'' \<or> arg = ''--config'' \<or> arg = ''--listen-address''
     \<or> arg = ''--metrics-address'' \<or> arg = ''--health-address''"

text \<open>\<open>strings.Cut\<close> at the first equals sign.\<close>

definition strings_Cut :: "string \<Rightarrow> string \<times> string \<times> bool" where
  "strings_Cut s = (case dropWhile (\<lambda>c. c \<noteq> CHR ''='') s of
     [] \<Rightarrow> (s, [], False)
   | _ # rest \<Rightarrow> (takeWhile (\<lambda>c. c \<noteq> CHR ''='') s, rest, True))"

definition globalFlagWithValue :: "string \<Rightarrow> string" where
  "globalFlagWithValue arg = (case strings_Cut arg of (name, _, ok) \<Rightarrow> if ok \<and> isGlobalValueFlag name then name else [])"

text \<open>\<open>filepath.Abs\<close> in the working directory \<open>cwd\<close>; \<open>None\<close> when that directory cannot be determined.\<close>

definition filepath_Abs :: "string option \<Rightarrow> string \<Rightarrow> string option" where
  "filepath_Abs cwd p = (if filepath_IsAbs p then Some (filepath_Clean p) else case cwd of None \<Rightarrow> None | Some d \<Rightarrow> Some (filepath_Join d p))"

definition set_global :: "string option \<Rightarrow> string \<Rightarrow> string \<Rightarrow> globals \<Rightarrow> globals option" where
  "set_global cwd name val c =
     (if name = ''--state-dir'' then map_option (\<lambda>d. c\<lparr>gl_stateDir := d\<rparr>) (filepath_Abs cwd val)
      else if name = ''--config'' then Some (c\<lparr>gl_configPath := val\<rparr>)
      else if name = ''--listen-address'' then Some (c\<lparr>gl_listenAddress := Some val\<rparr>)
      else if name = ''--metrics-address'' then Some (c\<lparr>gl_metricsAddress := Some val\<rparr>)
      else if name = ''--health-address'' then Some (c\<lparr>gl_healthAddress := Some val\<rparr>)
      else Some c)"

text \<open>\<open>None\<close> is an error.\<close>

fun parseGlobalFlags :: "string option \<Rightarrow> globals \<Rightarrow> string list \<Rightarrow> (globals \<times> string list) option" where
  "parseGlobalFlags cwd c [] = Some (c, [])"
| "parseGlobalFlags cwd c (a # args) =
     (if a = ''--'' then Some (c, args)
      else if isGlobalValueFlag a then
        (case args of
           [] \<Rightarrow> None
         | val # rest \<Rightarrow>
             if val = [] then None
             else (case set_global cwd a val c of None \<Rightarrow> None | Some c \<Rightarrow> parseGlobalFlags cwd c rest))
      else if globalFlagWithValue a \<noteq> [] then
        (case strings_Cut a of
           (name, val, _) \<Rightarrow>
             if val = [] then None
             else (case set_global cwd name val c of None \<Rightarrow> None | Some c \<Rightarrow> parseGlobalFlags cwd c args))
      else Some (c, a # args))"

section \<open>The state of a command\<close>

datatype cliLine =
    Complaint string
  | StoreComplaint string serror
  | TokenComplaint CredentialError
  | UsageOf string
  | AccountCreated Account string | NoAccounts | AccountLine Account | AccountSwitched uuid bool
  | KeyAdded SSHKeyRecord string | NoKeys | KeyLine SSHKeyRecord | KeySwitched uuid bool
  | Disconnected uuid
  | CredentialStatus uuid CredentialRecord
  | CredentialStored CoderIdentity uuid int64 | CredentialCleared uuid int64
  | SecretPrompt | BindPrompt CoderIdentity uuid

text \<open>\<open>cx_tty\<close> are the outcomes of the reads from the terminal: the bytes of a line, or no terminal.\<close>

record cliRun =
  cx_store :: store
  cx_stdin :: bytes
  cx_tty :: "bytes option list"
  cx_lines :: "cliLine list"

type_synonym 'a cli = "(cliRun, int, 'a) sr"

definition say :: "cliLine \<Rightarrow> unit cli" where
  "say l = (\<lambda>s. (Inr (), s\<lparr>cx_lines := cx_lines s @ [l]\<rparr>))"

definition exit_with :: "int \<Rightarrow> cliLine \<Rightarrow> 'a cli" where
  "exit_with code l = bnd (say l) (\<lambda>_. raise code)"

text \<open>An operation of the store whose error the command inspects, and one whose error ends the command.\<close>

definition on_store :: "'a stm \<Rightarrow> (serror + 'a) cli" where
  "on_store m = (\<lambda>s. case m (cx_store s) of (r, t) \<Rightarrow> (Inr r, s\<lparr>cx_store := t\<rparr>))"

definition try_store :: "string \<Rightarrow> 'a stm \<Rightarrow> 'a cli" where
  "try_store what m = bnd (on_store m) (\<lambda>r. case r of Inl e \<Rightarrow> exit_with exitError (StoreComplaint what e) | Inr a \<Rightarrow> ret a)"

definition run_cli :: "unit cli \<Rightarrow> cliRun \<Rightarrow> int \<times> cliRun" where
  "run_cli m s = (case m s of (Inl code, t) \<Rightarrow> (code, t) | (Inr _, t) \<Rightarrow> (exitOK, t))"

section \<open>Input (app.go, prompt.go)\<close>

text \<open>\<open>trimLineEnd\<close> removes every line feed and carriage return from the end.\<close>

definition trimLineEnd :: "string \<Rightarrow> string" where
  "trimLineEnd s = rev (dropWhile (\<lambda>c. c = CHR 0x0A \<or> c = CHR 0x0D) (rev s))"

text \<open>A line of the shared reader; \<open>None\<close> at the end of the input.\<close>

definition readLine_cli :: "string option cli" where
  "readLine_cli = (\<lambda>s. let line = takeWhile (\<lambda>c. c \<noteq> CHR 0x0A) (cx_stdin s); rest = dropWhile (\<lambda>c. c \<noteq> CHR 0x0A) (cx_stdin s) in
     (Inr (if cx_stdin s = [] then None else Some (trimLineEnd (line @ take 1 rest))), s\<lparr>cx_stdin := drop 1 rest\<rparr>))"

definition readTTY :: "string option cli" where
  "readTTY = (\<lambda>s. case cx_tty s of
     [] \<Rightarrow> (Inr None, s)
   | t # ts \<Rightarrow> (Inr (case t of None \<Rightarrow> None | Some line \<Rightarrow> if line = [] then None else Some (trimLineEnd line)), s\<lparr>cx_tty := ts\<rparr>))"

definition readSecret :: "bool \<Rightarrow> string option cli" where
  "readSecret useStdin =
     (if useStdin then readLine_cli
      else bnd (say SecretPrompt) (\<lambda>_. bnd readTTY (\<lambda>r. case r of Some line \<Rightarrow> ret (Some line) | None \<Rightarrow> readLine_cli)))"

text \<open>\<open>strings.EqualFold\<close> with the word yes: the folding of the letter s includes the long s (two bytes).\<close>

definition fold_yes :: "string \<Rightarrow> bool" where
  "fold_yes s = (case s of
     y # e # z \<Rightarrow> (y = CHR ''y'' \<or> y = CHR ''Y'') \<and> (e = CHR ''e'' \<or> e = CHR ''E'')
       \<and> (z = ''s'' \<or> z = ''S'' \<or> z = [CHR 0xC5, CHR 0xBF])
   | _ \<Rightarrow> False)"

definition confirm :: "golib \<Rightarrow> cliLine \<Rightarrow> bool \<Rightarrow> bool option cli" where
  "confirm L prompt useStdin =
     bnd (say prompt) (\<lambda>_.
     bnd (if useStdin then readLine_cli else bnd readTTY (\<lambda>r. case r of Some line \<Rightarrow> ret (Some line) | None \<Rightarrow> readLine_cli)) (\<lambda>line.
     ret (map_option (\<lambda>l. fold_yes (TrimSpace L l)) line)))"

section \<open>From the configuration to the components (config_glue.go, coderapi)\<close>

record Options =
  op_Timeout :: int
  op_RootCAs :: "bytes option"
  op_ClientCertificate :: bytes
  op_ClientKey :: bytes

text \<open>The surroundings of a command. \<open>ca_configDir\<close> is the absolute directory of a configuration file, \<open>ca_present\<close>
  tells whether the state directory exists, \<open>ca_ctxErr\<close> whether the process was interrupted, \<open>ca_exchange\<close> is the HTTP exchange of a client with these options.\<close>

record cliEnv =
  ca_env :: env
  ca_globals :: globals
  ca_yaml :: "bytes \<Rightarrow> Config \<Rightarrow> Config option"
  ca_configDir :: "string \<Rightarrow> string"
  ca_readFile :: "string \<Rightarrow> bytes option"
  ca_present :: bool
  ca_keys :: key_world
  ca_urlString :: "string \<Rightarrow> string option"
  ca_NewSHA1 :: "string \<Rightarrow> uuid"
  ca_hasCerts :: "bytes \<Rightarrow> bool"
  ca_systemPool :: bool
  ca_keyPair :: "bytes \<Rightarrow> bytes \<Rightarrow> bool"
  ca_exchange :: "Deployment \<Rightarrow> Options \<Rightarrow> api"
  ca_ctxErr :: bool
  ca_parseKey :: "bytes \<Rightarrow> (pubkey \<times> string \<times> bytes) option"

abbreviation ca_lib :: "cliEnv \<Rightarrow> golib" where "ca_lib C \<equiv> env_lib (ca_env C)"

definition parse_at :: "cliEnv \<Rightarrow> string \<Rightarrow> Config option" where
  "parse_at C path = Parse (ca_yaml C) (ca_configDir C path) (ca_readFile C path)"

definition loadConfig :: "cliEnv \<Rightarrow> Config option" where
  "loadConfig C =
     (let dir = gl_stateDir (ca_globals C); path = gl_configPath (ca_globals C) in
      if path = [] \<and> dir = [] then None
      else case parse_at C (if path = [] then DefaultConfigPath dir else path) of
        None \<Rightarrow> None
      | Some cfg \<Rightarrow> let cfg = ApplyStateDir dir cfg in if sd_Dir (cfg_State cfg) = [] then None else Some cfg)"

definition DeploymentUUID :: "cliEnv \<Rightarrow> string \<Rightarrow> uuid" where
  "DeploymentUUID C label = ca_NewSHA1 C (''coder-ssh-gateway/deployment/'' @ label)"

definition DeploymentFromConfig :: "cliEnv \<Rightarrow> Config \<Rightarrow> Deployment option" where
  "DeploymentFromConfig C cfg =
     (let d = cfg_Deployment cfg;
          dep = \<lparr>dep_ID = DeploymentUUID C (dp_ID d), dep_CoderURL = None, dep_CoderBinary = dp_CoderBinary d,
            dep_GlobalConfig = dp_CoderGlobalConfig d, dep_WorkingDir = dp_WorkingDirectory d, dep_Autostart = dp_Autostart d,
            dep_WaitMode = dp_Wait d,
            dep_TLS = \<lparr>tls_CAFile = tl_CAFile (dp_TLS d), tls_CertFile = tl_ClientCertFile (dp_TLS d), tls_KeyFile = tl_ClientKeyFile (dp_TLS d)\<rparr>,
            dep_Network = \<lparr>net_Proxy = nw_HTTPSProxy (dp_Network d), net_NoProxy = nw_NoProxy (dp_Network d),
              net_DisableNetworkTelemetry = nw_DisableCoderTelemetry (dp_Network d)\<rparr>\<rparr> in
      if dp_CoderURL d = [] then Some dep
      else map_option (\<lambda>u. dep\<lparr>dep_CoderURL := Some u\<rparr>) (ca_urlString C (dp_CoderURL d)))"

definition KeyProviderFromConfig :: "Config \<Rightarrow> SourceKeyProvider" where
  "KeyProviderFromConfig cfg = \<lparr>skp_Keys = map_of (en_Keys (cfg_Encryption cfg)), skp_ActiveID = en_ActiveKeyID (cfg_Encryption cfg),
     skp_cache = Map.empty\<rparr>"

text \<open>The provider as the store asks it, while the sources of the keys do not change.\<close>

definition keyprov_of :: "golib \<Rightarrow> key_world \<Rightarrow> SourceKeyProvider \<Rightarrow> keyprov" where
  "keyprov_of L W p = \<lparr>kp_ActiveKey = (case fst (provider_ActiveKey L W False p) of Inl _ \<Rightarrow> None | Inr k \<Rightarrow> Some k),
     kp_Key = (\<lambda>i. case fst (provider_Key L W False i p) of Inl _ \<Rightarrow> None | Inr k \<Rightarrow> Some k)\<rparr>"

definition VerifierOptionsFromConfig :: "cliEnv \<Rightarrow> Config \<Rightarrow> Options option" where
  "VerifierOptionsFromConfig C cfg =
     (let t = dp_TLS (cfg_Deployment cfg);
          opts = \<lparr>op_Timeout = dp_TokenValidationTimeout (cfg_Deployment cfg), op_RootCAs = None, op_ClientCertificate = [], op_ClientKey = []\<rparr> in
      case (if tl_CAFile t = [] then Some opts
            else case ca_readFile C (tl_CAFile t) of
              None \<Rightarrow> None
            | Some pem \<Rightarrow> if ca_hasCerts C pem then Some (opts\<lparr>op_RootCAs := Some pem\<rparr>) else None) of
        None \<Rightarrow> None
      | Some opts \<Rightarrow>
          if tl_ClientCertFile t \<noteq> [] \<and> tl_ClientKeyFile t \<noteq> [] then
            (case ca_readFile C (tl_ClientCertFile t) of
               None \<Rightarrow> None
             | Some cert \<Rightarrow> (case ca_readFile C (tl_ClientKeyFile t) of
                   None \<Rightarrow> None
                 | Some key \<Rightarrow> Some (opts\<lparr>op_ClientCertificate := cert, op_ClientKey := key\<rparr>)))
          else Some opts)"

text \<open>\<open>NewHTTPClient\<close> up to the construction of the client, and \<open>New\<close> of the verifier.\<close>

definition NewHTTPClient :: "cliEnv \<Rightarrow> Options \<Rightarrow> bool" where
  "NewHTTPClient C opts \<longleftrightarrow> (op_RootCAs opts = None \<longrightarrow> ca_systemPool C)
     \<and> ((op_ClientCertificate opts \<noteq> []) \<longleftrightarrow> (op_ClientKey opts \<noteq> []))
     \<and> (op_ClientCertificate opts \<noteq> [] \<longrightarrow> ca_keyPair C (op_ClientCertificate opts) (op_ClientKey opts))"

definition verifier_New :: "cliEnv \<Rightarrow> Deployment \<Rightarrow> Options \<Rightarrow> api option" where
  "verifier_New C dep opts = (if dep_CoderURL dep = None \<or> \<not> NewHTTPClient C opts then None else Some (ca_exchange C dep opts))"

text \<open>\<open>openStore\<close>: a failure after the store was opened closes it again.\<close>

definition store_setup :: "cliEnv \<Rightarrow> Config \<Rightarrow> unit stm" where
  "store_setup C cfg =
     bnd (SetKeyProvider (Some (keyprov_of (ca_lib C) (ca_keys C) (KeyProviderFromConfig cfg)))) (\<lambda>_.
     bnd (guard (en_ActiveKeyID (cfg_Encryption cfg) = []
            \<or> (case fst (provider_ActiveKey (ca_lib C) (ca_keys C) False (KeyProviderFromConfig cfg)) of Inl _ \<Rightarrow> False | Inr _ \<Rightarrow> True))
          (RawErr ProviderErr)) (\<lambda>_.
     case DeploymentFromConfig C cfg of
       None \<Rightarrow> raise (RawErr NoCause)
     | Some dep \<Rightarrow> EnsureDeployment (ca_env C) dep))"

definition openStore :: "cliEnv \<Rightarrow> Config \<Rightarrow> unit stm" where
  "openStore C cfg =
     bnd (store_Open (ca_env C) (sd_Dir (cfg_State cfg)) (ca_present C)) (\<lambda>_.
     bnd (attempt (store_setup C cfg)) (\<lambda>r.
     case r of
       Inr _ \<Rightarrow> ret ()
     | Inl e \<Rightarrow> bnd (attempt (store_Close (ca_env C))) (\<lambda>_. raise e)))"

section \<open>Administration (admin.go)\<close>

definition parseUUIDFlag :: "cliEnv \<Rightarrow> string \<Rightarrow> uuid option" where
  "parseUUIDFlag C val = (if val = [] then None else uuid_Parse (ca_lib C) val)"

definition uuid_flag :: "cliEnv \<Rightarrow> string \<Rightarrow> flagValues \<Rightarrow> uuid cli" where
  "uuid_flag C name vals = (case parseUUIDFlag C (flag_String vals name) of
     None \<Rightarrow> exit_with exitUsage (Complaint name)
   | Some i \<Rightarrow> ret i)"

definition parse_flags :: "flagSet \<Rightarrow> string list \<Rightarrow> flagValues cli" where
  "parse_flags fs args = (case flag_Parse fs [] args of None \<Rightarrow> exit_with exitUsage (UsageOf ''flags'') | Some (vals, _) \<Rightarrow> ret vals)"

text \<open>\<open>loadConfigAndStore\<close> and the deferred closing of the store around the rest of a command.\<close>

definition loadConfigAndStore :: "cliEnv \<Rightarrow> Config cli" where
  "loadConfigAndStore C = (case loadConfig C of
     None \<Rightarrow> exit_with exitError (Complaint ''config'')
   | Some cfg \<Rightarrow> bnd (try_store ''opening state store'' (openStore C cfg)) (\<lambda>_. ret cfg))"

definition with_store :: "cliEnv \<Rightarrow> (Config \<Rightarrow> 'a cli) \<Rightarrow> 'a cli" where
  "with_store C body =
     bnd (loadConfigAndStore C) (\<lambda>cfg.
     bnd (attempt (body cfg)) (\<lambda>r.
     bnd (on_store (store_Close (ca_env C))) (\<lambda>_. lift_sum r)))"

definition account_of_flags :: "cliEnv \<Rightarrow> Config \<Rightarrow> flagValues \<Rightarrow> uuid \<Rightarrow> uuid option \<Rightarrow> Account" where
  "account_of_flags C cfg vals new coderUser = \<lparr>acct_ID = new, acct_DeploymentID = DeploymentUUID C (dp_ID (cfg_Deployment cfg)),
     acct_Label = flag_String vals ''label'', acct_CoderUserID = coderUser, acct_CachedUsername = [],
     acct_BindOnFirstToken = flag_Bool vals ''bind-on-first-token'', acct_Enabled = True\<rparr>"

definition accountAdd :: "cliEnv \<Rightarrow> string list \<Rightarrow> unit cli" where
  "accountAdd C args =
     bnd (parse_flags [(''label'', False), (''coder-user-id'', False), (''bind-on-first-token'', True), (''deployment'', False)] args) (\<lambda>vals.
     if flag_String vals ''label'' = [] then exit_with exitUsage (Complaint ''label'')
     else if (flag_String vals ''coder-user-id'' = []) = (\<not> flag_Bool vals ''bind-on-first-token'')
     then exit_with exitUsage (Complaint ''binding mode'')
     else with_store C (\<lambda>cfg.
       if flag_String vals ''deployment'' \<noteq> [] \<and> flag_String vals ''deployment'' \<noteq> dp_ID (cfg_Deployment cfg)
       then exit_with exitError (Complaint ''unknown deployment'')
       else
       bnd (try_store ''new'' (uuid_New (ca_env C))) (\<lambda>new.
       bnd (if flag_String vals ''coder-user-id'' = [] then ret None
            else case uuid_Parse (ca_lib C) (flag_String vals ''coder-user-id'') of
              None \<Rightarrow> exit_with exitUsage (Complaint ''coder-user-id'')
            | Some u \<Rightarrow> ret (Some u)) (\<lambda>coderUser.
       let acct = account_of_flags C cfg vals new coderUser in
       bnd (try_store ''adding account'' (AddAccount (ca_env C) acct)) (\<lambda>_.
       say (AccountCreated acct (dp_ID (cfg_Deployment cfg))))))))"

primrec say_all :: "cliLine list \<Rightarrow> unit cli" where
  "say_all [] = ret ()"
| "say_all (l # ls) = bnd (say l) (\<lambda>_. say_all ls)"

definition accountList :: "cliEnv \<Rightarrow> string list \<Rightarrow> unit cli" where
  "accountList C args =
     bnd (parse_flags [] args) (\<lambda>_.
     with_store C (\<lambda>cfg.
       bnd (try_store ''listing accounts'' (ListAccounts (ca_env C))) (\<lambda>accounts.
       if accounts = [] then say NoAccounts else say_all (map AccountLine accounts))))"

definition accountSetEnabled :: "cliEnv \<Rightarrow> string list \<Rightarrow> bool \<Rightarrow> unit cli" where
  "accountSetEnabled C args enabled =
     bnd (parse_flags [(''account'', False)] args) (\<lambda>vals.
     bnd (uuid_flag C ''account'' vals) (\<lambda>i.
     with_store C (\<lambda>cfg.
       bnd (try_store [] (SetAccountEnabled (ca_env C) i enabled)) (\<lambda>_.
       say (AccountSwitched i enabled)))))"

definition keyAdd :: "cliEnv \<Rightarrow> string list \<Rightarrow> unit cli" where
  "keyAdd C args =
     bnd (parse_flags [(''account'', False), (''file'', False), (''label'', False)] args) (\<lambda>vals.
     bnd (uuid_flag C ''account'' vals) (\<lambda>i.
     if flag_String vals ''file'' = [] then exit_with exitUsage (Complaint ''file'')
     else case ca_readFile C (flag_String vals ''file'') of
       None \<Rightarrow> exit_with exitError (Complaint ''reading key file'')
     | Some raw \<Rightarrow>
         (case ca_parseKey C raw of
            None \<Rightarrow> exit_with exitError (Complaint ''parsing public key'')
          | Some (pub, comment, rest) \<Rightarrow>
              if TrimSpace (ca_lib C) rest \<noteq> [] then exit_with exitError (Complaint ''more than one key'')
              else
              let label = (if flag_String vals ''label'' = [] then comment else flag_String vals ''label'') in
              with_store C (\<lambda>cfg.
                bnd (try_store ''adding key'' (AddKey (ca_env C) i pub label)) (\<lambda>rec. say (KeyAdded rec label))))))"

definition keyList :: "cliEnv \<Rightarrow> string list \<Rightarrow> unit cli" where
  "keyList C args =
     bnd (parse_flags [(''account'', False)] args) (\<lambda>vals.
     bnd (uuid_flag C ''account'' vals) (\<lambda>i.
     with_store C (\<lambda>cfg.
       bnd (try_store ''listing keys'' (ListKeysForAccount (ca_env C) i)) (\<lambda>keys.
       if keys = [] then say NoKeys else say_all (map KeyLine keys)))))"

definition keySetEnabled :: "cliEnv \<Rightarrow> string list \<Rightarrow> bool \<Rightarrow> unit cli" where
  "keySetEnabled C args enabled =
     bnd (parse_flags [(''key'', False)] args) (\<lambda>vals.
     bnd (uuid_flag C ''key'' vals) (\<lambda>i.
     with_store C (\<lambda>cfg.
       bnd (try_store [] (SetKeyEnabled (ca_env C) i enabled)) (\<lambda>_.
       say (KeySwitched i enabled)))))"

definition cmdDisconnect :: "cliEnv \<Rightarrow> string list \<Rightarrow> unit cli" where
  "cmdDisconnect C args =
     bnd (parse_flags [(''account'', False)] args) (\<lambda>vals.
     bnd (uuid_flag C ''account'' vals) (\<lambda>i.
     with_store C (\<lambda>cfg.
       bnd (try_store [] (GetAccount (ca_env C) i)) (\<lambda>_.
       bnd (try_store [] (SetAccountEnabled (ca_env C) i False)) (\<lambda>_.
       say (Disconnected i))))))"

section \<open>Credentials (credential.go)\<close>

definition credentialStatus :: "cliEnv \<Rightarrow> string list \<Rightarrow> unit cli" where
  "credentialStatus C args =
     bnd (parse_flags [(''account'', False)] args) (\<lambda>vals.
     bnd (uuid_flag C ''account'' vals) (\<lambda>i.
     with_store C (\<lambda>cfg.
       bnd (try_store [] (GetAccount (ca_env C) i)) (\<lambda>_.
       bnd (try_store ''loading credential'' (LoadCredentialRecord (ca_env C) i)) (\<lambda>rec.
       say (CredentialStatus i rec))))))"

definition read_token :: "bool \<Rightarrow> bytes cli" where
  "read_token useStdin =
     bnd (readSecret useStdin) (\<lambda>line.
     case line of
       None \<Rightarrow> exit_with exitError (Complaint ''reading token'')
     | Some raw \<Rightarrow> (case SanitizeToken raw of
           Inl _ \<Rightarrow> exit_with exitError (Complaint ''token format'')
         | Inr token \<Rightarrow> ret token))"

definition verify_token :: "cliEnv \<Rightarrow> Config \<Rightarrow> bytes \<Rightarrow> CoderIdentity cli" where
  "verify_token C cfg token =
     (case DeploymentFromConfig C cfg of
        None \<Rightarrow> exit_with exitError (Complaint ''coder_url'')
      | Some dep \<Rightarrow>
          (case VerifierOptionsFromConfig C cfg of
             None \<Rightarrow> exit_with exitError (Complaint ''verifier options'')
           | Some opts \<Rightarrow>
               (case verifier_New C dep opts of
                  None \<Rightarrow> exit_with exitError (Complaint ''verifier'')
                | Some api \<Rightarrow>
                    (case Verify (ca_lib C) api token of
                       Inl err \<Rightarrow> exit_with exitError (TokenComplaint err)
                     | Inr ident \<Rightarrow> ret ident))))"

text \<open>The identity rules: a bound account keeps its user, a first binding needs the flag of the account and the word yes.\<close>

definition check_binding :: "cliEnv \<Rightarrow> Account \<Rightarrow> CoderIdentity \<Rightarrow> bool \<Rightarrow> unit cli" where
  "check_binding C acct ident useStdin =
     (case acct_CoderUserID acct of
        Some u \<Rightarrow> if u \<noteq> ident_ID ident then exit_with exitError (Complaint ''token of another user'') else ret ()
      | None \<Rightarrow>
          if \<not> acct_BindOnFirstToken acct then exit_with exitError (Complaint ''unbound account'')
          else
          bnd (confirm (ca_lib C) (BindPrompt ident (acct_ID acct)) useStdin) (\<lambda>confirmed.
          case confirmed of
            None \<Rightarrow> exit_with exitError (Complaint ''reading confirmation'')
          | Some yes \<Rightarrow> if yes then ret () else exit_with exitError (Complaint ''bind not confirmed'')))"

definition store_token :: "cliEnv \<Rightarrow> bool \<Rightarrow> uuid \<Rightarrow> Config \<Rightarrow> unit cli" where
  "store_token C useStdin i cfg =
     bnd (try_store [] (GetAccount (ca_env C) i)) (\<lambda>acct.
     bnd (try_store ''loading credential'' (LoadCredentialRecord (ca_env C) i)) (\<lambda>rec.
     bnd (read_token useStdin) (\<lambda>token.
     bnd (verify_token C cfg token) (\<lambda>ident.
     bnd (check_binding C acct ident useStdin) (\<lambda>_.
     bnd (try_store ''storing credential'' (ReplaceCredential (ca_env C) (ca_ctxErr C)
            \<lparr>req_AccountID = i, req_ExpectedGeneration = cr_Generation rec, req_Token = token, req_Identity = ident\<rparr>)) (\<lambda>snap.
     say (CredentialStored ident i (snap_Generation snap))))))))"

definition credentialSet :: "cliEnv \<Rightarrow> string list \<Rightarrow> unit cli" where
  "credentialSet C args =
     bnd (parse_flags [(''account'', False), (''stdin'', True)] args) (\<lambda>vals.
     bnd (uuid_flag C ''account'' vals) (\<lambda>i.
     with_store C (store_token C (flag_Bool vals ''stdin'') i)))"

definition credentialClear :: "cliEnv \<Rightarrow> string list \<Rightarrow> unit cli" where
  "credentialClear C args =
     bnd (parse_flags [(''account'', False)] args) (\<lambda>vals.
     bnd (uuid_flag C ''account'' vals) (\<lambda>i.
     with_store C (\<lambda>cfg.
       bnd (try_store [] (GetAccount (ca_env C) i)) (\<lambda>_.
       bnd (try_store ''loading credential'' (LoadCredentialRecord (ca_env C) i)) (\<lambda>rec.
       bnd (try_store ''clearing credential'' (ClearCredential (ca_env C) (ca_ctxErr C) i (cr_Generation rec))) (\<lambda>_.
       say (CredentialCleared i (cr_Generation rec + 1))))))))"

section \<open>Dispatch\<close>

definition cmdAdminAccount :: "cliEnv \<Rightarrow> string list \<Rightarrow> unit cli" where
  "cmdAdminAccount C args = (case args of
     [] \<Rightarrow> exit_with exitUsage (UsageOf ''account'')
   | cmd # rest \<Rightarrow>
       if cmd = ''add'' then accountAdd C rest
       else if cmd = ''list'' then accountList C rest
       else if cmd = ''disable'' then accountSetEnabled C rest False
       else if cmd = ''enable'' then accountSetEnabled C rest True
       else exit_with exitUsage (UsageOf ''account''))"

definition cmdAdminKey :: "cliEnv \<Rightarrow> string list \<Rightarrow> unit cli" where
  "cmdAdminKey C args = (case args of
     [] \<Rightarrow> exit_with exitUsage (UsageOf ''key'')
   | cmd # rest \<Rightarrow>
       if cmd = ''add'' then keyAdd C rest
       else if cmd = ''list'' then keyList C rest
       else if cmd = ''disable'' then keySetEnabled C rest False
       else if cmd = ''enable'' then keySetEnabled C rest True
       else exit_with exitUsage (UsageOf ''key''))"

definition cmdAdminCredential :: "cliEnv \<Rightarrow> string list \<Rightarrow> unit cli" where
  "cmdAdminCredential C args = (case args of
     [] \<Rightarrow> exit_with exitUsage (UsageOf ''credential'')
   | cmd # rest \<Rightarrow>
       if cmd = ''status'' then credentialStatus C rest
       else if cmd = ''set'' then credentialSet C rest
       else if cmd = ''clear'' then credentialClear C rest
       else exit_with exitUsage (UsageOf ''credential''))"

definition cmdAdmin :: "cliEnv \<Rightarrow> string list \<Rightarrow> unit cli" where
  "cmdAdmin C args = (case args of
     [] \<Rightarrow> exit_with exitUsage (UsageOf ''admin'')
   | cmd # rest \<Rightarrow>
       if cmd = ''account'' then cmdAdminAccount C rest
       else if cmd = ''key'' then cmdAdminKey C rest
       else if cmd = ''credential'' then cmdAdminCredential C rest
       else if cmd = ''disconnect'' then cmdDisconnect C rest
       else exit_with exitUsage (UsageOf ''admin''))"

end
