(* ===== verification/CliProps.thy ===== *)
theory CliProps
  imports Cli StoreLife
begin

text \<open>
  What the administration commands guarantee: they keep the store well formed and give it back closed, whatever the
  arguments, the input and the failing system calls; a disconnected account can no longer log in; a token is stored only
  after the control plane has confirmed it for the account.
\<close>

section \<open>Rules for commands\<close>

lemma cli_keeps [keeps_intros]:
  "keeps (\<lambda>s. P (cx_store s)) (say l)" "keeps (\<lambda>s. P (cx_store s)) (exit_with c l)" "keeps (\<lambda>s. P (cx_store s)) readLine_cli"
  "keeps (\<lambda>s. P (cx_store s)) readTTY"
  by (auto simp: keeps_def say_def exit_with_def readLine_cli_def readTTY_def bnd_def Let_def split: list.split)

lemma on_store_keeps [keeps_intros]: "keeps P m \<Longrightarrow> keeps (\<lambda>s. P (cx_store s)) (on_store m)"
  by (fastforce simp: keeps_def on_store_def split: prod.split)

lemma try_store_keeps [keeps_intros]: "keeps P m \<Longrightarrow> keeps (\<lambda>s. P (cx_store s)) (try_store w m)"
  unfolding try_store_def by (intro keeps_intros)

lemma input_keeps [keeps_intros]:
  "keeps (\<lambda>s. P (cx_store s)) (readSecret b)" "keeps (\<lambda>s. P (cx_store s)) (confirm L l b)" "keeps (\<lambda>s. P (cx_store s)) (read_token b)"
  "keeps (\<lambda>s. P (cx_store s)) (verify_token C cfg tok)" "keeps (\<lambda>s. P (cx_store s)) (check_binding C acct ident b)"
  "keeps (\<lambda>s. P (cx_store s)) (parse_flags fs args)" "keeps (\<lambda>s. P (cx_store s)) (uuid_flag C n vals)"
  unfolding readSecret_def confirm_def read_token_def verify_token_def check_binding_def parse_flags_def uuid_flag_def
  by (intro keeps_intros)+

lemma say_all_keeps [keeps_intros]: "keeps (\<lambda>s. P (cx_store s)) (say_all ls)"
proof (induction ls)
  case (Cons l ls)
  then show ?case unfolding say_all.simps by (intro keeps_intros)
qed (simp add: keeps_def)

text \<open>A command that ends with a non-zero code never ends with zero.\<close>

named_theorems loud_intros "rules that a computation never fails with exit code zero"

definition loud :: "'a cli \<Rightarrow> bool" where
  "loud m \<longleftrightarrow> (\<forall>s t. m s \<noteq> (Inl exitOK, t))"

lemma loud_basic [loud_intros]:
  "loud (ret a)" "loud (say l)" "loud (on_store m)" "loud readLine_cli" "loud readTTY" "c \<noteq> exitOK \<Longrightarrow> loud (exit_with c l)"
  by (auto simp: loud_def say_def on_store_def readLine_cli_def readTTY_def exit_with_def bnd_def Let_def split: prod.split list.split)

lemma loud_bnd [loud_intros]: "loud m \<Longrightarrow> (\<And>a. loud (f a)) \<Longrightarrow> loud (bnd m f)"
  unfolding loud_def bnd_def by (auto split: prod.splits sum.splits)

lemma loud_cases [loud_intros]:
  "(b \<Longrightarrow> loud m) \<Longrightarrow> (\<not> b \<Longrightarrow> loud n) \<Longrightarrow> loud (if b then m else n)"
  "(x = None \<Longrightarrow> loud m) \<Longrightarrow> (\<And>a. x = Some a \<Longrightarrow> loud (f a)) \<Longrightarrow> loud (case x of None \<Rightarrow> m | Some a \<Rightarrow> f a)"
  "(\<And>e. y = Inl e \<Longrightarrow> loud (g e)) \<Longrightarrow> (\<And>a. y = Inr a \<Longrightarrow> loud (f a)) \<Longrightarrow> loud (case y of Inl e \<Rightarrow> g e | Inr a \<Rightarrow> f a)"
  "(\<And>a b. z = (a, b) \<Longrightarrow> loud (h a b)) \<Longrightarrow> loud (case z of (a, b) \<Rightarrow> h a b)"
  by (auto split: option.split sum.split prod.split)

lemma exit_codes [simp]: "exitError \<noteq> exitOK" "exitUsage \<noteq> exitOK"
  by (simp_all add: exitError_def exitUsage_def exitOK_def)

lemma loud_store [loud_intros]: "loud (try_store w m)" "loud (loadConfigAndStore C)"
  unfolding try_store_def loadConfigAndStore_def by (intro loud_intros exit_codes)+

lemma loud_with_store [loud_intros]: "(\<And>cfg. loud (body cfg)) \<Longrightarrow> loud (with_store C body)"
  using loud_store(2) [of C] unfolding loud_def with_store_def bnd_def
  by (auto simp: on_store_def attempt_def split: prod.splits sum.splits)

lemma loud_input [loud_intros]:
  "loud (readSecret b)" "loud (confirm L l b)" "loud (read_token b)" "loud (verify_token C cfg tok)" "loud (check_binding C acct ident b)"
  "loud (parse_flags fs args)" "loud (uuid_flag C n vals)"
  unfolding readSecret_def confirm_def read_token_def verify_token_def check_binding_def parse_flags_def uuid_flag_def
  by (intro loud_intros exit_codes)+

lemma run_cli_OK: "loud m \<Longrightarrow> run_cli m s = (exitOK, t) \<longleftrightarrow> m s = (Inr (), t)"
  by (auto simp: run_cli_def loud_def split: prod.splits sum.splits)

section \<open>Successful steps\<close>

lemma cli_Inr:
  "bnd m f s = (Inr b, t) \<longleftrightarrow> (\<exists>a u. m s = (Inr a, u) \<and> f a u = (Inr b, t))"
  "say l s = (r, t) \<longleftrightarrow> r = Inr () \<and> t = s\<lparr>cx_lines := cx_lines s @ [l]\<rparr>"
  "exit_with c l s \<noteq> (Inr b, t)"
  "try_store w m' s = (Inr a, t) \<longleftrightarrow> (\<exists>u. m' (cx_store s) = (Inr a, u) \<and> t = s\<lparr>cx_store := u\<rparr>)"
  by (auto simp: bnd_def say_def exit_with_def try_store_def on_store_def split: prod.splits sum.splits)

lemma uuid_flag_Inr: "uuid_flag C n vals s = (Inr i, t) \<longleftrightarrow> parseUUIDFlag C (flag_String vals n) = Some i \<and> t = s"
  by (auto simp: uuid_flag_def cli_Inr split: option.splits)

lemma parse_flags_Inr: "parse_flags fs args s = (Inr vals, t) \<longleftrightarrow> (\<exists>rest. flag_Parse fs [] args = Some (vals, rest)) \<and> t = s"
  by (auto simp: parse_flags_def cli_Inr split: option.splits)

lemma with_store_Inr:
  "with_store C body s = (Inr a, t) \<longleftrightarrow> (\<exists>cfg u v. loadConfig C = Some cfg \<and> openStore C cfg (cx_store s) = (Inr (), u)
     \<and> body cfg (s\<lparr>cx_store := u\<rparr>) = (Inr a, v) \<and> t = v\<lparr>cx_store := snd (store_Close (ca_env C) (cx_store v))\<rparr>)"
proof -
  have l: "loadConfigAndStore C s = (Inr cfg, w) \<longleftrightarrow> loadConfig C = Some cfg \<and> (\<exists>u. openStore C cfg (cx_store s) = (Inr (), u) \<and> w = s\<lparr>cx_store := u\<rparr>)"
    for cfg w by (auto simp: loadConfigAndStore_def cli_Inr split: option.splits)
  have c: "bnd (attempt m) (\<lambda>r. bnd (on_store (store_Close E)) (\<lambda>_. lift_sum r)) w = (Inr a, t)
      \<longleftrightarrow> (\<exists>v. m w = (Inr a, v) \<and> t = v\<lparr>cx_store := snd (store_Close E (cx_store v))\<rparr>)" for m :: "'a cli" and E w
    by (cases "m w"; cases "fst (m w)") (auto simp: bnd_def attempt_def on_store_def lift_sum_def split: prod.split)
  show ?thesis unfolding with_store_def cli_Inr(1) [of "loadConfigAndStore C"] c l by blast
qed

section \<open>The store around a command\<close>

text \<open>The keys a configuration gives the store.\<close>

definition command_keys :: "cliEnv \<Rightarrow> Config \<Rightarrow> keyprov" where
  "command_keys C cfg = keyprov_of (ca_lib C) (ca_keys C) (KeyProviderFromConfig cfg)"

lemma openStore_disk:
  "triple (disk I) (openStore C cfg) (\<lambda>_ s. \<exists>D. disk (I\<lparr>im_closed := False, im_kp := Some (command_keys C cfg), im_dep := D\<rparr>) s)
     (\<lambda>_ s. \<exists>k D. disk (I\<lparr>im_kp := k, im_dep := D\<rparr>) s \<or> disk (I\<lparr>im_kp := k, im_dep := D, im_closed := True\<rparr>) s)"
proof -
  let ?J = "\<lambda>D. I\<lparr>im_closed := False, im_kp := Some (command_keys C cfg), im_dep := D\<rparr>"
  let ?R = "\<lambda>_ s. \<exists>k D. disk (I\<lparr>im_kp := k, im_dep := D\<rparr>) s \<or> disk (I\<lparr>im_kp := k, im_dep := D, im_closed := True\<rparr>) s"
  have RI: "disk I s \<Longrightarrow> ?R e s" for s and e :: serror 
    by (rule exI [of _ "im_kp I"], rule exI [of _ "im_dep I"]) (cases I, simp)
  have ens: "triple (disk (I\<lparr>im_closed := False, im_kp := Some (command_keys C cfg)\<rparr>)) (EnsureDeployment (ca_env C) dep) (\<lambda>_ s. \<exists>D. disk (?J D) s)
      (\<lambda>_ s. \<exists>D. disk (?J D) s)" for dep
    by (rule triple_weaken [OF EnsureDeployment_disk]) auto
  have same: "disk (I\<lparr>im_closed := False, im_kp := Some (command_keys C cfg)\<rparr>) s \<Longrightarrow> \<exists>D. disk (?J D) s" for s
    by (rule exI [of _ "im_dep I"]) (cases I, simp)
  have prepare: "triple (disk (I\<lparr>im_closed := False, im_kp := None\<rparr>)) (store_setup C cfg) (\<lambda>_ s. \<exists>D. disk (?J D) s) (\<lambda>_ s. \<exists>D. disk (?J D) s)"
    unfolding store_setup_def command_keys_def [symmetric]
    by (rule triple_bnd [OF triple_weaken [OF SetKeyProvider_disk [where I = "I\<lparr>im_closed := False, im_kp := None\<rparr>" and R = "\<lambda>_ s. \<exists>D. disk (?J D) s"], where Q' = "\<lambda>_. disk (I\<lparr>im_closed := False, im_kp := Some (command_keys C cfg)\<rparr>)"]])
      (auto intro!: triple_guard triple_case_option triple_pure ens same)
  have shut: "triple (disk (?J D)) (store_Close (ca_env C)) (\<lambda>_. ?R ()) (\<lambda>_. ?R ())" for D
    by (rule triple_weaken [OF store_Close_disk [of "?J D"]]) (assumption, (simp, blast)+)
  have close: "triple (\<lambda>s. \<exists>D. disk (?J D) s) (bnd (attempt (store_Close (ca_env C))) (\<lambda>_. raise e)) Q ?R" for e Q
    by (rule triple_ex, rule triple_bnd [where Q = "\<lambda>_. ?R ()"], rule triple_attempt, rule shut) (auto intro!: triple_pure)
  show ?thesis unfolding openStore_def
  proof (rule triple_seq [OF store_Open_disk], erule RI, rule triple_bnd [where Q = "\<lambda>_ s. \<exists>D. disk (?J D) s"])
    show "triple (disk (I\<lparr>im_closed := False, im_kp := None\<rparr>)) (attempt (store_setup C cfg)) (\<lambda>_ s. \<exists>D. disk (?J D) s) ?R"
      by (rule triple_attempt) (rule prepare)
    show "triple (\<lambda>s. \<exists>D. disk (?J D) s) (case r of Inl e \<Rightarrow> bnd (attempt (store_Close (ca_env C))) (\<lambda>_. raise e) | Inr _ \<Rightarrow> ret ()) (\<lambda>_ s. \<exists>D. disk (?J D) s) ?R" for r
      by (cases r) (auto intro!: close triple_pure)
  qed
qed

lemma close_closed: "st_closed (snd (store_Close E s))"
  by (simp add: store_Close_def bnd_def modify_store_def syscall_def)

section \<open>The store stays well formed\<close>

lemma store_wf_keeps: "(\<And>I. keeps (disk I) m) \<Longrightarrow> keeps (store_wf L) m"
  by (metis disk_img keepsD keepsI store_wf_def store_wf_disk disk_iff)

lemma closed_wf [simp]: "wf_image L (I\<lparr>im_closed := c\<rparr>) = wf_image L I"
  by (simp add: wf_image_def)

lemma GetAccount_disk:
  "triple (disk I) (GetAccount E i)
     (\<lambda>a s. disk I s \<and> (\<exists>r. im_acc I (acct_name E i) = Some (NFile (Some r)) \<and> account_toCore (env_lib E) r = Inr a)) (\<lambda>_. disk I)"
  unfolding GetAccount_def by (rule triple_prefix [OF blocks_keep(1)], rule triple_weaken [OF getAccountLocked_disk]) auto

lemma GetAccount_keeps: "keeps (disk I) (GetAccount E i)"
  unfolding GetAccount_def by (intro keeps_intros)

lemma LoadRecord_keeps: "keeps (disk I) (LoadCredentialRecord E i)"
  unfolding LoadCredentialRecord_def by (intro keeps_intros)

lemma uuid_New_keeps: "keeps (disk I) (uuid_New E)"
  by (simp add: keeps_def uuid_New_def disk_def img_of_def dirs_distinct_def)

definition settled :: "golib \<Rightarrow> store \<Rightarrow> bool" where
  "settled L s \<longleftrightarrow> store_wf L s \<and> st_closed s"

lemma openStore_wf:
  assumes "store_wf L s" shows "store_wf L (snd (openStore C cfg s))" "settled L s \<Longrightarrow> fst (openStore C cfg s) = Inl e \<Longrightarrow> settled L (snd (openStore C cfg s))"
proof -
  have d: "disk (img_of s) s" and I: "wf_image L (img_of s)" using assms by (auto simp: store_wf_def disk_img)
  show "store_wf L (snd (openStore C cfg s))"
    by (rule store_wf_triple [OF assms openStore_disk]) (use I in \<open>auto elim!: store_wf_disk\<close>)
  then show "settled L (snd (openStore C cfg s))" if "settled L s" "fst (openStore C cfg s) = Inl e"
    using tripleD(2) [OF openStore_disk d, of C cfg e "snd (openStore C cfg s)"] that
    by (auto simp: settled_def disk_def img_of_def prod_eq_iff)
qed

text \<open>Opening, seeding and closing one by one.\<close>

lemma wf_close: "store_wf L u \<Longrightarrow> settled L (snd (store_Close E u))"
  unfolding settled_def
  by (rule conjI [OF store_wf_triple [OF _ store_Close_disk] close_closed]) (auto simp: store_wf_def [of L u] elim: store_wf_disk)

lemma wf_ensure: "store_wf L u \<Longrightarrow> store_wf L (snd (EnsureDeployment E dep u))"
  by (rule store_wf_triple [OF _ EnsureDeployment_disk]) (auto simp: store_wf_def [of L u] elim: store_wf_disk)

lemma wf_open:
  assumes "settled L s" shows "store_wf L (snd (store_Open E dir b s))" "fst (store_Open E dir b s) = Inl e \<Longrightarrow> settled L (snd (store_Open E dir b s))"
proof -
  have wf: "store_wf L s" and d: "disk (img_of s) s" and I: "wf_image L (img_of s)" using assms by (auto simp: settled_def store_wf_def disk_img)
  show w: "store_wf L (snd (store_Open E dir b s))" by (rule store_wf_triple [OF wf store_Open_disk]) (use I in \<open>auto elim: store_wf_disk\<close>)
  show "settled L (snd (store_Open E dir b s))" if "fst (store_Open E dir b s) = Inl e"
    using tripleD(2) [OF store_Open_disk d, of E dir b e "snd (store_Open E dir b s)"] that assms w
    by (auto simp: settled_def disk_def img_of_def prod_eq_iff)
qed

text \<open>A command body that keeps the store well formed, run between the opening and the closing, leaves it well formed and
  closed.\<close>

lemma with_store_settles [keeps_intros]:
  assumes "\<And>cfg. keeps (\<lambda>s. store_wf L (cx_store s)) (body cfg)"
  shows "keeps (\<lambda>s. settled L (cx_store s)) (with_store C body)"
proof (rule keepsI)
  fix s :: cliRun assume s: "settled L (cx_store s)"
  have wf: "store_wf L (cx_store s)" using s by (simp add: settled_def)
  note closed = wf_close [of L _ "ca_env C"]
  show "settled L (cx_store (snd (with_store C body s)))"
  proof (cases "loadConfig C")
    case None
    then show ?thesis using s by (simp add: with_store_def loadConfigAndStore_def exit_with_def say_def)
  next
    case (Some cfg)
    obtain r u where o: "openStore C cfg (cx_store s) = (r, u)" by fastforce
    then have u: "store_wf L u" "r = Inl e \<Longrightarrow> settled L u" for e using openStore_wf [OF wf, of C cfg] s by auto
    obtain q v where b: "body cfg (s\<lparr>cx_store := u\<rparr>) = (q, v)" by fastforce
    have v: "store_wf L (cx_store v)" using keepsD [OF assms, of "s\<lparr>cx_store := u\<rparr>" cfg] u(1) b by simp
    show ?thesis
      using Some o u closed [OF v] b
      by (cases r) (auto simp: with_store_def loadConfigAndStore_def try_store_def on_store_def exit_with_def say_def bnd_def split: prod.split)
  qed
qed

lemma keeps_case_list: "(xs = [] \<Longrightarrow> keeps P m) \<Longrightarrow> (\<And>y ys. xs = y # ys \<Longrightarrow> keeps P (f y ys)) \<Longrightarrow> keeps P (case xs of [] \<Rightarrow> m | y # ys \<Rightarrow> f y ys)"
  by (cases xs) auto

lemma keeps_bnd_value:
  "keeps P m \<Longrightarrow> (\<And>s a t. m s = (Inr a, t) \<Longrightarrow> keeps P (f a)) \<Longrightarrow> keeps P (bnd m f)"
  unfolding keeps_def bnd_def by (fastforce split: prod.splits sum.splits)

lemma commands_wf:
  assumes E: "env_lawful E"
  shows "keeps (store_wf (env_lib E)) (SetAccountEnabled E i b)" "keeps (store_wf (env_lib E)) (AddKey E i k l)"
  "keeps (store_wf (env_lib E)) (SetKeyEnabled E i b)" "keeps (store_wf (env_lib E)) (ReplaceCredential E c req)"
  "keeps (store_wf (env_lib E)) (ClearCredential E c i g)" "acct_ID a \<noteq> uuid_Nil \<Longrightarrow> keeps (store_wf (env_lib E)) (AddAccount E a)"
  by (auto intro!: keepsI exec_accounts_wf exec_keys_wf exec_credentials_wf E)

lemma reads_wf [keeps_intros]:
  "keeps (store_wf L) (ListAccounts E)" "keeps (store_wf L) (ListKeysForAccount E i)" "keeps (store_wf L) (GetAccount E i)"
  "keeps (store_wf L) (LoadCredentialRecord E i)" "keeps (store_wf L) (uuid_New E)"
  by (rule store_wf_keeps, rule ListAccounts_keeps ListKeys_keeps GetAccount_keeps LoadRecord_keeps uuid_New_keeps)+

lemma account_commands_settle:
  assumes E: "env_lawful (ca_env C)"
  shows "keeps (\<lambda>s. settled (ca_lib C) (cx_store s)) (accountAdd C args)"
    "keeps (\<lambda>s. settled (ca_lib C) (cx_store s)) (accountList C args)"
    "keeps (\<lambda>s. settled (ca_lib C) (cx_store s)) (accountSetEnabled C args b)"
    "keeps (\<lambda>s. settled (ca_lib C) (cx_store s)) (cmdDisconnect C args)"
proof -
  have add: "keeps (\<lambda>s. store_wf (ca_lib C) (cx_store s)) (bnd (try_store w (uuid_New (ca_env C))) (\<lambda>new. bnd (m new) (\<lambda>u.
      let acct = account_of_flags C cfg vals new u in bnd (try_store w' (AddAccount (ca_env C) acct)) (\<lambda>_. say (f acct)))))"
    if "\<And>new. keeps (\<lambda>s. store_wf (ca_lib C) (cx_store s)) (m new)" for w w' m cfg vals f
  proof (rule keeps_bnd_value)
    show "keeps (\<lambda>s. store_wf (ca_lib C) (cx_store s)) (try_store w (uuid_New (ca_env C)))" by (intro keeps_intros)
    fix s new t assume "try_store w (uuid_New (ca_env C)) s = (Inr new, t)"
    then have "new \<noteq> uuid_Nil" using E by (auto simp: cli_Inr uuid_New_def env_lawful_def)
    then show "keeps (\<lambda>s. store_wf (ca_lib C) (cx_store s)) (bnd (m new) (\<lambda>u.
        let acct = account_of_flags C cfg vals new u in bnd (try_store w' (AddAccount (ca_env C) acct)) (\<lambda>_. say (f acct))))"
      by (intro keeps_intros that commands_wf [OF E]) (simp add: account_of_flags_def)
  qed
  show "keeps (\<lambda>s. settled (ca_lib C) (cx_store s)) (accountAdd C args)"
    unfolding accountAdd_def by (intro keeps_intros add)
  show "keeps (\<lambda>s. settled (ca_lib C) (cx_store s)) (accountList C args)"
    "keeps (\<lambda>s. settled (ca_lib C) (cx_store s)) (accountSetEnabled C args b)"
    "keeps (\<lambda>s. settled (ca_lib C) (cx_store s)) (cmdDisconnect C args)"
    unfolding accountList_def accountSetEnabled_def cmdDisconnect_def by (intro keeps_intros commands_wf [OF E])+
qed

lemma key_commands_settle:
  assumes E: "env_lawful (ca_env C)"
  shows "keeps (\<lambda>s. settled (ca_lib C) (cx_store s)) (keyAdd C args)"
    "keeps (\<lambda>s. settled (ca_lib C) (cx_store s)) (keyList C args)"
    "keeps (\<lambda>s. settled (ca_lib C) (cx_store s)) (keySetEnabled C args b)"
  unfolding keyAdd_def keyList_def keySetEnabled_def by (intro keeps_intros commands_wf [OF E])+

lemma credential_commands_settle:
  assumes E: "env_lawful (ca_env C)"
  shows "keeps (\<lambda>s. settled (ca_lib C) (cx_store s)) (credentialStatus C args)"
    "keeps (\<lambda>s. settled (ca_lib C) (cx_store s)) (credentialSet C args)"
    "keeps (\<lambda>s. settled (ca_lib C) (cx_store s)) (credentialClear C args)"
  unfolding credentialStatus_def credentialSet_def store_token_def credentialClear_def by (intro keeps_intros commands_wf [OF E])+

lemma cmdAdmin_settles:
  assumes E: "env_lawful (ca_env C)"
  shows "keeps (\<lambda>s. settled (ca_lib C) (cx_store s)) (cmdAdmin C args)"
  unfolding cmdAdmin_def cmdAdminAccount_def cmdAdminKey_def cmdAdminCredential_def
  by (intro keeps_intros keeps_case_list account_commands_settle key_commands_settle credential_commands_settle E)

section \<open>Sessions of an operator\<close>

primrec run_commands :: "(cliEnv \<times> string list) list \<Rightarrow> cliRun \<Rightarrow> cliRun" where
  "run_commands [] s = s"
| "run_commands (c # cs) s = run_commands cs (snd (run_cli (cmdAdmin (fst c) (snd c)) s))"

section \<open>A concrete command\<close>

definition demo_command_config :: Config where
  "demo_command_config = demo_config\<lparr>cfg_Encryption := (cfg_Encryption demo_config)\<lparr>en_ActiveKeyID := ''k1'', en_Keys := [(''k1'', ''env:KEY'')]\<rparr>\<rparr>"

definition demo_plane :: api where
  "demo_plane = demo_api\<lparr>api_Unmarshal := (\<lambda>_. Some \<lparr>um_ID = ''u1111111'', um_Username = ''alice'', um_Status = ''active''\<rparr>)\<rparr>"

definition demo_cli :: cliEnv where
  "demo_cli = \<lparr>ca_env = demo_env, ca_globals = \<lparr>gl_stateDir = ''/state'', gl_configPath = [], gl_listenAddress = None,
       gl_metricsAddress = None, gl_healthAddress = None\<rparr>,
     ca_yaml = (\<lambda>_ _. Some demo_command_config), ca_configDir = (\<lambda>_. ''/state''), ca_readFile = (\<lambda>_. Some []), ca_present = True,
     ca_keys = \<lparr>os_Getenv = (\<lambda>_. replicate 32 (CHR ''K'')), os_ReadFile = (\<lambda>_. None)\<rparr>, ca_urlString = Some, ca_NewSHA1 = (\<lambda>_. 9),
     ca_hasCerts = (\<lambda>_. True), ca_systemPool = True, ca_keyPair = (\<lambda>_ _. True),
     ca_exchange = (\<lambda>_ _. demo_plane), ca_ctxErr = False, ca_parseKey = (\<lambda>_. None)\<rparr>"

definition demo_run :: cliRun where
  "demo_run = \<lparr>cx_store = demo_keyed\<lparr>st_closed := True\<rparr>, cx_stdin = ''good'', cx_tty = [], cx_lines = []\<rparr>"

lemma demo_cli_lawful: "env_lawful (ca_env demo_cli)" "ca_lib demo_cli = demo_lib"
  using demo_env_lawful by (simp_all add: demo_cli_def)

lemma demo_run_settled: "settled demo_lib (cx_store demo_run)"
  using store_reach_wf [OF demo_keyed_reach demo_env_lawful]
  by (simp add: settled_def demo_run_def store_wf_def img_of_def wf_image_def dirs_distinct_def)

lemma demo_disconnect:
  "\<exists>t. run_cli (cmdDisconnect demo_cli [''--account'', ''u11111'']) demo_run = (exitOK, t) \<and> cx_lines t = [Disconnected 5]"
proof -
  let ?r = "run_cli (cmdDisconnect demo_cli [''--account'', ''u11111'']) demo_run"
  have "case ?r of (c, t) \<Rightarrow> c = exitOK \<and> map (\<lambda>l. case l of Disconnected i \<Rightarrow> i | _ \<Rightarrow> 0) (cx_lines t) = [5]
     \<and> (case cx_lines t of [Disconnected _] \<Rightarrow> True | _ \<Rightarrow> False)" by code_simp
  then show ?thesis by (cases ?r) (auto split: list.splits cliLine.splits)
qed

text \<open>C7. Administration keeps the state directory sound: after any sequence of admin commands, with any arguments, input,
  configuration and failing system calls, every file decodes and is named after its record, credentials pass the check
  of the loader, no two accounts of a deployment share a Coder user, and the store is closed with its lock released.\<close>

theorem admin_keeps_store:
  assumes "\<forall>c\<in>set cmds. env_lawful (ca_env (fst c)) \<and> ca_lib (fst c) = L" "store_wf L (cx_store s)" "st_closed (cx_store s)"
  shows "store_wf L (cx_store (run_commands cmds s)) \<and> st_closed (cx_store (run_commands cmds s))"
  using assms
proof (induction cmds arbitrary: s)
  case (Cons c cs)
  have "cx_store (snd (run_cli m s)) = cx_store (snd (m s))" for m by (simp add: run_cli_def split: prod.split sum.split)
  then have "settled L (cx_store (snd (run_cli (cmdAdmin (fst c) (snd c)) s)))"
    using keepsD [OF cmdAdmin_settles, of "fst c" s "snd c"] Cons.prems by (simp add: settled_def)
  then show ?case using Cons by (simp add: settled_def)
qed simp

theorem admin_keeps_store_witness:
  "store_wf demo_lib (cx_store (run_commands [(demo_cli, [''disconnect'', ''--account'', ''u11111'']), (demo_cli, [''account'', ''list''])] demo_run))"
  using admin_keeps_store [of "[(demo_cli, [''disconnect'', ''--account'', ''u11111'']), (demo_cli, [''account'', ''list''])]" demo_lib demo_run]
    demo_cli_lawful demo_run_settled by (simp add: settled_def)

section \<open>A disconnected account\<close>

lemma wf_account_at:
  assumes "wf_accounts L V" "V n = Some (NFile (Some r))" "account_toCore L r = Inr acct" "uuid_lawful L"
  shows "n = json (uuid_String L (acct_ID acct))" "acct_Enabled acct = ar_Enabled r"
proof -
  have "acct_ok L n r" by (rule wf_accountsD [OF assms(1,2)])
  then obtain i where i: "ar_ID r = uuid_String L i" "n = json (ar_ID r)" unfolding acct_ok_def by blast
  have "uuid_Parse L (uuid_String L i) = Some i" using assms(4) unfolding uuid_lawful_def by blast
  then have "uuid_Parse L (ar_ID r) = Some i" by (simp only: i(1))
  then show "n = json (uuid_String L (acct_ID acct))" "acct_Enabled acct = ar_Enabled r"
    using assms(3) i by (auto simp: account_toCore_def Let_def split: option.splits)
qed

text \<open>A successful run of the command, on the image of the store.\<close>

lemma disconnect_run:
  assumes "cmdDisconnect C args s = (Inr (), t)" and d: "dirs_distinct (cx_store s)"
  shows "\<exists>i r r'. cx_lines t = cx_lines s @ [Disconnected i] \<and> dirs_distinct (cx_store t) \<and> ar_Enabled r' = False \<and> ar_ID r' = ar_ID r
     \<and> view (st_accounts (cx_store s)) (acct_name (ca_env C) i) = Some (NFile (Some r))
     \<and> view (st_accounts (cx_store t)) = (view (st_accounts (cx_store s)))(acct_name (ca_env C) i \<mapsto> NFile (Some r'))
     \<and> view (st_keys (cx_store t)) = view (st_keys (cx_store s)) \<and> view (st_credentials (cx_store t)) = view (st_credentials (cx_store s))"
proof -
  from assms(1) obtain vals i cfg u a w x where
    o: "openStore C cfg (cx_store s) = (Inr (), u)" and g: "GetAccount (ca_env C) i u = (Inr a, w)"
    and e: "SetAccountEnabled (ca_env C) i False w = (Inr (), x)"
    and t: "t = s\<lparr>cx_store := snd (store_Close (ca_env C) x), cx_lines := cx_lines s @ [Disconnected i]\<rparr>"
    unfolding cmdDisconnect_def by (auto simp: cli_Inr parse_flags_Inr uuid_flag_Inr with_store_Inr)
  let ?I = "img_of (cx_store s)"
  obtain D where u: "disk (?I\<lparr>im_closed := False, im_kp := Some (command_keys C cfg), im_dep := D\<rparr>) u" (is "disk ?J u")
    using tripleD(1) [OF openStore_disk disk_img [OF d] o] by blast
  have w: "disk ?J w" using keepsD [OF GetAccount_keeps u, of "ca_env C" i] g by simp
  obtain J where J: "J \<in> acct_put (ca_env C) i (\<lambda>r now. r\<lparr>ar_Enabled := False, ar_UpdatedAtMs := now\<rparr>) (\<lambda>_. True) ?J" and x: "disk J x"
    using tripleD(1) [OF SetAccountEnabled_disk w e] by (auto simp: becomes_def)
  have y: "disk (J\<lparr>im_closed := True\<rparr>) (cx_store t)" using triple_snd [OF store_Close_disk x] t by simp
  from J obtain r now where r: "im_acc ?J (acct_name (ca_env C) i) = Some (NFile (Some r))"
    "J = put_acc (acct_name (ca_env C) i) (r\<lparr>ar_Enabled := False, ar_UpdatedAtMs := now\<rparr>) ?J" by (auto simp: acct_put_def)
  show ?thesis
    by (rule exI [of _ i], rule exI [of _ r], rule exI [of _ "r\<lparr>ar_Enabled := False, ar_UpdatedAtMs := now\<rparr>"])
      (use y r t in \<open>simp add: disk_def img_of_def put_acc_def\<close>)
qed

lemma loud_cmdDisconnect: "loud (cmdDisconnect C args)"
  unfolding cmdDisconnect_def by (intro loud_intros)

text \<open>C6. A disconnected account is shut out: when the command reports success it has named one account; keys, credentials and
  every other account are as they were. As long as the account records stay like this, no store that is opened later, with
  whatever system calls failing, accepts a key of this account, and no enabled key of another account is affected.\<close>

theorem disconnect_blocks_login:
  assumes E: "env_lawful (ca_env C)" and s: "settled (ca_lib C) (cx_store s)"
    and run: "run_cli (cmdDisconnect C args) s = (exitOK, t)"
  shows "\<exists>i. cx_lines t = cx_lines s @ [Disconnected i]
     \<and> view (st_keys (cx_store t)) = view (st_keys (cx_store s)) \<and> view (st_credentials (cx_store t)) = view (st_credentials (cx_store s))
     \<and> (\<forall>n. n \<noteq> acct_name (ca_env C) i \<longrightarrow> view (st_accounts (cx_store t)) n = view (st_accounts (cx_store s)) n)
     \<and> (\<forall>F c dep key u acct k v. env_lib F = ca_lib C \<and> dirs_distinct u \<and> view (st_accounts u) = view (st_accounts (cx_store t))
          \<and> LookupByPublicKey F c dep key u = (Inr (acct, k), v) \<longrightarrow> acct_ID acct \<noteq> i)"
proof -
  let ?A = "view (st_accounts (cx_store t))"
  have L: "uuid_lawful (ca_lib C)" using E by (simp add: env_lawful_def)
  have m: "cmdDisconnect C args s = (Inr (), t)" using run run_cli_OK [OF loud_cmdDisconnect] by blast
  have wf: "settled (ca_lib C) (cx_store t)"
    using keepsD [OF account_commands_settle(4) [OF E], of s args] m s by simp
  obtain i r r' where o: "cx_lines t = cx_lines s @ [Disconnected i]" "\<not> ar_Enabled r'"
    "?A = (view (st_accounts (cx_store s)))(acct_name (ca_env C) i \<mapsto> NFile (Some r'))"
    "view (st_keys (cx_store t)) = view (st_keys (cx_store s))" "view (st_credentials (cx_store t)) = view (st_credentials (cx_store s))"
    using disconnect_run [OF m] s by (auto simp: settled_def store_wf_def)
  have *: "acct_ID acct \<noteq> i" if F: "env_lib F = ca_lib C" and u: "dirs_distinct u" "view (st_accounts u) = ?A"
    and l: "LookupByPublicKey F c dep key u = (Inr (acct, k), v)" for F c dep key u acct k v
  proof
    assume i: "acct_ID acct = i"
    obtain j q where q: "?A (acct_name F j) = Some (NFile (Some q))" "account_toCore (ca_lib C) q = Inr acct" "acct_Enabled acct"
      using tripleD(1) [OF LookupByPublicKey_disk disk_img [OF u(1)] l] u(2) F by (auto simp: img_of_def)
    have "wf_accounts (ca_lib C) ?A" using wf by (auto simp: settled_def store_wf_def wf_image_def img_of_def)
    from wf_account_at [OF this q(1,2) L] i have "acct_name F j = acct_name (ca_env C) i" "ar_Enabled q"
      using q(3) by (simp_all add: acct_name_def)
    with q(1) o(2,3) show False by simp
  qed
  show ?thesis
    by (intro exI [of _ i] conjI o(1,4,5)) (simp add: o(3), use * in blast)
qed

theorem disconnect_blocks_login_witness:
  "\<exists>t. run_cli (cmdDisconnect demo_cli [''--account'', ''u11111'']) demo_run = (exitOK, t) \<and>
     (\<forall>F c dep key u acct k v. env_lib F = demo_lib \<and> dirs_distinct u \<and> view (st_accounts u) = view (st_accounts (cx_store t))
        \<and> LookupByPublicKey F c dep key u = (Inr (acct, k), v) \<longrightarrow> acct_ID acct \<noteq> 5)"
proof -
  obtain t where t: "run_cli (cmdDisconnect demo_cli [''--account'', ''u11111'']) demo_run = (exitOK, t)" "cx_lines t = [Disconnected 5]"
    using demo_disconnect by blast
  have n: "cx_lines demo_run = []" by (simp add: demo_run_def)
  from disconnect_blocks_login [OF demo_cli_lawful(1) _ t(1)] demo_run_settled demo_cli_lawful(2) t show ?thesis unfolding n by auto
qed

end
