(* ===== verification/TokenSetProps.thy ===== *)
theory TokenSetProps
  imports CliProps
begin

text \<open>
  What setting a token from the command line guarantees: the token was typed or piped in, the control plane verified it,
  and the account it is stored for belongs to the verified user or was bound to it with the consent of the operator.
\<close>

section \<open>Input\<close>

text \<open>The lines of a text, and the lines a user has typed or piped and the command has not read yet.\<close>

definition text_lines :: "bytes \<Rightarrow> string set" where
  "text_lines b = {takeWhile (\<lambda>c. c \<noteq> CHR 0x0A) q | p q. b = p @ q \<and> q \<noteq> [] \<and> (p = [] \<or> last p = CHR 0x0A)}"

definition typed :: "cliRun \<Rightarrow> string set" where
  "typed s = trimLineEnd ` ({l. Some l \<in> set (cx_tty s)} \<union> text_lines (cx_stdin s))"

lemma trimLineEnd_LF: "trimLineEnd (l @ [CHR 0x0A]) = trimLineEnd l"
  by (simp add: trimLineEnd_def)

lemma line_rest: "dropWhile (\<lambda>c. c \<noteq> CHR 0x0A) b = [] \<or> (\<exists>p r. dropWhile (\<lambda>c. c \<noteq> CHR 0x0A) b = CHR 0x0A # r \<and> b = p @ CHR 0x0A # r)"
proof (cases "dropWhile (\<lambda>c. c \<noteq> CHR 0x0A) b")
  case (Cons x r)
  then have "x = CHR 0x0A" by (metis (full_types) hd_dropWhile list.discI list.sel(1))
  then show ?thesis using Cons takeWhile_dropWhile_id [of "\<lambda>c. c \<noteq> CHR 0x0A" b] by metis
qed simp

lemma text_lines_first: "b \<noteq> [] \<Longrightarrow> takeWhile (\<lambda>c. c \<noteq> CHR 0x0A) b \<in> text_lines b"
  unfolding text_lines_def by blast

lemma text_lines_rest: "text_lines (drop 1 (dropWhile (\<lambda>c. c \<noteq> CHR 0x0A) b)) \<subseteq> text_lines b"
proof
  fix l assume "l \<in> text_lines (drop 1 (dropWhile (\<lambda>c. c \<noteq> CHR 0x0A) b))"
  then obtain p q where q: "drop 1 (dropWhile (\<lambda>c. c \<noteq> CHR 0x0A) b) = p @ q" "q \<noteq> []" "p = [] \<or> last p = CHR 0x0A"
    "l = takeWhile (\<lambda>c. c \<noteq> CHR 0x0A) q" by (auto simp: text_lines_def)
  then obtain f e where e: "dropWhile (\<lambda>c. c \<noteq> CHR 0x0A) b = CHR 0x0A # e" "b = f @ CHR 0x0A # e" using line_rest [of b] by (metis append_is_Nil_conv drop_Nil)
  then have "b = (f @ CHR 0x0A # p) @ q" using q(1) by simp
  moreover have "last (f @ CHR 0x0A # p) = CHR 0x0A" using q(3) by auto
  ultimately show "l \<in> text_lines b" unfolding text_lines_def using q(2,4) by blast
qed

text \<open>\<open>at P T\<close>: the store satisfies \<open>P\<close>, and what is left to read was in \<open>T\<close>.\<close>

definition at :: "(store \<Rightarrow> bool) \<Rightarrow> string set \<Rightarrow> cliRun \<Rightarrow> bool" where
  "at P T s \<longleftrightarrow> P (cx_store s) \<and> typed s \<subseteq> T"

lemma triple_say: "triple (at P T) (say l) (\<lambda>_. at P T) R"
  by (auto simp: triple_def say_def at_def typed_def)

lemma triple_exit: "c \<noteq> exitOK \<Longrightarrow> (\<And>s. P s \<Longrightarrow> P' s) \<Longrightarrow> triple (at P T) (exit_with c l) Q (\<lambda>c u. c \<noteq> exitOK \<and> at P' T u)"
  by (auto simp: triple_def exit_with_def say_def at_def typed_def)

lemma readLine_typed:
  "triple (at P T) readLine_cli (\<lambda>r u. at P T u \<and> (\<forall>l. r = Some l \<longrightarrow> l \<in> T)) R"
proof (rule tripleI)
  fix s a t assume s: "at P T s" and r: "readLine_cli s = (Inr a, t)"
  let ?b = "cx_stdin s" and ?l = "takeWhile (\<lambda>c. c \<noteq> CHR 0x0A) (cx_stdin s)" and ?d = "dropWhile (\<lambda>c. c \<noteq> CHR 0x0A) (cx_stdin s)"
  have t: "cx_stdin t = drop 1 ?d" "cx_tty t = cx_tty s" "cx_store t = cx_store s"
    and a: "a = Some l \<Longrightarrow> l = trimLineEnd (?l @ take 1 ?d) \<and> ?b \<noteq> []" for l using r by (auto simp: readLine_cli_def Let_def split: if_splits)
  have "take 1 ?d = [] \<or> take 1 ?d = [CHR 0x0A]" using line_rest [of ?b] by (elim disjE exE conjE) simp_all
  then have "trimLineEnd (?l @ take 1 ?d) = trimLineEnd ?l" using trimLineEnd_LF by (metis append_Nil2)
  moreover have "trimLineEnd ?l \<in> typed s" if "?b \<noteq> []" using text_lines_first [OF that] by (simp add: typed_def)
  moreover have "typed t \<subseteq> typed s" using text_lines_rest [of ?b] unfolding typed_def t by (intro image_mono) blast
  ultimately show "at P T t \<and> (\<forall>l. a = Some l \<longrightarrow> l \<in> T)" using s t a by (auto simp: at_def)
qed (simp add: readLine_cli_def Let_def)

lemma readTTY_typed: "triple (at P T) readTTY (\<lambda>r u. at P T u \<and> (\<forall>l. r = Some l \<longrightarrow> l \<in> T)) R"
proof (rule tripleI)
  fix s a t assume s: "at P T s" and r: "readTTY s = (Inr a, t)"
  show "at P T t \<and> (\<forall>l. a = Some l \<longrightarrow> l \<in> T)"
  proof (cases "cx_tty s")
    case (Cons x xs)
    then have "typed t \<subseteq> typed s" "cx_store t = cx_store s" "a = Some l \<Longrightarrow> l \<in> typed s" for l
      using r by (auto simp: readTTY_def typed_def split: option.splits if_splits)
    then show ?thesis using s by (auto simp: at_def)
  qed (use s r in \<open>auto simp: readTTY_def\<close>)
qed (auto simp: readTTY_def split: list.splits)

lemma tty_or_line_typed:
  "triple (at P T) (bnd readTTY (\<lambda>r. case r of Some line \<Rightarrow> ret (Some line) | None \<Rightarrow> readLine_cli)) (\<lambda>r u. at P T u \<and> (\<forall>l. r = Some l \<longrightarrow> l \<in> T)) R"
  by (rule triple_bnd [OF readTTY_typed], rule triple_fact, rule triple_case_option) (auto intro!: triple_pure readLine_typed)

lemma readSecret_typed: "triple (at P T) (readSecret b) (\<lambda>r u. at P T u \<and> (\<forall>l. r = Some l \<longrightarrow> l \<in> T)) R"
  unfolding readSecret_def by (intro triple_if readLine_typed triple_bnd [OF triple_say] tty_or_line_typed)

lemma confirm_typed:
  "triple (at P T) (confirm L l b) (\<lambda>r u. at P T u \<and> (r = Some True \<longrightarrow> (\<exists>y\<in>T. fold_yes (TrimSpace L y)))) R"
  unfolding confirm_def
  by (rule triple_bnd [OF triple_say], rule triple_bnd [where Q = "\<lambda>r u. at P T u \<and> (\<forall>l. r = Some l \<longrightarrow> l \<in> T)"])
    (auto intro!: triple_if readLine_typed tty_or_line_typed triple_fact triple_pure)

lemma read_token_typed:
  "triple (at P T) (read_token b) (\<lambda>tok u. at P T u \<and> (\<exists>l\<in>T. SanitizeToken l = Inr tok)) (\<lambda>c u. c \<noteq> exitOK \<and> at P T u)"
  unfolding read_token_def
  by (rule triple_bnd [OF readSecret_typed], rule triple_fact)
    (auto intro!: triple_case_option triple_exit triple_pure split: sum.split)

section \<open>A token set by an operator\<close>

definition verified_by :: "cliEnv \<Rightarrow> Config \<Rightarrow> bytes \<Rightarrow> CoderIdentity \<Rightarrow> bool" where
  "verified_by C cfg tok ident \<longleftrightarrow> (\<exists>dep opts api. DeploymentFromConfig C cfg = Some dep \<and> VerifierOptionsFromConfig C cfg = Some opts
     \<and> verifier_New C dep opts = Some api \<and> Verify (ca_lib C) api tok = Inr ident)"

definition binding_agreed :: "golib \<Rightarrow> string set \<Rightarrow> Account \<Rightarrow> CoderIdentity \<Rightarrow> bool" where
  "binding_agreed L T acct ident \<longleftrightarrow> (case acct_CoderUserID acct of
     Some u \<Rightarrow> u = ident_ID ident
   | None \<Rightarrow> acct_BindOnFirstToken acct \<and> (\<exists>y\<in>T. fold_yes (TrimSpace L y)))"

lemma verify_token_at:
  "triple (at P T) (verify_token C cfg tok) (\<lambda>ident u. at P T u \<and> verified_by C cfg tok ident) (\<lambda>c u. c \<noteq> exitOK \<and> at P T u)"
  unfolding verify_token_def
  by (intro triple_case_option triple_exit) (auto intro!: triple_exit triple_pure simp: verified_by_def split: sum.split)

lemma check_binding_at:
  "triple (at P T) (check_binding C acct ident b) (\<lambda>_ u. at P T u \<and> binding_agreed (ca_lib C) T acct ident) (\<lambda>c u. c \<noteq> exitOK \<and> at P T u)"
  unfolding check_binding_def
proof (intro triple_case_option triple_if triple_exit)
  show "triple (at P T) (bnd (confirm (ca_lib C) (BindPrompt ident (acct_ID acct)) b) (\<lambda>r.
      case r of None \<Rightarrow> exit_with exitError (Complaint ''reading confirmation'')
      | Some yes \<Rightarrow> if yes then ret () else exit_with exitError (Complaint ''bind not confirmed'')))
      (\<lambda>_ u. at P T u \<and> binding_agreed (ca_lib C) T acct ident) (\<lambda>c u. c \<noteq> exitOK \<and> at P T u)"
    if "acct_CoderUserID acct = None" "\<not> \<not> acct_BindOnFirstToken acct"
    by (rule triple_bnd [OF confirm_typed], rule triple_fact, intro triple_case_option triple_if triple_exit triple_pure)
      (use that in \<open>auto simp: binding_agreed_def\<close>)
qed (auto intro!: triple_pure simp: binding_agreed_def)

lemma try_store_at:
  assumes "triple P m Q R"
  shows "triple (at P T) (try_store w m) (\<lambda>a. at (Q a) T) (\<lambda>c u. c \<noteq> exitOK \<and> at (\<lambda>s. \<exists>e. R e s) T u)"
proof (rule tripleI)
  fix s a t assume s: "at P T s"
  have ty: "typed (s\<lparr>cx_store := x\<rparr>) = typed s" "typed (s\<lparr>cx_store := x, cx_lines := y\<rparr>) = typed s" for x y by (simp_all add: typed_def)
  show "at (Q a) T t" if "try_store w m s = (Inr a, t)"
    using that s tripleD(1) [OF assms] ty by (auto simp: cli_Inr at_def)
  show "c \<noteq> exitOK \<and> at (\<lambda>s. \<exists>e. R e s) T t" if "try_store w m s = (Inl c, t)" for c
    using that s tripleD(2) [OF assms, of "cx_store s"] ty
    by (auto simp: try_store_def on_store_def bnd_def exit_with_def say_def at_def split: prod.splits sum.splits)
qed

text \<open>What a request to store a token rests on.\<close>

definition set_request :: "cliEnv \<Rightarrow> Config \<Rightarrow> string set \<Rightarrow> image \<Rightarrow> ReplaceCredentialRequest \<Rightarrow> bool" where
  "set_request C cfg T J req \<longleftrightarrow> (\<exists>l\<in>T. SanitizeToken l = Inr (req_Token req)) \<and> verified_by C cfg (req_Token req) (req_Identity req)
     \<and> (\<exists>r acct. im_acc J (acct_name (ca_env C) (req_AccountID req)) = Some (NFile (Some r)) \<and> account_toCore (ca_lib C) r = Inr acct
          \<and> binding_agreed (ca_lib C) T acct (req_Identity req))"

lemma store_token_outcome:
  assumes L: "uuid_lawful (ca_lib C)"
  shows "triple (at (disk J) T) (store_token C b i cfg)
     (\<lambda>_ u. \<exists>req. req_AccountID req = i \<and> set_request C cfg T J req \<and> becomes (replaced (ca_env C) req J) (cx_store u))
     (\<lambda>c u. c \<noteq> exitOK \<and> (disk J (cx_store u) \<or> (\<exists>req. req_AccountID req = i \<and> set_request C cfg T J req
          \<and> (becomes (rebound (ca_env C) req J) (cx_store u) \<or> becomes (replaced (ca_env C) req J) (cx_store u)))))"
    (is "triple _ _ ?Q ?R")
proof -
  have R: "c \<noteq> exitOK \<and> at (disk J) T u \<Longrightarrow> ?R c u" "c \<noteq> exitOK \<and> at (\<lambda>s. \<exists>e::serror. disk J s) T u \<Longrightarrow> ?R c u" for c u
    by (auto simp: at_def)
  have get: "triple (at (disk J) T) (try_store w (GetAccount (ca_env C) i))
      (\<lambda>acct u. at (disk J) T u \<and> (\<exists>r. im_acc J (acct_name (ca_env C) i) = Some (NFile (Some r)) \<and> account_toCore (ca_lib C) r = Inr acct))
      (\<lambda>c u. c \<noteq> exitOK \<and> at (\<lambda>s. \<exists>e::serror. disk J s) T u)" for w
    by (rule triple_weaken [OF try_store_at [OF GetAccount_disk]]) (auto simp: at_def)
  have load: "triple (at (disk J) T) (try_store w (LoadCredentialRecord (ca_env C) i)) (\<lambda>_. at (disk J) T)
      (\<lambda>c u. c \<noteq> exitOK \<and> at (\<lambda>s. \<exists>e::serror. disk J s) T u)" for w
    by (rule try_store_at [OF triple_keeps [OF LoadRecord_keeps]])
  have put: "triple (at (disk J) T) (bnd (try_store w (ReplaceCredential (ca_env C) c req)) (\<lambda>x. say (f x))) ?Q ?R"
    if "set_request C cfg T J req" "req_AccountID req = i" for w c req f
    by (rule triple_seq [OF try_store_at [OF ReplaceCredential_disk [OF L]]], use that in \<open>auto simp: at_def\<close>, rule triple_weaken [OF triple_say])
      (use that in \<open>auto simp: at_def\<close>)
  show ?thesis unfolding store_token_def
    apply (rule triple_seq [OF get R(2)], assumption, rule triple_fact)
    apply (rule triple_seq [OF load R(2)], assumption)
    apply (rule triple_seq [OF read_token_typed R(1)], assumption, rule triple_fact)
    apply (rule triple_seq [OF verify_token_at R(1)], assumption, rule triple_fact)
    apply (rule triple_seq [OF check_binding_at R(1)], assumption, rule triple_fact)
    apply (rule put)
     apply (auto simp: set_request_def)
    done
qed

text \<open>The two ways a command around the store can go.\<close>

definition same_records :: "store \<Rightarrow> store \<Rightarrow> bool" where
  "same_records s t \<longleftrightarrow> view (st_accounts t) = view (st_accounts s) \<and> view (st_keys t) = view (st_keys s) \<and> view (st_credentials t) = view (st_credentials s)"

lemma same_recordsI: "disk (img_of s\<lparr>im_closed := c, im_kp := k, im_dep := D\<rparr>) t \<Longrightarrow> same_records s t"
  by (auto simp: same_records_def disk_def img_of_def)

lemma with_store_cases:
  assumes run: "with_store C body s = (r, t)" and d: "dirs_distinct (cx_store s)"
  obtains (early) c where "r = Inl c" "c \<noteq> exitOK" "same_records (cx_store s) (cx_store t)"
  | (ran) cfg D w v where "loadConfig C = Some cfg" "body cfg w = (r, v)" "cx_store t = snd (store_Close (ca_env C) (cx_store v))"
      "at (disk (img_of (cx_store s)\<lparr>im_closed := False, im_kp := Some (command_keys C cfg), im_dep := D\<rparr>)) (typed s) w"
proof (cases "loadConfig C")
  case None
  then show ?thesis using run early by (auto simp: with_store_def loadConfigAndStore_def exit_with_def say_def same_records_def)
next
  case (Some cfg)
  obtain q u where o: "openStore C cfg (cx_store s) = (q, u)" by fastforce
  note T = tripleD [OF openStore_disk disk_img [OF d], of C cfg]
  show ?thesis
  proof (cases q)
    case (Inl e)
    have "\<exists>c k D. disk (img_of (cx_store s)\<lparr>im_closed := c, im_kp := k, im_dep := D\<rparr>) u"
      using T(2) [OF o [unfolded Inl]] by (cases "img_of (cx_store s)") auto
    then have "same_records (cx_store s) u" using same_recordsI by blast
    then show ?thesis using run early Some o Inl
      by (auto simp: with_store_def loadConfigAndStore_def try_store_def on_store_def exit_with_def say_def bnd_def)
  next
    case (Inr x)
    obtain D where D: "disk (img_of (cx_store s)\<lparr>im_closed := False, im_kp := Some (command_keys C cfg), im_dep := D\<rparr>) u"
      using T(1) [OF o [unfolded Inr]] by blast
    obtain p v where b: "body cfg (s\<lparr>cx_store := u\<rparr>) = (p, v)" by fastforce
    have l: "loadConfigAndStore C s = (Inr cfg, s\<lparr>cx_store := u\<rparr>)"
      using Some o Inr by (simp add: loadConfigAndStore_def try_store_def on_store_def bnd_def)
    have "p = r" "cx_store t = snd (store_Close (ca_env C) (cx_store v))"
      using run b by (auto simp: with_store_def l on_store_def bnd_def split: prod.splits)
    then show ?thesis using ran [OF Some, of _ v] b D by (auto simp: at_def typed_def)
  qed
qed

lemma command_keys_active:
  assumes "kp_ActiveKey (command_keys C cfg) = Some (k, key)" shows "kp_Key (command_keys C cfg) k = Some key"
  using assms unfolding command_keys_def keyprov_of_def
  by (auto simp: provider_ActiveKey_def split: if_splits sum.splits prod.splits)

lemma token_images:
  assumes "becomes (rebound E req J) u \<or> becomes (replaced E req J) u"
  shows "\<exists>A K. im_key (img_of u) = im_key J \<and> im_closed (img_of u) = im_closed J \<and> im_kp (img_of u) = im_kp J \<and> dirs_distinct u \<and> im_acc (img_of u) = (im_acc J)(acct_name E (req_AccountID req) := A)
     \<and> im_cred (img_of u) = (im_cred J)(acct_name E (req_AccountID req) := K)"
proof -
  have id: "\<exists>A. im_acc I = (im_acc J)(acct_name E (req_AccountID req) := A) \<and> im_key I = im_key J \<and> im_cred I = im_cred J
      \<and> im_closed I = im_closed J \<and> im_kp I = im_kp J"
    if "I \<in> identity_put E (req_AccountID req) u n J" for I u n
    using that by (auto simp: acct_put_def put_acc_def)
  from assms obtain I where I: "I \<in> identity_put E (req_AccountID req) (ident_ID (req_Identity req)) (ident_Username (req_Identity req)) J"
    and u: "disk I u \<or> (\<exists>r. disk (put_cred (acct_name E (req_AccountID req)) r I) u)" by (auto simp: becomes_def rebound_def replaced_def)
  from id [OF I] u show ?thesis by (auto simp: disk_def put_cred_def) (metis fun_upd_triv)+
qed

lemma loud_credentialSet: "loud (credentialSet C args)"
  unfolding credentialSet_def store_token_def by (intro loud_intros)

lemma credentialSet_cases:
  assumes L: "uuid_lawful (ca_lib C)" and d: "dirs_distinct (cx_store s)" and run: "credentialSet C args s = (r, t)"
  obtains (none) c where "r = Inl c" "c \<noteq> exitOK" "same_records (cx_store s) (cx_store t)"
  | (reached) cfg D req u vals rest where "loadConfig C = Some cfg"
      "flag_Parse [(''account'', False), (''stdin'', True)] [] args = Some (vals, rest)" "parseUUIDFlag C (flag_String vals ''account'') = Some (req_AccountID req)"
      "set_request C cfg (typed s) (img_of (cx_store s)\<lparr>im_closed := False, im_kp := Some (command_keys C cfg), im_dep := D\<rparr>) req"
      "r = Inr () \<and> becomes (replaced (ca_env C) req (img_of (cx_store s)\<lparr>im_closed := False, im_kp := Some (command_keys C cfg), im_dep := D\<rparr>)) u
       \<or> (\<exists>c. r = Inl c \<and> c \<noteq> exitOK) \<and> (becomes (rebound (ca_env C) req (img_of (cx_store s)\<lparr>im_closed := False, im_kp := Some (command_keys C cfg), im_dep := D\<rparr>)) u
          \<or> becomes (replaced (ca_env C) req (img_of (cx_store s)\<lparr>im_closed := False, im_kp := Some (command_keys C cfg), im_dep := D\<rparr>)) u)"
      "cx_store t = snd (store_Close (ca_env C) u)"
proof (cases "\<exists>vals rest i. flag_Parse [(''account'', False), (''stdin'', True)] [] args = Some (vals, rest) \<and> parseUUIDFlag C (flag_String vals ''account'') = Some i")
  case False
  then show ?thesis using run none
    by (auto simp: credentialSet_def parse_flags_def uuid_flag_def exit_with_def say_def bnd_def same_records_def split: option.splits)
next
  case True
  then obtain vals rest i where f: "flag_Parse [(''account'', False), (''stdin'', True)] [] args = Some (vals, rest)"
    "parseUUIDFlag C (flag_String vals ''account'') = Some i" by blast
  then have w: "with_store C (store_token C (flag_Bool vals ''stdin'') i) s = (r, t)"
    using run by (simp add: credentialSet_def parse_flags_def uuid_flag_def)
  show ?thesis
  proof (cases rule: with_store_cases [OF w d, case_names early ran])
    case (ran cfg D w v)
    let ?J = "img_of (cx_store s)\<lparr>im_closed := False, im_kp := Some (command_keys C cfg), im_dep := D\<rparr>"
    note T = tripleD [OF store_token_outcome [OF L] ran(4)]
    show ?thesis
    proof (cases r)
      case (Inr x)
      with T(1) [OF ran(2) [unfolded Inr]] ran f show ?thesis using reached [of cfg vals rest _ D "cx_store v"] by auto
    next
      case (Inl c)
      note o = T(2) [OF ran(2) [unfolded Inl]]
      have "same_records (cx_store s) (cx_store t)" if "disk ?J (cx_store v)"
        using triple_snd [OF store_Close_disk that] ran(3)
        by (simp add: same_records_def disk_def img_of_def)
      then show ?thesis using o ran f Inl none reached [of cfg vals rest _ D "cx_store v"] by blast
    qed
  qed (use none in blast)
qed

text \<open>C5. A token that an operator stores is the account's own: whenever the command changes a record or reports success, the
  token is one of the lines that were typed or piped in, the control plane of the configuration has verified it, and the
  account named on the command line belongs to the verified user, or had no user, binds on its first token and the
  operator answered yes. Nothing but the record and the credential of that account changes. After success, a store opened
  with the keys of the configuration returns exactly this token.\<close>

theorem credential_set_sound:
  assumes E: "env_lawful (ca_env C)" and d: "dirs_distinct (cx_store s)"
    and run: "run_cli (credentialSet C args) s = (code, t)"
    and act: "code = exitOK \<or> \<not> same_records (cx_store s) (cx_store t)"
  shows "\<exists>cfg vals rest i token ident r acct. loadConfig C = Some cfg
     \<and> flag_Parse [(''account'', False), (''stdin'', True)] [] args = Some (vals, rest) \<and> parseUUIDFlag C (flag_String vals ''account'') = Some i
     \<and> (\<exists>l\<in>typed s. SanitizeToken l = Inr token) \<and> verified_by C cfg token ident
     \<and> view (st_accounts (cx_store s)) (acct_name (ca_env C) i) = Some (NFile (Some r)) \<and> account_toCore (ca_lib C) r = Inr acct
     \<and> binding_agreed (ca_lib C) (typed s) acct ident
     \<and> view (st_keys (cx_store t)) = view (st_keys (cx_store s))
     \<and> (\<forall>n. n \<noteq> acct_name (ca_env C) i \<longrightarrow> view (st_accounts (cx_store t)) n = view (st_accounts (cx_store s)) n
          \<and> view (st_credentials (cx_store t)) n = view (st_credentials (cx_store s)) n)
     \<and> (code = exitOK \<longrightarrow> (\<exists>snap u. LoadCredential (calm (ca_env C)) False i
          (cx_store t\<lparr>st_closed := False, st_kp := Some (command_keys C cfg)\<rparr>) = (Inr snap, u) \<and> snap_Token snap = token))"
proof -
  have L: "uuid_lawful (ca_lib C)" using E by (simp add: env_lawful_def)
  obtain q where q: "credentialSet C args s = (q, t)" "code = exitOK \<longleftrightarrow> q = Inr ()"
    using run run_cli_OK [OF loud_credentialSet, of C args s t] loud_credentialSet [of C args]
    by (cases "credentialSet C args s") (auto simp: run_cli_def loud_def split: sum.splits)
  show ?thesis
  proof (cases rule: credentialSet_cases [OF L d q(1), case_names none reached])
    case (none c)
    then show ?thesis using act q(2) by simp
  next
    case (reached cfg D req u vals rest)
    let ?J = "img_of (cx_store s)\<lparr>im_closed := False, im_kp := Some (command_keys C cfg), im_dep := D\<rparr>"
    have u: "becomes (rebound (ca_env C) req ?J) u \<or> becomes (replaced (ca_env C) req ?J) u" using reached(5) by blast
    obtain A K where i: "im_key (img_of u) = im_key ?J" "dirs_distinct u" "im_closed (img_of u) = im_closed ?J" "im_kp (img_of u) = im_kp ?J" "im_acc (img_of u) = (im_acc ?J)(acct_name (ca_env C) (req_AccountID req) := A)"
      "im_cred (img_of u) = (im_cred ?J)(acct_name (ca_env C) (req_AccountID req) := K)" using token_images [OF u] by blast
    have t: "disk (img_of u\<lparr>im_closed := True\<rparr>) (cx_store t)" using triple_snd [OF store_Close_disk disk_img [OF i(2)]] reached(6) by simp
    have ld: "\<exists>snap v. LoadCredential (calm (ca_env C)) False (req_AccountID req) (cx_store t\<lparr>st_closed := False, st_kp := Some (command_keys C cfg)\<rparr>) = (Inr snap, v)
        \<and> snap_Token snap = req_Token req" if "code = exitOK"
    proof -
      let ?t = "cx_store t\<lparr>st_closed := False, st_kp := Some (command_keys C cfg)\<rparr>"
      have r: "img_of u \<in> replaced (ca_env C) req ?J" using reached(5) that q(2) by (auto simp: becomes_def disk_def)
      then obtain k key where k: "kp_ActiveKey (command_keys C cfg) = Some (k, key)" by (auto simp: replaced_def replace_ready_def)
      obtain snap where "load_value (ca_env C) (img_of u) (req_AccountID req) snap" "snap_Token snap = req_Token req"
        using replaced_load [OF E r _ _ k command_keys_active [OF k]] by auto
      moreover have "img_of ?t = img_of u" "dirs_distinct ?t" using t i(3,4) by (auto simp: disk_def img_of_def dirs_distinct_def)
      ultimately show ?thesis using load_calm [OF L] by metis
    qed
    from reached(4) obtain r acct where "view (st_accounts (cx_store s)) (acct_name (ca_env C) (req_AccountID req)) = Some (NFile (Some r))"
      "account_toCore (ca_lib C) r = Inr acct" "binding_agreed (ca_lib C) (typed s) acct (req_Identity req)"
      "\<exists>l\<in>typed s. SanitizeToken l = Inr (req_Token req)" "verified_by C cfg (req_Token req) (req_Identity req)"
      by (auto simp: set_request_def img_of_def)
    then show ?thesis using reached(1-3) i t ld
      by (intro exI [of _ cfg] exI [of _ vals] exI [of _ rest] exI [of _ "req_AccountID req"] exI [of _ "req_Token req"]
          exI [of _ "req_Identity req"] exI [of _ r] exI [of _ acct]) (auto simp: disk_def img_of_def)
  qed
qed

text \<open>An equation for the bounded read of a reply that can be evaluated without counting to the bound.\<close>

fun longer_than :: "int \<Rightarrow> 'a list \<Rightarrow> bool" where
  "longer_than k [] = (k < 0)"
| "longer_than k (x # xs) = (if k \<le> 0 then True else longer_than (k - 1) xs)"

lemma longer_than_length: "longer_than k xs \<longleftrightarrow> k < int (length xs)"
  by (induction k xs rule: longer_than.induct) auto

lemma readCapped_code [code]:
  "readCapped r = (if longer_than 1048576 (body_bytes r) \<or> body_fails r then None else Some (body_bytes r))"
  unfolding longer_than_length by (auto simp: readCapped_def MaxBodyBytes_def Let_def)

theorem credential_set_sound_witness:
  "\<exists>t token ident acct cfg. run_cli (credentialSet demo_cli [''--account'', ''u11111'', ''--stdin'']) demo_run = (exitOK, t)
     \<and> verified_by demo_cli cfg token ident \<and> binding_agreed demo_lib (typed demo_run) acct ident
     \<and> (\<exists>i snap u. LoadCredential (calm demo_env) False i (cx_store t\<lparr>st_closed := False, st_kp := Some (command_keys demo_cli cfg)\<rparr>) = (Inr snap, u)
          \<and> snap_Token snap = token)"
proof -
  have "fst (run_cli (credentialSet demo_cli [''--account'', ''u11111'', ''--stdin'']) demo_run) = exitOK" by code_simp
  then obtain t where t: "run_cli (credentialSet demo_cli [''--account'', ''u11111'', ''--stdin'']) demo_run = (exitOK, t)" by (metis prod.collapse)
  have d: "dirs_distinct (cx_store demo_run)" using demo_run_settled by (simp add: settled_def store_wf_def)
  have e: "ca_env demo_cli = demo_env" by (simp add: demo_cli_def)
  obtain cfg token ident acct i where x: "verified_by demo_cli cfg token ident" "binding_agreed demo_lib (typed demo_run) acct ident"
    "exitOK = exitOK \<longrightarrow> (\<exists>snap u. LoadCredential (calm demo_env) False i
       (cx_store t\<lparr>st_closed := False, st_kp := Some (command_keys demo_cli cfg)\<rparr>) = (Inr snap, u) \<and> snap_Token snap = token)"
    using credential_set_sound [OF demo_cli_lawful(1) d t disjI1 [OF refl], unfolded e demo_env_lib]
    by (elim exE conjE) (rule that, assumption+)
  show ?thesis by (rule exI [of _ t], rule exI [of _ token], rule exI [of _ ident], rule exI [of _ acct], rule exI [of _ cfg])
      (intro conjI t x(1,2) exI [of _ i] x(3) [THEN mp] refl)
qed

end
