(* ===== verification/Metrics.thy ===== *)
theory Metrics
  imports Server Tunnels
begin

text \<open>
  \<open>internal/metrics\<close>: the metric families with their label values, the calls of the recorder and of the tunnel observer, the
  sampling of the limits, and the normalization that keeps the set of label values fixed. A counter is a map from the values of
  its labels to a count, a series exists once its labels have been used. The registry of the Prometheus client and the HTTP
  handler are not modelled; a histogram is the list of its observations.
\<close>

section \<open>Label values\<close>

definition ResultWrongUser :: string where "ResultWrongUser = ''wrong_user''"
definition DirUp :: string where "DirUp = ''up''"
definition DirDown :: string where "DirDown = ''down''"
definition MethodPublicKey :: string where "MethodPublicKey = ''publickey''"
definition MethodPassword :: string where "MethodPassword = ''password''"
definition MethodKeyboardInteractive :: string where "MethodKeyboardInteractive = ''keyboard_interactive''"
definition MethodNone :: string where "MethodNone = ''none''"
definition MethodOther :: string where "MethodOther = ''other''"
definition MethodToken :: string where "MethodToken = ''token''"
definition ValidationInvalid :: string where "ValidationInvalid = ''invalid''"
definition ValidationForbidden :: string where "ValidationForbidden = ''forbidden''"
definition ValidationWrongUser :: string where "ValidationWrongUser = ''wrong_identity''"
definition ValidationUnavailable :: string where "ValidationUnavailable = ''unavailable''"
definition ValidationIncompatible :: string where "ValidationIncompatible = ''incompatible''"
definition ValidationMalformed :: string where "ValidationMalformed = ''malformed''"
definition ValidationMissing :: string where "ValidationMissing = ''missing''"
definition ValidationError :: string where "ValidationError = ''error''"
definition StoreOpLookupKey :: string where "StoreOpLookupKey = ''lookup_key''"
definition StoreOpLoadCredential :: string where "StoreOpLoadCredential = ''load_credential''"
definition StoreOpReplaceCred :: string where "StoreOpReplaceCred = ''replace_credential''"
definition StoreOpGetAccount :: string where "StoreOpGetAccount = ''get_account''"
definition StoreOpClearCredential :: string where "StoreOpClearCredential = ''clear_credential''"
definition StoreOpMarkInvalid :: string where "StoreOpMarkInvalid = ''mark_invalid''"
definition EnrollmentSuccess :: string where "EnrollmentSuccess = ''success''"
definition EnrollmentRejected :: string where "EnrollmentRejected = ''rejected''"
definition EnrollmentKeyConflict :: string where "EnrollmentKeyConflict = ''key_conflict''"
definition EnrollmentRateLimited :: string where "EnrollmentRateLimited = ''rate_limited''"

definition ReasonCoderAPI :: string where "ReasonCoderAPI = ''coder_api''"
definition ReasonUnknownKeyAttempt :: string where "ReasonUnknownKeyAttempt = ''unknown_key_attempt''"
definition ReasonRenewalRate :: string where "ReasonRenewalRate = ''renewal_rate''"

definition limitNames :: "string list" where
  "limitNames = [ReasonGlobalConn, ReasonHandshake, ReasonIPConn, ReasonKeyConn, ReasonAccountConn, ReasonChannelConn,
     ReasonChannelAccount, ReasonCoderProcess, ReasonCoderAPI, ReasonPreAuthIP, ReasonUnknownKeyAttempt, ReasonRenewalRate]"

section \<open>Normalization\<close>

definition normalizeResult :: "string \<Rightarrow> string" where
  "normalizeResult r = (if r = ResultSuccess \<or> r = ResultFailure \<or> r = ResultRejected then r else ResultFailure)"

definition normalizeMethod :: "string \<Rightarrow> string" where
  "normalizeMethod m =
     (if m = MethodPublicKey \<or> m = MethodNone then m
      else if m = ''password'' then MethodPassword
      else if m = ''keyboard-interactive'' \<or> m = MethodKeyboardInteractive then MethodKeyboardInteractive
      else MethodOther)"

definition normalizeLimit :: "string \<Rightarrow> string" where
  "normalizeLimit l = (if l \<in> set limitNames then l else ''other'')"

definition normalizeValidation :: "string \<Rightarrow> string" where
  "normalizeValidation r =
     (if r \<in> set [ResultSuccess, ValidationInvalid, ValidationForbidden, ValidationWrongUser, ValidationUnavailable,
        ValidationIncompatible, ValidationMalformed, ValidationMissing] then r else ValidationError)"

definition normalizeStoreOp :: "string \<Rightarrow> string" where
  "normalizeStoreOp p =
     (if p \<in> set [StoreOpLookupKey, StoreOpLoadCredential, StoreOpReplaceCred, StoreOpGetAccount, StoreOpClearCredential,
        StoreOpMarkInvalid] then p else ''other'')"

definition normalizeEnrollment :: "string \<Rightarrow> string" where
  "normalizeEnrollment r = (if r = EnrollmentSuccess \<or> r = EnrollmentKeyConflict \<or> r = EnrollmentRateLimited then r else EnrollmentRejected)"

section \<open>Families\<close>

type_synonym counterVec = "string list \<rightharpoonup> int"
type_synonym histogramVec = "string list \<rightharpoonup> int list"

record Metrics =
  connectionsActive :: int
  connectionsTotal :: counterVec
  authAttempts :: counterVec
  authDuration :: histogramVec
  credValidations :: counterVec
  credValidationDur :: histogramVec
  credRenewals :: counterVec
  channelsActive :: int
  channelsTotal :: counterVec
  procsActive :: int
  procExits :: counterVec
  tunnelBytes :: counterVec
  limitRejections :: counterVec
  storeOps :: counterVec
  enrollments :: counterVec
  limitsUsage :: counterVec
  limitsMax :: counterVec

text \<open>\<open>WithLabelValues\<close> creates the series; the methods of what it returns add to it, observe a value or set it.\<close>

definition series :: "'a \<Rightarrow> string list \<Rightarrow> (string list \<rightharpoonup> 'a) \<Rightarrow> 'a" where
  "series zero ls v = (case v ls of None \<Rightarrow> zero | Some x \<Rightarrow> x)"

definition WithLabelValues :: "'a \<Rightarrow> string list \<Rightarrow> (string list \<rightharpoonup> 'a) \<Rightarrow> (string list \<rightharpoonup> 'a)" where
  "WithLabelValues zero ls v = v(ls \<mapsto> series zero ls v)"

definition Add :: "string list \<Rightarrow> int \<Rightarrow> counterVec \<Rightarrow> counterVec" where
  "Add ls n v = v(ls \<mapsto> series 0 ls v + n)"

definition Inc :: "string list \<Rightarrow> counterVec \<Rightarrow> counterVec" where
  "Inc ls v = Add ls 1 v"

definition Observe :: "string list \<Rightarrow> int \<Rightarrow> histogramVec \<Rightarrow> histogramVec" where
  "Observe ls d v = v(ls \<mapsto> series [] ls v @ [d])"

definition validation_labels :: "string list" where
  "validation_labels = [ResultSuccess, ValidationInvalid, ValidationForbidden, ValidationWrongUser, ValidationUnavailable,
     ValidationIncompatible, ValidationMalformed, ValidationMissing, ValidationError]"

definition exit_classes :: "string list" where
  "exit_classes = [''ok'', TUNNEL_CODER_EXITED, TUNNEL_START_TIMEOUT, TUNNEL_CANCELLED, TUNNEL_STREAM_FAILED]"

definition store_labels :: "string list" where
  "store_labels = [StoreOpLookupKey, StoreOpLoadCredential, StoreOpReplaceCred, StoreOpGetAccount, StoreOpClearCredential, StoreOpMarkInvalid]"

definition preCreateSeries :: "Metrics \<Rightarrow> Metrics" where
  "preCreateSeries m = m\<lparr>
     connectionsTotal := fold (WithLabelValues 0) (map (\<lambda>r. [r]) [ResultSuccess, ResultFailure, ResultRejected]) (connectionsTotal m),
     channelsTotal := fold (WithLabelValues 0) [[''accepted''], [''rejected'']] (channelsTotal m),
     authAttempts := fold (WithLabelValues 0) (concat (map (\<lambda>method. map (\<lambda>r. [method, r]) [ResultSuccess, ResultFailure])
        [MethodPublicKey, MethodPassword, MethodKeyboardInteractive, MethodNone, MethodOther])) (authAttempts m),
     authDuration := fold (WithLabelValues []) (map (\<lambda>r. [r]) [ResultSuccess, ResultFailure]) (authDuration m),
     credValidations := fold (WithLabelValues 0) (map (\<lambda>r. [r]) validation_labels) (credValidations m),
     credValidationDur := fold (WithLabelValues []) (map (\<lambda>r. [r]) validation_labels) (credValidationDur m),
     credRenewals := fold (WithLabelValues 0) (map (\<lambda>r. [MethodToken, r]) [ResultSuccess, ResultFailure, ResultWrongUser]) (credRenewals m),
     procExits := fold (WithLabelValues 0) (map (\<lambda>r. [r]) exit_classes) (procExits m),
     tunnelBytes := fold (WithLabelValues 0) [[DirUp], [DirDown]] (tunnelBytes m),
     limitRejections := fold (WithLabelValues 0) (map (\<lambda>r. [r]) limitNames) (limitRejections m),
     storeOps := fold (WithLabelValues 0) (concat (map (\<lambda>p. map (\<lambda>r. [p, r]) [ResultSuccess, ResultFailure]) store_labels)) (storeOps m),
     enrollments := fold (WithLabelValues 0) (map (\<lambda>r. [r]) [EnrollmentSuccess, EnrollmentRejected, EnrollmentKeyConflict, EnrollmentRateLimited])
        (enrollments m)\<rparr>"

definition metrics_New :: Metrics where
  "metrics_New = preCreateSeries \<lparr>connectionsActive = 0, connectionsTotal = Map.empty, authAttempts = Map.empty, authDuration = Map.empty,
     credValidations = Map.empty, credValidationDur = Map.empty, credRenewals = Map.empty, channelsActive = 0,
     channelsTotal = Map.empty, procsActive = 0, procExits = Map.empty, tunnelBytes = Map.empty, limitRejections = Map.empty,
     storeOps = Map.empty, enrollments = Map.empty, limitsUsage = Map.empty, limitsMax = Map.empty\<rparr>"

section \<open>Recorder\<close>

definition ConnectionOpened :: "Metrics \<Rightarrow> Metrics" where
  "ConnectionOpened m = m\<lparr>connectionsActive := connectionsActive m + 1\<rparr>"

definition ConnectionClosed :: "string \<Rightarrow> Metrics \<Rightarrow> Metrics" where
  "ConnectionClosed result m = m\<lparr>connectionsActive := connectionsActive m - 1,
     connectionsTotal := Inc [normalizeResult result] (connectionsTotal m)\<rparr>"

definition AuthAttempt :: "string \<Rightarrow> string \<Rightarrow> Metrics \<Rightarrow> Metrics" where
  "AuthAttempt method result m = m\<lparr>authAttempts := Inc [normalizeMethod method, normalizeResult result] (authAttempts m)\<rparr>"

definition AuthDuration :: "string \<Rightarrow> int \<Rightarrow> Metrics \<Rightarrow> Metrics" where
  "AuthDuration result d m = m\<lparr>authDuration := Observe [normalizeResult result] d (authDuration m)\<rparr>"

definition ChannelAccepted :: "Metrics \<Rightarrow> Metrics" where
  "ChannelAccepted m = m\<lparr>channelsActive := channelsActive m + 1, channelsTotal := Inc [''accepted''] (channelsTotal m)\<rparr>"

definition ChannelRejected :: "Metrics \<Rightarrow> Metrics" where
  "ChannelRejected m = m\<lparr>channelsTotal := Inc [''rejected''] (channelsTotal m)\<rparr>"

definition ChannelClosed :: "Metrics \<Rightarrow> Metrics" where
  "ChannelClosed m = m\<lparr>channelsActive := channelsActive m - 1\<rparr>"

definition LimitRejection :: "string \<Rightarrow> Metrics \<Rightarrow> Metrics" where
  "LimitRejection limit m = m\<lparr>limitRejections := Inc [normalizeLimit limit] (limitRejections m)\<rparr>"

definition CredentialValidation :: "string \<Rightarrow> int \<Rightarrow> Metrics \<Rightarrow> Metrics" where
  "CredentialValidation result d m = (let r = normalizeValidation result in
     m\<lparr>credValidations := Inc [r] (credValidations m), credValidationDur := Observe [r] d (credValidationDur m)\<rparr>)"

definition CredentialRenewal :: "string \<Rightarrow> string \<Rightarrow> Metrics \<Rightarrow> Metrics" where
  "CredentialRenewal method result m =
     (let method = (if method \<noteq> MethodToken then MethodToken else method);
          result = (if result = ResultSuccess \<or> result = ResultFailure \<or> result = ResultWrongUser then result else ResultFailure) in
      m\<lparr>credRenewals := Inc [method, result] (credRenewals m)\<rparr>)"

definition StoreOperation :: "string \<Rightarrow> string \<Rightarrow> Metrics \<Rightarrow> Metrics" where
  "StoreOperation operation result m = m\<lparr>storeOps := Inc [normalizeStoreOp operation, normalizeResult result] (storeOps m)\<rparr>"

definition Enrollment_m :: "string \<Rightarrow> Metrics \<Rightarrow> Metrics" where
  "Enrollment_m result m = m\<lparr>enrollments := Inc [normalizeEnrollment result] (enrollments m)\<rparr>"

section \<open>Tunnel observer\<close>

definition ProcessStarted_m :: "Metrics \<Rightarrow> Metrics" where
  "ProcessStarted_m m = m\<lparr>procsActive := procsActive m + 1\<rparr>"

definition ProcessExited_m :: "string \<Rightarrow> Metrics \<Rightarrow> Metrics" where
  "ProcessExited_m class m = (let class = (if class = [] then ''ok'' else class) in
     m\<lparr>procsActive := procsActive m - 1, procExits := Inc [class] (procExits m)\<rparr>)"

definition TunnelBytes :: "string \<Rightarrow> int \<Rightarrow> Metrics \<Rightarrow> Metrics" where
  "TunnelBytes dir n m = (if dir \<noteq> DirUp \<and> dir \<noteq> DirDown then m else m\<lparr>tunnelBytes := Add [dir] n (tunnelBytes m)\<rparr>)"

definition ActiveGauge_m :: "int \<Rightarrow> Metrics \<Rightarrow> Metrics" where
  "ActiveGauge_m n m = m"

section \<open>Usage of the limits\<close>

text \<open>The sum over a finite map.\<close>

definition sumMap :: "('k \<rightharpoonup> int) \<Rightarrow> int" where
  "sumMap m = (\<Sum>k\<in>dom m. the (m k))"

definition usage_sample :: "LimitsUsage \<Rightarrow> (string \<times> int) list" where
  "usage_sample u = [(ReasonGlobalConn, GlobalConns u), (ReasonHandshake, lu_Handshakes u), (ReasonIPConn, sumMap (IPs u)),
     (ReasonKeyConn, sumMap (Keys u)), (ReasonAccountConn, sumMap (Accounts u)), (ReasonChannelConn, sumMap (LimitsUsage.Channels u)),
     (ReasonChannelAccount, sumMap (ChannelAccounts u)), (ReasonCoderProcess, lu_CoderProcesses u), (ReasonCoderAPI, lu_CoderAPIRequests u)]"

definition Set :: "string \<times> int \<Rightarrow> counterVec \<Rightarrow> counterVec" where
  "Set p v = v([fst p] \<mapsto> snd p)"

definition sample :: "Counters \<Rightarrow> Metrics \<Rightarrow> Metrics" where
  "sample c m = m\<lparr>limitsUsage := fold Set (usage_sample (Usage c)) (limitsUsage m)\<rparr>"

text \<open>\<open>PollLimitsUsage\<close>: the counters as they are at the start and at every tick until the context is done.\<close>

definition PollLimitsUsage :: "(string \<times> int) list \<Rightarrow> Counters \<Rightarrow> Counters list \<Rightarrow> Metrics \<Rightarrow> Metrics" where
  "PollLimitsUsage maxima c ticks m = fold sample (c # ticks) (m\<lparr>limitsMax := fold Set maxima (limitsMax m)\<rparr>)"

end
