(* ===== verification/MetricsProps.thy ===== *)
theory MetricsProps
  imports Metrics
begin

text \<open>
  What the metrics guarantee: no call of the recorder, whatever strings it is given, and no run of a tunnel process creates a
  series outside a fixed finite set, and the gauges balance against the counters.
\<close>

section \<open>Calls\<close>

text \<open>A run of a supervised process reports its effects to the observer in their order.\<close>

fun observe :: "sv_effect \<Rightarrow> Metrics \<Rightarrow> Metrics" where
  "observe ProcessStarted m = ProcessStarted_m m"
| "observe (ProcessExited class) m = ProcessExited_m class m"
| "observe (ActiveGauge n) m = ActiveGauge_m n m"
| "observe _ m = m"

datatype metrics_call =
    McOpened | McClosed string | McAuth string string | McAuthDuration string int | McAccepted | McRejected | McChannelClosed
  | McLimit string | McValidation string int | McRenewal string string | McStore string string | McEnrollment string
  | McSupervised SuperviseOpts "sv_event list" shutdown | McBytes string int | McSample Counters

fun metrics_step :: "metrics_call \<Rightarrow> Metrics \<Rightarrow> Metrics" where
  "metrics_step McOpened m = ConnectionOpened m"
| "metrics_step (McClosed r) m = ConnectionClosed r m"
| "metrics_step (McAuth a r) m = AuthAttempt a r m"
| "metrics_step (McAuthDuration r d) m = AuthDuration r d m"
| "metrics_step McAccepted m = ChannelAccepted m"
| "metrics_step McRejected m = ChannelRejected m"
| "metrics_step McChannelClosed m = ChannelClosed m"
| "metrics_step (McLimit l) m = LimitRejection l m"
| "metrics_step (McValidation r d) m = CredentialValidation r d m"
| "metrics_step (McRenewal a r) m = CredentialRenewal a r m"
| "metrics_step (McStore p r) m = StoreOperation p r m"
| "metrics_step (McEnrollment r) m = Enrollment_m r m"
| "metrics_step (McSupervised opts es z) m = (case Supervise opts es z of None \<Rightarrow> ProcessStarted_m m | Some (_, fx) \<Rightarrow> fold observe fx m)"
| "metrics_step (McBytes d n) m = TunnelBytes d n m"
| "metrics_step (McSample c) m = sample c m"

section \<open>A fixed set of series\<close>

definition results :: "string list" where "results = [ResultSuccess, ResultFailure, ResultRejected]"

definition methods :: "string list" where
  "methods = [MethodPublicKey, MethodPassword, MethodKeyboardInteractive, MethodNone, MethodOther]"

definition renewal_results :: "string list" where "renewal_results = [ResultSuccess, ResultFailure, ResultWrongUser]"

definition enrollment_results :: "string list" where
  "enrollment_results = [EnrollmentSuccess, EnrollmentRejected, EnrollmentKeyConflict, EnrollmentRateLimited]"

definition labels_fixed :: "Metrics \<Rightarrow> bool" where
  "labels_fixed m \<longleftrightarrow> dom (connectionsTotal m) = {[r] | r. r \<in> set results}
     \<and> dom (authAttempts m) \<subseteq> {[a, r] | a r. a \<in> set methods \<and> r \<in> set results}
     \<and> dom (authDuration m) \<subseteq> {[r] | r. r \<in> set results}
     \<and> dom (credValidations m) = {[r] | r. r \<in> set validation_labels} \<and> dom (credValidationDur m) = {[r] | r. r \<in> set validation_labels}
     \<and> dom (credRenewals m) = {[MethodToken, r] | r. r \<in> set renewal_results}
     \<and> dom (channelsTotal m) = {[''accepted''], [''rejected'']}
     \<and> dom (procExits m) = {[c] | c. c \<in> set exit_classes}
     \<and> dom (tunnelBytes m) = {[DirUp], [DirDown]}
     \<and> dom (limitRejections m) \<subseteq> {[l] | l. l \<in> set (''other'' # limitNames)}
     \<and> dom (storeOps m) \<subseteq> {[p, r] | p r. p \<in> set (''other'' # store_labels) \<and> r \<in> set results}
     \<and> dom (enrollments m) = {[r] | r. r \<in> set enrollment_results}
     \<and> dom (limitsUsage m) \<subseteq> {[l] | l. l \<in> set limitNames}"

lemma dom_vec [simp]:
  "dom (Add ls n v) = insert ls (dom v)" "dom (Inc ls v) = insert ls (dom v)" "dom (Observe ls d h) = insert ls (dom h)"
  "dom (WithLabelValues z ls w) = insert ls (dom w)" "dom (Set p v) = insert [fst p] (dom v)"
  by (simp_all add: Add_def Inc_def Observe_def WithLabelValues_def Set_def)

lemma dom_fold_vec: "dom (fold (WithLabelValues z) lss w) = set lss \<union> dom w"
  by (induction lss arbitrary: w) auto

lemma dom_fold_Set: "dom (fold Set ps v) = (\<lambda>p. [fst p]) ` set ps \<union> dom v"
  by (induction ps arbitrary: v) auto

lemma normalized [simp]:
  "normalizeResult r \<in> set results" "normalizeMethod a \<in> set methods" "normalizeLimit l = ''other'' \<or> normalizeLimit l \<in> set limitNames"
  "normalizeValidation v \<in> set validation_labels" "normalizeStoreOp p = ''other'' \<or> normalizeStoreOp p \<in> set store_labels"
  "normalizeEnrollment e \<in> set enrollment_results"
  by (auto simp: normalizeResult_def results_def normalizeMethod_def methods_def normalizeLimit_def normalizeValidation_def
      validation_labels_def normalizeStoreOp_def store_labels_def normalizeEnrollment_def enrollment_results_def)

lemma New_fixed: "labels_fixed metrics_New"
  unfolding labels_fixed_def metrics_New_def preCreateSeries_def
  by (auto simp: dom_fold_vec results_def methods_def renewal_results_def enrollment_results_def)

lemma exit_class: "(if supervision_code v u d = [] then ''ok'' else supervision_code v u d) \<in> set exit_classes"
  by (auto simp: supervision_code_def exit_classes_def split: cancelTrigger.splits)

lemma observe_cancel: "fold observe (cancelChild grace z) m = m"
  by (simp add: cancelChild_def)

lemma observe_effects:
  "fold observe (supervision_effects opts v z) m =
     m\<lparr>procExits := Inc [if supervision_code v u d = [] then ''ok'' else supervision_code v u d] (procExits m)\<rparr>"
  if "u = (if sv_upRes v then sd_up z else sv_upErr v)" "d = (if sv_downRes v then sd_down z else sv_downErr v)"
  using that by (simp add: supervision_effects_def supervision_result_def Let_def observe_cancel ProcessStarted_m_def ProcessExited_m_def ActiveGauge_m_def)

lemma supervised_step:
  "\<exists>c\<in>set exit_classes. metrics_step (McSupervised opts es z) m =
     (case Supervise opts es z of None \<Rightarrow> ProcessStarted_m m | Some _ \<Rightarrow> m\<lparr>procExits := Inc [c] (procExits m)\<rparr>)"
proof (cases "sv_loop es (sv_init opts)")
  case None
  then show ?thesis by (intro bexI [of _ "''ok''"]) (simp_all add: Supervise_def exit_classes_def)
next
  case (Some v)
  show ?thesis
    by (rule bexI [OF _ exit_class [of v "if sv_upRes v then sd_up z else sv_upErr v" "if sv_downRes v then sd_down z else sv_downErr v"]])
      (simp add: Supervise_def Some observe_effects [OF refl refl])
qed

lemma step_fixed:
  assumes "labels_fixed m" shows "labels_fixed (metrics_step c m)"
proof (cases c)
  case (McSupervised opts es z)
  obtain k where k: "k \<in> set exit_classes" and e: "metrics_step c m =
      (case Supervise opts es z of None \<Rightarrow> ProcessStarted_m m | Some _ \<Rightarrow> m\<lparr>procExits := Inc [k] (procExits m)\<rparr>)"
    using supervised_step [of opts es z m] McSupervised by blast
  show ?thesis unfolding e using assms k
    by (cases "Supervise opts es z") (simp_all add: labels_fixed_def ProcessStarted_m_def insert_absorb)
next
  case (McSample k)
  then show ?thesis using assms unfolding labels_fixed_def by (simp add: sample_def dom_fold_Set usage_sample_def limitNames_def)
next
  case (McRenewal a r)
  have "(if r = ResultSuccess \<or> r = ResultFailure \<or> r = ResultWrongUser then r else ResultFailure) \<in> set renewal_results"
    by (auto simp: renewal_results_def)
  then show ?thesis using assms McRenewal unfolding labels_fixed_def by (simp add: CredentialRenewal_def Let_def insert_absorb)
next
  case (McBytes d n)
  then show ?thesis using assms unfolding labels_fixed_def by (auto simp: TunnelBytes_def)
qed (use assms in \<open>simp_all add: labels_fixed_def ConnectionOpened_def ConnectionClosed_def AuthAttempt_def AuthDuration_def
   ChannelAccepted_def ChannelRejected_def ChannelClosed_def LimitRejection_def CredentialValidation_def StoreOperation_def
   Enrollment_m_def Let_def insert_absorb\<close>)

section \<open>Balance\<close>

lemma sumMap_Add: "finite (dom v) \<Longrightarrow> sumMap (Add ls n v) = sumMap v + n"
proof -
  assume f: "finite (dom v)"
  have s: "sumMap w = (\<Sum>k\<in>insert ls (dom v). the (w k))" if "dom w = insert ls (dom v)" for w :: counterVec by (simp add: sumMap_def that)
  have r: "(\<Sum>k\<in>insert ls (dom v). g k) = g ls + (\<Sum>k\<in>dom v - {ls}. g k)" for g :: "string list \<Rightarrow> int"
    using f by (simp add: sum.insert_remove)
  have d: "sumMap v = (\<Sum>k\<in>dom v. series 0 k v)" unfolding sumMap_def by (rule sum.cong) (auto simp: series_def)
  have "sumMap v = (\<Sum>k\<in>insert ls (dom v). series 0 k v)"
  proof (cases "ls \<in> dom v")
    case False
    then show ?thesis using f d by (simp add: series_def domIff)
  qed (simp add: insert_absorb d)
  moreover have "sumMap (Add ls n v) = (\<Sum>k\<in>insert ls (dom v). the (Add ls n v k))" by (rule s) simp
  moreover have "(\<Sum>k\<in>dom v - {ls}. the (Add ls n v k)) = (\<Sum>k\<in>dom v - {ls}. series 0 k v)"
    by (rule sum.cong) (auto simp: Add_def series_def)
  ultimately show ?thesis by (simp add: r Add_def)
qed

definition opened :: "metrics_call list \<Rightarrow> int" where "opened cs = int (length (filter (\<lambda>c. c = McOpened) cs))"

text \<open>The runs that have not ended.\<close>

definition running :: "metrics_call list \<Rightarrow> int" where
  "running cs = int (length (filter (\<lambda>c. case c of McSupervised opts es z \<Rightarrow> Supervise opts es z = None | _ \<Rightarrow> False) cs))"

lemma fixed_finite: "labels_fixed m \<Longrightarrow> finite (dom (connectionsTotal m))"
  by (simp add: labels_fixed_def results_def)

lemma sumMap_Inc: "finite (dom v) \<Longrightarrow> sumMap (Inc ls v) = sumMap v + 1"
  by (simp add: Inc_def sumMap_Add)

definition metrics_balance :: "Metrics \<Rightarrow> int \<times> int" where
  "metrics_balance m = (connectionsActive m + sumMap (connectionsTotal m), procsActive m)"

lemma balance_step:
  assumes "labels_fixed m"
  shows "metrics_balance (metrics_step c m) = (fst (metrics_balance m) + opened [c], snd (metrics_balance m) + running [c])"
proof (cases c)
  case (McSupervised opts es z)
  obtain k where e: "metrics_step c m =
      (case Supervise opts es z of None \<Rightarrow> ProcessStarted_m m | Some _ \<Rightarrow> m\<lparr>procExits := Inc [k] (procExits m)\<rparr>)"
    using supervised_step [of opts es z m] McSupervised by blast
  show ?thesis unfolding e using McSupervised
    by (cases "Supervise opts es z") (simp_all add: metrics_balance_def ProcessStarted_m_def opened_def running_def)
qed (simp_all add: metrics_balance_def opened_def running_def ConnectionOpened_def ConnectionClosed_def AuthAttempt_def AuthDuration_def
   ChannelAccepted_def ChannelRejected_def ChannelClosed_def LimitRejection_def CredentialValidation_def CredentialRenewal_def StoreOperation_def
   Enrollment_m_def TunnelBytes_def sample_def Let_def sumMap_Inc [OF fixed_finite [OF assms]])

lemma run_metrics:
  "labels_fixed m \<Longrightarrow> labels_fixed (fold metrics_step cs m) \<and> metrics_balance (fold metrics_step cs m)
     = (fst (metrics_balance m) + opened cs, snd (metrics_balance m) + running cs)"
proof (induction cs arbitrary: m)
  case (Cons c cs)
  from Cons.IH [OF step_fixed [OF Cons.prems]] balance_step [OF Cons.prems, of c]
  show ?case by (simp add: opened_def running_def)
qed (simp add: opened_def running_def)

text \<open>C25. The metrics cannot be flooded: whatever strings the recorder is called with, and whatever a tunnel process does, every
  family has only series from a fixed finite set of label values. The gauges balance: the connections ever opened are the
  active ones and the counted ones, and the active processes are exactly the runs that have not ended.\<close>

theorem metric_labels_fixed:
  "labels_fixed (fold metrics_step cs metrics_New)
   \<and> connectionsActive (fold metrics_step cs metrics_New) + sumMap (connectionsTotal (fold metrics_step cs metrics_New)) = opened cs
   \<and> procsActive (fold metrics_step cs metrics_New) = running cs"
proof -
  have "sumMap (connectionsTotal metrics_New) = 0"
    unfolding sumMap_def
    by (rule sum.neutral) (auto simp: metrics_New_def preCreateSeries_def WithLabelValues_def series_def split: if_splits option.splits)
  then have "metrics_balance metrics_New = (0, 0)" by (simp add: metrics_balance_def metrics_New_def preCreateSeries_def)
  then show ?thesis using run_metrics [OF New_fixed, of cs] by (simp add: metrics_balance_def)
qed

end
