(* ===== verification/Instrument.thy ===== *)
theory Instrument
  imports Metrics AuditLog Enrollment
begin

text \<open>
  \<open>internal/app/instrument.go\<close>: the wrappers that the service puts around the verifier of tokens, the store and the audit log.
  The wrapped verifier holds a slot of the limit on control-plane requests for the time of the request; what other
  handlers do to the counters in between is an argument.
\<close>

section \<open>The verifier\<close>

definition storeResult :: "('e + 'a) \<Rightarrow> string" where
  "storeResult r = (case r of Inl _ \<Rightarrow> ResultFailure | Inr _ \<Rightarrow> ResultSuccess)"

definition validationResultLabel :: "verify_error + CoderIdentity \<Rightarrow> string" where
  "validationResultLabel r = (case r of
     Inr _ \<Rightarrow> ResultSuccess
   | Inl err \<Rightarrow> (case KindOf err of
        Some CredentialInvalid \<Rightarrow> ValidationInvalid
      | Some CredentialForbidden \<Rightarrow> ValidationForbidden
      | Some CredentialWrongIdentity \<Rightarrow> ValidationWrongUser
      | Some ControlPlaneUnavailable \<Rightarrow> ValidationUnavailable
      | Some ControlPlaneIncompatible \<Rightarrow> ValidationIncompatible
      | Some CredentialMalformedReply \<Rightarrow> ValidationMalformed
      | Some CredentialMissing \<Rightarrow> ValidationMissing
      | None \<Rightarrow> ValidationError))"

record instruments =
  in_counters :: Counters
  in_metrics :: Metrics

definition overload :: CredentialError where
  "overload = \<lparr>ce_Kind = ControlPlaneUnavailable, ce_HTTPStatus = 0, ce_Retryable = True, ce_DetailCode = AUTH_CODER_UNAVAILABLE\<rparr>"

text \<open>\<open>inner\<close> is the request of the wrapped verifier, \<open>since\<close> its duration, \<open>others\<close> the calls on the counters while it runs.\<close>

definition instrumented_Verify ::
    "(bytes \<Rightarrow> verify_error + CoderIdentity) \<Rightarrow> int \<Rightarrow> counters_op list \<Rightarrow> bytes \<Rightarrow> (instruments, verify_error, CoderIdentity) sr" where
  "instrumented_Verify inner since others token = (\<lambda>s.
     case AcquireCoderAPI (in_counters s) of
       (None, c) \<Rightarrow> (Inl (CredErr overload),
          s\<lparr>in_counters := c, in_metrics := CredentialValidation ValidationUnavailable 0 (LimitRejection ReasonCoderAPI (in_metrics s))\<rparr>)
     | (Some t, c) \<Rightarrow>
         let r = inner token in
         (r, s\<lparr>in_counters := releaseCoderAPI t (fold counters_step others c),
               in_metrics := CredentialValidation (validationResultLabel r) since (in_metrics s)\<rparr>))"

section \<open>The store\<close>

text \<open>A store operation with one sample of \<open>store_operations_total\<close>.\<close>

record measured =
  ms_store :: store
  ms_metrics :: Metrics

definition measure_op :: "string \<Rightarrow> 'a stm \<Rightarrow> (measured, serror, 'a) sr" where
  "measure_op operation m = (\<lambda>s. case m (ms_store s) of (r, t) \<Rightarrow>
     (r, s\<lparr>ms_store := t, ms_metrics := StoreOperation operation (storeResult r) (ms_metrics s)\<rparr>))"

definition instrumented_LookupByPublicKey :: "env \<Rightarrow> bool \<Rightarrow> uuid \<Rightarrow> pubkey \<Rightarrow> (measured, serror, Account \<times> SSHKeyRecord) sr" where
  "instrumented_LookupByPublicKey E ctxErr dep key = measure_op StoreOpLookupKey (LookupByPublicKey E ctxErr dep key)"

definition instrumented_LoadCredential :: "env \<Rightarrow> bool \<Rightarrow> uuid \<Rightarrow> (measured, serror, CredentialSnapshot) sr" where
  "instrumented_LoadCredential E ctxErr i = measure_op StoreOpLoadCredential (LoadCredential E ctxErr i)"

definition instrumented_ReplaceCredential :: "env \<Rightarrow> bool \<Rightarrow> ReplaceCredentialRequest \<Rightarrow> (measured, serror, CredentialSnapshot) sr" where
  "instrumented_ReplaceCredential E ctxErr req = measure_op StoreOpReplaceCred (ReplaceCredential E ctxErr req)"

definition instrumented_GetAccount :: "env \<Rightarrow> uuid \<Rightarrow> (measured, serror, Account) sr" where
  "instrumented_GetAccount E i = measure_op StoreOpGetAccount (GetAccount E i)"

definition instrumented_ClearCredential :: "env \<Rightarrow> bool \<Rightarrow> uuid \<Rightarrow> int64 \<Rightarrow> (measured, serror, unit) sr" where
  "instrumented_ClearCredential E ctxErr i g = measure_op StoreOpClearCredential (ClearCredential E ctxErr i g)"

definition instrumented_MarkCredentialInvalid :: "env \<Rightarrow> bool \<Rightarrow> uuid \<Rightarrow> int64 \<Rightarrow> string \<Rightarrow> (measured, serror, unit) sr" where
  "instrumented_MarkCredentialInvalid E ctxErr i g reason = measure_op StoreOpMarkInvalid (MarkCredentialInvalid E ctxErr i g reason)"

section \<open>The audit log\<close>

definition enrollmentRejectionLabel :: "string \<Rightarrow> string" where
  "enrollmentRejectionLabel detailCode =
     (if detailCode = DetailEnrollmentKeyAlreadyLinked then EnrollmentKeyConflict
      else if detailCode = DetailEnrollmentRateLimited then EnrollmentRateLimited
      else EnrollmentRejected)"

definition bridge_metrics :: "Event \<Rightarrow> Metrics \<Rightarrow> Metrics" where
  "bridge_metrics e m =
     (if au_EventType e = EventTypeCredentialRenewal
      then CredentialRenewal MethodToken (if au_Result e = ResultSuccess then ResultSuccess else ResultFailure) m
      else if au_EventType e = EventTypeWrongUserToken then CredentialRenewal MethodToken ResultWrongUser m
      else if au_EventType e = EventTypeEnrollmentSuccess then Enrollment_m EnrollmentSuccess m
      else if au_EventType e = EventTypeEnrollmentRejected then Enrollment_m (enrollmentRejectionLabel (au_DetailCode e)) m
      else m)"

definition bridge_Record :: "string \<Rightarrow> audit_io \<Rightarrow> string \<Rightarrow> Event \<Rightarrow> Metrics \<Rightarrow> JSONLFileLogger \<Rightarrow> audit_error option \<times> Metrics \<times> JSONLFileLogger" where
  "bridge_Record suffix io today e m l = (case audit_Record suffix io today e l of (r, l) \<Rightarrow> (r, bridge_metrics e m, l))"

end
