(* ===== verification/Service.thy ===== *)
theory Service
  imports Instrument Cli
begin

text \<open>
  The service: the health endpoints (\<open>internal/health\<close>) and the assembly and life of the gateway process
  (\<open>internal/app/serve.go\<close>). The outcomes of the readiness probes are arguments of a request, the clock too. \<open>Build\<close> is a
  computation on the resources it opens. The goroutines of \<open>ServeOn\<close> are a step relation over that of the SSH server. The
  HTTP servers and the structured log are not modelled.
\<close>

section \<open>Health endpoints (health.go)\<close>

text \<open>The outcome of every probe; \<open>None\<close> when it is not configured.\<close>

record Checks =
  ck_HostKeyLoaded :: "bool option"
  ck_EncryptionOK :: "bool option"
  ck_StoreOK :: "bool option"
  ck_ListenerUp :: "bool option"
  ck_SupervisorOK :: "bool option"
  ck_Draining :: "bool option"
  ck_CoderProbe :: "bool option"

record healthServer =
  hs_ProbeCacheTTL :: int
  hs_CheckTimeout :: int
  hs_probeAt :: int
  hs_probeResult :: bool
  hs_probeRan :: bool

definition health_New :: "int \<Rightarrow> int \<Rightarrow> healthServer" where
  "health_New ttl timeout = \<lparr>hs_ProbeCacheTTL = (if ttl \<le> 0 then 10 * second else ttl),
     hs_CheckTimeout = (if timeout \<le> 0 then 2 * second else timeout), hs_probeAt = 0, hs_probeResult = False, hs_probeRan = False\<rparr>"

record healthReply =
  hr_Code :: int
  hr_Status :: string
  hr_Checks :: "(string \<times> string) list"
  hr_CoderReachable :: bool
  hr_Degraded :: bool

definition handleLivez :: healthReply where
  "handleLivez = \<lparr>hr_Code = 200, hr_Status = ''alive'', hr_Checks = [], hr_CoderReachable = False, hr_Degraded = False\<rparr>"

text \<open>The two critical sections of \<open>cachedCoderProbe\<close>: the cached answer at \<open>now\<close>, and the storing of a new one. The probe runs
  between them without the lock.\<close>

definition probe_cached :: "int \<Rightarrow> healthServer \<Rightarrow> bool option" where
  "probe_cached now s = (if hs_probeRan s \<and> now - hs_probeAt s < hs_ProbeCacheTTL s then Some (hs_probeResult s) else None)"

definition probe_store :: "int \<Rightarrow> bool \<Rightarrow> healthServer \<Rightarrow> healthServer" where
  "probe_store later r s = s\<lparr>hs_probeAt := later, hs_probeResult := r, hs_probeRan := True\<rparr>"

definition probe_outcome :: "Checks \<Rightarrow> bool" where
  "probe_outcome c = (case ck_CoderProbe c of None \<Rightarrow> False | Some r \<Rightarrow> r)"

definition cachedCoderProbe :: "Checks \<Rightarrow> int \<Rightarrow> int \<Rightarrow> healthServer \<Rightarrow> bool \<times> healthServer" where
  "cachedCoderProbe c now later s = (case probe_cached now s of
     Some r \<Rightarrow> (r, s)
   | None \<Rightarrow> (probe_outcome c, probe_store later (probe_outcome c) s))"

definition run_check :: "string \<Rightarrow> bool option \<Rightarrow> (string \<times> string) list \<times> bool \<Rightarrow> (string \<times> string) list \<times> bool" where
  "run_check name outcome x = (case x of (checks, ready) \<Rightarrow>
     if outcome = Some False then (checks @ [(name, ''failed'')], False) else (checks @ [(name, ''ok'')], ready))"

definition readiness :: "Checks \<Rightarrow> (string \<times> string) list \<times> bool" where
  "readiness c =
     (let x = run_check ''supervisor'' (ck_SupervisorOK c) (run_check ''store'' (ck_StoreOK c)
            (run_check ''encryption'' (ck_EncryptionOK c) (run_check ''host_key'' (ck_HostKeyLoaded c) ([], True))));
          x = (if ck_ListenerUp c = Some False then (fst x @ [(''listener'', ''down'')], False) else (fst x @ [(''listener'', ''up'')], snd x)) in
      if ck_Draining c = Some True then (fst x @ [(''draining'', ''true'')], False) else x)"

definition handleReadyz :: "Checks \<Rightarrow> int \<Rightarrow> int \<Rightarrow> healthServer \<Rightarrow> healthReply \<times> healthServer" where
  "handleReadyz c now later s =
     (case readiness c of (checks, ready) \<Rightarrow>
      case cachedCoderProbe c now later s of (coderReachable, s) \<Rightarrow>
        (\<lparr>hr_Code = (if ready then 200 else 503), hr_Status = (if ready then ''ready'' else ''not_ready''), hr_Checks = checks,
          hr_CoderReachable = coderReachable, hr_Degraded = \<not> coderReachable\<rparr>, s))"

section \<open>Assembly (serve.go)\<close>

datatype build_error =
    BuildLogger logger_error | BuildHostKeys hostkey_error | BuildStore serror | BuildDeployment | BuildOptions | BuildVerifier
  | BuildAudit audit_error | BuildServer server_error

text \<open>What \<open>Build\<close> asks of its surroundings beyond those of a command: the parser of private keys, the version of the program, the
  suffix and date of the audit file and which of its system calls fail.\<close>

record buildEnv =
  be_cli :: cliEnv
  be_parseSigner :: "bytes \<Rightarrow> string option"
  be_version :: string
  be_suffix :: string
  be_today :: string
  be_mkdirErr :: bool
  be_openErr :: bool

text \<open>The resources: the store, the files of the audit directory and the audit log once it is open.\<close>

record resources =
  rs_store :: store
  rs_files :: "(string, bytes) gomap"
  rs_audit :: "JSONLFileLogger option"

type_synonym 'a build = "(resources, build_error, 'a) sr"

record Built =
  bt_Config :: Config
  bt_Deployment :: Deployment
  bt_Server :: ServerConfig
  bt_Starter :: TunnelStarter
  bt_Verifier :: api
  bt_Cache :: CachedVerifier
  bt_Registry :: Registry
  bt_Metrics :: Metrics
  bt_Counters :: Counters
  bt_keyProv :: SourceKeyProvider

definition res_store :: "'a stm \<Rightarrow> 'a build" where
  "res_store m = (\<lambda>s. case m (rs_store s) of (Inl e, t) \<Rightarrow> (Inl (BuildStore e), s\<lparr>rs_store := t\<rparr>) | (Inr a, t) \<Rightarrow> (Inr a, s\<lparr>rs_store := t\<rparr>))"

text \<open>A step whose failure closes the store before it is reported.\<close>

definition or_close :: "env \<Rightarrow> 'a build \<Rightarrow> ('a \<Rightarrow> 'b build) \<Rightarrow> 'b build" where
  "or_close E m f = bnd (attempt m) (\<lambda>r. case r of
     Inl e \<Rightarrow> bnd (attempt (res_store (store_Close E))) (\<lambda>_. raise e)
   | Inr a \<Rightarrow> f a)"

definition open_audit :: "buildEnv \<Rightarrow> unit build" where
  "open_audit B = (\<lambda>s. case NewJSONLFileLogger (be_suffix B) (be_today B) (be_mkdirErr B) (be_openErr B) True (rs_files s) of
     Inl e \<Rightarrow> (Inl (BuildAudit e), s)
   | Inr l \<Rightarrow> (Inr (), s\<lparr>rs_files := lg_files l, rs_audit := Some l\<rparr>))"

definition tunnel_starter :: "Config \<Rightarrow> Deployment \<Rightarrow> TunnelStarter" where
  "tunnel_starter cfg dep = \<lparr>ts_Launcher = Some dep,
     ts_Opts = \<lparr>so_StartupTimeout = dp_WorkspaceConnectTimeout (cfg_Deployment cfg), so_PolicyTimeout = 0, so_Grace = ProcessShutdownGrace (cfg_Limits cfg)\<rparr>,
     ts_Audit = True, ts_Rechecker = True, ts_Registry = True\<rparr>"

definition server_config :: "Config \<Rightarrow> Deployment \<Rightarrow> string list \<Rightarrow> ServerConfig" where
  "server_config cfg dep signers = \<lparr>cfg_HostSigners = signers, cfg_Auth = auth_config cfg (dep_ID dep), cfg_Counters = True, cfg_PreAuthGate = True,
     cfg_HandshakeTimeout = li_HandshakeTimeout (cfg_Listen cfg), cfg_ServerVersion = ss_ServerVersion (cfg_SSH cfg),
     cfg_ProxyProtocol = li_ProxyProtocol (cfg_Listen cfg), cfg_ProxyHeaderTimeout = 0, cfg_RouteCodec = True, cfg_TunnelStarter = True,
     cfg_WorkspaceTransports = True, cfg_CacheTTL = dp_TokenValidationCache (cfg_Deployment cfg),
     cfg_DrainPeriod = ProcessShutdownGrace (cfg_Limits cfg), cfg_EnrollmentUser = er_User (cfg_Enrollment cfg), cfg_Audit = True\<rparr>"

definition Build :: "buildEnv \<Rightarrow> Config \<Rightarrow> Built build" where
  "Build B cfg =
     (let C = be_cli B; E = ca_env C; L = ca_lib C in
      bnd (lift_sum (case audit_NewLogger (ob_LogFormat (cfg_Observability cfg)) (ob_LogLevel (cfg_Observability cfg)) of
             Inl e \<Rightarrow> Inl (BuildLogger e) | Inr l \<Rightarrow> Inr l)) (\<lambda>_.
      bnd (lift_sum (case LoadHostSigners (ca_readFile C) (be_parseSigner B) (ss_HostKeys (cfg_SSH cfg)) of
             Inl e \<Rightarrow> Inl (BuildHostKeys e) | Inr signers \<Rightarrow> Inr signers)) (\<lambda>signers.
      bnd (res_store (store_Open E (sd_Dir (cfg_State cfg)) (ca_present C))) (\<lambda>_.
      bnd (res_store (SetKeyProvider (Some (keyprov_of L (ca_keys C) (KeyProviderFromConfig cfg))))) (\<lambda>_.
      or_close E (lift_sum (case DeploymentFromConfig C cfg of None \<Rightarrow> Inl BuildDeployment | Some dep \<Rightarrow> Inr dep)) (\<lambda>dep.
      or_close E (res_store (EnsureDeployment E dep)) (\<lambda>_.
      or_close E (lift_sum (case VerifierOptionsFromConfig C cfg of None \<Rightarrow> Inl BuildOptions | Some vopts \<Rightarrow> Inr vopts)) (\<lambda>vopts.
      or_close E (lift_sum (case verifier_New C dep vopts of None \<Rightarrow> Inl BuildVerifier | Some v \<Rightarrow> Inr v)) (\<lambda>verifier.
      or_close E (open_audit B) (\<lambda>_.
      or_close E (lift_sum (case server_New (be_version B) (server_config cfg dep signers) of Inl e \<Rightarrow> Inl (BuildServer e) | Inr srv \<Rightarrow> Inr srv)) (\<lambda>srv.
      ret \<lparr>bt_Config = cfg, bt_Deployment = dep, bt_Server = srv, bt_Starter = tunnel_starter cfg dep, bt_Verifier = verifier,
           bt_Cache = NewCachedVerifier (dep_ID dep) (dp_TokenValidationCache (cfg_Deployment cfg)), bt_Registry = NewRegistry,
           bt_Metrics = metrics_New, bt_Counters = NewCounters (cfg_Limits cfg), bt_keyProv = KeyProviderFromConfig cfg\<rparr>)))))))))))"

text \<open>\<open>Close\<close>: the audit log first, then the store; the errors of both.\<close>

definition Built_Close :: "env \<Rightarrow> audit_io \<Rightarrow> resources \<Rightarrow> build_error list \<times> resources" where
  "Built_Close E io s =
     (let (e, s) = (case rs_audit s of
            None \<Rightarrow> ([], s)
          | Some l \<Rightarrow> (case audit_Close io l of (r, l) \<Rightarrow> (case r of None \<Rightarrow> [] | Some x \<Rightarrow> [BuildAudit x], s\<lparr>rs_audit := Some l, rs_files := lg_files l\<rparr>)));
          (r, t) = store_Close E (rs_store s) in
      (e @ (case r of Inl x \<Rightarrow> [BuildStore x] | Inr _ \<Rightarrow> []), s\<lparr>rs_store := t\<rparr>))"

text \<open>The probes over the assembled system. \<open>versionFile\<close> is the content of the file VERSION, \<open>binary\<close> the mode of the coder
  binary, \<open>buildinfo\<close> the status of the reply to the reachability request, if one came.\<close>

definition store_version_ok :: "golib \<Rightarrow> bytes option \<Rightarrow> bool" where
  "store_version_ok L versionFile = (case versionFile of None \<Rightarrow> False | Some raw \<Rightarrow> TrimSpace L raw = ''1'')"

definition binary_ok :: "fileInfo option \<Rightarrow> bool" where
  "binary_ok binary = (case binary of None \<Rightarrow> False | Some info \<Rightarrow> \<not> (fi_IsDir info \<or> (and (fi_Perm info) 0x49) = 0))"

definition coderProbe :: "cliEnv \<Rightarrow> Built \<Rightarrow> int option \<Rightarrow> bool" where
  "coderProbe C b buildinfo = (case VerifierOptionsFromConfig C (bt_Config b) of
     None \<Rightarrow> False
   | Some vopts \<Rightarrow> NewHTTPClient C vopts \<and> dep_CoderURL (bt_Deployment b) \<noteq> None \<and> buildinfo = Some 200)"

definition HealthChecks :: "buildEnv \<Rightarrow> Built \<Rightarrow> bytes option \<Rightarrow> fileInfo option \<Rightarrow> int option \<Rightarrow> bool \<Rightarrow> serveState \<Rightarrow> Checks" where
  "HealthChecks B b versionFile binary buildinfo serving srv =
     \<lparr>ck_HostKeyLoaded = Some (case LoadHostSigners (ca_readFile (be_cli B)) (be_parseSigner B) (ss_HostKeys (cfg_SSH (bt_Config b))) of Inl _ \<Rightarrow> False | Inr _ \<Rightarrow> True),
      ck_EncryptionOK = Some (case fst (provider_ActiveKey (ca_lib (be_cli B)) (ca_keys (be_cli B)) False (bt_keyProv b)) of Inl _ \<Rightarrow> False | Inr _ \<Rightarrow> True),
      ck_StoreOK = Some (store_version_ok (ca_lib (be_cli B)) versionFile), ck_ListenerUp = Some serving,
      ck_SupervisorOK = Some (binary_ok binary), ck_Draining = Some (Draining srv), ck_CoderProbe = Some (coderProbe (be_cli B) b buildinfo)\<rparr>"

definition limitsMaxima :: "Config \<Rightarrow> (string \<times> int) list" where
  "limitsMaxima cfg = (let l = cfg_Limits cfg in
     [(ReasonGlobalConn, UnauthenticatedConnections l), (ReasonHandshake, Handshakes l), (ReasonIPConn, ConnectionsPerIP l),
      (ReasonKeyConn, ConnectionsPerKey l), (ReasonAccountConn, ConnectionsPerAccount l), (ReasonChannelConn, ChannelsPerConnection l),
      (ReasonChannelAccount, ChannelsPerAccount l), (ReasonCoderProcess, CoderProcesses l), (ReasonCoderAPI, CoderAPIRequests l),
      (ReasonRenewalRate, RenewalAttemptsPerAccountPerMinute l)])"

section \<open>The running service (serve.go)\<close>

datatype aux_task = AuxMetrics | AuxHealth | AuxPoller | AuxRetention

text \<open>\<open>sc_cancelled\<close>: the context is done; \<open>sc_aux\<close>: the auxiliary goroutines that have not returned.\<close>

record service =
  sc_server :: serveState
  sc_cancelled :: bool
  sc_aux :: "aux_task set"
  sc_retention :: int
  sc_serving :: bool
  sc_returned :: "bool option"

text \<open>The state after \<open>ServeOn\<close> has started its goroutines; an empty address disables a listener.\<close>

definition ServeOn_start :: "Config \<Rightarrow> service" where
  "ServeOn_start cfg = \<lparr>sc_server = serve_init, sc_cancelled = False,
     sc_aux = {AuxPoller, AuxRetention} \<union> (if ob_MetricsAddress (cfg_Observability cfg) = [] then {} else {AuxMetrics})
       \<union> (if ob_HealthAddress (cfg_Observability cfg) = [] then {} else {AuxHealth}),
     sc_retention = sd_AuditRetentionDays (cfg_State cfg), sc_serving = True, sc_returned = None\<rparr>"

text \<open>The SSH server leaves the phase before the shutdown only when the context is done. An HTTP server may fail by itself; the
  poller of the limits returns only when the context is done, and so does the retention job unless it is switched off.\<close>

inductive service_step :: "service \<Rightarrow> service \<Rightarrow> bool" where
  ssh: "serve_step (sc_server s) t \<Longrightarrow> ss_phase t = ss_phase (sc_server s) \<or> sc_cancelled s \<Longrightarrow> service_step s (s\<lparr>sc_server := t\<rparr>)"
| cancel: "service_step s (s\<lparr>sc_cancelled := True\<rparr>)"
| aux_stop: "a \<in> sc_aux s \<Longrightarrow> sc_cancelled s \<Longrightarrow> service_step s (s\<lparr>sc_aux := sc_aux s - {a}\<rparr>)"
| aux_fail: "a \<in> {AuxMetrics, AuxHealth} \<Longrightarrow> service_step s (s\<lparr>sc_aux := sc_aux s - {a}\<rparr>)"
| no_retention: "sc_retention s \<le> 0 \<Longrightarrow> service_step s (s\<lparr>sc_aux := sc_aux s - {AuxRetention}\<rparr>)"
| serve_on_return: "sc_returned s = None \<Longrightarrow> ss_returned (sc_server s) = Some r \<Longrightarrow> sc_aux s = {} \<Longrightarrow>
    service_step s (s\<lparr>sc_returned := Some r, sc_serving := False\<rparr>)"

section \<open>The serve command\<close>

definition set_bind_address :: "string \<Rightarrow> string \<Rightarrow> Config \<Rightarrow> Config" where
  "set_bind_address field v cfg =
     (if field = ''listen.address'' then cfg\<lparr>cfg_Listen := (cfg_Listen cfg)\<lparr>li_Address := v\<rparr>\<rparr>
      else if field = ''observability.metrics_address'' then cfg\<lparr>cfg_Observability := (cfg_Observability cfg)\<lparr>ob_MetricsAddress := v\<rparr>\<rparr>
      else cfg\<lparr>cfg_Observability := (cfg_Observability cfg)\<lparr>ob_HealthAddress := v\<rparr>\<rparr>)"

definition applyBindAddressOverrides :: "globals \<Rightarrow> Config \<Rightarrow> (string \<times> string) list \<times> Config" where
  "applyBindAddressOverrides g cfg =
     (let applied = concat (map (\<lambda>(flag, field). case flag of None \<Rightarrow> [] | Some v \<Rightarrow> [(field, v)])
            [(gl_listenAddress g, ''listen.address''), (gl_metricsAddress g, ''observability.metrics_address''),
             (gl_healthAddress g, ''observability.health_address'')]) in
      (applied, fold (\<lambda>(field, v). set_bind_address field v) applied cfg))"

datatype serveLine = ServeUsage | ServeConfig | ServeEnvironment | ServeInvalid "string list" | ServeStartup build_error | ServeListen | ServeFailed

text \<open>The configuration \<open>cmdServe\<close> starts with, or the line and exit code it stops with. \<open>getenv\<close> is the environment, \<open>F\<close> what
  validation asks of the file system.\<close>

definition serve_configuration :: "cliEnv \<Rightarrow> (string \<Rightarrow> string option) \<Rightarrow> probes \<Rightarrow> string list \<Rightarrow> (int \<times> serveLine) + Config" where
  "serve_configuration C getenv F args =
     (let g = ca_globals C in
      case flag_Parse [] [] args of
        None \<Rightarrow> Inl (exitUsage, ServeUsage)
      | Some (_, rest) \<Rightarrow>
          if rest \<noteq> [] then Inl (exitUsage, ServeUsage)
          else if gl_configPath g = [] \<and> gl_stateDir g = [] then Inl (exitUsage, ServeUsage)
          else case parse_at C (if gl_configPath g = [] then DefaultConfigPath (gl_stateDir g) else gl_configPath g) of
            None \<Rightarrow> Inl (exitError, ServeConfig)
          | Some cfg \<Rightarrow> (case ApplyEnvOverrides getenv (ApplyStateDir (gl_stateDir g) cfg) of
              Inl _ \<Rightarrow> Inl (exitError, ServeEnvironment)
            | Inr (_, cfg) \<Rightarrow>
                let cfg = snd (applyBindAddressOverrides g cfg); bad = Validate F cfg in
                if bad \<noteq> [] then Inl (exitError, ServeInvalid bad) else Inr cfg))"

text \<open>\<open>listens\<close>: the address can be bound. \<open>serveOn\<close> stands for the run of \<open>ServeOn\<close>: its effect on the resources and whether it
  returned without an error.\<close>

definition cmdServe :: "buildEnv \<Rightarrow> (string \<Rightarrow> string option) \<Rightarrow> probes \<Rightarrow> (string \<Rightarrow> bool) \<Rightarrow> (Built \<Rightarrow> resources \<Rightarrow> bool \<times> resources) \<Rightarrow> audit_io
    \<Rightarrow> string list \<Rightarrow> resources \<Rightarrow> int \<times> serveLine list \<times> resources" where
  "cmdServe B getenv F listens serveOn io args s =
     (case serve_configuration (be_cli B) getenv F args of
        Inl (code, line) \<Rightarrow> (code, [line], s)
      | Inr cfg \<Rightarrow>
          (case Build B cfg s of
             (Inl e, s) \<Rightarrow> (exitError, [ServeStartup e], s)
           | (Inr built, s) \<Rightarrow>
               if \<not> listens (li_Address (cfg_Listen cfg)) then (exitError, [ServeListen], snd (Built_Close (ca_env (be_cli B)) io s))
               else (case serveOn built s of (ok, s) \<Rightarrow>
                 (if ok then exitOK else exitError, if ok then [] else [ServeFailed], snd (Built_Close (ca_env (be_cli B)) io s)))))"

end
