(* ===== verification/Init.thy ===== *)
theory Init
  imports Cli Tunnels
begin

text \<open>
  The command that prepares a state directory (\<open>internal/app/init.go\<close>): the check of the domain, the directories, the host
  key, the encryption key and the starter configuration with the rule that nothing is replaced without a confirmation, the
  write of a secret file, and the seeding of the store. The file system outside the store is a map from cleaned paths to
  nodes; every system call may fail, and a failing write may leave any part of the data behind. The URL parser, the key
  generation of the SSH library and the random source are parameters.
\<close>

unbundle bit_operations_syntax

section \<open>The domain\<close>

text \<open>What the code reads of a parsed URL.\<close>

record urlParts =
  up_User :: bool
  up_Path :: string
  up_RawQuery :: string
  up_Fragment :: string
  up_Host :: string

text \<open>\<open>Hostname\<close> and \<open>Port\<close> of a URL: the last colon separates a port of digits, and brackets are removed.\<close>

definition validOptionalPort :: "string \<Rightarrow> bool" where
  "validOptionalPort p \<longleftrightarrow> (case p of [] \<Rightarrow> True | c # ds \<Rightarrow> c = CHR '':'' \<and> list_all (\<lambda>d. CHR ''0'' \<le> d \<and> d \<le> CHR ''9'') ds)"

definition splitHostPort :: "string \<Rightarrow> string \<times> string" where
  "splitHostPort hp =
     (let port = rev (takeWhile (\<lambda>c. c \<noteq> CHR '':'') (rev hp)); before = rev (dropWhile (\<lambda>c. c \<noteq> CHR '':'') (rev hp));
          (host, port) = (if before \<noteq> [] \<and> validOptionalPort (CHR '':'' # port) then (butlast before, port) else (hp, [])) in
      (if HasPrefix host ''['' \<and> HasSuffix host '']'' then butlast (tl host) else host, port))"

definition label_char :: "char \<Rightarrow> bool" where
  "label_char c \<longleftrightarrow> (CHR ''a'' \<le> c \<and> c \<le> CHR ''z'') \<or> (CHR ''0'' \<le> c \<and> c \<le> CHR ''9'') \<or> c = CHR ''-''"

definition validDNSDomain :: "string \<Rightarrow> bool" where
  "validDNSDomain domain \<longleftrightarrow>
     (let labels = Split (CHR ''.'') domain in
      2 \<le> length labels \<and> length domain \<le> 253
      \<and> list_all (\<lambda>l. l \<noteq> [] \<and> length l \<le> 63 \<and> hd l \<noteq> CHR ''-'' \<and> last l \<noteq> CHR ''-'' \<and> list_all label_char l) labels)"

text \<open>\<open>parse\<close> is \<open>url.Parse\<close>. An error is a usage error, whatever its text.\<close>

definition coderURLFromDomain :: "golib \<Rightarrow> (string \<Rightarrow> urlParts option) \<Rightarrow> string \<Rightarrow> string option" where
  "coderURLFromDomain L parse domain =
     (if domain = [] \<or> TrimSpace L domain \<noteq> domain then None
      else if Contains domain ''://'' then None
      else case parse (''https://'' @ domain) of
        None \<Rightarrow> None
      | Some u \<Rightarrow>
          if up_User u \<or> up_Path u \<noteq> [] \<or> up_RawQuery u \<noteq> [] \<or> up_Fragment u \<noteq> [] \<or> up_Host u = [] then None
          else
          let host = TrimSuffix (ToLower L (fst (splitHostPort (up_Host u)))) ''.''; port = snd (splitHostPort (up_Host u)) in
          if \<not> validDNSDomain host then None
          else if port \<noteq> [] \<and> (case ParseInt port of None \<Rightarrow> True | Some n \<Rightarrow> n < 1 \<or> 65535 < n) then None
          else Some (''https://'' @ host @ (if port = [] then [] else CHR '':'' # port)))"

section \<open>Files and directories\<close>

type_synonym fileMode = "12 word"

datatype pathNode = PathDir fileMode | PathFile bytes fileMode
datatype pathError = PathNotExist | PathExist | PathIO

datatype initLine =
    InitUsage | InitBadDomain | InitNoStateDir | InitFailed string
  | InitCreated string string | InitKept string string bool | InitPrompt string string | InitOverwrote string string
  | InitStepFailed string | InitNotConfirmed string
  | InitWarning string | InitSummary string string "string option" string string

text \<open>\<open>iw_tick\<close> counts the system calls on files and directories outside the store.\<close>

record initRun =
  iw_cli :: cliRun
  iw_paths :: "string \<rightharpoonup> pathNode"
  iw_tick :: nat
  iw_lines :: "initLine list"

text \<open>\<open>ie_short\<close> is the part of the data that a failing write leaves in the file; \<open>ie_rand\<close> the random number in a temporary
  name; \<open>ie_GenerateKey\<close>, \<open>ie_MarshalPrivateKey\<close> and \<open>ie_EncodeToMemory\<close> make a host key; \<open>ie_random\<close> are the bytes of the random source.\<close>

record initEnv =
  ie_cli :: cliEnv
  ie_url :: "string \<Rightarrow> urlParts option"
  ie_fault :: "nat \<Rightarrow> bool"
  ie_short :: "nat \<Rightarrow> nat"
  ie_rand :: "nat \<Rightarrow> uint32"
  ie_umask :: fileMode
  ie_GenerateKey :: "bytes option"
  ie_MarshalPrivateKey :: "bytes \<Rightarrow> string \<Rightarrow> bytes option"
  ie_EncodeToMemory :: "bytes \<Rightarrow> bytes"
  ie_random :: "nat \<Rightarrow> bytes option"
  ie_fingerprint :: "bytes \<Rightarrow> string option"

type_synonym 'a pathm = "(initRun, pathError, 'a) sr"
type_synonym 'a initm = "(initRun, int, 'a) sr"

definition set_paths :: "((string \<rightharpoonup> pathNode) \<Rightarrow> (string \<rightharpoonup> pathNode)) \<Rightarrow> unit pathm" where
  "set_paths f = (\<lambda>s. (Inr (), s\<lparr>iw_paths := f (iw_paths s)\<rparr>))"

definition path_call :: "initEnv \<Rightarrow> unit pathm" where
  "path_call E = (\<lambda>s. (if ie_fault E (iw_tick s) then Inl PathIO else Inr (), s\<lparr>iw_tick := Suc (iw_tick s)\<rparr>))"

definition path_Stat :: "initEnv \<Rightarrow> string \<Rightarrow> pathNode pathm" where
  "path_Stat E p =
     bnd (path_call E) (\<lambda>_.
     bnd (gets (\<lambda>s. iw_paths s p)) (\<lambda>n. case n of None \<Rightarrow> raise PathNotExist | Some n \<Rightarrow> ret n))"

definition with_mode :: "fileMode \<Rightarrow> pathNode \<Rightarrow> pathNode" where
  "with_mode m n = (case n of PathDir _ \<Rightarrow> PathDir m | PathFile b _ \<Rightarrow> PathFile b m)"

definition path_Chmod :: "initEnv \<Rightarrow> string \<Rightarrow> fileMode \<Rightarrow> unit pathm" where
  "path_Chmod E p m =
     bnd (path_Stat E p) (\<lambda>n. set_paths (\<lambda>f. f(p \<mapsto> with_mode m n)))"

definition path_Mkdir :: "initEnv \<Rightarrow> string \<Rightarrow> fileMode \<Rightarrow> unit pathm" where
  "path_Mkdir E p perm =
     bnd (path_call E) (\<lambda>_.
     bnd (gets (\<lambda>s. iw_paths s p)) (\<lambda>n.
     bnd (guard (n = None) PathExist) (\<lambda>_.
     set_paths (\<lambda>f. f(p \<mapsto> PathDir (perm AND NOT (ie_umask E)))))))"

text \<open>A path and its parents, the longest first; the root directory, which always exists, is left out.\<close>

definition ancestors :: "string \<Rightarrow> string list" where
  "ancestors p = (let parts = Split (CHR ''/'') p in
     filter (\<lambda>q. q \<noteq> []) (map (\<lambda>k. Join ''/'' (take k parts)) (rev [1..<Suc (length parts)])))"

fun mkdir_chain :: "initEnv \<Rightarrow> fileMode \<Rightarrow> string list \<Rightarrow> unit pathm" where
  "mkdir_chain E perm [] = ret ()"
| "mkdir_chain E perm (p # up) =
     bnd (attempt (path_Stat E p)) (\<lambda>r.
     case r of
       Inr (PathDir _) \<Rightarrow> ret ()
     | Inr (PathFile _ _) \<Rightarrow> raise PathIO
     | Inl _ \<Rightarrow>
         bnd (mkdir_chain E perm up) (\<lambda>_.
         bnd (attempt (path_Mkdir E p perm)) (\<lambda>r.
         case r of
           Inr _ \<Rightarrow> ret ()
         | Inl e \<Rightarrow>
             bnd (attempt (path_Stat E p)) (\<lambda>r.
             case r of Inr (PathDir _) \<Rightarrow> ret () | _ \<Rightarrow> raise e))))"

definition path_MkdirAll :: "initEnv \<Rightarrow> string \<Rightarrow> fileMode \<Rightarrow> unit pathm" where
  "path_MkdirAll E p perm = mkdir_chain E perm (ancestors p)"

definition ensureDir :: "initEnv \<Rightarrow> string \<Rightarrow> fileMode \<Rightarrow> unit pathm" where
  "ensureDir E p perm =
     bnd (attempt (path_Stat E p)) (\<lambda>statErr.
     bnd (path_MkdirAll E p perm) (\<lambda>_.
     if statErr = Inl PathNotExist then path_Chmod E p perm else ret ()))"

section \<open>Writing a secret\<close>

definition filepath_Dir :: "string \<Rightarrow> string" where
  "filepath_Dir p = filepath_Clean (rev (dropWhile (\<lambda>c. c \<noteq> CHR ''/'') (rev p)))"

definition filepath_Base :: "string \<Rightarrow> string" where
  "filepath_Base p =
     (if p = [] then ''.''
      else let b = rev (takeWhile (\<lambda>c. c \<noteq> CHR ''/'') (dropWhile (\<lambda>c. c = CHR ''/'') (rev p))) in if b = [] then ''/'' else b)"

text \<open>\<open>os.CreateTemp\<close> opens with \<open>O_EXCL\<close>: it fails if the name it chose last exists, and it needs the directory.\<close>

definition temp_path :: "string \<Rightarrow> string \<Rightarrow> uint32 \<Rightarrow> string" where
  "temp_path dir base rand = (if HasSuffix dir ''/'' then dir else dir @ ''/'') @ ''.tmp-'' @ base @ ''.'' @ show_nat (unat rand)"

definition path_CreateTemp :: "initEnv \<Rightarrow> string \<Rightarrow> string \<Rightarrow> string pathm" where
  "path_CreateTemp E dir base =
     bnd (path_call E) (\<lambda>_.
     bnd (gets (\<lambda>s. (iw_paths s, temp_path dir base (ie_rand E (iw_tick s))))) (\<lambda>(f, tmp).
     bnd (guard (case f dir of Some (PathDir _) \<Rightarrow> True | _ \<Rightarrow> False) PathNotExist) (\<lambda>_.
     bnd (guard (f tmp = None) PathExist) (\<lambda>_.
     bnd (set_paths (\<lambda>f. f(tmp \<mapsto> PathFile [] (0x180 AND NOT (ie_umask E))))) (\<lambda>_. ret tmp)))))"

definition path_Write :: "initEnv \<Rightarrow> string \<Rightarrow> bytes \<Rightarrow> unit pathm" where
  "path_Write E p data =
     bnd (gets (\<lambda>s. (iw_tick s, iw_paths s p))) (\<lambda>(k, n).
     let keep = (\<lambda>b. PathFile b (case n of Some (PathFile _ m) \<Rightarrow> m | _ \<Rightarrow> 0)) in
     bnd (attempt (path_call E)) (\<lambda>r.
     case r of
       Inr _ \<Rightarrow> set_paths (\<lambda>f. f(p \<mapsto> keep data))
     | Inl e \<Rightarrow> bnd (set_paths (\<lambda>f. f(p \<mapsto> keep (take (ie_short E k) data)))) (\<lambda>_. raise e)))"

definition path_Rename :: "initEnv \<Rightarrow> string \<Rightarrow> string \<Rightarrow> unit pathm" where
  "path_Rename E old new =
     bnd (path_call E) (\<lambda>_.
     bnd (gets iw_paths) (\<lambda>f.
     case f old of
       None \<Rightarrow> raise PathNotExist
     | Some n \<Rightarrow>
         (case f new of
            Some (PathDir _) \<Rightarrow> raise PathIO
          | _ \<Rightarrow> set_paths (\<lambda>f. (f(old := None))(new \<mapsto> n)))))"

definition path_Remove :: "initEnv \<Rightarrow> string \<Rightarrow> unit pathm" where
  "path_Remove E p = bnd (path_call E) (\<lambda>_. set_paths (\<lambda>f. f(p := None)))"

text \<open>Chmod, write, sync, close and rename of the temporary file.\<close>

definition secret_steps :: "initEnv \<Rightarrow> string \<Rightarrow> string \<Rightarrow> bytes \<Rightarrow> unit pathm" where
  "secret_steps E tmp p data =
     bnd (path_Chmod E tmp 0x180) (\<lambda>_.
     bnd (path_Write E tmp data) (\<lambda>_.
     bnd (path_call E) (\<lambda>_.
     bnd (path_call E) (\<lambda>_.
     path_Rename E tmp p))))"

text \<open>The test that the file is absent, then the write, then open and sync of the directory.\<close>

definition absent_check :: "initEnv \<Rightarrow> string \<Rightarrow> bool \<Rightarrow> unit pathm" where
  "absent_check E p overwrite =
     (if overwrite then ret ()
      else bnd (attempt (path_Stat E p)) (\<lambda>r.
           case r of Inr _ \<Rightarrow> raise PathExist | Inl e \<Rightarrow> guard (e = PathNotExist) e))"

definition writeSecretFile :: "initEnv \<Rightarrow> string \<Rightarrow> bytes \<Rightarrow> bool \<Rightarrow> unit pathm" where
  "writeSecretFile E p data overwrite =
     bnd (absent_check E p overwrite) (\<lambda>_.
     bnd (path_CreateTemp E (filepath_Dir p) (filepath_Base p)) (\<lambda>tmp.
     bnd (attempt (secret_steps E tmp p data)) (\<lambda>r.
     case r of
       Inl e \<Rightarrow> bnd (attempt (path_Remove E tmp)) (\<lambda>_. raise e)
     | Inr _ \<Rightarrow> bnd (path_call E) (\<lambda>_. path_call E))))"

section \<open>One artifact\<close>

definition init_say :: "initLine \<Rightarrow> unit initm" where
  "init_say l = (\<lambda>s. (Inr (), s\<lparr>iw_lines := iw_lines s @ [l]\<rparr>))"

definition init_exit :: "int \<Rightarrow> initLine \<Rightarrow> 'a initm" where
  "init_exit code l = bnd (init_say l) (\<lambda>_. raise code)"

text \<open>An operation on files whose error the command inspects, and one of the shared part of the command line.\<close>

definition on_paths :: "'a pathm \<Rightarrow> (pathError + 'a) initm" where
  "on_paths m = (\<lambda>s. case m s of (r, t) \<Rightarrow> (Inr r, t))"

definition on_cli :: "'a cli \<Rightarrow> 'a initm" where
  "on_cli m = (\<lambda>s. case m (iw_cli s) of (r, t) \<Rightarrow> (r, s\<lparr>iw_cli := t\<rparr>))"

definition write_artifact :: "initEnv \<Rightarrow> string \<Rightarrow> string \<Rightarrow> bool \<Rightarrow> bytes option \<Rightarrow> bool initm" where
  "write_artifact E p what overwrite gen =
     (case gen of
        None \<Rightarrow> bnd (init_say (InitStepFailed what)) (\<lambda>_. ret False)
      | Some data \<Rightarrow>
          bnd (on_paths (writeSecretFile E p data overwrite)) (\<lambda>r.
          case r of
            Inl _ \<Rightarrow> bnd (init_say (InitStepFailed what)) (\<lambda>_. ret False)
          | Inr _ \<Rightarrow> bnd (init_say (if overwrite then InitOverwrote what p else InitCreated what p)) (\<lambda>_. ret True)))"

definition initStep :: "initEnv \<Rightarrow> bool \<Rightarrow> string \<Rightarrow> string \<Rightarrow> bool \<Rightarrow> bytes option \<Rightarrow> bool initm" where
  "initStep E force p what secret gen =
     bnd (on_paths (path_Stat E p)) (\<lambda>statErr.
     case statErr of
       Inl PathNotExist \<Rightarrow> write_artifact E p what False gen
     | Inl _ \<Rightarrow> bnd (init_say (InitStepFailed what)) (\<lambda>_. ret False)
     | Inr _ \<Rightarrow>
         if \<not> force then
           (if secret then
              bnd (on_paths (path_Chmod E p 0x180)) (\<lambda>r.
              case r of
                Inl _ \<Rightarrow> bnd (init_say (InitStepFailed what)) (\<lambda>_. ret False)
              | Inr _ \<Rightarrow> bnd (init_say (InitKept what p True)) (\<lambda>_. ret True))
            else bnd (init_say (InitKept what p False)) (\<lambda>_. ret True))
         else
         bnd (init_say (InitPrompt what p)) (\<lambda>_.
         bnd (on_cli readLine_cli) (\<lambda>answer.
         if (case answer of None \<Rightarrow> True | Some a \<Rightarrow> TrimSpace (ca_lib (ie_cli E)) a \<noteq> ''overwrite'')
         then bnd (init_say (InitNotConfirmed what)) (\<lambda>_. ret False)
         else write_artifact E p what True gen)))"

section \<open>What is generated\<close>

definition generateHostKey :: "initEnv \<Rightarrow> bytes option" where
  "generateHostKey E = (case ie_GenerateKey E of
     None \<Rightarrow> None
   | Some priv \<Rightarrow> map_option (ie_EncodeToMemory E) (ie_MarshalPrivateKey E priv ''coder-ssh-gateway host key''))"

text \<open>\<open>rand.Read\<close> of 32 bytes.\<close>

definition generateEncryptionKey :: "initEnv \<Rightarrow> bytes option" where
  "generateEncryptionKey E = ie_random E 32"

definition starter_lines :: "string \<Rightarrow> string list" where
  "starter_lines coderURL =
    [''# coder-ssh-gateway configuration.'',
     ''# Written by 'coder-ssh-gateway init'. Edit, then run 'doctor'.'',
     ''version: 1'',
     [],
     ''listen:'',
     ''  address: \":2222\"              # outer SSH listen address (production typically \":22\")'',
     ''  # handshake_timeout: 30s'',
     ''  # renewal_auth_timeout: 5m'',
     ''  # proxy_protocol: false       # enable only behind a PROXY-v1-speaking load balancer'',
     [],
     ''ssh:'',
     ''  host_keys:'',
     ''    - secrets/ssh_host_ed25519_key # BACK UP'',
     [],
     ''state:'',
     ''  audit_retention_days: 90'',
     [],
     ''encryption:'',
     ''  provider: file'',
     ''  active_key_id: v1'',
     ''  keys:'',
     ''    v1: secrets/credential-key-v1 # BACK UP: losing this orphans all stored tokens'',
     [],
     ''deployment:'',
     ''  id: primary'',
     ''  coder_url: '' @ coderURL,
     ''  coder_binary: /usr/local/bin/coder'',
     ''  coder_global_config: coder-config'',
     ''  working_directory: run'',
     ''  autostart: true'',
     ''  wait: auto                    # yes|no|auto'',
     ''  # tls:'',
     ''  #   ca_file: /path/to/ca.pem  # custom CA for the Coder deployment'']"

definition starterConfig :: "string \<Rightarrow> string" where
  "starterConfig coderURL = concat (map (\<lambda>l. l @ [CHR 0x0A]) (starter_lines coderURL))"

section \<open>The command\<close>

definition file_bytes :: "(string \<rightharpoonup> pathNode) \<Rightarrow> string \<Rightarrow> bytes option" where
  "file_bytes f p = (case f p of Some (PathFile b _) \<Rightarrow> Some b | _ \<Rightarrow> None)"

definition init_state_dir :: "initEnv \<Rightarrow> string initm" where
  "init_state_dir E = gets (\<lambda>s. let C = ie_cli E in
     if gl_stateDir (ca_globals C) \<noteq> [] then gl_stateDir (ca_globals C)
     else case loadConfig (C\<lparr>ca_readFile := file_bytes (iw_paths s)\<rparr>) of None \<Rightarrow> [] | Some cfg \<Rightarrow> sd_Dir (cfg_State cfg))"

definition need_dir :: "initEnv \<Rightarrow> string \<Rightarrow> string \<Rightarrow> unit initm" where
  "need_dir E what p = bnd (on_paths (ensureDir E p 0x1C0)) (\<lambda>r.
     case r of Inl _ \<Rightarrow> init_exit exitError (InitFailed what) | Inr _ \<Rightarrow> ret ())"

text \<open>The three artifacts; a failed one does not stop the others.\<close>

definition init_artifacts :: "initEnv \<Rightarrow> bool \<Rightarrow> string \<Rightarrow> string \<Rightarrow> bool initm" where
  "init_artifacts E force coderURL dir =
     bnd (initStep E force (DefaultHostKeyPath dir) ''SSH host key'' True (generateHostKey E)) (\<lambda>a.
     bnd (initStep E force (DefaultEncryptionKeyPath dir) ''credential encryption key'' True (generateEncryptionKey E)) (\<lambda>b.
     bnd (initStep E force (DefaultConfigPath dir) ''starter config'' False (Some (starterConfig coderURL))) (\<lambda>c.
     ret (c \<and> b \<and> a))))"

definition path_ReadFile :: "initEnv \<Rightarrow> string \<Rightarrow> bytes option initm" where
  "path_ReadFile E p =
     bnd (on_paths (path_call E)) (\<lambda>r.
     bnd (gets (\<lambda>s. file_bytes (iw_paths s) p)) (\<lambda>raw. ret (if isl r then None else raw)))"

text \<open>\<open>config.Parse\<close> of the file just written.\<close>

definition init_parse :: "initEnv \<Rightarrow> string \<Rightarrow> Config option initm" where
  "init_parse E p =
     bnd (path_ReadFile E p) (\<lambda>raw. ret (Parse (ca_yaml (ie_cli E)) (ca_configDir (ie_cli E) p) raw))"

definition seed_store :: "initEnv \<Rightarrow> string \<Rightarrow> Config option initm" where
  "seed_store E dir =
     (let C = ie_cli E in
      bnd (on_cli (on_store (store_Open (ca_env C) dir True))) (\<lambda>opened.
      if isl opened then init_exit exitError (InitFailed ''store layout'')
      else
      bnd (init_parse E (DefaultConfigPath dir)) (\<lambda>parsed.
      let cfg = map_option (ApplyStateDir (gl_stateDir (ca_globals C))) parsed in
      bnd (case cfg of
             None \<Rightarrow> ret True
           | Some cfg \<Rightarrow> (case DeploymentFromConfig C cfg of
               None \<Rightarrow> ret True
             | Some dep \<Rightarrow> bnd (on_cli (on_store (EnsureDeployment (ca_env C) dep))) (\<lambda>r. ret (isl r)))) (\<lambda>cfgErr.
      bnd (on_cli (on_store (store_Close (ca_env C)))) (\<lambda>closed.
      if isl closed then init_exit exitError (InitFailed ''closing store'')
      else if cfgErr then init_exit exitError (InitFailed ''seeding deployment'')
      else ret cfg)))))"

fun runtime_dirs :: "initEnv \<Rightarrow> string list \<Rightarrow> unit initm" where
  "runtime_dirs E [] = ret ()"
| "runtime_dirs E (d # ds) =
     (if d = [] then runtime_dirs E ds
      else bnd (on_paths (ensureDir E d 0x1C0)) (\<lambda>r.
           bnd (if isl r then init_say (InitWarning d) else ret ()) (\<lambda>_. runtime_dirs E ds)))"

definition printInitSummary :: "initEnv \<Rightarrow> string \<Rightarrow> unit initm" where
  "printInitSummary E dir =
     bnd (path_ReadFile E (DefaultHostKeyPath dir)) (\<lambda>pem.
     init_say (InitSummary dir (DefaultHostKeyPath dir) (Option.bind pem (ie_fingerprint E)) (DefaultEncryptionKeyPath dir) (DefaultConfigPath dir)))"

definition prepare_state :: "initEnv \<Rightarrow> bool \<Rightarrow> string \<Rightarrow> string \<Rightarrow> unit initm" where
  "prepare_state E force coderURL dir =
     bnd (need_dir E ''state directory'' dir) (\<lambda>_.
     bnd (need_dir E ''secrets directory'' (filepath_Join dir ''secrets'')) (\<lambda>_.
     bnd (init_artifacts E force coderURL dir) (\<lambda>ok.
     if \<not> ok then raise exitError
     else
     bnd (seed_store E dir) (\<lambda>cfg.
     bnd (case cfg of
            None \<Rightarrow> ret ()
          | Some cfg \<Rightarrow> runtime_dirs E [dp_WorkingDirectory (cfg_Deployment cfg), dp_CoderGlobalConfig (cfg_Deployment cfg)]) (\<lambda>_.
     printInitSummary E dir)))))"

definition cmdInit :: "initEnv \<Rightarrow> string list \<Rightarrow> unit initm" where
  "cmdInit E args =
     (case flag_Parse [(''force'', True)] [] args of
        Some (vals, [domain]) \<Rightarrow>
          (case coderURLFromDomain (ca_lib (ie_cli E)) (ie_url E) domain of
             None \<Rightarrow> init_exit exitUsage InitBadDomain
           | Some coderURL \<Rightarrow>
               bnd (init_state_dir E) (\<lambda>dir.
               if dir = [] then init_exit exitUsage InitNoStateDir
               else prepare_state E (flag_Bool vals ''force'') coderURL dir))
      | _ \<Rightarrow> init_exit exitUsage InitUsage)"

definition run_init :: "unit initm \<Rightarrow> initRun \<Rightarrow> int \<times> initRun" where
  "run_init m s = (case m s of (Inl code, t) \<Rightarrow> (code, t) | (Inr _, t) \<Rightarrow> (exitOK, t))"

end
