(* ===== verification/Doctor.thy ===== *)
theory Doctor
  imports Service Init
begin

text \<open>
  The diagnosis command (\<open>internal/app/doctor.go\<close>). A check emits lines of a name and a status; the exit code counts the failures.
  What a check asks of the machine and of the network is a parameter; the store, the key provider, the cipher, the host keys,
  the configuration and the control-plane client are those of the other theories. The text of a line is not modelled. An error
  of the computation is a panic.
\<close>

section \<open>The report\<close>

definition statusPass :: string where "statusPass = ''PASS''"
definition statusWarn :: string where "statusWarn = ''WARN''"
definition statusFail :: string where "statusFail = ''FAIL''"
definition statusInfo :: string where "statusInfo = ''INFO''"

record doctorReport =
  dr_store :: store
  dr_lines :: "(string \<times> string) list"
  dr_failures :: int

text \<open>The outcome of reading a file that may be missing, and of the probe of a workspace.\<close>

datatype readOutcome = ReadMissing | ReadFailed | ReadBytes bytes
datatype probeOutcome = ProbeSetup | ProbeStart | ProbeOutput | ProbeEnded | ProbeSilent

text \<open>\<open>de_dial\<close>: a TLS handshake with this name and port succeeds; \<open>de_buildinfo\<close>: status and body of the reply of the control plane;
  \<open>de_exec\<close>: the output of the version command of this binary in this directory; \<open>de_rlimit\<close>: the soft limit of open files.\<close>

record doctorEnv =
  de_cli :: cliEnv
  de_getenv :: "string \<Rightarrow> string option"
  de_probes :: probes
  de_system :: system
  de_readVersion :: "string \<Rightarrow> readOutcome"
  de_parseSigner :: "bytes \<Rightarrow> string option"
  de_nonce :: "(nat \<Rightarrow> char) option"
  de_exec :: "string \<Rightarrow> string \<Rightarrow> bytes option"
  de_rlimit :: "int option"
  de_dial :: "string \<Rightarrow> string \<Rightarrow> Options \<Rightarrow> bool"
  de_buildinfo :: "Options \<Rightarrow> (int \<times> bytes) option"
  de_jsonVersion :: "bytes \<Rightarrow> string option"
  de_probe :: "string \<Rightarrow> string list \<Rightarrow> string list \<Rightarrow> string \<Rightarrow> int \<Rightarrow> probeOutcome"

type_synonym 'a dm = "(doctorReport, unit, 'a) sr"

abbreviation de_lib :: "doctorEnv \<Rightarrow> golib" where "de_lib D \<equiv> ca_lib (de_cli D)"

definition report_emit :: "string \<Rightarrow> string \<Rightarrow> unit dm" where
  "report_emit name status = (\<lambda>r. (Inr (), r\<lparr>dr_lines := dr_lines r @ [(name, status)],
     dr_failures := dr_failures r + (if status = statusFail then 1 else 0)\<rparr>))"

definition doctor_store :: "'a stm \<Rightarrow> (serror + 'a) dm" where
  "doctor_store m = (\<lambda>r. case m (dr_store r) of (x, t) \<Rightarrow> (Inr x, r\<lparr>dr_store := t\<rparr>))"

section \<open>Local checks\<close>

definition checkSpecialUsers :: "Config \<Rightarrow> unit dm" where
  "checkSpecialUsers cfg = report_emit ''special-users'' statusInfo"

definition checkStateDir :: "doctorEnv \<Rightarrow> Config \<Rightarrow> unit dm" where
  "checkStateDir D cfg =
     (let name = ''state-dir''; dir = sd_Dir (cfg_State cfg); E = ca_env (de_cli D) in
      if dir = [] then report_emit name statusFail
      else case probes.os_Stat (de_probes D) dir of
        None \<Rightarrow> report_emit name statusFail
      | Some fi \<Rightarrow>
          if \<not> fi_IsDir fi then report_emit name statusFail
          else case de_readVersion D (dir @ ''/VERSION'') of
            ReadMissing \<Rightarrow> report_emit name statusWarn
          | ReadFailed \<Rightarrow> report_emit name statusFail
          | ReadBytes ver \<Rightarrow>
              if TrimSpace (de_lib D) ver \<noteq> ''1'' then report_emit name statusFail
              else
              bnd (doctor_store (store_Open E dir True)) (\<lambda>r.
              if isl r then report_emit name statusFail
              else bnd (doctor_store (store_Close E)) (\<lambda>r.
                   if isl r then report_emit name statusWarn else report_emit name statusPass)))"

definition self_test_marker :: bytes where
  "self_test_marker = ''coder-ssh-gateway doctor self-test marker''"

definition checkEncryptionKey :: "doctorEnv \<Rightarrow> Config \<Rightarrow> unit dm" where
  "checkEncryptionKey D cfg =
     (let name = ''encryption-key''; A = env_aead (ca_env (de_cli D)) in
      if en_Keys (cfg_Encryption cfg) = [] \<or> en_ActiveKeyID (cfg_Encryption cfg) = [] then report_emit name statusFail
      else case fst (provider_ActiveKey (de_lib D) (ca_keys (de_cli D)) False (KeyProviderFromConfig cfg)) of
        Inl _ \<Rightarrow> report_emit name statusFail
      | Inr (keyID, key) \<Rightarrow>
          (case Seal A (de_nonce D) keyID key self_test_marker [] of
             Inl _ \<Rightarrow> report_emit name statusFail
           | Inr (nonce, ct) \<Rightarrow>
               (case Secretbox.Open A keyID key nonce ct [] of
                  Inl _ \<Rightarrow> report_emit name statusFail
                | Inr pt \<Rightarrow> if pt \<noteq> self_test_marker then report_emit name statusFail else report_emit name statusPass)))"

definition checkHostKeys :: "doctorEnv \<Rightarrow> Config \<Rightarrow> unit dm" where
  "checkHostKeys D cfg =
     (if ss_HostKeys (cfg_SSH cfg) = [] then report_emit ''host-key'' statusFail
      else case LoadHostSigners (ca_readFile (de_cli D)) (de_parseSigner D) (ss_HostKeys (cfg_SSH cfg)) of
        Inl _ \<Rightarrow> report_emit ''host-key'' statusFail
      | Inr _ \<Rightarrow> report_emit ''host-key'' statusPass)"

text \<open>The first match of \<open>v?(\d+\.\d+\.\d+)\<close>; the result is the group.\<close>

definition digit_run :: "string \<Rightarrow> (string \<times> string) option" where
  "digit_run s = (let d = takeWhile (\<lambda>c. digit_of c \<noteq> None) s in if d = [] then None else Some (d, drop (length d) s))"

definition version_at :: "string \<Rightarrow> string option" where
  "version_at s =
     (case digit_run (if HasPrefix s ''v'' then tl s else s) of
        Some (major, CHR ''.'' # s1) \<Rightarrow>
          (case digit_run s1 of
             Some (minor, CHR ''.'' # s2) \<Rightarrow> map_option (\<lambda>(patch, _). major @ ''.'' @ minor @ ''.'' @ patch) (digit_run s2)
           | _ \<Rightarrow> None)
      | _ \<Rightarrow> None)"

fun coderVersionRE :: "string \<Rightarrow> string option" where
  "coderVersionRE [] = None"
| "coderVersionRE (c # cs) = (case version_at (c # cs) of Some v \<Rightarrow> Some v | None \<Rightarrow> coderVersionRE cs)"

definition sameMajorMinor :: "string \<Rightarrow> string \<Rightarrow> bool" where
  "sameMajorMinor a b \<longleftrightarrow>
     (let cut = (\<lambda>v. case Split (CHR ''.'') v of p # q # _ \<Rightarrow> p @ ''.'' @ q | _ \<Rightarrow> v) in cut a = cut b)"

definition checkCoderBinary :: "doctorEnv \<Rightarrow> Config \<Rightarrow> string \<Rightarrow> unit dm" where
  "checkCoderBinary D cfg serverVersion =
     (let name = ''coder-binary''; bin = dp_CoderBinary (cfg_Deployment cfg); dir = dp_WorkingDirectory (cfg_Deployment cfg) in
      if bin = [] then report_emit name statusFail
      else if \<not> binary_ok (probes.os_Stat (de_probes D) bin) then report_emit name statusFail
      else
      let cmdDir = (if dir \<noteq> [] \<and> (case probes.os_Stat (de_probes D) dir of None \<Rightarrow> False | Some fi \<Rightarrow> fi_IsDir fi) then dir else []) in
      case de_exec D bin cmdDir of
        None \<Rightarrow> report_emit name statusFail
      | Some output \<Rightarrow>
          (case coderVersionRE output of
             None \<Rightarrow> report_emit name statusWarn
           | Some cliVersion \<Rightarrow>
               if serverVersion \<noteq> [] then
                 (case coderVersionRE serverVersion of
                    Some sv \<Rightarrow> if \<not> sameMajorMinor cliVersion sv then report_emit name statusWarn else report_emit name statusPass
                  | None \<Rightarrow> report_emit name statusPass)
               else report_emit name statusPass))"

definition checkWritableDirs :: "doctorEnv \<Rightarrow> Config \<Rightarrow> unit dm" where
  "checkWritableDirs D cfg =
     (if list_ex (\<lambda>d. d \<noteq> [] \<and> \<not> probes.os_CreateTemp (de_probes D) d) [sd_Dir (cfg_State cfg), os_TempDir (de_system D)]
      then report_emit ''writable-dirs'' statusFail else report_emit ''writable-dirs'' statusPass)"

definition checkProcessLimits :: "doctorEnv \<Rightarrow> unit dm" where
  "checkProcessLimits D = (case de_rlimit D of
     None \<Rightarrow> report_emit ''process-limits'' statusWarn
   | Some cur \<Rightarrow> if cur < 1024 then report_emit ''process-limits'' statusWarn else report_emit ''process-limits'' statusPass)"

section \<open>Remote checks\<close>

text \<open>The reply to the request for the build information: the version of the server, when it is known.\<close>

definition checkBuildinfo :: "doctorEnv \<Rightarrow> Options \<Rightarrow> string dm" where
  "checkBuildinfo D vopts =
     (let name = ''coder-buildinfo''; warn = bnd (report_emit name statusWarn) (\<lambda>_. ret []) in
      if \<not> NewHTTPClient (de_cli D) vopts then warn
      else case de_buildinfo D vopts of
        None \<Rightarrow> warn
      | Some (code, body) \<Rightarrow>
          if code \<noteq> 200 then warn
          else case de_jsonVersion D (take MaxBodyBytes body) of
            None \<Rightarrow> warn
          | Some v \<Rightarrow> bnd (report_emit name statusPass) (\<lambda>_. ret v))"

definition checkCoderReachability :: "doctorEnv \<Rightarrow> Config \<Rightarrow> string dm" where
  "checkCoderReachability D cfg =
     (let name = ''coder-tls''; u = dp_CoderURL (cfg_Deployment cfg); fail = bnd (report_emit name statusFail) (\<lambda>_. ret []) in
      if u = [] then fail
      else case url_Parse (de_probes D) u of
        None \<Rightarrow> fail
      | Some (scheme, host) \<Rightarrow>
          if host = [] then fail
          else case VerifierOptionsFromConfig (de_cli D) cfg of
            None \<Rightarrow> fail
          | Some vopts \<Rightarrow>
              bnd (if scheme \<noteq> ''https'' then report_emit name statusWarn
                   else case splitHostPort host of
                     (hostname, port) \<Rightarrow>
                       report_emit name (if de_dial D hostname (if port = [] then ''443'' else port) vopts then statusPass else statusWarn)) (\<lambda>_.
              checkBuildinfo D vopts))"

text \<open>The verdict of the control plane on the stored credential; the result is the token for the probe, empty when there is none.\<close>

definition judge_stored :: "doctorEnv \<Rightarrow> Config \<Rightarrow> Account \<Rightarrow> bytes \<Rightarrow> bytes dm" where
  "judge_stored D cfg acct token =
     (let name = ''account-credential''; fail = bnd (report_emit name statusFail) (\<lambda>_. ret []); warn = bnd (report_emit name statusWarn) (\<lambda>_. ret []) in
      case DeploymentFromConfig (de_cli D) cfg of
        None \<Rightarrow> fail
      | Some dep \<Rightarrow>
          (case VerifierOptionsFromConfig (de_cli D) cfg of
             None \<Rightarrow> fail
           | Some vopts \<Rightarrow>
               (case verifier_New (de_cli D) dep vopts of
                  None \<Rightarrow> fail
                | Some api \<Rightarrow>
                    (case Verify (de_lib D) api token of
                       Inr ident \<Rightarrow>
                         if (case acct_CoderUserID acct of None \<Rightarrow> False | Some u \<Rightarrow> u \<noteq> ident_ID ident) then fail
                         else bnd (report_emit name statusPass) (\<lambda>_. ret token)
                     | Inl err \<Rightarrow> if ce_Kind err = CredentialInvalid \<or> ce_Kind err = CredentialForbidden then fail else warn))))"

definition stored_credential :: "doctorEnv \<Rightarrow> Config \<Rightarrow> uuid \<Rightarrow> bytes dm" where
  "stored_credential D cfg i =
     (let name = ''account-credential''; E = ca_env (de_cli D); fail = bnd (report_emit name statusFail) (\<lambda>_. ret []) in
      bnd (doctor_store (SetKeyProvider (Some (keyprov_of (de_lib D) (ca_keys (de_cli D)) (KeyProviderFromConfig cfg))))) (\<lambda>_.
      bnd (doctor_store (GetAccount E i)) (\<lambda>acct.
      case acct of
        Inl _ \<Rightarrow> fail
      | Inr acct \<Rightarrow>
          bnd (doctor_store (LoadCredential E False i)) (\<lambda>snap.
          case snap of
            Inl _ \<Rightarrow> fail
          | Inr snap \<Rightarrow>
              if snap_State snap = CredentialStateMissing \<or> snap_Token snap = []
              then bnd (report_emit name statusWarn) (\<lambda>_. ret [])
              else judge_stored D cfg acct (snap_Token snap)))))"

text \<open>The store is closed when the check returns.\<close>

definition checkAccountCredential :: "doctorEnv \<Rightarrow> Config \<Rightarrow> string \<Rightarrow> bytes dm" where
  "checkAccountCredential D cfg accountFlag =
     (let name = ''account-credential''; E = ca_env (de_cli D); fail = bnd (report_emit name statusFail) (\<lambda>_. ret []) in
      case uuid_Parse (de_lib D) accountFlag of
        None \<Rightarrow> fail
      | Some i \<Rightarrow>
          bnd (doctor_store (store_Open E (sd_Dir (cfg_State cfg)) (ca_present (de_cli D)))) (\<lambda>r.
          if isl r then fail
          else bnd (attempt (stored_credential D cfg i)) (\<lambda>r.
               bnd (doctor_store (store_Close E)) (\<lambda>_. lift_sum r))))"

definition probe_timeout :: "Config \<Rightarrow> int" where
  "probe_timeout cfg = (let t = dp_WorkspaceConnectTimeout (cfg_Deployment cfg); most = 60 * second in if t \<le> 0 \<or> most < t then most else t)"

definition checkWorkspaceProbe :: "doctorEnv \<Rightarrow> Config \<Rightarrow> string \<Rightarrow> string \<Rightarrow> bytes \<Rightarrow> unit dm" where
  "checkWorkspaceProbe D cfg workspace accountFlag token =
     (let name = ''probe-workspace'' in
      if accountFlag = [] then report_emit name statusWarn
      else if token = [] then report_emit name statusWarn
      else case DeploymentFromConfig (de_cli D) cfg of
        None \<Rightarrow> report_emit name statusFail
      | Some dep \<Rightarrow>
          (case ParseBareTarget (de_lib D) workspace of
             Inl _ \<Rightarrow> report_emit name statusFail
           | Inr rt \<Rightarrow>
               (case BuildArgv dep rt of
                  None \<Rightarrow> report_emit name statusFail
                | Some argv \<Rightarrow>
                    if \<not> EnsureGlobalConfigDir (de_system D) (dep_GlobalConfig dep) then report_emit name statusFail
                    else case BuildEnv (os_TempDir (de_system D)) dep token of
                      None \<Rightarrow> raise ()
                    | Some environ \<Rightarrow>
                        report_emit name (if de_probe D (dep_CoderBinary dep) argv environ (dep_WorkingDir dep) (probe_timeout cfg) = ProbeOutput
                          then statusPass else statusWarn))))"

section \<open>The command\<close>

definition doctor_path :: "globals \<Rightarrow> string" where
  "doctor_path g = (if gl_configPath g = [] \<and> gl_stateDir g \<noteq> [] then DefaultConfigPath (gl_stateDir g) else gl_configPath g)"

text \<open>The overlay of the environment: on an error the configuration stays as it was, and the checks go on.\<close>

definition doctor_environment :: "doctorEnv \<Rightarrow> Config \<Rightarrow> Config dm" where
  "doctor_environment D cfg = (case ApplyEnvOverrides (de_getenv D) cfg of
     Inl _ \<Rightarrow> bnd (report_emit ''config-env'' statusFail) (\<lambda>_. ret cfg)
   | Inr (applied, cfg') \<Rightarrow> if applied = [] then ret cfg' else bnd (report_emit ''config-env'' statusInfo) (\<lambda>_. ret cfg'))"

definition doctor_validate :: "doctorEnv \<Rightarrow> Config \<Rightarrow> unit dm" where
  "doctor_validate D cfg = (if Validate (de_probes D) cfg \<noteq> [] then report_emit ''config-validate'' statusFail
     else bnd (report_emit ''config-validate'' statusPass) (\<lambda>_. checkSpecialUsers cfg))"

definition doctor_checks :: "doctorEnv \<Rightarrow> string \<Rightarrow> string \<Rightarrow> Config \<Rightarrow> unit dm" where
  "doctor_checks D accountID probeWorkspace cfg =
     bnd (checkStateDir D cfg) (\<lambda>_.
     bnd (checkEncryptionKey D cfg) (\<lambda>_.
     bnd (checkHostKeys D cfg) (\<lambda>_.
     bnd (checkCoderReachability D cfg) (\<lambda>serverVersion.
     bnd (checkCoderBinary D cfg serverVersion) (\<lambda>_.
     bnd (checkWritableDirs D cfg) (\<lambda>_.
     bnd (checkProcessLimits D) (\<lambda>_.
     bnd (if accountID = [] then ret [] else checkAccountCredential D cfg accountID) (\<lambda>token.
     if probeWorkspace = [] then ret () else checkWorkspaceProbe D cfg probeWorkspace accountID token))))))))"

definition cmdDoctor :: "doctorEnv \<Rightarrow> string list \<Rightarrow> int dm" where
  "cmdDoctor D args =
     (case flag_Parse [(''account'', False), (''probe-workspace'', False)] [] args of
        None \<Rightarrow> ret exitUsage
      | Some (vals, _) \<Rightarrow>
          let g = ca_globals (de_cli D) in
          (case parse_at (de_cli D) (doctor_path g) of
             None \<Rightarrow> bnd (report_emit ''config-parse'' statusFail) (\<lambda>_. ret exitError)
           | Some file \<Rightarrow>
               bnd (report_emit ''config-parse'' statusPass) (\<lambda>_.
               bnd (doctor_environment D (ApplyStateDir (gl_stateDir g) file)) (\<lambda>cfg.
               bnd (doctor_validate D cfg) (\<lambda>_.
               bnd (doctor_checks D (flag_String vals ''account'') (flag_String vals ''probe-workspace'') cfg) (\<lambda>_.
               bnd (gets dr_failures) (\<lambda>n.
               ret (if 0 < n then exitError else exitOK))))))))"

definition new_report :: "store \<Rightarrow> doctorReport" where
  "new_report s = \<lparr>dr_store = s, dr_lines = [], dr_failures = 0\<rparr>"

section \<open>The dispatch of commands (app.go)\<close>

text \<open>What \<open>Run\<close> makes of a command line: the exit code of a run that ends here, or the globals, the command and its arguments. The state
  directory is that of the flag, else that of the environment. The texts of usage and version are not modelled.\<close>

definition EnvStateDir :: string where "EnvStateDir = ''CSGW_STATE_DIR''"

definition no_globals :: globals where
  "no_globals = \<lparr>gl_stateDir = [], gl_configPath = [], gl_listenAddress = None, gl_metricsAddress = None, gl_healthAddress = None\<rparr>"

definition app_Run :: "string option \<Rightarrow> (string \<Rightarrow> string option) \<Rightarrow> string list \<Rightarrow> int + (globals \<times> string \<times> string list)" where
  "app_Run cwd getenv args =
     (case parseGlobalFlags cwd no_globals args of
        None \<Rightarrow> Inl exitUsage
      | Some (_, []) \<Rightarrow> Inl exitUsage
      | Some (c, cmd # rest) \<Rightarrow>
          (case (if gl_stateDir c \<noteq> [] then Some c
                 else case getenv EnvStateDir of
                   None \<Rightarrow> Some c
                 | Some envDir \<Rightarrow> if envDir = [] then Some c else map_option (\<lambda>dir. c\<lparr>gl_stateDir := dir\<rparr>) (filepath_Abs cwd envDir)) of
             None \<Rightarrow> Inl exitUsage
           | Some c \<Rightarrow>
               if cmd = ''serve'' \<or> cmd = ''init'' \<or> cmd = ''admin'' \<or> cmd = ''doctor'' then Inr (c, cmd, rest)
               else if cmd = ''version'' \<or> cmd = ''help'' \<or> cmd = ''-h'' \<or> cmd = ''--help'' then Inl exitOK
               else Inl exitUsage))"

end
