(* ===== verification/ServiceProps.thy ===== *)
theory ServiceProps
  imports Service CliProps
begin

text \<open>
  What the service guarantees: readiness is decided by the local checks alone, the control plane is probed at most once per
  period by requests that follow each other, an overload never looks like an invalid token, a failed start leaves nothing
  open, the configuration in force is the validated one with its documented precedence; and what happens to the process
  when the listener fails.
\<close>

section \<open>Health\<close>

lemma readiness_iff:
  "snd (readiness c) \<longleftrightarrow> ck_HostKeyLoaded c \<noteq> Some False \<and> ck_EncryptionOK c \<noteq> Some False \<and> ck_StoreOK c \<noteq> Some False
     \<and> ck_SupervisorOK c \<noteq> Some False \<and> ck_ListenerUp c \<noteq> Some False \<and> ck_Draining c \<noteq> Some True"
  by (simp add: readiness_def run_check_def Let_def)

lemma handleReadyz_code: "hr_Code (fst (handleReadyz c now later s)) = (if snd (readiness c) then 200 else 503)"
  by (simp add: handleReadyz_def split: prod.split)

text \<open>Requests one after the other: each has its checks, the clock when it consults the cache and when it stores a result.\<close>

fun readyz_run :: "(Checks \<times> int \<times> int) list \<Rightarrow> healthServer \<Rightarrow> healthReply list \<times> healthServer" where
  "readyz_run [] s = ([], s)"
| "readyz_run ((c, now, later) # rs) s = (case handleReadyz c now later s of (r, s) \<Rightarrow> case readyz_run rs s of (rs, s) \<Rightarrow> (r # rs, s))"

fun probe_starts :: "(Checks \<times> int \<times> int) list \<Rightarrow> healthServer \<Rightarrow> int list" where
  "probe_starts [] s = []"
| "probe_starts ((c, now, later) # rs) s =
     (if probe_cached now s = None then [now] else []) @ probe_starts rs (snd (handleReadyz c now later s))"

fun clock_forward :: "int \<Rightarrow> (Checks \<times> int \<times> int) list \<Rightarrow> bool" where
  "clock_forward t [] = True"
| "clock_forward t ((c, now, later) # rs) = (t \<le> now \<and> now \<le> later \<and> clock_forward later rs)"

lemma handleReadyz_state:
  "snd (handleReadyz c now later s) = (if probe_cached now s = None then probe_store later (probe_outcome c) s else s)"
  by (simp add: handleReadyz_def cachedCoderProbe_def split: prod.split option.split)

lemma probe_starts_spaced:
  assumes "clock_forward t rs" "hs_ProbeCacheTTL s = ttl" "0 < ttl"
  shows "sorted_wrt (\<lambda>a b. ttl \<le> b - a) (probe_starts rs s)
    \<and> (\<forall>x\<in>set (probe_starts rs s). t \<le> x \<and> (hs_probeRan s \<longrightarrow> ttl \<le> x - hs_probeAt s))"
  using assms
proof (induction rs arbitrary: t s)
  case (Cons r rs)
  obtain c now later where r: "r = (c, now, later)" by (cases r) auto
  from Cons.prems r have cl: "t \<le> now" "now \<le> later" "clock_forward later rs" by simp_all
  show ?case
  proof (cases "probe_cached now s")
    case None
    let ?s = "probe_store later (probe_outcome c) s"
    from Cons.IH [OF cl(3), of ?s] Cons.prems have IH: "sorted_wrt (\<lambda>a b. ttl \<le> b - a) (probe_starts rs ?s)"
      "\<forall>x\<in>set (probe_starts rs ?s). later \<le> x \<and> ttl \<le> x - later" by (auto simp: probe_store_def)
    have "hs_probeRan s \<Longrightarrow> ttl \<le> now - hs_probeAt s" using None Cons.prems by (auto simp: probe_cached_def split: if_splits)
    then show ?thesis using IH cl None r by (fastforce simp: handleReadyz_state)
  next
    case (Some x)
    from Cons.IH [OF cl(3), of s] Cons.prems have "sorted_wrt (\<lambda>a b. ttl \<le> b - a) (probe_starts rs s)"
      "\<forall>x\<in>set (probe_starts rs s). later \<le> x \<and> (hs_probeRan s \<longrightarrow> ttl \<le> x - hs_probeAt s)" by auto
    then show ?thesis using cl Some r by (auto simp: handleReadyz_state)
  qed
qed simp

text \<open>C24. Readiness is a local verdict: the endpoint answers 200 exactly if every configured check passes, the listener is up and
  the server is not draining, and 503 otherwise; the control plane has no part in it. Requests that follow each other start
  the probe of the control plane at most once in any period of the cache, however often the endpoint is polled.\<close>

theorem readyz_exact:
  assumes "clock_forward t rs"
  shows "hr_Code (fst (handleReadyz c now later s)) = (if ck_HostKeyLoaded c \<noteq> Some False \<and> ck_EncryptionOK c \<noteq> Some False \<and> ck_StoreOK c \<noteq> Some False
       \<and> ck_SupervisorOK c \<noteq> Some False \<and> ck_ListenerUp c \<noteq> Some False \<and> ck_Draining c \<noteq> Some True then 200 else 503)
   \<and> sorted_wrt (\<lambda>a b. hs_ProbeCacheTTL (health_New ttl timeout) \<le> b - a) (probe_starts rs (health_New ttl timeout))"
  using probe_starts_spaced [OF assms, of "health_New ttl timeout"] unfolding handleReadyz_code readiness_iff
  by (simp add: health_New_def second_def)

definition demo_checks :: Checks where
  "demo_checks = \<lparr>ck_HostKeyLoaded = Some True, ck_EncryptionOK = Some True, ck_StoreOK = Some True, ck_ListenerUp = Some True,
     ck_SupervisorOK = Some True, ck_Draining = Some False, ck_CoderProbe = Some False\<rparr>"

theorem readyz_exact_witness:
  "hr_Code (fst (handleReadyz demo_checks 5 6 (health_New 10 0))) = 200
   \<and> sorted_wrt (\<lambda>a b. (10::int) \<le> b - a) (probe_starts [(demo_checks, 5, 6), (demo_checks, 7, 8), (demo_checks, 20, 21)] (health_New 10 0))"
  using readyz_exact [of 0 "[(demo_checks, 5, 6), (demo_checks, 7, 8), (demo_checks, 20, 21)]" demo_checks 5 6 "health_New 10 0" 10 0]
  by (simp add: demo_checks_def health_New_def)

text \<open>Requests that overlap consult the cache before either has stored its result, so all of them probe.\<close>

lemma overlapping_probes: "\<not> hs_probeRan s \<Longrightarrow> probe_cached now s = None \<and> probe_cached now' s = None"
  by (simp add: probe_cached_def)

section \<open>Overload\<close>

text \<open>C10. An overload is never taken for an invalid token: when no slot of the limit on control-plane requests is free, the request is
  not made, the counters stay as they are, and the answer is a retryable failure that no caller treats as a reason to renew,
  to mark the credential or to reject it for good. Otherwise the answer is that of the request, and the slot it held is given back,
  whatever other handlers did to the counters in between.\<close>

theorem overload_fails_soft:
  assumes inv: "sem_inv limit (coderAPI (in_counters s))" and run: "instrumented_Verify inner since others token s = (r, s')"
  shows "if nat limit \<le> sem_live (coderAPI (in_counters s))
     then r = Inl (CredErr overload) \<and> in_counters s' = in_counters s \<and> ce_Retryable overload
       \<and> \<not> kind_renewable (KindOf (CredErr overload)) \<and> KindOf (CredErr overload) \<noteq> Some CredentialInvalid
       \<and> (\<forall>inner' since' others' token'. fst (instrumented_Verify inner' since' others' token' s) = r)
     else r = inner token \<and> (\<exists>t c. AcquireCoderAPI (in_counters s) = (Some t, c) \<and> sem_owner (coderAPI (in_counters s')) t = None
       \<and> (others = [] \<longrightarrow> sem_live (coderAPI (in_counters s')) = sem_live (coderAPI (in_counters s))))"
proof -
  obtain q k where q: "sem_Acquire (coderAPI (in_counters s)) = (q, k)" by fastforce
  show ?thesis
  proof (cases q)
    case None
    have k: "nat limit \<le> sem_live (coderAPI (in_counters s))" "k = coderAPI (in_counters s)"
      using plain.acquire_none [OF inv] q None by auto
    then have "in_counters s\<lparr>coderAPI := k\<rparr> = in_counters s" by simp
    then show ?thesis using run q None k by (auto simp: instrumented_Verify_def AcquireCoderAPI_def overload_def kind_renewable_def)
  next
    case (Some t)
    have a: "sem_live (coderAPI (in_counters s)) < nat limit" "sem_owner k = (sem_owner (coderAPI (in_counters s)))(t \<mapsto> ())"
      "sem_live k = Suc (sem_live (coderAPI (in_counters s)))" "sem_inv limit k" using plain.acquire_some [OF inv, of t k] q Some by (auto simp: fun_eq_iff)
    have u: "sem_owner (sem_release t x) t = None" if "sem_inv limit x" for x
      using plain.release_owned [OF that, of t] plain.release_unowned [OF that, of t] by (cases "sem_owner x t") auto
    have f: "sem_inv limit (coderAPI (fold counters_step others c))" if "sem_inv limit (coderAPI c)" for c
      using that
    proof (induction others arbitrary: c)
      case (Cons p ps)
      have "sem_inv limit (coderAPI (counters_step p c))"
        using Cons.prems sem_calls_inv [of limit "coderAPI c"] by (cases p) (auto simp: Acquire_defs release_defs split: prod.splits)
      then show ?case using Cons.IH by simp
    qed simp
    have l: "sem_live (sem_release t k) = sem_live (coderAPI (in_counters s))"
      using plain.release_owned [OF a(4), of t] a(2,3) by (simp add: fun_eq_iff)
    show ?thesis using run q Some a u [OF f [of "in_counters s\<lparr>coderAPI := k\<rparr>"]] l
      by (auto simp: instrumented_Verify_def AcquireCoderAPI_def releaseCoderAPI_def Let_def)
  qed
qed

definition demo_instruments :: instruments where
  "demo_instruments = \<lparr>in_counters = NewCounters (cfg_Limits Default\<lparr>CoderAPIRequests := 0\<rparr>), in_metrics = metrics_New\<rparr>"

theorem overload_fails_soft_witness:
  "\<exists>s'. instrumented_Verify (\<lambda>_. Inl (OtherErr [])) 1 [] ''token'' demo_instruments = (Inl (CredErr overload), s')"
proof -
  obtain r s' where r: "instrumented_Verify (\<lambda>_. Inl (OtherErr [])) 1 [] ''token'' demo_instruments = (r, s')" by fastforce
  have i: "sem_inv 0 (coderAPI (in_counters demo_instruments))" by code_simp
  from overload_fails_soft [OF i r] r show ?thesis by (auto split: if_splits)
qed

section \<open>The running service\<close>

inductive service_reach :: "Config \<Rightarrow> service \<Rightarrow> bool" for cfg where
  start: "service_reach cfg (ServeOn_start cfg)"
| step: "service_reach cfg s \<Longrightarrow> service_step s t \<Longrightarrow> service_reach cfg t"

definition service_inv :: "service \<Rightarrow> bool" where
  "service_inv s \<longleftrightarrow> (\<not> sc_cancelled s \<longrightarrow> AuxPoller \<in> sc_aux s \<and> ss_phase (sc_server s) = NotStopped \<and> ss_listening (sc_server s))
     \<and> (ss_listening (sc_server s) \<longleftrightarrow> ss_phase (sc_server s) = NotStopped)
     \<and> (case sc_returned s of None \<Rightarrow> sc_serving s
        | Some r \<Rightarrow> \<not> sc_serving s \<and> sc_cancelled s \<and> sc_aux s = {} \<and> ss_returned (sc_server s) = Some r)
     \<and> (ss_returned (sc_server s) = Some True \<longrightarrow> ss_handlers (sc_server s) = {})"

lemma serve_step_listening:
  assumes "serve_step s t" "ss_listening s \<longleftrightarrow> ss_phase s = NotStopped" "ss_returned s = Some True \<longrightarrow> ss_handlers s = {}"
  shows "ss_listening t \<longleftrightarrow> ss_phase t = NotStopped" "ss_phase t = NotStopped \<Longrightarrow> ss_phase s = NotStopped"
    "ss_returned s = Some r \<Longrightarrow> ss_returned t = Some r" "ss_returned t = Some True \<longrightarrow> ss_handlers t = {}"
  using assms by (auto simp: serve_step.simps closeAllConns_def)

lemma service_step_inv:
  assumes "service_step s t" "service_inv s" shows "service_inv t"
  using assms(1)
proof cases
  case (ssh u)
  have i: "ss_listening (sc_server s) \<longleftrightarrow> ss_phase (sc_server s) = NotStopped" "ss_returned (sc_server s) = Some True \<longrightarrow> ss_handlers (sc_server s) = {}"
    using assms(2) by (auto simp: service_inv_def)
  note w = serve_step_listening [OF ssh(2) i]
  then show ?thesis using ssh assms(2) w(3) by (auto simp: service_inv_def split: option.splits)
qed (use assms(2) in \<open>auto simp: service_inv_def split: option.splits\<close>)

lemma service_reach_inv: "service_reach cfg s \<Longrightarrow> service_inv s"
proof (induction rule: service_reach.induct)
  case start
  then show ?case by (simp add: service_inv_def ServeOn_start_def serve_init_def)
qed (rule service_step_inv)

text \<open>The steps of a service whose context is not cancelled.\<close>

inductive uncancelled :: "service \<Rightarrow> service \<Rightarrow> bool" where
  refl: "\<not> sc_cancelled s \<Longrightarrow> uncancelled s s"
| step: "uncancelled s t \<Longrightarrow> service_step t u \<Longrightarrow> \<not> sc_cancelled u \<Longrightarrow> uncancelled s u"

lemma uncancelled_inv:
  "uncancelled s t \<Longrightarrow> service_inv s \<Longrightarrow> ss_returned (sc_server s) = Some False \<Longrightarrow>
     \<not> sc_cancelled t \<and> service_inv t \<and> ss_returned (sc_server t) = Some False"
proof (induction rule: uncancelled.induct)
  case (step s t u)
  then have t: "service_inv t" "ss_returned (sc_server t) = Some False" by auto
  have "ss_returned (sc_server u) = Some False" using step.hyps(2) t(2)
    by cases (auto simp: serve_step.simps closeAllConns_def)
  then show ?case using step.hyps(3) service_step_inv [OF step.hyps(2) t(1)] by simp
qed simp



section \<open>Starting\<close>

text \<open>A computation of the assembly keeps a property of the store.\<close>

lemma res_store_keeps [keeps_intros]: "keeps P m \<Longrightarrow> keeps (\<lambda>s. P (rs_store s)) (res_store m)"
  by (fastforce simp: keeps_def res_store_def split: prod.split sum.split)

lemma res_store_triple:
  "triple P m Q R \<Longrightarrow> triple (\<lambda>s. P (rs_store s) \<and> rs_audit s = A) (res_store m) (\<lambda>a s. Q a (rs_store s) \<and> rs_audit s = A)
     (\<lambda>e s. (\<exists>x. e = BuildStore x \<and> R x (rs_store s)) \<and> rs_audit s = A)"
  unfolding triple_def res_store_def by (fastforce split: prod.splits sum.splits)

lemma or_close_triple:
  assumes "triple P m (\<lambda>a. Q a) (\<lambda>e s. S s)" "\<And>a. triple (Q a) (f a) Q' R" "triple S (res_store (store_Close E)) (\<lambda>_. U) (\<lambda>_. U)" "\<And>e s. U s \<Longrightarrow> R e s"
  shows "triple P (or_close E m f) Q' R"
  unfolding or_close_def
  by (rule triple_bnd [OF triple_attempt [where Q = "\<lambda>r s. case r of Inl e \<Rightarrow> S s | Inr a \<Rightarrow> Q a s"]])
    (use assms in \<open>auto intro!: triple_bnd [OF triple_attempt [where Q = "\<lambda>_. U"]] triple_pure split: sum.split\<close>)

lemma load_signers_length: "load_signers rf ps paths acc = Inr signers \<Longrightarrow> length signers = length acc + length paths"
  by (induction paths arbitrary: acc) (auto split: option.splits)

lemma LoadHostSigners_some: "LoadHostSigners rf ps paths = Inr signers \<Longrightarrow> signers \<noteq> []"
  by (auto simp: LoadHostSigners_def dest: load_signers_length split: if_splits)

lemma server_New_total: "signers \<noteq> [] \<Longrightarrow> \<exists>srv. server_New v (server_config cfg dep signers) = Inr srv \<and> cfg_Auth srv = auth_config cfg (dep_ID dep)"
  by (simp add: server_New_def server_config_def Let_def)

text \<open>The store of a started service: open, with its provider; only the deployment records may differ.\<close>

definition started :: "image \<Rightarrow> cliEnv \<Rightarrow> Config \<Rightarrow> resources \<Rightarrow> bool" where
  "started I C cfg s \<longleftrightarrow> (\<exists>D. disk (I\<lparr>im_closed := False, im_kp := Some (command_keys C cfg), im_dep := D\<rparr>) (rs_store s))"

definition given_up :: "image \<Rightarrow> resources \<Rightarrow> bool" where
  "given_up I s \<longleftrightarrow> (\<exists>k D. disk (I\<lparr>im_closed := True, im_kp := k, im_dep := D\<rparr>) (rs_store s)) \<and> rs_audit s = None"

lemma triple_both: "(\<And>s. P s \<Longrightarrow> Q (snd (m s))) \<Longrightarrow> triple P m (\<lambda>_. Q) (\<lambda>_. Q)"
  unfolding triple_def by (metis (mono_tags, lifting) case_prod_beta old.sum.simps(5,6) sum.exhaust_sel)

lemma res_store_state: "snd (res_store m s) = s\<lparr>rs_store := snd (m (rs_store s))\<rparr>"
  by (simp add: res_store_def split: prod.split sum.split)

lemma close_given_up:
  "triple (\<lambda>s. started I C cfg s \<and> rs_audit s = None) (res_store (store_Close E)) (\<lambda>_. given_up I) (\<lambda>_. given_up I)"
proof (rule triple_both)
  fix s assume s: "started I C cfg s \<and> rs_audit s = None"
  then obtain D where d: "disk (I\<lparr>im_closed := False, im_kp := Some (command_keys C cfg), im_dep := D\<rparr>) (rs_store s)" by (auto simp: started_def)
  have "disk (I\<lparr>im_closed := True, im_kp := Some (command_keys C cfg), im_dep := D\<rparr>) (snd (store_Close E (rs_store s)))"
    using triple_snd [OF store_Close_disk d, of E] by (cases I) simp
  then show "given_up I (snd (res_store (store_Close E) s))" using s unfolding given_up_def res_store_state by auto
qed

lemma or_close_step:
  assumes m: "triple (\<lambda>s. started I C cfg s \<and> rs_audit s = None) m (\<lambda>a s. Q a s) (\<lambda>_ s. started I C cfg s \<and> rs_audit s = None)"
    and f: "\<And>a. triple (Q a) (f a) Q' (\<lambda>_. given_up I)"
  shows "triple (\<lambda>s. started I C cfg s \<and> rs_audit s = None) (or_close E m f) Q' (\<lambda>_. given_up I)"
  by (rule or_close_triple [OF m f close_given_up])

lemma or_close_pure:
  assumes "\<And>a. x = Inr a \<Longrightarrow> triple (\<lambda>s. started I C cfg s \<and> rs_audit s = None) (f a) Q' (\<lambda>_. given_up I)"
  shows "triple (\<lambda>s. started I C cfg s \<and> rs_audit s = None) (or_close E (lift_sum x) f) Q' (\<lambda>_. given_up I)"
proof (rule or_close_step [where Q = "\<lambda>a s. (started I C cfg s \<and> rs_audit s = None) \<and> x = Inr a"])
  show "triple (\<lambda>s. started I C cfg s \<and> rs_audit s = None) (lift_sum x) (\<lambda>a s. (started I C cfg s \<and> rs_audit s = None) \<and> x = Inr a)
      (\<lambda>_ s. started I C cfg s \<and> rs_audit s = None)" by (rule triple_lift_sum) auto
qed (rule triple_fact, rule assms)

lemma EnsureDeployment_started:
  "triple (\<lambda>s. started I C cfg s \<and> rs_audit s = None) (res_store (EnsureDeployment E dep)) (\<lambda>_ s. started I C cfg s \<and> rs_audit s = None)
     (\<lambda>_ s. started I C cfg s \<and> rs_audit s = None)"
proof (rule triple_both)
  fix s assume s: "started I C cfg s \<and> rs_audit s = None"
  then obtain D where d: "disk (I\<lparr>im_closed := False, im_kp := Some (command_keys C cfg), im_dep := D\<rparr>) (rs_store s)" by (auto simp: started_def)
  have "triple (disk (I\<lparr>im_closed := False, im_kp := Some (command_keys C cfg), im_dep := D\<rparr>)) (EnsureDeployment E dep)
      (\<lambda>_ t. \<exists>D. disk (I\<lparr>im_closed := False, im_kp := Some (command_keys C cfg), im_dep := D\<rparr>) t)
      (\<lambda>_ t. \<exists>D. disk (I\<lparr>im_closed := False, im_kp := Some (command_keys C cfg), im_dep := D\<rparr>) t)"
    by (rule triple_weaken [OF EnsureDeployment_disk [of "I\<lparr>im_closed := False, im_kp := Some (command_keys C cfg), im_dep := D\<rparr>"]]) auto
  from triple_snd [OF this d] s show "started I C cfg (snd (res_store (EnsureDeployment E dep) s)) \<and> rs_audit (snd (res_store (EnsureDeployment E dep) s)) = None"
    by (simp add: started_def res_store_state)
qed

text \<open>The last steps, in which the audit log is open.\<close>

lemma audit_and_server:
  assumes "signers \<noteq> []"
  shows "triple (\<lambda>s. started I C cfg s \<and> rs_audit s = None)
     (or_close E (open_audit B) (\<lambda>_. or_close E (lift_sum (case server_New v (server_config cfg dep signers) of Inl e \<Rightarrow> Inl (BuildServer e) | Inr srv \<Rightarrow> Inr srv))
        (\<lambda>srv. ret (g srv))))
     (\<lambda>b s. (\<exists>srv. b = g srv \<and> cfg_Auth srv = auth_config cfg (dep_ID dep)) \<and> started I C cfg s \<and> (\<exists>l. rs_audit s = Some l \<and> \<not> lg_closed l))
     (\<lambda>_. given_up I)"
proof (rule or_close_step [where Q = "\<lambda>_ s. started I C cfg s \<and> (\<exists>l. rs_audit s = Some l \<and> \<not> lg_closed l)"])
  show "triple (\<lambda>s. started I C cfg s \<and> rs_audit s = None) (open_audit B)
      (\<lambda>_ s. started I C cfg s \<and> (\<exists>l. rs_audit s = Some l \<and> \<not> lg_closed l)) (\<lambda>_ s. started I C cfg s \<and> rs_audit s = None)"
    by (auto simp: triple_def open_audit_def NewJSONLFileLogger_def started_def)
  obtain srv where "server_New v (server_config cfg dep signers) = Inr srv" "cfg_Auth srv = auth_config cfg (dep_ID dep)"
    using server_New_total [OF assms] by blast
  then show "triple (\<lambda>s. started I C cfg s \<and> (\<exists>l. rs_audit s = Some l \<and> \<not> lg_closed l))
      (or_close E (lift_sum (case server_New v (server_config cfg dep signers) of Inl e \<Rightarrow> Inl (BuildServer e) | Inr srv \<Rightarrow> Inr srv)) (\<lambda>srv. ret (g srv)))
      (\<lambda>b s. (\<exists>srv. b = g srv \<and> cfg_Auth srv = auth_config cfg (dep_ID dep)) \<and> started I C cfg s \<and> (\<exists>l. rs_audit s = Some l \<and> \<not> lg_closed l))
      (\<lambda>_. given_up I)" for u :: unit
    by (auto simp: triple_def or_close_def bnd_def)
qed

lemma open_started:
  assumes "im_closed I"
  shows "triple (\<lambda>s. disk I (rs_store s) \<and> rs_audit s = None) (res_store (store_Open E d p)) (\<lambda>_ s. disk (I\<lparr>im_closed := False, im_kp := None\<rparr>) (rs_store s) \<and> rs_audit s = None)
     (\<lambda>_. given_up I)"
proof (rule triple_weaken [OF res_store_triple [OF store_Open_disk [of I E d p]]])
  have "I\<lparr>im_closed := True, im_kp := im_kp I, im_dep := im_dep I\<rparr> = I" using assms by (cases I) simp
  then show "(\<exists>x. e = BuildStore x \<and> disk I (rs_store s)) \<and> rs_audit s = None \<Longrightarrow> given_up I s" for e s
    unfolding given_up_def by metis
qed auto

lemma provider_started:
  "triple (\<lambda>s. disk (I\<lparr>im_closed := False, im_kp := None\<rparr>) (rs_store s) \<and> rs_audit s = None) (res_store (SetKeyProvider (Some (command_keys C cfg))))
     (\<lambda>_ s. started I C cfg s \<and> rs_audit s = None) R"
proof (rule tripleI)
  fix s a t assume s: "disk (I\<lparr>im_closed := False, im_kp := None\<rparr>) (rs_store s) \<and> rs_audit s = None"
    and r: "res_store (SetKeyProvider (Some (command_keys C cfg))) s = (Inr a, t)"
  have t: "t = s\<lparr>rs_store := snd (SetKeyProvider (Some (command_keys C cfg)) (rs_store s))\<rparr>" using r res_store_state by (metis snd_conv)
  have "disk (I\<lparr>im_closed := False, im_kp := Some (command_keys C cfg), im_dep := im_dep I\<rparr>) (rs_store t)"
    using s unfolding t by (cases I) (auto simp: SetKeyProvider_def modify_store_def disk_def img_of_def dirs_distinct_def)
  moreover have "rs_audit t = None" using s t by simp
  ultimately show "started I C cfg t \<and> rs_audit t = None" unfolding started_def by blast
qed (simp add: res_store_def SetKeyProvider_def modify_store_def)

lemma Build_outcome:
  assumes "im_closed I"
  shows "triple (\<lambda>s. disk I (rs_store s) \<and> rs_audit s = None) (Build B cfg)
     (\<lambda>b s. (\<exists>dep. DeploymentFromConfig (be_cli B) cfg = Some dep \<and> cfg_Auth (bt_Server b) = auth_config cfg (dep_ID dep) \<and> bt_Deployment b = dep)
        \<and> started I (be_cli B) cfg s \<and> (\<exists>l. rs_audit s = Some l \<and> \<not> lg_closed l))
     (\<lambda>_. given_up I)"
proof -
  have gu: "disk I (rs_store s) \<and> rs_audit s = None \<Longrightarrow> given_up I s" for s
  proof -
    have "I\<lparr>im_closed := True, im_kp := im_kp I, im_dep := im_dep I\<rparr> = I" using assms by (cases I) simp
    then show "disk I (rs_store s) \<and> rs_audit s = None \<Longrightarrow> given_up I s" unfolding given_up_def by metis
  qed
  show ?thesis
    unfolding Build_def Let_def command_keys_def [symmetric]
    apply (rule triple_seq [OF triple_lift_sum [where Q = "\<lambda>_ s. disk I (rs_store s) \<and> rs_audit s = None" and R = "\<lambda>_ s. disk I (rs_store s) \<and> rs_audit s = None"]], assumption, assumption, rule gu, assumption)
    apply (rule triple_seq [OF triple_lift_sum [where Q = "\<lambda>x s. (disk I (rs_store s) \<and> rs_audit s = None) \<and> x \<noteq> []" and R = "\<lambda>_ s. disk I (rs_store s) \<and> rs_audit s = None"]])
    apply (auto dest: LoadHostSigners_some split: sum.splits) [1]
    apply assumption
    apply (rule gu, assumption)
    apply (rule triple_fact)
    apply (rule triple_bnd [OF open_started [OF assms]])
    apply (rule triple_bnd [OF provider_started])
    apply (rule or_close_pure)
    apply (rule or_close_step [OF EnsureDeployment_started])
    apply (rule or_close_pure)
    apply (rule or_close_pure)
    apply (rule triple_weaken [OF audit_and_server])
    apply (auto split: option.splits)
    done
qed

lemma Built_Close_state:
  "rs_store (snd (Built_Close E io s)) = snd (store_Close E (rs_store s))"
  "rs_audit (snd (Built_Close E io s)) = map_option (\<lambda>l. snd (audit_Close io l)) (rs_audit s)"
  by (simp_all add: Built_Close_def Let_def split: option.split prod.split)

lemma Built_Close_settles:
  assumes "store_wf L (rs_store s)"
  shows "settled L (rs_store (snd (Built_Close E io s)))" "rs_audit (snd (Built_Close E io s)) = Some l \<Longrightarrow> lg_closed l"
proof -
  have "store_wf L (snd (store_Close E (rs_store s)))"
    by (rule store_wf_triple [OF assms store_Close_disk]) (use assms in \<open>auto simp: store_wf_def [of L "rs_store s"] elim: store_wf_disk\<close>)
  then show "settled L (rs_store (snd (Built_Close E io s)))" by (simp add: Built_Close_state settled_def close_closed)
  show "rs_audit (snd (Built_Close E io s)) = Some l \<Longrightarrow> lg_closed l"
    by (auto simp: Built_Close_state audit_Close_def split: if_splits)
qed

lemma Build_wf:
  assumes "settled L (rs_store s)" "rs_audit s = None"
  shows "Build B cfg s = (Inl e, t) \<Longrightarrow> settled L (rs_store t) \<and> rs_audit t = None"
    "Build B cfg s = (Inr b, t) \<Longrightarrow> store_wf L (rs_store t) \<and> \<not> st_closed (rs_store t) \<and> (\<exists>l. rs_audit t = Some l \<and> \<not> lg_closed l)
       \<and> (\<exists>dep. DeploymentFromConfig (be_cli B) cfg = Some dep \<and> cfg_Auth (bt_Server b) = auth_config cfg (dep_ID dep))"
proof -
  let ?I = "img_of (rs_store s)"
  have d: "disk ?I (rs_store s)" "im_closed ?I" "wf_image L ?I" using assms(1) by (auto simp: settled_def store_wf_def disk_def img_of_def)
  note T = tripleD [OF Build_outcome [OF d(2)], of s B cfg]
  show "settled L (rs_store t) \<and> rs_audit t = None" if "Build B cfg s = (Inl e, t)"
    using T(2) [OF _ that] d assms(2) by (auto simp: given_up_def settled_def elim!: store_wf_disk) (auto simp: disk_def img_of_def)
  show "store_wf L (rs_store t) \<and> \<not> st_closed (rs_store t) \<and> (\<exists>l. rs_audit t = Some l \<and> \<not> lg_closed l)
       \<and> (\<exists>dep. DeploymentFromConfig (be_cli B) cfg = Some dep \<and> cfg_Auth (bt_Server b) = auth_config cfg (dep_ID dep))" if "Build B cfg s = (Inr b, t)"
  proof -
    from T(1) [OF _ that] d assms(2) obtain D dep l where o: "disk (?I\<lparr>im_closed := False, im_kp := Some (command_keys (be_cli B) cfg), im_dep := D\<rparr>) (rs_store t)"
      "rs_audit t = Some l" "\<not> lg_closed l" "DeploymentFromConfig (be_cli B) cfg = Some dep" "cfg_Auth (bt_Server b) = auth_config cfg (dep_ID dep)"
      by (auto simp: started_def)
    have "store_wf L (rs_store t)" by (rule store_wf_disk [OF o(1)]) (use d(3) in simp)
    moreover have "\<not> st_closed (rs_store t)" using o(1) by (auto simp: disk_def img_of_def)
    ultimately show ?thesis using o by blast
  qed
qed

section \<open>Precedence of the settings\<close>

definition nonempty :: "string option \<Rightarrow> string option" where
  "nonempty v = (if v = Some [] then None else v)"

definition first_of :: "string option list \<Rightarrow> string \<Rightarrow> string" where
  "first_of vs d = (case filter (\<lambda>v. v \<noteq> None) vs of [] \<Rightarrow> d | v # _ \<Rightarrow> the v)"

definition apply_row :: "(string \<Rightarrow> string option) \<Rightarrow> string \<times> (string \<Rightarrow> Config \<Rightarrow> Config) \<times> bool \<Rightarrow> Config \<Rightarrow> Config" where
  "apply_row env row c = (case nonempty (env (fst row)) of None \<Rightarrow> c | Some v \<Rightarrow> fst (snd row) v c)"

lemma pending_rows: "pending_overrides env rows = Inr ps \<Longrightarrow> fold (\<lambda>(_, dest, v). dest v) ps c = fold (apply_row env) rows c"
proof (induction env rows arbitrary: ps c rule: pending_overrides.induct)
  case (2 env name dest checked rows)
  then show ?case by (auto simp: apply_row_def nonempty_def split: option.splits if_splits sum.splits)
qed simp

lemma env_addresses:
  assumes "ApplyEnvOverrides getenv c = Inr (vs, c')"
  shows "li_Address (cfg_Listen c') = first_of [nonempty (getenv EnvListenAddress)] (li_Address (cfg_Listen c))"
    "ob_MetricsAddress (cfg_Observability c') = first_of [nonempty (getenv EnvMetricsAddress)] (ob_MetricsAddress (cfg_Observability c))"
    "ob_HealthAddress (cfg_Observability c') = first_of [nonempty (getenv EnvHealthAddress)] (ob_HealthAddress (cfg_Observability c))"
proof -
  obtain ps where "pending_overrides getenv overrides = Inr ps" "c' = fold (\<lambda>(_, dest, v). dest v) ps c"
    using assms by (auto simp: ApplyEnvOverrides_def split: sum.splits)
  then have c': "c' = fold (apply_row getenv) overrides c" using pending_rows by blast
  show "li_Address (cfg_Listen c') = first_of [nonempty (getenv EnvListenAddress)] (li_Address (cfg_Listen c))"
    "ob_MetricsAddress (cfg_Observability c') = first_of [nonempty (getenv EnvMetricsAddress)] (ob_MetricsAddress (cfg_Observability c))"
    "ob_HealthAddress (cfg_Observability c') = first_of [nonempty (getenv EnvHealthAddress)] (ob_HealthAddress (cfg_Observability c))"
    unfolding c' by (simp_all add: overrides_def apply_row_def first_of_def split: option.split)
qed

lemma flag_addresses:
  "li_Address (cfg_Listen (snd (applyBindAddressOverrides g c))) = first_of [gl_listenAddress g] (li_Address (cfg_Listen c))"
  "ob_MetricsAddress (cfg_Observability (snd (applyBindAddressOverrides g c))) = first_of [gl_metricsAddress g] (ob_MetricsAddress (cfg_Observability c))"
  "ob_HealthAddress (cfg_Observability (snd (applyBindAddressOverrides g c))) = first_of [gl_healthAddress g] (ob_HealthAddress (cfg_Observability c))"
  by (auto simp: applyBindAddressOverrides_def set_bind_address_def first_of_def Let_def split: option.splits)

lemma first_of_two: "first_of [a, b] d = first_of [a] (first_of [b] d)"
  by (simp add: first_of_def)

lemma serve_configuration_Inr:
  assumes "serve_configuration C getenv F args = Inr cfg"
  defines "g \<equiv> ca_globals C"
  shows "\<exists>file. parse_at C (if gl_configPath g = [] then DefaultConfigPath (gl_stateDir g) else gl_configPath g) = Some file \<and> Validate F cfg = []
     \<and> li_Address (cfg_Listen cfg) = first_of [gl_listenAddress g, nonempty (getenv EnvListenAddress)] (li_Address (cfg_Listen (ApplyStateDir (gl_stateDir g) file)))
     \<and> ob_MetricsAddress (cfg_Observability cfg) = first_of [gl_metricsAddress g, nonempty (getenv EnvMetricsAddress)] (ob_MetricsAddress (cfg_Observability (ApplyStateDir (gl_stateDir g) file)))
     \<and> ob_HealthAddress (cfg_Observability cfg) = first_of [gl_healthAddress g, nonempty (getenv EnvHealthAddress)] (ob_HealthAddress (cfg_Observability (ApplyStateDir (gl_stateDir g) file)))"
proof -
  from assms(1) obtain f0 vs c where f: "parse_at C (if gl_configPath g = [] then DefaultConfigPath (gl_stateDir g) else gl_configPath g) = Some f0"
    "ApplyEnvOverrides getenv (ApplyStateDir (gl_stateDir g) f0) = Inr (vs, c)" "cfg = snd (applyBindAddressOverrides g c)" "Validate F cfg = []"
    unfolding serve_configuration_def Let_def g_def [symmetric] by (auto split: option.splits sum.splits prod.splits if_splits)
  show ?thesis using f(1,4) by (intro exI [of _ f0]) (simp add: f(3) first_of_two env_addresses [OF f(2)] flag_addresses)
qed


definition demo_build :: buildEnv where
  "demo_build = \<lparr>be_cli = demo_cli, be_parseSigner = Some, be_version = ''1'', be_suffix = [], be_today = ''2026-01-01'', be_mkdirErr = False, be_openErr = False\<rparr>"

definition demo_resources :: resources where
  "demo_resources = \<lparr>rs_store = cx_store demo_run, rs_files = [], rs_audit = None\<rparr>"


end
