(* ===== verification/DoctorProps.thy ===== *)
theory DoctorProps
  imports Doctor ServiceProps
begin

text \<open>
  What a diagnosis is worth: it never panics, it leaves the store well formed and closed, what it approves the serve command accepts
  and the health endpoint reports as ready, and without an account its exit code does not depend on the network.
\<close>

section \<open>Failures only accumulate\<close>

definition grows :: "'a dm \<Rightarrow> bool" where
  "grows m \<longleftrightarrow> (\<forall>r. dr_failures r \<le> dr_failures (snd (m r)))"

named_theorems grows_intros "computations that never take a failure back"

lemma grows_basic [grows_intros]:
  "grows (ret a)" "grows (raise e)" "grows (gets f)" "grows (lift_sum x)" "grows (report_emit n st)" "grows (doctor_store m)"
  by (auto simp: grows_def report_emit_def doctor_store_def split: prod.split)

lemma grows_bnd [grows_intros]: "grows m \<Longrightarrow> (\<And>a. grows (f a)) \<Longrightarrow> grows (bnd m f)"
  unfolding grows_def bnd_def by (auto split: prod.split sum.split) (metis order_trans snd_conv)+

lemma grows_attempt [grows_intros]: "grows m \<Longrightarrow> grows (attempt m)"
  by (simp add: grows_def)

lemma grows_cases [grows_intros]:
  "(b \<Longrightarrow> grows m) \<Longrightarrow> (\<not> b \<Longrightarrow> grows n) \<Longrightarrow> grows (if b then m else n)"
  "(x = None \<Longrightarrow> grows m) \<Longrightarrow> (\<And>a. x = Some a \<Longrightarrow> grows (f a)) \<Longrightarrow> grows (case x of None \<Rightarrow> m | Some a \<Rightarrow> f a)"
  "(\<And>e. y = Inl e \<Longrightarrow> grows (g e)) \<Longrightarrow> (\<And>a. y = Inr a \<Longrightarrow> grows (f a)) \<Longrightarrow> grows (case y of Inl e \<Rightarrow> g e | Inr a \<Rightarrow> f a)"
  "(\<And>a b. z = (a, b) \<Longrightarrow> grows (h a b)) \<Longrightarrow> grows (case z of (a, b) \<Rightarrow> h a b)"
  "grows k1 \<Longrightarrow> grows k2 \<Longrightarrow> (\<And>b. grows (k3 b)) \<Longrightarrow> grows (case v of ReadMissing \<Rightarrow> k1 | ReadFailed \<Rightarrow> k2 | ReadBytes b \<Rightarrow> k3 b)"
  by (auto split: option.split sum.split prod.split readOutcome.split)

lemma checks_grow [grows_intros]:
  "grows (checkStateDir D cfg)" "grows (checkEncryptionKey D cfg)" "grows (checkHostKeys D cfg)" "grows (checkCoderReachability D cfg)"
  "grows (checkCoderBinary D cfg v)" "grows (checkWritableDirs D cfg)" "grows (checkProcessLimits D)" "grows (checkAccountCredential D cfg a)"
  "grows (checkWorkspaceProbe D cfg w a tok)" "grows (doctor_environment D cfg)" "grows (doctor_validate D cfg)"
  unfolding checkStateDir_def checkEncryptionKey_def checkHostKeys_def checkCoderReachability_def checkBuildinfo_def checkCoderBinary_def
    checkWritableDirs_def checkProcessLimits_def checkAccountCredential_def stored_credential_def judge_stored_def checkWorkspaceProbe_def
    doctor_environment_def doctor_validate_def checkSpecialUsers_def Let_def
  by (intro grows_intros)+

lemma doctor_checks_grow [grows_intros]: "grows (doctor_checks D a w cfg)"
  unfolding doctor_checks_def by (intro grows_intros)

text \<open>A sequence without a failure consists of steps without a failure.\<close>

lemma clean_bnd:
  assumes "bnd m f r = (Inr x, t)" "dr_failures t \<le> dr_failures r" "grows m" "\<And>a. grows (f a)"
  obtains a u where "m r = (Inr a, u)" "dr_failures u \<le> dr_failures r" "f a u = (Inr x, t)" "dr_failures t \<le> dr_failures u"
proof -
  obtain a u where u: "m r = (Inr a, u)" "f a u = (Inr x, t)" using assms(1) by (auto simp: bnd_Inr_iff)
  have "dr_failures r \<le> dr_failures u" "dr_failures u \<le> dr_failures t"
    using assms(3,4) u unfolding grows_def by (metis snd_conv)+
  then show ?thesis using that u assms(2) by auto
qed

section \<open>What a passed check means\<close>

lemma status_simps [simp]: "statusPass \<noteq> statusFail" "statusWarn \<noteq> statusFail" "statusInfo \<noteq> statusFail"
  by (simp_all add: statusPass_def statusWarn_def statusFail_def statusInfo_def)

lemma report_emit_failures: "dr_failures (snd (report_emit n st r)) = dr_failures r + (if st = statusFail then 1 else 0)"
  by (simp add: report_emit_def)

lemma clean_validate:
  assumes "doctor_validate D cfg r = (x, t)" "dr_failures t \<le> dr_failures r" shows "Validate (de_probes D) cfg = []"
  using assms report_emit_failures [of "''config-validate''" statusFail r] by (auto simp: doctor_validate_def split: if_splits)

lemma clean_environment:
  assumes "doctor_environment D cfg r = (Inr cfg', t)" "dr_failures t \<le> dr_failures r"
  shows "\<exists>applied. ApplyEnvOverrides (de_getenv D) cfg = Inr (applied, cfg')"
  using assms by (auto simp: doctor_environment_def report_emit_def bnd_def split: sum.splits if_splits)

lemma clean_encryption:
  assumes "checkEncryptionKey D cfg r = (x, t)" "dr_failures t \<le> dr_failures r"
  shows "\<exists>k. fst (provider_ActiveKey (de_lib D) (ca_keys (de_cli D)) False (KeyProviderFromConfig cfg)) = Inr k"
  using assms by (auto simp: checkEncryptionKey_def Let_def report_emit_def split: sum.splits if_splits)

lemma clean_host_keys:
  assumes "checkHostKeys D cfg r = (x, t)" "dr_failures t \<le> dr_failures r"
  shows "\<exists>k. LoadHostSigners (ca_readFile (de_cli D)) (de_parseSigner D) (ss_HostKeys (cfg_SSH cfg)) = Inr k"
  using assms by (auto simp: checkHostKeys_def report_emit_def split: sum.splits if_splits)

lemma clean_binary:
  assumes "checkCoderBinary D cfg v r = (x, t)" "dr_failures t \<le> dr_failures r"
  shows "binary_ok (probes.os_Stat (de_probes D) (dp_CoderBinary (cfg_Deployment cfg)))"
  using assms by (auto simp: checkCoderBinary_def Let_def report_emit_def split: if_splits)

text \<open>The self-test of the cipher never fails by itself: with a lawful cipher and a random nonce the check passes exactly if the
  active key can be loaded and has the right size.\<close>

lemma encryption_check_exact:
  assumes A: "aead_lawful (env_aead (ca_env (de_cli D)))" and n: "de_nonce D = Some rnd"
    and k: "fst (provider_ActiveKey (de_lib D) (ca_keys (de_cli D)) False (KeyProviderFromConfig cfg)) = Inr (i, key)" "length key = KeySize"
    and c: "en_Keys (cfg_Encryption cfg) \<noteq> []" "en_ActiveKeyID (cfg_Encryption cfg) \<noteq> []"
  shows "checkEncryptionKey D cfg r = report_emit ''encryption-key'' statusPass r"
proof -
  let ?A = "env_aead (ca_env (de_cli D))"
  obtain nonce ct where s: "Seal ?A (de_nonce D) i key self_test_marker [] = Inr (nonce, ct)"
    using n k(2) Seal_Inr [of ?A "de_nonce D" i key self_test_marker "[]"] by (metis)
  then have "Secretbox.Open ?A i key nonce ct [] = Inr self_test_marker"
    using Open_Inr [OF A, of i key nonce ct "[]" self_test_marker] Seal_Inr [of ?A "de_nonce D" i key self_test_marker "[]" nonce ct] by auto
  then show ?thesis using k c s by (simp add: checkEncryptionKey_def Let_def)
qed

section \<open>The diagnosis only reads\<close>

text \<open>The records are those of \<open>I\<close>, and while no check runs the store is closed.\<close>

definition same_records :: "image \<Rightarrow> doctorReport \<Rightarrow> bool" where
  "same_records I r \<longleftrightarrow> (\<exists>k c. disk (I\<lparr>im_kp := k, im_closed := c\<rparr>) (dr_store r))"

definition shut :: "image \<Rightarrow> doctorReport \<Rightarrow> bool" where
  "shut I r \<longleftrightarrow> same_records I r \<and> st_closed (dr_store r)"

lemma image_swap: "I\<lparr>im_closed := c, im_kp := k\<rparr> = I\<lparr>im_kp := k, im_closed := c\<rparr>"
  by (cases I) simp

lemma disk_closed: "disk J t \<Longrightarrow> im_closed J = st_closed t"
  by (auto simp: disk_def img_of_def)

lemma doctor_store_run: "doctor_store m r = (Inr (fst (m (dr_store r))), r\<lparr>dr_store := snd (m (dr_store r))\<rparr>)"
  by (simp add: doctor_store_def split: prod.split)

lemma report_emit_keeps [keeps_intros]: "keeps (same_records I) (report_emit n st)" "keeps (shut I) (report_emit n st)"
  by (simp_all add: keeps_def report_emit_def same_records_def shut_def)

lemma read_keeps:
  assumes "\<And>J. keeps (disk J) m" shows "keeps (same_records I) (doctor_store m)"
  using assms unfolding keeps_def same_records_def doctor_store_run by (metis (no_types, lifting) doctorReport.select_convs(1) doctorReport.surjective doctorReport.update_convs(1) snd_conv)

lemma close_shuts: assumes "same_records I r" shows "shut I (snd (doctor_store (store_Close E) r))"
proof -
  obtain k c where "disk (I\<lparr>im_kp := k, im_closed := c\<rparr>) (dr_store r)" using assms by (auto simp: same_records_def)
  from triple_snd [OF store_Close_disk this, of E]
  have "disk (I\<lparr>im_kp := k, im_closed := True\<rparr>) (snd (store_Close E (dr_store r)))" by simp
  then show ?thesis unfolding shut_def same_records_def by (auto simp: doctor_store_run close_closed)
qed

lemma open_outcome:
  assumes "shut I r"
  shows "same_records I (snd (doctor_store (store_Open E dir b) r))" "isl (fst (store_Open E dir b (dr_store r))) \<Longrightarrow> shut I (snd (doctor_store (store_Open E dir b) r))"
proof -
  obtain k c where d: "disk (I\<lparr>im_kp := k, im_closed := c\<rparr>) (dr_store r)" and c: "st_closed (dr_store r)" using assms by (auto simp: shut_def same_records_def)
  obtain x t where t: "store_Open E dir b (dr_store r) = (x, t)" by fastforce
  have "disk (I\<lparr>im_kp := None, im_closed := False\<rparr>) t \<or> isl x \<and> disk (I\<lparr>im_kp := k, im_closed := c\<rparr>) t"
    using tripleD [OF store_Open_disk d, of E dir b] t image_swap [where I = I and c = False and k = None] by (cases x) auto
  moreover have "isl x \<Longrightarrow> disk (I\<lparr>im_kp := k, im_closed := c\<rparr>) t"
    using tripleD(2) [OF store_Open_disk d, of E dir b _ t] t by (cases x) auto
  moreover have "disk (I\<lparr>im_kp := k, im_closed := c\<rparr>) t \<Longrightarrow> st_closed t" using disk_closed [OF d] c disk_closed [of "I\<lparr>im_kp := k, im_closed := c\<rparr>" t] by simp
  ultimately show "same_records I (snd (doctor_store (store_Open E dir b) r))"
    "isl (fst (store_Open E dir b (dr_store r))) \<Longrightarrow> shut I (snd (doctor_store (store_Open E dir b) r))"
    by (auto simp: doctor_store_run t same_records_def shut_def)
qed

text \<open>A body between the opening and the closing.\<close>

lemma opened_keeps:
  assumes "keeps (shut I) fail" "\<And>r. same_records I r \<Longrightarrow> shut I (snd (body r))"
  shows "keeps (shut I) (bnd (doctor_store (store_Open E dir b)) (\<lambda>x. if isl x then fail else body))"
proof (rule keepsI)
  fix r assume r: "shut I r"
  let ?u = "snd (doctor_store (store_Open E dir b) r)"
  have "bnd (doctor_store (store_Open E dir b)) (\<lambda>x. if isl x then fail else body) r = (if isl (fst (store_Open E dir b (dr_store r))) then fail ?u else body ?u)"
    by (simp add: bnd_def doctor_store_run)
  then show "shut I (snd (bnd (doctor_store (store_Open E dir b)) (\<lambda>x. if isl x then fail else body) r))"
    using open_outcome [OF r, of E dir b] assms(2) keepsD [OF assms(1)] by simp
qed

lemma state_dir_reads [keeps_intros]: "keeps (shut I) (checkStateDir D cfg)"
proof -
  have c: "shut I (snd (bnd (doctor_store (store_Close E)) (\<lambda>x. if isl x then report_emit n a else report_emit n b) r))" if "same_records I r" for E n a b r
    using close_shuts [OF that, of E] keepsD [OF report_emit_keeps(2)] by (simp add: bnd_def doctor_store_run)
  have e: "keeps (shut I) (case v of ReadMissing \<Rightarrow> x | ReadFailed \<Rightarrow> y | ReadBytes b \<Rightarrow> z b)" if "keeps (shut I) x" "keeps (shut I) y" "\<And>b. keeps (shut I) (z b)"
    for v and x y :: "unit dm" and z using that by (cases v) auto
  show ?thesis unfolding checkStateDir_def Let_def by (intro keeps_intros e opened_keeps c)
qed

lemma credential_reads [keeps_intros]: "keeps (shut I) (checkAccountCredential D cfg a)"
proof -
  have k: "keeps (same_records I) (doctor_store (SetKeyProvider kp))" for kp
  proof (rule keepsI)
    fix r assume "same_records I r"
    then obtain k c where "disk (I\<lparr>im_kp := k, im_closed := c\<rparr>) (dr_store r)" by (auto simp: same_records_def)
    from triple_snd [OF SetKeyProvider_disk [where kp = kp and I = "I\<lparr>im_kp := k, im_closed := c\<rparr>" and R = "\<lambda>_. disk (I\<lparr>im_kp := k, im_closed := c\<rparr>\<lparr>im_kp := kp\<rparr>)"] this]
    have "disk (I\<lparr>im_kp := kp, im_closed := c\<rparr>) (snd (SetKeyProvider kp (dr_store r)))" by (cases I) simp
    then show "same_records I (snd (doctor_store (SetKeyProvider kp) r))" unfolding same_records_def doctor_store_run by auto
  qed
  have s: "keeps (same_records I) (stored_credential D cfg i)" for i
    unfolding stored_credential_def judge_stored_def Let_def by (intro keeps_intros k read_keeps GetAccount_keeps LoadCredential_keeps)
  have b: "shut I (snd (bnd (attempt m) (\<lambda>r. bnd (doctor_store (store_Close E)) (\<lambda>_. lift_sum r)) r))" if "same_records I r" "keeps (same_records I) m"
    for E r and m :: "bytes dm"
    using close_shuts [OF keepsD [OF that(2,1)], of E] by (simp add: bnd_def doctor_store_run)
  show ?thesis unfolding checkAccountCredential_def Let_def by (intro keeps_intros opened_keeps b s)
qed

lemma cmdDoctor_reads: "keeps (shut I) (cmdDoctor D args)"
  unfolding cmdDoctor_def doctor_checks_def doctor_environment_def doctor_validate_def checkEncryptionKey_def checkHostKeys_def checkCoderReachability_def
    checkBuildinfo_def checkCoderBinary_def checkWritableDirs_def checkProcessLimits_def checkWorkspaceProbe_def checkSpecialUsers_def Let_def
  by (intro keeps_intros)

section \<open>No panic\<close>

text \<open>A token reaches the probe only after a verification, which needs the URL that the environment of the process is built from.
  \<open>gives Q m\<close>: the computation does not panic, and its value satisfies \<open>Q\<close>.\<close>

definition gives :: "('a \<Rightarrow> bool) \<Rightarrow> 'a dm \<Rightarrow> bool" where
  "gives Q m \<longleftrightarrow> (\<forall>r. \<exists>a t. m r = (Inr a, t) \<and> Q a)"

named_theorems safe_intros "computations that do not panic"

lemma gives_bnd: "gives Q m \<Longrightarrow> (\<And>a. Q a \<Longrightarrow> gives Q' (f a)) \<Longrightarrow> gives Q' (bnd m f)"
  unfolding gives_def by (metis bnd_step(1))

lemma gives_basic [safe_intros]:
  "Q a \<Longrightarrow> gives Q (ret a)" "gives (\<lambda>_. True) (report_emit n st)" "gives (\<lambda>_. True) (doctor_store m)" "gives (\<lambda>_. True) (gets f)"
  by (simp_all add: gives_def report_emit_def doctor_store_run)

lemma gives_then [safe_intros]: "gives (\<lambda>_. True) m \<Longrightarrow> (\<And>a. gives Q (f a)) \<Longrightarrow> gives Q (bnd m f)"
  by (rule gives_bnd) auto

lemma gives_cases [safe_intros]:
  "(b \<Longrightarrow> gives Q m) \<Longrightarrow> (\<not> b \<Longrightarrow> gives Q n) \<Longrightarrow> gives Q (if b then m else n)"
  "(x = None \<Longrightarrow> gives Q m) \<Longrightarrow> (\<And>a. x = Some a \<Longrightarrow> gives Q (f a)) \<Longrightarrow> gives Q (case x of None \<Rightarrow> m | Some a \<Rightarrow> f a)"
  "(\<And>e. y = Inl e \<Longrightarrow> gives Q (g e)) \<Longrightarrow> (\<And>a. y = Inr a \<Longrightarrow> gives Q (f' a)) \<Longrightarrow> gives Q (case y of Inl e \<Rightarrow> g e | Inr a \<Rightarrow> f' a)"
  "(\<And>a b. z = (a, b) \<Longrightarrow> gives Q (h a b)) \<Longrightarrow> gives Q (case z of (a, b) \<Rightarrow> h a b)"
  "gives Q k1 \<Longrightarrow> gives Q k2 \<Longrightarrow> (\<And>b. gives Q (k3 b)) \<Longrightarrow> gives Q (case v of ReadMissing \<Rightarrow> k1 | ReadFailed \<Rightarrow> k2 | ReadBytes b \<Rightarrow> k3 b)"
  by (auto split: option.split sum.split prod.split readOutcome.split)

lemma checks_safe [safe_intros]:
  "gives (\<lambda>_. True) (checkStateDir D cfg)" "gives (\<lambda>_. True) (checkEncryptionKey D cfg)" "gives (\<lambda>_. True) (checkHostKeys D cfg)"
  "gives (\<lambda>_. True) (checkCoderReachability D cfg)" "gives (\<lambda>_. True) (checkCoderBinary D cfg v)" "gives (\<lambda>_. True) (checkWritableDirs D cfg)"
  "gives (\<lambda>_. True) (checkProcessLimits D)" "gives (\<lambda>_. True) (doctor_environment D cfg)" "gives (\<lambda>_. True) (doctor_validate D cfg)"
  unfolding checkStateDir_def checkEncryptionKey_def checkHostKeys_def checkCoderReachability_def checkBuildinfo_def checkCoderBinary_def
    checkWritableDirs_def checkProcessLimits_def doctor_environment_def doctor_validate_def checkSpecialUsers_def Let_def
  by (intro safe_intros TrueI)+

definition usable :: "doctorEnv \<Rightarrow> Config \<Rightarrow> bytes \<Rightarrow> bool" where
  "usable D cfg token \<longleftrightarrow> (token \<noteq> [] \<longrightarrow> (\<exists>dep. DeploymentFromConfig (de_cli D) cfg = Some dep \<and> dep_CoderURL dep \<noteq> None))"

lemma usable_empty [simp]: "usable D cfg []"
  by (simp add: usable_def)

lemma judge_yields: "gives (usable D cfg) (judge_stored D cfg acct token)"
proof -
  have u: "DeploymentFromConfig (de_cli D) cfg = Some dep \<Longrightarrow> verifier_New (de_cli D) dep vopts = Some api \<Longrightarrow> usable D cfg token" for dep vopts api
    by (auto simp: usable_def verifier_New_def split: if_splits)
  show ?thesis unfolding judge_stored_def Let_def by (intro safe_intros usable_empty) (rule u)
qed

lemma stored_yields: "gives (usable D cfg) (stored_credential D cfg i)"
  unfolding stored_credential_def Let_def by (intro safe_intros usable_empty judge_yields)

lemma account_yields: "gives (usable D cfg) (checkAccountCredential D cfg a)"
proof -
  have b: "gives Q (bnd (attempt m) (\<lambda>r. bnd (doctor_store k) (\<lambda>_. lift_sum r)))" if g: "gives Q m" for Q m and k :: "unit stm"
    unfolding gives_def
  proof
    fix r
    obtain x t where "m r = (Inr x, t)" "Q x" using g unfolding gives_def by blast
    then show "\<exists>a t. bnd (attempt m) (\<lambda>r. bnd (doctor_store k) (\<lambda>_. lift_sum r)) r = (Inr a, t) \<and> Q a" by (simp add: bnd_def doctor_store_run)
  qed
  show ?thesis unfolding checkAccountCredential_def Let_def by (intro safe_intros usable_empty b stored_yields)
qed

lemma probe_safe:
  assumes "usable D cfg token" shows "gives (\<lambda>_. True) (checkWorkspaceProbe D cfg w a token)"
proof -
  have n: "BuildEnv tmp dep token \<noteq> None" if "token \<noteq> []" "DeploymentFromConfig (de_cli D) cfg = Some dep" for tmp dep
    using assms that by (auto simp: usable_def BuildEnv_def)
  show ?thesis unfolding checkWorkspaceProbe_def Let_def by (intro safe_intros TrueI) (use n in blast)
qed

lemma cmdDoctor_safe: "gives (\<lambda>_. True) (cmdDoctor D args)"
proof -
  have tail: "gives (\<lambda>_. True) (bnd (if a = [] then ret [] else checkAccountCredential D cfg a)
      (\<lambda>token. if w = [] then ret () else checkWorkspaceProbe D cfg w a token))" for a w cfg
    by (rule gives_bnd [where Q = "usable D cfg"]) (intro safe_intros usable_empty account_yields probe_safe TrueI; assumption)+
  show ?thesis unfolding cmdDoctor_def doctor_checks_def Let_def by (intro safe_intros tail TrueI)
qed

section \<open>What the diagnosis approves\<close>

definition no_address_flags :: "globals \<Rightarrow> bool" where
  "no_address_flags g \<longleftrightarrow> gl_listenAddress g = None \<and> gl_metricsAddress g = None \<and> gl_healthAddress g = None"

lemma no_overrides: "no_address_flags g \<Longrightarrow> snd (applyBindAddressOverrides g cfg) = cfg"
  by (simp add: no_address_flags_def applyBindAddressOverrides_def)

lemma clean_checks:
  assumes "doctor_checks D a w cfg r = (Inr x, t)" "dr_failures t \<le> dr_failures r"
  shows "\<exists>k. fst (provider_ActiveKey (de_lib D) (ca_keys (de_cli D)) False (KeyProviderFromConfig cfg)) = Inr k"
    "\<exists>k. LoadHostSigners (ca_readFile (de_cli D)) (de_parseSigner D) (ss_HostKeys (cfg_SSH cfg)) = Inr k"
    "binary_ok (probes.os_Stat (de_probes D) (dp_CoderBinary (cfg_Deployment cfg)))"
proof -
  note run = assms(1) [unfolded doctor_checks_def]
  from run assms(2) obtain x1 r1 where 1: "dr_failures t \<le> dr_failures r1"
    "bnd (checkEncryptionKey D cfg) (\<lambda>_. bnd (checkHostKeys D cfg) (\<lambda>_. bnd (checkCoderReachability D cfg) (\<lambda>v. bnd (checkCoderBinary D cfg v) (\<lambda>_.
       bnd (checkWritableDirs D cfg) (\<lambda>_. bnd (checkProcessLimits D) (\<lambda>_. bnd (if a = [] then ret [] else checkAccountCredential D cfg a) (\<lambda>token.
       if w = [] then ret () else checkWorkspaceProbe D cfg w a token))))))) r1 = (Inr x, t)"
    by (rule clean_bnd) (intro grows_intros)+
  from 1(2,1) obtain x2 r2 where 2: "checkEncryptionKey D cfg r1 = (Inr x2, r2)" "dr_failures r2 \<le> dr_failures r1" "dr_failures t \<le> dr_failures r2"
    "bnd (checkHostKeys D cfg) (\<lambda>_. bnd (checkCoderReachability D cfg) (\<lambda>v. bnd (checkCoderBinary D cfg v) (\<lambda>_.
       bnd (checkWritableDirs D cfg) (\<lambda>_. bnd (checkProcessLimits D) (\<lambda>_. bnd (if a = [] then ret [] else checkAccountCredential D cfg a) (\<lambda>token.
       if w = [] then ret () else checkWorkspaceProbe D cfg w a token)))))) r2 = (Inr x, t)"
    by (rule clean_bnd) (intro grows_intros)+
  from 2(4,3) obtain x3 r3 where 3: "checkHostKeys D cfg r2 = (Inr x3, r3)" "dr_failures r3 \<le> dr_failures r2" "dr_failures t \<le> dr_failures r3"
    "bnd (checkCoderReachability D cfg) (\<lambda>v. bnd (checkCoderBinary D cfg v) (\<lambda>_.
       bnd (checkWritableDirs D cfg) (\<lambda>_. bnd (checkProcessLimits D) (\<lambda>_. bnd (if a = [] then ret [] else checkAccountCredential D cfg a) (\<lambda>token.
       if w = [] then ret () else checkWorkspaceProbe D cfg w a token))))) r3 = (Inr x, t)"
    by (rule clean_bnd) (intro grows_intros)+
  from 3(4,3) obtain v r4 where 4: "dr_failures t \<le> dr_failures r4" "bnd (checkCoderBinary D cfg v) (\<lambda>_.
       bnd (checkWritableDirs D cfg) (\<lambda>_. bnd (checkProcessLimits D) (\<lambda>_. bnd (if a = [] then ret [] else checkAccountCredential D cfg a) (\<lambda>token.
       if w = [] then ret () else checkWorkspaceProbe D cfg w a token)))) r4 = (Inr x, t)"
    by (rule clean_bnd) (intro grows_intros)+
  from 4(2,1) obtain x5 r5 where 5: "checkCoderBinary D cfg v r4 = (Inr x5, r5)" "dr_failures r5 \<le> dr_failures r4"
    by (rule clean_bnd) (intro grows_intros)+
  show "\<exists>k. fst (provider_ActiveKey (de_lib D) (ca_keys (de_cli D)) False (KeyProviderFromConfig cfg)) = Inr k" by (rule clean_encryption [OF 2(1,2)])
  show "\<exists>k. LoadHostSigners (ca_readFile (de_cli D)) (de_parseSigner D) (ss_HostKeys (cfg_SSH cfg)) = Inr k" by (rule clean_host_keys [OF 3(1,2)])
  show "binary_ok (probes.os_Stat (de_probes D) (dp_CoderBinary (cfg_Deployment cfg)))" by (rule clean_binary [OF 5])
qed

lemma clean_run_serves:
  assumes run: "cmdDoctor D args (new_report st) = (Inr code, t)" and code: "code = exitOK"
    and flags: "no_address_flags (ca_globals (de_cli D))" and nofile: "ca_readFile (de_cli D) [] = None"
    and same: "be_cli B = de_cli D" "be_parseSigner B = de_parseSigner D"
  shows "\<exists>cfg. serve_configuration (de_cli D) (de_getenv D) (de_probes D) [] = Inr cfg
    \<and> (\<forall>b. bt_Config b = cfg \<and> bt_keyProv b = KeyProviderFromConfig cfg \<longrightarrow>
         snd (readiness (HealthChecks B b (Some ''1'') (probes.os_Stat (de_probes D) (dp_CoderBinary (cfg_Deployment cfg))) info True serve_init)))"
proof -
  let ?g = "ca_globals (de_cli D)"
  obtain vals rest where v: "flag_Parse [(''account'', False), (''probe-workspace'', False)] [] args = Some (vals, rest)"
    using run code by (auto simp: cmdDoctor_def split: option.splits)
  obtain f0 where f: "parse_at (de_cli D) (doctor_path ?g) = Some f0"
    using run code v by (cases "parse_at (de_cli D) (doctor_path ?g)") (auto simp: cmdDoctor_def Let_def bnd_def report_emit_def)
  let ?a = "flag_String vals ''account''" and ?w = "flag_String vals ''probe-workspace''"
  define r0 where "r0 = snd (report_emit ''config-parse'' statusPass (new_report st))"
  have r0: "dr_failures r0 = 0" by (simp add: r0_def report_emit_failures new_report_def)
  have run': "bnd (doctor_environment D (ApplyStateDir (gl_stateDir ?g) f0)) (\<lambda>cfg. bnd (doctor_validate D cfg) (\<lambda>_. bnd (doctor_checks D ?a ?w cfg) (\<lambda>_.
      bnd (gets dr_failures) (\<lambda>n. ret (if 0 < n then exitError else exitOK))))) r0 = (Inr code, t)"
    using run v f by (simp add: cmdDoctor_def Let_def r0_def report_emit_def)
  have t0: "dr_failures t \<le> dr_failures r0"
    using run' code r0 by (auto simp: bnd_Inr_iff split: if_splits)
  from run' t0 obtain cfg r1 where 1: "doctor_environment D (ApplyStateDir (gl_stateDir ?g) f0) r0 = (Inr cfg, r1)" "dr_failures r1 \<le> dr_failures r0" "dr_failures t \<le> dr_failures r1"
    "bnd (doctor_validate D cfg) (\<lambda>_. bnd (doctor_checks D ?a ?w cfg) (\<lambda>_. bnd (gets dr_failures) (\<lambda>n. ret (if 0 < n then exitError else exitOK)))) r1 = (Inr code, t)"
    by (rule clean_bnd) (intro grows_intros)+
  from 1(4,3) obtain x2 r2 where 2: "doctor_validate D cfg r1 = (Inr x2, r2)" "dr_failures r2 \<le> dr_failures r1" "dr_failures t \<le> dr_failures r2"
    "bnd (doctor_checks D ?a ?w cfg) (\<lambda>_. bnd (gets dr_failures) (\<lambda>n. ret (if 0 < n then exitError else exitOK))) r2 = (Inr code, t)"
    by (rule clean_bnd) (intro grows_intros)+
  from 2(4,3) obtain x3 r3 where 3: "doctor_checks D ?a ?w cfg r2 = (Inr x3, r3)" "dr_failures r3 \<le> dr_failures r2"
    by (rule clean_bnd) (intro grows_intros)+
  note c = clean_checks [OF 3]
  obtain applied where env: "ApplyEnvOverrides (de_getenv D) (ApplyStateDir (gl_stateDir ?g) f0) = Inr (applied, cfg)" using clean_environment [OF 1(1,2)] by blast
  have "doctor_path ?g \<noteq> []" using f nofile by (auto simp: parse_at_def Parse_def)
  then have path: "gl_configPath ?g \<noteq> [] \<or> gl_stateDir ?g \<noteq> []" "doctor_path ?g = (if gl_configPath ?g = [] then DefaultConfigPath (gl_stateDir ?g) else gl_configPath ?g)"
    by (auto simp: doctor_path_def split: if_splits)
  have s: "serve_configuration (de_cli D) (de_getenv D) (de_probes D) [] = Inr cfg"
    using path f env no_overrides [OF flags] clean_validate [OF 2(1,2)] by (auto simp: serve_configuration_def Let_def)
  have "snd (readiness (HealthChecks B b (Some ''1'') (probes.os_Stat (de_probes D) (dp_CoderBinary (cfg_Deployment cfg))) info True serve_init))"
    if "bt_Config b = cfg" "bt_keyProv b = KeyProviderFromConfig cfg" for b
    unfolding readiness_iff HealthChecks_def using that c same
    by (auto simp: store_version_ok_def TrimSpace_def ascii_space_def Draining_def serve_init_def split: sum.splits)
  then show ?thesis using s by blast
qed


definition demo_doctor :: doctorEnv where
  "demo_doctor = \<lparr>de_cli = demo_cli\<lparr>ca_readFile := (\<lambda>p. if p = [] then None else Some [])\<rparr>, de_getenv = (\<lambda>_. None), de_probes = demo_probes,
     de_system = \<lparr>os_MkdirAll = (\<lambda>_. True), os_Chmod = (\<lambda>_. True), os_TempDir = ''/tmp'', os_Pipes = True, os_Start = (\<lambda>_. True)\<rparr>, de_readVersion = (\<lambda>_. ReadBytes ''1''), de_parseSigner = Some, de_nonce = Some (\<lambda>_. CHR ''n''),
     de_exec = (\<lambda>_ _. Some ''v2.1.0''), de_rlimit = Some 4096, de_dial = (\<lambda>_ _ _. True), de_buildinfo = (\<lambda>_. Some (200, [])),
     de_jsonVersion = (\<lambda>_. Some ''v2.1.3''), de_probe = (\<lambda>_ _ _ _ _. ProbeOutput)\<rparr>"


section \<open>The network\<close>

text \<open>Two reports with the same store and the same number of failures; the lines may differ.\<close>

definition alike :: "doctorReport \<Rightarrow> doctorReport \<Rightarrow> bool" where
  "alike r r' \<longleftrightarrow> dr_store r = dr_store r' \<and> dr_failures r = dr_failures r'"

definition sim :: "'a dm \<Rightarrow> 'b dm \<Rightarrow> bool" where
  "sim m m' \<longleftrightarrow> (\<forall>r r'. alike r r' \<longrightarrow> (\<exists>a a' t t'. m r = (Inr a, t) \<and> m' r' = (Inr a', t') \<and> alike t t'))"

named_theorems sim_intros "computations that count the same failures"

lemma sim_bnd [sim_intros]: "sim m m' \<Longrightarrow> (\<And>a a'. sim (f a) (f' a')) \<Longrightarrow> sim (bnd m f) (bnd m' f')"
  unfolding sim_def by (metis bnd_step(1))

lemma sim_basic [sim_intros]:
  "sim (ret a) (ret b)" "(st = statusFail \<longleftrightarrow> st' = statusFail) \<Longrightarrow> sim (report_emit n st) (report_emit n' st')" "sim (doctor_store m) (doctor_store m)"
  by (auto simp: sim_def alike_def report_emit_def doctor_store_run)

lemma sim_skip: "st \<noteq> statusFail \<Longrightarrow> sim (bnd (report_emit n st) (\<lambda>_. ret a)) (bnd (report_emit n' st') (\<lambda>_. ret a'))" if "st' \<noteq> statusFail"
  using that by (intro sim_intros) simp

text \<open>The value of a computation, and everything that follows from it, is the same.\<close>

lemma sim_same: "(\<And>r r'. alike r r' \<Longrightarrow> \<exists>a t t'. m r = (Inr a, t) \<and> m' r' = (Inr a, t') \<and> alike t t') \<Longrightarrow> (\<And>a. sim (f a) (f' a)) \<Longrightarrow> sim (bnd m f) (bnd m' f')"
  unfolding sim_def by (metis bnd_step(1))

lemma sim_store:
  assumes "\<And>x. sim (f x) (f' x)" shows "sim (bnd (doctor_store m) f) (bnd (doctor_store m) f')"
  by (rule sim_same) (auto simp: doctor_store_run alike_def intro: assms)

lemma sim_state_dir: "sim (checkStateDir D cfg) (checkStateDir D cfg)"
  unfolding checkStateDir_def Let_def
  by (auto intro!: sim_basic sim_store split: option.split readOutcome.split)

lemma sim_encryption: "sim (checkEncryptionKey D cfg) (checkEncryptionKey D cfg)"
  unfolding checkEncryptionKey_def Let_def by (auto intro!: sim_basic split: sum.split prod.split)

lemma sim_host_keys: "sim (checkHostKeys D cfg) (checkHostKeys D cfg)"
  unfolding checkHostKeys_def by (auto intro!: sim_basic split: sum.split)

lemma sim_others: "sim (checkWritableDirs D cfg) (checkWritableDirs D cfg)" "sim (checkProcessLimits D) (checkProcessLimits D)"
  unfolding checkWritableDirs_def checkProcessLimits_def by (auto intro!: sim_basic split: option.split)

text \<open>The version of the server decides between two lines that are no failures.\<close>

lemma sim_binary: "sim (checkCoderBinary D cfg v) (checkCoderBinary D cfg v')"
proof -
  let ?n = "''coder-binary''" and ?bin = "dp_CoderBinary (cfg_Deployment cfg)" and ?dir = "dp_WorkingDirectory (cfg_Deployment cfg)"
  define bad where "bad \<longleftrightarrow> ?bin = [] \<or> \<not> binary_ok (probes.os_Stat (de_probes D) ?bin)
    \<or> de_exec D ?bin (if ?dir \<noteq> [] \<and> (case probes.os_Stat (de_probes D) ?dir of None \<Rightarrow> False | Some fi \<Rightarrow> fi_IsDir fi) then ?dir else []) = None"
  have c: "\<exists>st. (st = statusFail \<longleftrightarrow> bad) \<and> checkCoderBinary D cfg v = report_emit ?n st" for v
  proof (cases bad)
    case True
    then have "checkCoderBinary D cfg v = report_emit ?n statusFail" unfolding bad_def checkCoderBinary_def Let_def by (elim disjE) simp_all
    then show ?thesis using True by blast
  next
    case False
    then obtain o' where "?bin \<noteq> []" "binary_ok (probes.os_Stat (de_probes D) ?bin)"
      "de_exec D ?bin (if ?dir \<noteq> [] \<and> (case probes.os_Stat (de_probes D) ?dir of None \<Rightarrow> False | Some fi \<Rightarrow> fi_IsDir fi) then ?dir else []) = Some o'"
      unfolding bad_def by blast
    then have "checkCoderBinary D cfg v = report_emit ?n statusWarn \<or> checkCoderBinary D cfg v = report_emit ?n statusPass"
      unfolding checkCoderBinary_def Let_def by (simp split: option.split)
    then show ?thesis using False status_simps by metis
  qed
  show ?thesis using c [of v] c [of v'] by (metis sim_basic(2))
qed

text \<open>Everything that decides on the network, and whether a client for it can be built.\<close>

definition other_network :: "(string \<Rightarrow> string \<Rightarrow> Options \<Rightarrow> bool) \<Rightarrow> (Options \<Rightarrow> (int \<times> bytes) option) \<Rightarrow> (bytes \<Rightarrow> string option) \<Rightarrow>
    (string \<Rightarrow> string list \<Rightarrow> string list \<Rightarrow> string \<Rightarrow> int \<Rightarrow> probeOutcome) \<Rightarrow> (Deployment \<Rightarrow> Options \<Rightarrow> api) \<Rightarrow> bool \<Rightarrow> (bytes \<Rightarrow> bytes \<Rightarrow> bool) \<Rightarrow> doctorEnv \<Rightarrow> doctorEnv" where
  "other_network dial info decode probe exchange pool pair D = D\<lparr>de_dial := dial, de_buildinfo := info, de_jsonVersion := decode, de_probe := probe,
     de_cli := (de_cli D)\<lparr>ca_exchange := exchange, ca_systemPool := pool, ca_keyPair := pair\<rparr>\<rparr>"

lemma other_fields:
  "de_getenv (other_network d i j p x k q D) = de_getenv D" "de_probes (other_network d i j p x k q D) = de_probes D" "de_system (other_network d i j p x k q D) = de_system D"
  "de_readVersion (other_network d i j p x k q D) = de_readVersion D" "de_parseSigner (other_network d i j p x k q D) = de_parseSigner D"
  "de_nonce (other_network d i j p x k q D) = de_nonce D" "de_exec (other_network d i j p x k q D) = de_exec D" "de_rlimit (other_network d i j p x k q D) = de_rlimit D"
  "ca_env (de_cli (other_network d i j p x k q D)) = ca_env (de_cli D)" "ca_globals (de_cli (other_network d i j p x k q D)) = ca_globals (de_cli D)"
  "ca_yaml (de_cli (other_network d i j p x k q D)) = ca_yaml (de_cli D)" "ca_configDir (de_cli (other_network d i j p x k q D)) = ca_configDir (de_cli D)"
  "ca_readFile (de_cli (other_network d i j p x k q D)) = ca_readFile (de_cli D)" "ca_keys (de_cli (other_network d i j p x k q D)) = ca_keys (de_cli D)"
  "ca_hasCerts (de_cli (other_network d i j p x k q D)) = ca_hasCerts (de_cli D)"
  by (simp_all add: other_network_def)

lemma other_simps [simp]:
  "checkStateDir (other_network d i j p x k q D) = checkStateDir D" "checkEncryptionKey (other_network d i j p x k q D) = checkEncryptionKey D"
  "checkHostKeys (other_network d i j p x k q D) = checkHostKeys D" "checkCoderBinary (other_network d i j p x k q D) = checkCoderBinary D"
  "checkWritableDirs (other_network d i j p x k q D) = checkWritableDirs D" "checkProcessLimits (other_network d i j p x k q D) = checkProcessLimits D"
  "doctor_environment (other_network d i j p x k q D) = doctor_environment D" "doctor_validate (other_network d i j p x k q D) = doctor_validate D"
  "parse_at (de_cli (other_network d i j p x k q D)) = parse_at (de_cli D)" "ca_globals (de_cli (other_network d i j p x k q D)) = ca_globals (de_cli D)"
  "VerifierOptionsFromConfig (de_cli (other_network d i j p x k q D)) = VerifierOptionsFromConfig (de_cli D)" "de_probes (other_network d i j p x k q D) = de_probes D"
  unfolding fun_eq_iff checkStateDir_def checkEncryptionKey_def checkHostKeys_def checkCoderBinary_def checkWritableDirs_def
    checkProcessLimits_def doctor_environment_def doctor_validate_def parse_at_def VerifierOptionsFromConfig_def other_fields
  by simp_all

lemma sim_buildinfo: "sim (checkBuildinfo D vopts) (checkBuildinfo D' vopts')"
proof -
  have w: "sim (bnd (report_emit n st) (\<lambda>_. ret a)) (bnd (report_emit n st') (\<lambda>_. ret a'))" if "st \<in> {statusPass, statusWarn}" "st' \<in> {statusPass, statusWarn}" for n st st' and a a' :: string
    using that by (intro sim_intros) auto
  show ?thesis unfolding checkBuildinfo_def Let_def by (auto intro!: w split: option.split)
qed

lemma sim_reachability: "sim (checkCoderReachability D cfg) (checkCoderReachability (other_network d i j p x k q D) cfg)"
proof -
  have w: "sim (report_emit n (if b then statusPass else statusWarn)) (report_emit n (if b' then statusPass else statusWarn))" for n b b' by (auto intro!: sim_basic)
  have f: "sim (bnd (report_emit n st) (\<lambda>_. ret a)) (bnd (report_emit n st) (\<lambda>_. ret a))" for n st and a :: string by (intro sim_intros) simp
  show ?thesis unfolding checkCoderReachability_def Let_def other_simps
    by (auto intro!: f sim_bnd sim_buildinfo w sim_basic split: option.split prod.split)
qed

lemma sim_checks: "sim (doctor_checks D [] w cfg) (doctor_checks (other_network d i j p x k q D) [] w cfg)"
proof -
  have pr: "sim (if w = [] then ret () else checkWorkspaceProbe D cfg w [] tok) (if w = [] then ret () else checkWorkspaceProbe D' cfg w [] tok')" for D D' tok tok'
    by (auto simp: checkWorkspaceProbe_def intro!: sim_basic)
  show ?thesis unfolding doctor_checks_def other_simps if_P [OF HOL.refl]
    by (intro sim_bnd sim_state_dir sim_encryption sim_host_keys sim_reachability sim_binary sim_others sim_basic pr)
qed

text \<open>The service cannot be built without a client for the control plane.\<close>

lemma or_close_Inr: "or_close E m f s = (Inr b, t) \<longleftrightarrow> (\<exists>a u. m s = (Inr a, u) \<and> f a u = (Inr b, t))"
  by (cases "m s"; cases "fst (m s)") (auto simp: or_close_def bnd_def split: prod.splits sum.splits)

lemma Build_needs_client:
  assumes "\<not> NewHTTPClient (be_cli B) vopts" "VerifierOptionsFromConfig (be_cli B) cfg = Some vopts" shows "isl (fst (Build B cfg s))"
proof (rule ccontr)
  assume "\<not> isl (fst (Build B cfg s))"
  then obtain b t where "Build B cfg s = (Inr b, t)" by (cases "Build B cfg s"; cases "fst (Build B cfg s)") auto
  then show False using assms unfolding Build_def Let_def by (auto simp: bnd_Inr_iff or_close_Inr verifier_New_def split: option.splits)
qed

text \<open>C13. Without an account the verdict is about this machine only: the exit code of a diagnosis is the same whatever the network does, whatever
  the control plane answers, and whether or not a client for it can be built, a client certificate that does not match its key included, with
  which the service does not start.\<close>

theorem doctor_ignores_network:
  assumes "\<forall>vals rest. flag_Parse [(''account'', False), (''probe-workspace'', False)] [] args = Some (vals, rest) \<longrightarrow> flag_String vals ''account'' = []"
  shows "fst (cmdDoctor (other_network dial info decode probe exchange pool pair D) args r) = fst (cmdDoctor D args r)
    \<and> (\<not> NewHTTPClient (be_cli B) vopts \<and> VerifierOptionsFromConfig (be_cli B) cfg = Some vopts \<longrightarrow> isl (fst (Build B cfg s)))"
proof
  let ?D = "other_network dial info decode probe exchange pool pair D" and ?g = "ca_globals (de_cli D)"
  show "fst (cmdDoctor ?D args r) = fst (cmdDoctor D args r)"
  proof (cases "flag_Parse [(''account'', False), (''probe-workspace'', False)] [] args")
    case None
    then show ?thesis by (simp add: cmdDoctor_def)
  next
    case (Some vr)
    obtain vals rest where v: "flag_Parse [(''account'', False), (''probe-workspace'', False)] [] args = Some (vals, rest)" using Some by (cases vr) auto
    have a: "flag_String vals ''account'' = []" using assms v by blast
    show ?thesis
    proof (cases "parse_at (de_cli D) (doctor_path ?g)")
      case None
      then show ?thesis using v by (simp add: cmdDoctor_def Let_def)
    next
      case (Some f0)
      let ?w = "flag_String vals ''probe-workspace''"
      define fin where "fin = (\<lambda>_ :: unit. bnd (gets dr_failures) (\<lambda>n. ret (if 0 < n then exitError else exitOK)) :: int dm)"
      have e: "cmdDoctor X args r = bnd (report_emit ''config-parse'' statusPass) (\<lambda>_. bnd (doctor_environment D (ApplyStateDir (gl_stateDir ?g) f0)) (\<lambda>cfg.
          bnd (doctor_validate D cfg) (\<lambda>_. bnd (doctor_checks X [] ?w cfg) fin))) r" if "X = D \<or> X = ?D" for X
        using that v a Some by (auto simp: cmdDoctor_def Let_def fin_def)
      have tail: "fst (bnd (doctor_checks ?D [] ?w cfg) fin u) = fst (bnd (doctor_checks D [] ?w cfg) fin u)" for cfg u
      proof -
        have "alike u u" by (simp add: alike_def)
        then obtain x x' t t' where "doctor_checks D [] ?w cfg u = (Inr x, t)" "doctor_checks ?D [] ?w cfg u = (Inr x', t')" "alike t t'"
          using sim_checks [of D ?w cfg dial info decode probe exchange pool pair] unfolding sim_def by blast
        then show ?thesis by (simp add: fin_def alike_def)
      qed
      show ?thesis unfolding e [OF disjI1 [OF HOL.refl]] e [OF disjI2 [OF HOL.refl]]
        by (simp add: bnd_def [of "report_emit _ _"] bnd_def [of "doctor_environment _ _"] bnd_def [of "doctor_validate _ _"] tail split: prod.split sum.split)
    qed
  qed
  show "\<not> NewHTTPClient (be_cli B) vopts \<and> VerifierOptionsFromConfig (be_cli B) cfg = Some vopts \<longrightarrow> isl (fst (Build B cfg s))"
    using Build_needs_client by blast
qed

theorem doctor_ignores_network_witness:
  "fst (cmdDoctor (other_network (\<lambda>_ _ _. False) (\<lambda>_. None) (\<lambda>_. None) (\<lambda>_ _ _ _ _. ProbeSilent) (ca_exchange demo_cli) False (\<lambda>_ _. False) demo_doctor)
       [''--probe-workspace'', ''dev''] (new_report (cx_store demo_run)))
   = fst (cmdDoctor demo_doctor [''--probe-workspace'', ''dev''] (new_report (cx_store demo_run)))"
proof -
  have v: "flag_Parse [(''account'', False), (''probe-workspace'', False)] [] [''--probe-workspace'', ''dev''] = Some ([(''probe-workspace'', ''dev'')], [])"
    by code_simp
  have "\<forall>vals rest. flag_Parse [(''account'', False), (''probe-workspace'', False)] [] [''--probe-workspace'', ''dev''] = Some (vals, rest) \<longrightarrow> flag_String vals ''account'' = []"
    unfolding v by (auto simp: flag_String_def)
  from doctor_ignores_network [OF this] show ?thesis by blast
qed

section \<open>The state directory of a command\<close>

lemma Abs_abs: "filepath_Abs cwd p = Some d \<Longrightarrow> (\<And>c. cwd = Some c \<Longrightarrow> filepath_IsAbs c) \<Longrightarrow> filepath_IsAbs d"
proof -
  assume a: "filepath_Abs cwd p = Some d" "\<And>c. cwd = Some c \<Longrightarrow> filepath_IsAbs c"
  show "filepath_IsAbs d"
  proof (cases "filepath_IsAbs p")
    case True
    then show ?thesis using a(1) Clean_abs by (auto simp: filepath_Abs_def)
  next
    case False
    then obtain c where "cwd = Some c" "d = filepath_Join c p" using a(1) by (auto simp: filepath_Abs_def split: option.splits)
    moreover from this a(2) have "filepath_IsAbs c" "c \<noteq> []" "filepath_IsAbs (c @ q)" for q by (auto simp: filepath_IsAbs_def HasPrefix_def) (cases c; simp)+
    ultimately show ?thesis using Clean_abs by (auto simp: filepath_Join_def)
  qed
qed

lemma globals_abs:
  assumes "parseGlobalFlags cwd c args = Some (c', rest)" "\<And>d. cwd = Some d \<Longrightarrow> filepath_IsAbs d" "gl_stateDir c = [] \<or> filepath_IsAbs (gl_stateDir c)"
  shows "gl_stateDir c' = [] \<or> filepath_IsAbs (gl_stateDir c')"
  using assms
proof (induction cwd c args rule: parseGlobalFlags.induct)
  case (2 cwd c a args)
  have g: "gl_stateDir x = [] \<or> filepath_IsAbs (gl_stateDir x)" if "set_global cwd n v c = Some x" for n v x
    using that 2(5) Abs_abs [OF _ 2(4)] by (auto simp: set_global_def split: if_splits)
  show ?case using 2 g by (auto split: if_splits list.splits option.splits prod.splits)
qed simp

text \<open>Whatever the flags and the environment say, a command runs with an absolute state directory or none.\<close>

lemma Run_state_dir:
  assumes "app_Run cwd getenv args = Inr (c, cmd, rest)" "\<And>d. cwd = Some d \<Longrightarrow> filepath_IsAbs d"
  shows "gl_stateDir c = [] \<or> filepath_IsAbs (gl_stateDir c)"
proof -
  obtain c0 where c0: "parseGlobalFlags cwd no_globals args = Some (c0, cmd # rest)"
    and c: "gl_stateDir c = gl_stateDir c0 \<or> (\<exists>e. filepath_Abs cwd e = Some (gl_stateDir c))"
    using assms(1) by (fastforce simp: app_Run_def split: option.splits list.splits if_splits)
  have "gl_stateDir c0 = [] \<or> filepath_IsAbs (gl_stateDir c0)" using globals_abs [OF c0 assms(2)] by (simp add: no_globals_def)
  then show ?thesis using c Abs_abs [OF _ assms(2)] by auto
qed

end
