(* ===== verification/InitProps.thy ===== *)
theory InitProps
  imports Init CliProps
begin

text \<open>
  What the init command does to files: an existing file keeps its contents unless its replacement was confirmed, a file that
  is written appears under its name complete and with mode 0600 or not at all, whatever system calls fail, and success means that
  both secrets are in place with that mode.
\<close>

section \<open>Paths\<close>

definition last_segment :: "string \<Rightarrow> string" where
  "last_segment p = rev (takeWhile (\<lambda>c. c \<noteq> CHR ''/'') (rev p))"

lemma takeWhile_whole: "CHR ''/'' \<notin> set b \<Longrightarrow> takeWhile (\<lambda>c. c \<noteq> CHR ''/'') (rev b) = rev b"
  by (rule takeWhile_eq_all_conv [THEN iffD2]) auto

lemma last_segment_append: "CHR ''/'' \<notin> set b \<Longrightarrow> last_segment (a @ ''/'' @ b) = b"
  by (simp add: last_segment_def takeWhile_tail takeWhile_whole)

lemma digits_no_slash: "CHR ''/'' \<notin> set (show_nat n)"
proof
  assume "CHR ''/'' \<in> set (show_nat n)"
  then obtain d where "d < 10" "CHR ''/'' = digit_char d" using show_nat_digits by blast
  then have "digit_of (CHR ''/'') = Some d" by simp
  then show False by (simp add: digit_of_def less_eq_char_def)
qed

lemma Base_cases: "filepath_Base p = ''/'' \<and> set p \<subseteq> {CHR ''/''} \<or> CHR ''/'' \<notin> set (filepath_Base p)"
proof -
  let ?q = "dropWhile (\<lambda>c. c = CHR ''/'') (rev p)"
  have n: "CHR ''/'' \<notin> set (rev (takeWhile (\<lambda>c. c \<noteq> CHR ''/'') ?q))" by (auto dest: set_takeWhileD)
  show ?thesis
  proof (cases ?q)
    case Nil
    then have "\<forall>c\<in>set (rev p). c = CHR ''/''" by (simp only: dropWhile_eq_Nil_conv)
    then have "set p \<subseteq> {CHR ''/''}" by auto
    then show ?thesis by (cases "p = []") (simp_all add: filepath_Base_def Nil)
  next
    case (Cons c q)
    then have "c \<noteq> CHR ''/''" using hd_dropWhile [of "\<lambda>c. c = CHR ''/''" "rev p"] by simp
    then have "takeWhile (\<lambda>c. c \<noteq> CHR ''/'') ?q \<noteq> []" using Cons by simp
    moreover have "p \<noteq> []" using Cons by auto
    ultimately show ?thesis using n by (simp add: filepath_Base_def)
  qed
qed

lemma temp_path_other: "temp_path dir (filepath_Base p) r \<noteq> p"
proof
  assume e: "temp_path dir (filepath_Base p) r = p"
  define tail where "tail = ''.tmp-'' @ filepath_Base p @ ''.'' @ show_nat (unat r)"
  obtain d where d: "p = d @ ''/'' @ tail"
  proof (cases "HasSuffix dir ''/''")
    case True
    then obtain d where "dir = d @ ''/''" by (auto simp: HasSuffix_iff)
    then show ?thesis using that [of d] e True by (simp add: temp_path_def tail_def)
  next
    case False
    then show ?thesis using that [of dir] e by (simp add: temp_path_def tail_def)
  qed
  have "CHR ''.'' \<in> set tail" by (simp add: tail_def)
  then have "\<not> set p \<subseteq> {CHR ''/''}" by (auto simp: d)
  then have b: "CHR ''/'' \<notin> set (filepath_Base p)" using Base_cases [of p] by blast
  then have t: "CHR ''/'' \<notin> set tail" using digits_no_slash by (auto simp: tail_def)
  have "tail \<noteq> []" by (simp add: tail_def)
  then obtain c q where q: "rev tail = c # q" by (cases "rev tail") auto
  have "c \<in> set (rev tail)" using q by (metis list.set_intros(1))
  then have "c \<noteq> CHR ''/''" using t by auto
  moreover have "rev p = c # q @ rev (d @ ''/'')" using d q by simp
  ultimately have "dropWhile (\<lambda>c. c = CHR ''/'') (rev p) = rev p" by simp
  moreover have "takeWhile (\<lambda>c. c \<noteq> CHR ''/'') (rev p) = rev tail" using t by (simp add: d takeWhile_tail takeWhile_whole)
  ultimately have "filepath_Base p = tail" using d \<open>tail \<noteq> []\<close> by (simp add: filepath_Base_def Let_def)
  then have "length (filepath_Base p) = length tail" by simp
  then show False by (simp add: tail_def)
qed

text \<open>A temporary file is hidden, the artifacts are not.\<close>

definition hidden :: "string \<Rightarrow> bool" where
  "hidden p \<longleftrightarrow> HasPrefix (last_segment p) ''.''"

lemma temp_hidden: "hidden (temp_path dir (filepath_Base p) r)"
proof -
  obtain d where t: "temp_path dir b r = d @ ''/'' @ ''.tmp-'' @ b @ ''.'' @ show_nat (unat r)" for b
  proof (cases "HasSuffix dir ''/''")
    case True
    then obtain d where "dir = d @ ''/''" by (auto simp: HasSuffix_iff)
    then show ?thesis using that [of d] True by (simp add: temp_path_def)
  next
    case False
    then show ?thesis using that [of dir] by (simp add: temp_path_def)
  qed
  have b: "last_segment (temp_path dir (filepath_Base p) r) = (if CHR ''/'' \<in> set (filepath_Base p) then ''.'' @ show_nat (unat r)
     else ''.tmp-'' @ filepath_Base p @ ''.'' @ show_nat (unat r))"
    using Base_cases [of p] digits_no_slash [of "unat r"] last_segment_append [of "''.'' @ show_nat (unat r)" "d @ ''/.tmp-''"]
      last_segment_append [of "''.tmp-'' @ filepath_Base p @ ''.'' @ show_nat (unat r)" d]
    by (cases "CHR ''/'' \<in> set (filepath_Base p)") (simp_all add: t)
  show ?thesis by (simp add: hidden_def b HasPrefix_def)
qed

text \<open>The three artifacts have different paths.\<close>

lemma Split_app: "Split c (x @ c # r) = Split c x @ Split c r"
proof (induction x)
  case (Cons y x)
  then show ?case by (cases "Split c x") auto
qed simp

lemma Join_snoc: "Join c (xs @ [x]) = (if xs = [] then x else Join c xs @ c @ x)"
  by (induction xs rule: induct_list012) auto

lemma Clean_last:
  assumes "name \<noteq> []" "name \<noteq> ''.''" "name \<noteq> ''..''" "CHR ''/'' \<notin> set name"
  shows "last_segment (filepath_Clean (a @ ''/'' @ name)) = name"
proof -
  define st where "st = fold (clean_step (filepath_IsAbs (a @ ''/'' @ name))) (Split (CHR ''/'') a) []"
  have "Split (CHR ''/'') (a @ ''/'' @ name) = Split (CHR ''/'') a @ [name]" using Split_app [of "CHR ''/''" a name] Split_unsplit [OF assms(4)] by simp
  then have f: "fold (clean_step (filepath_IsAbs (a @ ''/'' @ name))) (Split (CHR ''/'') (a @ ''/'' @ name)) [] = name # st"
    using assms by (simp add: st_def clean_step_def)
  have j: "Join ''/'' (rev st @ [name]) \<noteq> []" using assms(1) by (simp add: Join_snoc)
  have "last_segment (CHR ''/'' # Join ''/'' (rev st @ [name])) = name" "rev st = [] \<or> last_segment (Join ''/'' (rev st @ [name])) = name"
    using last_segment_append [OF assms(4)] last_segment_append [OF assms(4), of "[]"] last_segment_append [OF assms(4), of "CHR ''/'' # Join ''/'' (rev st)"]
    by (simp_all add: Join_snoc)
  moreover have "last_segment name = name" using assms(4) by (simp add: last_segment_def takeWhile_whole)
  ultimately show ?thesis using j unfolding filepath_Clean_def Let_def f rev.simps by (cases "rev st") auto
qed

lemma artifact_paths:
  assumes "dir \<noteq> []"
  shows "DefaultHostKeyPath dir \<noteq> DefaultEncryptionKeyPath dir" "DefaultHostKeyPath dir \<noteq> DefaultConfigPath dir" "DefaultEncryptionKeyPath dir \<noteq> DefaultConfigPath dir"
    "\<not> hidden (DefaultHostKeyPath dir)" "\<not> hidden (DefaultEncryptionKeyPath dir)" "\<not> hidden (DefaultConfigPath dir)"
proof -
  have "last_segment (DefaultHostKeyPath dir) = ''ssh_host_ed25519_key''" "last_segment (DefaultEncryptionKeyPath dir) = ''credential-key-v1''"
    "last_segment (DefaultConfigPath dir) = ''config.yaml''"
    using assms Clean_last [of "''ssh_host_ed25519_key''" "dir @ ''/secrets''"] Clean_last [of "''credential-key-v1''" "dir @ ''/secrets''"]
      Clean_last [of "''config.yaml''" dir]
    by (simp_all add: DefaultHostKeyPath_def DefaultEncryptionKeyPath_def DefaultConfigPath_def filepath_Join_def)
  then show "DefaultHostKeyPath dir \<noteq> DefaultEncryptionKeyPath dir" "DefaultHostKeyPath dir \<noteq> DefaultConfigPath dir" "DefaultEncryptionKeyPath dir \<noteq> DefaultConfigPath dir"
    "\<not> hidden (DefaultHostKeyPath dir)" "\<not> hidden (DefaultEncryptionKeyPath dir)" "\<not> hidden (DefaultConfigPath dir)"
    by (auto simp: hidden_def HasPrefix_def)
qed

section \<open>The domain\<close>

text \<open>Nothing but letters, digits, hyphens, dots, colons and slashes reaches the starter configuration: a domain cannot add a line
  or a comment to it.\<close>

lemma domain_chars:
  assumes "coderURLFromDomain L parse domain = Some u"
  shows "set u \<subseteq> {c. label_char c} \<union> {CHR ''.'', CHR '':'', CHR ''/''}"
proof -
  obtain parts where p: "parse (''https://'' @ domain) = Some parts" using assms by (auto simp: coderURLFromDomain_def split: if_splits option.splits)
  define host where "host = TrimSuffix (ToLower L (fst (splitHostPort (up_Host parts)))) ''.''"
  define port where "port = snd (splitHostPort (up_Host parts))"
  have v: "validDNSDomain host" and u: "u = ''https://'' @ host @ (if port = [] then [] else CHR '':'' # port)"
    using assms p by (auto simp: coderURLFromDomain_def Let_def host_def port_def split: if_splits)
  have "\<forall>l\<in>set (Split (CHR ''.'') host). set l \<subseteq> {c. label_char c}" using v by (auto simp: validDNSDomain_def Let_def list_all_iff)
  then have "set host \<subseteq> {c. label_char c} \<union> {CHR ''.''}" using set_Join [of "''.''" "Split (CHR ''.'') host"] by auto
  moreover have "\<forall>d\<in>set port. label_char d"
    by (auto simp: port_def splitHostPort_def Let_def validOptionalPort_def label_char_def list_all_iff split: if_splits)
  ultimately show ?thesis unfolding u by (auto simp: label_char_def less_eq_char_def)
qed

lemma Split_terminated:
  "\<forall>x\<in>set ls. c \<notin> set x \<Longrightarrow> Split c (concat (map (\<lambda>l. l @ [c]) ls)) = ls @ [[]]"
  by (induction ls) (simp_all add: Split_append)

lemma starter_config_lines:
  "\<exists>before after. \<forall>L parse domain u. coderURLFromDomain L parse domain = Some u \<longrightarrow>
     Split (CHR 0x0A) (starterConfig u) = before @ (''  coder_url: '' @ u) # after"
proof (intro exI allI impI)
  fix L parse domain u assume a: "coderURLFromDomain L parse domain = Some u"
  have "\<not> label_char (CHR 0x0A)" by (simp add: label_char_def less_eq_char_def)
  then have "CHR 0x0A \<notin> set u" using domain_chars [OF a] by auto
  then have "\<forall>x\<in>set (starter_lines u). CHR 0x0A \<notin> set x" by (simp add: starter_lines_def)
  from Split_terminated [OF this]
  have "Split (CHR 0x0A) (starterConfig u) = starter_lines u @ [[]]" by (simp add: starterConfig_def)
  also have "\<dots> = take 25 (starter_lines []) @ (''  coder_url: '' @ u) # drop 26 (starter_lines []) @ [[]]" by (simp add: starter_lines_def)
  finally show "Split (CHR 0x0A) (starterConfig u) = take 25 (starter_lines []) @ (''  coder_url: '' @ u) # drop 26 (starter_lines []) @ [[]]" .
qed

section \<open>Creating directories\<close>

text \<open>Nothing but directories was added, under paths that were free.\<close>

definition dirs_added :: "(string \<rightharpoonup> pathNode) \<Rightarrow> initRun \<Rightarrow> bool" where
  "dirs_added f s \<longleftrightarrow> (\<forall>q. iw_paths s q = f q \<or> f q = None \<and> (\<exists>m. iw_paths s q = Some (PathDir m)))"

lemma path_call_run: "path_call E s = (if ie_fault E (iw_tick s) then Inl PathIO else Inr (), s\<lparr>iw_tick := Suc (iw_tick s)\<rparr>)"
  by (simp add: path_call_def)

lemma path_Stat_run:
  "path_Stat E p s = (if ie_fault E (iw_tick s) then Inl PathIO else case iw_paths s p of None \<Rightarrow> Inl PathNotExist | Some n \<Rightarrow> Inr n,
     s\<lparr>iw_tick := Suc (iw_tick s)\<rparr>)"
  by (simp add: path_Stat_def bnd_def path_call_def split: option.split)

lemma path_reads_keep [keeps_intros]: "keeps (dirs_added f) (path_call E)" "keeps (dirs_added f) (path_Stat E p)"
  by (simp_all add: keeps_def dirs_added_def path_call_run path_Stat_run)

lemma Chmod_run:
  "path_Chmod E p m s = (if ie_fault E (iw_tick s) then (Inl PathIO, s\<lparr>iw_tick := Suc (iw_tick s)\<rparr>)
     else case iw_paths s p of None \<Rightarrow> (Inl PathNotExist, s\<lparr>iw_tick := Suc (iw_tick s)\<rparr>)
       | Some n \<Rightarrow> (Inr (), s\<lparr>iw_tick := Suc (iw_tick s), iw_paths := (iw_paths s)(p \<mapsto> with_mode m n)\<rparr>))"
  by (simp add: path_Chmod_def bnd_def path_Stat_run set_paths_def split: option.split)

lemma Chmod_keeps [keeps_intros]: "f p = None \<Longrightarrow> keeps (dirs_added f) (path_Chmod E p m)"
proof (rule keepsI)
  fix s assume f: "f p = None" and s: "dirs_added f s"
  show "dirs_added f (snd (path_Chmod E p m s))"
  proof (cases "iw_paths s p")
    case (Some n)
    then obtain k where "n = PathDir k" using f s unfolding dirs_added_def by (metis option.distinct(1) option.inject)
    then show ?thesis using f s Some by (simp add: Chmod_run with_mode_def dirs_added_def)
  qed (use s in \<open>simp add: Chmod_run dirs_added_def\<close>)
qed

lemma Mkdir_keeps [keeps_intros]: "keeps (dirs_added f) (path_Mkdir E p m)"
proof (rule keepsI)
  fix s assume s: "dirs_added f s"
  have "f p = None" if "iw_paths s p = None" using s that by (metis dirs_added_def option.distinct(1))
  then show "dirs_added f (snd (path_Mkdir E p m s))"
    using s by (cases "iw_paths s p") (simp_all add: path_Mkdir_def bnd_def path_call_run set_paths_def dirs_added_def)
qed

lemma mkdir_chain_keeps: "keeps (dirs_added f) (mkdir_chain E m ps)"
proof (induction ps)
  case (Cons p ps)
  have c: "keeps (dirs_added f) (case r of Inr (PathDir _) \<Rightarrow> a | Inr (PathFile _ _) \<Rightarrow> b | Inl _ \<Rightarrow> c)"
    if "keeps (dirs_added f) a" "keeps (dirs_added f) b" "keeps (dirs_added f) c" for r :: "pathError + pathNode" and a b c :: "unit pathm"
    using that by (auto split: sum.split pathNode.split)
  show ?case unfolding mkdir_chain.simps by (intro keeps_intros c Cons.IH)
qed (simp add: keeps_def)

lemma ensureDir_keeps [keeps_intros]: "keeps (dirs_added f) (ensureDir E p m)"
proof (rule keepsI)
  fix s assume s: "dirs_added f s"
  show "dirs_added f (snd (ensureDir E p m s))"
  proof (cases "fst (path_Stat E p s) = Inl PathNotExist")
    case True
    then have "iw_paths s p = None" by (auto simp: path_Stat_run split: if_splits option.splits)
    then have "f p = None" using s by (metis dirs_added_def option.distinct(1))
    then have "keeps (dirs_added f) (ensureDir E p m)" unfolding ensureDir_def path_MkdirAll_def by (intro keeps_intros mkdir_chain_keeps)
    then show ?thesis using s by (rule keepsD)
  next
    case False
    have k: "keeps (dirs_added f) (bnd (path_MkdirAll E p m) (\<lambda>_. ret ()))" unfolding path_MkdirAll_def by (intro keeps_intros mkdir_chain_keeps)
    have "ensureDir E p m s = bnd (path_MkdirAll E p m) (\<lambda>_. ret ()) (snd (path_Stat E p s))"
      using False by (simp add: ensureDir_def bnd_def [of "attempt (path_Stat E p)"])
    then show ?thesis using keepsD [OF k keepsD [OF path_reads_keep(2) s]] by simp
  qed
qed

section \<open>Writing a secret\<close>

lemma CreateTemp_run:
  assumes "path_CreateTemp E dir base s = (r, t)"
  shows "r = Inl e \<Longrightarrow> iw_paths t = iw_paths s"
    "r = Inr tmp \<Longrightarrow> tmp = temp_path dir base (ie_rand E (Suc (iw_tick s))) \<and> iw_paths s tmp = None \<and> (\<exists>m. iw_paths t = (iw_paths s)(tmp \<mapsto> PathFile [] m))"
  using assms by (auto simp: path_CreateTemp_def bnd_def path_call_run set_paths_def split: if_splits prod.splits)

lemma Write_run:
  assumes "path_Write E p data s = (r, t)" "iw_paths s p = Some (PathFile b m)"
  shows "\<exists>d. iw_paths t = (iw_paths s)(p \<mapsto> PathFile d m) \<and> (r = Inr () \<longrightarrow> d = data)"
  using assms by (auto simp: path_Write_def bnd_def path_call_run set_paths_def Let_def split: if_splits)

lemma Rename_run:
  assumes "path_Rename E old new s = (r, t)" "iw_paths s old = Some n"
  shows "r = Inr () \<and> iw_paths t = ((iw_paths s)(old := None))(new \<mapsto> n) \<or> isl r \<and> iw_paths t = iw_paths s"
  using assms by (auto simp: path_Rename_def bnd_def path_call_run set_paths_def split: if_splits option.splits pathNode.splits)

text \<open>The steps change the temporary file only, until the rename puts the whole data under the name.\<close>

lemma secret_steps_run:
  assumes "secret_steps E tmp p data s = (r, t)" "iw_paths s tmp = Some (PathFile b m)"
  shows "r = Inr () \<and> iw_paths t = ((iw_paths s)(tmp := None))(p \<mapsto> PathFile data 0x180)
    \<or> isl r \<and> (\<exists>n. iw_paths t = (iw_paths s)(tmp \<mapsto> n))"
proof -
  have idle: "\<exists>n. iw_paths s = (iw_paths s)(tmp \<mapsto> n)" using assms(2) by (metis fun_upd_triv)
  from assms(1) show ?thesis unfolding secret_steps_def
  proof (elim bndE)
    fix e assume "path_Chmod E tmp 0x180 s = (Inl e, t)" "r = Inl e"
    then show ?thesis using idle assms(2) by (auto simp: Chmod_run split: if_splits)
  next
    fix a :: unit and u e assume u: "path_Chmod E tmp 0x180 s = (Inr a, u)" and "path_Write E tmp data u = (Inl e, t)" "r = Inl e"
    then show ?thesis using Write_run [of E tmp data u "Inl e" t b "0x180"] assms(2)
      by (auto simp: Chmod_run with_mode_def split: if_splits)
  next
    fix a b' :: unit and u v e assume "path_Chmod E tmp 0x180 s = (Inr a, u)" "path_Write E tmp data u = (Inr b', v)" "path_call E v = (Inl e, t)" "r = Inl e"
    then show ?thesis using Write_run [of E tmp data u "Inr ()" v b "0x180"] assms(2)
      by (auto simp: Chmod_run path_call_run with_mode_def split: if_splits)
  next
    fix a b' c :: unit and u v w e assume "path_Chmod E tmp 0x180 s = (Inr a, u)" "path_Write E tmp data u = (Inr b', v)" "path_call E v = (Inr c, w)"
      "path_call E w = (Inl e, t)" "r = Inl e"
    then show ?thesis using Write_run [of E tmp data u "Inr ()" v b "0x180"] assms(2)
      by (auto simp: Chmod_run path_call_run with_mode_def split: if_splits)
  next
    fix a b' c d :: unit and u v w x assume a: "path_Chmod E tmp 0x180 s = (Inr a, u)" "path_Write E tmp data u = (Inr b', v)" "path_call E v = (Inr c, w)"
      "path_call E w = (Inr d, x)" and ren: "path_Rename E tmp p x = (r, t)"
    have x: "iw_paths x = (iw_paths s)(tmp \<mapsto> PathFile data 0x180)"
      using a Write_run [of E tmp data u "Inr ()" v b "0x180"] assms(2) by (auto simp: Chmod_run path_call_run with_mode_def split: if_splits)
    then show ?thesis using Rename_run [OF ren, of "PathFile data 0x180"] by auto
  qed
qed

lemma Remove_run: "path_Remove E p s = (r, t) \<Longrightarrow> iw_paths t = iw_paths s \<or> iw_paths t = (iw_paths s)(p := None)"
  by (auto simp: path_Remove_def bnd_def path_call_run set_paths_def split: if_splits)

lemma absent_check_run:
  assumes "absent_check E p overwrite s = (r, t)"
  shows "iw_paths t = iw_paths s" "r = Inr () \<Longrightarrow> overwrite \<or> iw_paths s p = None"
  using assms by (auto simp: absent_check_def bnd_def path_Stat_run split: if_splits option.splits sum.splits)

text \<open>The outcome of a write: other nodes are as they were, and under the name is what was there or the complete file.\<close>

definition written :: "string \<Rightarrow> bytes \<Rightarrow> bool \<Rightarrow> (string \<rightharpoonup> pathNode) \<Rightarrow> (string \<rightharpoonup> pathNode) \<Rightarrow> bool \<Rightarrow> bool" where
  "written p data overwrite f g done \<longleftrightarrow> (\<forall>q. q \<noteq> p \<longrightarrow> g q = f q \<or> f q = None \<and> hidden q)
     \<and> (g p = f p \<or> g p = Some (PathFile data 0x180) \<and> (overwrite \<or> f p = None))
     \<and> (done \<longrightarrow> g p = Some (PathFile data 0x180))"

lemma writeSecretFile_run:
  assumes "writeSecretFile E p data overwrite s = (r, t)"
  shows "written p data overwrite (iw_paths s) (iw_paths t) (r = Inr ())"
  using assms unfolding writeSecretFile_def
proof (elim bndE)
  fix e assume "absent_check E p overwrite s = (Inl e, t)" "r = Inl e"
  then show ?thesis using absent_check_run [of E p overwrite s] by (auto simp: written_def)
next
  fix a u e assume "absent_check E p overwrite s = (Inr a, u)" "path_CreateTemp E (filepath_Dir p) (filepath_Base p) u = (Inl e, t)" "r = Inl e"
  then show ?thesis using absent_check_run [of E p overwrite s] CreateTemp_run(1) by (fastforce simp: written_def)
next
  fix a u tmp v e assume a: "attempt (secret_steps E tmp p data) v = (Inl e, t)"
  then show ?thesis by simp
next
  fix a u tmp v r' w
  assume c: "absent_check E p overwrite s = (Inr a, u)" and tmp: "path_CreateTemp E (filepath_Dir p) (filepath_Base p) u = (Inr tmp, v)"
    and st: "attempt (secret_steps E tmp p data) v = (Inr r', w)"
    and fin: "(case r' of Inl e \<Rightarrow> bnd (attempt (path_Remove E tmp)) (\<lambda>_. raise e) | Inr _ \<Rightarrow> bnd (path_call E) (\<lambda>_. path_call E)) w = (r, t)"
  have u: "iw_paths u = iw_paths s" "overwrite \<or> iw_paths s p = None" using absent_check_run [OF c] by auto
  obtain m where v: "iw_paths s tmp = None" "tmp \<noteq> p" "iw_paths v = (iw_paths s)(tmp \<mapsto> PathFile [] m)" "hidden tmp"
    using CreateTemp_run(2) [OF tmp refl] u temp_path_other temp_hidden by metis
  have st': "secret_steps E tmp p data v = (r', w)" using st by (cases "secret_steps E tmp p data v") simp
  show ?thesis
  proof (cases r')
    case (Inl e)
    then obtain n where w: "iw_paths w = (iw_paths s)(tmp \<mapsto> n)" using secret_steps_run [OF st'] v by auto
    obtain x where x: "path_Remove E tmp w = (x, t)" "r = Inl e" using fin Inl by (cases "path_Remove E tmp w") (auto simp: bnd_def)
    show ?thesis using Remove_run [OF x(1)] x(2) w v by (auto simp: written_def split: if_splits)
  next
    case (Inr x)
    then have w: "iw_paths w = ((iw_paths s)(tmp := None))(p \<mapsto> PathFile data 0x180)" using secret_steps_run [OF st'] v by auto
    have "iw_paths t = iw_paths w" using fin Inr by (auto simp: bnd_def path_call_run split: if_splits)
    then show ?thesis using w v u(2) by (auto simp: written_def split: if_splits)
  qed
qed

section \<open>One artifact\<close>

text \<open>A line of the input says \<open>overwrite\<close>.\<close>

definition confirms :: "golib \<Rightarrow> bytes \<Rightarrow> bool" where
  "confirms L input \<longleftrightarrow> (\<exists>l\<in>set (Split (CHR 0x0A) input). TrimSpace L (trimLineEnd l) = ''overwrite'')"

definition node_data :: "pathNode \<Rightarrow> bytes option" where
  "node_data n = (case n of PathDir _ \<Rightarrow> None | PathFile b _ \<Rightarrow> Some b)"

definition node_mode :: "pathNode \<Rightarrow> fileMode" where
  "node_mode n = (case n of PathDir m \<Rightarrow> m | PathFile _ m \<Rightarrow> m)"

lemma with_mode_simps [simp]: "node_data (with_mode m n) = node_data n" "node_mode (with_mode m n) = m" "with_mode m (PathFile b k) = PathFile b m"
  by (simp_all add: node_data_def node_mode_def with_mode_def split: pathNode.split)

lemma trimLineEnd_newline: "trimLineEnd (l @ [CHR 0x0A]) = trimLineEnd l"
  by (simp add: trimLineEnd_def)

lemma dropWhile_at: "dropWhile (\<lambda>d. d \<noteq> c) x = a # r \<Longrightarrow> a = c"
  using hd_dropWhile [of "\<lambda>d. d \<noteq> c" x] by simp

lemma Split_first: "Split c x = takeWhile (\<lambda>d. d \<noteq> c) x # (case dropWhile (\<lambda>d. d \<noteq> c) x of [] \<Rightarrow> [] | _ # r \<Rightarrow> Split c r)"
proof (cases "dropWhile (\<lambda>d. d \<noteq> c) x")
  case Nil
  then have n: "\<forall>d\<in>set x. d \<noteq> c" by (simp only: dropWhile_eq_Nil_conv)
  then have t: "takeWhile (\<lambda>d. d \<noteq> c) x = x" "c \<notin> set x" by (auto simp: takeWhile_eq_all_conv)
  show ?thesis unfolding Nil t(1) using Split_unsplit [OF t(2)] by simp
next
  case (Cons a r)
  have "c \<notin> set (takeWhile (\<lambda>d. d \<noteq> c) x)" by (auto dest: set_takeWhileD)
  then have "Split c (takeWhile (\<lambda>d. d \<noteq> c) x @ c # r) = takeWhile (\<lambda>d. d \<noteq> c) x # Split c r" by (rule Split_append)
  moreover have "takeWhile (\<lambda>d. d \<noteq> c) x @ c # r = x" using Cons dropWhile_at [OF Cons] takeWhile_dropWhile_id [of "\<lambda>d. d \<noteq> c" x] by simp
  ultimately show ?thesis using Cons by simp
qed

lemma Split_takeWhile: "takeWhile (\<lambda>d. d \<noteq> c) x \<in> set (Split c x)"
  by (metis Split_first list.set_intros(1))

lemma Split_rest: "set (Split c (drop 1 (dropWhile (\<lambda>d. d \<noteq> c) x))) \<subseteq> set (Split c x) \<union> {[]}"
proof (cases "dropWhile (\<lambda>d. d \<noteq> c) x")
  case (Cons a r)
  have "set (Split c r) \<subseteq> set (takeWhile (\<lambda>d. d \<noteq> c) x # (case a # r of [] \<Rightarrow> [] | _ # r \<Rightarrow> Split c r))" by auto
  then show ?thesis using Split_first [of c x] unfolding Cons by (metis One_nat_def drop0 drop_Suc_Cons le_supI1)
next
  case Nil
  show ?thesis unfolding Nil by simp
qed

lemma readLine_run:
  assumes "readLine_cli c = (r, d)"
  shows "cx_store d = cx_store c" "\<exists>a. r = Inr a \<and> (\<forall>l. a = Some l \<and> TrimSpace L l = ''overwrite'' \<longrightarrow> confirms L (cx_stdin c))"
    "confirms L (cx_stdin d) \<Longrightarrow> confirms L (cx_stdin c)"
proof -
  let ?x = "cx_stdin c" and ?nl = "\<lambda>c. c \<noteq> CHR 0x0A"
  have d: "d = c\<lparr>cx_stdin := drop 1 (dropWhile ?nl ?x)\<rparr>" and r: "r = Inr (if ?x = [] then None else Some (trimLineEnd (takeWhile ?nl ?x @ take 1 (dropWhile ?nl ?x))))"
    using assms by (auto simp: readLine_cli_def Let_def)
  show "cx_store d = cx_store c" by (simp add: d)
  have "take 1 (dropWhile ?nl ?x) = [] \<or> take 1 (dropWhile ?nl ?x) = [CHR 0x0A]"
    using dropWhile_at [of "CHR 0x0A" ?x] by (cases "dropWhile ?nl ?x") simp_all
  then have "trimLineEnd (takeWhile ?nl ?x @ take 1 (dropWhile ?nl ?x)) = trimLineEnd (takeWhile ?nl ?x)" by (metis append_Nil2 trimLineEnd_newline)
  then show "\<exists>a. r = Inr a \<and> (\<forall>l. a = Some l \<and> TrimSpace L l = ''overwrite'' \<longrightarrow> confirms L (cx_stdin c))"
    unfolding confirms_def r using Split_takeWhile [of "CHR 0x0A" ?x] by auto
  have "TrimSpace L (trimLineEnd []) \<noteq> ''overwrite''" by (simp add: trimLineEnd_def TrimSpace_def)
  then show "confirms L (cx_stdin d) \<Longrightarrow> confirms L (cx_stdin c)"
    unfolding confirms_def d using Split_rest [of "CHR 0x0A" ?x] by auto
qed

text \<open>What one step may do to the node under its path, and what it guarantees when it succeeds.\<close>

definition stepped :: "bool \<Rightarrow> bool \<Rightarrow> bytes option \<Rightarrow> pathNode option \<Rightarrow> pathNode option \<Rightarrow> bool \<Rightarrow> bool" where
  "stepped replace secret gen old new ok \<longleftrightarrow>
     (new = old \<or> (\<exists>n. old = Some n \<and> new = Some (with_mode 0x180 n))
      \<or> (\<exists>data. gen = Some data \<and> new = Some (PathFile data 0x180) \<and> (replace \<or> old = None)))
     \<and> (ok \<longrightarrow> (\<exists>n. new = Some n \<and> (secret \<longrightarrow> node_mode n = 0x180)))"

definition others_kept :: "string \<Rightarrow> (string \<rightharpoonup> pathNode) \<Rightarrow> (string \<rightharpoonup> pathNode) \<Rightarrow> bool" where
  "others_kept p f g \<longleftrightarrow> (\<forall>q. q \<noteq> p \<longrightarrow> g q = f q \<or> f q = None \<and> hidden q)"

lemma on_paths_run: "m s = (r, t) \<Longrightarrow> on_paths m s = (Inr r, t)"
  by (simp add: on_paths_def)

lemma say_run [simp]: "bnd (init_say l) f s = f () (s\<lparr>iw_lines := iw_lines s @ [l]\<rparr>)"
  by (simp add: bnd_def init_say_def)

definition same_cli :: "cliRun \<Rightarrow> initRun \<Rightarrow> bool" where
  "same_cli c s \<longleftrightarrow> iw_cli s = c"

lemma cli_kept [keeps_intros]:
  "keeps (same_cli c) (path_call E)" "keeps (same_cli c) (path_Stat E p)" "keeps (same_cli c) (path_Chmod E p m)"
  "keeps (same_cli c) (set_paths f)" "keeps (same_cli c) (init_say l)"
  by (simp_all add: keeps_def same_cli_def path_call_run path_Stat_run Chmod_run set_paths_def init_say_def split: option.split)

lemma on_paths_keeps [keeps_intros]: "keeps P m \<Longrightarrow> keeps P (on_paths m)"
  by (fastforce simp: keeps_def on_paths_def split: prod.split)

lemma writes_keep_cli [keeps_intros]: "keeps (same_cli c) (writeSecretFile E p data b)"
proof -
  have r: "keeps (same_cli c) (path_Rename E o' n)" for o' n
    by (auto simp: keeps_def same_cli_def path_Rename_def bnd_def path_call_run set_paths_def split: option.split pathNode.split)
  have w: "keeps (same_cli c) (path_Write E p' d)" for p' d
    by (auto simp: keeps_def same_cli_def path_Write_def bnd_def path_call_run set_paths_def Let_def)
  show ?thesis unfolding writeSecretFile_def absent_check_def path_CreateTemp_def secret_steps_def path_Remove_def by (intro keeps_intros r w)
qed

lemma write_artifact_run:
  assumes "write_artifact E p what b gen s = (r, t)" "b \<or> iw_paths s p = None"
  shows "\<exists>ok. r = Inr ok \<and> others_kept p (iw_paths s) (iw_paths t) \<and> iw_cli t = iw_cli s
    \<and> (iw_paths t p = iw_paths s p \<or> (\<exists>data. gen = Some data \<and> iw_paths t p = Some (PathFile data 0x180))) \<and> (ok \<longrightarrow> (\<exists>data. iw_paths t p = Some (PathFile data 0x180)))"
proof (cases gen)
  case None
  then have t: "r = Inr False" "t = s\<lparr>iw_lines := iw_lines s @ [InitStepFailed what]\<rparr>"
    using assms(1) by (simp_all add: write_artifact_def)
  show ?thesis unfolding t by (auto simp: others_kept_def)
next
  case (Some data)
  obtain x u where u: "writeSecretFile E p data b s = (x, u)" by fastforce
  have k: "iw_cli u = iw_cli s" using keepsD [OF writes_keep_cli, of "iw_cli s" s E p data b] u by (simp add: same_cli_def)
  have w: "bnd (on_paths (writeSecretFile E p data b)) f s = f x u" for f :: "_ \<Rightarrow> bool initm" using on_paths_run [of "writeSecretFile E p data b", OF u] by simp
  have "r = Inr (\<not> isl x) \<and> iw_paths t = iw_paths u \<and> iw_cli t = iw_cli u"
    using assms(1) unfolding write_artifact_def Some option.case w by (cases x) auto
  then show ?thesis using writeSecretFile_run [OF u] k Some by (cases x) (auto simp: written_def others_kept_def)
qed

definition step_result :: "initEnv \<Rightarrow> bool \<Rightarrow> string \<Rightarrow> bool \<Rightarrow> bytes option \<Rightarrow> initRun \<Rightarrow> int + bool \<Rightarrow> initRun \<Rightarrow> bool" where
  "step_result E force p secret gen s r t \<longleftrightarrow> (\<exists>ok. r = Inr ok \<and> others_kept p (iw_paths s) (iw_paths t) \<and> cx_store (iw_cli t) = cx_store (iw_cli s)
    \<and> (confirms (ca_lib (ie_cli E)) (cx_stdin (iw_cli t)) \<longrightarrow> confirms (ca_lib (ie_cli E)) (cx_stdin (iw_cli s)))
    \<and> stepped (force \<and> confirms (ca_lib (ie_cli E)) (cx_stdin (iw_cli s))) secret gen (iw_paths s p) (iw_paths t p) ok)"

text \<open>Each branch of a step, from the state \<open>u\<close> behind the first system call.\<close>

lemma step_kept:
  assumes run: "initStep E False p what secret gen s = (r, t)" and st: "on_paths (path_Stat E p) s = (Inr (Inr n), u)"
    and n: "iw_paths s p = Some n" and u: "iw_paths u = iw_paths s" "iw_cli u = iw_cli s"
  shows "step_result E False p secret gen s r t"
proof (cases secret)
  case True
  let ?g = "\<lambda>r. case r of Inl _ \<Rightarrow> bnd (init_say (InitStepFailed what)) (\<lambda>_. ret False) | Inr _ \<Rightarrow> bnd (init_say (InitKept what p True)) (\<lambda>_. ret True)"
  have ch: "bnd (on_paths (path_Chmod E p 0x180)) ?g u = (r, t)" using run st True by (simp add: initStep_def)
  show ?thesis
  proof (cases "ie_fault E (iw_tick u)")
    case True
    then have t: "r = Inr False" "t = u\<lparr>iw_tick := Suc (iw_tick u), iw_lines := iw_lines u @ [InitStepFailed what]\<rparr>"
      using ch by (simp_all add: on_paths_def Chmod_run bnd_def init_say_def)
    show ?thesis unfolding t step_result_def by (auto simp: u stepped_def others_kept_def)
  next
    case False
    then have t: "r = Inr True" "t = u\<lparr>iw_tick := Suc (iw_tick u), iw_paths := (iw_paths u)(p \<mapsto> with_mode 0x180 n), iw_lines := iw_lines u @ [InitKept what p True]\<rparr>"
      using ch n by (simp_all add: on_paths_def Chmod_run bnd_def init_say_def u)
    show ?thesis unfolding t step_result_def by (intro exI [of _ True]) (simp add: u stepped_def others_kept_def n)
  qed
next
  case False
  then have t: "r = Inr True" "t = u\<lparr>iw_lines := iw_lines u @ [InitKept what p False]\<rparr>" using run st by (simp_all add: initStep_def)
  show ?thesis unfolding t step_result_def by (intro exI [of _ True]) (simp add: u False stepped_def others_kept_def n)
qed

lemma step_forced:
  assumes run: "initStep E True p what secret gen s = (r, t)" and st: "on_paths (path_Stat E p) s = (Inr (Inr n), u)"
    and u: "iw_paths u = iw_paths s" "iw_cli u = iw_cli s"
  shows "step_result E True p secret gen s r t"
proof -
  let ?L = "ca_lib (ie_cli E)"
  define v where "v = u\<lparr>iw_lines := iw_lines u @ [InitPrompt what p]\<rparr>"
  obtain a d where d: "readLine_cli (iw_cli s) = (a, d)" by fastforce
  obtain ans where ans: "a = Inr ans" "\<And>l. ans = Some l \<Longrightarrow> TrimSpace ?L l = ''overwrite'' \<Longrightarrow> confirms ?L (cx_stdin (iw_cli s))"
    using readLine_run(2) [OF d, of ?L] by auto
  have "on_cli readLine_cli v = (Inr ans, v\<lparr>iw_cli := d\<rparr>)" using d ans(1) u by (simp add: on_cli_def v_def)
  then have rest: "(if (case ans of None \<Rightarrow> True | Some a \<Rightarrow> TrimSpace ?L a \<noteq> ''overwrite'')
     then bnd (init_say (InitNotConfirmed what)) (\<lambda>_. ret False) else write_artifact E p what True gen) (v\<lparr>iw_cli := d\<rparr>) = (r, t)"
    using run st by (simp add: initStep_def v_def)
  have v: "iw_paths (v\<lparr>iw_cli := d\<rparr>) = iw_paths s" "iw_cli (v\<lparr>iw_cli := d\<rparr>) = d" using u by (simp_all add: v_def)
  note rd = readLine_run(1) [OF d] readLine_run(3) [OF d, of ?L]
  show ?thesis
  proof (cases "case ans of None \<Rightarrow> True | Some a \<Rightarrow> TrimSpace ?L a \<noteq> ''overwrite''")
    case True
    then have t: "r = Inr False" "t = v\<lparr>iw_cli := d, iw_lines := iw_lines v @ [InitNotConfirmed what]\<rparr>" using rest by (simp_all split: if_splits)
    show ?thesis unfolding t step_result_def using rd v by (auto simp: stepped_def others_kept_def)
  next
    case False
    then obtain l where "ans = Some l" "TrimSpace ?L l = ''overwrite''" by (auto split: option.splits)
    then have c: "confirms ?L (cx_stdin (iw_cli s))" by (rule ans(2))
    have "write_artifact E p what True gen (v\<lparr>iw_cli := d\<rparr>) = (r, t)" using rest False by simp
    from write_artifact_run [OF this] v obtain ok where "r = Inr ok" "others_kept p (iw_paths s) (iw_paths t)" "iw_cli t = d"
      "iw_paths t p = iw_paths s p \<or> (\<exists>data. gen = Some data \<and> iw_paths t p = Some (PathFile data 0x180))"
      "ok \<longrightarrow> (\<exists>data. iw_paths t p = Some (PathFile data 0x180))" by metis
    then show ?thesis unfolding step_result_def using rd c by (intro exI [of _ ok]) (auto simp: stepped_def node_mode_def)
  qed
qed

lemma initStep_run:
  assumes "initStep E force p what secret gen s = (r, t)" shows "step_result E force p secret gen s r t"
proof -
  define u where "u = s\<lparr>iw_tick := Suc (iw_tick s)\<rparr>"
  have u: "iw_paths u = iw_paths s" "iw_cli u = iw_cli s" by (simp_all add: u_def)
  consider (absent) "on_paths (path_Stat E p) s = (Inr (Inl PathNotExist), u)" "iw_paths s p = None" | (fault) "on_paths (path_Stat E p) s = (Inr (Inl PathIO), u)"
    | (present) n where "on_paths (path_Stat E p) s = (Inr (Inr n), u)" "iw_paths s p = Some n"
    by (cases "ie_fault E (iw_tick s)"; cases "iw_paths s p") (simp_all add: on_paths_def path_Stat_run u_def)
  then show ?thesis
  proof cases
    case absent
    then have "write_artifact E p what False gen u = (r, t)" using assms by (simp add: initStep_def)
    from write_artifact_run [OF this] u absent(2) obtain ok where "r = Inr ok" "others_kept p (iw_paths s) (iw_paths t)" "iw_cli t = iw_cli s"
      "iw_paths t p = iw_paths s p \<or> (\<exists>data. gen = Some data \<and> iw_paths t p = Some (PathFile data 0x180))"
      "ok \<longrightarrow> (\<exists>data. iw_paths t p = Some (PathFile data 0x180))" by metis
    then show ?thesis unfolding step_result_def using absent(2) by (intro exI [of _ ok]) (auto simp: stepped_def node_mode_def)
  next
    case fault
    then have t: "r = Inr False" "t = u\<lparr>iw_lines := iw_lines u @ [InitStepFailed what]\<rparr>" using assms by (simp_all add: initStep_def)
    show ?thesis unfolding t step_result_def by (auto simp: u stepped_def others_kept_def)
  next
    case present
    show ?thesis
    proof (cases force)
      case True
      then show ?thesis using step_forced [OF _ present(1) u, of what secret gen r t] assms by simp
    next
      case False
      then show ?thesis using step_kept [OF _ present u, of what secret gen r t] assms by simp
    qed
  qed
qed

section \<open>The whole command\<close>

definition artifact :: "initEnv \<Rightarrow> string \<Rightarrow> string \<Rightarrow> string \<Rightarrow> bytes option" where
  "artifact E coderURL dir p = (if p = DefaultHostKeyPath dir then generateHostKey E
     else if p = DefaultEncryptionKeyPath dir then generateEncryptionKey E
     else if p = DefaultConfigPath dir then Some (starterConfig coderURL) else None)"

text \<open>The files compared with those before: nothing disappears, contents change only by a permitted replacement, and a new file
  is hidden or a complete artifact.\<close>

definition evolved :: "bool \<Rightarrow> (string \<Rightarrow> bytes option) \<Rightarrow> (string \<rightharpoonup> pathNode) \<Rightarrow> (string \<rightharpoonup> pathNode) \<Rightarrow> bool" where
  "evolved replace A f g \<longleftrightarrow>
     (\<forall>p n. f p = Some n \<longrightarrow> (\<exists>m. g p = Some m \<and> (node_data m = node_data n \<or> replace \<and> (\<exists>d. A p = Some d \<and> m = PathFile d 0x180))))
     \<and> (\<forall>p b m. f p = None \<longrightarrow> g p = Some (PathFile b m) \<longrightarrow> hidden p \<or> A p = Some b \<and> m = 0x180)"

lemma evolved_refl: "evolved c A f f"
  by (simp add: evolved_def)

lemma evolved_dirs:
  assumes "evolved c A f g" "dirs_added g s" shows "evolved c A f (iw_paths s)"
proof -
  have d: "iw_paths s q = g q \<or> g q = None \<and> (\<exists>m. iw_paths s q = Some (PathDir m))" for q using assms(2) by (simp add: dirs_added_def)
  show ?thesis unfolding evolved_def
  proof (intro conjI allI impI)
    fix p n assume "f p = Some n"
    then show "\<exists>m. iw_paths s p = Some m \<and> (node_data m = node_data n \<or> c \<and> (\<exists>d. A p = Some d \<and> m = PathFile d 0x180))"
      using assms(1) d [of p] unfolding evolved_def by (metis option.distinct(1))
  next
    fix p b m assume "f p = None" "iw_paths s p = Some (PathFile b m)"
    then show "hidden p \<or> A p = Some b \<and> m = 0x180"
      using assms(1) d [of p] unfolding evolved_def by (metis option.inject pathNode.distinct(1))
  qed
qed

lemma evolved_step:
  assumes e: "evolved c A f g" and o: "others_kept p g h" and st: "stepped c' secret gen (g p) (h p) ok"
    and gen: "\<And>d. gen = Some d \<Longrightarrow> A p = Some d" and c: "c' \<Longrightarrow> c"
  shows "evolved c A f h"
  unfolding evolved_def
proof (intro conjI allI impI)
  fix q n assume f: "f q = Some n"
  then obtain m where m: "g q = Some m" "node_data m = node_data n \<or> c \<and> (\<exists>d. A q = Some d \<and> m = PathFile d 0x180)"
    using e unfolding evolved_def by blast
  show "\<exists>m. h q = Some m \<and> (node_data m = node_data n \<or> c \<and> (\<exists>d. A q = Some d \<and> m = PathFile d 0x180))"
  proof (cases "q = p")
    case True
    then consider "h q = g q" | "h q = Some (with_mode 0x180 m)" | d where "A q = Some d" "h q = Some (PathFile d 0x180)" c
      using st m(1) gen c unfolding stepped_def by fastforce
    then show ?thesis
    proof cases
      case 2
      then show ?thesis using m(2) by auto
    qed (use m in auto)
  next
    case False
    then show ?thesis using o m unfolding others_kept_def by (metis option.distinct(1))
  qed
next
  fix q b m assume f: "f q = None" and h: "h q = Some (PathFile b m)"
  have old: "hidden q \<or> A q = Some b \<and> m' = 0x180" if "g q = Some (PathFile b m')" for m' using e f that unfolding evolved_def by blast
  show "hidden q \<or> A q = Some b \<and> m = 0x180"
  proof (cases "q = p")
    case True
    then consider "h q = g q" | n where "g q = Some n" "h q = Some (with_mode 0x180 n)" | d where "A q = Some d" "h q = Some (PathFile d 0x180)"
      using st gen unfolding stepped_def by blast
    then show ?thesis
    proof cases
      case 2
      then obtain m' where "n = PathFile b m'" "m = 0x180" using h by (cases n) (auto simp: with_mode_def)
      then show ?thesis using old 2(1) by blast
    qed (use h old in auto)
  next
    case False
    then show ?thesis using o h old unfolding others_kept_def by metis
  qed
qed

text \<open>The three steps together.\<close>

lemma init_artifacts_run:
  assumes run: "init_artifacts E force coderURL dir s = (r, t)" and dir: "dir \<noteq> []" and e: "evolved c (artifact E coderURL dir) f (iw_paths s)"
    and c: "force \<Longrightarrow> confirms (ca_lib (ie_cli E)) (cx_stdin (iw_cli s)) \<Longrightarrow> c"
  shows "\<exists>ok. r = Inr ok \<and> cx_store (iw_cli t) = cx_store (iw_cli s) \<and> evolved c (artifact E coderURL dir) f (iw_paths t)
    \<and> (ok \<longrightarrow> (\<exists>k. iw_paths t (DefaultHostKeyPath dir) = Some k \<and> node_mode k = 0x180) \<and> (\<exists>k. iw_paths t (DefaultEncryptionKeyPath dir) = Some k \<and> node_mode k = 0x180)
       \<and> iw_paths t (DefaultConfigPath dir) \<noteq> None)"
proof -
  let ?h = "DefaultHostKeyPath dir" and ?k = "DefaultEncryptionKeyPath dir" and ?y = "DefaultConfigPath dir" and ?A = "artifact E coderURL dir" and ?L = "ca_lib (ie_cli E)"
  note ne = artifact_paths [OF dir]
  obtain r1 u where 1: "initStep E force ?h ''SSH host key'' True (generateHostKey E) s = (r1, u)" by fastforce
  obtain a where a: "r1 = Inr a" "others_kept ?h (iw_paths s) (iw_paths u)" "cx_store (iw_cli u) = cx_store (iw_cli s)"
    "confirms ?L (cx_stdin (iw_cli u)) \<longrightarrow> confirms ?L (cx_stdin (iw_cli s))"
    "stepped (force \<and> confirms ?L (cx_stdin (iw_cli s))) True (generateHostKey E) (iw_paths s ?h) (iw_paths u ?h) a"
    using initStep_run [OF 1] unfolding step_result_def by blast
  obtain r2 v where 2: "initStep E force ?k ''credential encryption key'' True (generateEncryptionKey E) u = (r2, v)" by fastforce
  obtain b where b: "r2 = Inr b" "others_kept ?k (iw_paths u) (iw_paths v)" "cx_store (iw_cli v) = cx_store (iw_cli u)"
    "confirms ?L (cx_stdin (iw_cli v)) \<longrightarrow> confirms ?L (cx_stdin (iw_cli u))"
    "stepped (force \<and> confirms ?L (cx_stdin (iw_cli u))) True (generateEncryptionKey E) (iw_paths u ?k) (iw_paths v ?k) b"
    using initStep_run [OF 2] unfolding step_result_def by blast
  obtain r3 w where 3: "initStep E force ?y ''starter config'' False (Some (starterConfig coderURL)) v = (r3, w)" by fastforce
  obtain d where d: "r3 = Inr d" "others_kept ?y (iw_paths v) (iw_paths w)" "cx_store (iw_cli w) = cx_store (iw_cli v)"
    "stepped (force \<and> confirms ?L (cx_stdin (iw_cli v))) False (Some (starterConfig coderURL)) (iw_paths v ?y) (iw_paths w ?y) d"
    using initStep_run [OF 3] unfolding step_result_def by blast
  have t: "r = Inr (d \<and> b \<and> a)" "t = w" using run 1 2 3 a(1) b(1) d(1) by (auto simp: init_artifacts_def)
  have e1: "evolved c ?A f (iw_paths u)" by (rule evolved_step [OF e a(2,5)]) (use c in \<open>auto simp: artifact_def\<close>)
  have e2: "evolved c ?A f (iw_paths v)" by (rule evolved_step [OF e1 b(2,5)]) (use c a(4) ne in \<open>auto simp: artifact_def\<close>)
  have e3: "evolved c ?A f (iw_paths w)" by (rule evolved_step [OF e2 d(2,4)]) (use c a(4) b(4) ne in \<open>auto simp: artifact_def\<close>)
  have keep: "others_kept p g h \<Longrightarrow> q \<noteq> p \<Longrightarrow> g q = Some n \<Longrightarrow> h q = Some n" for p q g h n unfolding others_kept_def by (metis option.distinct(1))
  have "(\<exists>k. iw_paths w ?h = Some k \<and> node_mode k = 0x180) \<and> (\<exists>k. iw_paths w ?k = Some k \<and> node_mode k = 0x180) \<and> iw_paths w ?y \<noteq> None" if ok: "d \<and> b \<and> a"
  proof -
    obtain k where "iw_paths u ?h = Some k" "node_mode k = 0x180" using a(5) ok unfolding stepped_def by blast
    then have "iw_paths w ?h = Some k" "node_mode k = 0x180" using keep [OF b(2)] keep [OF d(2)] ne by simp_all
    moreover obtain k' where "iw_paths v ?k = Some k'" "node_mode k' = 0x180" using b(5) ok unfolding stepped_def by blast
    then have "iw_paths w ?k = Some k'" "node_mode k' = 0x180" using keep [OF d(2)] ne by simp_all
    moreover have "iw_paths w ?y \<noteq> None" using d(4) ok unfolding stepped_def by blast
    ultimately show ?thesis by blast
  qed
  then show ?thesis using t a(3) b(3) d(3) e3 by auto
qed

text \<open>Reading and printing leave the files and the store alone.\<close>

definition quiet :: "(string \<rightharpoonup> pathNode) \<Rightarrow> store \<Rightarrow> initRun \<Rightarrow> bool" where
  "quiet f d s \<longleftrightarrow> dirs_added f s \<and> cx_store (iw_cli s) = d"

lemma mkdir_chain_cli [keeps_intros]: "keeps (same_cli k) (mkdir_chain E m ps)"
proof (induction ps)
  case (Cons q ps)
  have mk: "keeps (same_cli k) (path_Mkdir E q m)" unfolding path_Mkdir_def by (intro keeps_intros)
  have x: "keeps (same_cli k) (case r of Inr (PathDir _) \<Rightarrow> a | Inr (PathFile _ _) \<Rightarrow> b | Inl _ \<Rightarrow> c)"
    if "keeps (same_cli k) a" "keeps (same_cli k) b" "keeps (same_cli k) c" for r :: "pathError + pathNode" and a b c :: "unit pathm"
    using that by (auto split: sum.split pathNode.split)
  show ?case unfolding mkdir_chain.simps by (intro keeps_intros x mk Cons.IH)
qed (simp add: keeps_def)

lemma dirs_keep_cli [keeps_intros]: "keeps (same_cli k) (ensureDir E p m)" "keeps (same_cli k) (need_dir E what p)"
proof -
  show "keeps (same_cli k) (ensureDir E p m)" for m unfolding ensureDir_def path_MkdirAll_def by (intro keeps_intros)
  then show "keeps (same_cli k) (need_dir E what p)" unfolding need_dir_def init_exit_def by (intro keeps_intros)
qed

lemma quiet_keeps [keeps_intros]:
  "keeps (quiet f d) (init_say l)" "keeps (quiet f d) (path_ReadFile E p)" "keeps (quiet f d) (on_paths (ensureDir E p m))" "keeps (quiet f d) (init_exit c l)"
proof -
  show say: "keeps (quiet f d) (init_say l)" for l by (simp add: keeps_def quiet_def init_say_def dirs_added_def)
  then show "keeps (quiet f d) (init_exit c l)" unfolding init_exit_def by (intro keeps_intros)
  show "keeps (quiet f d) (path_ReadFile E p)"
    by (simp add: keeps_def quiet_def path_ReadFile_def bnd_def on_paths_def path_call_run dirs_added_def)
  have "keeps (same_cli k) (on_paths (ensureDir E p m))" for k by (intro keeps_intros)
  moreover have "keeps (dirs_added f) (on_paths (ensureDir E p m))" by (intro keeps_intros)
  ultimately show "keeps (quiet f d) (on_paths (ensureDir E p m))" unfolding keeps_def quiet_def same_cli_def by metis
qed

lemma runtime_dirs_keeps [keeps_intros]: "keeps (quiet f d) (runtime_dirs E ds)"
proof (induction ds)
  case (Cons p ds)
  show ?case unfolding runtime_dirs.simps by (intro keeps_intros Cons.IH)
qed (simp add: keeps_def)

lemma need_dir_keeps [keeps_intros]: "keeps (quiet f d) (need_dir E what p)"
  unfolding need_dir_def by (intro keeps_intros)

lemma summary_keeps [keeps_intros]: "keeps (quiet f d) (printInitSummary E dir)"
  unfolding printInitSummary_def by (intro keeps_intros)

lemma loud_init: "init_exit code l s \<noteq> (Inr a, t)"
  by (simp add: init_exit_def)

text \<open>Seeding changes no file, and it closes the store whatever fails.\<close>

abbreviation init_wf :: "golib \<Rightarrow> initRun \<Rightarrow> bool" where
  "init_wf L s \<equiv> store_wf L (cx_store (iw_cli s))"

lemma on_store_triple:
  "(\<And>x u. store_wf L x \<Longrightarrow> Q (snd (m x))) \<Longrightarrow> triple (init_wf L) (on_cli (on_store m)) (\<lambda>_ s. Q (cx_store (iw_cli s))) R"
  by (auto simp: triple_def on_cli_def on_store_def split: prod.splits sum.splits) (metis snd_conv)+

lemma seed_store_settles:
  assumes "settled L (cx_store (iw_cli s))" shows "settled L (cx_store (iw_cli (snd (seed_store E dir s))))"
proof -
  let ?C = "ie_cli E" and ?S = "\<lambda>_ s. settled L (cx_store (iw_cli s))"
  have parse: "triple (init_wf L) (init_parse E p) (\<lambda>_. init_wf L) R" for p R
    by (simp add: triple_def init_parse_def path_ReadFile_def bnd_def on_paths_def path_call_run)
  have ens: "triple (init_wf L) (bnd (on_cli (on_store (EnsureDeployment (ca_env ?C) dep))) (\<lambda>r. ret (isl r))) (\<lambda>_. init_wf L) R" for dep R
    by (rule triple_bnd [OF on_store_triple [where Q = "store_wf L"]]) (auto intro: wf_ensure triple_pure)
  have close: "triple (init_wf L) (on_cli (on_store (store_Close (ca_env ?C)))) ?S ?S"
    by (rule on_store_triple [where Q = "settled L"]) (rule wf_close)
  have out: "triple (\<lambda>s. settled L (cx_store (iw_cli s))) (init_exit k l) Q ?S" for k l Q by (simp add: triple_def init_exit_def)
  have tail: "triple (init_wf L)
      (bnd (init_parse E p) (\<lambda>parsed. let cfg = map_option (ApplyStateDir (gl_stateDir (ca_globals ?C))) parsed in
       bnd (case cfg of None \<Rightarrow> ret True | Some cfg \<Rightarrow> (case DeploymentFromConfig ?C cfg of None \<Rightarrow> ret True
             | Some dep \<Rightarrow> bnd (on_cli (on_store (EnsureDeployment (ca_env ?C) dep))) (\<lambda>r. ret (isl r)))) (\<lambda>cfgErr.
       bnd (on_cli (on_store (store_Close (ca_env ?C)))) (\<lambda>closed.
       if isl closed then init_exit exitError (InitFailed ''closing store'')
       else if cfgErr then init_exit exitError (InitFailed ''seeding deployment'') else ret cfg)))) ?S ?S" for p
    unfolding Let_def
    by (rule triple_bnd [OF parse], rule triple_bnd [where Q = "\<lambda>_. init_wf L"], intro triple_case_option triple_pure ens)
      (auto intro!: triple_bnd [OF close] triple_if out triple_pure)
  obtain x u where x: "store_Open (ca_env ?C) dir True (cx_store (iw_cli s)) = (x, u)" by fastforce
  define v where "v = s\<lparr>iw_cli := (iw_cli s)\<lparr>cx_store := u\<rparr>\<rparr>"
  have o: "on_cli (on_store (store_Open (ca_env ?C) dir True)) s = (Inr x, v)" by (simp add: on_cli_def on_store_def x v_def)
  show ?thesis
  proof (cases x)
    case (Inl e)
    then show ?thesis using wf_open(2) [OF assms, of "ca_env ?C" dir True e] x o by (simp add: seed_store_def Let_def init_exit_def v_def)
  next
    case (Inr y)
    have "init_wf L v" using wf_open(1) [OF assms, of "ca_env ?C" dir True] x by (simp add: v_def)
    from triple_snd [OF tail this, of "DefaultConfigPath dir"] show ?thesis using o Inr by (simp add: seed_store_def Let_def)
  qed
qed

definition with_paths :: "(string \<rightharpoonup> pathNode) \<Rightarrow> initRun \<Rightarrow> bool" where
  "with_paths f s \<longleftrightarrow> iw_paths s = f"

lemma seed_store_paths: "iw_paths (snd (seed_store E dir s)) = iw_paths s"
proof -
  have c: "keeps (with_paths f) (on_cli m)" for f and m :: "'a cli" by (auto simp: keeps_def with_paths_def on_cli_def split: prod.split)
  have p: "keeps (with_paths f) (init_parse E q)" "keeps (with_paths f) (init_exit k l)" for f q k l
    by (auto simp: keeps_def with_paths_def init_parse_def path_ReadFile_def bnd_def on_paths_def path_call_run init_exit_def init_say_def)
  have "keeps (with_paths (iw_paths s)) (seed_store E dir)" unfolding seed_store_def Let_def
    by (intro keeps_intros c p)
  then show ?thesis by (simp add: keeps_def with_paths_def)
qed

definition secrets_in_place :: "string \<Rightarrow> (string \<rightharpoonup> pathNode) \<Rightarrow> bool" where
  "secrets_in_place dir g \<longleftrightarrow> (\<exists>k. g (DefaultHostKeyPath dir) = Some k \<and> node_mode k = 0x180)
     \<and> (\<exists>k. g (DefaultEncryptionKeyPath dir) = Some k \<and> node_mode k = 0x180) \<and> g (DefaultConfigPath dir) \<noteq> None"

lemma secrets_dirs: "secrets_in_place dir f \<Longrightarrow> dirs_added f s \<Longrightarrow> secrets_in_place dir (iw_paths s)"
  unfolding secrets_in_place_def dirs_added_def by (metis option.distinct(1))

lemma dirs_added_refl: "dirs_added (iw_paths s) s"
  by (simp add: dirs_added_def)

lemma need_dir_run:
  assumes "need_dir E what p s = (r, t)" shows "dirs_added (iw_paths s) t" "iw_cli t = iw_cli s"
  using keepsD [OF need_dir_keeps, of "iw_paths s" "cx_store (iw_cli s)" s E what p] keepsD [OF dirs_keep_cli(2), of "iw_cli s" s E what p] assms
  by (auto simp: quiet_def same_cli_def dirs_added_refl)

lemma prepare_state_run:
  assumes run: "prepare_state E force coderURL dir s = (r, t)" and dir: "dir \<noteq> []" and L: "settled L (cx_store (iw_cli s))"
    and c: "force \<Longrightarrow> confirms (ca_lib (ie_cli E)) (cx_stdin (iw_cli s)) \<Longrightarrow> c"
  shows "evolved c (artifact E coderURL dir) (iw_paths s) (iw_paths t) \<and> settled L (cx_store (iw_cli t)) \<and> (r = Inr () \<longrightarrow> secrets_in_place dir (iw_paths t))"
  using run unfolding prepare_state_def
proof (elim bndE)
  let ?A = "artifact E coderURL dir"
  note e0 = evolved_refl [of c ?A "iw_paths s"]
  { fix e assume a: "need_dir E ''state directory'' dir s = (Inl e, t)" "r = Inl e"
    show ?thesis using evolved_dirs [OF e0 need_dir_run(1) [OF a(1)]] need_dir_run(2) [OF a(1)] a(2) L by simp }
  fix x u assume u: "need_dir E ''state directory'' dir s = (Inr x, u)"
  have e1: "evolved c ?A (iw_paths s) (iw_paths u)" "iw_cli u = iw_cli s" using need_dir_run(2) [OF u] evolved_dirs [OF e0 need_dir_run(1) [OF u]] by simp_all
  { fix e assume a: "need_dir E ''secrets directory'' (filepath_Join dir ''secrets'') u = (Inl e, t)" "r = Inl e"
    show ?thesis using evolved_dirs [OF e1(1) need_dir_run(1) [OF a(1)]] need_dir_run(2) [OF a(1)] e1(2) a(2) L by simp }
  fix y v assume v: "need_dir E ''secrets directory'' (filepath_Join dir ''secrets'') u = (Inr y, v)"
  have e2: "evolved c ?A (iw_paths s) (iw_paths v)" "iw_cli v = iw_cli s" using need_dir_run(2) [OF v] evolved_dirs [OF e1(1) need_dir_run(1) [OF v]] e1(2) by simp_all
  have cc: "force \<Longrightarrow> confirms (ca_lib (ie_cli E)) (cx_stdin (iw_cli v)) \<Longrightarrow> c" using c e2(2) by simp
  have art: "\<exists>ok. q = Inr ok \<and> cx_store (iw_cli w) = cx_store (iw_cli v) \<and> evolved c ?A (iw_paths s) (iw_paths w) \<and> (ok \<longrightarrow> secrets_in_place dir (iw_paths w))"
    if "init_artifacts E force coderURL dir v = (q, w)" for q w
    using init_artifacts_run [OF that dir e2(1) cc] unfolding secrets_in_place_def by blast
  { fix e assume "init_artifacts E force coderURL dir v = (Inl e, t)"
    then show ?thesis using art by blast }
  fix ok w assume w: "init_artifacts E force coderURL dir v = (Inr ok, w)"
    and rest: "(if \<not> ok then raise exitError else bnd (seed_store E dir) (\<lambda>cfg. bnd (case cfg of None \<Rightarrow> ret ()
       | Some cfg \<Rightarrow> runtime_dirs E [dp_WorkingDirectory (cfg_Deployment cfg), dp_CoderGlobalConfig (cfg_Deployment cfg)]) (\<lambda>_. printInitSummary E dir))) w = (r, t)"
  have e3: "evolved c ?A (iw_paths s) (iw_paths w)" "settled L (cx_store (iw_cli w))" "ok \<Longrightarrow> secrets_in_place dir (iw_paths w)"
    using art [OF w] e2(2) L by auto
  show ?thesis
  proof (cases ok)
    case False
    then show ?thesis using rest e3 by auto
  next
    case True
    obtain z a where a: "seed_store E dir w = (z, a)" by fastforce
    have e4: "iw_paths a = iw_paths w" "settled L (cx_store (iw_cli a))" using seed_store_paths [of E dir w] seed_store_settles [OF e3(2), of E dir] a by auto
    let ?m = "\<lambda>cfg. bnd (case cfg of None \<Rightarrow> ret ()
       | Some cfg \<Rightarrow> runtime_dirs E [dp_WorkingDirectory (cfg_Deployment cfg), dp_CoderGlobalConfig (cfg_Deployment cfg)]) (\<lambda>_. printInitSummary E dir)"
    have q: "keeps (quiet (iw_paths a) (cx_store (iw_cli a))) (?m cfg)" for cfg by (intro keeps_intros)
    have "dirs_added (iw_paths a) t \<and> cx_store (iw_cli t) = cx_store (iw_cli a)"
    proof (cases z)
      case (Inl e)
      then show ?thesis using rest True a by (auto simp: dirs_added_refl)
    next
      case (Inr cfg)
      then have "?m cfg a = (r, t)" using rest True a by simp
      then show ?thesis using keepsD [OF q, of a cfg] by (simp add: quiet_def dirs_added_refl)
    qed
    then show ?thesis using evolved_dirs e3 e4 secrets_dirs True by metis
  qed
qed

text \<open>An early return has an exit code other than success.\<close>

abbreviation fails_loud :: "'a initm \<Rightarrow> bool" where
  "fails_loud m \<equiv> triple (\<lambda>_. True) m (\<lambda>_ _. True) (\<lambda>e _. e \<noteq> exitOK)"

lemma fails_loud_basic:
  "fails_loud (ret a)" "fails_loud (init_say l)" "fails_loud (on_paths m)" "fails_loud (on_cli (on_store k))" "fails_loud (init_exit exitError l)"
  "fails_loud (raise exitError)" "fails_loud (path_ReadFile E p)" "fails_loud (init_parse E p)" "fails_loud (initStep E force p what sec gen)"
proof -
  show "fails_loud (initStep E force p what sec gen)" using initStep_run [of E force p what sec gen] unfolding step_result_def by (fastforce simp: triple_def split: prod.split sum.split)
qed (simp_all add: triple_def init_say_def on_paths_def on_cli_def on_store_def init_exit_def path_ReadFile_def init_parse_def bnd_def path_call_run split: prod.split)

lemma fails_loud_bnd: "fails_loud m \<Longrightarrow> (\<And>a. fails_loud (f a)) \<Longrightarrow> fails_loud (bnd m f)"
  by (rule triple_bnd)

lemma fails_loud_sum: "(\<And>a. fails_loud (f a)) \<Longrightarrow> (\<And>a. fails_loud (g a)) \<Longrightarrow> fails_loud (case x of Inl a \<Rightarrow> f a | Inr a \<Rightarrow> g a)"
  by (cases x) auto

lemma runtime_dirs_loud: "fails_loud (runtime_dirs E ds)"
proof (induction ds)
  case (Cons d ds)
  then show ?case unfolding runtime_dirs.simps by (intro triple_if fails_loud_bnd fails_loud_basic)
qed (simp add: triple_def)

lemma prepare_state_loud: "fails_loud (prepare_state E force coderURL dir)"
  unfolding prepare_state_def need_dir_def init_artifacts_def seed_store_def printInitSummary_def Let_def
  by (intro fails_loud_bnd triple_if triple_case_option fails_loud_sum runtime_dirs_loud fails_loud_basic)

section \<open>The property\<close>

text \<open>C11. Initialization replaces nothing silently: whatever system calls fail, no file disappears, and the contents of a file change only
  if \<open>--force\<close> was given, the word \<open>overwrite\<close> was typed in, and the file is one of the three artifacts, which then holds its
  complete new contents with mode 0600. A new file is complete with mode 0600 under its name, or a hidden temporary one. Success
  means that both secrets are there with mode 0600 and that the configuration exists. The store is left well formed and closed.\<close>

theorem init_replaces_nothing:
  assumes run: "run_init (cmdInit E args) s = (code, t)" and L: "settled L (cx_store (iw_cli s))"
  shows "settled L (cx_store (iw_cli t)) \<and> (\<exists>coderURL dir.
    evolved ((\<exists>vals rest. flag_Parse [(''force'', True)] [] args = Some (vals, rest) \<and> flag_Bool vals ''force'') \<and> confirms (ca_lib (ie_cli E)) (cx_stdin (iw_cli s)))
      (artifact E coderURL dir) (iw_paths s) (iw_paths t)
    \<and> (code = exitOK \<longrightarrow> dir \<noteq> [] \<and> secrets_in_place dir (iw_paths t)))"
    (is "_ \<and> (\<exists>coderURL dir. ?P coderURL dir)")
proof -
  let ?c = "(\<exists>vals rest. flag_Parse [(''force'', True)] [] args = Some (vals, rest) \<and> flag_Bool vals ''force'') \<and> confirms (ca_lib (ie_cli E)) (cx_stdin (iw_cli s))"
  have early: ?thesis if "cmdInit E args s = init_exit exitUsage l s" for l
  proof -
    have "code = exitUsage" "t = s\<lparr>iw_lines := iw_lines s @ [l]\<rparr>" using run that by (auto simp: run_init_def init_exit_def)
    then show ?thesis using L by (auto simp: evolved_refl)
  qed
  show ?thesis
  proof (cases "\<exists>vals domain coderURL. flag_Parse [(''force'', True)] [] args = Some (vals, [domain])
      \<and> coderURLFromDomain (ca_lib (ie_cli E)) (ie_url E) domain = Some coderURL")
    case False
    then have "\<exists>l. cmdInit E args s = init_exit exitUsage l s"
      unfolding cmdInit_def by (auto split: option.split list.split prod.split)
    then show ?thesis using early by blast
  next
    case True
    then obtain vals domain coderURL where p: "flag_Parse [(''force'', True)] [] args = Some (vals, [domain])"
      "coderURLFromDomain (ca_lib (ie_cli E)) (ie_url E) domain = Some coderURL" by blast
    obtain dir where d: "init_state_dir E s = (Inr dir, s)" by (simp add: init_state_dir_def)
    show ?thesis
    proof (cases "dir = []")
      case True
      then show ?thesis using early p d by (simp add: cmdInit_def)
    next
      case False
      obtain r u where u: "prepare_state E (flag_Bool vals ''force'') coderURL dir s = (r, u)" by fastforce
      have "cmdInit E args s = (r, u)" using p d False u by (simp add: cmdInit_def)
      then have t: "t = u" "code = exitOK \<Longrightarrow> r = Inr () \<or> r = Inl exitOK" using run by (auto simp: run_init_def split: sum.splits)
      have "r \<noteq> Inl exitOK" using tripleD(2) [OF prepare_state_loud TrueI, of E "flag_Bool vals ''force''" coderURL dir s exitOK u] u by auto
      have cc: "flag_Bool vals ''force'' \<Longrightarrow> confirms (ca_lib (ie_cli E)) (cx_stdin (iw_cli s)) \<Longrightarrow> ?c" using p(1) by blast
      have f: "evolved ?c (artifact E coderURL dir) (iw_paths s) (iw_paths u)" "settled L (cx_store (iw_cli u))" "r = Inr () \<Longrightarrow> secrets_in_place dir (iw_paths u)"
        using prepare_state_run [OF u False L cc] by simp_all
      have "?P coderURL dir" using f t \<open>r \<noteq> Inl exitOK\<close> False by simp
      then show ?thesis using f(2) t(1) by blast
    qed
  qed
qed

definition demo_init :: initEnv where
  "demo_init = \<lparr>ie_cli = demo_cli, ie_url = (\<lambda>u. Some \<lparr>up_User = False, up_Path = [], up_RawQuery = [], up_Fragment = [], up_Host = drop 8 u\<rparr>),
     ie_fault = (\<lambda>_. False), ie_short = (\<lambda>_. 0), ie_rand = (\<lambda>_. 7), ie_umask = 0x12, ie_GenerateKey = Some ''priv'',
     ie_MarshalPrivateKey = (\<lambda>k _. Some k), ie_EncodeToMemory = (\<lambda>b. b), ie_random = (\<lambda>n. Some (replicate n (CHR ''r''))), ie_fingerprint = (\<lambda>_. None)\<rparr>"

definition demo_init_run :: initRun where
  "demo_init_run = \<lparr>iw_cli = demo_run, iw_paths = [''/state'' \<mapsto> PathDir 0x1C0, ''/state/config.yaml'' \<mapsto> PathFile ''mine'' 0x1A4], iw_tick = 0, iw_lines = []\<rparr>"

lemma demo_init_result: "fst (run_init (cmdInit demo_init [''c.io'']) demo_init_run) = exitOK"
  by code_simp

theorem init_replaces_nothing_witness:
  "\<exists>t. run_init (cmdInit demo_init [''c.io'']) demo_init_run = (exitOK, t) \<and> settled demo_lib (cx_store (iw_cli t))
     \<and> (\<exists>dir. dir \<noteq> [] \<and> secrets_in_place dir (iw_paths t))"
proof -
  obtain t where t: "run_init (cmdInit demo_init [''c.io'']) demo_init_run = (exitOK, t)" using demo_init_result by (metis prod.collapse)
  have "settled demo_lib (cx_store (iw_cli demo_init_run))" using demo_run_settled by (simp add: demo_init_run_def)
  from init_replaces_nothing [OF t this] t show ?thesis by blast
qed

end
