(* ===== verification/Spec2Isabelle.thy ===== *)
theory Spec2Isabelle
  imports EnrollProps KeyMgmtProps ChannelProps ConfigCheck SessionProps TunnelProps ServerProps ShutdownProps AuditProps TokenSetProps MetricsProps DoctorProps InitProps
begin

text \<open>
  A verification development of the SSH gateway for Coder workspaces (the Go program under \<open>src/\<close>).

  \<^bold>\<open>The program.\<close> The gateway is an SSH server in front of a Coder deployment. A user's SSH keys belong to an account
  of the gateway, which is bound to a Coder user and holds an encrypted session token of that user. A connection passes
  a rate gate and admission limits, authenticates with a key (\<open>sshauth\<close>), which looks the key up in the flat-file store
  and has the stored token checked by the control plane (\<open>coderapi\<close>); a token that expired is renewed, and a new key
  enrolled, in a keyboard-interactive dialogue in which the user pastes a token. An authenticated workspace connection
  opens channels; each is admitted against limits, its target parsed (\<open>route\<close>), its credential loaded again, and a
  \<open>coder ssh\<close> process started and supervised (\<open>tunnel\<close>). Users with the key-management name get a line console instead
  (\<open>keymgmt\<close>). Events are written to an audit log, and an operator administers the same store from the command line.

  \<^bold>\<open>Conventions.\<close> A Go struct is a record, its methods are functions on it; a fallible method is a value of the
  state-and-error monad of \<open>Prelude\<close> (\<open>sr\<close>: an error keeps the writes that were made), so every early return is a branch.
  Strings are byte strings, UUIDs 128-bit words, generations 64-bit words that wrap, times and durations nanoseconds as
  integers. Code outside \<open>src/\<close> is a parameter: the \<open>uuid\<close> package and Unicode tables (\<open>golib\<close>, law \<open>uuid_lawful\<close>), the
  AES-GCM cipher (\<open>aead_lawful\<close>), the HTTP exchange (\<open>api\<close>), the SSH library (the handshake of \<open>Server\<close>, the inner session
  of \<open>Sessions\<close>, \<open>ssh.Unmarshal\<close>), the JSON and YAML decoders and the operating system. Every system call of the store may
  fail: the environment decides by a running counter, so a theorem for all environments covers all patterns of errors.
  Concurrency is interleaving at the granularity of the code's locks: before every store call of a connection an
  arbitrary list of store operations of others runs (\<open>wo_others\<close>), before every counter call an arbitrary list of counter
  operations (\<open>su_counters\<close>), what a \<open>select\<close> takes next is a list of events, and the accept loop with its shutdown is the
  inductive relation \<open>serve_step\<close>.

  \<^bold>\<open>Theories and source files.\<close>
  \<^item> \<open>Prelude\<close>: shared vocabulary, the monad with its rules for invariants (\<open>keeps\<close>) and outcomes (\<open>triple\<close>).
  \<^item> \<open>Core\<close>: \<open>internal/core\<close>, the domain types and detail codes.
  \<^item> \<open>Route\<close>: \<open>internal/route\<close>, the target grammar.
  \<^item> \<open>Config\<close>, \<open>ConfigCheck\<close>: \<open>internal/config\<close>, defaults, overrides and validation.
  \<^item> \<open>Limits\<close>, \<open>RateLimits\<close>: \<open>internal/limits\<close>, admission counters with their release closures, token buckets.
  \<^item> \<open>Secretbox\<close>: \<open>internal/secretbox\<close>, sealing, associated data, key provider.
  \<^item> \<open>Files\<close>, \<open>Store\<close>, \<open>Credentials\<close>: \<open>internal/store\<close>, atomic writes, accounts, keys, credentials. \<open>StoreView\<close>, \<open>StoreOps\<close>,
    \<open>CredOps\<close> lift them to the image of the directories: one outcome rule per operation that holds whatever fails.
    \<open>StoreInv\<close>, \<open>StoreProps\<close>, \<open>KeyProps\<close>, \<open>StoreLife\<close> hold the invariant, the properties, opening and closing.
  \<^item> \<open>Permissions\<close>, \<open>SshAuth\<close>, \<open>Enrollment\<close>: \<open>internal/sshauth\<close>, with \<open>CoderApi\<close> for \<open>internal/coderapi\<close>; properties in
    \<open>AuthLoops\<close>, \<open>AuthProps\<close>, \<open>EnrollProps\<close>.
  \<^item> \<open>Channels\<close>, \<open>Server\<close>, \<open>ProxyHeader\<close>: \<open>internal/server\<close>; properties in \<open>ChannelProps\<close>, \<open>ServerProps\<close>, \<open>ShutdownProps\<close>.
  \<^item> \<open>Tunnels\<close>, \<open>Sessions\<close>: \<open>internal/tunnel\<close>; properties in \<open>TunnelProps\<close>, \<open>SessionProps\<close>.
  \<^item> \<open>KeyMgmt\<close>: \<open>internal/keymgmt\<close>; properties in \<open>KeyMgmtProps\<close>.
  \<^item> \<open>AuditLog\<close>: \<open>internal/audit\<close> and the retention job; properties in \<open>AuditProps\<close>.
  \<^item> \<open>Cli\<close>: the command line of \<open>internal/app\<close>; properties in \<open>CliProps\<close> and \<open>TokenSetProps\<close>.
  \<^item> \<open>Metrics\<close>: \<open>internal/metrics\<close>; properties in \<open>MetricsProps\<close>. \<open>Instrument\<close>: the measured verifier, store and audit bridge.
  \<^item> \<open>Service\<close>: \<open>internal/health\<close> and the serve command, with the running service as the relation \<open>service_step\<close>; properties
    in \<open>ServiceProps\<close>.
  \<^item> \<open>Init\<close>: the init command over a file system whose calls may fail; properties in \<open>InitProps\<close>. \<open>Doctor\<close>: the diagnosis and
    the dispatch of commands; properties in \<open>DoctorProps\<close>.

  \<^bold>\<open>What is shown.\<close> Authentication: a login, a renewal and an enrollment rest on the key, the stored credential and the
  verdict of the control plane, whatever other connections do to the store meanwhile; no enrollment moves a linked key;
  prompts end and attempts are bounded. Store: every reachable state is well formed under all patterns of failing
  system calls, writes are atomic, generations are a compare-and-set, tokens survive sealing and key rotation, deletion
  is complete, and a lookup accepts exactly the enrolled keys. Server: every admission slot is given back on every path
  under every interleaving, tokens reach a process only for vetted workspace channels, the server returns only when its
  handlers have. Tunnels and sessions: what reaches a command line, what diagnostics can leak, what the code of an ended
  run says, that the calls on the inner session are well typed and the optimistic answers agree with the live bridge.
  Parsers and encoders are characterised exactly (targets, PROXY header, terminal modes, permissions, audit lines).
  Administration: no command can break the store, a disconnected account is shut out, a token is stored only for the user
  the control plane verified it for; init replaces nothing without a confirmation and writes secrets complete or not at
  all; what doctor approves serve accepts, and its verdict does not depend on the network. Service: readiness is exactly
  the local checks, an overload never looks like an invalid token, metric labels stay in a fixed set, the serve command
  gives its resources back on every path, and a failed listener does not end the service.

  \<^bold>\<open>Interfaces.\<close> \<open>counted_limit\<close> (interpreted as \<open>plain\<close> and \<open>keyed\<close> semaphores), \<open>dir_slot\<close> and \<open>viewed_slot\<close> (the four
  directories of the store), \<open>prompt_loop\<close> (renewal and enrollment), \<open>console_store\<close> (the flat-file store), \<open>quiet_effects\<close>
  (three classes of effects a handler may have).

  \<^bold>\<open>Loops.\<close> All loops are total functions, most structural on the events or bytes that are left, except the wait for active
  channels at shutdown, which depends on the clock: it is a \<open>partial_function\<close>, and \<open>drain_bounded\<close> shows that it
  returns within a number of polls given by the drain period.

  \<^bold>\<open>Not modelled.\<close> The registry of metrics with its text format and the HTTP servers around the handlers of metrics and
  health, which belong to libraries; the relays of port-forwarding channels through the inner client, which copy bytes between
  two channels of the SSH library; the fields of TLS and HTTP transport configurations; the terminal settings of the password
  prompt, the texts of usage and version; structured log records and the wiping of token buffers, which have no effect a
  theorem here could observe; test support.
\<close>

end
